(* ===== verification/Js_Prelude.thy ===== *)
theory Js_Prelude
  imports Complex_Main "HOL-Library.Char_ord" "HOL-Library.List_Lexorder"
begin

text \<open>
  The shared base of the development: the JavaScript values and string operations the
  TypeScript sources use, and the generic lemmas on lists and strings the components share.

  \<^item> \<^term>\<open>jsval\<close> is the type of an \<open>unknown\<close> value (a parsed JSON document, the \<open>raw\<close> field of
    a message): \<open>undefined\<close>, \<open>null\<close>, booleans, numbers, strings, arrays and objects as
    association lists with the insertion order of their keys.
  \<^item> Numbers are exact rationals with the three non-finite values; the two zeros of the
    language are one value here (no source modelled distinguishes them).
  \<^item> Strings are lists of 8-bit code units. Text outside Latin-1 (the CJK phrase tables, the
    warning sign of error replies) is therefore not represented, and the definitions that
    use such literals say what they leave out.
\<close>

section \<open>Collections of the development\<close>

named_theorems js_simps \<open>evaluation of the JavaScript value operations\<close>
named_theorems frame_simps \<open>fields an operation leaves unchanged\<close>
named_theorems inv_intros \<open>preservation of component invariants\<close>

section \<open>Values\<close>

datatype jsnum = Fin rat | NaN | PosInf | NegInf

datatype jsval =
    JUndef
  | JNull
  | JBool bool
  | JNum jsnum
  | JStr string
  | JArr "jsval list"
  | JObj "(string \<times> jsval) list"

text \<open>\<open>v?.k\<close>: the property \<open>k\<close> of a value, \<open>undefined\<close> on everything but an object that has it.\<close>

definition get_prop :: "jsval \<Rightarrow> string \<Rightarrow> jsval" where
  "get_prop v k = (case v of JObj ps \<Rightarrow> (case map_of ps k of Some w \<Rightarrow> w | None \<Rightarrow> JUndef) | _ \<Rightarrow> JUndef)"

text \<open>\<open>v && typeof v === "object"\<close>: an object or an array, never \<open>null\<close>.\<close>

fun is_object :: "jsval \<Rightarrow> bool" where
  "is_object (JObj _) = True"
| "is_object (JArr _) = True"
| "is_object _ = False"

text \<open>The coercion of a value to a boolean in a condition.\<close>

fun truthy :: "jsval \<Rightarrow> bool" where
  "truthy JUndef = False"
| "truthy JNull = False"
| "truthy (JBool b) = b"
| "truthy (JNum (Fin q)) = (q \<noteq> 0)"
| "truthy (JNum NaN) = False"
| "truthy (JNum _) = True"
| "truthy (JStr s) = (s \<noteq> [])"
| "truthy (JArr _) = True"
| "truthy (JObj _) = True"

text \<open>\<open>typeof v === "string" ? v : \<dots>\<close> and its kin: the payload of a value of the given type.\<close>

fun as_str :: "jsval \<Rightarrow> string option" where
  "as_str (JStr s) = Some s"
| "as_str _ = None"

fun as_arr :: "jsval \<Rightarrow> jsval list option" where
  "as_arr (JArr xs) = Some xs"
| "as_arr _ = None"

fun as_num :: "jsval \<Rightarrow> jsnum option" where
  "as_num (JNum n) = Some n"
| "as_num _ = None"

text \<open>\<open>Number.isFinite\<close>, with the number it holds.\<close>

fun finite_num :: "jsval \<Rightarrow> rat option" where
  "finite_num (JNum (Fin q)) = Some q"
| "finite_num _ = None"

text \<open>\<open>{ ...v, k: w }\<close>: spread of a value, one property overwritten in place or appended.\<close>

fun upd_assoc :: "(string \<times> 'a) list \<Rightarrow> string \<Rightarrow> 'a \<Rightarrow> (string \<times> 'a) list" where
  "upd_assoc [] k w = [(k, w)]"
| "upd_assoc ((k', v) # ps) k w = (if k' = k then (k, w) # ps else (k', v) # upd_assoc ps k w)"

definition spread_with :: "jsval \<Rightarrow> string \<Rightarrow> jsval \<Rightarrow> jsval" where
  "spread_with v k w = JObj (upd_assoc (case v of JObj ps \<Rightarrow> ps | _ \<Rightarrow> []) k w)"

lemma map_of_upd_assoc [simp]: "map_of (upd_assoc ps k w) = (map_of ps)(k \<mapsto> w)"
  by (induction ps k w rule: upd_assoc.induct) (auto simp: fun_eq_iff)

lemma keys_upd_assoc: "fst ` set (upd_assoc ps k v) = insert k (fst ` set ps)"
  by (induction ps k v rule: upd_assoc.induct) auto

lemma distinct_upd_assoc: "distinct (map fst ps) \<Longrightarrow> distinct (map fst (upd_assoc ps k v))"
proof (induction ps k v rule: upd_assoc.induct)
  case (2 k' v ps k w)
  then have "k' \<noteq> k \<Longrightarrow> k' \<notin> fst ` set (upd_assoc ps k w)" by (simp add: keys_upd_assoc)
  with 2 show ?case by auto
qed simp

lemma set_upd_assoc_distinct:
  "distinct (map fst ps) \<Longrightarrow> set (upd_assoc ps k w) = insert (k, w) {p \<in> set ps. fst p \<noteq> k}"
  by (induction ps k w rule: upd_assoc.induct) force+

lemma get_prop_spread [simp]:
  "get_prop (spread_with v k w) k' =
     (if k' = k then w else get_prop v k')"
  by (cases v) (simp_all add: get_prop_def spread_with_def)

lemma get_prop_upd_assoc [simp]:
  "get_prop (JObj (upd_assoc ps k w)) k' = (if k' = k then w else get_prop (JObj ps) k')"
  by (simp add: get_prop_def)

lemma get_prop_simps [simp, js_simps]:
  "get_prop JUndef k = JUndef" "get_prop JNull k = JUndef" "get_prop (JBool b) k = JUndef"
  "get_prop (JNum n) k = JUndef" "get_prop (JStr s) k = JUndef" "get_prop (JArr xs) k = JUndef"
  "get_prop (JObj []) k = JUndef"
  "get_prop (JObj ((k', v) # ps)) k = (if k = k' then v else get_prop (JObj ps) k)"
  by (simp_all add: get_prop_def)

section \<open>Strings\<close>

definition startsWith :: "string \<Rightarrow> string \<Rightarrow> bool" where
  "startsWith s p \<longleftrightarrow> take (length p) s = p"

fun includes_str :: "string \<Rightarrow> string \<Rightarrow> bool" where
  "includes_str [] p = (p = [])"
| "includes_str (c # s) p = (startsWith (c # s) p \<or> includes_str s p)"

lemma startsWith_append [simp]: "startsWith (p @ s) p"
  by (simp add: startsWith_def)

lemma startsWith_iff: "startsWith s p \<longleftrightarrow> (\<exists>t. s = p @ t)"
  by (metis append_eq_conv_conj append_take_drop_id startsWith_def)

lemma startsWith_Nil [simp]: "startsWith s []"
  by (simp add: startsWith_def)

lemma includes_str_iff: "includes_str s p \<longleftrightarrow> (\<exists>u v. s = u @ p @ v)"
proof (induction s)
  case Nil
  then show ?case by auto
next
  case (Cons c s)
  show ?case
  proof
    assume "includes_str (c # s) p"
    then consider "startsWith (c # s) p" | "includes_str s p" by auto
    then show "\<exists>u v. c # s = u @ p @ v"
    proof cases
      case 1
      then obtain t where "c # s = [] @ p @ t" by (auto simp: startsWith_iff)
      then show ?thesis by blast
    next
      case 2
      with Cons.IH obtain u v where "s = u @ p @ v" by blast
      then have "c # s = (c # u) @ p @ v" by simp
      then show ?thesis by blast
    qed
  next
    assume "\<exists>u v. c # s = u @ p @ v"
    then obtain u v where eq: "c # s = u @ p @ v" by blast
    show "includes_str (c # s) p"
    proof (cases u)
      case Nil
      with eq have "startsWith (c # s) p" by (auto simp: startsWith_iff)
      then show ?thesis by simp
    next
      case (Cons d u')
      with eq have "s = u' @ p @ v" by simp
      with Cons.IH show ?thesis by auto
    qed
  qed
qed

text \<open>White space as \<open>String.prototype.trim\<close> sees it, within Latin-1.\<close>

definition is_ws :: "char \<Rightarrow> bool" where
  "is_ws c \<longleftrightarrow> (of_char c :: nat) \<in> {9, 10, 11, 12, 13, 32, 160}"

definition trim :: "string \<Rightarrow> string" where
  "trim s = rev (dropWhile is_ws (rev (dropWhile is_ws s)))"

definition lower_char :: "char \<Rightarrow> char" where
  "lower_char c =
     (let n = (of_char c :: nat)
      in if (65 \<le> n \<and> n \<le> 90) \<or> (192 \<le> n \<and> n \<le> 222 \<and> n \<noteq> 215) then char_of (n + 32) else c)"

definition toLowerCase :: "string \<Rightarrow> string" where
  "toLowerCase s = map lower_char s"

lemma trim_Nil [simp]: "trim [] = []"
  by (simp add: trim_def)

lemma dropWhile_hd_ok: "dropWhile P xs \<noteq> [] \<Longrightarrow> \<not> P (hd (dropWhile P xs))"
  by (rule hd_dropWhile)

lemma trim_first: "trim s \<noteq> [] \<Longrightarrow> \<not> is_ws (hd (trim s))"
proof -
  assume ne: "trim s \<noteq> []"
  let ?d = "dropWhile is_ws s"
  obtain pre where pre: "rev ?d = pre @ dropWhile is_ws (rev ?d)"
    using takeWhile_dropWhile_id by metis
  then have "rev (rev ?d) = rev (dropWhile is_ws (rev ?d)) @ rev pre"
    by (metis rev_append)
  then have eq: "?d = trim s @ rev pre"
    by (simp add: trim_def)
  with ne have "hd ?d = hd (trim s)" and "?d \<noteq> []"
    by auto
  with dropWhile_hd_ok[of is_ws s] show ?thesis by simp
qed

lemma trim_last: "trim s \<noteq> [] \<Longrightarrow> \<not> is_ws (last (trim s))"
  using dropWhile_hd_ok[of is_ws "rev (dropWhile is_ws s)"] by (auto simp: trim_def last_rev)

lemma trim_id: "s = [] \<or> (\<not> is_ws (hd s) \<and> \<not> is_ws (last s)) \<Longrightarrow> trim s = s"
proof -
  assume a: "s = [] \<or> (\<not> is_ws (hd s) \<and> \<not> is_ws (last s))"
  show "trim s = s"
  proof (cases s)
    case (Cons c t)
    with a have "dropWhile is_ws s = s" by simp
    moreover have "dropWhile is_ws (rev s) = rev s"
    proof -
      have "rev s = last s # rev (butlast s)"
        using Cons by (metis append_butlast_last_id list.distinct(1) rev_eq_Cons_iff rev_rev_ident)
      with a Cons show ?thesis by simp
    qed
    ultimately show ?thesis by (simp add: trim_def)
  qed simp
qed

lemma trim_idem [simp]: "trim (trim s) = trim s"
  using trim_id trim_first trim_last by metis

subsection \<open>Decimal numerals\<close>

definition digit_char :: "nat \<Rightarrow> char" where
  "digit_char d = ''0123456789'' ! d"

fun nat_str :: "nat \<Rightarrow> string" where
  "nat_str n = (if n < 10 then [digit_char n] else nat_str (n div 10) @ [digit_char (n mod 10)])"

declare nat_str.simps [simp del]

definition int_str :: "int \<Rightarrow> string" where
  "int_str i = (if i < 0 then CHR ''-'' # nat_str (nat (- i)) else nat_str (nat i))"

definition digits_val :: "string \<Rightarrow> nat" where
  "digits_val s = foldl (\<lambda>a c. 10 * a + (of_char c - 48)) 0 s"

lemma less_10_cases: "(d :: nat) < 10 \<Longrightarrow> d \<in> {0, 1, 2, 3, 4, 5, 6, 7, 8, 9}"
  by auto

lemma of_char_digit [simp]: "d < 10 \<Longrightarrow> (of_char (digit_char d) :: nat) = 48 + d"
  by (drule less_10_cases) (auto simp: digit_char_def)

lemma digits_val_nat_str [simp]: "digits_val (nat_str n) = n"
proof (induction n rule: nat_str.induct)
  case (1 n)
  show ?case
  proof (cases "n < 10")
    case True
    then show ?thesis by (simp add: nat_str.simps[of n] digits_val_def)
  next
    case False
    with 1 have "digits_val (nat_str (n div 10)) = n div 10" by simp
    with False show ?thesis
      by (simp add: nat_str.simps[of n] digits_val_def)
  qed
qed

definition digit_chars :: "char set" where
  "digit_chars = set ''0123456789''"

lemma digit_char_in: "d < 10 \<Longrightarrow> digit_char d \<in> digit_chars"
  unfolding digit_char_def digit_chars_def by (rule nth_mem) simp

lemma set_nat_str: "set (nat_str n) \<subseteq> digit_chars"
proof (induction n rule: nat_str.induct)
  case (1 n)
  show ?case
  proof (cases "n < 10")
    case True
    then show ?thesis by (simp add: nat_str.simps[of n] digit_char_in)
  next
    case False
    with 1 show ?thesis by (simp add: nat_str.simps[of n] digit_char_in)
  qed
qed

lemma nat_str_not_Nil [simp]: "nat_str n \<noteq> []"
  by (subst nat_str.simps) simp

lemma nat_str_inj [simp]: "nat_str m = nat_str n \<longleftrightarrow> m = n"
  by (metis digits_val_nat_str)

lemma hd_nat_str_not_minus: "hd (nat_str n) \<noteq> CHR ''-''"
proof -
  have "hd (nat_str n) \<in> digit_chars" using set_nat_str[of n] hd_in_set[OF nat_str_not_Nil[of n]] by blast
  then show ?thesis by (auto simp: digit_chars_def)
qed

lemma int_str_inj [simp]: "int_str i = int_str j \<longleftrightarrow> i = j"
proof
  assume eq: "int_str i = int_str j"
  have "hd (int_str i) = CHR ''-'' \<longleftrightarrow> i < 0" for i
    using hd_nat_str_not_minus[of "nat i"] by (simp add: int_str_def)
  with eq have "i < 0 \<longleftrightarrow> j < 0" by metis
  with eq show "i = j" by (auto simp: int_str_def split: if_splits)
qed simp

lemma set_int_str: "set (int_str i) \<subseteq> insert (CHR ''-'') digit_chars"
  using set_nat_str by (auto simp: int_str_def)

lemma int_str_not_Nil [simp]: "int_str i \<noteq> []"
  by (simp add: int_str_def)

text \<open>The em dash of rendered lines, which a one-byte code unit cannot hold, written as its UTF-8 bytes.\<close>

definition em_dash :: string where
  "em_dash = [CHR 0xE2, CHR 0x80, CHR 0x94]"

subsection \<open>Joining and splitting\<close>

fun join :: "string \<Rightarrow> string list \<Rightarrow> string" where
  "join sep [] = []"
| "join sep [x] = x"
| "join sep (x # y # xs) = x @ sep @ join sep (y # xs)"

fun split_on :: "char \<Rightarrow> string \<Rightarrow> string list" where
  "split_on c [] = [[]]"
| "split_on c (d # s) =
     (if d = c then [] # split_on c s
      else (case split_on c s of [] \<Rightarrow> [[d]] | x # xs \<Rightarrow> (d # x) # xs))"

lemma split_on_not_Nil [simp]: "split_on c s \<noteq> []"
  by (induction s) (auto split: list.splits)

lemma split_on_no_sep: "c \<notin> set s \<Longrightarrow> split_on c s = [s]"
  by (induction s) auto

lemma split_on_append_sep: "c \<notin> set s \<Longrightarrow> split_on c (s @ c # t) = s # split_on c t"
  by (induction s) auto

lemma split_on_join: "xs \<noteq> [] \<Longrightarrow> \<forall>x \<in> set xs. c \<notin> set x \<Longrightarrow> split_on c (join [c] xs) = xs"
  by (induction "[c]" xs rule: join.induct) (auto simp: split_on_no_sep split_on_append_sep)

lemma append_sep_eq:
  assumes "c \<notin> set a" "c \<notin> set b" "a @ c # x = b @ c # y"
  shows "a = b \<and> x = y"
  using assms
proof (induction a arbitrary: b)
  case Nil
  then show ?case by (cases b) auto
next
  case (Cons d a)
  then show ?case by (cases b) auto
qed

lemma join_inj:
  assumes "\<forall>x \<in> set xs. c \<notin> set x" "\<forall>x \<in> set ys. c \<notin> set x" "xs \<noteq> []" "ys \<noteq> []"
    and "join [c] xs = join [c] ys"
  shows "xs = ys"
  using assms split_on_join by metis

text \<open>\<open>s.split(/\r?\n/)\<close>.\<close>

definition strip_cr :: "string \<Rightarrow> string" where
  "strip_cr l = (if l \<noteq> [] \<and> last l = char_of (13::nat) then butlast l else l)"

definition split_lines :: "string \<Rightarrow> string list" where
  "split_lines s =
     (let ls = split_on (char_of (10::nat)) s in map strip_cr (butlast ls) @ [last ls])"

section \<open>Lists\<close>

text \<open>\<open>xs.slice(-n)\<close> for positive \<open>n\<close>.\<close>

definition take_last :: "nat \<Rightarrow> 'a list \<Rightarrow> 'a list" where
  "take_last n xs = drop (length xs - n) xs"

lemma length_take_last [simp]: "length (take_last n xs) = min n (length xs)"
  by (simp add: take_last_def)

lemma take_last_id: "length xs \<le> n \<Longrightarrow> take_last n xs = xs"
  by (simp add: take_last_def)

lemma set_take_last: "set (take_last n xs) \<subseteq> set xs"
  by (simp add: take_last_def set_drop_subset)

lemma take_last_snoc: "0 < n \<Longrightarrow> take_last n (xs @ [x]) = take_last (n - 1) xs @ [x]"
  by (cases n) (auto simp: take_last_def)

lemma last_take_last: "0 < n \<Longrightarrow> xs \<noteq> [] \<Longrightarrow> last (take_last n xs) = last xs"
  by (simp add: take_last_def)

text \<open>
  The loop \<open>while (xs.length > cap) xs.shift()\<close>: the entries shifted off and what remains.
\<close>

fun shift_to_cap :: "nat \<Rightarrow> 'a list \<Rightarrow> 'a list \<times> 'a list" where
  "shift_to_cap cap [] = ([], [])"
| "shift_to_cap cap (x # xs) =
     (if length (x # xs) > cap then (let (ds, ys) = shift_to_cap cap xs in (x # ds, ys))
      else ([], x # xs))"

lemma shift_to_cap_eq:
  "shift_to_cap cap xs = (take (length xs - cap) xs, take_last cap xs)"
  by (induction xs) (auto simp: take_last_def Suc_diff_le)

text \<open>\<open>[...new Set(xs)]\<close>: first occurrences, in order.\<close>

definition js_uniq :: "'a list \<Rightarrow> 'a list" where
  "js_uniq xs = rev (remdups (rev xs))"

lemma set_js_uniq [simp]: "set (js_uniq xs) = set xs"
  by (simp add: js_uniq_def)

lemma distinct_js_uniq [simp]: "distinct (js_uniq xs)"
  by (simp add: js_uniq_def)

lemma js_uniq_Nil [simp]: "js_uniq [] = []"
  by (simp add: js_uniq_def)

lemma js_uniq_empty_iff [simp]: "js_uniq xs = [] \<longleftrightarrow> xs = []"
  by (simp add: js_uniq_def)

text \<open>The first element with a property, searching from the end (a reversed \<open>find\<close>).\<close>

definition find_last :: "('a \<Rightarrow> bool) \<Rightarrow> 'a list \<Rightarrow> 'a option" where
  "find_last P xs = find P (rev xs)"

section \<open>Maps\<close>

text \<open>Removing every key with a property (a \<open>for \<dots> delete\<close> loop over a \<open>Map\<close>).\<close>

definition drop_keys :: "('k \<Rightarrow> bool) \<Rightarrow> ('k \<rightharpoonup> 'v) \<Rightarrow> ('k \<rightharpoonup> 'v)" where
  "drop_keys P m = (\<lambda>k. if P k then None else m k)"

lemma drop_keys_apply [simp]: "drop_keys P m k = (if P k then None else m k)"
  by (simp add: drop_keys_def)

lemma dom_drop_keys [simp]: "dom (drop_keys P m) = {k \<in> dom m. \<not> P k}"
  by (auto simp: dom_def split: if_splits)

lemma set_map_filter: "set (List.map_filter f xs) = {y. \<exists>x \<in> set xs. f x = Some y}"
  by (induction xs) (auto split: option.splits)

lemma map_filter_append [simp]: "List.map_filter f (xs @ ys) = List.map_filter f xs @ List.map_filter f ys"
  by (induction xs) (auto split: option.splits)

lemma length_map_filter_full:
  "length (List.map_filter f xs) = length xs \<Longrightarrow> x \<in> set xs \<Longrightarrow> f x \<noteq> None"
proof (induction xs)
  case (Cons y ys)
  have "length (List.map_filter f ys) \<le> length ys" by (simp add: List.map_filter_def)
  with Cons show ?case by (auto split: option.splits)
qed simp

end
