(* ===== verification/Event_Machine.thy ===== *)
theory Event_Machine
  imports Js_Prelude "HOL-Library.Multiset"
begin

text \<open>
  The contract of the event-driven components: a state that one event at a time changes, an invariant
  every event keeps, and what is conserved along a run. Sockets, timers and promises of the code become
  events, one for each stretch between two awaits; each component interprets these locales on its own
  step function.

  \<^item> \<open>event_machine\<close>: the invariant holds along every run whose events are allowed.
  \<^item> \<open>open_machine\<close>: the same where every event is allowed.
  \<^item> \<open>counting_machine\<close>: what the events bring is held by the state, nothing is lost and nothing is doubled.
\<close>

locale event_machine =
  fixes step :: "'e \<Rightarrow> 's \<Rightarrow> 's"
    and allowed :: "'e \<Rightarrow> bool"
    and inv :: "'s \<Rightarrow> bool"
  assumes step_keeps: "inv s \<Longrightarrow> allowed e \<Longrightarrow> inv (step e s)"
begin

lemma run_keeps: "inv s \<Longrightarrow> list_all allowed es \<Longrightarrow> inv (fold step es s)"
  by (induction es arbitrary: s) (simp_all add: step_keeps)

lemma prefix_keeps: "inv s \<Longrightarrow> list_all allowed es \<Longrightarrow> inv (fold step (take n es) s)"
  by (rule run_keeps) (auto simp: list_all_iff dest: in_set_takeD)

end

locale open_machine =
  fixes step :: "'e \<Rightarrow> 's \<Rightarrow> 's"
    and inv :: "'s \<Rightarrow> bool"
  assumes open_step_keeps: "inv s \<Longrightarrow> inv (step e s)"

sublocale open_machine \<subseteq> event_machine step "\<lambda>_. True" inv
  by unfold_locales (rule open_step_keeps)

context open_machine
begin

lemma open_run_keeps: "inv s \<Longrightarrow> inv (fold step es s)"
  by (rule run_keeps) (simp_all add: list_all_iff)

end

locale counting_machine = open_machine step inv
  for step :: "'e \<Rightarrow> 's \<Rightarrow> 's" and inv :: "'s \<Rightarrow> bool" +
  fixes brings :: "'e \<Rightarrow> 'c multiset"
    and holds :: "'s \<Rightarrow> 'c multiset"
  assumes step_counts: "inv s \<Longrightarrow> holds (step e s) = brings e + holds s"
begin

lemma run_counts: "inv s \<Longrightarrow> holds (fold step es s) = sum_list (map brings es) + holds s"
  by (induction es arbitrary: s) (simp_all add: open_step_keeps step_counts ac_simps)

end

end
