(* ===== verification/Gateway_Types.thy ===== *)
theory Gateway_Types
  imports Js_Prelude
begin

text \<open>
  The data the gateway core exchanges: the normalized inbound message
  (\<open>protocol-core/src/runtime-frame.ts\<close>, \<open>gateway-message.ts\<close>), routes
  (\<open>daemon/src/gateway/types.ts\<close>), and the string keys the components derive from them
  (\<open>dispatcher.ts\<close>, \<open>session-store.ts\<close>, \<open>loop-risk.ts\<close>, \<open>activity-tracker.ts\<close>), with the
  conditions under which those keys keep apart what they are meant to keep apart.

  An optional field that is read with \<open>??\<close> (where \<open>null\<close> and \<open>undefined\<close> behave alike) is an
  \<^typ>\<open>'a option\<close>; the provider-original payload \<open>raw\<close> is a \<^typ>\<open>jsval\<close>.
\<close>

section \<open>Messages\<close>

datatype conv_kind = Direct | Group

datatype sender_kind = SUser | SAgent | SSystem

record conversation =
  c_id :: string
  c_kind :: conv_kind
  c_title :: "string option"
  c_threadId :: "string option"

record sender_info =
  s_id :: string
  s_name :: "string option"
  s_kind :: sender_kind

record trace_info =
  t_id :: string
  t_streamable :: "bool option"

record inbound_message =
  m_id :: string
  m_channel :: string
  m_accountId :: string
  m_conversation :: conversation
  m_sender :: sender_info
  m_text :: "string option"
  m_raw :: jsval
  m_replyTo :: "string option"
  m_mentioned :: "bool option"
  m_receivedAt :: int
  m_trace :: "trace_info option"

section \<open>Routes\<close>

datatype queue_mode = Serial | CancelPrevious

datatype trust_level = Owner | Trusted | Public

datatype non_owner_execution = NonOwnerRestricted | NonOwnerFull

record route_match =
  rm_channel :: "string option"
  rm_accountId :: "string option"
  rm_conversationId :: "string option"
  rm_conversationPrefix :: "string option"
  rm_conversationKind :: "conv_kind option"
  rm_senderId :: "string option"
  rm_mentioned :: "bool option"

record gateway_route =
  r_match :: "route_match option"
  r_runtime :: string
  r_cwd :: string
  r_extraArgs :: "string list option"
  r_queueMode :: "queue_mode option"
  r_trustLevel :: "trust_level option"
  r_nonOwnerExecution :: "non_owner_execution option"
  r_gateway :: jsval
  r_hermesProfile :: "string option"

section \<open>Keys\<close>

text \<open>\<open>buildQueueKey\<close>: the key of the turn queue a message is handled on.\<close>

definition buildQueueKey :: "inbound_message \<Rightarrow> string" where
  "buildQueueKey msg =
     (let thread = (case c_threadId (m_conversation msg) of Some t \<Rightarrow> t | None \<Rightarrow> [])
      in m_channel msg @ '':'' @ m_accountId msg @ '':'' @ c_id (m_conversation msg) @ '':'' @ thread)"

record session_key_input =
  sk_runtime :: string
  sk_channel :: string
  sk_accountId :: string
  sk_conversationKind :: conv_kind
  sk_conversationId :: string
  sk_threadId :: "string option"
  sk_executionScope :: "string option"

fun kind_str :: "conv_kind \<Rightarrow> string" where
  "kind_str Direct = ''direct''"
| "kind_str Group = ''group''"

text \<open>
  \<open>sessionKey\<close>: the key of a stored runtime session. An empty thread id counts as no thread,
  an empty execution scope as no scope.
\<close>

definition session_base :: "session_key_input \<Rightarrow> string" where
  "session_base input =
     sk_runtime input @ '':'' @ sk_channel input @ '':'' @ sk_accountId input @ '':'' @
     kind_str (sk_conversationKind input) @ '':'' @ sk_conversationId input"

definition sessionKey :: "session_key_input \<Rightarrow> string" where
  "sessionKey input =
     (let base = session_base input;
          withThread =
            (case sk_threadId input of
               Some t \<Rightarrow> (if t \<noteq> [] then base @ '':'' @ t else base)
             | None \<Rightarrow> base)
      in case sk_executionScope input of
           Some sc \<Rightarrow> (if sc \<noteq> [] then withThread @ ''#'' @ sc else withThread)
         | None \<Rightarrow> withThread)"

text \<open>\<open>runtimeAuthBreakerKey\<close>: the circuit breaker a route and a message share.\<close>

definition runtimeAuthBreakerKey :: "gateway_route \<Rightarrow> inbound_message \<Rightarrow> string" where
  "runtimeAuthBreakerKey route msg =
     (let thread = (case c_threadId (m_conversation msg) of Some t \<Rightarrow> t | None \<Rightarrow> [])
      in r_runtime route @ '':'' @ m_channel msg @ '':'' @ m_accountId msg @ '':'' @
         c_id (m_conversation msg) @ '':'' @ thread)"

definition loopRiskSessionKey :: "string \<Rightarrow> string \<Rightarrow> string option \<Rightarrow> string" where
  "loopRiskSessionKey accountId conversationId threadId =
     accountId @ '':'' @ conversationId @ '':'' @ (case threadId of Some t \<Rightarrow> t | None \<Rightarrow> [])"

text \<open>\<open>activity-tracker.ts:keyOf\<close>, where an empty topic is no topic.\<close>

definition activityKey :: "string \<Rightarrow> string \<Rightarrow> string option \<Rightarrow> string" where
  "activityKey agentId roomId topic =
     (case topic of
        Some t \<Rightarrow> (if t \<noteq> [] then agentId @ '':'' @ roomId @ '':'' @ t else agentId @ '':'' @ roomId)
      | None \<Rightarrow> agentId @ '':'' @ roomId)"

section \<open>What the keys separate\<close>

definition colon_free :: "string \<Rightarrow> bool" where
  "colon_free s \<longleftrightarrow> CHR '':'' \<notin> set s"

definition key_fields_plain :: "inbound_message \<Rightarrow> bool" where
  "key_fields_plain msg \<longleftrightarrow>
     colon_free (m_channel msg) \<and> colon_free (m_accountId msg) \<and> colon_free (c_id (m_conversation msg)) \<and>
     (case c_threadId (m_conversation msg) of Some t \<Rightarrow> colon_free t | None \<Rightarrow> True)"

definition same_thread :: "string option \<Rightarrow> string option \<Rightarrow> bool" where
  "same_thread a b \<longleftrightarrow> (case a of Some t \<Rightarrow> t | None \<Rightarrow> []) = (case b of Some t \<Rightarrow> t | None \<Rightarrow> [])"

text \<open>Queue keys separate conversations: over colon-free identifiers two messages share a turn
  queue exactly when channel, account, conversation and thread agree.\<close>

theorem queue_key_separates:
  assumes "key_fields_plain a" and "key_fields_plain b"
  shows "buildQueueKey a = buildQueueKey b \<longleftrightarrow>
     m_channel a = m_channel b \<and> m_accountId a = m_accountId b \<and>
     c_id (m_conversation a) = c_id (m_conversation b) \<and>
     same_thread (c_threadId (m_conversation a)) (c_threadId (m_conversation b))"
proof -
  define fields where "fields = (\<lambda>m :: inbound_message. [m_channel m, m_accountId m, c_id (m_conversation m),
      case c_threadId (m_conversation m) of Some t \<Rightarrow> t | None \<Rightarrow> []])"
  have key: "buildQueueKey m = join '':'' (fields m)" for m
    by (simp add: buildQueueKey_def fields_def)
  have plain: "\<forall>x \<in> set (fields m). CHR '':'' \<notin> set x" if "key_fields_plain m" for m
    using that by (auto simp: fields_def key_fields_plain_def colon_free_def split: option.splits)
  have "buildQueueKey a = buildQueueKey b \<longleftrightarrow> fields a = fields b"
  proof
    assume "buildQueueKey a = buildQueueKey b"
    then have "join [CHR '':''] (fields a) = join [CHR '':''] (fields b)" by (simp add: key)
    then show "fields a = fields b"
      by (rule join_inj[OF plain[OF assms(1)] plain[OF assms(2)], rotated 2]) (simp_all add: fields_def)
  qed (simp add: key)
  then show ?thesis by (auto simp: fields_def same_thread_def)
qed

definition example_msg :: inbound_message where
  "example_msg = \<lparr>m_id = ''h_1'', m_channel = ''botcord'', m_accountId = ''ag_1'',
     m_conversation = \<lparr>c_id = ''rm_1'', c_kind = Group, c_title = None, c_threadId = None\<rparr>,
     m_sender = \<lparr>s_id = ''ag_2'', s_name = None, s_kind = SAgent\<rparr>, m_text = Some ''hello'',
     m_raw = JUndef, m_replyTo = None, m_mentioned = None, m_receivedAt = 0, m_trace = None\<rparr>"

theorem queue_key_separates_witness:
  "key_fields_plain example_msg \<and>
   buildQueueKey example_msg \<noteq> buildQueueKey (example_msg\<lparr>m_accountId := ''ag_9''\<rparr>)"
proof -
  have p: "key_fields_plain example_msg" and q: "key_fields_plain (example_msg\<lparr>m_accountId := ''ag_9''\<rparr>)"
    by (simp_all add: key_fields_plain_def colon_free_def example_msg_def)
  from queue_key_separates[OF p q] p show ?thesis by (simp add: example_msg_def)
qed

text \<open>
  A key with an execution scope is never the key of an unscoped session, and different
  scopes never share one, as long as no identifier contains the scope separator.
\<close>

definition hash_free :: "session_key_input \<Rightarrow> bool" where
  "hash_free i \<longleftrightarrow>
     CHR ''#'' \<notin> set (sk_runtime i) \<and> CHR ''#'' \<notin> set (sk_channel i) \<and>
     CHR ''#'' \<notin> set (sk_accountId i) \<and> CHR ''#'' \<notin> set (sk_conversationId i) \<and>
     (case sk_threadId i of Some t \<Rightarrow> CHR ''#'' \<notin> set t | None \<Rightarrow> True)"

definition unscoped_key :: "session_key_input \<Rightarrow> string" where
  "unscoped_key i = sessionKey (i\<lparr>sk_executionScope := None\<rparr>)"

lemma kind_str_no_hash: "CHR ''#'' \<notin> set (kind_str k)"
  by (cases k) auto

lemma unscoped_key_no_hash: "hash_free i \<Longrightarrow> CHR ''#'' \<notin> set (unscoped_key i)"
  using kind_str_no_hash
  by (auto simp: unscoped_key_def sessionKey_def session_base_def hash_free_def Let_def split: option.splits)

lemma sessionKey_scoped:
  "sk_executionScope i = Some sc \<Longrightarrow> sc \<noteq> [] \<Longrightarrow> sessionKey i = unscoped_key i @ CHR ''#'' # sc"
  by (auto simp: unscoped_key_def sessionKey_def session_base_def Let_def split: option.splits)

lemma sessionKey_unscoped:
  "sk_executionScope i = None \<or> sk_executionScope i = Some [] \<Longrightarrow> sessionKey i = unscoped_key i"
  by (auto simp: unscoped_key_def sessionKey_def session_base_def Let_def split: option.splits)

lemma scoped_keys_disjoint:
  assumes "hash_free a" "hash_free b" "sessionKey a = sessionKey b"
    and sa: "sk_executionScope a = Some sa" "sa \<noteq> []"
  shows "sk_executionScope b = Some sa"
proof (cases "sk_executionScope b = None \<or> sk_executionScope b = Some []")
  case True
  with assms(3) sessionKey_scoped[OF sa] sessionKey_unscoped[OF True]
  have "CHR ''#'' \<in> set (unscoped_key b)" by (metis in_set_conv_decomp)
  with unscoped_key_no_hash[OF assms(2)] show ?thesis by simp
next
  case False
  then obtain sb where sb: "sk_executionScope b = Some sb" "sb \<noteq> []" by auto
  from assms(3) sessionKey_scoped[OF sa] sessionKey_scoped[OF sb]
  have "unscoped_key a @ CHR ''#'' # sa = unscoped_key b @ CHR ''#'' # sb" by simp
  with append_sep_eq[OF unscoped_key_no_hash[OF assms(1)] unscoped_key_no_hash[OF assms(2)]]
  have "sa = sb" by blast
  with sb show ?thesis by simp
qed

end
