(* ===== verification/Routing.thy ===== *)
theory Routing
  imports Gateway_Types
begin

text \<open>
  Route resolution (\<open>daemon/src/gateway/router.ts\<close>) and the queue mode a route and a
  conversation give (\<open>resolveQueueMode\<close> of \<open>dispatcher.ts\<close>). The reference definition is a
  priority list: operator routes that name the agent, the daemon's managed routes, the
  remaining operator routes, the default.
\<close>

section \<open>The code\<close>

definition matches_opt :: "'a option \<Rightarrow> 'a \<Rightarrow> bool" where
  "matches_opt expected actual \<longleftrightarrow> (case expected of None \<Rightarrow> True | Some e \<Rightarrow> e = actual)"

definition matchesRoute :: "inbound_message \<Rightarrow> route_match option \<Rightarrow> bool" where
  "matchesRoute message mtch =
     (case mtch of
        None \<Rightarrow> True
      | Some m \<Rightarrow>
          if \<not> matches_opt (rm_channel m) (m_channel message) then False
          else if \<not> matches_opt (rm_accountId m) (m_accountId message) then False
          else if \<not> matches_opt (rm_conversationId m) (c_id (m_conversation message)) then False
          else if (case rm_conversationPrefix m of
                     None \<Rightarrow> False
                   | Some p \<Rightarrow> \<not> startsWith (c_id (m_conversation message)) p) then False
          else if \<not> matches_opt (rm_conversationKind m) (c_kind (m_conversation message)) then False
          else if \<not> matches_opt (rm_senderId m) (s_id (m_sender message)) then False
          else matches_opt (rm_mentioned m) (case m_mentioned message of Some b \<Rightarrow> b | None \<Rightarrow> False))"

record route_config =
  defaultRoute :: gateway_route
  routes :: "gateway_route list"

definition names_agent :: "inbound_message \<Rightarrow> gateway_route \<Rightarrow> bool" where
  "names_agent message route \<longleftrightarrow>
     (case r_match route of None \<Rightarrow> False | Some m \<Rightarrow> rm_accountId m = Some (m_accountId message))"

definition resolveRoute :: "inbound_message \<Rightarrow> route_config \<Rightarrow> gateway_route list option \<Rightarrow> gateway_route" where
  "resolveRoute message config managedRoutes =
     (case find (\<lambda>r. names_agent message r \<and> matchesRoute message (r_match r)) (routes config) of
        Some r \<Rightarrow> r
      | None \<Rightarrow>
          (case (case managedRoutes of
                   Some ms \<Rightarrow> find (\<lambda>r. matchesRoute message (r_match r)) ms
                 | None \<Rightarrow> None) of
             Some r \<Rightarrow> r
           | None \<Rightarrow>
               (case find (\<lambda>r. matchesRoute message (r_match r)) (routes config) of
                  Some r \<Rightarrow> r
                | None \<Rightarrow> defaultRoute config)))"

definition resolveQueueMode :: "gateway_route \<Rightarrow> conv_kind \<Rightarrow> queue_mode" where
  "resolveQueueMode route kind =
     (case r_queueMode route of
        Some m \<Rightarrow> m
      | None \<Rightarrow> (if kind = Direct then CancelPrevious else Serial))"

section \<open>The reference: a priority list\<close>

definition route_priority :: "inbound_message \<Rightarrow> route_config \<Rightarrow> gateway_route list \<Rightarrow> gateway_route list" where
  "route_priority message config managed =
     filter (names_agent message) (routes config) @ managed @ routes config"

lemma find_append: "find P (xs @ ys) = (case find P xs of Some x \<Rightarrow> Some x | None \<Rightarrow> find P ys)"
  by (induction xs) auto

lemma find_filter: "find P (filter Q xs) = find (\<lambda>x. Q x \<and> P x) xs"
  by (induction xs) auto

lemma find_SomeD: "find P xs = Some x \<Longrightarrow> x \<in> set xs \<and> P x"
  by (induction xs) (auto split: if_splits)

text \<open>Route resolution picks the first matching route of one priority list: operator
  routes that name the agent, then managed routes, then the remaining operator routes, and the
  default when none matches.\<close>

theorem resolveRoute_first_of_priority:
  "resolveRoute message config managedRoutes =
     (case find (\<lambda>r. matchesRoute message (r_match r))
             (route_priority message config (case managedRoutes of Some ms \<Rightarrow> ms | None \<Rightarrow> [])) of
        Some r \<Rightarrow> r
      | None \<Rightarrow> defaultRoute config)"
  by (auto simp: resolveRoute_def route_priority_def find_append find_filter split: option.splits)

text \<open>
  A broad operator route never displaces a managed route: when no operator route names
  the agent and a managed route matches, the resolved route is a managed one.
\<close>

theorem managed_route_not_downgraded:
  assumes "\<forall>r \<in> set (routes config). \<not> names_agent message r"
    and "m \<in> set ms" and "matchesRoute message (r_match m)"
  shows "resolveRoute message config (Some ms) \<in> set ms \<and>
         matchesRoute message (r_match (resolveRoute message config (Some ms)))"
proof -
  have none: "find (\<lambda>r. names_agent message r \<and> matchesRoute message (r_match r)) (routes config) = None"
    using assms(1) by (auto simp: find_None_iff)
  from assms(2,3) have "find (\<lambda>r. matchesRoute message (r_match r)) ms \<noteq> None"
    by (auto simp: find_None_iff)
  then obtain r where r: "find (\<lambda>r. matchesRoute message (r_match r)) ms = Some r" by auto
  with find_SomeD[OF r] none show ?thesis by (simp add: resolveRoute_def)
qed

definition plain_route :: "string \<Rightarrow> gateway_route" where
  "plain_route rt = \<lparr>r_match = None, r_runtime = rt, r_cwd = ''/w'', r_extraArgs = None,
     r_queueMode = None, r_trustLevel = None, r_nonOwnerExecution = None, r_gateway = JUndef,
     r_hermesProfile = None\<rparr>"

definition any_match :: route_match where
  "any_match = \<lparr>rm_channel = None, rm_accountId = None, rm_conversationId = None,
     rm_conversationPrefix = None, rm_conversationKind = None, rm_senderId = None, rm_mentioned = None\<rparr>"

theorem managed_route_not_downgraded_witness:
  "resolveRoute example_msg
     \<lparr>defaultRoute = plain_route ''codex'',
      routes = [(plain_route ''gemini'')\<lparr>r_match := Some (any_match\<lparr>rm_conversationPrefix := Some ''rm_''\<rparr>)\<rparr>]\<rparr>
     (Some [(plain_route ''claude-code'')\<lparr>r_match := Some (any_match\<lparr>rm_accountId := Some ''ag_1''\<rparr>)\<rparr>])
   = (plain_route ''claude-code'')\<lparr>r_match := Some (any_match\<lparr>rm_accountId := Some ''ag_1''\<rparr>)\<rparr>"
proof -
  let ?m = "(plain_route ''claude-code'')\<lparr>r_match := Some (any_match\<lparr>rm_accountId := Some ''ag_1''\<rparr>)\<rparr>"
  let ?c = "\<lparr>defaultRoute = plain_route ''codex'',
      routes = [(plain_route ''gemini'')\<lparr>r_match := Some (any_match\<lparr>rm_conversationPrefix := Some ''rm_''\<rparr>)\<rparr>]\<rparr>"
  have "\<forall>r \<in> set (routes ?c). \<not> names_agent example_msg r"
    by (simp add: names_agent_def any_match_def plain_route_def)
  moreover have "matchesRoute example_msg (r_match ?m)"
    by (simp add: matchesRoute_def matches_opt_def any_match_def plain_route_def example_msg_def)
  ultimately show ?thesis using managed_route_not_downgraded[of ?c example_msg ?m "[?m]"] by simp
qed

end
