(* ===== verification/Canonical_Json.thy ===== *)
theory Canonical_Json
  imports Js_Prelude "HOL-Library.Word" "HOL-Library.Multiset"
begin

unbundle bit_operations_syntax

text \<open>
  JSON canonicalization, payload hash, signing input and session keys of
  \<open>packages/protocol-core/src/crypto.ts\<close> and \<open>session-key.ts\<close>.

  \<^item> The formatting of a finite number (\<open>Number::toString\<close>) is the parameter \<open>ns\<close>; the
    theorems that need it assume what ECMA-262 says of it: distinct numbers print
    differently, and the text is a non-empty sequence of digits, sign, dot and exponent
    marks (\<open>number_format\<close>).
  \<^item> SHA-256, SHA-1, Ed25519 and base64 of \<open>node:crypto\<close> are parameters too.
\<close>

section \<open>JSON.stringify of a string\<close>

definition hex_char :: "nat \<Rightarrow> char" where
  "hex_char d = ''0123456789abcdef'' ! d"

definition hex_val :: "char \<Rightarrow> nat" where
  "hex_val c = (let n = of_char c in if n < 58 then n - 48 else n - 87)"

definition escape_char :: "char \<Rightarrow> string" where
  "escape_char c =
     (if c = CHR 0x22 then [CHR 0x5C, CHR 0x22]
      else if c = CHR 0x5C then [CHR 0x5C, CHR 0x5C]
      else if c = CHR 0x08 then [CHR 0x5C, CHR ''b'']
      else if c = CHR 0x0C then [CHR 0x5C, CHR ''f'']
      else if c = CHR 0x0A then [CHR 0x5C, CHR ''n'']
      else if c = CHR 0x0D then [CHR 0x5C, CHR ''r'']
      else if c = CHR 0x09 then [CHR 0x5C, CHR ''t'']
      else if (of_char c :: nat) < 32
        then [CHR 0x5C, CHR ''u'', CHR ''0'', CHR ''0'', hex_char (of_char c div 16), hex_char (of_char c mod 16)]
      else [c])"

definition quote_str :: "string \<Rightarrow> string" where
  "quote_str s = CHR 0x22 # concat (map escape_char s) @ [CHR 0x22]"

section \<open>jcsCanonicalize\<close>

text \<open>
  \<open>None\<close> is the result \<open>undefined\<close>. An array element without a canonical form is joined as
  the empty string (\<open>Array.prototype.join\<close>), an object member whose value is \<open>undefined\<close> is
  skipped, and a non-finite number prints as \<open>null\<close>.
\<close>

fun jcsCanonicalize :: "(rat \<Rightarrow> string) \<Rightarrow> jsval \<Rightarrow> string option" where
  "jcsCanonicalize ns JUndef = None"
| "jcsCanonicalize ns JNull = Some ''null''"
| "jcsCanonicalize ns (JBool b) = Some (if b then ''true'' else ''false'')"
| "jcsCanonicalize ns (JNum n) = Some (case n of Fin q \<Rightarrow> ns q | _ \<Rightarrow> ''null'')"
| "jcsCanonicalize ns (JStr s) = Some (quote_str s)"
| "jcsCanonicalize ns (JArr xs) =
     Some (''['' @ join '','' (map (\<lambda>v. case jcsCanonicalize ns v of Some t \<Rightarrow> t | None \<Rightarrow> []) xs) @ '']'')"
| "jcsCanonicalize ns (JObj ps) =
     Some (''{'' @
       join '',''
         (map (\<lambda>(k, t). quote_str k @ '':'' @ (case t of Some t' \<Rightarrow> t' | None \<Rightarrow> ''undefined''))
           (sort_key fst
             (map (\<lambda>(k, v). (k, jcsCanonicalize ns v)) (filter (\<lambda>(k, v). v \<noteq> JUndef) ps))))
       @ ''}'')"

text \<open>\<open>computePayloadHash\<close>, with the digest function as a parameter.\<close>

definition computePayloadHash :: "(string \<Rightarrow> string) \<Rightarrow> (rat \<Rightarrow> string) \<Rightarrow> jsval \<Rightarrow> string" where
  "computePayloadHash sha256_hex ns payload =
     ''sha256:'' @ sha256_hex (case jcsCanonicalize ns payload of Some c \<Rightarrow> c | None \<Rightarrow> ''undefined'')"

section \<open>Envelopes\<close>

record envelope_params =
  ep_from :: string
  ep_to :: string
  ep_type :: string
  ep_payload :: jsval
  ep_keyId :: string
  ep_msgId :: string
  ep_ts :: int
  ep_replyTo :: "string option"
  ep_ttlSec :: int
  ep_topic :: "string option"
  ep_goal :: "string option"

record envelope =
  env_v :: string
  env_msg_id :: string
  env_ts :: int
  env_from :: string
  env_to :: string
  env_type :: string
  env_reply_to :: "string option"
  env_ttl_sec :: int
  env_topic :: "string option"
  env_goal :: "string option"
  env_payload :: jsval
  env_payload_hash :: string
  env_sig_alg :: string
  env_sig_key_id :: string
  env_sig_value :: string

text \<open>The newline-joined fields that are signed. \<open>replyTo || ""\<close>: no reply target signs as empty.\<close>

definition signing_parts :: "envelope_params \<Rightarrow> string \<Rightarrow> string list" where
  "signing_parts p payloadHash =
     [''a2a/0.1'', ep_msgId p, int_str (ep_ts p), ep_from p, ep_to p, ep_type p,
      (case ep_replyTo p of Some r \<Rightarrow> r | None \<Rightarrow> []), int_str (ep_ttlSec p), payloadHash]"

definition newline :: char where
  "newline = CHR 0x0A"

definition signing_input :: "(string \<Rightarrow> string) \<Rightarrow> (rat \<Rightarrow> string) \<Rightarrow> envelope_params \<Rightarrow> string" where
  "signing_input sha256_hex ns p =
     join [newline] (signing_parts p (computePayloadHash sha256_hex ns (ep_payload p)))"

definition buildSignedEnvelope ::
  "(string \<Rightarrow> string) \<Rightarrow> (rat \<Rightarrow> string) \<Rightarrow> (string \<Rightarrow> string) \<Rightarrow> envelope_params \<Rightarrow> envelope" where
  "buildSignedEnvelope sha256_hex ns sign_b64 p =
     (let payloadHash = computePayloadHash sha256_hex ns (ep_payload p);
          sigValue = sign_b64 (signing_input sha256_hex ns p)
      in \<lparr>env_v = ''a2a/0.1'', env_msg_id = ep_msgId p, env_ts = ep_ts p, env_from = ep_from p,
          env_to = ep_to p, env_type = ep_type p, env_reply_to = ep_replyTo p,
          env_ttl_sec = ep_ttlSec p, env_topic = ep_topic p, env_goal = ep_goal p,
          env_payload = ep_payload p, env_payload_hash = payloadHash, env_sig_alg = ''ed25519'',
          env_sig_key_id = ep_keyId p, env_sig_value = sigValue\<rparr>)"

section \<open>Session keys of the protocol core\<close>

text \<open>
  \<open>uuidV5\<close>, with SHA-1 as a parameter on bytes: version and variant bits are forced into
  bytes 6 and 8 of the digest, and the first sixteen bytes are printed in groups.
\<close>

fun hex_bytes :: "string \<Rightarrow> 8 word list" where
  "hex_bytes (a # b # s) = of_nat (16 * hex_val a + hex_val b) # hex_bytes s"
| "hex_bytes _ = []"

definition byte_hex :: "8 word \<Rightarrow> string" where
  "byte_hex b = [hex_char (unat b div 16), hex_char (unat b mod 16)]"

text \<open>UTF-8 of a Latin-1 code unit.\<close>

definition utf8_char :: "char \<Rightarrow> 8 word list" where
  "utf8_char c =
     (let n = (of_char c :: nat)
      in if n < 128 then [of_nat n] else [of_nat (192 + n div 64), of_nat (128 + n mod 64)])"

definition uuidV5 :: "(8 word list \<Rightarrow> 8 word list) \<Rightarrow> string \<Rightarrow> string \<Rightarrow> string" where
  "uuidV5 sha1 name namespace =
     (let nsHex = filter (\<lambda>c. c \<noteq> CHR ''-'') namespace;
          nsBytes = hex_bytes nsHex;
          hash = sha1 (nsBytes @ concat (map utf8_char name));
          hash = hash[6 := (hash ! 6 AND 0x0f) OR 0x50];
          hash = hash[8 := (hash ! 8 AND 0x3f) OR 0x80];
          hex = concat (map byte_hex (take 16 hash))
      in join ''-'' [take 8 hex, take 4 (drop 8 hex), take 4 (drop 12 hex), take 4 (drop 16 hex), take 12 (drop 20 hex)])"

definition SESSION_KEY_NAMESPACE :: string where
  "SESSION_KEY_NAMESPACE = ''d4e8f2a1-3b6c-4d5e-9f0a-1b2c3d4e5f6a''"

text \<open>The seed of a session key; an absent and an empty string are both falsy.\<close>

definition session_seed :: "string \<Rightarrow> string \<Rightarrow> string \<Rightarrow> string" where
  "session_seed roomId topic senderId =
     (if roomId \<noteq> [] then (if topic \<noteq> [] then roomId @ '':'' @ topic else roomId)
      else if senderId \<noteq> [] then ''dm:'' @ senderId
      else ''default'')"

definition buildSessionKey ::
  "(8 word list \<Rightarrow> 8 word list) \<Rightarrow> string option \<Rightarrow> string option \<Rightarrow> string option \<Rightarrow> string" where
  "buildSessionKey sha1 roomId topic senderId =
     (let opt = (\<lambda>s. case s of Some t \<Rightarrow> t | None \<Rightarrow> [])
      in ''botcord:'' @ uuidV5 sha1 (session_seed (opt roomId) (opt topic) (opt senderId)) SESSION_KEY_NAMESPACE)"

section \<open>The canonical form as a value\<close>

text \<open>
  \<open>canon\<close> is the value a canonical text stands for: members sorted by key and undefined ones
  dropped, non-finite numbers as \<open>null\<close>. \<open>enc\<close> prints such a value in the order it has.
\<close>

fun canon :: "jsval \<Rightarrow> jsval" where
  "canon (JNum n) = (case n of Fin q \<Rightarrow> JNum (Fin q) | _ \<Rightarrow> JNull)"
| "canon (JArr xs) = JArr (map canon xs)"
| "canon (JObj ps) =
     JObj (sort_key fst (map (\<lambda>(k, v). (k, canon v)) (filter (\<lambda>(k, v). v \<noteq> JUndef) ps)))"
| "canon v = v"

fun enc :: "(rat \<Rightarrow> string) \<Rightarrow> jsval \<Rightarrow> string" where
  "enc ns JNull = ''null''"
| "enc ns (JBool b) = (if b then ''true'' else ''false'')"
| "enc ns (JNum n) = (case n of Fin q \<Rightarrow> ns q | _ \<Rightarrow> [])"
| "enc ns (JStr s) = quote_str s"
| "enc ns (JArr xs) = ''['' @ join '','' (map (enc ns) xs) @ '']''"
| "enc ns (JObj ps) = ''{'' @ join '','' (map (\<lambda>(k, v). quote_str k @ '':'' @ enc ns v) ps) @ ''}''"
| "enc ns JUndef = []"

text \<open>The values JSON can carry: no \<open>undefined\<close> but as an object member, distinct keys.\<close>

fun json_ok :: "jsval \<Rightarrow> bool" where
  "json_ok JUndef = False"
| "json_ok (JArr xs) = (\<forall>x \<in> set xs. json_ok x)"
| "json_ok (JObj ps) = (distinct (map fst ps) \<and> (\<forall>(k, v) \<in> set ps. v = JUndef \<or> json_ok v))"
| "json_ok _ = True"

text \<open>Canonical values: finite numbers only, no \<open>undefined\<close> at all.\<close>

fun nf :: "jsval \<Rightarrow> bool" where
  "nf JUndef = False"
| "nf (JNum n) = (\<exists>q. n = Fin q)"
| "nf (JArr xs) = (\<forall>x \<in> set xs. nf x)"
| "nf (JObj ps) = (\<forall>(k, v) \<in> set ps. nf v)"
| "nf _ = True"

definition number_chars :: "char set" where
  "number_chars = set ''0123456789+-.e''"

definition number_format :: "(rat \<Rightarrow> string) \<Rightarrow> bool" where
  "number_format ns \<longleftrightarrow> (\<forall>p q. ns p = ns q \<longrightarrow> p = q) \<and> (\<forall>q. ns q \<noteq> [] \<and> set (ns q) \<subseteq> number_chars)"

lemma canon_undef [simp]: "canon v = JUndef \<longleftrightarrow> v = JUndef"
  by (cases v) (auto split: jsnum.splits)

lemma nf_canon: "json_ok v \<Longrightarrow> nf (canon v)"
proof (induction v rule: canon.induct)
  case (3 ps)
  then show ?case by (fastforce split: prod.splits)
qed (auto split: jsnum.splits)

lemma sort_key_map_fst:
  assumes "\<And>p. fst (f p) = fst p"
  shows "sort_key fst (map f ps) = map f (sort_key fst ps)"
proof (induction ps)
  case (Cons p ps)
  have "insort_key fst (f p) (map f qs) = map f (insort_key fst p qs)" for qs
    by (induction qs) (auto simp: assms)
  with Cons show ?case by simp
qed simp

lemma jcs_enc: "json_ok v \<Longrightarrow> jcsCanonicalize ns v = Some (enc ns (canon v))"
proof (induction ns v rule: jcsCanonicalize.induct)
  case (6 ns xs)
  then have "map (\<lambda>v. case jcsCanonicalize ns v of Some t \<Rightarrow> t | None \<Rightarrow> []) xs = map (enc ns \<circ> canon) xs"
    by simp
  then show ?case by (simp only: jcsCanonicalize.simps canon.simps enc.simps map_map)
next
  case (7 ns ps)
  let ?qs = "filter (\<lambda>(k, v). v \<noteq> JUndef) ps"
  let ?part = "\<lambda>(k, t). quote_str k @ '':'' @ (case t of Some t' \<Rightarrow> t' | None \<Rightarrow> ''undefined'')"
  have IH: "jcsCanonicalize ns v = Some (enc ns (canon v))" if "(k, v) \<in> set ?qs" for k v
    using 7 that by fastforce
  have "sort_key fst (map (\<lambda>(k, v). (k, jcsCanonicalize ns v)) ?qs)
      = map (\<lambda>(k, v). (k, jcsCanonicalize ns v)) (sort_key fst ?qs)"
    by (rule sort_key_map_fst) (simp add: split_beta)
  then have "map ?part (sort_key fst (map (\<lambda>(k, v). (k, jcsCanonicalize ns v)) ?qs))
      = map (\<lambda>(k, v). ?part (k, jcsCanonicalize ns v)) (sort_key fst ?qs)"
    by (simp add: split_beta comp_def)
  also have "\<dots> = map (\<lambda>(k, v). quote_str k @ '':'' @ enc ns (canon v)) (sort_key fst ?qs)"
    using IH by (intro map_cong) auto
  also have "\<dots> = map (\<lambda>(k, v). quote_str k @ '':'' @ enc ns v)
      (sort_key fst (map (\<lambda>(k, v). (k, canon v)) ?qs))"
    by (subst sort_key_map_fst) (simp_all add: split_beta comp_def)
  finally show ?case by (simp only: jcsCanonicalize.simps canon.simps enc.simps)
qed (auto split: jsnum.splits)

section \<open>Unique decodability\<close>

text \<open>
  A decoder for escapes: reading back one character of a quoted string. It shows that the
  escapes of two characters never overlap.
\<close>

definition unescape :: "string \<Rightarrow> (char \<times> string) option" where
  "unescape s =
     (case s of
        [] \<Rightarrow> None
      | c # t \<Rightarrow>
          if c \<noteq> CHR 0x5C then Some (c, t)
          else (case t of
                  [] \<Rightarrow> None
                | e # u \<Rightarrow>
                    if e = CHR ''b'' then Some (CHR 0x08, u)
                    else if e = CHR ''f'' then Some (CHR 0x0C, u)
                    else if e = CHR ''n'' then Some (CHR 0x0A, u)
                    else if e = CHR ''r'' then Some (CHR 0x0D, u)
                    else if e = CHR ''t'' then Some (CHR 0x09, u)
                    else if e = CHR ''u'' then Some (char_of (16 * hex_val (u ! 2) + hex_val (u ! 3)), drop 4 u)
                    else Some (e, u)))"

lemma hex_val_char_all: "\<forall>d \<in> {0..<16}. hex_val (hex_char d) = d"
  by code_simp

lemma hex_val_char [simp]: "d < 16 \<Longrightarrow> hex_val (hex_char d) = d"
  using hex_val_char_all by simp

lemma unescape_escape: "unescape (escape_char c @ x) = Some (c, x)"
proof (cases "c \<in> {CHR 0x22, CHR 0x5C, CHR 0x08, CHR 0x0C, CHR 0x0A, CHR 0x0D, CHR 0x09}")
  case True
  then show ?thesis by (auto simp: escape_char_def unescape_def)
next
  case named: False
  show ?thesis
  proof (cases "(of_char c :: nat) < 32")
    case True
    have "16 * (of_char c div 16) + of_char c mod 16 = (of_char c :: nat)" by simp
    moreover have "(of_char c :: nat) div 16 < 16" using True by simp
    ultimately show ?thesis using True named
      by (simp add: escape_char_def unescape_def numeral_2_eq_2 numeral_3_eq_3)
  next
    case False
    with named show ?thesis by (simp add: escape_char_def unescape_def)
  qed
qed

lemma escape_char_prefix:
  assumes "escape_char c @ x = escape_char d @ y"
  shows "c = d \<and> x = y"
  using unescape_escape[of c x, unfolded assms] unescape_escape[of d y] by simp

lemma escape_char_hd: "escape_char c \<noteq> [] \<and> hd (escape_char c) \<noteq> CHR 0x22"
  unfolding escape_char_def by (simp split: if_split)

lemma escapes_prefix:
  assumes "concat (map escape_char s) @ CHR 0x22 # x = concat (map escape_char t) @ CHR 0x22 # y"
  shows "s = t \<and> x = y"
  using assms
proof (induction s arbitrary: t)
  case Nil
  then show ?case
  proof (cases t)
    case (Cons d t')
    with Nil escape_char_hd[of d] show ?thesis by (cases "escape_char d") auto
  qed simp
next
  case (Cons c s)
  show ?case
  proof (cases t)
    case Nil
    with Cons.prems escape_char_hd[of c] show ?thesis by (cases "escape_char c") auto
  next
    case (Cons d t')
    with Cons.prems have "escape_char c @ (concat (map escape_char s) @ CHR 0x22 # x)
        = escape_char d @ (concat (map escape_char t') @ CHR 0x22 # y)" by simp
    then have "c = d \<and> concat (map escape_char s) @ CHR 0x22 # x = concat (map escape_char t') @ CHR 0x22 # y"
      by (rule escape_char_prefix)
    with Cons.IH[of t'] Cons show ?thesis by simp
  qed
qed

lemma quote_str_prefix: "quote_str s @ x = quote_str t @ y \<longleftrightarrow> s = t \<and> x = y"
  using escapes_prefix[of s x t y] by (auto simp: quote_str_def)


text \<open>
  A canonical text ends where a comma, a closing bracket or the end of input follows: \<open>enc\<close> is
  then a prefix code on canonical values.
\<close>

definition tail_ok :: "string \<Rightarrow> bool" where
  "tail_ok t \<longleftrightarrow> t = [] \<or> hd t \<in> {CHR '','', CHR '']'', CHR ''}''}"

definition separates :: "('a \<Rightarrow> string) \<Rightarrow> 'a \<Rightarrow> 'a \<Rightarrow> bool" where
  "separates f a b \<longleftrightarrow>
     (\<forall>x y. tail_ok x \<longrightarrow> tail_ok y \<longrightarrow> f a @ x = f b @ y \<longrightarrow> a = b \<and> x = y)"

lemma separatesD:
  "separates f a b \<Longrightarrow> tail_ok x \<Longrightarrow> tail_ok y \<Longrightarrow> f a @ x = f b @ y \<Longrightarrow> a = b \<and> x = y"
  unfolding separates_def by blast

definition opens :: "string \<Rightarrow> bool" where
  "opens s \<longleftrightarrow> s \<noteq> [] \<and> hd s \<notin> {CHR '','', CHR '']'', CHR ''}''}"

abbreviation comma_rest :: "('a \<Rightarrow> string) \<Rightarrow> 'a list \<Rightarrow> string" where
  "comma_rest f xs \<equiv> concat (map (\<lambda>a. CHR '','' # f a) xs)"

lemma join_comma_rest: "join '','' (map f (a # xs)) = f a @ comma_rest f xs"
  by (induction xs arbitrary: a) auto

lemma tail_comma_rest: "e \<in> {CHR '']'', CHR ''}''} \<Longrightarrow> tail_ok (comma_rest f xs @ e # x)"
  by (cases xs) (auto simp: tail_ok_def)

lemma comma_rest_prefix:
  assumes "\<forall>a \<in> set xs. \<forall>b \<in> set ys. separates f a b" "e \<in> {CHR '']'', CHR ''}''}"
    and "comma_rest f xs @ e # x = comma_rest f ys @ e # y"
  shows "xs = ys \<and> x = y"
  using assms(1,3)
proof (induction xs arbitrary: ys)
  case Nil
  with assms(2) show ?case by (cases ys) auto
next
  case (Cons a xs)
  show ?case
  proof (cases ys)
    case Nil
    with Cons.prems assms(2) show ?thesis by auto
  next
    case (Cons b ys')
    with Cons.prems have "f a @ (comma_rest f xs @ e # x) = f b @ (comma_rest f ys' @ e # y)"
      and "separates f a b" by auto
    then have "a = b \<and> comma_rest f xs @ e # x = comma_rest f ys' @ e # y"
      by (intro separatesD tail_comma_rest assms(2))
    with Cons.IH[of ys'] Cons.prems(1) Cons show ?thesis by auto
  qed
qed

lemma join_prefix:
  assumes sep: "\<forall>a \<in> set xs. \<forall>b \<in> set ys. separates f a b" and e: "e \<in> {CHR '']'', CHR ''}''}"
    and op: "\<forall>a \<in> set xs \<union> set ys. opens (f a)"
    and eq: "join '','' (map f xs) @ e # x = join '','' (map f ys) @ e # y"
  shows "xs = ys \<and> x = y"
proof (cases xs)
  case Nil
  show ?thesis
  proof (cases ys)
    case (Cons b ys')
    with Nil eq join_comma_rest[of f b ys'] have "e # x = f b @ (comma_rest f ys' @ e # y)" by simp
    with op e Cons show ?thesis by (cases "f b") (auto simp: opens_def)
  qed (use Nil eq in simp)
next
  case xs: (Cons a xs')
  show ?thesis
  proof (cases ys)
    case Nil
    with xs eq join_comma_rest[of f a xs'] have "f a @ (comma_rest f xs' @ e # x) = e # y" by simp
    with op e xs show ?thesis by (cases "f a") (auto simp: opens_def)
  next
    case ys: (Cons b ys')
    from xs ys eq join_comma_rest[of f a xs'] join_comma_rest[of f b ys']
    have "f a @ (comma_rest f xs' @ e # x) = f b @ (comma_rest f ys' @ e # y)" by simp
    moreover have "separates f a b" using sep xs ys by simp
    ultimately have "a = b \<and> comma_rest f xs' @ e # x = comma_rest f ys' @ e # y"
      by (intro separatesD tail_comma_rest e)
    with comma_rest_prefix[of xs' ys' f e] sep e xs ys show ?thesis by auto
  qed
qed

lemma number_char_not: 
  "c \<in> number_chars \<Longrightarrow> c \<notin> {CHR '','', CHR '']'', CHR ''}'', CHR ''n'', CHR ''t'', CHR ''f'', CHR 0x22, CHR ''['', CHR ''{''}"
  by (auto simp: number_chars_def)

lemma number_prefix:
  assumes "number_format ns" "tail_ok x" "tail_ok y" "ns p @ x = ns q @ y"
  shows "p = q \<and> x = y"
proof -
  have t: "takeWhile (\<lambda>c. c \<in> number_chars) (ns r @ z) = ns r" if "tail_ok z" for r z
  proof -
    have "\<forall>c \<in> set (ns r). c \<in> number_chars" using assms(1) by (auto simp: number_format_def)
    moreover have "takeWhile (\<lambda>c. c \<in> number_chars) z = []"
      using that number_char_not by (cases z) (auto simp: tail_ok_def)
    ultimately show ?thesis by (simp add: takeWhile_append)
  qed
  from t[OF assms(2), of p] t[OF assms(3), of q] assms(4) have "ns p = ns q" by simp
  with assms(1,4) show ?thesis by (auto simp: number_format_def)
qed

lemma enc_hd:
  assumes "number_format ns" "nf v"
  shows "opens (enc ns v) \<and>
    (hd (enc ns v) = CHR ''n'' \<longleftrightarrow> v = JNull) \<and>
    (hd (enc ns v) = CHR ''t'' \<longleftrightarrow> v = JBool True) \<and>
    (hd (enc ns v) = CHR ''f'' \<longleftrightarrow> v = JBool False) \<and>
    (hd (enc ns v) = CHR 0x22 \<longleftrightarrow> (\<exists>s. v = JStr s)) \<and>
    (hd (enc ns v) = CHR ''['' \<longleftrightarrow> (\<exists>xs. v = JArr xs)) \<and>
    (hd (enc ns v) = CHR ''{'' \<longleftrightarrow> (\<exists>ps. v = JObj ps))"
proof (cases v)
  case (JNum n)
  with assms obtain q where q: "n = Fin q" by auto
  from assms(1) have "set (ns q) \<subseteq> number_chars" "ns q \<noteq> []" by (auto simp: number_format_def)
  then have "hd (ns q) \<in> number_chars" "ns q \<noteq> []" by (auto intro: hd_in_set)
  with number_char_not[of "hd (ns q)"] JNum q show ?thesis by (auto simp: opens_def)
qed (use assms in \<open>auto simp: opens_def quote_str_def\<close>)


lemma enc_same_head:
  assumes "number_format ns" "nf v" "nf w" "enc ns v @ x = enc ns w @ y"
  shows "hd (enc ns v) = hd (enc ns w)"
  using enc_hd[OF assms(1,2)] enc_hd[OF assms(1,3)] assms(4) unfolding opens_def by (metis hd_append2)

lemma enc_separates:
  assumes "number_format ns"
  shows "nf v \<Longrightarrow> nf w \<Longrightarrow> separates (enc ns) v w"
proof (induction v arbitrary: w)
  case (JNum n)
  then obtain p where n: "n = Fin p" by auto
  show ?case unfolding separates_def
  proof (intro allI impI)
    fix x y assume t: "tail_ok x" "tail_ok y" and eq: "enc ns (JNum n) @ x = enc ns w @ y"
    have "\<exists>m. w = JNum m"
      using enc_same_head[OF assms JNum.prems eq] enc_hd[OF assms JNum.prems(1)] enc_hd[OF assms JNum.prems(2)]
      by (cases w) (use JNum.prems in \<open>auto split: if_splits\<close>)
    with JNum.prems(2) obtain q where "w = JNum (Fin q)" by auto
    with number_prefix[OF assms t] eq n show "JNum n = w \<and> x = y" by simp
  qed
next
  case (JArr xs)
  show ?case unfolding separates_def
  proof (intro allI impI)
    fix x y assume t: "tail_ok x" "tail_ok y" and eq: "enc ns (JArr xs) @ x = enc ns w @ y"
    from enc_same_head[OF assms JArr.prems eq] enc_hd[OF assms JArr.prems(2)] have "\<exists>ys. w = JArr ys" by auto
    then obtain ys where w: "w = JArr ys" by blast
    have "xs = ys \<and> x = y"
    proof (rule join_prefix)
      show "\<forall>a \<in> set xs. \<forall>b \<in> set ys. separates (enc ns) a b" using JArr w by auto
      show "\<forall>a \<in> set xs \<union> set ys. opens (enc ns a)" using JArr.prems w enc_hd[OF assms] by auto
      show "join '','' (map (enc ns) xs) @ CHR '']'' # x = join '','' (map (enc ns) ys) @ CHR '']'' # y"
        using eq w by simp
    qed simp
    with w show "JArr xs = w \<and> x = y" by simp
  qed
next
  case (JObj ps)
  let ?f = "\<lambda>(k, v). quote_str k @ '':'' @ enc ns v"
  show ?case unfolding separates_def
  proof (intro allI impI)
    fix x y assume t: "tail_ok x" "tail_ok y" and eq: "enc ns (JObj ps) @ x = enc ns w @ y"
    from enc_same_head[OF assms JObj.prems eq] enc_hd[OF assms JObj.prems(2)] have "\<exists>qs. w = JObj qs" by auto
    then obtain qs where w: "w = JObj qs" by blast
    have sep: "separates ?f a b" if "a \<in> set ps" "b \<in> set qs" for a b
    proof -
      obtain k v l u where ab: "a = (k, v)" "b = (l, u)" by (cases a, cases b) auto
      have "separates (enc ns) v u" using JObj that ab w by (fastforce simp: snds.simps)
      then show ?thesis using ab by (auto simp: separates_def quote_str_prefix)
    qed
    have "ps = qs \<and> x = y"
    proof (rule join_prefix)
      show "\<forall>a \<in> set ps. \<forall>b \<in> set qs. separates ?f a b" using sep by blast
      show "\<forall>a \<in> set ps \<union> set qs. opens (?f a)" by (auto simp: opens_def quote_str_def)
      show "join '','' (map ?f ps) @ CHR ''}'' # x = join '','' (map ?f qs) @ CHR ''}'' # y"
        using eq w by simp
    qed simp
    with w show "JObj ps = w \<and> x = y" by simp
  qed
next
  case (JBool b)
  show ?case unfolding separates_def
  proof (intro allI impI)
    fix x y assume eq: "enc ns (JBool b) @ x = enc ns w @ y"
    from enc_same_head[OF assms JBool.prems eq] enc_hd[OF assms JBool.prems(2)] have "w = JBool b"
      by (cases b) auto
    with eq show "JBool b = w \<and> x = y" by simp
  qed
next
  case JNull
  show ?case unfolding separates_def
  proof (intro allI impI)
    fix x y assume eq: "enc ns JNull @ x = enc ns w @ y"
    from enc_same_head[OF assms JNull.prems eq] enc_hd[OF assms JNull.prems(2)] have "w = JNull" by auto
    with eq show "JNull = w \<and> x = y" by simp
  qed
next
  case (JStr s)
  show ?case unfolding separates_def
  proof (intro allI impI)
    fix x y assume eq: "enc ns (JStr s) @ x = enc ns w @ y"
    from enc_same_head[OF assms JStr.prems eq] enc_hd[OF assms JStr.prems(2)] have "\<exists>t. w = JStr t"
      by (auto simp: quote_str_def)
    then obtain t where "w = JStr t" by blast
    with eq show "JStr s = w \<and> x = y" by (simp add: quote_str_prefix)
  qed
qed simp

lemma enc_inj: "number_format ns \<Longrightarrow> nf v \<Longrightarrow> nf w \<Longrightarrow> enc ns v = enc ns w \<longleftrightarrow> v = w"
  using separatesD[OF enc_separates, of ns v w "[]" "[]"] by (auto simp: tail_ok_def)

section \<open>What a signature binds\<close>

text \<open>A number format that meets the assumptions: numerator and denominator of the fraction.\<close>

definition int_format :: "rat \<Rightarrow> string" where
  "int_format q = (case quotient_of q of (a, b) \<Rightarrow> int_str a @ ''e'' @ int_str b)"

lemma sort_key_perm:
  assumes "distinct (map fst ps)" "mset ps = mset qs"
  shows "sort_key fst ps = (sort_key fst qs :: (string \<times> 'a) list)"
proof (rule map_sorted_distinct_set_unique[where f = fst])
  have "distinct (map fst qs)"
    using assms by (metis mset_eq_imp_distinct_iff mset_map)
  then show "distinct (map fst (sort_key fst qs))"
    by (metis mset_eq_imp_distinct_iff mset_map mset_sort)
  show "distinct (map fst (sort_key fst ps))"
    using assms(1) by (metis mset_eq_imp_distinct_iff mset_map mset_sort)
  show "set (sort_key fst ps) = set (sort_key fst qs)"
    using mset_eq_setD[OF assms(2)] by simp
  then show "inj_on fst (set (sort_key fst ps) \<union> set (sort_key fst qs))"
    using assms(1) by (simp add: distinct_map)
qed simp_all

lemma distinct_filter_fst: "distinct (map fst ps) \<Longrightarrow> distinct (map fst (filter P ps))"
  by (induction ps) auto

text \<open>Canonicalization does not depend on the order in which an object's members were
  inserted.\<close>

theorem jcs_key_order:
  assumes "distinct (map fst ps)" and "mset ps = mset qs"
  shows "jcsCanonicalize ns (JObj ps) = jcsCanonicalize ns (JObj qs)"
proof -
  let ?f = "\<lambda>(k, v). (k, jcsCanonicalize ns v)" and ?P = "\<lambda>(k, v). v \<noteq> JUndef"
  have "sort_key fst (map ?f (filter ?P ps)) = sort_key fst (map ?f (filter ?P qs))"
  proof (rule sort_key_perm)
    show "mset (map ?f (filter ?P ps)) = mset (map ?f (filter ?P qs))" using assms(2) by simp
    show "distinct (map fst (map ?f (filter ?P ps)))"
      using distinct_filter_fst[OF assms(1)] by (simp add: comp_def split_beta)
  qed
  then show ?thesis by (simp only: jcsCanonicalize.simps)
qed

theorem jcs_key_order_witness:
  "jcsCanonicalize int_format (JObj [(''b'', JNull), (''a'', JBool True)])
   = jcsCanonicalize int_format (JObj [(''a'', JBool True), (''b'', JNull)])"
  by (rule jcs_key_order) simp_all

text \<open>The canonical text of a JSON value determines it up to member order, undefined
  members and non-finite numbers: two values have the same text exactly when they have the same
  canonical form.\<close>

theorem jcs_decides_canonical_form:
  assumes "number_format ns" and "json_ok v" and "json_ok w"
  shows "jcsCanonicalize ns v = jcsCanonicalize ns w \<longleftrightarrow> canon v = canon w"
  using enc_inj[OF assms(1) nf_canon[OF assms(2)] nf_canon[OF assms(3)]]
    jcs_enc[OF assms(2)] jcs_enc[OF assms(3)] by simp

lemma number_format_int_format: "number_format int_format"
proof -
  have plain: "CHR ''e'' \<notin> set (int_str i)" for i
    using set_int_str[of i] by (auto simp: digit_chars_def)
  have inj: "p = q" if "int_format p = int_format q" for p q
  proof -
    from that have "int_str (fst (quotient_of p)) @ CHR ''e'' # int_str (snd (quotient_of p))
        = int_str (fst (quotient_of q)) @ CHR ''e'' # int_str (snd (quotient_of q))"
      by (simp add: int_format_def split_beta)
    then have "quotient_of p = quotient_of q"
      using append_sep_eq[OF plain plain] by (metis int_str_inj prod_eqI)
    then show ?thesis by (rule quotient_of_inject)
  qed
  have "set (int_format q) \<subseteq> number_chars" for q
  proof -
    have "insert (CHR ''-'') digit_chars \<subseteq> number_chars" "CHR ''e'' \<in> number_chars"
      by (simp_all add: number_chars_def digit_chars_def)
    then show ?thesis using set_int_str[of "fst (quotient_of q)"] set_int_str[of "snd (quotient_of q)"]
      unfolding int_format_def split_beta by auto
  qed
  moreover have "int_format q \<noteq> []" for q by (simp add: int_format_def split_beta)
  ultimately show ?thesis using inj by (auto simp: number_format_def)
qed

theorem jcs_decides_canonical_form_witness:
  "jcsCanonicalize int_format (JArr [JStr ''a'', JStr ''b'']) \<noteq> jcsCanonicalize int_format (JArr [JStr ''a,b''])"
  using jcs_decides_canonical_form[OF number_format_int_format, of "JArr [JStr ''a'', JStr ''b'']" "JArr [JStr ''a,b'']"]
  by simp

definition newline_free :: "envelope_params \<Rightarrow> bool" where
  "newline_free p \<longleftrightarrow>
     newline \<notin> set (ep_msgId p) \<and> newline \<notin> set (ep_from p) \<and> newline \<notin> set (ep_to p) \<and>
     newline \<notin> set (ep_type p) \<and> (case ep_replyTo p of Some r \<Rightarrow> newline \<notin> set r | None \<Rightarrow> True)"

lemma int_str_no_newline: "newline \<notin> set (int_str i)"
  using set_int_str[of i] by (auto simp: newline_def digit_chars_def)

text \<open>C18: A signature binds the envelope: two envelopes with the same signing input, with
  newline-free identifiers and a digest that does not collide on their canonical texts, agree in
  every signed header field and in the canonical form of the payload.\<close>

theorem signing_input_binds:
  assumes "number_format ns" and "newline_free p" and "newline_free q"
    and "json_ok (ep_payload p)" and "json_ok (ep_payload q)"
    and "\<And>x. newline \<notin> set (sha256_hex x)"
    and no_collision: "\<And>x y. jcsCanonicalize ns (ep_payload p) = Some x \<Longrightarrow> jcsCanonicalize ns (ep_payload q) = Some y \<Longrightarrow>
      sha256_hex x = sha256_hex y \<Longrightarrow> x = y"
    and eq: "signing_input sha256_hex ns p = signing_input sha256_hex ns q"
  shows "ep_msgId p = ep_msgId q \<and> ep_ts p = ep_ts q \<and> ep_from p = ep_from q \<and> ep_to p = ep_to q \<and>
    ep_type p = ep_type q \<and> ep_ttlSec p = ep_ttlSec q \<and>
    (case ep_replyTo p of Some r \<Rightarrow> r | None \<Rightarrow> []) = (case ep_replyTo q of Some r \<Rightarrow> r | None \<Rightarrow> []) \<and>
    canon (ep_payload p) = canon (ep_payload q)"
proof -
  let ?h = "\<lambda>p. computePayloadHash sha256_hex ns (ep_payload p)"
  have plain: "\<forall>x \<in> set (signing_parts r (?h r)). newline \<notin> set x" if "newline_free r" for r
    using that int_str_no_newline assms(6)
    by (auto simp: signing_parts_def newline_free_def computePayloadHash_def newline_def split: option.splits)
  have parts: "signing_parts p (?h p) = signing_parts q (?h q)"
    by (rule join_inj[OF plain[OF assms(2)] plain[OF assms(3)]])
      (use eq in \<open>simp_all add: signing_input_def signing_parts_def\<close>)
  then have "?h p = ?h q" by (simp add: signing_parts_def)
  with jcs_enc[OF assms(4), of ns] jcs_enc[OF assms(5), of ns] no_collision
  have "jcsCanonicalize ns (ep_payload p) = jcsCanonicalize ns (ep_payload q)"
    by (simp add: computePayloadHash_def)
  then have "enc ns (canon (ep_payload p)) = enc ns (canon (ep_payload q))"
    using jcs_enc[OF assms(4), of ns] jcs_enc[OF assms(5), of ns] by simp
  then have "canon (ep_payload p) = canon (ep_payload q)"
    using enc_inj[OF assms(1) nf_canon[OF assms(4)] nf_canon[OF assms(5)]] by simp
  with parts show ?thesis by (auto simp: signing_parts_def)
qed

definition example_params :: envelope_params where
  "example_params = \<lparr>ep_from = ''ag_1'', ep_to = ''ag_2'', ep_type = ''message'',
     ep_payload = JObj [(''text'', JStr ''hi'')], ep_keyId = ''k1'', ep_msgId = ''m1'', ep_ts = 7,
     ep_replyTo = None, ep_ttlSec = 3600, ep_topic = None, ep_goal = None\<rparr>"

text \<open>A stand-in digest for the witness: newline-free, distinct on the two texts compared.\<close>

definition plain_digest :: "string \<Rightarrow> string" where
  "plain_digest s = map (\<lambda>c. if c = newline then CHR '' '' else c) s"

theorem signing_input_binds_witness:
  "signing_input plain_digest int_format example_params
   \<noteq> signing_input plain_digest int_format (example_params\<lparr>ep_payload := JObj [(''text'', JStr ''hj'')]\<rparr>)"
proof
  let ?q = "example_params\<lparr>ep_payload := JObj [(''text'', JStr ''hj'')]\<rparr>"
  assume eq: "signing_input plain_digest int_format example_params = signing_input plain_digest int_format ?q"
  have "canon (ep_payload example_params) = canon (ep_payload ?q)"
  proof (rule signing_input_binds[OF number_format_int_format _ _ _ _ _ _ eq,
        THEN conjunct2, THEN conjunct2, THEN conjunct2, THEN conjunct2, THEN conjunct2, THEN conjunct2, THEN conjunct2])
    show "newline_free example_params" "newline_free ?q"
      by (simp_all add: newline_free_def example_params_def newline_def)
    show "json_ok (ep_payload example_params)" "json_ok (ep_payload ?q)" by (simp_all add: example_params_def)
    show "newline \<notin> set (plain_digest x)" for x by (auto simp: plain_digest_def newline_def)
    show "x = y" if "jcsCanonicalize int_format (ep_payload example_params) = Some x"
      "jcsCanonicalize int_format (ep_payload ?q) = Some y" "plain_digest x = plain_digest y" for x y
      using that by (auto simp: example_params_def plain_digest_def newline_def quote_str_def escape_char_def)
  qed
  then show False by (simp add: example_params_def)
qed

text \<open>An array element that is undefined canonicalizes to the empty text: the canonical text of
  the one-element array is that of the empty array, while on the wire JSON prints a null there, so
  such a payload is signed as one value and received as another.\<close>

theorem jcs_undefined_element:
  "jcsCanonicalize ns (JArr [JUndef]) = jcsCanonicalize ns (JArr []) \<and>
   jcsCanonicalize ns (JArr [JUndef]) \<noteq> jcsCanonicalize ns (JArr [JNull])"
  by simp

section \<open>The shape of a session key\<close>

lemma length_concat_hex: "length (concat (map byte_hex bs)) = 2 * length bs"
  by (induction bs) (auto simp: byte_hex_def)

lemma nth_concat_hex:
  "i < length bs \<Longrightarrow> concat (map byte_hex bs) ! (2 * i) = hex_char (unat (bs ! i) div 16)"
proof (induction bs arbitrary: i)
  case (Cons b bs)
  then show ?case by (cases i) (auto simp: byte_hex_def)
qed simp

lemma version_nibble: "unat (((b :: 8 word) AND 0x0f) OR 0x50) div 16 = 5"
proof -
  have "unat (((b :: 8 word) AND 0x0f) OR 0x50) = or (and (unat b) 15) 80"
    by (simp add: unsigned_or_eq unsigned_and_eq)
  moreover have "or (and n 15) 80 div 16 = (5::nat)" for n
  proof -
    have "drop_bit 4 (or (and n 15) 80) = or (and (drop_bit 4 n) (drop_bit 4 15)) (drop_bit 4 (80::nat))"
      by (simp only: drop_bit_or drop_bit_and)
    then show ?thesis by (simp add: drop_bit_eq_div)
  qed
  ultimately show ?thesis by simp
qed
lemma variant_nibble: "unat (((b :: 8 word) AND 0x3f) OR 0x80) div 16 \<in> {8, 9, 10, 11}"
proof -
  have "unat (((b :: 8 word) AND 0x3f) OR 0x80) = or (and (unat b) 63) 128"
    by (simp add: unsigned_or_eq unsigned_and_eq)
  moreover have "or (and n 63) 128 div 16 \<in> {8,9,10,11::nat}" for n
  proof -
    have "drop_bit 4 (or (and n 63) 128) = or (and (drop_bit 4 n) (drop_bit 4 63)) (drop_bit 4 (128::nat))"
      by (simp only: drop_bit_or drop_bit_and)
    then have e: "or (and n 63) 128 div 16 = or (and (n div 16) 3) (8::nat)" by (simp add: drop_bit_eq_div)
    have "and (n div 16) 3 = take_bit 2 (n div 16)" by (simp add: take_bit_eq_mask mask_eq_exp_minus_1)
    then have "and (n div 16) 3 < 4" by (simp add: take_bit_eq_mod)
    then have "and (n div 16) 3 \<in> {0,1,2,3}" by auto
    with e show ?thesis by auto
  qed
  ultimately show ?thesis by simp
qed

text \<open>A protocol session key is the prefix and a well-formed version 5 UUID: 36 characters with
  dashes after groups of 8, 4, 4 and 4, the version digit 5 and a variant digit 8, 9, a or b.\<close>

theorem uuidV5_shape:
  assumes "length (sha1 (hex_bytes (filter (\<lambda>c. c \<noteq> CHR ''-'') namespace) @ concat (map utf8_char name))) = 20"
  shows "length (uuidV5 sha1 name namespace) = 36 \<and>
    uuidV5 sha1 name namespace ! 14 = CHR ''5'' \<and>
    uuidV5 sha1 name namespace ! 19 \<in> set ''89ab''"
proof -
  let ?d = "sha1 (hex_bytes (filter (\<lambda>c. c \<noteq> CHR ''-'') namespace) @ concat (map utf8_char name))"
  define bs where "bs = take 16 (?d[6 := (?d ! 6 AND 0x0f) OR 0x50, 8 := (?d[6 := (?d ! 6 AND 0x0f) OR 0x50] ! 8 AND 0x3f) OR 0x80])"
  define hex where "hex = concat (map byte_hex bs)"
  have len: "length bs = 16" using assms by (simp add: bs_def)
  then have lh: "length hex = 32" by (simp add: hex_def length_concat_hex)
  have "hex ! (2 * 6) = hex_char (unat (bs ! 6) div 16)" "hex ! (2 * 8) = hex_char (unat (bs ! 8) div 16)"
    unfolding hex_def by (intro nth_concat_hex; simp add: len)+
  moreover have "bs ! 6 = (?d ! 6 AND 0x0f) OR 0x50" "bs ! 8 = (?d ! 8 AND 0x3f) OR 0x80"
    using assms by (simp_all add: bs_def)
  ultimately have h12: "hex ! 12 = CHR ''5''" and h16: "hex ! 16 \<in> set ''89ab''"
    using version_nibble[of "?d ! 6"] variant_nibble[of "?d ! 8"] by (auto simp: hex_char_def)
  have u: "uuidV5 sha1 name namespace =
      take 8 hex @ ''-'' @ take 4 (drop 8 hex) @ ''-'' @ take 4 (drop 12 hex) @ ''-'' @ take 4 (drop 16 hex) @ ''-'' @ take 12 (drop 20 hex)"
    by (simp add: uuidV5_def Let_def hex_def bs_def)
  show ?thesis unfolding u using lh h12 h16 by (simp add: nth_append)
qed

theorem uuidV5_shape_witness:
  "uuidV5 (\<lambda>_. replicate 20 0) ''x'' SESSION_KEY_NAMESPACE ! 14 = CHR ''5''"
  using uuidV5_shape[of "\<lambda>_. replicate 20 0" SESSION_KEY_NAMESPACE "''x''"] by simp

end
