(* ===== verification/Execution_Policy.thy ===== *)
theory Execution_Policy
  imports Gateway_Types Routing
begin

text \<open>
  The requester-derived execution policy of \<open>daemon/src/gateway/execution-policy.ts\<close>: who counts
  as the owner, which permission profile a turn runs with, and which environment variables a
  guest's turn may see. The theorems are the module's promises: a grantee never runs with full
  permissions, the most restrictive decision of a batch wins, an inactive grant never runs.

  A value of unknown type is a \<^typ>\<open>jsval\<close>; a set constant of strings is a list searched with
  membership. \<open>profile in HUB_PROFILE_RANK\<close> also accepts the names every object inherits
  (\<open>object_prototype_keys\<close>), as the language has it.
\<close>

section \<open>Owner trust\<close>

definition OWNER_CHAT_PREFIX :: string where
  "OWNER_CHAT_PREFIX = ''rm_oc_''"

definition OWNER_SOURCE_TYPES :: "string list" where
  "OWNER_SOURCE_TYPES =
     [''dashboard_user_chat'', ''cloud_agent_run'', ''botcord_schedule'', ''cloud_gateway_ingress'']"

definition entryOwnerTrusted :: "jsval \<Rightarrow> bool" where
  "entryOwnerTrusted entry =
     (if \<not> is_object entry then False
      else if get_prop entry ''sender_same_owner'' = JBool True then True
      else (case get_prop entry ''source_type'' of
              JStr s \<Rightarrow> s \<in> set OWNER_SOURCE_TYPES
            | _ \<Rightarrow> False))"

definition isOwnerTrustedInbound :: "inbound_message \<Rightarrow> bool \<Rightarrow> bool" where
  "isOwnerTrustedInbound msg botcordChannel =
     (if \<not> botcordChannel then True
      else if startsWith (c_id (m_conversation msg)) OWNER_CHAT_PREFIX then True
      else (case get_prop (m_raw msg) ''batch'' of
              JArr batch \<Rightarrow>
                (if batch \<noteq> [] then (\<forall>e \<in> set batch. entryOwnerTrusted e) else entryOwnerTrusted (m_raw msg))
            | _ \<Rightarrow> entryOwnerTrusted (m_raw msg)))"

definition RESTRICTION_CAPABLE_RUNTIMES :: "string list" where
  "RESTRICTION_CAPABLE_RUNTIMES =
     [''claude-code'', ''codex'', ''gemini'', ''hermes-agent'', ''deepseek-tui'']"

definition COLLABORATOR_CAPABLE_RUNTIMES :: "string list" where
  "COLLABORATOR_CAPABLE_RUNTIMES = [''claude-code'', ''codex'']"

definition wantsRestriction :: "inbound_message \<Rightarrow> gateway_route \<Rightarrow> bool \<Rightarrow> bool" where
  "wantsRestriction msg route botcordChannel =
     (if r_nonOwnerExecution route \<noteq> Some NonOwnerRestricted then False
      else \<not> isOwnerTrustedInbound msg botcordChannel)"

definition isRestrictedTurn :: "inbound_message \<Rightarrow> gateway_route \<Rightarrow> bool \<Rightarrow> bool" where
  "isRestrictedTurn msg route botcordChannel \<longleftrightarrow>
     wantsRestriction msg route botcordChannel \<and> r_runtime route \<in> set RESTRICTION_CAPABLE_RUNTIMES"

definition restrictionUnsupported :: "inbound_message \<Rightarrow> gateway_route \<Rightarrow> bool \<Rightarrow> bool" where
  "restrictionUnsupported msg route botcordChannel \<longleftrightarrow>
     wantsRestriction msg route botcordChannel \<and> r_runtime route \<notin> set RESTRICTION_CAPABLE_RUNTIMES"

section \<open>Grants and Hub decisions\<close>

datatype access_role = Consultant | Collaborator

record access_grant =
  g_grantId :: string
  g_spaceId :: string
  g_role :: access_role
  g_requesterId :: string
  g_workspacePath :: "string option"
  g_allowedCommands :: "string list"

datatype refusal_reason = GrantInactive | RuntimeUnsupported | HubDenied

datatype turn_execution =
    ExDefault
  | ExRestricted "access_grant option"
  | ExCollaborator access_grant
  | ExRefused refusal_reason "access_grant option"

record hub_decision =
  hd_wake :: bool
  hd_profile :: string
  hd_basis :: string

definition hub_profiles :: "string list" where
  "hub_profiles = [''deny'', ''consult'', ''collaborator'', ''full'']"

text \<open>
  \<open>HUB_PROFILE_RANK[p]\<close>: a number on the four profiles; on an inherited name it is a function
  of the prototype (or the prototype itself), which compares by its printed form.
\<close>

definition HUB_PROFILE_RANK :: "string \<Rightarrow> nat option" where
  "HUB_PROFILE_RANK =
     [''deny'' \<mapsto> 0, ''consult'' \<mapsto> 1, ''collaborator'' \<mapsto> 2, ''full'' \<mapsto> 3]"

definition object_prototype_keys :: "string list" where
  "object_prototype_keys =
     [''constructor'', ''toString'', ''toLocaleString'', ''valueOf'', ''hasOwnProperty'',
      ''isPrototypeOf'', ''propertyIsEnumerable'', ''__proto__'', ''__defineGetter__'',
      ''__defineSetter__'', ''__lookupGetter__'', ''__lookupSetter__'']"

definition proto_text :: "string \<Rightarrow> string" where
  "proto_text p =
     (if p = ''__proto__'' then ''[object Object]''
      else ''function '' @ (if p = ''constructor'' then ''Object'' else p) @ ''() { [native code] }'')"

text \<open>\<open>HUB_PROFILE_RANK[b]! < HUB_PROFILE_RANK[a]!\<close>: a number against a function compares with NaN.\<close>

definition rank_less :: "string \<Rightarrow> string \<Rightarrow> bool" where
  "rank_less b a =
     (case (HUB_PROFILE_RANK b, HUB_PROFILE_RANK a) of
        (Some m, Some n) \<Rightarrow> m < n
      | (None, None) \<Rightarrow> proto_text b < proto_text a
      | _ \<Rightarrow> False)"

definition inboundEntries :: "inbound_message \<Rightarrow> jsval list" where
  "inboundEntries msg =
     (case get_prop (m_raw msg) ''batch'' of
        JArr batch \<Rightarrow> (if batch \<noteq> [] then batch else [m_raw msg])
      | _ \<Rightarrow> [m_raw msg])"

definition readHubDecision :: "jsval \<Rightarrow> hub_decision option" where
  "readHubDecision entry =
     (if \<not> is_object entry then None
      else
        let d = get_prop entry ''hub_decision''
        in if \<not> is_object d then None
           else (case (get_prop d ''wake'', get_prop d ''profile'') of
                   (JBool wake, JStr profile) \<Rightarrow>
                     (if profile \<notin> set hub_profiles \<and> profile \<notin> set object_prototype_keys then None
                      else Some \<lparr>hd_wake = wake, hd_profile = profile,
                             hd_basis = (case get_prop d ''basis'' of JStr b \<Rightarrow> b | _ \<Rightarrow> [])\<rparr>)
                 | _ \<Rightarrow> None))"

definition hubDecisions :: "inbound_message \<Rightarrow> hub_decision list option" where
  "hubDecisions msg =
     (let out = map readHubDecision (inboundEntries msg)
      in if None \<in> set out then None else Some (map the out))"

definition hubWake :: "inbound_message \<Rightarrow> bool option" where
  "hubWake msg =
     (case hubDecisions msg of
        Some decisions \<Rightarrow> Some (\<exists>d \<in> set decisions. hd_wake d)
      | None \<Rightarrow> None)"

record access_context =
  ac_grant :: access_grant
  ac_active :: bool

definition readAccessContext :: "jsval \<Rightarrow> access_context option" where
  "readAccessContext entry =
     (if \<not> is_object entry then None
      else
        let c = get_prop entry ''access_context''
        in if \<not> is_object c then None
           else (case (get_prop c ''grant_id'', get_prop c ''requester_id'') of
                   (JStr gid, JStr rid) \<Rightarrow>
                     Some \<lparr>ac_grant =
                             \<lparr>g_grantId = gid,
                              g_spaceId = (case get_prop c ''space_id'' of JStr s \<Rightarrow> s | _ \<Rightarrow> []),
                              g_role = (if get_prop c ''role'' = JStr ''collaborator'' then Collaborator else Consultant),
                              g_requesterId = rid,
                              g_workspacePath =
                                (case get_prop c ''workspace_path'' of
                                   JStr s \<Rightarrow> (if s \<noteq> [] then Some s else None)
                                 | _ \<Rightarrow> None),
                              g_allowedCommands =
                                (case get_prop c ''allowed_commands'' of
                                   JArr xs \<Rightarrow> List.map_filter as_str xs
                                 | _ \<Rightarrow> [])\<rparr>,
                           ac_active = (get_prop c ''active'' = JBool True)\<rparr>
                 | _ \<Rightarrow> None))"

section \<open>The profile of a turn\<close>

text \<open>
  \<open>decisions.reduce\<close>: the entry of smallest rank, the first one on ties. The empty list, on which
  \<open>reduce\<close> throws, does not occur: an inbound has at least one entry.
\<close>

fun weakest_decision :: "hub_decision \<Rightarrow> hub_decision list \<Rightarrow> hub_decision" where
  "weakest_decision a [] = a"
| "weakest_decision a (b # bs) =
     weakest_decision (if rank_less (hd_profile b) (hd_profile a) then b else a) bs"

definition restricted_or_refused :: "gateway_route \<Rightarrow> access_grant option \<Rightarrow> turn_execution" where
  "restricted_or_refused route grant =
     (if r_runtime route \<in> set RESTRICTION_CAPABLE_RUNTIMES then ExRestricted grant
      else ExRefused RuntimeUnsupported grant)"

definition fromHubDecisions ::
  "inbound_message \<Rightarrow> hub_decision list \<Rightarrow> gateway_route \<Rightarrow> turn_execution" where
  "fromHubDecisions msg decisions route =
     (let weakest = weakest_decision (hd decisions) (tl decisions);
          contexts = map (\<lambda>(entry, d). if hd_basis d = ''grant'' then readAccessContext entry else None)
                       (zip (inboundEntries msg) decisions);
          latest = (case find (\<lambda>c. c \<noteq> None) (rev contexts) of Some (Some c) \<Rightarrow> Some c | _ \<Rightarrow> None);
          grant = map_option ac_grant latest
      in if hd_profile weakest = ''deny'' then
           ExRefused (if hd_basis weakest = ''grant_inactive'' then GrantInactive else HubDenied) grant
         else if hd_profile weakest = ''consult'' then restricted_or_refused route grant
         else if hd_profile weakest = ''collaborator'' then
           (case latest of
              Some l \<Rightarrow>
                (if ac_active l \<and>
                    (\<forall>c \<in> set contexts. case c of Some c' \<Rightarrow> g_grantId (ac_grant c') = g_grantId (ac_grant l) | None \<Rightarrow> False) \<and>
                    r_runtime route \<in> set COLLABORATOR_CAPABLE_RUNTIMES
                 then ExCollaborator (ac_grant l)
                 else restricted_or_refused route grant)
            | None \<Rightarrow> restricted_or_refused route grant)
         else
           (let ownerBasis = (\<forall>d \<in> set decisions. hd_basis d = ''owner'' \<or> hd_basis d = ''owner_channel'')
            in if \<not> ownerBasis \<and> r_nonOwnerExecution route = Some NonOwnerRestricted
               then restricted_or_refused route grant
               else ExDefault))"

definition team_restricted_entry :: "jsval \<Rightarrow> bool" where
  "team_restricted_entry entry \<longleftrightarrow>
     is_object entry \<and> get_prop (get_prop entry ''space_context'') ''restricted'' = JBool True"

definition resolveTurnExecution :: "inbound_message \<Rightarrow> gateway_route \<Rightarrow> bool \<Rightarrow> turn_execution" where
  "resolveTurnExecution msg route botcordChannel =
     (if \<not> botcordChannel then ExDefault
      else case hubDecisions msg of
        Some decisions \<Rightarrow> fromHubDecisions msg decisions route
      | None \<Rightarrow>
          if isOwnerTrustedInbound msg botcordChannel then ExDefault
          else
            let entries = inboundEntries msg;
                withGrant = List.map_filter readAccessContext entries
            in if withGrant \<noteq> [] then
                 (let latest = last withGrant
                  in if \<exists>c \<in> set withGrant. \<not> ac_active c then ExRefused GrantInactive (Some (ac_grant latest))
                     else if g_role (ac_grant latest) = Collaborator \<and> length withGrant = length entries \<and>
                             (\<forall>c \<in> set withGrant. g_grantId (ac_grant c) = g_grantId (ac_grant latest)) \<and>
                             r_runtime route \<in> set COLLABORATOR_CAPABLE_RUNTIMES
                       then ExCollaborator (ac_grant latest)
                     else if r_runtime route \<in> set RESTRICTION_CAPABLE_RUNTIMES
                       then ExRestricted (Some (ac_grant latest))
                     else ExRefused RuntimeUnsupported (Some (ac_grant latest)))
               else if \<exists>e \<in> set entries. team_restricted_entry e then
                 (if r_runtime route \<in> set RESTRICTION_CAPABLE_RUNTIMES then ExRestricted None
                  else ExRefused RuntimeUnsupported None)
               else if isRestrictedTurn msg route botcordChannel then ExRestricted None
               else ExDefault)"

section \<open>The environment of a guest's turn\<close>

definition GUEST_ENV_DROP_EXACT :: "string list" where
  "GUEST_ENV_DROP_EXACT =
     [''SSH_AUTH_SOCK'', ''GH_TOKEN'', ''GITHUB_TOKEN'', ''GITLAB_TOKEN'', ''NPM_TOKEN'',
      ''NODE_AUTH_TOKEN'', ''DATABASE_URL'', ''GOOGLE_APPLICATION_CREDENTIALS'']"

definition env_drop_prefix :: "string \<Rightarrow> bool" where
  "env_drop_prefix name \<longleftrightarrow>
     (\<exists>p \<in> set [''AWS_'', ''AZURE_'', ''GCP_'', ''GCLOUD_'', ''CLOUDSDK_'']. startsWith name p)"

definition env_secretish :: "string \<Rightarrow> bool" where
  "env_secretish name \<longleftrightarrow>
     (\<exists>p \<in> set [''token'', ''secret'', ''password'', ''passwd'', ''credential'', ''private_key''].
        includes_str (toLowerCase name) p)"

definition env_keep_prefix :: "string \<Rightarrow> bool" where
  "env_keep_prefix name \<longleftrightarrow>
     (\<exists>p \<in> set [''ANTHROPIC_'', ''CLAUDE_'', ''OPENAI_'', ''CODEX_'', ''GEMINI_'', ''GOOGLE_GENAI_'',
                 ''DEEPSEEK_'', ''KIMI_'', ''MOONSHOT_'']. startsWith name p)"

fun scrubGuestEnv :: "(string \<times> string) list \<Rightarrow> (string \<times> string) list" where
  "scrubGuestEnv [] = []"
| "scrubGuestEnv ((name, value) # env) =
     (if env_keep_prefix name then (name, value) # scrubGuestEnv env
      else if name \<in> set GUEST_ENV_DROP_EXACT \<or> env_drop_prefix name \<or> env_secretish name
        then scrubGuestEnv env
      else (name, value) # scrubGuestEnv env)"

section \<open>The most restrictive decision wins\<close>

text \<open>How much a profile permits: nothing, read-only, edits in a workspace, everything.\<close>

fun perm_level :: "turn_execution \<Rightarrow> nat" where
  "perm_level (ExRefused _ _) = 0"
| "perm_level (ExRestricted _) = 1"
| "perm_level (ExCollaborator _) = 2"
| "perm_level ExDefault = 3"

definition profile_rank :: "hub_decision \<Rightarrow> nat" where
  "profile_rank d = (case HUB_PROFILE_RANK (hd_profile d) of Some n \<Rightarrow> n | None \<Rightarrow> 0)"

definition known_profile :: "hub_decision \<Rightarrow> bool" where
  "known_profile d \<longleftrightarrow> hd_profile d \<in> set hub_profiles"

lemma known_profile_rank:
  "known_profile d \<Longrightarrow> HUB_PROFILE_RANK (hd_profile d) = Some (profile_rank d)"
  by (auto simp: known_profile_def hub_profiles_def HUB_PROFILE_RANK_def profile_rank_def)

lemma rank_less_known:
  "known_profile a \<Longrightarrow> known_profile b \<Longrightarrow> rank_less (hd_profile b) (hd_profile a) \<longleftrightarrow> profile_rank b < profile_rank a"
  by (simp add: rank_less_def known_profile_rank)

lemma weakest_decision_least:
  assumes "known_profile a" "\<forall>d \<in> set bs. known_profile d"
  shows "weakest_decision a bs \<in> set (a # bs) \<and>
    (\<forall>d \<in> set (a # bs). profile_rank (weakest_decision a bs) \<le> profile_rank d)"
  using assms
proof (induction a bs rule: weakest_decision.induct)
  case (2 a b bs)
  let ?m = "if rank_less (hd_profile b) (hd_profile a) then b else a"
  have "known_profile ?m" using 2 by simp
  then have IH: "weakest_decision ?m bs \<in> set (?m # bs)"
    "\<forall>d \<in> set (?m # bs). profile_rank (weakest_decision ?m bs) \<le> profile_rank d"
    using 2 by auto
  have "profile_rank ?m \<le> profile_rank a" "profile_rank ?m \<le> profile_rank b"
    using rank_less_known[of a b] 2 by auto
  with IH show ?case by (auto split: if_splits)
qed simp

lemma perm_restricted_or_refused: "perm_level (restricted_or_refused route g) \<le> 1"
  by (simp add: restricted_or_refused_def)

lemma fromHubDecisions_level:
  assumes "ds \<noteq> []" "\<forall>d \<in> set ds. known_profile d"
  shows "perm_level (fromHubDecisions msg ds route) \<le> profile_rank (weakest_decision (hd ds) (tl ds))"
proof -
  let ?w = "weakest_decision (hd ds) (tl ds)"
  have "?w \<in> set ds" using weakest_decision_least[of "hd ds" "tl ds"] assms by (cases ds) auto
  with assms(2) have "hd_profile ?w \<in> set hub_profiles" by (auto simp: known_profile_def)
  then consider "hd_profile ?w = ''deny''" | "hd_profile ?w = ''consult''"
    | "hd_profile ?w = ''collaborator''" | "hd_profile ?w = ''full''" by (auto simp: hub_profiles_def)
  then show ?thesis
    by cases (auto simp: fromHubDecisions_def Let_def profile_rank_def HUB_PROFILE_RANK_def
        restricted_or_refused_def split: option.splits)
qed

lemma inboundEntries_not_Nil [simp]: "inboundEntries msg \<noteq> []"
  by (simp add: inboundEntries_def split: jsval.splits)

lemma hubDecisions_not_Nil: "hubDecisions msg = Some ds \<Longrightarrow> ds \<noteq> []"
  by (auto simp: hubDecisions_def Let_def split: if_splits)

text \<open>C1: The Hub's most restrictive decision wins: when every entry of an inbound carries a
  decision with one of the four profiles, the turn is never permitted more than any single entry's
  profile allows, whatever the route says.\<close>

theorem hub_decision_upper_bound:
  assumes "hubDecisions msg = Some ds" and "\<forall>d \<in> set ds. known_profile d" and "d \<in> set ds"
  shows "perm_level (resolveTurnExecution msg route True) \<le> profile_rank d"
proof -
  from hubDecisions_not_Nil[OF assms(1)] obtain a bs where ds: "ds = a # bs" by (cases ds) auto
  with weakest_decision_least[of a bs] assms(2,3)
  have "profile_rank (weakest_decision (hd ds) (tl ds)) \<le> profile_rank d" by auto
  with fromHubDecisions_level[of ds msg route] ds assms(1,2) show ?thesis
    by (fastforce simp: resolveTurnExecution_def)
qed

definition decision_entry :: "string \<Rightarrow> string \<Rightarrow> jsval" where
  "decision_entry profile basis =
     JObj [(''hub_decision'', JObj [(''wake'', JBool True), (''profile'', JStr profile), (''basis'', JStr basis)])]"

definition batch_msg :: "jsval list \<Rightarrow> inbound_message" where
  "batch_msg es = example_msg\<lparr>m_raw := JObj [(''batch'', JArr es)]\<rparr>"

lemma batch_msg_entries: "es \<noteq> [] \<Longrightarrow> inboundEntries (batch_msg es) = es"
  by (simp add: inboundEntries_def batch_msg_def)

theorem hub_decision_upper_bound_witness:
  "perm_level (resolveTurnExecution
     (batch_msg [decision_entry ''full'' ''owner'', decision_entry ''deny'' ''policy'']) (plain_route ''codex'') True) \<le> 0"
proof -
  let ?m = "batch_msg [decision_entry ''full'' ''owner'', decision_entry ''deny'' ''policy'']"
  let ?d = "\<lparr>hd_wake = True, hd_profile = ''deny'', hd_basis = ''policy''\<rparr>"
  have ds: "hubDecisions ?m = Some [\<lparr>hd_wake = True, hd_profile = ''full'', hd_basis = ''owner''\<rparr>, ?d]"
    by (simp add: hubDecisions_def batch_msg_entries readHubDecision_def decision_entry_def hub_profiles_def)
  show ?thesis
    using hub_decision_upper_bound[OF ds, of ?d "plain_route ''codex''"]
    by (simp add: known_profile_def hub_profiles_def profile_rank_def HUB_PROFILE_RANK_def)
qed


section \<open>Grants\<close>

lemma resolve_grant_cases:
  fixes w :: "access_context list"
  assumes "hubDecisions msg = None" "\<not> isOwnerTrustedInbound msg True"
    and "w = List.map_filter readAccessContext (inboundEntries msg)" "w \<noteq> []"
  obtains (inactive) "resolveTurnExecution msg route True = ExRefused GrantInactive (Some (ac_grant (last w)))"
    | (confined) "resolveTurnExecution msg route True = ExCollaborator (ac_grant (last w))"
      "\<forall>c \<in> set w. ac_active c" "g_role (ac_grant (last w)) = Collaborator"
      "length w = length (inboundEntries msg)"
      "\<forall>c \<in> set w. g_grantId (ac_grant c) = g_grantId (ac_grant (last w))"
    | (readonly) "resolveTurnExecution msg route True = ExRestricted (Some (ac_grant (last w)))"
      "\<forall>c \<in> set w. ac_active c"
    | (unsupported) "resolveTurnExecution msg route True = ExRefused RuntimeUnsupported (Some (ac_grant (last w)))"
      "\<forall>c \<in> set w. ac_active c"
proof (cases "\<forall>c \<in> set w. ac_active c")
  case False
  with assms(1,2,4) inactive show ?thesis
    by (simp add: resolveTurnExecution_def Let_def assms(3)[symmetric])
next
  case True
  let ?c = "g_role (ac_grant (last w)) = Collaborator \<and> length w = length (inboundEntries msg) \<and>
      (\<forall>c \<in> set w. g_grantId (ac_grant c) = g_grantId (ac_grant (last w)))"
  have "resolveTurnExecution msg route True =
      (if ?c \<and> r_runtime route \<in> set COLLABORATOR_CAPABLE_RUNTIMES then ExCollaborator (ac_grant (last w))
       else if r_runtime route \<in> set RESTRICTION_CAPABLE_RUNTIMES then ExRestricted (Some (ac_grant (last w)))
       else ExRefused RuntimeUnsupported (Some (ac_grant (last w))))"
    using True assms(1,2,4) by (simp add: resolveTurnExecution_def Let_def assms(3)[symmetric])
  note eq = this
  show ?thesis
  proof (cases "?c \<and> r_runtime route \<in> set COLLABORATOR_CAPABLE_RUNTIMES")
    case c: True
    show ?thesis by (rule confined) (use c eq True in auto)
  next
    case False
    then show ?thesis using eq True readonly unsupported
      by (cases "r_runtime route \<in> set RESTRICTION_CAPABLE_RUNTIMES") auto
  qed
qed

text \<open>C2: A grantee never runs with full permissions: on the BotCord channel, without Hub
  decisions, an inbound whose sender is not owner-trusted and one of whose entries carries a grant
  is restricted, confined to a workspace or refused; one inactive grant refuses it; and it is
  confined to a workspace only when every entry carries that same grant.\<close>

theorem grantee_never_full:
  assumes "hubDecisions msg = None" and "\<not> isOwnerTrustedInbound msg True"
    and "e \<in> set (inboundEntries msg)" and "readAccessContext e = Some c"
  shows "resolveTurnExecution msg route True \<noteq> ExDefault \<and>
    (\<not> ac_active c \<longrightarrow> (\<exists>g. resolveTurnExecution msg route True = ExRefused GrantInactive (Some g))) \<and>
    (\<forall>g. resolveTurnExecution msg route True = ExCollaborator g \<longrightarrow>
      g_role g = Collaborator \<and>
      (\<forall>e' \<in> set (inboundEntries msg). \<exists>c'. readAccessContext e' = Some c' \<and> ac_active c' \<and>
         g_grantId (ac_grant c') = g_grantId g))"
proof -
  let ?w = "List.map_filter readAccessContext (inboundEntries msg)"
  have c: "c \<in> set ?w" using assms(3,4) by (auto simp: set_map_filter)
  then have ne: "?w \<noteq> []" by auto
  show ?thesis
  proof (cases rule: resolve_grant_cases[OF assms(1,2) refl ne, of route])
    case 1
    then show ?thesis by simp
  next
    case 2
    have "\<exists>c'. readAccessContext e' = Some c' \<and> ac_active c' \<and> g_grantId (ac_grant c') = g_grantId (ac_grant (last ?w))"
      if e': "e' \<in> set (inboundEntries msg)" for e'
    proof -
      from length_map_filter_full[OF 2(4) e'] obtain c' where c': "readAccessContext e' = Some c'" by auto
      with e' have "c' \<in> set ?w" by (auto simp: set_map_filter)
      with 2(2,5) c' show ?thesis by blast
    qed
    with 2(1,2,3) c show ?thesis by auto
  next
    case 3
    with c show ?thesis by auto
  next
    case 4
    with c show ?thesis by auto
  qed
qed

definition grant_entry :: "bool \<Rightarrow> jsval" where
  "grant_entry active =
     JObj [(''access_context'', JObj [(''grant_id'', JStr ''gr_1''), (''requester_id'', JStr ''hu_2''),
       (''role'', JStr ''collaborator''), (''active'', JBool active)])]"

theorem grantee_never_full_witness:
  "resolveTurnExecution (batch_msg [grant_entry False]) (plain_route ''codex'') True \<noteq> ExDefault"
proof -
  let ?m = "batch_msg [grant_entry False]"
  have "hubDecisions ?m = None"
    by (simp add: hubDecisions_def batch_msg_entries readHubDecision_def grant_entry_def)
  moreover have "\<not> isOwnerTrustedInbound ?m True"
    by (simp add: isOwnerTrustedInbound_def batch_msg_def example_msg_def OWNER_CHAT_PREFIX_def startsWith_def
        entryOwnerTrusted_def grant_entry_def)
  moreover have "grant_entry False \<in> set (inboundEntries ?m)" by (simp add: batch_msg_entries)
  moreover have "readAccessContext (grant_entry False) \<noteq> None"
    by (simp add: readAccessContext_def grant_entry_def)
  ultimately show ?thesis using grantee_never_full by blast
qed

text \<open>Every restriction the policy hands out is enforceable: a restricted turn is only given to
  a runtime that can run restricted, a confined one only to a runtime that can confine edits.\<close>

theorem profile_enforceable:
  "(case resolveTurnExecution msg route botcordChannel of
      ExRestricted _ \<Rightarrow> r_runtime route \<in> set RESTRICTION_CAPABLE_RUNTIMES
    | ExCollaborator _ \<Rightarrow> r_runtime route \<in> set COLLABORATOR_CAPABLE_RUNTIMES
    | _ \<Rightarrow> True)"
  by (auto simp: resolveTurnExecution_def fromHubDecisions_def restricted_or_refused_def Let_def
      isRestrictedTurn_def split: option.splits)

text \<open>The guest environment is exactly the host environment, in order, without the variables that
  name a host credential and are not authentication of the runtime itself.\<close>

theorem scrubGuestEnv_filters:
  "scrubGuestEnv env =
     filter (\<lambda>(name, value). \<not> ((name \<in> set GUEST_ENV_DROP_EXACT \<or> env_drop_prefix name \<or> env_secretish name) \<and>
        \<not> env_keep_prefix name)) env"
  by (induction env rule: scrubGuestEnv.induct) auto

end
