(* ===== verification/Kv_Contract.thy ===== *)
theory Kv_Contract
  imports Js_Prelude
begin

text \<open>
  The contract of the string-keyed tables the components keep (the policy cache, the session
  store, the activity table): what a lookup returns after an insertion or a removal, and the
  invariant every operation keeps. The client lemmas are proved once here; each component
  interprets the locale on its own operations.
\<close>

datatype ('k, 'v) kv_op = Ins 'k 'v | Del 'k

fun map_op :: "('k, 'v) kv_op \<Rightarrow> ('k \<rightharpoonup> 'v) \<Rightarrow> ('k \<rightharpoonup> 'v)" where
  "map_op (Ins k v) m = m(k \<mapsto> v)"
| "map_op (Del k) m = m(k := None)"

locale kv_store =
  fixes lookup :: "'s \<Rightarrow> 'k \<Rightarrow> 'v option"
    and ins :: "'k \<Rightarrow> 'v \<Rightarrow> 's \<Rightarrow> 's"
    and del :: "'k \<Rightarrow> 's \<Rightarrow> 's"
    and inv :: "'s \<Rightarrow> bool"
  assumes lookup_ins: "inv s \<Longrightarrow> lookup (ins k v s) k' = (if k' = k then Some v else lookup s k')"
    and lookup_del: "inv s \<Longrightarrow> lookup (del k s) k' = (if k' = k then None else lookup s k')"
    and inv_ins: "inv s \<Longrightarrow> inv (ins k v s)"
    and inv_del: "inv s \<Longrightarrow> inv (del k s)"
begin

definition apply_op :: "('k, 'v) kv_op \<Rightarrow> 's \<Rightarrow> 's" where
  "apply_op op s = (case op of Ins k v \<Rightarrow> ins k v s | Del k \<Rightarrow> del k s)"

lemma inv_apply_op: "inv s \<Longrightarrow> inv (apply_op op s)"
  by (simp add: apply_op_def inv_ins inv_del split: kv_op.splits)

lemma lookup_apply_op: "inv s \<Longrightarrow> lookup (apply_op op s) = map_op op (lookup s)"
  by (auto simp: apply_op_def lookup_ins lookup_del fun_eq_iff split: kv_op.splits)

lemma inv_fold_ops: "inv s \<Longrightarrow> inv (fold apply_op ops s)"
  by (induction ops arbitrary: s) (simp_all add: inv_apply_op)

lemma lookup_fold_ops: "inv s \<Longrightarrow> lookup (fold apply_op ops s) = fold map_op ops (lookup s)"
  by (induction ops arbitrary: s) (simp_all add: lookup_apply_op inv_apply_op)

lemma lookup_untouched:
  assumes "inv s" and "\<forall>op \<in> set ops. (case op of Ins k' _ \<Rightarrow> k' | Del k' \<Rightarrow> k') \<noteq> k"
  shows "lookup (fold apply_op ops s) k = lookup s k"
  using assms
proof (induction ops arbitrary: s)
  case (Cons op ops)
  then show ?case
    by (cases op) (auto simp: inv_apply_op lookup_apply_op)
qed simp

end

end
