(* ===== verification/Attention.thy ===== *)
theory Attention
  imports Execution_Policy Kv_Contract
begin

text \<open>
  The attention gate, which decides whether an inbound message wakes the runtime:
  \<open>protocol-core/src/should-wake.ts\<close>, the daemon's policy cache
  \<open>daemon/src/gateway/policy-resolver.ts\<close> with its Hub fetcher
  (\<open>attention-policy-fetcher.ts\<close>), the mention scan \<open>mention-scan.ts\<close>, and the gate that composes
  them in \<open>daemon.ts\<close>.

  Time is an argument. \<open>resolve\<close> is split where the code awaits the fetch: a plan computed from
  the cache before it, and the cache update after it, so that other operations can happen in
  between.
\<close>

section \<open>shouldWake\<close>

datatype attention_mode =
  MAlways | MMentionOnly | MKeyword | MAllowedSenders | MMuted | MUnknown string

record attention_policy =
  ap_mode :: attention_mode
  ap_keywords :: "string list"
  ap_allowedSenderIds :: "string list option"
  ap_muted_until :: "int option"

record attention_message =
  am_mentioned :: "bool option"
  am_text :: "string option"
  am_senderId :: "string option"

fun keyword_hit :: "string \<Rightarrow> string list \<Rightarrow> bool" where
  "keyword_hit text [] = False"
| "keyword_hit text (kw # kws) =
     (if kw = [] then keyword_hit text kws
      else if includes_str text (toLowerCase kw) then True
      else keyword_hit text kws)"

definition shouldWake :: "attention_policy \<Rightarrow> attention_message \<Rightarrow> int \<Rightarrow> bool" where
  "shouldWake policy msg now =
     (if ap_mode policy = MMuted then False
      else if (case ap_muted_until policy of Some t \<Rightarrow> t > now | None \<Rightarrow> False) then False
      else case ap_mode policy of
        MAlways \<Rightarrow> True
      | MMentionOnly \<Rightarrow> am_mentioned msg = Some True
      | MKeyword \<Rightarrow>
          (let text = toLowerCase (case am_text msg of Some t \<Rightarrow> t | None \<Rightarrow> [])
           in if text = [] then False else keyword_hit text (ap_keywords policy))
      | MAllowedSenders \<Rightarrow>
          (case am_senderId msg of
             Some s \<Rightarrow> (if s = [] then False
                        else s \<in> set (case ap_allowedSenderIds policy of Some xs \<Rightarrow> xs | None \<Rightarrow> []))
           | None \<Rightarrow> False)
      | _ \<Rightarrow> True)"

section \<open>Direct conversations\<close>

definition isDirectRoomId :: "string \<Rightarrow> bool" where
  "isDirectRoomId roomId \<longleftrightarrow> roomId \<noteq> [] \<and> (\<exists>p \<in> set [''rm_dm_'', ''rm_sdm_'']. startsWith roomId p)"

definition isDirectConversation :: "string \<Rightarrow> bool" where
  "isDirectConversation roomId \<longleftrightarrow>
     isDirectRoomId roomId \<or> startsWith roomId ''telegram:user:'' \<or>
     startsWith roomId ''wechat:user:'' \<or> startsWith roomId ''feishu:user:''"

definition maybeForceDirectConversation :: "string option \<Rightarrow> attention_policy \<Rightarrow> attention_policy" where
  "maybeForceDirectConversation roomId policy =
     (case roomId of
        Some r \<Rightarrow>
          (if r \<noteq> [] \<and> isDirectConversation r \<and> ap_mode policy \<noteq> MAlways then policy\<lparr>ap_mode := MAlways\<rparr>
           else policy)
      | None \<Rightarrow> policy)"

definition defaultPolicy :: attention_policy where
  "defaultPolicy = \<lparr>ap_mode = MAlways, ap_keywords = [], ap_allowedSenderIds = None, ap_muted_until = None\<rparr>"

section \<open>PolicyResolver\<close>

record policy_entry =
  pe_policy :: attention_policy
  pe_expiresAt :: int

type_synonym policy_cache = "string \<rightharpoonup> policy_entry"

definition DEFAULT_TTL_MS :: int where
  "DEFAULT_TTL_MS = 5 * 60 * 1000"

definition cacheKey :: "string \<Rightarrow> string option \<Rightarrow> string" where
  "cacheKey agentId roomId =
     (case roomId of Some r \<Rightarrow> (if r \<noteq> [] then agentId @ '':'' @ r else agentId) | None \<Rightarrow> agentId)"

definition put :: "int \<Rightarrow> int \<Rightarrow> string \<Rightarrow> string option \<Rightarrow> attention_policy \<Rightarrow> policy_cache \<Rightarrow> policy_cache" where
  "put ttlMs now agentId roomId policy cache =
     cache(cacheKey agentId roomId \<mapsto>
       \<lparr>pe_policy = maybeForceDirectConversation roomId policy, pe_expiresAt = now + ttlMs\<rparr>)"

definition invalidate :: "string \<Rightarrow> string option \<Rightarrow> policy_cache \<Rightarrow> policy_cache" where
  "invalidate agentId roomId cache =
     (case roomId of
        Some r \<Rightarrow> cache(cacheKey agentId (Some r) := None)
      | None \<Rightarrow> (\<lambda>key. if key = agentId \<or> startsWith key (agentId @ '':'') then None else cache key))"

datatype fetch_result = FetchFailed | Fetched "attention_policy option"

datatype resolve_plan = Hit attention_policy | NeedRoom | NeedGlobal

definition live_entry :: "policy_cache \<Rightarrow> string \<Rightarrow> int \<Rightarrow> attention_policy option" where
  "live_entry cache key now =
     (case cache key of
        Some e \<Rightarrow> (if pe_expiresAt e > now then Some (pe_policy e) else None)
      | None \<Rightarrow> None)"

definition resolve_plan_of :: "bool \<Rightarrow> policy_cache \<Rightarrow> int \<Rightarrow> string \<Rightarrow> string option \<Rightarrow> resolve_plan" where
  "resolve_plan_of has_fetchEffective cache now agentId roomId =
     (let hasRoom = (case roomId of Some r \<Rightarrow> r \<noteq> [] | None \<Rightarrow> False)
      in case (if hasRoom then live_entry cache (cacheKey agentId roomId) now else None) of
           Some p \<Rightarrow> Hit p
         | None \<Rightarrow>
             if hasRoom \<and> has_fetchEffective then NeedRoom
             else (case live_entry cache (cacheKey agentId None) now of
                     Some p \<Rightarrow> Hit (maybeForceDirectConversation roomId p)
                   | None \<Rightarrow> NeedGlobal))"

text \<open>The part of \<open>resolve\<close> after a fetch: \<open>now\<close> is the time read before it.\<close>

definition resolve_fetched ::
  "int \<Rightarrow> int \<Rightarrow> string \<Rightarrow> string option \<Rightarrow> string option \<Rightarrow> fetch_result \<Rightarrow> policy_cache \<Rightarrow> attention_policy \<times> policy_cache" where
  "resolve_fetched ttlMs now agentId keyRoom roomId fetched cache =
     (case fetched of
        FetchFailed \<Rightarrow> (defaultPolicy, cache)
      | Fetched p \<Rightarrow>
          (let policy = (case p of Some q \<Rightarrow> q | None \<Rightarrow> defaultPolicy)
           in (maybeForceDirectConversation roomId policy,
               cache(cacheKey agentId keyRoom \<mapsto>
                 \<lparr>pe_policy = maybeForceDirectConversation keyRoom policy, pe_expiresAt = now + ttlMs\<rparr>))))"

definition resolve ::
  "int \<Rightarrow> (string \<Rightarrow> string \<Rightarrow> fetch_result) option \<Rightarrow> (string \<Rightarrow> fetch_result) \<Rightarrow> int \<Rightarrow> string \<Rightarrow> string option \<Rightarrow>
   policy_cache \<Rightarrow> attention_policy \<times> policy_cache" where
  "resolve ttlMs fetchEffective fetchGlobal now agentId roomId cache =
     (case resolve_plan_of (fetchEffective \<noteq> None) cache now agentId roomId of
        Hit p \<Rightarrow> (p, cache)
      | NeedRoom \<Rightarrow>
          resolve_fetched ttlMs now agentId roomId roomId
            (case (fetchEffective, roomId) of (Some f, Some r) \<Rightarrow> f agentId r | _ \<Rightarrow> FetchFailed) cache
      | NeedGlobal \<Rightarrow> resolve_fetched ttlMs now agentId None roomId (fetchGlobal agentId) cache)"

text \<open>
  \<open>createAttentionPolicyFetcher\<close>: no client and a failed request both give \<open>undefined\<close>. The
  client and its request are parameters; \<open>Inl\<close> is a rejected request.
\<close>

definition fetchAttentionPolicy ::
  "(string \<Rightarrow> 'c option) \<Rightarrow> ('c \<Rightarrow> string option \<Rightarrow> string + attention_policy option) \<Rightarrow>
   string \<Rightarrow> string option \<Rightarrow> fetch_result" where
  "fetchAttentionPolicy getClient getAttentionPolicy agentId roomId =
     (case getClient agentId of
        None \<Rightarrow> Fetched None
      | Some client \<Rightarrow>
          (case getAttentionPolicy client roomId of
             Inl err \<Rightarrow> Fetched None
           | Inr p \<Rightarrow> Fetched p))"

section \<open>Mentions\<close>

record mention_targets =
  mt_agentId :: "string option"
  mt_displayName :: "string option"

definition rawText :: "jsval \<Rightarrow> string" where
  "rawText entry =
     (if \<not> is_object entry then []
      else case get_prop entry ''text'' of
        JStr s \<Rightarrow> s
      | _ \<Rightarrow> (case get_prop (get_prop (get_prop entry ''envelope'') ''payload'') ''text'' of
                JStr s \<Rightarrow> s
              | _ \<Rightarrow> []))"

definition mention_candidates :: "mention_targets \<Rightarrow> string list" where
  "mention_candidates targets =
     (let normalizedAgentId = (case mt_agentId targets of Some a \<Rightarrow> toLowerCase (trim a) | None \<Rightarrow> [])
      in (if normalizedAgentId \<noteq> [] then [normalizedAgentId] else []) @
         (case mt_displayName targets of
            Some d \<Rightarrow> (if trim d \<noteq> [] then [toLowerCase (trim d)] else [])
          | None \<Rightarrow> []))"

definition scanMention :: "string option \<Rightarrow> mention_targets \<Rightarrow> bool" where
  "scanMention text targets =
     (case text of
        None \<Rightarrow> False
      | Some t \<Rightarrow>
          if t = [] then False
          else
            let lower = toLowerCase t;
                normalizedAgentId = (case mt_agentId targets of Some a \<Rightarrow> toLowerCase (trim a) | None \<Rightarrow> [])
            in if normalizedAgentId \<noteq> [] \<and> includes_str lower (''('' @ normalizedAgentId @ '')'') then True
               else (\<exists>c \<in> set (mention_candidates targets). c \<noteq> [] \<and> includes_str lower (''@'' @ c)))"

definition raw_batch :: "jsval \<Rightarrow> jsval list option" where
  "raw_batch raw = (if is_object raw then as_arr (get_prop raw ''batch'') else None)"

definition effectiveMention :: "inbound_message \<Rightarrow> bool" where
  "effectiveMention message =
     (if m_mentioned message = Some True then True
      else
        let targets = \<lparr>mt_agentId = Some (m_accountId message), mt_displayName = None\<rparr>
        in if scanMention (m_text message) targets then True
           else (case raw_batch (m_raw message) of
                   None \<Rightarrow> False
                 | Some batch \<Rightarrow> (\<exists>entry \<in> set batch. scanMention (Some (rawText entry)) targets)))"

definition mark_entry :: "mention_targets \<Rightarrow> jsval \<Rightarrow> jsval" where
  "mark_entry targets entry =
     (if \<not> scanMention (Some (rawText entry)) targets then entry
      else (case entry of JObj ps \<Rightarrow> JObj (upd_assoc ps ''mentioned'' (JBool True)) | _ \<Rightarrow> entry))"

definition applyLocalMention :: "inbound_message \<Rightarrow> mention_targets \<Rightarrow> bool \<times> inbound_message" where
  "applyLocalMention message targets =
     (let textMention = scanMention (m_text message) targets;
          localMention = (textMention \<or>
            (case raw_batch (m_raw message) of
               None \<Rightarrow> False
             | Some batch \<Rightarrow> (\<exists>entry \<in> set batch. scanMention (Some (rawText entry)) targets)));
          raw = (case (m_raw message, raw_batch (m_raw message)) of
                   (JObj ps, Some batch) \<Rightarrow> JObj (upd_assoc ps ''batch'' (JArr (map (mark_entry targets) batch)))
                 | _ \<Rightarrow> m_raw message)
      in (localMention,
          message\<lparr>m_raw := raw,
                  m_mentioned := (if localMention then Some True else m_mentioned message)\<rparr>))"

section \<open>The gate\<close>

text \<open>
  \<open>attentionGate\<close> of \<open>daemon.ts\<close>: the verdict, the message with its mention marks, the cache.
  \<open>now\<close> is the clock at the cache lookup, \<open>now'\<close> at the decision.
\<close>

definition attentionGate ::
  "int \<Rightarrow> (string \<Rightarrow> string \<Rightarrow> fetch_result) \<Rightarrow> (string \<Rightarrow> fetch_result) \<Rightarrow> (string \<rightharpoonup> string) \<Rightarrow> int \<Rightarrow> int \<Rightarrow>
   inbound_message \<Rightarrow> policy_cache \<Rightarrow> bool \<times> inbound_message \<times> policy_cache" where
  "attentionGate ttlMs fetchEffective fetchGlobal displayNameByAgent now now' msg cache =
     (case hubWake msg of
        Some decided \<Rightarrow> (decided, msg, cache)
      | None \<Rightarrow>
          (let (policy, cache') = resolve ttlMs (Some fetchEffective) fetchGlobal now (m_accountId msg)
                                    (Some (c_id (m_conversation msg))) cache
           in if ap_mode policy = MAllowedSenders then
                (s_id (m_sender msg) \<in> set (case ap_allowedSenderIds policy of Some xs \<Rightarrow> xs | None \<Rightarrow> []), msg, cache')
              else
                (let (localMention, msg') = applyLocalMention msg
                       \<lparr>mt_agentId = Some (m_accountId msg), mt_displayName = displayNameByAgent (m_accountId msg)\<rparr>
                 in (shouldWake policy
                       \<lparr>am_mentioned = Some (m_mentioned msg' = Some True \<or> localMention),
                        am_text = m_text msg', am_senderId = None\<rparr> now',
                     msg', cache'))))"

section \<open>What wakes the runtime\<close>

lemma keyword_hit_iff: "keyword_hit text kws \<longleftrightarrow> (\<exists>kw \<in> set kws. kw \<noteq> [] \<and> includes_str text (toLowerCase kw))"
  by (induction kws) auto

text \<open>The wake decision: a muted policy, by mode or until a time in the future, never wakes;
  otherwise the mode decides: always and unknown modes wake, mention-only wakes on a mention, keyword
  wakes when the lower-cased text contains a non-empty lower-cased keyword, allowed-senders wakes on a
  listed non-empty sender.\<close>

theorem shouldWake_iff:
  "shouldWake policy msg now \<longleftrightarrow>
     ap_mode policy \<noteq> MMuted \<and>
     (\<forall>t. ap_muted_until policy = Some t \<longrightarrow> t \<le> now) \<and>
     (ap_mode policy = MMentionOnly \<longrightarrow> am_mentioned msg = Some True) \<and>
     (ap_mode policy = MKeyword \<longrightarrow>
        (\<exists>text kw u v. am_text msg = Some text \<and> kw \<in> set (ap_keywords policy) \<and> kw \<noteq> [] \<and>
           toLowerCase text = u @ toLowerCase kw @ v)) \<and>
     (ap_mode policy = MAllowedSenders \<longrightarrow>
        (\<exists>s xs. am_senderId msg = Some s \<and> s \<noteq> [] \<and> ap_allowedSenderIds policy = Some xs \<and> s \<in> set xs))"
proof (cases "ap_mode policy")
  case MKeyword
  have "toLowerCase (case am_text msg of Some t \<Rightarrow> t | None \<Rightarrow> []) \<noteq> [] \<and>
      keyword_hit (toLowerCase (case am_text msg of Some t \<Rightarrow> t | None \<Rightarrow> [])) (ap_keywords policy) \<longleftrightarrow>
    (\<exists>text kw u v. am_text msg = Some text \<and> kw \<in> set (ap_keywords policy) \<and> kw \<noteq> [] \<and>
           toLowerCase text = u @ toLowerCase kw @ v)"
    by (cases "am_text msg") (auto simp: keyword_hit_iff includes_str_iff toLowerCase_def)
  with MKeyword show ?thesis by (auto simp: shouldWake_def Let_def not_less split: option.splits)
next
  case MAllowedSenders
  then show ?thesis
    by (cases "ap_allowedSenderIds policy") (auto simp: shouldWake_def not_less split: option.splits)
qed (auto simp: shouldWake_def not_less split: option.splits)

theorem shouldWake_iff_witness:
  "\<not> shouldWake (defaultPolicy\<lparr>ap_muted_until := Some 5\<rparr>)
      \<lparr>am_mentioned = Some True, am_text = None, am_senderId = None\<rparr> 4"
  using shouldWake_iff[of "defaultPolicy\<lparr>ap_muted_until := Some 5\<rparr>" "\<lparr>am_mentioned = Some True, am_text = None, am_senderId = None\<rparr>" 4]
  by (simp add: defaultPolicy_def)

section \<open>The policy cache\<close>

interpretation policy_map: kv_store "\<lambda>(c :: policy_cache) k. c k" "\<lambda>k v c. c(k \<mapsto> v)" "\<lambda>k c. c(k := None)" "\<lambda>_. True"
  by unfold_locales simp_all

lemma cacheKey_inj:
  assumes "colon_free a" "colon_free b" "cacheKey a r = cacheKey b s"
  shows "a = b \<and> (case r of Some x \<Rightarrow> x | None \<Rightarrow> []) = (case s of Some x \<Rightarrow> x | None \<Rightarrow> [])"
proof -
  let ?x = "\<lambda>t. case t of Some y \<Rightarrow> y | None \<Rightarrow> []"
  have k: "cacheKey c t @ '':'' = join '':'' (if ?x t = [] then [c, []] else [c, ?x t @ '':''])" for c t
    by (auto simp: cacheKey_def split: option.splits)
  have "cacheKey a r @ '':'' = cacheKey b s @ '':''" using assms(3) by simp
  then have "a @ CHR '':'' # (if ?x r = [] then [] else ?x r @ '':'')
      = b @ CHR '':'' # (if ?x s = [] then [] else ?x s @ '':'')"
    unfolding k by (simp split: if_splits)
  then have "a = b \<and> (if ?x r = [] then [] else ?x r @ '':'') = (if ?x s = [] then [] else ?x s @ '':'')"
    by (rule append_sep_eq[rotated 2]) (use assms(1,2) in \<open>simp_all add: colon_free_def\<close>)
  then show ?thesis by (auto split: if_splits)
qed

definition direct_ok :: "policy_cache \<Rightarrow> bool" where
  "direct_ok cache \<longleftrightarrow>
     (\<forall>a r e. colon_free a \<and> r \<noteq> [] \<and> isDirectConversation r \<and> cache (cacheKey a (Some r)) = Some e \<longrightarrow>
        ap_mode (pe_policy e) = MAlways)"

lemma force_direct [simp]:
  "r \<noteq> [] \<Longrightarrow> isDirectConversation r \<Longrightarrow> ap_mode (maybeForceDirectConversation (Some r) p) = MAlways"
  by (simp add: maybeForceDirectConversation_def)

lemma direct_ok_store:
  assumes "direct_ok cache" "colon_free a"
  shows "direct_ok (cache(cacheKey a r \<mapsto> \<lparr>pe_policy = maybeForceDirectConversation r p, pe_expiresAt = t\<rparr>))"
  unfolding direct_ok_def
proof (intro allI impI, elim conjE)
  fix b s e
  assume b: "colon_free b" "s \<noteq> []" "isDirectConversation s"
    and e: "(cache(cacheKey a r \<mapsto> \<lparr>pe_policy = maybeForceDirectConversation r p, pe_expiresAt = t\<rparr>)) (cacheKey b (Some s)) = Some e"
  show "ap_mode (pe_policy e) = MAlways"
  proof (cases "cacheKey b (Some s) = cacheKey a r")
    case True
    with cacheKey_inj[OF b(1) assms(2) True] b have "r = Some s" by (auto split: option.splits)
    with e True b show ?thesis by auto
  next
    case False
    with e b assms(1) show ?thesis by (auto simp: direct_ok_def)
  qed
qed

lemma direct_ok_put: "direct_ok cache \<Longrightarrow> colon_free a \<Longrightarrow> direct_ok (put ttl now a r p cache)"
  by (simp add: put_def direct_ok_store)

lemma direct_ok_invalidate: "direct_ok cache \<Longrightarrow> direct_ok (invalidate a r cache)"
  by (auto simp: direct_ok_def invalidate_def split: option.splits if_splits)

lemma direct_ok_resolve_fetched:
  "direct_ok cache \<Longrightarrow> colon_free a \<Longrightarrow> direct_ok (snd (resolve_fetched ttl now a k r f cache))"
  by (auto simp: resolve_fetched_def Let_def direct_ok_store split: fetch_result.splits)

text \<open>
  The histories of a cache: pushes, invalidations and completed fetches in any order (a fetch
  completes on whatever the cache is by then).
\<close>

inductive cache_reachable :: "int \<Rightarrow> policy_cache \<Rightarrow> bool" for ttl where
  cr_empty: "cache_reachable ttl (\<lambda>_. None)"
| cr_put: "cache_reachable ttl c \<Longrightarrow> colon_free a \<Longrightarrow> cache_reachable ttl (put ttl now a r p c)"
| cr_invalidate: "cache_reachable ttl c \<Longrightarrow> cache_reachable ttl (invalidate a r c)"
| cr_fetched: "cache_reachable ttl c \<Longrightarrow> colon_free a \<Longrightarrow>
    cache_reachable ttl (snd (resolve_fetched ttl now a k r f c))"

lemma cache_reachable_direct_ok: "cache_reachable ttl c \<Longrightarrow> direct_ok c"
proof (induction rule: cache_reachable.induct)
  case cr_empty
  then show ?case by (simp add: direct_ok_def)
qed (simp_all add: direct_ok_put direct_ok_invalidate direct_ok_resolve_fetched)

text \<open>A direct conversation is never muted by a mode: whatever pushes, invalidations and fetches
  the cache has seen, resolving the policy of a direct conversation gives mode always.\<close>

theorem direct_conversation_always:
  assumes "cache_reachable ttl cache" and "colon_free agentId" and "roomId \<noteq> []" and "isDirectConversation roomId"
  shows "ap_mode (fst (resolve ttl fetchEffective fetchGlobal now agentId (Some roomId) cache)) = MAlways"
proof -
  have live: "live_entry cache (cacheKey agentId (Some roomId)) now = Some p \<Longrightarrow> ap_mode p = MAlways" for p
    using cache_reachable_direct_ok[OF assms(1)] assms(2-4)
    by (auto simp: live_entry_def direct_ok_def split: option.splits if_splits)
  show ?thesis
    using live assms(3,4)
    by (auto simp: resolve_def resolve_plan_of_def resolve_fetched_def Let_def defaultPolicy_def
        split: option.splits fetch_result.splits resolve_plan.splits if_splits)
qed

theorem direct_conversation_always_witness:
  "ap_mode (fst (resolve 1000 None (\<lambda>_. FetchFailed) 5 ''ag_1'' (Some ''rm_dm_1'')
     (put 1000 0 ''ag_1'' (Some ''rm_dm_1'') (defaultPolicy\<lparr>ap_mode := MMuted\<rparr>) (\<lambda>_. None)))) = MAlways"
proof (rule direct_conversation_always)
  show "cache_reachable 1000 (put 1000 0 ''ag_1'' (Some ''rm_dm_1'') (defaultPolicy\<lparr>ap_mode := MMuted\<rparr>) (\<lambda>_. None))"
    by (intro cr_put cr_empty) (simp add: colon_free_def)
qed (simp_all add: colon_free_def isDirectConversation_def isDirectRoomId_def startsWith_def)

text \<open>Later writes to the cache, each of which touches one key.\<close>

datatype cache_op = OpPut int string "string option" attention_policy | OpInvalidateRoom string string

fun run_cache_op :: "int \<Rightarrow> cache_op \<Rightarrow> policy_cache \<Rightarrow> policy_cache" where
  "run_cache_op ttl (OpPut t a r p) c = put ttl t a r p c"
| "run_cache_op ttl (OpInvalidateRoom a r) c = invalidate a (Some r) c"

fun cache_op_key :: "cache_op \<Rightarrow> string" where
  "cache_op_key (OpPut t a r p) = cacheKey a r"
| "cache_op_key (OpInvalidateRoom a r) = cacheKey a (Some r)"

fun kv_of :: "int \<Rightarrow> cache_op \<Rightarrow> (string, policy_entry) kv_op" where
  "kv_of ttl (OpPut t a r p) =
     Ins (cacheKey a r) \<lparr>pe_policy = maybeForceDirectConversation r p, pe_expiresAt = t + ttl\<rparr>"
| "kv_of ttl (OpInvalidateRoom a r) = Del (cacheKey a (Some r))"

lemma run_cache_op_kv: "run_cache_op ttl op = policy_map.apply_op (kv_of ttl op)"
  by (cases op) (auto simp: policy_map.apply_op_def put_def invalidate_def fun_eq_iff)

lemma run_cache_ops_untouched:
  assumes "\<forall>op \<in> set ops. cache_op_key op \<noteq> k"
  shows "fold (run_cache_op ttl) ops c k = c k"
proof -
  have "fold (run_cache_op ttl) ops = fold policy_map.apply_op (map (kv_of ttl) ops)"
    using run_cache_op_kv by (simp add: fold_map comp_def fun_eq_iff flip: run_cache_op_kv)
  moreover have "\<forall>op \<in> set (map (kv_of ttl) ops). (case op of Ins k' _ \<Rightarrow> k' | Del k' \<Rightarrow> k') \<noteq> k"
  proof -
    have "(case kv_of ttl op of Ins k' _ \<Rightarrow> k' | Del k' \<Rightarrow> k') = cache_op_key op" for op by (cases op) simp_all
    with assms show ?thesis by simp
  qed
  ultimately show ?thesis using policy_map.lookup_untouched[OF TrueI, of "map (kv_of ttl) ops" k c] by simp
qed

text \<open>A pushed room policy wins until it expires: after a push at time t, followed by any pushes
  and room invalidations for other rooms or agents, every resolve of that room before t plus the
  time to live returns the pushed policy (forced to always in a direct conversation) and changes
  nothing.\<close>

theorem pushed_room_policy_wins:
  assumes "roomId \<noteq> []" and "now < t + ttl"
    and "\<forall>op \<in> set ops. cache_op_key op \<noteq> cacheKey agentId (Some roomId)"
    and "cache' = fold (run_cache_op ttl) ops (put ttl t agentId (Some roomId) policy cache)"
  shows "resolve ttl fetchEffective fetchGlobal now agentId (Some roomId) cache'
       = (maybeForceDirectConversation (Some roomId) policy, cache')"
proof -
  have "cache' (cacheKey agentId (Some roomId))
      = Some \<lparr>pe_policy = maybeForceDirectConversation (Some roomId) policy, pe_expiresAt = t + ttl\<rparr>"
    using run_cache_ops_untouched[OF assms(3)] assms(4) by (simp add: put_def)
  with assms(1,2) show ?thesis
    by (simp add: resolve_def resolve_plan_of_def live_entry_def Let_def)
qed

definition mute_policy :: attention_policy where
  "mute_policy = defaultPolicy\<lparr>ap_mode := MMuted\<rparr>"

theorem pushed_room_policy_wins_witness:
  "fst (resolve 1000 None (\<lambda>_. FetchFailed) 5 ''ag_1'' (Some ''rm_1'')
     (put 1000 2 ''ag_1'' (Some ''rm_2'') defaultPolicy
       (put 1000 0 ''ag_1'' (Some ''rm_1'') mute_policy (\<lambda>_. None)))) = mute_policy"
proof -
  let ?c = "put 1000 2 ''ag_1'' (Some ''rm_2'') defaultPolicy (put 1000 0 ''ag_1'' (Some ''rm_1'') mute_policy (\<lambda>_. None))"
  have "resolve 1000 None (\<lambda>_. FetchFailed) 5 ''ag_1'' (Some ''rm_1'') ?c
      = (maybeForceDirectConversation (Some ''rm_1'') mute_policy, ?c)"
    by (rule pushed_room_policy_wins[where t = 0 and ops = "[OpPut 2 ''ag_1'' (Some ''rm_2'') defaultPolicy]"])
      (simp_all add: cacheKey_def)
  then show ?thesis
    by (simp add: maybeForceDirectConversation_def isDirectConversation_def isDirectRoomId_def startsWith_def)
qed

text \<open>Invalidating an agent drops its policy and all of its room overrides and nothing of another
  agent, agent ids being colon-free.\<close>

theorem invalidate_agent_exact:
  assumes "colon_free agentId" and "colon_free other"
  shows "invalidate agentId None cache (cacheKey other roomId) =
     (if other = agentId then None else cache (cacheKey other roomId))"
proof -
  let ?k = "cacheKey other roomId"
  have "\<exists>x. ?k = other @ x \<and> (x = [] \<or> (\<exists>y. x = CHR '':'' # y))"
    by (cases roomId) (auto simp: cacheKey_def)
  then obtain x where x: "?k = other @ x" "x = [] \<or> (\<exists>y. x = CHR '':'' # y)" by blast
  have "?k = agentId \<or> startsWith ?k (agentId @ '':'') \<longleftrightarrow> other = agentId"
  proof
    assume "?k = agentId \<or> startsWith ?k (agentId @ '':'')"
    then show "other = agentId"
    proof
      assume "?k = agentId"
      with x assms(1) show ?thesis by (auto simp: colon_free_def)
    next
      assume "startsWith ?k (agentId @ '':'')"
      then obtain z where z: "other @ x = agentId @ CHR '':'' # z" using x(1) by (auto simp: startsWith_iff)
      show ?thesis
      proof (cases "x = []")
        case True
        with z assms(2) show ?thesis by (auto simp: colon_free_def)
      next
        case False
        with x(2) obtain y where "x = CHR '':'' # y" by blast
        with z append_sep_eq[of "CHR '':''" other agentId y z] assms show ?thesis by (simp add: colon_free_def)
      qed
    qed
  next
    assume "other = agentId"
    with x show "?k = agentId \<or> startsWith ?k (agentId @ '':'')"
      by (auto simp: startsWith_iff)
  qed
  then show ?thesis by (simp add: invalidate_def)
qed

theorem invalidate_agent_exact_witness:
  "invalidate ''ag_1'' None (put 9 0 ''ag_12'' (Some ''rm_1'') mute_policy (\<lambda>_. None)) (cacheKey ''ag_12'' (Some ''rm_1'')) \<noteq> None"
  using invalidate_agent_exact[of "''ag_1''" "''ag_12''" "put 9 0 ''ag_12'' (Some ''rm_1'') mute_policy (\<lambda>_. None)" "Some ''rm_1''"]
  by (simp add: colon_free_def put_def)

text \<open>A failed fetch is remembered as mode always: with the daemon's fetcher, which turns a missing
  client or a rejected request into an absent policy, a failed fetch leaves an entry that answers
  every resolve of the room until it expires, so the policy is not retried and a muted room wakes.\<close>

theorem failed_fetch_cached_as_always:
  assumes "getClient agentId = None \<or> (\<exists>c err. getClient agentId = Some c \<and> getAttentionPolicy c (Some roomId) = Inl err)"
    and "live_entry cache (cacheKey agentId (Some roomId)) now = None" and "roomId \<noteq> []" and "now' < now + ttl"
  shows "let fetch = (\<lambda>a r. fetchAttentionPolicy getClient getAttentionPolicy a (Some r));
             (p, cache') = resolve ttl (Some fetch) fetchGlobal now agentId (Some roomId) cache
         in p = defaultPolicy \<and>
            resolve ttl (Some later_fetch) fetchGlobal now' agentId (Some roomId) cache' = (defaultPolicy, cache')"
proof -
  have "fetchAttentionPolicy getClient getAttentionPolicy agentId (Some roomId) = Fetched None"
    using assms(1) by (auto simp: fetchAttentionPolicy_def)
  with assms(2-4) show ?thesis
    by (simp add: resolve_def resolve_plan_of_def resolve_fetched_def live_entry_def maybeForceDirectConversation_def
        defaultPolicy_def Let_def)
qed

theorem failed_fetch_cached_as_always_witness:
  "fst (resolve 1000 (Some (\<lambda>a r. Fetched (Some mute_policy))) (\<lambda>_. FetchFailed) 5 ''ag_1'' (Some ''rm_1'')
     (snd (resolve 1000 (Some (\<lambda>a r. fetchAttentionPolicy (\<lambda>_. None) (\<lambda>(c :: unit) r. Inl ''down'') a (Some r)))
        (\<lambda>_. FetchFailed) 0 ''ag_1'' (Some ''rm_1'') (\<lambda>_. None)))) = defaultPolicy"
  using failed_fetch_cached_as_always[of "\<lambda>_. None" "''ag_1''" "\<lambda>(c :: unit) r. Inl ''down''" "''rm_1''" "\<lambda>_. None" 0 5 1000
      "\<lambda>_. FetchFailed" "\<lambda>a r. Fetched (Some mute_policy)"]
  by (simp add: live_entry_def Let_def split_beta)

text \<open>A pushed policy can be lost: a push that arrives while a fetch for the same room is
  pending is overwritten when the fetch completes, and the room follows the older policy.\<close>

theorem push_during_fetch_lost:
  assumes "roomId \<noteq> []" and "now' < now + ttl"
  shows "let cache' = snd (resolve_fetched ttl now agentId (Some roomId) (Some roomId) (Fetched (Some stale))
                       (put ttl pushed agentId (Some roomId) new cache))
         in fst (resolve ttl f g now' agentId (Some roomId) cache') = maybeForceDirectConversation (Some roomId) stale"
  using assms by (simp add: resolve_fetched_def put_def resolve_def resolve_plan_of_def live_entry_def Let_def)

theorem push_during_fetch_lost_witness:
  "fst (resolve 1000 None (\<lambda>_. FetchFailed) 5 ''ag_1'' (Some ''rm_1'')
     (snd (resolve_fetched 1000 0 ''ag_1'' (Some ''rm_1'') (Some ''rm_1'') (Fetched (Some defaultPolicy))
        (put 1000 1 ''ag_1'' (Some ''rm_1'') mute_policy (\<lambda>_. None))))) = defaultPolicy"
  using push_during_fetch_lost[of "''rm_1''" 5 0 1000 "''ag_1''" defaultPolicy 1 mute_policy "\<lambda>_. None" None "\<lambda>_. FetchFailed"]
  by (simp add: Let_def maybeForceDirectConversation_def isDirectConversation_def isDirectRoomId_def startsWith_def)

section \<open>Mentions and the gate\<close>

lemma rawText_marked: "rawText (JObj (upd_assoc ps ''mentioned'' w)) = rawText (JObj ps)"
  by (simp add: rawText_def cong: jsval.case_cong)

lemma mark_entry_rawText: "rawText (mark_entry targets entry) = rawText entry"
  by (cases entry) (simp_all add: mark_entry_def rawText_marked)

lemma scanMention_more_targets:
  "scanMention t \<lparr>mt_agentId = a, mt_displayName = None\<rparr> \<Longrightarrow> scanMention t \<lparr>mt_agentId = a, mt_displayName = d\<rparr>"
  by (auto simp: scanMention_def mention_candidates_def Let_def split: option.splits if_splits)

lemma raw_batch_marked:
  assumes "raw_batch (m_raw msg) = Some batch"
  shows "raw_batch (m_raw (snd (applyLocalMention msg targets))) = Some (map (mark_entry targets) batch)"
  using assms by (cases "m_raw msg") (auto simp: applyLocalMention_def raw_batch_def Let_def get_prop_def split: option.splits)

lemma raw_unmarked:
  "raw_batch (m_raw msg) = None \<Longrightarrow> m_raw (snd (applyLocalMention msg targets)) = m_raw msg"
  by (simp add: applyLocalMention_def Let_def split: jsval.splits)

lemma applyLocalMention_keeps:
  "m_text (snd (applyLocalMention msg targets)) = m_text msg"
  "m_accountId (snd (applyLocalMention msg targets)) = m_accountId msg"
  "m_mentioned (snd (applyLocalMention msg targets)) =
     (if fst (applyLocalMention msg targets) then Some True else m_mentioned msg)"
  by (simp_all add: applyLocalMention_def Let_def)

text \<open>The gate's mention and the later ones agree: after the local mention scan with the agent's own
  id (and any display name), the effective mention that the status and prompt code compute from the
  marked message is exactly the sender's flag or the local mention the gate used.\<close>

theorem mention_agreement:
  "effectiveMention (snd (applyLocalMention msg \<lparr>mt_agentId = Some (m_accountId msg), mt_displayName = d\<rparr>)) \<longleftrightarrow>
     m_mentioned msg = Some True \<or> fst (applyLocalMention msg \<lparr>mt_agentId = Some (m_accountId msg), mt_displayName = d\<rparr>)"
proof -
  let ?t = "\<lparr>mt_agentId = Some (m_accountId msg), mt_displayName = d\<rparr>"
  let ?o = "\<lparr>mt_agentId = Some (m_accountId msg), mt_displayName = None\<rparr>"
  let ?m = "snd (applyLocalMention msg ?t)"
  have local: "fst (applyLocalMention msg ?t) \<longleftrightarrow> scanMention (m_text msg) ?t \<or>
      (\<exists>b. raw_batch (m_raw msg) = Some b \<and> (\<exists>e \<in> set b. scanMention (Some (rawText e)) ?t))"
    by (auto simp: applyLocalMention_def Let_def split: option.splits)
  have "fst (applyLocalMention msg ?t)" if "scanMention (m_text msg) ?o"
    using that local scanMention_more_targets by blast
  moreover have "fst (applyLocalMention msg ?t)"
    if "raw_batch (m_raw ?m) = Some b" "e \<in> set b" "scanMention (Some (rawText e)) ?o" for b e
  proof (cases "raw_batch (m_raw msg)")
    case None
    with that(1) raw_unmarked[OF None, of ?t] show ?thesis by simp
  next
    case (Some b')
    with that raw_batch_marked[OF Some, of ?t] obtain e' where "e' \<in> set b'" "e = mark_entry ?t e'" by auto
    with that(3) scanMention_more_targets have "scanMention (Some (rawText e')) ?t"
      by (simp add: mark_entry_rawText)
    with Some \<open>e' \<in> set b'\<close> local show ?thesis by blast
  qed
  ultimately show ?thesis
    by (auto simp: effectiveMention_def applyLocalMention_keeps Let_def split: option.splits)
qed

text \<open>The Hub's wake decision is final: when every entry carries one, the gate answers with it and
  neither reads nor changes the policy cache or the message.\<close>

theorem gate_follows_hub:
  assumes "hubWake msg = Some decided"
  shows "attentionGate ttl fe fg names now now' msg cache = (decided, msg, cache)"
  using assms by (simp add: attentionGate_def)

theorem gate_follows_hub_witness:
  "attentionGate 1 (\<lambda>_ _. FetchFailed) (\<lambda>_. FetchFailed) (\<lambda>_. None) 0 0
     (batch_msg [decision_entry ''full'' ''owner'']) (\<lambda>_. None)
   = (True, batch_msg [decision_entry ''full'' ''owner''], \<lambda>_. None)"
proof (rule gate_follows_hub)
  show "hubWake (batch_msg [decision_entry ''full'' ''owner'']) = Some True"
    by (simp add: hubWake_def hubDecisions_def batch_msg_entries readHubDecision_def decision_entry_def hub_profiles_def)
qed

text \<open>The gate's allowed-senders branch is taken before the mute: a room in that mode whose policy
  is muted until a later time still wakes for a listed sender, although the policy says muted
  regardless of mode and the shared decision function does mute it.\<close>

theorem allowed_sender_bypasses_mute:
  assumes "hubWake msg = None" and "live_entry cache (cacheKey (m_accountId msg) (Some (c_id (m_conversation msg)))) now = Some policy"
    and "c_id (m_conversation msg) \<noteq> []" and "ap_mode policy = MAllowedSenders"
    and "ap_allowedSenderIds policy = Some ids" and "s_id (m_sender msg) \<in> set ids"
    and "ap_muted_until policy = Some t" and "now' < t"
  shows "fst (attentionGate ttl fe fg names now now' msg cache) \<and>
         \<not> shouldWake policy \<lparr>am_mentioned = Some True, am_text = m_text msg, am_senderId = Some (s_id (m_sender msg))\<rparr> now'"
  using assms by (simp add: attentionGate_def resolve_def resolve_plan_of_def Let_def shouldWake_def)

theorem allowed_sender_bypasses_mute_witness:
  "fst (attentionGate 1000 (\<lambda>_ _. FetchFailed) (\<lambda>_. FetchFailed) (\<lambda>_. None) 5 5 example_msg
     (put 1000 0 ''ag_1'' (Some ''rm_1'')
       \<lparr>ap_mode = MAllowedSenders, ap_keywords = [], ap_allowedSenderIds = Some [''ag_2''], ap_muted_until = Some 99\<rparr> (\<lambda>_. None)))"
proof -
  let ?p = "\<lparr>ap_mode = MAllowedSenders, ap_keywords = [], ap_allowedSenderIds = Some [''ag_2''], ap_muted_until = Some 99\<rparr>"
  let ?c = "put 1000 0 ''ag_1'' (Some ''rm_1'') ?p (\<lambda>_. None)"
  have "hubWake example_msg = None"
    by (simp add: hubWake_def hubDecisions_def inboundEntries_def example_msg_def readHubDecision_def)
  moreover have "live_entry ?c (cacheKey (m_accountId example_msg) (Some (c_id (m_conversation example_msg)))) 5 = Some ?p"
    by (simp add: live_entry_def put_def example_msg_def maybeForceDirectConversation_def isDirectConversation_def
        isDirectRoomId_def startsWith_def)
  ultimately show ?thesis
    using allowed_sender_bypasses_mute[of example_msg ?c 5 ?p "[''ag_2'']" 99 5] by (simp add: example_msg_def)
qed

end
