(* ===== verification/Session_Store.thy ===== *)
theory Session_Store
  imports Gateway_Types Kv_Contract
begin

text \<open>
  The JSON-backed stores of the daemon: the runtime session store
  (\<open>daemon/src/gateway/session-store.ts\<close>) and the activity table with the cross-room digest built
  from it (\<open>daemon/src/activity-tracker.ts\<close>, \<open>cross-room.ts\<close>).

  An \<open>entries\<close> object is an association list in insertion order; a timestamp read from disk may be
  any number, so it is a \<^typ>\<open>jsnum\<close>. Writes to disk are queued: \<open>persist\<close> adds a flush, and each flush
  writes what the store holds when it runs, atomically (temporary file and rename) or not at all.
\<close>

section \<open>Association lists as objects\<close>

definition del_assoc :: "string \<Rightarrow> (string \<times> 'a) list \<Rightarrow> (string \<times> 'a) list" where
  "del_assoc k ps = filter (\<lambda>(k', v). k' \<noteq> k) ps"

lemma map_of_del_assoc [simp]: "map_of (del_assoc k ps) = (map_of ps)(k := None)"
  by (induction ps) (auto simp: del_assoc_def fun_eq_iff)

lemma distinct_filter_keys: "distinct (map fst ps) \<Longrightarrow> distinct (map fst (filter P ps))"
  by (induction ps) auto

section \<open>SessionStore\<close>

record session_entry =
  se_key :: string
  se_runtime :: string
  se_runtimeSessionId :: string
  se_memoryVersion :: "string option"
  se_channel :: string
  se_accountId :: string
  se_conversationKind :: conv_kind
  se_conversationId :: string
  se_threadId :: "string option"
  se_cwd :: string
  se_updatedAt :: jsnum
  se_turnCount :: "int option"
  se_lastInputTokens :: "int option"

type_synonym session_entries = "(string \<times> session_entry) list"

record session_store =
  st_maxEntryAgeMs :: "rat option"
  st_entries :: session_entries
  st_loaded :: bool
  st_pending :: nat
  st_disk :: "session_entries option"

text \<open>The constructor keeps a time to live only when it is a positive finite number.\<close>

definition new_store :: "jsnum \<Rightarrow> session_entries option \<Rightarrow> session_store" where
  "new_store maxEntryAgeMs disk =
     \<lparr>st_maxEntryAgeMs = (case maxEntryAgeMs of Fin q \<Rightarrow> (if q > 0 then Some q else None) | _ \<Rightarrow> None),
      st_entries = [], st_loaded = False, st_pending = 0, st_disk = disk\<rparr>"

definition isValidShape :: "jsval \<Rightarrow> bool" where
  "isValidShape x =
     (if \<not> is_object x then False
      else get_prop x ''version'' = JNum (Fin 1) \<and> truthy (get_prop x ''entries'') \<and> is_object (get_prop x ''entries''))"

definition persist :: "session_store \<Rightarrow> session_store" where
  "persist s = s\<lparr>st_pending := Suc (st_pending s)\<rparr>"

text \<open>A queued flush runs: it succeeds and the file holds the current entries, or it fails.\<close>

definition flushOnce :: "bool \<Rightarrow> session_store \<Rightarrow> session_store" where
  "flushOnce ok s =
     s\<lparr>st_pending := st_pending s - 1, st_disk := (if ok then Some (st_entries s) else st_disk s)\<rparr>"

definition get :: "session_store \<Rightarrow> string \<Rightarrow> session_entry option" where
  "get s key = map_of (st_entries s) key"

text \<open>\<open>Number.isFinite(callerTs) && callerTs > 0 ? callerTs : Date.now()\<close>.\<close>

definition stamp :: "jsnum \<Rightarrow> rat \<Rightarrow> jsnum" where
  "stamp callerTs now = (case callerTs of Fin q \<Rightarrow> (if q > 0 then Fin q else Fin now) | _ \<Rightarrow> Fin now)"

definition set_entry :: "rat \<Rightarrow> session_entry \<Rightarrow> session_store \<Rightarrow> session_store" where
  "set_entry now entry s =
     persist (s\<lparr>st_entries := upd_assoc (st_entries s) (se_key entry) (entry\<lparr>se_updatedAt := stamp (se_updatedAt entry) now\<rparr>)\<rparr>)"

definition delete_entry :: "string \<Rightarrow> session_store \<Rightarrow> session_store" where
  "delete_entry key s = persist (s\<lparr>st_entries := del_assoc key (st_entries s)\<rparr>)"

definition expired :: "rat \<Rightarrow> session_entry \<Rightarrow> bool" where
  "expired cutoff entry = (case se_updatedAt entry of Fin q \<Rightarrow> q < cutoff | _ \<Rightarrow> True)"

definition pruneExpired :: "jsnum \<Rightarrow> rat \<Rightarrow> session_store \<Rightarrow> nat \<times> session_store" where
  "pruneExpired maxAgeMs now s =
     (case maxAgeMs of
        Fin maxAge \<Rightarrow>
          (if maxAge \<le> 0 then (0, s)
           else
             let cutoff = now - maxAge;
                 kept = filter (\<lambda>(key, entry). \<not> expired cutoff entry) (st_entries s);
                 removed = length (st_entries s) - length kept
             in (removed, if removed > 0 then persist (s\<lparr>st_entries := kept\<rparr>) else s))
      | _ \<Rightarrow> (0, s))"

text \<open>
  \<open>load\<close>: the file is missing, unreadable (the error is thrown), not JSON, of another shape, or
  valid. \<open>parse\<close> is \<open>JSON.parse\<close>, \<open>typed\<close> the view of the \<open>entries\<close> value as session entries.
\<close>

datatype file_read = FileMissing | FileError string | FileText string

definition load :: "(string \<Rightarrow> jsval option) \<Rightarrow> (jsval \<Rightarrow> session_entries) \<Rightarrow> file_read \<Rightarrow> rat \<Rightarrow>
  session_store \<Rightarrow> string + session_store" where
  "load parse typed file now s =
     (case file of
        FileMissing \<Rightarrow> Inr (s\<lparr>st_entries := [], st_loaded := True\<rparr>)
      | FileError e \<Rightarrow> Inl e
      | FileText raw \<Rightarrow>
          (let entries = (case parse raw of
                            Some v \<Rightarrow> (if isValidShape v then typed (get_prop v ''entries'') else [])
                          | None \<Rightarrow> []);
               s' = s\<lparr>st_entries := entries, st_loaded := True\<rparr>
           in Inr (case st_maxEntryAgeMs s of
                     Some age \<Rightarrow> snd (pruneExpired (Fin age) now s')
                   | None \<Rightarrow> s')))"

section \<open>The store as a map\<close>

definition store_inv :: "session_store \<Rightarrow> bool" where
  "store_inv s \<longleftrightarrow> distinct (map fst (st_entries s))"

definition insert_at :: "string \<Rightarrow> session_entry \<Rightarrow> session_store \<Rightarrow> session_store" where
  "insert_at k e s = persist (s\<lparr>st_entries := upd_assoc (st_entries s) k e\<rparr>)"

interpretation sessions: kv_store get insert_at delete_entry store_inv
proof
  fix s k v k'
  show "get (insert_at k v s) k' = (if k' = k then Some v else get s k')"
    by (simp add: get_def insert_at_def persist_def)
  show "get (delete_entry k s) k' = (if k' = k then None else get s k')"
    by (simp add: get_def delete_entry_def persist_def)
  show "store_inv (insert_at k v s)" if "store_inv s"
    using that by (simp add: store_inv_def insert_at_def persist_def distinct_upd_assoc)
  show "store_inv (delete_entry k s)" if "store_inv s"
    using that by (simp add: store_inv_def delete_entry_def persist_def del_assoc_def distinct_filter_keys)
qed

datatype store_op = SetOp rat session_entry | DeleteOp string

fun run_store_op :: "store_op \<Rightarrow> session_store \<Rightarrow> session_store" where
  "run_store_op (SetOp now e) s = set_entry now e s"
| "run_store_op (DeleteOp k) s = delete_entry k s"

fun store_kv :: "store_op \<Rightarrow> (string, session_entry) kv_op" where
  "store_kv (SetOp now e) = Ins (se_key e) (e\<lparr>se_updatedAt := stamp (se_updatedAt e) now\<rparr>)"
| "store_kv (DeleteOp k) = Del k"

lemma run_store_op_kv: "run_store_op op = sessions.apply_op (store_kv op)"
  by (cases op) (simp_all add: fun_eq_iff sessions.apply_op_def set_entry_def insert_at_def)


definition example_entry :: session_entry where
  "example_entry = \<lparr>se_key = ''k'', se_runtime = ''codex'', se_runtimeSessionId = ''s1'', se_memoryVersion = None,
     se_channel = ''botcord'', se_accountId = ''ag_1'', se_conversationKind = Group, se_conversationId = ''rm_1'',
     se_threadId = None, se_cwd = ''/w'', se_updatedAt = Fin 10, se_turnCount = Some 1, se_lastInputTokens = None\<rparr>"


text \<open>Pruning removes exactly the expired entries: with a positive finite age, a lookup afterwards
  returns the entry it had unless its timestamp is not finite or older than the cutoff, the count is the
  number of entries removed, and the store is rewritten only when something was removed.\<close>

theorem pruneExpired_exact:
  assumes "store_inv s" and "0 < maxAge" and "pruneExpired (Fin maxAge) now s = (removed, s')"
  shows "get s' key = (case get s key of Some e \<Rightarrow> (if expired (now - maxAge) e then None else Some e) | None \<Rightarrow> None) \<and>
    removed = length (filter (\<lambda>(k, e). expired (now - maxAge) e) (st_entries s)) \<and>
    st_pending s' = st_pending s + (if removed > 0 then 1 else 0)"
proof -
  let ?P = "\<lambda>(k, e). \<not> expired (now - maxAge) e"
  let ?kept = "filter ?P (st_entries s)"
  have len: "length (st_entries s) - length ?kept = length (filter (\<lambda>(k, e). expired (now - maxAge) e) (st_entries s))"
    using sum_length_filter_compl[of ?P "st_entries s"] by (simp add: case_prod_beta')
  have lk: "map_of (filter ?P ps) key =
      (case map_of ps key of Some e \<Rightarrow> (if expired (now - maxAge) e then None else Some e) | None \<Rightarrow> None)"
    if "distinct (map fst ps)" for ps :: session_entries
    using that
  proof (induction ps)
    case (Cons p ps)
    obtain k e where p: "p = (k, e)" by (cases p)
    have "map_of ps k = None" using Cons.prems p by (simp add: map_of_eq_None_iff)
    with Cons p show ?case by (auto split: option.splits)
  qed simp
  have s': "s' = (if removed > 0 then persist (s\<lparr>st_entries := ?kept\<rparr>) else s)"
    "removed = length (st_entries s) - length ?kept"
    using assms(2,3) by (auto simp: pruneExpired_def Let_def)
  have "get s' key = map_of ?kept key"
  proof (cases "removed > 0")
    case True
    then show ?thesis by (simp add: s'(1) get_def persist_def)
  next
    case False
    with s'(2) len have "filter (\<lambda>(k, e). expired (now - maxAge) e) (st_entries s) = []" by simp
    then have "?kept = st_entries s" by (auto simp: filter_empty_conv intro!: filter_True)
    with False show ?thesis by (simp add: s'(1) get_def)
  qed
  with lk assms(1) s' len show ?thesis by (simp add: get_def store_inv_def persist_def)
qed

theorem pruneExpired_exact_witness:
  "get (snd (pruneExpired (Fin 5) 100 (run_store_op (SetOp 1 example_entry) (new_store NaN None)))) ''k'' = None"
proof -
  let ?s = "run_store_op (SetOp 1 example_entry) (new_store NaN None)"
  have "store_inv ?s" by (simp add: store_inv_def new_store_def set_entry_def persist_def)
  then show ?thesis
    using pruneExpired_exact[of ?s 5 100 "fst (pruneExpired (Fin 5) 100 ?s)" "snd (pruneExpired (Fin 5) 100 ?s)" "''k''"]
    by (simp add: get_def set_entry_def insert_at_def persist_def new_store_def example_entry_def expired_def stamp_def)
qed

text \<open>A restricted or grant-scoped turn never resumes a full-trust session: what any turn stores
  under a scoped key is not what a lookup with another scope, or with none, returns, identifiers
  being free of the scope separator.\<close>

theorem scoped_session_isolated:
  assumes "hash_free a" and "hash_free b" and "sk_executionScope a = Some sc" and "sc \<noteq> []"
    and "sk_executionScope b \<noteq> Some sc" and "se_key e = sessionKey a"
  shows "get (set_entry now e s) (sessionKey b) = get s (sessionKey b)"
proof -
  have "sessionKey a \<noteq> sessionKey b" using scoped_keys_disjoint[OF assms(1,2) _ assms(3,4)] assms(5) by blast
  with assms(6) show ?thesis by (simp add: get_def set_entry_def persist_def)
qed

definition example_key :: session_key_input where
  "example_key = \<lparr>sk_runtime = ''codex'', sk_channel = ''botcord'', sk_accountId = ''ag_1'',
     sk_conversationKind = Group, sk_conversationId = ''rm_1'', sk_threadId = None, sk_executionScope = None\<rparr>"

theorem scoped_session_isolated_witness:
  "get (set_entry 1 (example_entry\<lparr>se_key := sessionKey (example_key\<lparr>sk_executionScope := Some ''restricted''\<rparr>)\<rparr>)
     (new_store NaN None)) (sessionKey example_key) = None"
  using scoped_session_isolated[of "example_key\<lparr>sk_executionScope := Some ''restricted''\<rparr>" example_key "''restricted''"
      "example_entry\<lparr>se_key := sessionKey (example_key\<lparr>sk_executionScope := Some ''restricted''\<rparr>)\<rparr>" 1 "new_store NaN None"]
  by (simp add: hash_free_def example_key_def get_def new_store_def)

datatype store_event = Op store_op | Flush bool

fun run_event :: "store_event \<Rightarrow> session_store \<Rightarrow> session_store" where
  "run_event (Op op) s = run_store_op op s"
| "run_event (Flush ok) s = (if st_pending s = 0 then s else flushOnce ok s)"

definition synced :: "session_store \<Rightarrow> bool" where
  "synced s \<longleftrightarrow> st_pending s > 0 \<or> st_disk s = Some (st_entries s)"

lemma synced_run_event [inv_intros]: "synced s \<Longrightarrow> ev \<noteq> Flush False \<Longrightarrow> synced (run_event ev s)"
proof (cases ev)
  case (Op op)
  then show ?thesis by (cases op) (simp_all add: synced_def set_entry_def delete_entry_def persist_def)
qed (auto simp: synced_def flushOnce_def)

text \<open>The file catches up with the store: from a store in step with its file, after any interleaving
  of upserts, deletions and successful flushes that leaves no flush queued, the file holds the
  current entries.\<close>

theorem file_catches_up:
  assumes "synced s" and "Flush False \<notin> set evs" and "st_pending (fold run_event evs s) = 0"
  shows "st_disk (fold run_event evs s) = Some (st_entries (fold run_event evs s))"
proof -
  have "synced (fold run_event evs s)"
    using assms(1,2)
  proof (induction evs arbitrary: s)
    case (Cons ev evs)
    then have "synced (run_event ev s)" by (intro synced_run_event) auto
    with Cons show ?case by simp
  qed simp
  with assms(3) show ?thesis by (simp add: synced_def)
qed

theorem file_catches_up_witness:
  "st_disk (fold run_event [Op (SetOp 1 example_entry), Flush True, Op (DeleteOp ''k''), Flush True] (new_store NaN (Some []))) = Some []"
proof -
  let ?evs = "[Op (SetOp 1 example_entry), Flush True, Op (DeleteOp ''k''), Flush True]"
  let ?s = "new_store NaN (Some [])"
  have e: "st_entries (fold run_event ?evs ?s) = []" and p: "st_pending (fold run_event ?evs ?s) = 0"
    by (simp_all add: set_entry_def delete_entry_def persist_def flushOnce_def new_store_def del_assoc_def example_entry_def)
  from file_catches_up[OF _ _ p] e show ?thesis by (simp add: synced_def new_store_def)
qed

section \<open>Activity tracker\<close>

datatype activity_sender = ActAgent | ActHuman | ActOwner

record activity_entry =
  ae_agentId :: string
  ae_roomId :: string
  ae_roomName :: "string option"
  ae_topic :: "string option"
  ae_lastActivityAt :: int
  ae_lastInboundPreview :: string
  ae_lastSenderKind :: activity_sender
  ae_lastSender :: string

type_synonym activity_table = "(string \<times> activity_entry) list"

definition ACTIVITY_PREVIEW_CHARS :: nat where
  "ACTIVITY_PREVIEW_CHARS = 120"

text \<open>\<open>record\<close>: the time of the entry is the caller's or the clock, resolved by the caller here.\<close>

definition record_activity :: "activity_entry \<Rightarrow> activity_table \<Rightarrow> activity_table" where
  "record_activity entry table =
     upd_assoc table (activityKey (ae_agentId entry) (ae_roomId entry) (ae_topic entry))
       (entry\<lparr>ae_lastInboundPreview := take ACTIVITY_PREVIEW_CHARS (ae_lastInboundPreview entry)\<rparr>)"

definition get_activity :: "string \<Rightarrow> string \<Rightarrow> string option \<Rightarrow> activity_table \<Rightarrow> activity_entry option" where
  "get_activity agentId roomId topic table = map_of table (activityKey agentId roomId topic)"

definition DEFAULT_WINDOW_MS :: int where
  "DEFAULT_WINDOW_MS = 2 * 60 * 60 * 1000"

definition listActive :: "string \<Rightarrow> int \<Rightarrow> string \<Rightarrow> int \<Rightarrow> activity_table \<Rightarrow> activity_entry list" where
  "listActive agentId windowMs excludeKey now table =
     (let cutoff = now - windowMs;
          out = map snd (filter (\<lambda>(k, e).
                  ae_agentId e = agentId \<and> \<not> ae_lastActivityAt e < cutoff \<and> \<not> (excludeKey \<noteq> [] \<and> k = excludeKey)) table)
      in sort_key (\<lambda>e. - ae_lastActivityAt e) out)"

definition DEFAULT_MAX_ENTRIES :: nat where
  "DEFAULT_MAX_ENTRIES = 5"

text \<open>The number of sessions the digest states and the entries it lists, or nothing.\<close>

definition digest_entries ::
  "string \<Rightarrow> string \<Rightarrow> string option \<Rightarrow> int \<Rightarrow> activity_table \<Rightarrow> (nat \<times> activity_entry list) option" where
  "digest_entries agentId currentRoomId currentTopic now table =
     (let excludeKey = activityKey agentId currentRoomId currentTopic;
          entries = listActive agentId DEFAULT_WINDOW_MS excludeKey now table
      in if length entries = 0 then None
         else Some (length entries + 1, take DEFAULT_MAX_ENTRIES entries))"

definition formatTimeAgo :: "int \<Rightarrow> int \<Rightarrow> string" where
  "formatTimeAgo now ts =
     (let diffMs = now - ts
      in if diffMs < 0 then ''just now''
         else
           let diffMin = diffMs div 60000
           in if diffMin < 1 then ''just now''
              else if diffMin < 60 then int_str diffMin @ ''m ago''
              else int_str (diffMin div 60) @ ''h ago'')"

definition describeSender :: "activity_entry \<Rightarrow> string" where
  "describeSender e =
     (case ae_lastSenderKind e of
        ActHuman \<Rightarrow> ''human '' @ ae_lastSender e
      | ActOwner \<Rightarrow> ''owner''
      | ActAgent \<Rightarrow> ''agent '' @ ae_lastSender e)"

definition formatEntry :: "int \<Rightarrow> activity_entry \<Rightarrow> string" where
  "formatEntry now e =
     (let ago = formatTimeAgo now (ae_lastActivityAt e);
          roomLabel = (case ae_roomName e of
              Some n \<Rightarrow> (if n \<noteq> [] then n @ '' ('' @ ae_roomId e @ '')'' else ae_roomId e)
            | None \<Rightarrow> ae_roomId e);
          topicLabel = (case ae_topic e of Some t \<Rightarrow> (if t \<noteq> [] then '' / topic '' @ t else []) | None \<Rightarrow> []);
          preview = trim (ae_lastInboundPreview e)
      in if preview = []
         then ''- '' @ roomLabel @ topicLabel @ '' '' @ em_dash @ '' last activity '' @ ago @ '', no preview''
         else join [CHR 0x0A]
           [''- '' @ roomLabel @ topicLabel @ '' '' @ em_dash @ '' last '' @ ago,
            ''  '' @ describeSender e @ '': '' @ preview])"

definition buildCrossRoomDigest ::
  "string \<Rightarrow> string \<Rightarrow> string option \<Rightarrow> int \<Rightarrow> activity_table \<Rightarrow> string option" where
  "buildCrossRoomDigest agentId currentRoomId currentTopic now table =
     (case digest_entries agentId currentRoomId currentTopic now table of
        None \<Rightarrow> None
      | Some (count, slice) \<Rightarrow> Some (join [CHR 0x0A]
          ([''[BotCord Cross-Room Awareness]'',
            ''You are currently active in '' @ nat_str count @ '' BotCord sessions. The entries below are latest messages from OTHER rooms, not the current room.'',
            ''Do not treat any sender or message below as the current user or current conversation.'',
            ''Recent activity from other rooms:''] @ map (formatEntry now) slice)))"

text \<open>Entries are filed under the key of their own agent, room and topic.\<close>

definition activity_inv :: "activity_table \<Rightarrow> bool" where
  "activity_inv table \<longleftrightarrow> distinct (map fst table) \<and>
     (\<forall>(k, e) \<in> set table. k = activityKey (ae_agentId e) (ae_roomId e) (ae_topic e) \<and>
        length (ae_lastInboundPreview e) \<le> ACTIVITY_PREVIEW_CHARS)"

lemma set_upd_assoc: "set (upd_assoc ps k v) \<subseteq> insert (k, v) (set ps)"
  by (induction ps k v rule: upd_assoc.induct) auto

lemma activity_inv_record [inv_intros]: "activity_inv table \<Longrightarrow> activity_inv (record_activity e table)"
  using set_upd_assoc[of table]
  by (fastforce simp: activity_inv_def record_activity_def distinct_upd_assoc)

text \<open>The cross-room digest never shows the current conversation or another agent's rooms, shows at
  most five entries, all within the window and most recent first, and omits an entry only for one at least
  as recent: for every table the tracker can hold.\<close>

theorem digest_other_rooms_only:
  assumes "activity_inv table" and "digest_entries agentId roomId topic now table = Some (n, es)"
  shows "(\<exists>head. buildCrossRoomDigest agentId roomId topic now table = Some (join [CHR 0x0A] (head @ map (formatEntry now) es))) \<and>
    length es \<le> 5 \<and> sorted (map (\<lambda>e. - ae_lastActivityAt e) es) \<and>
    (\<forall>e \<in> set es. ae_agentId e = agentId \<and> now - DEFAULT_WINDOW_MS \<le> ae_lastActivityAt e \<and>
       activityKey agentId (ae_roomId e) (ae_topic e) \<noteq> activityKey agentId roomId topic) \<and>
    (\<forall>k e e'. (k, e) \<in> set table \<and> ae_agentId e = agentId \<and> now - DEFAULT_WINDOW_MS \<le> ae_lastActivityAt e \<and>
       k \<noteq> activityKey agentId roomId topic \<and> e \<notin> set es \<and> e' \<in> set es \<longrightarrow>
       ae_lastActivityAt e \<le> ae_lastActivityAt e')"
proof -
  let ?x = "activityKey agentId roomId topic"
  define l where "l = listActive agentId DEFAULT_WINDOW_MS ?x now table"
  have es: "es = take 5 l"
    using assms(2) by (auto simp: digest_entries_def l_def DEFAULT_MAX_ENTRIES_def Let_def split: if_splits)
  have ne: "?x \<noteq> []" by (simp add: activityKey_def split: option.splits)
  have mem: "e \<in> set l \<longleftrightarrow> (\<exists>k. (k, e) \<in> set table \<and> ae_agentId e = agentId \<and>
      now - DEFAULT_WINDOW_MS \<le> ae_lastActivityAt e \<and> k \<noteq> ?x)" for e
    using ne by (force simp: l_def listActive_def Let_def not_less)
  have srt: "sorted (map (\<lambda>e. - ae_lastActivityAt e) l)" by (simp add: l_def listActive_def Let_def)
  have own: "activityKey agentId (ae_roomId e) (ae_topic e) \<noteq> ?x" if "e \<in> set es" for e
    using assms(1) that mem[of e] es by (fastforce simp: activity_inv_def dest: in_set_takeD)
  have rest: "ae_lastActivityAt e \<le> ae_lastActivityAt e'" if "e \<in> set l" "e \<notin> set es" "e' \<in> set es" for e e'
  proof -
    have "l = es @ drop 5 l" by (simp add: es)
    then have "sorted (map (\<lambda>e. - ae_lastActivityAt e) (es @ drop 5 l))" using srt by simp
    moreover have "e \<in> set (drop 5 l)" using that \<open>l = es @ drop 5 l\<close> by (metis Un_iff set_append)
    ultimately show ?thesis using that(3) by (auto simp: sorted_append)
  qed
  have "sorted (map (\<lambda>e. - ae_lastActivityAt e) es)" using srt by (simp add: es flip: take_map)
  moreover have "length es \<le> 5" by (simp add: es)
  moreover have "\<exists>head. buildCrossRoomDigest agentId roomId topic now table = Some (join [CHR 0x0A] (head @ map (formatEntry now) es))"
    using assms(2) by (simp only: buildCrossRoomDigest_def option.case prod.case) blast
  ultimately show ?thesis using own rest mem es by (auto dest: in_set_takeD)
qed

definition example_activity :: "string \<Rightarrow> int \<Rightarrow> activity_entry" where
  "example_activity room t = \<lparr>ae_agentId = ''ag_1'', ae_roomId = room, ae_roomName = None, ae_topic = None,
     ae_lastActivityAt = t, ae_lastInboundPreview = ''hi'', ae_lastSenderKind = ActHuman, ae_lastSender = ''bob''\<rparr>"

theorem digest_other_rooms_only_witness:
  "let t = record_activity (example_activity ''rm_1'' 5) (record_activity (example_activity ''rm_2'' 6) [])
   in digest_entries ''ag_1'' ''rm_1'' None 7 t = Some (2, [example_activity ''rm_2'' 6]) \<and>
      length [example_activity ''rm_2'' 6] \<le> 5"
proof -
  let ?t = "record_activity (example_activity ''rm_1'' 5) (record_activity (example_activity ''rm_2'' 6) [])"
  have inv: "activity_inv ?t" by (intro activity_inv_record) (simp add: activity_inv_def)
  have d: "digest_entries ''ag_1'' ''rm_1'' None 7 ?t = Some (2, [example_activity ''rm_2'' 6])"
    by (simp add: digest_entries_def listActive_def record_activity_def example_activity_def activityKey_def
        DEFAULT_WINDOW_MS_def DEFAULT_MAX_ENTRIES_def ACTIVITY_PREVIEW_CHARS_def)
  from digest_other_rooms_only[OF inv d] d show ?thesis by (simp add: Let_def)
qed

end
