(* ===== verification/Response_Protocol.thy ===== *)
theory Response_Protocol
  imports Gateway_Types
begin

text \<open>
  The response protocol of team conversations (\<open>daemon/src/gateway/response-protocol.ts\<close>): which
  inputs a turn answers, the instructions given to the runtime, and the structured decision parsed
  from its final text. \<open>JSON.parse\<close> is a parameter returning \<open>None\<close> when it throws; a thrown error is
  an \<open>Inl\<close>.
\<close>

definition response_entries :: "inbound_message \<Rightarrow> jsval list" where
  "response_entries msg = (case get_prop (m_raw msg) ''batch'' of JArr xs \<Rightarrow> xs | _ \<Rightarrow> [m_raw msg])"

definition team_entry :: "jsval \<Rightarrow> bool" where
  "team_entry entry =
     (case get_prop (get_prop entry ''space_context'') ''space_id'' of JStr s \<Rightarrow> length s > 0 | _ \<Rightarrow> False)"

definition isTeamConversation :: "inbound_message \<Rightarrow> bool" where
  "isTeamConversation msg =
     (let entries = response_entries msg in length entries > 0 \<and> (\<forall>e \<in> set entries. team_entry e))"

definition entry_input_id :: "jsval \<Rightarrow> string list" where
  "entry_input_id entry =
     (let env = get_prop entry ''envelope''
      in case (get_prop env ''type'', get_prop env ''msg_id'') of
           (JStr t, JStr i) \<Rightarrow> (if t = ''message'' then [i] else [])
         | _ \<Rightarrow> [])"

definition responseInputIds :: "inbound_message \<Rightarrow> string list" where
  "responseInputIds msg = js_uniq (concat (map entry_input_id (response_entries msg)))"

definition nl :: string where
  "nl = [CHR 0x0A]"

definition dq :: string where
  "dq = [CHR 0x22]"

definition response_context :: "string \<Rightarrow> string \<Rightarrow> string list \<Rightarrow> string" where
  "response_context runId roomId ids =
     ''[BotCord response execution: '' @ runId @ ''; room: '' @ roomId @ ''; input message IDs: '' @ join '','' ids @
     ''. Historical messages and quotes are context, not additional inputs.'' @ nl"

definition response_structured :: "string list \<Rightarrow> string" where
  "response_structured ids =
     (if length ids = 1 then
        ''For automatic final-text delivery, reply with ordinary final text, or exactly NO_REPLY when no response is needed.'' @ nl
      else
        ''For automatic final-text delivery, you may return exactly <botcord-response>{'' @ dq @ ''responds_to'' @ dq @ '':['' @ dq @
        ''message-id'' @ dq @ ''],'' @ dq @ ''no_reply'' @ dq @ '':['' @ dq @ ''other-id'' @ dq @ ''],'' @ dq @ ''text'' @ dq @ '':'' @ dq @
        ''your final reply'' @ dq @ ''}</botcord-response>. Only include IDs from this execution. A bare NO_REPLY resolves only a single-input execution; for a batch name each no_reply target.'' @ nl)"

definition responseInstructions :: "string \<Rightarrow> string \<Rightarrow> string list \<Rightarrow> bool \<Rightarrow> string" where
  "responseInstructions runId roomId ids automaticDelivery =
     (if automaticDelivery then
        response_context runId roomId ids @ response_structured ids @
        ''The daemon will deliver your final reply to this room; do not also send it with a tool or CLI. A plain final reply is associated automatically only when there is one input.]'' @ nl @ nl
      else
        response_context runId roomId ids @
        ''Before working, declare targets: botcord response start --run-id '' @ runId @ '' --room '' @ roomId @ '' --messages <id,id>. '' @
        ''For messages needing no response: botcord response no-reply --run-id '' @ runId @ '' --room '' @ roomId @ '' --messages <id,id>. '' @
        ''Before sending a selected reply, report botcord response replying --run-id '' @ runId @ '' --room '' @ roomId @ '' --messages <id,id>. '' @
        ''To send, use botcord send --to '' @ roomId @ '' --run-id '' @ runId @ '' --responds-to <id,id> --response-kind progress|final --message-id <stable-uuid> --text '' @ dq @ ''...'' @ dq @ ''. Reuse the message UUID when retrying the SAME send. Ordinary unassociated sends do not resolve inputs.'' @ nl @
        response_structured ids @ '']'' @ nl @ nl)"

record response_decision =
  rd_respondsTo :: "string list"
  rd_noReply :: "string list"
  rd_text :: string

datatype decision_error = InvalidEnvelope | InvalidJson | InvalidTargets | ConflictingDecision

definition open_tag :: string where
  "open_tag = ''<botcord-response>''"

definition close_tag :: string where
  "close_tag = ''</botcord-response>''"

text \<open>The capture of \<open>/^<botcord-response>([\s\S]*)<\/botcord-response>$/\<close>.\<close>

definition envelope_body :: "string \<Rightarrow> string option" where
  "envelope_body t =
     (let rest = drop (length open_tag) t
      in if startsWith t open_tag \<and> length close_tag \<le> length rest \<and>
            drop (length rest - length close_tag) rest = close_tag
         then Some (take (length rest - length close_tag) rest) else None)"

definition decision_ids :: "string list \<Rightarrow> jsval \<Rightarrow> decision_error + string list" where
  "decision_ids inputIds raw =
     (case raw of
        JUndef \<Rightarrow> Inr []
      | JArr xs \<Rightarrow>
          (if \<exists>x \<in> set xs. (case x of JStr s \<Rightarrow> s \<notin> set inputIds | _ \<Rightarrow> True) then Inl InvalidTargets
           else Inr (js_uniq (List.map_filter as_str xs)))
      | _ \<Rightarrow> Inl InvalidTargets)"

definition parseResponseDecision ::
  "(string \<Rightarrow> jsval option) \<Rightarrow> string \<Rightarrow> string list \<Rightarrow> decision_error + response_decision option" where
  "parseResponseDecision parse t inputIds =
     (if \<not> startsWith t open_tag then Inr None
      else case envelope_body t of
        None \<Rightarrow> Inl InvalidEnvelope
      | Some body \<Rightarrow>
          (case parse body of
             None \<Rightarrow> Inl InvalidJson
           | Some value \<Rightarrow>
               if value = JNull then Inl InvalidJson
               else case decision_ids inputIds (get_prop value ''responds_to'') of
                 Inl e \<Rightarrow> Inl e
               | Inr respondsTo \<Rightarrow>
                   (case decision_ids inputIds (get_prop value ''no_reply'') of
                      Inl e \<Rightarrow> Inl e
                    | Inr noReply \<Rightarrow>
                        (case get_prop value ''text'' of
                           JStr txt \<Rightarrow>
                             (if (\<exists>i \<in> set respondsTo. i \<in> set noReply) \<or> (trim txt \<noteq> [] \<and> respondsTo = []) \<or>
                                 (respondsTo \<noteq> [] \<and> trim txt = [])
                              then Inl ConflictingDecision
                              else Inr (Some \<lparr>rd_respondsTo = respondsTo, rd_noReply = noReply, rd_text = txt\<rparr>))
                         | _ \<Rightarrow> Inl ConflictingDecision))))"

lemma decision_ids_ok:
  "decision_ids inputIds raw = Inr ids \<Longrightarrow> set ids \<subseteq> set inputIds \<and> distinct ids"
proof -
  assume a: "decision_ids inputIds raw = Inr ids"
  have str: "as_str x = Some s \<longleftrightarrow> x = JStr s" for x s by (cases x) auto
  from a show ?thesis
    by (auto simp: decision_ids_def set_map_filter str split: jsval.splits if_splits)
qed

text \<open>A parsed response decision is consistent: its targets are inputs of this execution, named once,
  no input is both answered and declined, and there is reply text exactly when some input is
  answered.\<close>

theorem response_decision_consistent:
  assumes "parseResponseDecision parse t inputIds = Inr (Some d)"
  shows "set (rd_respondsTo d) \<subseteq> set inputIds \<and> set (rd_noReply d) \<subseteq> set inputIds \<and>
    distinct (rd_respondsTo d) \<and> distinct (rd_noReply d) \<and>
    set (rd_respondsTo d) \<inter> set (rd_noReply d) = {} \<and>
    (trim (rd_text d) \<noteq> [] \<longleftrightarrow> rd_respondsTo d \<noteq> [])"
  using assms decision_ids_ok
  by (fastforce simp: parseResponseDecision_def split: if_splits option.splits sum.splits jsval.splits)

text \<open>A stand-in for the JSON parser that knows one document.\<close>

definition one_document :: "string \<Rightarrow> jsval option" where
  "one_document s =
     (if s = ''x'' then Some (JObj [(''responds_to'', JArr [JStr ''m1'']), (''text'', JStr ''done'')]) else None)"

theorem response_decision_consistent_witness:
  "parseResponseDecision one_document ''<botcord-response>x</botcord-response>'' [''m1'', ''m2'']
     = Inr (Some \<lparr>rd_respondsTo = [''m1''], rd_noReply = [], rd_text = ''done''\<rparr>) \<and>
   set [''m1''] \<subseteq> set [''m1'', ''m2'']"
proof -
  have p: "parseResponseDecision one_document ''<botcord-response>x</botcord-response>'' [''m1'', ''m2'']
     = Inr (Some \<lparr>rd_respondsTo = [''m1''], rd_noReply = [], rd_text = ''done''\<rparr>)"
    by (simp add: parseResponseDecision_def envelope_body_def open_tag_def close_tag_def startsWith_def one_document_def
        decision_ids_def js_uniq_def trim_def is_ws_def)
  from response_decision_consistent[OF p] p show ?thesis by simp
qed

text \<open>The inputs of a response execution are the identifiers of the delivered messages, each once.\<close>

theorem responseInputIds_exact:
  "distinct (responseInputIds msg) \<and>
   (i \<in> set (responseInputIds msg) \<longleftrightarrow>
     (\<exists>e \<in> set (response_entries msg). get_prop (get_prop e ''envelope'') ''type'' = JStr ''message'' \<and>
        get_prop (get_prop e ''envelope'') ''msg_id'' = JStr i))"
proof -
  have "set (entry_input_id e) = {j. get_prop (get_prop e ''envelope'') ''type'' = JStr ''message'' \<and>
      get_prop (get_prop e ''envelope'') ''msg_id'' = JStr j}" for e
    by (auto simp: entry_input_id_def Let_def split: jsval.splits)
  then show ?thesis by (auto simp: responseInputIds_def)
qed

end
