(* ===== verification/Loop_Risk.thy ===== *)
theory Loop_Risk
  imports Gateway_Types
begin

text \<open>
  The loop-risk guard of \<open>daemon/src/loop-risk.ts\<close>: recent inbound and outbound texts per session, and
  the three detectors that warn an agent that a conversation is going in circles.

  The regular expressions are scanners over Latin-1 text: \<open>\p{L}\<close>, \<open>\p{N}\<close> and \<open>\s\<close> are their Latin-1
  members, and the table of Chinese closure phrases, none of which is Latin-1 text, is empty here.
  A similarity is an exact fraction; the comparison with 0.88 agrees with the floating-point one
  for every text shorter than \<open>2^48\<close> characters.
\<close>

section \<open>Text normalization\<close>

definition scaffold_prefixes :: "string list" where
  "scaffold_prefixes =
     [''[BotCord Message]'', ''[BotCord Notification]'', ''[Room Rule]'', ''[In group chats,'',
      ''This group-reply restriction'', ''including analyzing the message'', ''forwarding a summary'',
      ''When a message matches an active monitoring rule'', ''keyword, sender rule'',
      ''you do not reply to the group'', ''Before replying NO_REPLY in a non-owner group room'',
      ''If you might have something useful to add'', ''match a memory-backed monitoring rule'',
      ''or owner-approved workflow. If needed'', ''[If the conversation has naturally concluded'',
      ''[You received a contact request'', ''<agent-message'', ''<human-message'']"

definition scaffold_line :: "string \<Rightarrow> bool" where
  "scaffold_line l \<longleftrightarrow>
     l = [] \<or> (\<exists>p \<in> set scaffold_prefixes. startsWith l p) \<or>
     includes_str l ''no background action is needed'' \<or>
     includes_str l (''reply with exactly '' @ [CHR 0x22] @ ''NO_REPLY'' @ [CHR 0x22]) \<or>
     l = ''</agent-message>'' \<or> l = ''</human-message>''"

definition stripBotCordPromptScaffolding :: "string \<Rightarrow> string" where
  "stripBotCordPromptScaffolding t =
     trim (join [CHR 0x0A] (filter (\<lambda>l. \<not> scaffold_line l) (map trim (split_lines t))))"

text \<open>One match of \<open>/https?:\/\/\S+/\<close> at the front of the text: what follows it.\<close>

definition url_rest :: "string \<Rightarrow> string option" where
  "url_rest s =
     (let skip = (\<lambda>n. if takeWhile (\<lambda>c. \<not> is_ws c) (drop n s) \<noteq> []
                      then Some (dropWhile (\<lambda>c. \<not> is_ws c) (drop n s)) else None)
      in if startsWith s ''https://'' then skip 8
         else if startsWith s ''http://'' then skip 7
         else None)"

lemma url_rest_shorter: "url_rest s = Some r \<Longrightarrow> length r < length s"
proof -
  assume a: "url_rest s = Some r"
  have "length (dropWhile P (drop n s)) < length s" if "n > 0" "s \<noteq> []" for n and P :: "char \<Rightarrow> bool"
    using length_dropWhile_le[of P "drop n s"] that by (cases s) auto
  moreover from a have "s \<noteq> []" by (auto simp: url_rest_def startsWith_def)
  ultimately show ?thesis using a by (auto simp: url_rest_def Let_def split: if_splits)
qed

function strip_urls :: "string \<Rightarrow> string" where
  "strip_urls [] = []"
| "strip_urls (c # s) =
     (case url_rest (c # s) of Some r \<Rightarrow> CHR '' '' # strip_urls r | None \<Rightarrow> c # strip_urls s)"
  by pat_completeness auto
termination
  by (relation "measure length") (auto dest: url_rest_shorter)

definition is_letter :: "char \<Rightarrow> bool" where
  "is_letter c =
     (let n = (of_char c :: nat)
      in (65 \<le> n \<and> n \<le> 90) \<or> (97 \<le> n \<and> n \<le> 122) \<or> n \<in> {170, 181, 186} \<or>
         (192 \<le> n \<and> n \<noteq> 215 \<and> n \<noteq> 247))"

definition is_number_char :: "char \<Rightarrow> bool" where
  "is_number_char c =
     (let n = (of_char c :: nat) in (48 \<le> n \<and> n \<le> 57) \<or> n \<in> {178, 179, 185, 188, 189, 190})"

fun collapse_ws :: "string \<Rightarrow> string" where
  "collapse_ws [] = []"
| "collapse_ws (c # s) =
     (if is_ws c then (case collapse_ws s of
                         d # t \<Rightarrow> (if d = CHR '' '' then d # t else CHR '' '' # d # t)
                       | [] \<Rightarrow> '' '')
      else c # collapse_ws s)"

definition normalizeLoopText :: "string \<Rightarrow> string" where
  "normalizeLoopText t =
     trim (collapse_ws
       (map (\<lambda>c. if is_letter c \<or> is_number_char c \<or> is_ws c then c else CHR '' '')
         (strip_urls (toLowerCase (stripBotCordPromptScaffolding t)))))"

definition ENGLISH_ACK_OR_CLOSURE :: "string list" where
  "ENGLISH_ACK_OR_CLOSURE =
     [''ok'', ''okay'', ''got it'', ''thanks'', ''thank you'', ''noted'', ''understood'',
      ''sounds good'', ''sgtm'', ''roger'', ''copy'', ''will do'', ''all good'',
      ''no worries'', ''bye'', ''goodbye'', ''see you'', ''talk later'']"

definition isShortAckOrClosure :: "string \<Rightarrow> bool" where
  "isShortAckOrClosure t =
     (let n = normalizeLoopText t
      in if n = [] \<or> length n > 48 then False else n \<in> set ENGLISH_ACK_OR_CLOSURE)"

section \<open>Similarity\<close>

definition trigramSet :: "string \<Rightarrow> string set" where
  "trigramSet t =
     (if length t \<le> 3 then {t} else set (map (\<lambda>i. take 3 (drop i t)) [0..<length t - 2]))"

definition jaccardSimilarity :: "string \<Rightarrow> string \<Rightarrow> rat" where
  "jaccardSimilarity a b =
     (if a = [] \<or> b = [] then 0
      else if a = b then 1
      else
        let inter = card (trigramSet a \<inter> trigramSet b);
            union = card (trigramSet a) + card (trigramSet b) - inter
        in if union = 0 then 0 else of_nat inter / of_nat union)"

definition areOutboundTextsHighlySimilar :: "string \<Rightarrow> string \<Rightarrow> bool" where
  "areOutboundTextsHighlySimilar a b =
     (if a = [] \<or> b = [] then False
      else if a = b then True
      else if length a < 6 \<or> length b < 6 then False
      else jaccardSimilarity a b \<ge> 88 / 100)"

section \<open>Samples\<close>

record sample =
  sm_text :: string
  sm_normalized :: string
  sm_timestamp :: int

type_synonym sample_map = "string \<rightharpoonup> sample list"

record loop_state =
  inboundBySession :: sample_map
  outboundBySession :: sample_map

definition SAMPLE_MAX_AGE_MS :: int where
  "SAMPLE_MAX_AGE_MS = 10 * 60000"

definition MAX_TRACKED_PER_SIDE :: nat where
  "MAX_TRACKED_PER_SIDE = 6"

definition prune :: "sample_map \<Rightarrow> string \<Rightarrow> int \<Rightarrow> sample list \<times> sample_map" where
  "prune m key now =
     (let existing = (case m key of Some xs \<Rightarrow> xs | None \<Rightarrow> []);
          nxt = filter (\<lambda>s. now - sm_timestamp s \<le> SAMPLE_MAX_AGE_MS) existing
      in if length nxt = 0 then ([], m(key := None)) else (nxt, m(key \<mapsto> nxt)))"

definition record_sample :: "sample_map \<Rightarrow> string \<Rightarrow> sample \<Rightarrow> sample_map" where
  "record_sample m key sample =
     (let (kept, m') = prune m key (sm_timestamp sample)
      in m'(key \<mapsto> take_last MAX_TRACKED_PER_SIDE (kept @ [sample])))"

text \<open>The sample a text gives, if it is worth recording, with the trimmed session key.\<close>

definition text_sample :: "string option \<Rightarrow> jsval \<Rightarrow> int \<Rightarrow> (string \<times> sample) option" where
  "text_sample session t timestamp =
     (let key = (case session of Some k \<Rightarrow> trim k | None \<Rightarrow> []);
          raw = (case t of JStr s \<Rightarrow> trim s | _ \<Rightarrow> [])
      in if key = [] \<or> raw = [] then None
         else
           let normalized = normalizeLoopText raw
           in if normalized = [] then None
              else Some (key, \<lparr>sm_text = raw, sm_normalized = normalized, sm_timestamp = timestamp\<rparr>))"

definition recordInboundText :: "string option \<Rightarrow> jsval \<Rightarrow> int \<Rightarrow> loop_state \<Rightarrow> loop_state" where
  "recordInboundText session t timestamp st =
     (case text_sample session t timestamp of
        None \<Rightarrow> st
      | Some (key, s) \<Rightarrow> st\<lparr>inboundBySession := record_sample (inboundBySession st) key s\<rparr>)"

definition recordOutboundText :: "string option \<Rightarrow> jsval \<Rightarrow> int \<Rightarrow> loop_state \<Rightarrow> loop_state" where
  "recordOutboundText session t timestamp st =
     (case text_sample session t timestamp of
        None \<Rightarrow> st
      | Some (key, s) \<Rightarrow> st\<lparr>outboundBySession := record_sample (outboundBySession st) key s\<rparr>)"

definition clearLoopRiskSession :: "string option \<Rightarrow> loop_state \<Rightarrow> loop_state" where
  "clearLoopRiskSession session st =
     (case session of
        None \<Rightarrow> st
      | Some k \<Rightarrow> (if k = [] then st
                   else st\<lparr>inboundBySession := (inboundBySession st)(k := None),
                           outboundBySession := (outboundBySession st)(k := None)\<rparr>))"

section \<open>Detectors\<close>

datatype loop_reason = HighTurnRate nat | ShortAckTail | RepeatedOutbound

datatype loop_role = RoleUser | RoleAssistant

definition TURN_WINDOW_MS :: int where
  "TURN_WINDOW_MS = 2 * 60000"

fun alternations :: "loop_role list \<Rightarrow> nat" where
  "alternations (a # b # rs) = (if a \<noteq> b then 1 else 0) + alternations (b # rs)"
| "alternations _ = 0"

definition loop_timeline :: "sample list \<Rightarrow> sample list \<Rightarrow> int \<Rightarrow> (loop_role \<times> int) list" where
  "loop_timeline inb outb now =
     map (\<lambda>s. (RoleUser, sm_timestamp s)) (filter (\<lambda>s. now - sm_timestamp s \<le> TURN_WINDOW_MS) inb) @
     map (\<lambda>s. (RoleAssistant, sm_timestamp s)) (filter (\<lambda>s. now - sm_timestamp s \<le> TURN_WINDOW_MS) outb)"

definition detectHighTurnRate :: "sample list \<Rightarrow> sample list \<Rightarrow> int \<Rightarrow> loop_reason option" where
  "detectHighTurnRate inb outb now =
     (let timeline = loop_timeline inb outb now
      in if length timeline < 8 then None
         else
           let roles = map fst (sort_key snd timeline);
               userTurns = length (filter (\<lambda>r. r = RoleUser) roles);
               assistantTurns = length (filter (\<lambda>r. r \<noteq> RoleUser) roles)
           in if userTurns \<ge> 3 \<and> assistantTurns \<ge> 3 \<and> alternations roles \<ge> 6
              then Some (HighTurnRate (length timeline)) else None)"

definition detectShortAckTail :: "sample list \<Rightarrow> loop_reason option" where
  "detectShortAckTail inb =
     (let tail = take_last 2 inb
      in if length tail < 2 then None
         else if \<forall>s \<in> set tail. isShortAckOrClosure (sm_text s) then Some ShortAckTail else None)"

definition detectRepeatedOutbound :: "sample list \<Rightarrow> loop_reason option" where
  "detectRepeatedOutbound outb =
     (let recent = take_last 3 outb
      in if length recent < 2 then None
         else
           let lst = last recent;
               previous = butlast recent;
               exact = length (filter (\<lambda>s. sm_normalized s = sm_normalized lst) previous);
               similar = length (filter (\<lambda>s. areOutboundTextsHighlySimilar (sm_normalized s) (sm_normalized lst)) previous)
           in if exact \<ge> 1 \<or> (length recent \<ge> 3 \<and> similar \<ge> 2) then Some RepeatedOutbound else None)"

definition evaluateLoopRisk :: "string option \<Rightarrow> int \<Rightarrow> loop_state \<Rightarrow> loop_reason list \<times> loop_state" where
  "evaluateLoopRisk session now st =
     (case session of
        None \<Rightarrow> ([], st)
      | Some key \<Rightarrow>
          if key = [] then ([], st)
          else
            let (inb, im) = prune (inboundBySession st) key now;
                (outb, om) = prune (outboundBySession st) key now
            in (List.map_filter (\<lambda>r. r) [detectHighTurnRate inb outb now, detectShortAckTail inb, detectRepeatedOutbound outb],
                st\<lparr>inboundBySession := im, outboundBySession := om\<rparr>))"

definition reason_summary :: "loop_reason \<Rightarrow> string" where
  "reason_summary r =
     (case r of
        HighTurnRate n \<Rightarrow> ''same session shows '' @ nat_str n @ '' user/assistant turns within 120s''
      | ShortAckTail \<Rightarrow> ''the last two inbound user messages are short acknowledgements or closure phrases''
      | RepeatedOutbound \<Rightarrow> ''recent outbound texts in this session are highly similar'')"

definition buildLoopRiskPrompt :: "string option \<Rightarrow> int \<Rightarrow> loop_state \<Rightarrow> string option \<times> loop_state" where
  "buildLoopRiskPrompt session now st =
     (let (reasons, st') = evaluateLoopRisk session now st
      in (if length reasons = 0 then None
          else Some (join [CHR 0x0A]
            ([''[BotCord loop-risk check]'', ''Observed signals:''] @ map (\<lambda>r. ''- '' @ reason_summary r) reasons @
             [[], ''Before sending any BotCord reply, verify that it adds new information, concrete progress, a blocking question, or a final result/error.'',
              ''If it does not, reply with exactly '' @ [CHR 0x22] @ ''NO_REPLY'' @ [CHR 0x22] @ '' and nothing else.'',
              ''Do not send courtesy-only acknowledgements or mirrored sign-offs.''])), st'))"

section \<open>The sample store\<close>

text \<open>Every tracked list is non-empty, at most six samples long, and holds only samples with text.\<close>

definition samples_ok :: "sample_map \<Rightarrow> bool" where
  "samples_ok m \<longleftrightarrow>
     (\<forall>k xs. m k = Some xs \<longrightarrow> xs \<noteq> [] \<and> length xs \<le> MAX_TRACKED_PER_SIDE \<and> (\<forall>s \<in> set xs. sm_normalized s \<noteq> []))"

definition loop_inv :: "loop_state \<Rightarrow> bool" where
  "loop_inv st \<longleftrightarrow> samples_ok (inboundBySession st) \<and> samples_ok (outboundBySession st)"

lemma samples_ok_prune [inv_intros]:
  assumes "samples_ok m" shows "samples_ok (snd (prune m k now))"
proof -
  have "length (filter P xs) \<le> 6" if "m k = Some xs" for P xs
  proof -
    have "length xs \<le> 6" using assms that by (simp add: samples_ok_def MAX_TRACKED_PER_SIDE_def)
    then show ?thesis by (rule le_trans[OF length_filter_le])
  qed
  with assms show ?thesis
    by (auto simp: prune_def samples_ok_def Let_def MAX_TRACKED_PER_SIDE_def split: option.splits)
qed

lemma samples_ok_record [inv_intros]:
  assumes "samples_ok m" "sm_normalized s \<noteq> []" shows "samples_ok (record_sample m k s)"
proof -
  obtain kept m' where p: "prune m k (sm_timestamp s) = (kept, m')" by (cases "prune m k (sm_timestamp s)")
  have ok: "samples_ok m'" using samples_ok_prune[OF assms(1), of k "sm_timestamp s"] p by simp
  have kept: "\<forall>x \<in> set kept. sm_normalized x \<noteq> []"
    using p assms(1) by (auto simp: prune_def samples_ok_def Let_def split: option.splits if_splits)
  let ?n = "take_last 6 (kept @ [s])"
  have "?n \<noteq> []" by (simp add: take_last_snoc)
  moreover have "\<forall>x \<in> set ?n. sm_normalized x \<noteq> []"
    using kept assms(2) set_take_last[of 6 "kept @ [s]"] by auto
  ultimately show ?thesis using ok
    by (auto simp: record_sample_def p samples_ok_def MAX_TRACKED_PER_SIDE_def)
qed

lemma text_sample_normalized: "text_sample k t ts = Some (key, s) \<Longrightarrow> sm_normalized s \<noteq> [] \<and> sm_timestamp s = ts"
  by (auto simp: text_sample_def Let_def split: if_splits)

inductive loop_reachable :: "loop_state \<Rightarrow> bool" where
  lr_empty: "loop_reachable \<lparr>inboundBySession = \<lambda>_. None, outboundBySession = \<lambda>_. None\<rparr>"
| lr_inbound: "loop_reachable st \<Longrightarrow> loop_reachable (recordInboundText k t ts st)"
| lr_outbound: "loop_reachable st \<Longrightarrow> loop_reachable (recordOutboundText k t ts st)"
| lr_clear: "loop_reachable st \<Longrightarrow> loop_reachable (clearLoopRiskSession k st)"
| lr_evaluate: "loop_reachable st \<Longrightarrow> loop_reachable (snd (evaluateLoopRisk k now st))"

text \<open>The guard's memory stays bounded: in every reachable state each session keeps at most six
  inbound and six outbound samples, an empty session is not kept at all, and every kept sample has text
  left after normalization.\<close>

theorem loop_memory_bounded:
  assumes "loop_reachable st"
  shows "loop_inv st"
  using assms
proof (induction rule: loop_reachable.induct)
  case lr_empty
  then show ?case by (simp add: loop_inv_def samples_ok_def)
next
  case (lr_inbound st k t ts)
  then show ?case
    by (auto simp: recordInboundText_def loop_inv_def dest: text_sample_normalized intro!: samples_ok_record split: option.splits)
next
  case (lr_outbound st k t ts)
  then show ?case
    by (auto simp: recordOutboundText_def loop_inv_def dest: text_sample_normalized intro!: samples_ok_record split: option.splits)
next
  case (lr_clear st k)
  then show ?case by (auto simp: clearLoopRiskSession_def loop_inv_def samples_ok_def split: option.splits)
next
  case (lr_evaluate st k now)
  then show ?case using samples_ok_prune
    by (auto simp: evaluateLoopRisk_def loop_inv_def Let_def split_beta split: option.splits)
qed

theorem loop_memory_bounded_witness:
  "loop_inv (recordOutboundText (Some ''ag_1:rm_1:'') (JStr ''done'') 5
     \<lparr>inboundBySession = \<lambda>_. None, outboundBySession = \<lambda>_. None\<rparr>)"
  by (rule loop_memory_bounded) (intro lr_outbound lr_empty)

section \<open>Detection\<close>

lemma detectRepeatedOutbound_tail:
  assumes "sm_normalized a = sm_normalized b"
  shows "detectRepeatedOutbound (ys @ [a, b]) = Some RepeatedOutbound"
proof -
  have "take_last 3 (ys @ [a, b]) = take_last 1 ys @ [a, b]"
    using take_last_snoc[of 3 "ys @ [a]" b] take_last_snoc[of 2 ys a] by simp
  with assms show ?thesis by (simp add: detectRepeatedOutbound_def butlast_append)
qed

lemma record_sample_tail: "\<exists>ys. record_sample m k s k = Some (ys @ [s]) \<and>
    (\<forall>x zs. m k = Some (zs @ [x]) \<and> sm_timestamp s - sm_timestamp x \<le> SAMPLE_MAX_AGE_MS \<longrightarrow> (\<exists>ws. ys = ws @ [x]))"
proof -
  obtain kept m' where p: "prune m k (sm_timestamp s) = (kept, m')" by (cases "prune m k (sm_timestamp s)")
  let ?ys = "take_last 5 kept"
  have r: "record_sample m k s k = Some (?ys @ [s])"
    using take_last_snoc[of 6 kept s] by (simp add: record_sample_def p MAX_TRACKED_PER_SIDE_def)
  have "\<exists>ws. ?ys = ws @ [x]"
    if "m k = Some (zs @ [x])" "sm_timestamp s - sm_timestamp x \<le> SAMPLE_MAX_AGE_MS" for x zs
  proof -
    from p that obtain vs where "kept = vs @ [x]" by (auto simp: prune_def Let_def split: if_splits)
    then show ?thesis using take_last_snoc[of 5 vs x] by simp
  qed
  with r show ?thesis by blast
qed

text \<open>A reply sent twice is noticed: after two outbound texts in a session that normalize to the
  same text, neither older than ten minutes when the risk is evaluated, the evaluation reports repeated
  output, whatever the state before.\<close>

theorem repeated_reply_flagged:
  assumes "text_sample (Some key) t1 ts1 = Some (key, s1)" and "text_sample (Some key) t2 ts2 = Some (key, s2)"
    and "sm_normalized s1 = sm_normalized s2" and "ts1 \<le> ts2" and "now - ts1 \<le> SAMPLE_MAX_AGE_MS" and "ts2 \<le> now"
  shows "RepeatedOutbound \<in> set (fst (evaluateLoopRisk (Some key) now
    (recordOutboundText (Some key) t2 ts2 (recordOutboundText (Some key) t1 ts1 st))))"
proof -
  let ?m1 = "record_sample (outboundBySession st) key s1"
  have key: "key \<noteq> []" using assms(1) by (auto simp: text_sample_def Let_def split: if_splits)
  have ts: "sm_timestamp s1 = ts1" "sm_timestamp s2 = ts2" using assms(1,2) text_sample_normalized by blast+
  from record_sample_tail[of "outboundBySession st" key s1] obtain zs where "?m1 key = Some (zs @ [s1])" by blast
  with record_sample_tail[of ?m1 key s2] ts assms(4-6)
  obtain ws where out: "record_sample ?m1 key s2 key = Some (ws @ [s1, s2])" by fastforce
  have "fst (prune (record_sample ?m1 key s2) key now) = filter (\<lambda>s. now - sm_timestamp s \<le> SAMPLE_MAX_AGE_MS) ws @ [s1, s2]"
    using ts assms(4-6) by (simp add: prune_def out Let_def)
  with detectRepeatedOutbound_tail[OF assms(3)] show ?thesis
    using assms(1,2) key by (auto simp: evaluateLoopRisk_def recordOutboundText_def Let_def split_beta split: option.splits)
qed

theorem repeated_reply_flagged_witness:
  "RepeatedOutbound \<in> set (fst (evaluateLoopRisk (Some ''k'') 9
    (recordOutboundText (Some ''k'') (JStr ''done!'') 7 (recordOutboundText (Some ''k'') (JStr ''Done'') 5
      \<lparr>inboundBySession = \<lambda>_. None, outboundBySession = \<lambda>_. None\<rparr>))))"
proof -
  have n: "normalizeLoopText ''Done'' = ''done''" "normalizeLoopText ''done!'' = ''done''" by code_simp+
  have t: "trim ''k'' = ''k''" "trim ''Done'' = ''Done''" "trim ''done!'' = ''done!''" by code_simp+
  show ?thesis
    by (rule repeated_reply_flagged[where ?s1.0 = "\<lparr>sm_text = ''Done'', sm_normalized = ''done'', sm_timestamp = 5\<rparr>"
          and ?s2.0 = "\<lparr>sm_text = ''done!'', sm_normalized = ''done'', sm_timestamp = 7\<rparr>"])
      (simp_all add: text_sample_def n t SAMPLE_MAX_AGE_MS_def)
qed

text \<open>Similarity is a symmetric fraction between zero and one that is one on equal non-empty texts.\<close>

theorem jaccard_bounds:
  "0 \<le> jaccardSimilarity a b \<and> jaccardSimilarity a b \<le> 1 \<and> jaccardSimilarity a b = jaccardSimilarity b a \<and>
   (a \<noteq> [] \<longrightarrow> jaccardSimilarity a a = 1)"
proof -
  have fin: "finite (trigramSet t)" for t by (simp add: trigramSet_def)
  have le: "card (trigramSet x \<inter> trigramSet y) \<le> card (trigramSet x) + card (trigramSet y) - card (trigramSet x \<inter> trigramSet y)" for x y
    using card_mono[OF fin[of x], of "trigramSet x \<inter> trigramSet y"] card_mono[OF fin[of y], of "trigramSet x \<inter> trigramSet y"] by auto
  have frac: "of_nat m / of_nat n \<le> (1 :: rat)" if "m \<le> n" for m n :: nat
    using that by (cases "n = 0") (simp_all add: divide_le_eq_1)
  define u where "u = card (trigramSet a) + card (trigramSet b) - card (trigramSet a \<inter> trigramSet b)"
  have "jaccardSimilarity a b = (if a = [] \<or> b = [] then 0 else if a = b then 1
      else if u = 0 then 0 else of_nat (card (trigramSet a \<inter> trigramSet b)) / of_nat u)"
    by (simp only: jaccardSimilarity_def u_def Let_def)
  moreover have "card (trigramSet a \<inter> trigramSet b) \<le> u" using le[of a b] by (simp only: u_def)
  ultimately have "0 \<le> jaccardSimilarity a b \<and> jaccardSimilarity a b \<le> 1" using frac by simp
  moreover have "jaccardSimilarity a b = jaccardSimilarity b a"
    by (simp only: jaccardSimilarity_def Let_def Int_commute add.commute disj_commute eq_commute)
  ultimately show ?thesis by (simp add: jaccardSimilarity_def)
qed

theorem jaccard_bounds_witness: "jaccardSimilarity ''abc'' ''abc'' = 1"
  using jaccard_bounds[of "''abc''" "''abc''"] by simp

end
