(* ===== verification/Batching.thy ===== *)
theory Batching
  imports Execution_Policy Response_Protocol
begin

text \<open>
  What the dispatcher does to messages before a turn: channel and room predicates, the test for
  arrivals that only carry files, the deferral of those, and the merge of several buffered arrivals
  into one turn (\<open>deferMultimodal\<close>, \<open>takeDeferredMultimodal\<close>, \<open>mergeSerialBuffer\<close>, \<open>recomposeUserTurn\<close> and
  the predicates at the end of \<open>daemon/src/gateway/dispatcher.ts\<close>).

  The user-turn composer is a parameter; \<open>Inl\<close> is a composer that throws. \<open>raw\<close> is an object,
  \<open>null\<close> or absent, as the casts of the code say.
\<close>

section \<open>Channels and rooms\<close>

record channel_adapter =
  ch_id :: string
  ch_type :: string
  ch_responseRun :: bool
  ch_streamBlock :: bool
  ch_streamEnd :: bool
  ch_typing :: bool
  ch_messageStatus :: bool

definition isOwnerChatRoom :: "inbound_message \<Rightarrow> bool" where
  "isOwnerChatRoom msg =
     (if startsWith (c_id (m_conversation msg)) ''rm_oc_'' then True
      else is_object (m_raw msg) \<and> get_prop (m_raw msg) ''source_type'' = JStr ''dashboard_user_chat'')"

definition isBotCordChannel :: "channel_adapter \<Rightarrow> bool" where
  "isBotCordChannel channel \<longleftrightarrow> ch_type channel = ''botcord'' \<or> ch_id channel = ''botcord''"

definition isContactRequest :: "inbound_message \<Rightarrow> bool" where
  "isContactRequest msg \<longleftrightarrow> get_prop (get_prop (m_raw msg) ''envelope'') ''type'' = JStr ''contact_request''"

record user_turn_context =
  utc_restricted :: bool
  utc_automaticReply :: bool
  utc_collaborator :: "string list option"

definition userTurnContext :: "inbound_message \<Rightarrow> gateway_route \<Rightarrow> channel_adapter \<Rightarrow> user_turn_context" where
  "userTurnContext msg route channel =
     (case resolveTurnExecution msg route (isBotCordChannel channel) of
        ExCollaborator g \<Rightarrow>
          \<lparr>utc_restricted = True, utc_automaticReply = False, utc_collaborator = Some (g_allowedCommands g)\<rparr>
      | ex \<Rightarrow>
          \<lparr>utc_restricted = (ex \<noteq> ExDefault),
           utc_automaticReply = (isBotCordChannel channel \<and> isTeamConversation msg \<and> \<not> isContactRequest msg),
           utc_collaborator = None\<rparr>)"

section \<open>Files without text\<close>

lemma size_get_prop_arr:
  assumes "get_prop v k = JArr xs" "x \<in> set xs"
  shows "size x < size v"
proof (cases v)
  case (JObj ps)
  with assms(1) have mem: "(k, JArr xs) \<in> set ps" by (auto simp: get_prop_def dest: map_of_SomeD split: option.splits)
  have "size x \<le> size_list size xs" by (rule size_list_estimation'[OF assms(2)]) simp
  moreover have "size_list size xs \<le> size_list (size_prod (\<lambda>x. 0) size) ps"
    by (rule size_list_estimation'[OF mem]) simp
  ultimately show ?thesis using JObj by simp
qed (use assms in auto)

definition nonblank :: "jsval \<Rightarrow> bool" where
  "nonblank v = (case v of JStr s \<Rightarrow> length (trim s) > 0 | _ \<Rightarrow> False)"

text \<open>An entry that is not a batch.\<close>

definition authored_single :: "jsval \<Rightarrow> bool" where
  "authored_single obj =
     (if nonblank (get_prop obj ''text'') \<and> \<not> is_object (get_prop obj ''envelope'') then True
      else
        let payload = get_prop (get_prop obj ''envelope'') ''payload''
        in if truthy payload then
             nonblank (get_prop payload ''text'') \<or> nonblank (get_prop payload ''body'') \<or> nonblank (get_prop payload ''message'')
           else (case get_prop obj ''item_list'' of
                   JArr items \<Rightarrow>
                     (\<exists>item \<in> set items. is_object item \<and> nonblank (get_prop (get_prop item ''text_item'') ''text''))
                 | _ \<Rightarrow> nonblank (get_prop obj ''text'')))"

function hasAuthoredText :: "jsval \<Rightarrow> bool" where
  "hasAuthoredText raw =
     (if \<not> is_object raw then False
      else case as_arr (get_prop raw ''batch'') of
        Some batch \<Rightarrow> (\<exists>item \<in> set batch. hasAuthoredText item)
      | None \<Rightarrow> authored_single raw)"
  by pat_completeness auto
termination
proof (relation "measure size", goal_cases)
  case (2 raw batch item)
  have "as_arr v = Some xs \<longleftrightarrow> v = JArr xs" for v xs by (cases v) auto
  with 2 show ?case by (auto intro: size_get_prop_arr)
qed simp

definition multimodal_single :: "jsval \<Rightarrow> bool" where
  "multimodal_single obj =
     (case get_prop (get_prop (get_prop obj ''envelope'') ''payload'') ''attachments'' of
        JArr (a # as) \<Rightarrow> True
      | _ \<Rightarrow>
          (case get_prop obj ''item_list'' of
             JArr items \<Rightarrow> (\<exists>item \<in> set items. is_object item \<and> get_prop item ''type'' \<noteq> JNum (Fin 1))
           | _ \<Rightarrow> False))"

function hasMultimodalContent :: "jsval \<Rightarrow> bool" where
  "hasMultimodalContent raw =
     (if \<not> is_object raw then False
      else case as_arr (get_prop raw ''batch'') of
        Some batch \<Rightarrow> (\<exists>item \<in> set batch. hasMultimodalContent item)
      | None \<Rightarrow> multimodal_single raw)"
  by pat_completeness auto
termination
proof (relation "measure size", goal_cases)
  case (2 raw batch item)
  have "as_arr v = Some xs \<longleftrightarrow> v = JArr xs" for v xs by (cases v) auto
  with 2 show ?case by (auto intro: size_get_prop_arr)
qed simp

declare hasAuthoredText.simps [simp del] hasMultimodalContent.simps [simp del]

definition isMultimodalOnlyMessage :: "inbound_message \<Rightarrow> bool" where
  "isMultimodalOnlyMessage msg =
     (if \<not> hasMultimodalContent (m_raw msg) then False else \<not> hasAuthoredText (m_raw msg))"

section \<open>Buffered entries\<close>

definition MAX_BATCH_BUFFER_ENTRIES :: nat where
  "MAX_BATCH_BUFFER_ENTRIES = 40"

definition MAX_BATCH_BUFFER_CHARS :: nat where
  "MAX_BATCH_BUFFER_CHARS = 16000"

record buffered_entry =
  be_route :: gateway_route
  be_msg :: inbound_message
  be_channel :: channel_adapter
  be_turnId :: string

datatype drop_reason = QueueOverflow | BatchMerged | CancelledPrevious

datatype drop_record = Dropped string drop_reason "string option"

text \<open>
  \<open>deferMultimodal\<close>: the table of deferred entries and the drop records written. The overflow loop
  shifts the oldest entries off until the cap holds.
\<close>

definition deferMultimodal ::
  "string \<Rightarrow> buffered_entry \<Rightarrow> (string \<rightharpoonup> buffered_entry list) \<Rightarrow> drop_record list \<times> (string \<rightharpoonup> buffered_entry list)" where
  "deferMultimodal queueKey entry table =
     (let lst = (case table queueKey of Some xs \<Rightarrow> xs | None \<Rightarrow> []) @ [entry];
          (dropped, kept) = shift_to_cap MAX_BATCH_BUFFER_ENTRIES lst
      in (map (\<lambda>e. Dropped (be_turnId e) QueueOverflow None) dropped, table(queueKey \<mapsto> kept)))"

definition takeDeferredMultimodal ::
  "string \<Rightarrow> (string \<rightharpoonup> buffered_entry list) \<Rightarrow> buffered_entry list \<times> (string \<rightharpoonup> buffered_entry list)" where
  "takeDeferredMultimodal queueKey table =
     (case table queueKey of
        None \<Rightarrow> ([], table)
      | Some lst \<Rightarrow> (if length lst = 0 then ([], table) else (lst, table(queueKey := None))))"

section \<open>Merging\<close>

type_synonym composer = "inbound_message \<Rightarrow> user_turn_context \<Rightarrow> string + string option"

definition raw_text :: "inbound_message \<Rightarrow> string" where
  "raw_text msg = (case m_text msg of Some t \<Rightarrow> trim t | None \<Rightarrow> [])"

definition recomposeUserTurn ::
  "composer option \<Rightarrow> inbound_message \<Rightarrow> gateway_route \<Rightarrow> channel_adapter \<Rightarrow> string" where
  "recomposeUserTurn composeUserTurn msg route channel =
     (case composeUserTurn of
        None \<Rightarrow> raw_text msg
      | Some compose \<Rightarrow>
          (case compose msg (userTurnContext msg route channel) of
             Inr (Some composed) \<Rightarrow> (if length composed > 0 then composed else raw_text msg)
           | _ \<Rightarrow> raw_text msg))"

definition entry_items :: "buffered_entry \<Rightarrow> jsval list" where
  "entry_items e =
     (let raw = m_raw (be_msg e)
      in case get_prop raw ''batch'' of
           JArr batch \<Rightarrow> batch
         | _ \<Rightarrow>
             if truthy raw then
               [if m_mentioned (be_msg e) = Some True then spread_with raw ''mentioned'' (JBool True) else raw]
             else [])"

definition item_chars :: "jsval \<Rightarrow> nat" where
  "item_chars m = (case get_prop m ''text'' of JStr s \<Rightarrow> length s | _ \<Rightarrow> 0)"

text \<open>The loop that drops the oldest items while the batch is too long and has more than one.\<close>

fun trim_items :: "jsval list \<Rightarrow> jsval list" where
  "trim_items [] = []"
| "trim_items [m] = [m]"
| "trim_items (m # m' # ms) =
     (if sum_list (map item_chars (m # m' # ms)) > MAX_BATCH_BUFFER_CHARS then trim_items (m' # ms)
      else m # m' # ms)"

record merged_turn =
  mg_route :: gateway_route
  mg_text :: string
  mg_msg :: inbound_message
  mg_channel :: channel_adapter
  mg_turnId :: string

definition merged_text :: "buffered_entry list \<Rightarrow> string" where
  "merged_text entries =
     join [CHR 0x0A] (filter (\<lambda>s. length s > 0) (map (\<lambda>e. raw_text (be_msg e)) entries))"

definition merged_msg :: "buffered_entry list \<Rightarrow> inbound_message" where
  "merged_msg entries =
     (let latest = be_msg (last entries);
          items = trim_items (concat (map entry_items entries));
          latestRaw = (if m_raw latest = JUndef \<or> m_raw latest = JNull then JObj [] else m_raw latest)
      in latest\<lparr>m_text := (if merged_text entries \<noteq> [] then Some (merged_text entries) else m_text latest),
                m_mentioned := Some (\<exists>e \<in> set entries. m_mentioned (be_msg e) = Some True),
                m_raw := spread_with latestRaw ''batch'' (JArr items)\<rparr>)"

definition mergeSerialBuffer :: "composer option \<Rightarrow> buffered_entry list \<Rightarrow> merged_turn option" where
  "mergeSerialBuffer compose entries =
     (case entries of
        [] \<Rightarrow> None
      | [only] \<Rightarrow>
          Some \<lparr>mg_route = be_route only,
                mg_text = recomposeUserTurn compose (be_msg only) (be_route only) (be_channel only),
                mg_msg = be_msg only, mg_channel = be_channel only, mg_turnId = be_turnId only\<rparr>
      | _ \<Rightarrow>
          (let latest = last entries; msg = merged_msg entries
           in Some \<lparr>mg_route = be_route latest,
                    mg_text = recomposeUserTurn compose msg (be_route latest) (be_channel latest),
                    mg_msg = msg, mg_channel = be_channel latest, mg_turnId = be_turnId latest\<rparr>))"

section \<open>What a merge keeps\<close>

lemma trim_items_suffix: "\<exists>ds. ms = ds @ trim_items ms"
proof (induction ms rule: trim_items.induct)
  case (3 m m' ms)
  then show ?case
  proof (cases "sum_list (map item_chars (m # m' # ms)) > MAX_BATCH_BUFFER_CHARS")
    case True
    with 3 obtain ds where "m' # ms = ds @ trim_items (m' # ms)" by blast
    then have "m # m' # ms = (m # ds) @ trim_items (m' # ms)" by simp
    then show ?thesis using True by (metis trim_items.simps(3))
  qed auto
qed auto

lemma trim_items_not_Nil: "ms \<noteq> [] \<Longrightarrow> trim_items ms \<noteq> []"
  by (induction ms rule: trim_items.induct) auto

lemma trim_items_fits:
  "sum_list (map item_chars (trim_items ms)) \<le> MAX_BATCH_BUFFER_CHARS \<or> length (trim_items ms) = 1"
  by (induction ms rule: trim_items.induct) (auto simp: not_less)

lemma trim_items_longest:
  assumes "ms = ds @ ks" "length (trim_items ms) < length ks"
  shows "MAX_BATCH_BUFFER_CHARS < sum_list (map item_chars ks)"
  using assms
proof (induction ms arbitrary: ds rule: trim_items.induct)
  case (2 m)
  then show ?case by (cases ds) auto
next
  case (3 m m' ms)
  show ?case
  proof (cases "sum_list (map item_chars (m # m' # ms)) > MAX_BATCH_BUFFER_CHARS")
    case True
    show ?thesis
    proof (cases ds)
      case Nil
      with 3 True show ?thesis by auto
    next
      case (Cons d ds')
      with 3(2) have "m' # ms = ds' @ ks" by simp
      moreover have "length (trim_items (m' # ms)) < length ks" using 3(3) True by simp
      ultimately show ?thesis using 3(1)[OF True] by blast
    qed
  next
    case False
    then have "trim_items (m # m' # ms) = m # m' # ms" by simp
    with 3(3) have "length (m # m' # ms) < length ks" by (simp only:)
    moreover have "length ks \<le> length (m # m' # ms)" using arg_cong[OF 3(2), of length] by simp
    ultimately show ?thesis by (rule less_le_not_le[THEN iffD1, THEN conjunct2, THEN notE])
  qed
qed auto

text \<open>A merge keeps the newest messages within the character cap: the batch of the merged message is
  a suffix of the arrivals' items in order, ends with the newest item, fits the cap unless it is that
  one item, and is the longest suffix that does.\<close>

theorem merged_batch_newest_within_cap:
  assumes "length entries \<ge> 2" and "mergeSerialBuffer compose entries = Some t"
  shows "\<exists>items. get_prop (m_raw (mg_msg t)) ''batch'' = JArr items \<and>
    (\<exists>dropped. concat (map entry_items entries) = dropped @ items) \<and>
    (concat (map entry_items entries) \<noteq> [] \<longrightarrow> items \<noteq> [] \<and> last items = last (concat (map entry_items entries))) \<and>
    (sum_list (map item_chars items) \<le> MAX_BATCH_BUFFER_CHARS \<or> length items = 1) \<and>
    (\<forall>more kept. concat (map entry_items entries) = more @ kept \<and> length items < length kept \<longrightarrow>
       MAX_BATCH_BUFFER_CHARS < sum_list (map item_chars kept))"
proof -
  let ?all = "concat (map entry_items entries)"
  let ?items = "trim_items ?all"
  from assms have m: "mg_msg t = merged_msg entries"
    by (auto simp: mergeSerialBuffer_def Let_def split: list.splits)
  have b: "get_prop (m_raw (mg_msg t)) ''batch'' = JArr ?items" by (simp add: m merged_msg_def Let_def)
  obtain ds where ds: "?all = ds @ ?items" using trim_items_suffix by blast
  have "?all \<noteq> [] \<Longrightarrow> ?items \<noteq> [] \<and> last ?items = last ?all"
    using trim_items_not_Nil[of ?all] ds by (metis last_appendR)
  moreover have "\<forall>more kept. ?all = more @ kept \<and> length ?items < length kept \<longrightarrow>
      MAX_BATCH_BUFFER_CHARS < sum_list (map item_chars kept)"
    using trim_items_longest by blast
  ultimately show ?thesis using b ds trim_items_fits[of ?all] by (intro exI[of _ ?items]) auto
qed

definition example_channel :: channel_adapter where
  "example_channel = \<lparr>ch_id = ''botcord'', ch_type = ''botcord'', ch_responseRun = False, ch_streamBlock = False,
     ch_streamEnd = False, ch_typing = False, ch_messageStatus = False\<rparr>"

definition example_buffered :: "string \<Rightarrow> string \<Rightarrow> buffered_entry" where
  "example_buffered i t = \<lparr>be_route = plain_route ''codex'',
     be_msg = example_msg\<lparr>m_id := i, m_text := Some t, m_raw := JObj [(''text'', JStr t)]\<rparr>,
     be_channel = example_channel, be_turnId = i\<rparr>"

theorem merged_batch_newest_within_cap_witness:
  "\<exists>t items. mergeSerialBuffer None [example_buffered ''a'' ''one'', example_buffered ''b'' ''two''] = Some t \<and>
     get_prop (m_raw (mg_msg t)) ''batch'' = JArr items \<and> items \<noteq> []"
proof -
  let ?es = "[example_buffered ''a'' ''one'', example_buffered ''b'' ''two'']"
  obtain t where t: "mergeSerialBuffer None ?es = Some t" by (simp add: mergeSerialBuffer_def Let_def)
  have "concat (map entry_items ?es) \<noteq> []"
    by (simp add: entry_items_def example_buffered_def Let_def)
  with merged_batch_newest_within_cap[OF _ t] t show ?thesis by force
qed

text \<open>A merged turn is anchored on its newest arrival and loses no text of the others: turn, route,
  channel and conversation are those of the last entry, the message text is the non-blank texts of all
  entries in order, one per line, and it is mentioned when any entry is.\<close>

theorem merged_turn_anchored:
  assumes "length entries \<ge> 2" and "mergeSerialBuffer compose entries = Some t"
  shows "mg_turnId t = be_turnId (last entries) \<and> mg_route t = be_route (last entries) \<and>
    mg_channel t = be_channel (last entries) \<and> m_conversation (mg_msg t) = m_conversation (be_msg (last entries)) \<and>
    m_id (mg_msg t) = m_id (be_msg (last entries)) \<and>
    (merged_text entries \<noteq> [] \<longrightarrow> m_text (mg_msg t) = Some (merged_text entries)) \<and>
    (m_mentioned (mg_msg t) = Some True \<longleftrightarrow> (\<exists>e \<in> set entries. m_mentioned (be_msg e) = Some True))"
  using assms by (auto simp: mergeSerialBuffer_def merged_msg_def Let_def split: list.splits)

theorem merged_turn_anchored_witness:
  "\<exists>t. mergeSerialBuffer None [example_buffered ''a'' ''one'', example_buffered ''b'' ''two''] = Some t \<and> mg_turnId t = ''b''"
proof -
  let ?es = "[example_buffered ''a'' ''one'', example_buffered ''b'' ''two'']"
  obtain t where t: "mergeSerialBuffer None ?es = Some t" by (simp add: mergeSerialBuffer_def Let_def)
  with merged_turn_anchored[OF _ t] show ?thesis by (simp add: example_buffered_def)
qed

text \<open>Deferred file-only arrivals are kept newest first to go: a queue holds at most forty, the
  oldest are dropped with an overflow record each and nothing else is, other queues are untouched, and
  taking them empties the queue.\<close>

theorem defer_keeps_newest:
  assumes "deferMultimodal key entry table = (drops, table')"
  shows "(let before = (case table key of Some xs \<Rightarrow> xs | None \<Rightarrow> []) @ [entry]
     in fst (takeDeferredMultimodal key table') = take_last MAX_BATCH_BUFFER_ENTRIES before \<and>
        drops = map (\<lambda>e. Dropped (be_turnId e) QueueOverflow None) (take (length before - MAX_BATCH_BUFFER_ENTRIES) before)) \<and>
     snd (takeDeferredMultimodal key table') key = None \<and>
     (\<forall>other. other \<noteq> key \<longrightarrow> table' other = table other)"
proof -
  define before where "before = (case table key of Some xs \<Rightarrow> xs | None \<Rightarrow> []) @ [entry]"
  have d: "drops = map (\<lambda>e. Dropped (be_turnId e) QueueOverflow None) (take (length before - MAX_BATCH_BUFFER_ENTRIES) before)"
    and t: "table' = table(key \<mapsto> take_last MAX_BATCH_BUFFER_ENTRIES before)"
    using assms by (auto simp: deferMultimodal_def before_def shift_to_cap_eq Let_def)
  have "length (take_last MAX_BATCH_BUFFER_ENTRIES before) \<noteq> 0"
    by (simp add: before_def MAX_BATCH_BUFFER_ENTRIES_def)
  with d t show ?thesis by (simp add: takeDeferredMultimodal_def before_def Let_def)
qed

theorem defer_keeps_newest_witness:
  "fst (takeDeferredMultimodal ''q'' (snd (deferMultimodal ''q'' (example_buffered ''a'' ''x'') (\<lambda>_. None)))) = [example_buffered ''a'' ''x'']"
proof -
  obtain d t where dt: "deferMultimodal ''q'' (example_buffered ''a'' ''x'') (\<lambda>_. None) = (d, t)" by fastforce
  with defer_keeps_newest[OF dt] show ?thesis by (simp add: take_last_def Let_def MAX_BATCH_BUFFER_ENTRIES_def)
qed

end
