(* ===== verification/Turn_Queue.thy ===== *)
theory Turn_Queue
  imports Batching "HOL-Library.Sublist" "HOL-Library.Multiset"
begin

text \<open>
  The two queue disciplines of the dispatcher as step relations over one queue:
  \<open>runSerial\<close> (arrivals are buffered, one worker drains the buffer and merges it into one turn) and
  \<open>runCancelPrevious\<close> (a new arrival aborts the running turn and waits for its teardown; a generation
  counter lets only the newest arrival run).

  A step is the code between two awaits, or a part of it, so every interleaving of the
  event loop is a sequence of steps; the turn itself is the pair of a starting and an ending step.
  Turn identifiers are random UUIDs: an arrival's identifier is new.
\<close>

section \<open>Serial queues\<close>

text \<open>
  \<open>sq_trimming\<close> holds the arrivals between their push and their test of \<open>serialWorkerActive\<close>, each
  with the turn ids already merged into it; \<open>sq_running\<close> the drained batches whose turn is running.
  \<open>sq_arrived\<close>, \<open>sq_ran\<close>, \<open>sq_settled\<close> and \<open>sq_trace\<close> record what happened: \<open>sq_settled\<close> the completions
  with whether they were resolved.
\<close>

datatype serial_effect =
    FxDropped drop_record
  | FxSettle string
  | FxRunTurn merged_turn "string list"

record serial_queue =
  sq_buffer :: "buffered_entry list"
  sq_trimming :: "(buffered_entry \<times> string list) list"
  sq_active :: bool
  sq_pendingMerged :: "string list"
  sq_running :: "buffered_entry list list"
  sq_arrived :: "buffered_entry list"
  sq_ran :: "buffered_entry list list"
  sq_settled :: "(buffered_entry \<times> bool) list"
  sq_trace :: "serial_effect list"

definition empty_serial :: serial_queue where
  "empty_serial = \<lparr>sq_buffer = [], sq_trimming = [], sq_active = False, sq_pendingMerged = [], sq_running = [],
     sq_arrived = [], sq_ran = [], sq_settled = [], sq_trace = []\<rparr>"

text \<open>Push of an arrival.\<close>

definition serial_push :: "buffered_entry \<Rightarrow> string list \<Rightarrow> serial_queue \<Rightarrow> serial_queue" where
  "serial_push e merged q =
     q\<lparr>sq_buffer := sq_buffer q @ [e], sq_trimming := sq_trimming q @ [(e, merged)], sq_arrived := sq_arrived q @ [e]\<rparr>"

text \<open>One turn of the overflow loop.\<close>

definition serial_overflow :: "serial_queue \<Rightarrow> serial_queue" where
  "serial_overflow q =
     (case sq_buffer q of
        [] \<Rightarrow> q
      | d # rest \<Rightarrow>
          q\<lparr>sq_buffer := rest, sq_settled := sq_settled q @ [(d, True)],
            sq_trace := sq_trace q @ [FxDropped (Dropped (be_turnId d) QueueOverflow None), FxSettle (be_turnId d)]\<rparr>)"

text \<open>The arrival finds the worker idle and becomes it, or leaves its entry to the worker.\<close>

definition serial_enter :: "buffered_entry \<times> string list \<Rightarrow> serial_queue \<Rightarrow> serial_queue" where
  "serial_enter a q =
     (if \<not> sq_active q
      then q\<lparr>sq_trimming := remove1 a (sq_trimming q), sq_active := True, sq_pendingMerged := snd a\<rparr>
      else q\<lparr>sq_trimming := remove1 a (sq_trimming q)\<rparr>)"

text \<open>The worker drains the buffer, records the merged entries and starts the turn.\<close>

definition serial_drain :: "composer option \<Rightarrow> serial_queue \<Rightarrow> serial_queue" where
  "serial_drain compose q =
     (let drained = sq_buffer q
      in case mergeSerialBuffer compose drained of
           None \<Rightarrow> q\<lparr>sq_buffer := [], sq_settled := sq_settled q @ map (\<lambda>e. (e, True)) drained\<rparr>
         | Some merged \<Rightarrow>
             q\<lparr>sq_buffer := [], sq_pendingMerged := [], sq_running := sq_running q @ [drained],
               sq_trace := sq_trace q @
                 map (\<lambda>e. FxDropped (Dropped (be_turnId e) BatchMerged (Some (mg_turnId merged)))) (butlast drained) @
                 [FxRunTurn merged (sq_pendingMerged q @ map be_turnId (butlast drained))]\<rparr>)"

definition serial_done :: "serial_queue \<Rightarrow> serial_queue" where
  "serial_done q =
     (case sq_running q of
        [] \<Rightarrow> q
      | b # bs \<Rightarrow> q\<lparr>sq_running := bs, sq_ran := sq_ran q @ [b], sq_settled := sq_settled q @ map (\<lambda>e. (e, True)) b\<rparr>)"

text \<open>The turn fails unexpectedly: the batch and everything still buffered is rejected.\<close>

definition serial_fail :: "serial_queue \<Rightarrow> serial_queue" where
  "serial_fail q =
     (case sq_running q of
        [] \<Rightarrow> q
      | b # bs \<Rightarrow>
          q\<lparr>sq_running := bs, sq_ran := sq_ran q @ [b], sq_buffer := [], sq_active := False,
            sq_settled := sq_settled q @ map (\<lambda>e. (e, False)) (b @ sq_buffer q)\<rparr>)"

inductive serial_internal :: "composer option \<Rightarrow> serial_queue \<Rightarrow> serial_queue \<Rightarrow> bool" for compose where
  si_overflow: "sq_trimming q \<noteq> [] \<Longrightarrow> length (sq_buffer q) > MAX_BATCH_BUFFER_ENTRIES \<Longrightarrow>
    serial_internal compose q (serial_overflow q)"
| si_enter: "a \<in> set (sq_trimming q) \<Longrightarrow> length (sq_buffer q) \<le> MAX_BATCH_BUFFER_ENTRIES \<Longrightarrow>
    serial_internal compose q (serial_enter a q)"
| si_drain: "sq_active q \<Longrightarrow> sq_running q = [] \<Longrightarrow> sq_buffer q \<noteq> [] \<Longrightarrow>
    serial_internal compose q (serial_drain compose q)"
| si_done: "sq_running q \<noteq> [] \<Longrightarrow> serial_internal compose q (serial_done q)"
| si_fail: "sq_running q \<noteq> [] \<Longrightarrow> serial_internal compose q (serial_fail q)"
| si_exit: "sq_active q \<Longrightarrow> sq_running q = [] \<Longrightarrow> sq_buffer q = [] \<Longrightarrow>
    serial_internal compose q (q\<lparr>sq_active := False\<rparr>)"

inductive_cases serial_internalE: "serial_internal compose q q'"

inductive serial_reachable :: "composer option \<Rightarrow> serial_queue \<Rightarrow> bool" for compose where
  sr_empty: "serial_reachable compose empty_serial"
| sr_arrive: "serial_reachable compose q \<Longrightarrow> be_turnId e \<notin> be_turnId ` set (sq_arrived q) \<Longrightarrow>
    serial_reachable compose (serial_push e merged q)"
| sr_step: "serial_reachable compose q \<Longrightarrow> serial_internal compose q q' \<Longrightarrow> serial_reachable compose q'"

subsection \<open>Invariants\<close>

definition serial_inv :: "serial_queue \<Rightarrow> bool" where
  "serial_inv q \<longleftrightarrow>
     length (sq_running q) \<le> 1 \<and>
     (sq_running q \<noteq> [] \<longrightarrow> sq_active q) \<and>
     (sq_buffer q \<noteq> [] \<longrightarrow> sq_active q \<or> sq_trimming q \<noteq> []) \<and>
     length (sq_buffer q) \<le> MAX_BATCH_BUFFER_ENTRIES + length (sq_trimming q) \<and>
     mset (sq_arrived q) = mset (sq_buffer q) + mset (concat (sq_running q)) + mset (map fst (sq_settled q)) \<and>
     distinct (map be_turnId (sq_arrived q)) \<and>
     subseq (concat (sq_ran q @ sq_running q) @ sq_buffer q) (sq_arrived q)"

lemma merge_not_None [simp]: "entries \<noteq> [] \<Longrightarrow> mergeSerialBuffer compose entries \<noteq> None"
  by (auto simp: mergeSerialBuffer_def Let_def split: list.splits)

lemma running_single: "length xs \<le> 1 \<Longrightarrow> xs \<noteq> [] \<Longrightarrow> \<exists>b. xs = [b]"
  by (cases xs) auto

lemma subseq_drop_middle: "subseq (xs @ y # ys) zs \<Longrightarrow> subseq (xs @ ys) zs"
  by (meson subseq_order.trans subseq_append_iff subseq_Cons' list_emb_append_mono subseq_order.refl)

lemma serial_inv_push:
  assumes "serial_inv q" "be_turnId e \<notin> be_turnId ` set (sq_arrived q)"
  shows "serial_inv (serial_push e merged q)"
proof -
  have "subseq ((concat (sq_ran q @ sq_running q) @ sq_buffer q) @ [e]) (sq_arrived q @ [e])"
    using assms(1) by (intro list_emb_append_mono) (auto simp: serial_inv_def)
  with assms show ?thesis by (auto simp: serial_inv_def serial_push_def)
qed

lemma serial_inv_overflow:
  assumes "serial_inv q" "sq_trimming q \<noteq> []" "length (sq_buffer q) > MAX_BATCH_BUFFER_ENTRIES"
  shows "serial_inv (serial_overflow q)"
proof -
  obtain d rest where b: "sq_buffer q = d # rest" using assms(3) by (cases "sq_buffer q") auto
  have "subseq (concat (sq_ran q @ sq_running q) @ d # rest) (sq_arrived q)"
    using assms(1) b by (simp add: serial_inv_def)
  then have "subseq (concat (sq_ran q @ sq_running q) @ rest) (sq_arrived q)" by (rule subseq_drop_middle)
  with assms b show ?thesis by (auto simp: serial_inv_def serial_overflow_def)
qed

lemma serial_inv_enter:
  assumes "serial_inv q" "a \<in> set (sq_trimming q)" "length (sq_buffer q) \<le> MAX_BATCH_BUFFER_ENTRIES"
  shows "serial_inv (serial_enter a q)"
  using assms by (auto simp: serial_inv_def serial_enter_def)

lemma serial_inv_drain:
  assumes "serial_inv q" "sq_active q" "sq_running q = []" "sq_buffer q \<noteq> []"
  shows "serial_inv (serial_drain compose q)"
proof -
  obtain m where "mergeSerialBuffer compose (sq_buffer q) = Some m" using assms(4) by fastforce
  with assms show ?thesis by (auto simp: serial_inv_def serial_drain_def Let_def)
qed

lemma serial_inv_done:
  assumes "serial_inv q" "sq_running q \<noteq> []"
  shows "serial_inv (serial_done q)"
proof -
  obtain b where b: "sq_running q = [b]" using assms running_single unfolding serial_inv_def by blast
  with assms show ?thesis by (auto simp: serial_inv_def serial_done_def comp_def)
qed

lemma serial_inv_fail:
  assumes "serial_inv q" "sq_running q \<noteq> []"
  shows "serial_inv (serial_fail q)"
proof -
  obtain b where b: "sq_running q = [b]" using assms running_single unfolding serial_inv_def by blast
  have "subseq (concat (sq_ran q @ sq_running q) @ []) (concat (sq_ran q @ sq_running q) @ sq_buffer q)"
    by (rule list_emb_append_mono) simp_all
  then have "subseq (concat (sq_ran q) @ b) (sq_arrived q)"
    using assms(1) b by (auto simp: serial_inv_def dest: subseq_order.trans)
  with assms b show ?thesis by (auto simp: serial_inv_def serial_fail_def comp_def)
qed

lemma serial_inv_internal: "serial_internal compose q q' \<Longrightarrow> serial_inv q \<Longrightarrow> serial_inv q'"
proof (induction rule: serial_internal.induct)
  case (si_exit q)
  then show ?case by (auto simp: serial_inv_def)
qed (simp_all add: serial_inv_overflow serial_inv_enter serial_inv_drain serial_inv_done serial_inv_fail)

lemma serial_reachable_inv: "serial_reachable compose q \<Longrightarrow> serial_inv q"
proof (induction rule: serial_reachable.induct)
  case sr_empty
  then show ?case by (simp add: serial_inv_def empty_serial_def)
qed (auto intro: serial_inv_push serial_inv_internal)





definition serial_measure :: "serial_queue \<Rightarrow> nat" where
  "serial_measure q =
     3 * length (sq_buffer q) + 2 * length (sq_running q) + 2 * length (sq_trimming q) + (if sq_active q then 1 else 0)"

lemma serial_internal_measure:
  "serial_internal compose q q' \<Longrightarrow> serial_inv q \<Longrightarrow> serial_measure q' < serial_measure q"
proof (induction rule: serial_internal.induct)
  case (si_overflow q)
  then show ?case by (cases "sq_buffer q") (auto simp: serial_measure_def serial_overflow_def)
next
  case (si_enter a q)
  then have "length (remove1 a (sq_trimming q)) + 1 = length (sq_trimming q)"
    using length_pos_if_in_set[of a "sq_trimming q"] by (simp add: length_remove1)
  then show ?case by (auto simp: serial_measure_def serial_enter_def)
next
  case (si_drain q)
  then obtain m where "mergeSerialBuffer compose (sq_buffer q) = Some m" by fastforce
  with si_drain show ?case by (cases "sq_buffer q") (auto simp: serial_measure_def serial_drain_def Let_def)
next
  case (si_done q)
  then show ?case by (cases "sq_running q") (auto simp: serial_measure_def serial_done_def)
next
  case (si_fail q)
  then show ?case by (cases "sq_running q") (auto simp: serial_measure_def serial_fail_def)
next
  case (si_exit q)
  then show ?case by (simp add: serial_measure_def)
qed

lemma serial_not_stuck:
  assumes "sq_buffer q \<noteq> [] \<or> sq_running q \<noteq> [] \<or> sq_trimming q \<noteq> [] \<or> sq_active q" "serial_inv q"
  shows "\<exists>q'. serial_internal compose q q'"
proof (cases "sq_running q = []")
  case False
  then show ?thesis by (blast intro: si_done)
next
  case True
  show ?thesis
  proof (cases "sq_active q")
    case active: True
    with True show ?thesis by (cases "sq_buffer q = []") (blast intro: si_exit si_drain)+
  next
    case False
    with assms True obtain a where "a \<in> set (sq_trimming q)" by (cases "sq_trimming q") (auto simp: serial_inv_def)
    then show ?thesis
      by (cases "length (sq_buffer q) \<le> MAX_BATCH_BUFFER_ENTRIES") (fastforce intro: si_enter si_overflow)+
  qed
qed

lemma serial_quiesce:
  "serial_inv q \<Longrightarrow> \<exists>q'. (serial_internal compose)\<^sup>*\<^sup>* q q' \<and> sq_buffer q' = [] \<and> sq_running q' = [] \<and> sq_trimming q' = [] \<and> \<not> sq_active q'"
proof (induction "serial_measure q" arbitrary: q rule: less_induct)
  case less
  show ?case
  proof (cases "sq_buffer q \<noteq> [] \<or> sq_running q \<noteq> [] \<or> sq_trimming q \<noteq> [] \<or> sq_active q")
    case True
    from serial_not_stuck[OF True less.prems] obtain q1 where q1: "serial_internal compose q q1" by blast
    with less serial_internal_measure serial_inv_internal obtain q'
      where "(serial_internal compose)\<^sup>*\<^sup>* q1 q'" "sq_buffer q' = [] \<and> sq_running q' = [] \<and> sq_trimming q' = [] \<and> \<not> sq_active q'"
      by blast
    with q1 show ?thesis by (meson converse_rtranclp_into_rtranclp)
  qed auto
qed

text \<open>C22: A serial queue drains: once messages stop arriving and each turn ends, one way or the other, no
  infinite run is possible, the queue is stuck in no state with work left, and it reaches a state with
  nothing buffered or running in which the worker is off and every arrival has been settled.\<close>

theorem serial_queue_drains:
  assumes "serial_reachable compose q"
  shows "\<exists>q'. (serial_internal compose)\<^sup>*\<^sup>* q q' \<and> sq_buffer q' = [] \<and> sq_running q' = [] \<and> \<not> sq_active q' \<and>
      mset (map fst (sq_settled q')) = mset (sq_arrived q') \<and>
      (\<forall>r r'. serial_internal compose r r' \<and> serial_inv r \<longrightarrow> serial_measure r' < serial_measure r)"
proof -
  from serial_quiesce[OF serial_reachable_inv[OF assms], of compose] obtain q' where
    q': "(serial_internal compose)\<^sup>*\<^sup>* q q'" "sq_buffer q' = []" "sq_running q' = []" "\<not> sq_active q'" by blast
  have "serial_inv q'"
    using q'(1) serial_reachable_inv[OF assms] by (induction rule: rtranclp_induct) (auto intro: serial_inv_internal)
  then have "mset (map fst (sq_settled q')) = mset (sq_arrived q')" using q' by (simp add: serial_inv_def)
  with q' serial_internal_measure show ?thesis by blast
qed

theorem serial_queue_drains_witness:
  "\<exists>q'. (serial_internal None)\<^sup>*\<^sup>* (serial_push (example_buffered ''a'' ''x'') [] empty_serial) q' \<and> sq_buffer q' = []"
proof -
  have "serial_reachable None (serial_push (example_buffered ''a'' ''x'') [] empty_serial)"
    by (intro sr_arrive sr_empty) (simp add: empty_serial_def)
  from serial_queue_drains[OF this] show ?thesis by blast
qed

text \<open>The turn ids of deferred files are lost when the queue is busy: an arrival that already carries
  merged turn ids and finds a turn running leaves them behind, and the turn that runs it next does
  not name them.\<close>

theorem deferred_ids_lost_when_busy:
  assumes "sq_active q" and "sq_buffer q = []" and "sq_pendingMerged q = []" and "sq_running q = [b]" and "sq_trimming q = []"
  shows "\<exists>m. sq_trace (serial_drain compose (serial_done (serial_enter (e, merged) (serial_push e merged q))))
    = sq_trace q @ [FxRunTurn m []]"
proof -
  obtain m where "mergeSerialBuffer compose [e] = Some m" by (fastforce simp: mergeSerialBuffer_def)
  with assms show ?thesis by (simp add: serial_drain_def serial_done_def serial_enter_def serial_push_def Let_def)
qed

theorem deferred_ids_lost_when_busy_witness:
  "\<exists>m m0. sq_trace (serial_drain None (serial_done (serial_enter (example_buffered ''b'' ''y'', [''f'']) (serial_push (example_buffered ''b'' ''y'') [''f'']
     (serial_drain None (serial_enter (example_buffered ''a'' ''x'', []) (serial_push (example_buffered ''a'' ''x'') [] empty_serial))))))) = [FxRunTurn m0 [], FxRunTurn m []]"
proof -
  let ?q = "serial_drain None (serial_enter (example_buffered ''a'' ''x'', []) (serial_push (example_buffered ''a'' ''x'') [] empty_serial))"
  obtain m0 where "mergeSerialBuffer None [example_buffered ''a'' ''x''] = Some m0" by (fastforce simp: mergeSerialBuffer_def)
  then have q: "?q = empty_serial\<lparr>sq_active := True, sq_running := [[example_buffered ''a'' ''x'']],
      sq_arrived := [example_buffered ''a'' ''x''], sq_trace := [FxRunTurn m0 []]\<rparr>"
    by (simp add: serial_drain_def serial_enter_def serial_push_def empty_serial_def Let_def)
  show ?thesis
    using deferred_ids_lost_when_busy[of ?q "[example_buffered ''a'' ''x'']" None "example_buffered ''b'' ''y''" "[''f'']"]
    unfolding q by (simp add: empty_serial_def) blast
qed

section \<open>Cancel-previous queues\<close>

text \<open>
  \<open>cq_running\<close> are the turns between the start of \<open>runTurn\<close> and the end of its \<open>finally\<close> block, which
  clears \<open>q.current\<close> and resolves \<open>done\<close>; \<open>cq_waiting\<close> the arrivals that await the \<open>done\<close> of the turn they
  aborted, with the generation they took. A turn whose \<open>finally\<close> block throws (the awaited
  \<open>streamEnd\<close> of its channel rejects) stays in \<open>cq_hung\<close>: the slot is never cleared, \<open>done\<close> never
  resolved.
\<close>

record cancel_queue =
  cq_gen :: nat
  cq_current :: "string option"
  cq_running :: "string list"
  cq_aborted :: "string list"
  cq_waiting :: "(string \<times> nat \<times> string) list"
  cq_finished :: "string list"
  cq_hung :: "string list"
  cq_arrived :: "string list"
  cq_trace :: "drop_record list"

definition empty_cancel :: cancel_queue where
  "empty_cancel = \<lparr>cq_gen = 0, cq_current = None, cq_running = [], cq_aborted = [], cq_waiting = [],
     cq_finished = [], cq_hung = [], cq_arrived = [], cq_trace = []\<rparr>"

definition start_turn :: "string \<Rightarrow> cancel_queue \<Rightarrow> cancel_queue" where
  "start_turn t q = q\<lparr>cq_current := Some t, cq_running := cq_running q @ [t]\<rparr>"

text \<open>An arrival up to its first await, or up to the start of its turn when nothing is current.\<close>

definition cancel_arrive :: "string \<Rightarrow> cancel_queue \<Rightarrow> cancel_queue" where
  "cancel_arrive t q =
     (let q1 = q\<lparr>cq_gen := cq_gen q + 1, cq_arrived := cq_arrived q @ [t]\<rparr>
      in case cq_current q of
           None \<Rightarrow> start_turn t q1
         | Some prev \<Rightarrow>
             q1\<lparr>cq_trace := cq_trace q @ [Dropped prev CancelledPrevious (Some t)], cq_aborted := cq_aborted q @ [prev],
                cq_waiting := cq_waiting q @ [(t, cq_gen q + 1, prev)]\<rparr>)"

text \<open>After the await: the newest arrival runs, an older one records that it was dropped.\<close>

definition cancel_resume :: "string \<times> nat \<times> string \<Rightarrow> cancel_queue \<Rightarrow> cancel_queue" where
  "cancel_resume w q =
     (let q1 = q\<lparr>cq_waiting := remove1 w (cq_waiting q)\<rparr>
      in if fst (snd w) \<noteq> cq_gen q then q1\<lparr>cq_trace := cq_trace q @ [Dropped (fst w) CancelledPrevious None]\<rparr>
         else start_turn (fst w) q1)"

definition cancel_finish :: "string \<Rightarrow> cancel_queue \<Rightarrow> cancel_queue" where
  "cancel_finish t q =
     q\<lparr>cq_running := remove1 t (cq_running q), cq_finished := cq_finished q @ [t],
       cq_current := (if cq_current q = Some t then None else cq_current q)\<rparr>"

definition cancel_hang :: "string \<Rightarrow> cancel_queue \<Rightarrow> cancel_queue" where
  "cancel_hang t q = q\<lparr>cq_hung := cq_hung q @ [t]\<rparr>"

inductive cancel_step :: "cancel_queue \<Rightarrow> cancel_queue \<Rightarrow> bool" where
  cs_arrive: "t \<notin> set (cq_arrived q) \<Longrightarrow> cancel_step q (cancel_arrive t q)"
| cs_resume: "(t, g, prev) \<in> set (cq_waiting q) \<Longrightarrow> prev \<notin> set (cq_running q) \<Longrightarrow>
    cancel_step q (cancel_resume (t, g, prev) q)"
| cs_finish: "t \<in> set (cq_running q) \<Longrightarrow> t \<notin> set (cq_hung q) \<Longrightarrow> cancel_step q (cancel_finish t q)"
| cs_hang: "t \<in> set (cq_running q) \<Longrightarrow> t \<notin> set (cq_hung q) \<Longrightarrow> cancel_step q (cancel_hang t q)"

inductive_cases cancel_stepE: "cancel_step q q'"

inductive cancel_reachable :: "cancel_queue \<Rightarrow> bool" where
  cq_init: "cancel_reachable empty_cancel"
| cq_next: "cancel_reachable q \<Longrightarrow> cancel_step q q' \<Longrightarrow> cancel_reachable q'"

definition cancel_inv :: "cancel_queue \<Rightarrow> bool" where
  "cancel_inv q \<longleftrightarrow>
     (case cq_current q of None \<Rightarrow> cq_running q = [] | Some t \<Rightarrow> cq_running q = [t]) \<and>
     (\<forall>(t, g, prev) \<in> set (cq_waiting q). g \<le> cq_gen q \<and> (g = cq_gen q \<longrightarrow> cq_running q = [] \<or> cq_running q = [prev])) \<and>
     distinct (map (fst \<circ> snd) (cq_waiting q)) \<and>
     distinct (cq_arrived q) \<and>
     mset (cq_arrived q) = mset (map fst (cq_waiting q)) + mset (cq_running q) + mset (cq_finished q) +
       mset (List.map_filter (\<lambda>d. case d of Dropped t _ None \<Rightarrow> Some t | _ \<Rightarrow> None) (cq_trace q)) \<and>
     (cq_arrived q \<noteq> [] \<longrightarrow>
        (\<exists>g prev. (last (cq_arrived q), g, prev) \<in> set (cq_waiting q) \<and> g = cq_gen q) \<or>
        last (cq_arrived q) \<in> set (cq_running q) \<union> set (cq_finished q))"


lemma cancel_inv_init: "cancel_inv empty_cancel"
  by (simp add: cancel_inv_def empty_cancel_def)

lemma cancel_inv_arrive:
  assumes "cancel_inv q" "t \<notin> set (cq_arrived q)"
  shows "cancel_inv (cancel_arrive t q)"
proof -
  have g: "\<forall>w \<in> set (cq_waiting q). fst (snd w) \<noteq> cq_gen q + 1"
    using assms(1) by (fastforce simp: cancel_inv_def)
  show ?thesis
    using assms g by (cases "cq_current q")
      (fastforce simp: cancel_inv_def cancel_arrive_def start_turn_def Let_def)+
qed

lemma remove1_other:
  assumes "distinct (map f xs)" "w \<in> set xs" "v \<in> set (remove1 w xs)"
  shows "v \<in> set xs \<and> f v \<noteq> f w"
proof -
  have "distinct xs" using assms(1) by (simp add: distinct_map)
  with assms(3) have "v \<in> set xs" "v \<noteq> w" by auto
  with assms(1,2) show ?thesis by (auto simp: distinct_map inj_on_def)
qed

lemma distinct_map_remove1: "distinct (map f xs) \<Longrightarrow> distinct (map f (remove1 w xs))"
  by (meson distinct_map distinct_remove1 inj_on_subset set_remove1_subset)

lemma mset_map_remove1: "w \<in> set xs \<Longrightarrow> mset (map f xs) = add_mset (f w) (mset (map f (remove1 w xs)))"
  by (induction xs) auto

lemma cancel_inv_resume:
  assumes inv: "cancel_inv q" and w: "(t, g, prev) \<in> set (cq_waiting q)" and p: "prev \<notin> set (cq_running q)"
  shows "cancel_inv (cancel_resume (t, g, prev) q)"
proof -
  let ?w = "(t, g, prev)" and ?ws = "remove1 (t, g, prev) (cq_waiting q)"
  have d: "distinct (map (fst \<circ> snd) (cq_waiting q))" using inv by (simp add: cancel_inv_def)
  have other: "v \<in> set (cq_waiting q) \<and> fst (snd v) \<noteq> g" if "v \<in> set ?ws" for v
    using remove1_other[OF d w that] by simp
  have d': "distinct (map (fst \<circ> snd) ?ws)" by (rule distinct_map_remove1[OF d])
  have ms: "mset (map fst (cq_waiting q)) = add_mset t (mset (map fst ?ws))"
    using mset_map_remove1[OF w, of fst] by simp
  have uniq: "t' = t" if "(t', g, p') \<in> set (cq_waiting q)" for t' p'
    using d w that by (force simp: distinct_map inj_on_def)
  have keep: "(t', g', p') \<in> set ?ws" if "(t', g', p') \<in> set (cq_waiting q)" "g' \<noteq> g" for t' g' p'
    using that by (simp add: in_set_remove1)
  show ?thesis
  proof (cases "g = cq_gen q")
    case True
    then have run: "cq_running q = []" and cur: "cq_current q = None"
      using inv w p by (auto simp: cancel_inv_def split: option.splits)
    have le: "\<forall>(t', g', p') \<in> set (cq_waiting q). g' \<le> cq_gen q" using inv by (auto simp: cancel_inv_def)
    have gens: "\<forall>(t', g', p') \<in> set ?ws. g' \<le> cq_gen q \<and> g' \<noteq> cq_gen q"
    proof
      fix v assume v: "v \<in> set ?ws"
      show "case v of (t', g', p') \<Rightarrow> g' \<le> cq_gen q \<and> g' \<noteq> cq_gen q"
        using other[OF v] le True by (cases v) auto
    qed
    have last: "cq_arrived q \<noteq> [] \<longrightarrow> last (cq_arrived q) = t \<or> last (cq_arrived q) \<in> set (cq_finished q)"
      using inv uniq True run by (fastforce simp: cancel_inv_def)
    have eq: "cancel_resume ?w q = q\<lparr>cq_waiting := ?ws, cq_current := Some t, cq_running := [t]\<rparr>"
      using True run by (simp add: cancel_resume_def start_turn_def Let_def)
    have gens': "\<forall>(t', g', p') \<in> set ?ws. g' \<le> cq_gen q \<and> (g' = cq_gen q \<longrightarrow> [t] = [] \<or> [t] = [p'])"
      using gens by fastforce
    have all: "mset (cq_arrived q) = mset (map fst ?ws) + mset [t] + mset (cq_finished q) +
       mset (List.map_filter (\<lambda>d. case d of Dropped t _ None \<Rightarrow> Some t | _ \<Rightarrow> None) (cq_trace q))"
      using inv ms run unfolding cancel_inv_def by simp
    have "distinct (cq_arrived q)" using inv by (simp add: cancel_inv_def)
    with gens' all last d' show ?thesis unfolding cancel_inv_def eq by fastforce
  next
    case False
    have "cq_arrived q \<noteq> [] \<longrightarrow>
        (\<exists>g' prev'. (last (cq_arrived q), g', prev') \<in> set ?ws \<and> g' = cq_gen q) \<or>
        last (cq_arrived q) \<in> set (cq_running q) \<union> set (cq_finished q)"
      using inv keep False by (fastforce simp: cancel_inv_def)
    moreover have "\<forall>(t', g', p') \<in> set ?ws. g' \<le> cq_gen q \<and> (g' = cq_gen q \<longrightarrow> cq_running q = [] \<or> cq_running q = [p'])"
      using inv set_remove1_subset[of ?w "cq_waiting q"] by (auto simp: cancel_inv_def)
    ultimately show ?thesis using inv False d' ms
      by (simp add: cancel_inv_def cancel_resume_def Let_def cong: option.case_cong)
  qed
qed

lemma cancel_inv_finish:
  assumes "cancel_inv q" "t \<in> set (cq_running q)"
  shows "cancel_inv (cancel_finish t q)"
proof -
  have "cq_current q = Some t \<and> cq_running q = [t]"
    using assms by (cases "cq_current q") (auto simp: cancel_inv_def)
  with assms(1) show ?thesis by (fastforce simp: cancel_inv_def cancel_finish_def)
qed


lemma cancel_inv_hang: "cancel_inv q \<Longrightarrow> cancel_inv (cancel_hang t q)"
  by (simp add: cancel_inv_def cancel_hang_def cong: option.case_cong)

lemma cancel_reachable_inv: "cancel_reachable q \<Longrightarrow> cancel_inv q"
proof (induction rule: cancel_reachable.induct)
  case (cq_next q q')
  from cq_next(2,3) show ?case
    by (cases rule: cancel_step.cases)
      (simp_all add: cancel_inv_arrive cancel_inv_resume cancel_inv_finish cancel_inv_hang)
qed (rule cancel_inv_init)


definition two_arrivals :: cancel_queue where
  "two_arrivals = cancel_arrive ''b'' (cancel_arrive ''a'' empty_cancel)"

lemma two_arrivals_reachable: "cancel_reachable two_arrivals"
  unfolding two_arrivals_def
  by (intro cq_next[OF cq_next[OF cq_init cs_arrive] cs_arrive]) (simp_all add: empty_cancel_def cancel_arrive_def start_turn_def)


text \<open>Two arrivals that find the same turn running each record it as dropped: a turn can have more
  than one terminal record.\<close>

theorem cancelled_turn_dropped_twice:
  "\<exists>q. cancel_reachable q \<and>
     cq_trace q = [Dropped ''a'' CancelledPrevious (Some ''b''), Dropped ''a'' CancelledPrevious (Some ''c'')]"
proof -
  let ?q = "cancel_arrive ''c'' two_arrivals"
  have "cancel_reachable ?q"
    by (rule cq_next[OF two_arrivals_reachable cs_arrive])
      (simp add: two_arrivals_def empty_cancel_def cancel_arrive_def start_turn_def)
  moreover have "cq_trace ?q = [Dropped ''a'' CancelledPrevious (Some ''b''), Dropped ''a'' CancelledPrevious (Some ''c'')]"
    by (simp add: two_arrivals_def empty_cancel_def cancel_arrive_def start_turn_def)
  ultimately show ?thesis by blast
qed

lemma cancel_hung_stays:
  assumes "cancel_step q q'" "cq_current q = Some t" "cq_running q = [t]" "t \<in> set (cq_hung q)"
    and "\<forall>(a, g, p) \<in> set (cq_waiting q). p = t" "cq_finished q = fin"
  shows "cq_current q' = Some t \<and> cq_running q' = [t] \<and> t \<in> set (cq_hung q') \<and>
    (\<forall>(a, g, p) \<in> set (cq_waiting q'). p = t) \<and> cq_finished q' = fin"
  using assms by (cases rule: cancel_stepE) (auto simp: cancel_arrive_def cancel_finish_def cancel_hang_def Let_def)

text \<open>A turn whose teardown throws blocks its queue for ever: once the awaited stream end of the
  current turn has failed, in every later state that turn is still current and running, no other turn
  has finished, and every later arrival waits for it.\<close>

theorem failed_teardown_blocks_queue:
  assumes "cancel_step\<^sup>*\<^sup>* q q'" and "cq_current q = Some t" and "cq_running q = [t]" and "t \<in> set (cq_hung q)"
    and "\<forall>(a, g, p) \<in> set (cq_waiting q). p = t"
  shows "cq_current q' = Some t \<and> cq_running q' = [t] \<and> (\<forall>(a, g, p) \<in> set (cq_waiting q'). p = t) \<and>
    cq_finished q' = cq_finished q"
proof -
  have "cq_current q' = Some t \<and> cq_running q' = [t] \<and> t \<in> set (cq_hung q') \<and>
      (\<forall>(a, g, p) \<in> set (cq_waiting q'). p = t) \<and> cq_finished q' = cq_finished q"
    using assms(1)
  proof (induction rule: rtranclp_induct)
    case base
    with assms show ?case by simp
  next
    case (step y z)
    then show ?case using cancel_hung_stays by blast
  qed
  then show ?thesis by blast
qed

theorem failed_teardown_blocks_queue_witness:
  "cq_running (cancel_arrive ''b'' (cancel_hang ''a'' (cancel_arrive ''a'' empty_cancel))) = [''a'']"
proof -
  let ?q = "cancel_hang ''a'' (cancel_arrive ''a'' empty_cancel)"
  have "cancel_step\<^sup>*\<^sup>* ?q (cancel_arrive ''b'' ?q)"
    by (rule r_into_rtranclp, rule cs_arrive) (simp add: cancel_hang_def cancel_arrive_def start_turn_def empty_cancel_def)
  from failed_teardown_blocks_queue[OF this, of "''a''"] show ?thesis
    by (simp add: cancel_hang_def cancel_arrive_def start_turn_def empty_cancel_def)
qed

end
