(* ===== verification/Auth_Breaker.thy ===== *)
theory Auth_Breaker
  imports Gateway_Types Routing
begin

text \<open>
  The circuit breaker for runtime authentication failures
  (\<open>openRuntimeAuthBreaker\<close>, \<open>recordRuntimeAuthFailure\<close> and their neighbours in
  \<open>daemon/src/gateway/dispatcher.ts\<close>). Times are milliseconds; an operation that reads the clock
  twice within one synchronous block reads one \<open>now\<close> here. The returned flag says whether
  \<open>onRuntimeCircuitBreakerChange\<close> is notified.
\<close>

record auth_failure =
  af_key :: string
  af_runtime :: string
  af_channel :: string
  af_accountId :: string
  af_conversationId :: string
  af_threadId :: "string option"
  af_failures :: nat
  af_openedAt :: int
  af_blockedUntil :: int
  af_lastFailureAt :: int
  af_lastError :: string

type_synonym auth_table = "string \<rightharpoonup> auth_failure"

definition DEFAULT_RUNTIME_AUTH_FAILURE_THRESHOLD :: nat where
  "DEFAULT_RUNTIME_AUTH_FAILURE_THRESHOLD = 3"

definition DEFAULT_RUNTIME_AUTH_FAILURE_COOLDOWN_MS :: int where
  "DEFAULT_RUNTIME_AUTH_FAILURE_COOLDOWN_MS = 10 * 60 * 1000"

definition openRuntimeAuthBreaker ::
  "int \<Rightarrow> gateway_route \<Rightarrow> inbound_message \<Rightarrow> auth_table \<Rightarrow> auth_failure option \<times> auth_table" where
  "openRuntimeAuthBreaker now route msg table =
     (let key = runtimeAuthBreakerKey route msg
      in case table key of
           None \<Rightarrow> (None, table)
         | Some state \<Rightarrow>
             if af_blockedUntil state > 0 \<and> af_blockedUntil state \<le> now then (None, table(key := None))
             else (if af_blockedUntil state > now then Some state else None, table))"

definition pruneExpiredRuntimeAuthBreakers :: "int \<Rightarrow> auth_table \<Rightarrow> auth_table" where
  "pruneExpiredRuntimeAuthBreakers now table =
     (\<lambda>key. case table key of
        Some state \<Rightarrow> (if af_blockedUntil state > 0 \<and> af_blockedUntil state \<le> now then None else Some state)
      | None \<Rightarrow> None)"

definition runtimeCircuitBreakers :: "int \<Rightarrow> auth_table \<Rightarrow> auth_table \<times> auth_table" where
  "runtimeCircuitBreakers now table =
     (let table' = pruneExpiredRuntimeAuthBreakers now table
      in (\<lambda>key. case table' key of Some s \<Rightarrow> (if af_blockedUntil s > now then Some s else None) | None \<Rightarrow> None, table'))"

definition recordRuntimeAuthFailure ::
  "nat \<Rightarrow> int \<Rightarrow> int \<Rightarrow> gateway_route \<Rightarrow> inbound_message \<Rightarrow> string \<Rightarrow> auth_table \<Rightarrow> auth_failure option \<times> bool \<times> auth_table" where
  "recordRuntimeAuthFailure threshold cooldownMs now route msg err table =
     (let key = runtimeAuthBreakerKey route msg;
          prev = table key;
          failures = (case prev of Some p \<Rightarrow> af_failures p | None \<Rightarrow> 0) + 1;
          state = \<lparr>af_key = key, af_runtime = r_runtime route, af_channel = m_channel msg,
                   af_accountId = m_accountId msg, af_conversationId = c_id (m_conversation msg),
                   af_threadId = c_threadId (m_conversation msg), af_failures = failures,
                   af_openedAt = (case prev of Some p \<Rightarrow> af_openedAt p | None \<Rightarrow> now),
                   af_blockedUntil = (if failures \<ge> threshold then now + cooldownMs else 0),
                   af_lastFailureAt = now, af_lastError = err\<rparr>;
          table' = table(key \<mapsto> state)
      in if af_blockedUntil state > now then (Some state, True, table') else (None, False, table'))"

definition clearRuntimeAuthFailures :: "gateway_route \<Rightarrow> inbound_message \<Rightarrow> auth_table \<Rightarrow> bool \<times> auth_table" where
  "clearRuntimeAuthFailures route msg table =
     (let key = runtimeAuthBreakerKey route msg in (table key \<noteq> None, table(key := None)))"

section \<open>When the breaker is open\<close>

definition fail_at :: "nat \<Rightarrow> int \<Rightarrow> gateway_route \<Rightarrow> inbound_message \<Rightarrow> (int \<times> string) \<Rightarrow> auth_table \<Rightarrow> auth_table" where
  "fail_at threshold cooldownMs route msg f table =
     snd (snd (recordRuntimeAuthFailure threshold cooldownMs (fst f) route msg (snd f) table))"

lemma fail_at_key:
  "\<exists>s. fail_at thr cd route msg f t (runtimeAuthBreakerKey route msg) = Some s \<and>
     af_failures s = (case t (runtimeAuthBreakerKey route msg) of Some p \<Rightarrow> af_failures p | None \<Rightarrow> 0) + 1 \<and>
     af_blockedUntil s = (if af_failures s \<ge> thr then fst f + cd else 0)"
  by (simp add: fail_at_def recordRuntimeAuthFailure_def Let_def)

lemma failures_after:
  assumes "table (runtimeAuthBreakerKey route msg) = None" "fs \<noteq> []"
  shows "\<exists>s. fold (fail_at thr cd route msg) fs table (runtimeAuthBreakerKey route msg) = Some s \<and>
    af_failures s = length fs \<and> af_blockedUntil s = (if length fs \<ge> thr then fst (last fs) + cd else 0)"
  using assms(2)
proof (induction fs rule: rev_induct)
  case (snoc f fs)
  let ?t = "fold (fail_at thr cd route msg) fs table"
  have "(case ?t (runtimeAuthBreakerKey route msg) of Some p \<Rightarrow> af_failures p | None \<Rightarrow> 0) = length fs"
    using snoc.IH assms(1) by (cases "fs = []") auto
  with fail_at_key[of thr cd route msg f ?t] show ?case by auto
qed simp

text \<open>The breaker opens exactly after the threshold of failures and closes after the cooldown: after
  a sequence of authentication failures of one runtime in one conversation with no success in between,
  a turn is blocked if and only if there were at least as many failures as the threshold and the
  cooldown since the last one is not over.\<close>

theorem breaker_opens_exactly:
  assumes "table (runtimeAuthBreakerKey route msg) = None" and "fs \<noteq> []"
    and "0 < fst (last fs) + cooldownMs" and "0 \<le> now"
  shows "fst (openRuntimeAuthBreaker now route msg (fold (fail_at threshold cooldownMs route msg) fs table)) \<noteq> None \<longleftrightarrow>
    threshold \<le> length fs \<and> now < fst (last fs) + cooldownMs"
  using failures_after[where table = table and route = route and msg = msg and fs = fs and thr = threshold and cd = cooldownMs] assms
  by (auto simp: openRuntimeAuthBreaker_def Let_def split: if_splits)

theorem breaker_opens_exactly_witness:
  "fst (openRuntimeAuthBreaker 50 (plain_route ''codex'') example_msg
     (fold (fail_at 3 100 (plain_route ''codex'') example_msg) [(1, ''e''), (2, ''e''), (3, ''e'')] (\<lambda>_. None))) \<noteq> None"
  using breaker_opens_exactly[of "\<lambda>_. None" "plain_route ''codex''" example_msg "[(1, ''e''), (2, ''e''), (3, ''e'')]" 100 50 3]
  by simp

text \<open>An expired breaker starts over and a success clears it: once the cooldown of an open breaker is
  over the next turn is let through with its failure count forgotten, clearing has the same effect at
  any time and is announced exactly when there was something to clear, and neither touches the breaker of
  another runtime, channel, account or conversation.\<close>

theorem breaker_recovers:
  assumes "table (runtimeAuthBreakerKey route msg) = Some s" and "0 < af_blockedUntil s" and "af_blockedUntil s \<le> now"
  shows "openRuntimeAuthBreaker now route msg table = (None, table(runtimeAuthBreakerKey route msg := None)) \<and>
    clearRuntimeAuthFailures route msg table = (True, table(runtimeAuthBreakerKey route msg := None)) \<and>
    (\<forall>key. key \<noteq> runtimeAuthBreakerKey route msg \<longrightarrow>
       snd (openRuntimeAuthBreaker now route msg table) key = table key)"
  using assms by (simp add: openRuntimeAuthBreaker_def clearRuntimeAuthFailures_def Let_def)

theorem breaker_recovers_witness:
  "fst (openRuntimeAuthBreaker 500 (plain_route ''codex'') example_msg
     (fold (fail_at 1 100 (plain_route ''codex'') example_msg) [(1, ''e'')] (\<lambda>_. None))) = None"
proof -
  let ?r = "plain_route ''codex''"
  obtain s where "fold (fail_at 1 100 ?r example_msg) [(1, ''e'')] (\<lambda>_. None) (runtimeAuthBreakerKey ?r example_msg) = Some s"
    "af_blockedUntil s = 101"
    by (simp add: fail_at_def recordRuntimeAuthFailure_def Let_def)
  with breaker_recovers[of "fold (fail_at 1 100 ?r example_msg) [(1, ''e'')] (\<lambda>_. None)" ?r example_msg s 500]
  show ?thesis by simp
qed

end
