(* ===== verification/Park.thy ===== *)
theory Park
  imports Js_Prelude
begin

text \<open>
  The agent-driven \<open>botcord wait\<close>: the marker files of \<open>daemon/src/gateway/wait-marker.ts\<close> and the
  re-wake timer of a queue (\<open>supersedePendingPark\<close>, \<open>maybeSchedulePark\<close> of \<open>dispatcher.ts\<close>).

  The file system is a map from paths to contents; deleting a marker succeeds. \<open>JSON.parse\<close> is the
  parameter \<open>parse\<close>. Timers are numbered; \<open>pk_live\<close> are the timers that have neither fired nor been
  cleared, \<open>pk_park\<close> is \<open>q.park\<close>.
\<close>

section \<open>Marker files\<close>

definition WAIT_MARKER_PREFIX :: string where
  "WAIT_MARKER_PREFIX = ''.botcord-wait''"

definition MAX_WAIT_MS :: rat where
  "MAX_WAIT_MS = 30000"

record wait_marker =
  wm_deadlineMs :: rat
  wm_reason :: "string option"

definition safe_char :: "char \<Rightarrow> bool" where
  "safe_char c =
     (let n = (of_char c :: nat)
      in (97 \<le> n \<and> n \<le> 122) \<or> (65 \<le> n \<and> n \<le> 90) \<or> (48 \<le> n \<and> n \<le> 57) \<or> c \<in> {CHR ''.'', CHR ''_'', CHR ''-''})"

text \<open>\<open>path.join(cwd, name)\<close> of a directory without a trailing separator and a plain file name.\<close>

definition resolveWaitMarkerPath :: "string \<Rightarrow> string \<Rightarrow> string" where
  "resolveWaitMarkerPath cwd queueKey =
     cwd @ ''/'' @ WAIT_MARKER_PREFIX @ ''.'' @ map (\<lambda>c. if safe_char c then c else CHR ''_'') queueKey @ ''.json''"

type_synonym files = "string \<rightharpoonup> string"

definition clearWaitMarker :: "string \<Rightarrow> files \<Rightarrow> files" where
  "clearWaitMarker markerPath fs = fs(markerPath := None)"

definition consumeWaitMarker :: "(string \<Rightarrow> jsval option) \<Rightarrow> string \<Rightarrow> rat \<Rightarrow> files \<Rightarrow> wait_marker option \<times> files" where
  "consumeWaitMarker parse markerPath now fs =
     (case fs markerPath of
        None \<Rightarrow> (None, fs)
      | Some raw \<Rightarrow>
          (let fs' = fs(markerPath := None)
           in case parse raw of
                None \<Rightarrow> (None, fs')
              | Some obj \<Rightarrow>
                  if \<not> is_object obj then (None, fs')
                  else (case finite_num (get_prop obj ''deadlineMs'') of
                          None \<Rightarrow> (None, fs')
                        | Some deadlineMs \<Rightarrow>
                            (let clamped = min deadlineMs (now + MAX_WAIT_MS)
                             in if clamped \<le> now then (None, fs')
                                else (Some \<lparr>wm_deadlineMs = clamped, wm_reason = as_str (get_prop obj ''reason'')\<rparr>, fs')))))"

section \<open>The re-wake timer of a queue\<close>

definition MAX_PARKS :: nat where
  "MAX_PARKS = 3"

record park_state =
  pk_park :: "nat option"
  pk_count :: nat
  pk_accum :: rat
  pk_live :: "nat list"
  pk_next :: nat

definition empty_park :: park_state where
  "empty_park = \<lparr>pk_park = None, pk_count = 0, pk_accum = 0, pk_live = [], pk_next = 0\<rparr>"

definition supersedePendingPark :: "park_state \<Rightarrow> park_state" where
  "supersedePendingPark q =
     (case pk_park q of
        None \<Rightarrow> q
      | Some timer \<Rightarrow> q\<lparr>pk_park := None, pk_count := 0, pk_accum := 0, pk_live := removeAll timer (pk_live q)\<rparr>)"

definition reset_park :: "park_state \<Rightarrow> park_state" where
  "reset_park q = q\<lparr>pk_count := 0, pk_accum := 0\<rparr>"

text \<open>
  The end of a turn: \<open>marker_file\<close> is the path in a park-eligible room, \<open>unclean\<close> a timed-out or aborted
  turn. The result carries the wait that was scheduled, if one was.
\<close>

definition maybeSchedulePark ::
  "(string \<Rightarrow> jsval option) \<Rightarrow> string option \<Rightarrow> bool \<Rightarrow> rat \<Rightarrow> rat \<Rightarrow> files \<Rightarrow> park_state \<Rightarrow> rat option \<times> files \<times> park_state" where
  "maybeSchedulePark parse marker_file unclean now now' fs q =
     (case marker_file of
        None \<Rightarrow> (None, fs, reset_park q)
      | Some path \<Rightarrow>
          if unclean then (None, clearWaitMarker path fs, reset_park q)
          else
            (case consumeWaitMarker parse path now fs of
               (None, fs') \<Rightarrow> (None, fs', reset_park q)
             | (Some marker, fs') \<Rightarrow>
                 if pk_count q \<ge> MAX_PARKS \<or> pk_accum q \<ge> MAX_WAIT_MS then (None, fs', reset_park q)
                 else
                   (let waitMs = max 0 (min (wm_deadlineMs marker - now') (MAX_WAIT_MS - pk_accum q))
                    in if waitMs \<le> 0 then (None, fs', reset_park q)
                       else (Some waitMs, fs',
                             q\<lparr>pk_count := pk_count q + 1, pk_accum := pk_accum q + waitMs,
                               pk_park := Some (pk_next q), pk_live := pk_live q @ [pk_next q],
                               pk_next := pk_next q + 1\<rparr>))))"

text \<open>A timer fires: \<open>q.park\<close> is cleared, whichever timer it names, and the message is re-dispatched.\<close>

definition park_fire :: "nat \<Rightarrow> park_state \<Rightarrow> park_state" where
  "park_fire timer q = q\<lparr>pk_park := None, pk_live := removeAll timer (pk_live q)\<rparr>"

inductive park_reachable :: "(string \<Rightarrow> jsval option) \<Rightarrow> park_state \<Rightarrow> bool" for parse where
  pr_init: "park_reachable parse empty_park"
| pr_turn_end: "park_reachable parse q \<Longrightarrow> park_reachable parse (snd (snd (maybeSchedulePark parse f unclean now now' fs q)))"
| pr_arrival: "park_reachable parse q \<Longrightarrow> park_reachable parse (supersedePendingPark q)"
| pr_fire: "park_reachable parse q \<Longrightarrow> timer \<in> set (pk_live q) \<Longrightarrow>
    park_reachable parse (supersedePendingPark (park_fire timer q))"

section \<open>Bounds\<close>

text \<open>A consumed marker asks for a wait in the future within the ceiling and is gone: the deadline lies
  strictly after now and at most thirty seconds after it, the file no longer exists, and no other file is
  touched.\<close>

theorem consumed_marker_bounded:
  assumes "consumeWaitMarker parse path now fs = (Some marker, fs')"
  shows "now < wm_deadlineMs marker \<and> wm_deadlineMs marker \<le> now + MAX_WAIT_MS \<and> fs' = fs(path := None)"
  using assms by (auto simp: consumeWaitMarker_def Let_def not_le split: option.splits if_splits)

definition marker_json :: "string \<Rightarrow> jsval option" where
  "marker_json s = (if s = ''m'' then Some (JObj [(''deadlineMs'', JNum (Fin 99999999))]) else None)"

theorem consumed_marker_bounded_witness:
  "\<exists>m fs'. consumeWaitMarker marker_json ''f'' 100 [''f'' \<mapsto> ''m''] = (Some m, fs') \<and> wm_deadlineMs m \<le> 100 + MAX_WAIT_MS"
proof -
  have c: "consumeWaitMarker marker_json ''f'' 100 [''f'' \<mapsto> ''m''] =
      (Some \<lparr>wm_deadlineMs = 30100, wm_reason = None\<rparr>, Map.empty(''f'' := None))"
    by (simp add: consumeWaitMarker_def marker_json_def MAX_WAIT_MS_def Let_def)
  from consumed_marker_bounded[OF c] c show ?thesis by blast
qed

definition park_inv :: "park_state \<Rightarrow> bool" where
  "park_inv q \<longleftrightarrow> pk_count q \<le> MAX_PARKS \<and> 0 \<le> pk_accum q \<and> pk_accum q \<le> MAX_WAIT_MS \<and>
     (pk_count q = 0 \<longrightarrow> pk_accum q = 0) \<and> distinct (pk_live q) \<and> (\<forall>t \<in> set (pk_live q). t < pk_next q) \<and>
     (\<forall>t. pk_park q = Some t \<longrightarrow> t \<in> set (pk_live q))"

lemma MAX_WAIT_pos [simp]: "0 \<le> MAX_WAIT_MS" "0 < MAX_WAIT_MS"
  by (simp_all add: MAX_WAIT_MS_def)

lemma park_inv_reset [inv_intros]: "park_inv q \<Longrightarrow> park_inv (reset_park q)"
  by (simp add: park_inv_def reset_park_def)

lemma park_inv_supersede [inv_intros]: "park_inv q \<Longrightarrow> park_inv (supersedePendingPark q)"
  by (auto simp: park_inv_def supersedePendingPark_def distinct_removeAll split: option.splits)

lemma park_inv_fire [inv_intros]: "park_inv q \<Longrightarrow> park_inv (park_fire t q)"
  by (auto simp: park_inv_def park_fire_def distinct_removeAll)

lemma schedule_cases:
  obtains (reset) "fst (maybeSchedulePark parse f unclean now now' fs q) = None"
      "snd (snd (maybeSchedulePark parse f unclean now now' fs q)) = reset_park q"
    | (parked) waitMs where "fst (maybeSchedulePark parse f unclean now now' fs q) = Some waitMs"
      "0 < waitMs" "waitMs \<le> MAX_WAIT_MS - pk_accum q" "pk_count q < MAX_PARKS"
      "snd (snd (maybeSchedulePark parse f unclean now now' fs q)) =
         q\<lparr>pk_count := pk_count q + 1, pk_accum := pk_accum q + waitMs, pk_park := Some (pk_next q),
           pk_live := pk_live q @ [pk_next q], pk_next := pk_next q + 1\<rparr>"
proof (cases "fst (maybeSchedulePark parse f unclean now now' fs q)")
  case None
  then have "snd (snd (maybeSchedulePark parse f unclean now now' fs q)) = reset_park q"
    by (auto simp: maybeSchedulePark_def Let_def split: option.splits prod.splits if_splits)
  with None reset show ?thesis by blast
next
  case (Some w)
  then have "0 < w" "w \<le> MAX_WAIT_MS - pk_accum q" "pk_count q < MAX_PARKS"
    "snd (snd (maybeSchedulePark parse f unclean now now' fs q)) =
       q\<lparr>pk_count := pk_count q + 1, pk_accum := pk_accum q + w, pk_park := Some (pk_next q),
         pk_live := pk_live q @ [pk_next q], pk_next := pk_next q + 1\<rparr>"
    by (auto simp: maybeSchedulePark_def Let_def not_le split: option.splits prod.splits if_splits)
  with Some parked show ?thesis by blast
qed

lemma park_inv_schedule [inv_intros]:
  assumes "park_inv q" shows "park_inv (snd (snd (maybeSchedulePark parse f unclean now now' fs q)))"
proof (cases rule: schedule_cases[of parse f unclean now now' fs q])
  case reset
  with assms show ?thesis by (simp add: park_inv_reset)
next
  case (parked waitMs)
  with assms show ?thesis by (auto simp: park_inv_def)
qed

lemma park_reachable_inv: "park_reachable parse q \<Longrightarrow> park_inv q"
  by (induction rule: park_reachable.induct)
    (simp_all add: park_inv_schedule park_inv_supersede park_inv_fire, simp add: park_inv_def empty_park_def)

text \<open>Parking is bounded: in every reachable state of a queue at most three consecutive parks are
  counted, their waits sum to at most thirty seconds, and a wait is scheduled only when it is positive
  and fits what is left of both budgets.\<close>

theorem park_budget:
  assumes "park_reachable parse q"
  shows "pk_count q \<le> MAX_PARKS \<and> pk_accum q \<le> MAX_WAIT_MS \<and>
    (\<forall>waitMs. fst (maybeSchedulePark parse f unclean now now' fs q) = Some waitMs \<longrightarrow>
       0 < waitMs \<and> pk_accum q + waitMs \<le> MAX_WAIT_MS \<and> pk_count q < MAX_PARKS)"
proof -
  have "0 < w \<and> pk_accum q + w \<le> MAX_WAIT_MS \<and> pk_count q < MAX_PARKS"
    if "fst (maybeSchedulePark parse f unclean now now' fs q) = Some w" for w
    using that by (cases rule: schedule_cases[of parse f unclean now now' fs q]) auto
  with park_reachable_inv[OF assms] show ?thesis by (auto simp: park_inv_def)
qed

theorem park_budget_witness: "pk_accum empty_park \<le> MAX_WAIT_MS"
  using park_budget[OF pr_init[of marker_json]] by blast

text \<open>A turn that ends at time \<open>t\<close> with a request to wait one second.\<close>

definition second_json :: "rat \<Rightarrow> string \<Rightarrow> jsval option" where
  "second_json t s = Some (JObj [(''deadlineMs'', JNum (Fin (t + 1000)))])"

definition park_turn_end :: "rat \<Rightarrow> park_state \<Rightarrow> park_state" where
  "park_turn_end t q = snd (snd (maybeSchedulePark (second_json t) (Some ''f'') False t t [''f'' \<mapsto> ''m''] q))"

lemma park_turn_end_eq:
  assumes "pk_count q < MAX_PARKS" "pk_accum q + 1000 \<le> MAX_WAIT_MS"
  shows "park_turn_end t q = q\<lparr>pk_count := pk_count q + 1, pk_accum := pk_accum q + 1000, pk_park := Some (pk_next q),
    pk_live := pk_live q @ [pk_next q], pk_next := pk_next q + 1\<rparr>"
proof -
  have "min (1000 :: rat) (MAX_WAIT_MS - pk_accum q) = 1000" using assms(2) by (simp add: min_def)
  with assms show ?thesis
    by (simp add: park_turn_end_def maybeSchedulePark_def consumeWaitMarker_def second_json_def MAX_WAIT_MS_def Let_def)
qed

text \<open>A second park orphans the first timer: when two turns of a queue end with a wait request and the
  first timer has not fired in between (a message arrived during the first turn, when there was nothing
  to supersede), both timers are live, the queue knows only the newer one, and a message that arrives then
  leaves the older one running.\<close>

theorem second_park_orphans_timer:
  assumes "pk_count q + 1 < MAX_PARKS" and "pk_accum q + 2000 \<le> MAX_WAIT_MS" and "pk_live q = []" and "pk_next q = n"
  shows "pk_live (park_turn_end t2 (park_turn_end t1 q)) = [n, n + 1] \<and>
    pk_park (park_turn_end t2 (park_turn_end t1 q)) = Some (n + 1) \<and>
    pk_live (supersedePendingPark (park_turn_end t2 (park_turn_end t1 q))) = [n]"
proof -
  have 1: "park_turn_end t1 q = q\<lparr>pk_count := pk_count q + 1, pk_accum := pk_accum q + 1000, pk_park := Some n,
      pk_live := [n], pk_next := n + 1\<rparr>"
    using assms by (subst park_turn_end_eq) simp_all
  show ?thesis unfolding 1 using assms by (subst park_turn_end_eq; simp add: supersedePendingPark_def)+
qed

theorem second_park_orphans_timer_witness:
  "pk_live (supersedePendingPark (park_turn_end 5 (park_turn_end 0 empty_park))) = [0]"
  using second_park_orphans_timer[of empty_park 0 5 0] by (simp add: empty_park_def MAX_PARKS_def MAX_WAIT_MS_def)

text \<open>Marker paths are not scoped per queue after all: two queues whose keys differ only in
  characters outside the safe set share one marker file.\<close>

theorem marker_path_collision:
  "resolveWaitMarkerPath cwd ''botcord:ag_1:rm_1:a b'' = resolveWaitMarkerPath cwd ''botcord:ag_1:rm_1:a_b'' \<and>
   ''botcord:ag_1:rm_1:a b'' \<noteq> ''botcord:ag_1:rm_1:a_b''"
  by (simp add: resolveWaitMarkerPath_def safe_char_def)

end
