(* ===== verification/Js_Regex.thy ===== *)
theory Js_Regex
  imports Js_Prelude
begin

text \<open>
  The regular expressions of the TypeScript sources: character tests, sequences, alternatives, greedy
  repetition, word boundaries and anchors. \<^term>\<open>ends r s i\<close> lists the positions at which a match of \<open>r\<close> that
  starts at position \<open>i\<close> of \<open>s\<close> can end, in the order a backtracking matcher tries them, so its head is the
  match the language returns. The iterator is shown to decide the declarative meaning of an expression.
\<close>

section \<open>Expressions and the matcher\<close>

datatype regex =
    RChar "char \<Rightarrow> bool"
  | REps
  | RSeq regex regex
  | RAlt regex regex
  | RStar regex
  | RBound
  | RBegin
  | REnd

text \<open>The class \<open>\w\<close> and the assertion \<open>\b\<close>.\<close>

definition is_word_char :: "char \<Rightarrow> bool" where
  "is_word_char c \<longleftrightarrow> (CHR ''a'' \<le> c \<and> c \<le> CHR ''z'') \<or> (CHR ''A'' \<le> c \<and> c \<le> CHR ''Z'') \<or>
     (CHR ''0'' \<le> c \<and> c \<le> CHR ''9'') \<or> c = CHR ''_''"

definition word_at :: "string \<Rightarrow> nat \<Rightarrow> bool" where
  "word_at s i \<longleftrightarrow> i < length s \<and> is_word_char (s ! i)"

definition bound_at :: "string \<Rightarrow> nat \<Rightarrow> bool" where
  "bound_at s i \<longleftrightarrow> (if i = 0 then word_at s 0 else word_at s (i - 1) \<noteq> word_at s i)"

text \<open>
  Greedy repetition of a step: longer repetitions first, and a repetition that consumes nothing is
  given up, as in the language. Every repetition consumes a character, so \<open>n\<close> = the length of the text
  is enough.
\<close>

fun star_ends :: "nat \<Rightarrow> (nat \<Rightarrow> nat list) \<Rightarrow> nat \<Rightarrow> nat list" where
  "star_ends 0 f i = [i]"
| "star_ends (Suc n) f i = concat (map (star_ends n f) (filter (\<lambda>j. i < j) (f i))) @ [i]"

primrec ends :: "regex \<Rightarrow> string \<Rightarrow> nat \<Rightarrow> nat list" where
  "ends (RChar P) s i = (if i < length s \<and> P (s ! i) then [Suc i] else [])"
| "ends REps s i = [i]"
| "ends (RSeq a b) s i = concat (map (ends b s) (ends a s i))"
| "ends (RAlt a b) s i = ends a s i @ ends b s i"
| "ends (RStar a) s i = star_ends (length s) (ends a s) i"
| "ends RBound s i = (if bound_at s i then [i] else [])"
| "ends RBegin s i = (if i = 0 then [i] else [])"
| "ends REnd s i = (if i = length s then [i] else [])"

text \<open>\<open>re.test(s)\<close>, and the first match as its start and end.\<close>

definition rx_test :: "regex \<Rightarrow> string \<Rightarrow> bool" where
  "rx_test r s \<longleftrightarrow> list_ex (\<lambda>i. ends r s i \<noteq> []) [0..<Suc (length s)]"

section \<open>Declarative meaning\<close>

inductive rx_match :: "string \<Rightarrow> regex \<Rightarrow> nat \<Rightarrow> nat \<Rightarrow> bool" for s where
  rm_char: "i < length s \<Longrightarrow> P (s ! i) \<Longrightarrow> rx_match s (RChar P) i (Suc i)"
| rm_eps: "rx_match s REps i i"
| rm_seq: "rx_match s a i j \<Longrightarrow> rx_match s b j k \<Longrightarrow> rx_match s (RSeq a b) i k"
| rm_altL: "rx_match s a i j \<Longrightarrow> rx_match s (RAlt a b) i j"
| rm_altR: "rx_match s b i j \<Longrightarrow> rx_match s (RAlt a b) i j"
| rm_starE: "rx_match s (RStar a) i i"
| rm_starS: "rx_match s a i j \<Longrightarrow> rx_match s (RStar a) j k \<Longrightarrow> rx_match s (RStar a) i k"
| rm_bound: "bound_at s i \<Longrightarrow> rx_match s RBound i i"
| rm_begin: "rx_match s RBegin 0 0"
| rm_end: "rx_match s REnd (length s) (length s)"

inductive_cases rx_match_charE: "rx_match s (RChar P) i j"
inductive_cases rx_match_epsE: "rx_match s REps i j"
inductive_cases rx_match_seqE: "rx_match s (RSeq a b) i j"
inductive_cases rx_match_altE: "rx_match s (RAlt a b) i j"
inductive_cases rx_match_boundE: "rx_match s RBound i j"
inductive_cases rx_match_beginE: "rx_match s RBegin i j"
inductive_cases rx_match_endE: "rx_match s REnd i j"

lemmas rx_match_elims = rx_match_charE rx_match_epsE rx_match_seqE rx_match_altE rx_match_boundE rx_match_beginE rx_match_endE

lemma rx_match_mono: "rx_match s r i j \<Longrightarrow> i \<le> j \<and> (i \<le> length s \<longrightarrow> j \<le> length s)"
  by (induction rule: rx_match.induct) auto

lemma star_ends_sound:
  assumes "\<And>i j. j \<in> set (f i) \<Longrightarrow> rx_match s a i j" and "j \<in> set (star_ends n f i)"
  shows "rx_match s (RStar a) i j"
  using assms(2)
proof (induction n arbitrary: i)
  case (Suc n)
  then show ?case using assms(1) by (auto intro: rm_starE rm_starS)
qed (auto intro: rm_starE)

lemma ends_sound: "j \<in> set (ends r s i) \<Longrightarrow> rx_match s r i j"
proof (induction r arbitrary: i j)
  case (RStar a)
  then show ?case using star_ends_sound[of "ends a s" s a] by auto
next
  case (RSeq a b)
  then show ?case by auto (metis rm_seq)
qed (auto intro: rx_match.intros split: if_splits)

lemma star_ends_complete:
  assumes f: "\<And>i j. rx_match s a i j \<Longrightarrow> i \<le> length s \<Longrightarrow> j \<in> set (f i)"
  shows "rx_match s r i j \<Longrightarrow> r = RStar a \<Longrightarrow> i \<le> length s \<Longrightarrow> length s - i \<le> n \<Longrightarrow> j \<in> set (star_ends n f i)"
proof (induction arbitrary: n rule: rx_match.induct)
  case (rm_starE a' i)
  then show ?case by (cases n) auto
next
  case (rm_starS a' i j k)
  have ij: "i \<le> j" "j \<le> length s" using rx_match_mono[OF rm_starS.hyps(1)] rm_starS.prems by auto
  show ?case
  proof (cases "i = j")
    case True
    then show ?thesis using rm_starS by simp
  next
    case False
    then obtain m where n: "n = Suc m" "length s - j \<le> m" using ij rm_starS.prems by (cases n) auto
    then have "k \<in> set (star_ends m f j)" using rm_starS ij by simp
    moreover have "j \<in> set (f i)" using rm_starS f by simp
    ultimately show ?thesis using False ij n by auto
  qed
qed simp_all

lemma ends_complete: "rx_match s r i j \<Longrightarrow> i \<le> length s \<Longrightarrow> j \<in> set (ends r s i)"
proof (induction r arbitrary: i j)
  case (RSeq a b)
  then show ?case using rx_match_mono by (fastforce elim!: rx_match_seqE)
next
  case (RStar a)
  then show ?case using star_ends_complete[of s a "ends a s" "RStar a" i j "length s"] by simp
qed (auto elim!: rx_match_elims)

text \<open>Testing an expression finds a match exactly when there is one.\<close>

lemma rx_test_ends: "rx_test r s \<longleftrightarrow> (\<exists>i \<le> length s. ends r s i \<noteq> [])"
  by (auto simp: rx_test_def list_ex_iff less_Suc_eq_le simp del: upt_Suc)

lemma rx_test_iff: "rx_test r s \<longleftrightarrow> (\<exists>i j. i \<le> length s \<and> rx_match s r i j)"
proof
  assume "rx_test r s"
  then obtain i where "i \<le> length s" "ends r s i \<noteq> []" by (auto simp: rx_test_ends)
  then show "\<exists>i j. i \<le> length s \<and> rx_match s r i j" using ends_sound[of "hd (ends r s i)" r s i] by auto
next
  assume "\<exists>i j. i \<le> length s \<and> rx_match s r i j"
  then obtain i j where "i \<le> length s" "rx_match s r i j" by auto
  then have "ends r s i \<noteq> []" using ends_complete by fastforce
  then show "rx_test r s" using \<open>i \<le> length s\<close> by (auto simp: rx_test_ends)
qed

section \<open>Building blocks\<close>

text \<open>Literal text, literal text of a case-insensitive expression (the literal in lower case), the
  classes \<open>\\s\<close>, \<open>\\d\<close> and \<open>.\<close>, and optional parts.\<close>

fun rx_str :: "string \<Rightarrow> regex" where
  "rx_str [] = REps"
| "rx_str (c # cs) = RSeq (RChar (\<lambda>d. d = c)) (rx_str cs)"

fun rx_istr :: "string \<Rightarrow> regex" where
  "rx_istr [] = REps"
| "rx_istr (c # cs) = RSeq (RChar (\<lambda>d. lower_char d = c)) (rx_istr cs)"

fun rx_alts :: "regex list \<Rightarrow> regex" where
  "rx_alts [] = RChar (\<lambda>_. False)"
| "rx_alts [r] = r"
| "rx_alts (r # rs) = RAlt r (rx_alts rs)"

fun rx_seqs :: "regex list \<Rightarrow> regex" where
  "rx_seqs [] = REps"
| "rx_seqs [r] = r"
| "rx_seqs (r # rs) = RSeq r (rx_seqs rs)"

definition rx_opt :: "regex \<Rightarrow> regex" where
  "rx_opt r = RAlt r REps"

definition rx_plus :: "regex \<Rightarrow> regex" where
  "rx_plus r = RSeq r (RStar r)"

definition rx_space :: regex where
  "rx_space = RChar is_ws"

definition rx_digit :: regex where
  "rx_digit = RChar (\<lambda>c. CHR ''0'' \<le> c \<and> c \<le> CHR ''9'')"

definition rx_any :: regex where
  "rx_any = RChar (\<lambda>c. c \<noteq> CHR 0x0A \<and> c \<noteq> CHR 0x0D)"

text \<open>A literal matches exactly where it occurs.\<close>

lemma rx_match_str: "rx_match s (rx_str l) i j \<Longrightarrow> take (length l) (drop i s) = l \<and> j = i + length l"
proof (induction l arbitrary: i)
  case Nil
  then show ?case by (auto elim: rx_match_epsE)
next
  case (Cons c l)
  then obtain k where k: "rx_match s (RChar (\<lambda>d. d = c)) i k" "rx_match s (rx_str l) k j"
    by (auto elim: rx_match_seqE)
  then have "k = Suc i" "i < length s" "s ! i = c" by (auto elim: rx_match_charE)
  moreover have "take (length l) (drop k s) = l \<and> j = k + length l" using Cons.IH k(2) by simp
  ultimately show ?case by (metis Cons_nth_drop_Suc add_Suc_right add_Suc_shift length_Cons take_Suc_Cons)
qed

section \<open>Replacement\<close>

text \<open>
  \<open>s.replace(/(P)B(S)/g, "$1" + rep + "$2")\<close>: in every leftmost match the middle part is replaced. The
  expressions this is used for never match the empty text.
\<close>

definition parts_match :: "regex \<Rightarrow> regex \<Rightarrow> regex \<Rightarrow> string \<Rightarrow> nat \<Rightarrow> (nat \<times> nat \<times> nat) list" where
  "parts_match p b f s i =
     concat (map (\<lambda>j. concat (map (\<lambda>k. map (\<lambda>l. (j, k, l)) (ends f s k)) (ends b s j))) (ends p s i))"

definition slice :: "nat \<Rightarrow> nat \<Rightarrow> string \<Rightarrow> string" where
  "slice i j s = take (j - i) (drop i s)"

function rx_replace :: "regex \<Rightarrow> regex \<Rightarrow> regex \<Rightarrow> string \<Rightarrow> string \<Rightarrow> nat \<Rightarrow> string" where
  "rx_replace p b f rep s i =
     (if i \<ge> length s then []
      else case parts_match p b f s i of
             (j, k, l) # _ \<Rightarrow>
               (if i < l then slice i j s @ rep @ slice k l s @ rx_replace p b f rep s l
                else s ! i # rx_replace p b f rep s (Suc i))
           | [] \<Rightarrow> s ! i # rx_replace p b f rep s (Suc i))"
  by pat_completeness auto
termination
  by (relation "measure (\<lambda>(p, b, f, rep, s, i). length s - i)") auto

declare rx_replace.simps [simp del]

text \<open>A text without a match is unchanged.\<close>

lemma rx_replace_none:
  "(\<And>j. i \<le> j \<Longrightarrow> j < length s \<Longrightarrow> parts_match p b f s j = []) \<Longrightarrow> rx_replace p b f rep s i = drop i s"
proof (induction "length s - i" arbitrary: i)
  case 0
  then show ?case by (simp add: rx_replace.simps)
next
  case (Suc n)
  then have "rx_replace p b f rep s (Suc i) = drop (Suc i) s" by (intro Suc.hyps(1)) auto
  then show ?case using Suc.prems[of i] Suc.hyps(2) by (simp add: rx_replace.simps[of p b f rep s i] Cons_nth_drop_Suc)
qed

end
