(* ===== verification/Runtime_Errors.thy ===== *)
theory Runtime_Errors
  imports Js_Regex
begin

text \<open>
  Classification of runtime failures (\<open>runtime-errors.ts\<close> and the session-failure test of the
  dispatcher): authentication failures, transient failures, usage limits and their reset hint, all as
  the regular expressions of the source.
\<close>

section \<open>Authentication failures\<close>

definition auth_phrase :: "string list \<Rightarrow> regex" where
  "auth_phrase ws = rx_alts (map rx_istr ws)"

definition AUTH_FAILURE_PATTERNS :: "regex list" where
  "AUTH_FAILURE_PATTERNS =
    [rx_seqs [RBegin, auth_phrase [''failed to authenticate'', ''authentication failed'', ''invalid api key'',
       ''invalid anthropic api key''], RBound],
     rx_seqs [RBound, rx_istr ''api error'', rx_opt (rx_str '':''), RStar rx_space, rx_alts [rx_str ''401'', rx_str ''403''],
       RBound, RStar rx_any, RBound,
       auth_phrase [''invalid authentication credentials'', ''authentication failed'', ''invalid api key'', ''unauthorized'',
         ''forbidden'', ''request not allowed'', ''invalid x-api-key''], RBound],
     rx_seqs [RBound, auth_phrase [''request not allowed'', ''invalid x-api-key''], RBound],
     rx_seqs [RBegin, auth_phrase [''unauthorized'', ''forbidden''], RAlt RBound (rx_str '':'')]]"

definition looksLikeRuntimeAuthFailure :: "string \<Rightarrow> bool" where
  "looksLikeRuntimeAuthFailure txt =
     (let s = trim txt in if s = [] then False else list_ex (\<lambda>re. rx_test re s) AUTH_FAILURE_PATTERNS)"

section \<open>Transient failures\<close>

definition TRANSIENT_RUNTIME_ERROR_PATTERNS :: "regex list" where
  "TRANSIENT_RUNTIME_ERROR_PATTERNS =
    [rx_seqs [RBound, auth_phrase [''econnrefused'', ''econnreset'', ''etimedout'', ''eai_again'', ''epipe''], RBound],
     rx_seqs [RBound, rx_istr ''socket hang'', rx_opt (rx_str '' ''), rx_istr ''up'', RBound],
     rx_seqs [RBound, rx_istr ''connection '', auth_phrase [''refused'', ''reset'', ''closed'', ''timed out''], RBound],
     rx_seqs [RBound, rx_istr ''stream disconnected before completion'', RBound],
     rx_seqs [RBound, rx_str ''-32603'', RBound],
     rx_seqs [RBound, rx_istr ''internal error'', RBound],
     rx_seqs [RBound, auth_phrase [''bad gateway'', ''service unavailable'', ''gateway timeout'', ''temporarily unavailable''], RBound],
     rx_seqs [RBound, rx_str ''50'', RChar (\<lambda>c. c \<in> set ''0234''), RBound]]"

definition looksLikeTransientRuntimeError :: "string \<Rightarrow> bool" where
  "looksLikeTransientRuntimeError txt =
     (let s = trim txt in if s = [] then False else list_ex (\<lambda>re. rx_test re s) TRANSIENT_RUNTIME_ERROR_PATTERNS)"

section \<open>Usage limits\<close>

definition rx_sep :: regex where
  "rx_sep = rx_opt (RChar (\<lambda>c. c = CHR ''_'' \<or> is_ws c \<or> c = CHR ''-''))"

definition USAGE_LIMIT_PATTERNS :: "regex list" where
  "USAGE_LIMIT_PATTERNS =
    [rx_seqs [rx_istr ''usage'', rx_sep, rx_istr ''limit'', rx_sep, rx_istr ''reached''],
     rx_seqs [RBound, rx_plus rx_digit, rx_istr ''-hour '', rx_opt (rx_istr ''message ''), rx_istr ''limit'', RBound],
     rx_seqs [rx_istr ''you'', rx_opt (rx_str [CHR 0x27]), rx_istr ''ve '', auth_phrase [''hit'', ''reached''], rx_istr '' your '',
       RStar (auth_phrase [''usage '', ''message '', ''daily '', ''weekly '']), rx_istr ''limit''],
     rx_seqs [RBound, rx_istr ''insufficient_quota'', RBound],
     rx_seqs [RBound, rx_istr ''quota '', auth_phrase [''exceeded'', ''exhausted'', ''reached''], RBound],
     rx_seqs [RBound, rx_istr ''rate'', rx_sep, rx_istr ''limit'',
       rx_alts [RSeq (rx_opt (rx_str ''_'')) (auth_phrase [''exceeded'', ''error'']), rx_istr ''ed'',
         RSeq (rx_plus rx_space) (auth_phrase [''reached'', ''exceeded'', ''hit''])]]]"

definition looksLikeUsageLimit :: "string \<Rightarrow> bool" where
  "looksLikeUsageLimit txt =
     (let s = trim txt in if s = [] then False else list_ex (\<lambda>re. rx_test re s) USAGE_LIMIT_PATTERNS)"

text \<open>\<open>collapseWs\<close>: every run of white space becomes one blank, and the ends are trimmed.\<close>

fun squeeze_ws :: "bool \<Rightarrow> string \<Rightarrow> string" where
  "squeeze_ws _ [] = []"
| "squeeze_ws prev (c # cs) =
     (if is_ws c then (if prev then squeeze_ws True cs else CHR '' '' # squeeze_ws True cs)
      else c # squeeze_ws False cs)"

definition collapseWs :: "string \<Rightarrow> string" where
  "collapseWs s = trim (squeeze_ws False s)"

text \<open>
  The captured text of \<open>P(.+?)Q\<close>: the first start, then the first end of \<open>P\<close>, then the shortest
  non-empty run of ordinary characters after which \<open>Q\<close> matches.
\<close>

definition lazy_ends :: "regex \<Rightarrow> string \<Rightarrow> nat \<Rightarrow> nat list" where
  "lazy_ends q s j =
     filter (\<lambda>k. (\<forall>m \<in> set [j..<k]. s ! m \<noteq> CHR 0x0A \<and> s ! m \<noteq> CHR 0x0D) \<and> ends q s k \<noteq> []) [Suc j..<Suc (length s)]"

definition rx_capture :: "regex \<Rightarrow> regex \<Rightarrow> string \<Rightarrow> string option" where
  "rx_capture p q s =
     (case concat (map (\<lambda>i. concat (map (\<lambda>j. map (\<lambda>k. (j, k)) (lazy_ends q s j)) (ends p s i))) [0..<Suc (length s)]) of
        [] \<Rightarrow> None
      | (j, k) # _ \<Rightarrow> Some (take (k - j) (drop j s)))"

text \<open>The numerals of \<open>reached|1719345600\<close>: ten to thirteen digits.\<close>

fun digit_run :: "string \<Rightarrow> string" where
  "digit_run [] = []"
| "digit_run (c # cs) = (if CHR ''0'' \<le> c \<and> c \<le> CHR ''9'' then c # digit_run cs else [])"

definition pipe_digits :: "string \<Rightarrow> string option" where
  "pipe_digits s =
     (let p = rx_seqs [rx_str ''reached'', RStar rx_space, rx_str ''|'', RStar rx_space];
          runs = concat (map (\<lambda>i. map (\<lambda>j. take 13 (digit_run (drop j s))) (ends p s i)) [0..<Suc (length s)])
      in find (\<lambda>ds. length ds \<ge> 10) runs)"

text \<open>\<open>new Date(ms).toISOString()\<close> to the minute, with the blank in place of \<open>T\<close>: proleptic Gregorian date
  of a non-negative time, years above 9999 in the expanded form.\<close>

definition pad :: "nat \<Rightarrow> int \<Rightarrow> string" where
  "pad w n = (let s = int_str n in replicate (w - length s) (CHR ''0'') @ s)"

definition digits_int :: "string \<Rightarrow> int" where
  "digits_int s = foldl (\<lambda>a c. 10 * a + (of_char c - 48)) 0 s"

definition civil :: "int \<Rightarrow> int \<times> int \<times> int" where
  "civil days =
     (let z = days + 719468; era = z div 146097; doe = z mod 146097;
          yoe = (doe - doe div 1460 + doe div 36524 - doe div 146096) div 365;
          doy = doe - (365 * yoe + yoe div 4 - yoe div 100);
          mp = (5 * doy + 2) div 153;
          d = doy - (153 * mp + 2) div 5 + 1;
          m = (if mp < 10 then mp + 3 else mp - 9)
      in (yoe + era * 400 + (if m \<le> 2 then 1 else 0), m, d))"

definition iso_minute :: "int \<Rightarrow> string" where
  "iso_minute ms =
     (let (y, m, d) = civil (ms div 86400000);
          minutes = ms div 60000 mod 1440;
          year = (if y > 9999 then ''+'' @ pad 6 y else pad 4 y)
      in take 16 (year @ ''-'' @ pad 2 m @ ''-'' @ pad 2 d @ '' '' @ pad 2 (minutes div 60) @ '':'' @ pad 2 (minutes mod 60) @
           '':'' @ pad 2 (ms div 1000 mod 60)))"

definition extractUsageLimitReset :: "string \<Rightarrow> string option" where
  "extractUsageLimitReset txt =
     (let s = trim txt;
          stop = RAlt (RChar (\<lambda>c. c = CHR ''.'' \<or> c = CHR '','' \<or> c = CHR 0x0A)) REnd
      in if s = [] then None
         else
           case rx_capture
                  (rx_seqs [rx_istr ''reset'', rx_opt (auth_phrase [''s'', ''ting'']), rx_plus rx_space, rx_istr ''at'', rx_plus rx_space,
                     rx_opt (RSeq (rx_istr ''approximately'') (rx_plus rx_space))])
                  (rx_seqs [rx_opt (rx_seqs [rx_plus rx_space, rx_istr ''time'', RBound]), RStar rx_space, stop]) s of
             Some a \<Rightarrow> Some (collapseWs a)
           | None \<Rightarrow>
               (case rx_capture
                       (rx_seqs [rx_istr ''try again '', auth_phrase [''in'', ''after''], rx_plus rx_space])
                       (rx_seqs [RStar rx_space, stop]) s of
                  Some r \<Rightarrow> Some (''in '' @ collapseWs r)
                | None \<Rightarrow>
                    (case pipe_digits s of
                       Some ds \<Rightarrow> Some (iso_minute (if length ds \<ge> 13 then digits_int ds else digits_int ds * 1000) @ '' UTC'')
                     | None \<Rightarrow> None)))"

definition runtimeLabel :: "string \<Rightarrow> string" where
  "runtimeLabel runtime =
     (let r = toLowerCase runtime
      in if r = ''claude-code'' \<or> r = ''claude'' then ''Claude Code''
         else if r = ''codex'' then ''Codex''
         else if r = ''gemini'' then ''Gemini''
         else ''Agent runtime'')"

definition formatUsageLimitMessage :: "string \<Rightarrow> string \<Rightarrow> string" where
  "formatUsageLimitMessage txt runtime =
     (let who = runtimeLabel runtime
      in case extractUsageLimitReset txt of
           Some reset \<Rightarrow>
             (if reset \<noteq> []
              then let when' = (if rx_test (rx_seqs [RBegin, rx_istr ''in'', rx_space]) reset
                                then ''resets '' @ reset else ''resets at '' @ reset)
                   in who @ '' usage limit reached '' @ em_dash @ '' '' @ when' @ ''.''
              else who @ '' usage limit reached '' @ em_dash @ '' please try again later.'')
         | None \<Rightarrow> who @ '' usage limit reached '' @ em_dash @ '' please try again later.'')"

section \<open>Session failures\<close>

definition RECOVERABLE_SESSION_FAILURE :: regex where
  "RECOVERABLE_SESSION_FAILURE =
     rx_alts [rx_istr ''compact'', rx_istr ''compaction'', rx_istr ''context'', rx_istr ''token limit'', rx_istr ''maximum context'',
       rx_istr ''too many tokens'', rx_istr ''conversation found'',
       rx_seqs [rx_istr ''session '', RStar rx_any, rx_istr ''not found''], rx_istr ''resume'']"

definition looksLikeRecoverableSessionFailure :: "string \<Rightarrow> bool" where
  "looksLikeRecoverableSessionFailure e = rx_test RECOVERABLE_SESSION_FAILURE e"

definition FRESH_RETRY_SESSION_FAILURE_RUNTIMES :: "string list" where
  "FRESH_RETRY_SESSION_FAILURE_RUNTIMES = [''codex'', ''hermes-agent'', ''openclaw-acp'', ''kimi-cli'']"

section \<open>What the patterns accept\<close>

lemma rx_match_bounded: "rx_match s (RSeq RBound (RSeq r q)) i j \<Longrightarrow> bound_at s i \<and> (\<exists>k. rx_match s r i k)"
  by (auto elim!: rx_match_seqE rx_match_boundE)

text \<open>The JSON-RPC code of an internal error is only recognized after a word character: the boundary
  before its minus sign fails after a blank, a bracket or at the start, so the adapters' own
  message \<open>acp error -32603: database unavailable\<close> is not transient by its code.\<close>

theorem acp_code_needs_word_before:
  assumes "rx_test (TRANSIENT_RUNTIME_ERROR_PATTERNS ! 4) s"
  shows "\<exists>i. 0 < i \<and> is_word_char (s ! (i - 1)) \<and> take 6 (drop i s) = ''-32603''"
proof -
  have p: "TRANSIENT_RUNTIME_ERROR_PATTERNS ! 4 = RSeq RBound (RSeq (rx_str ''-32603'') RBound)"
    by (simp add: TRANSIENT_RUNTIME_ERROR_PATTERNS_def numeral_eq_Suc)
  from assms obtain i j where "i \<le> length s" "rx_match s (RSeq RBound (RSeq (rx_str ''-32603'') RBound)) i j"
    unfolding p rx_test_iff by blast
  then obtain k where b: "bound_at s i" and k: "rx_match s (rx_str ''-32603'') i k"
    using rx_match_bounded[of s "rx_str ''-32603''" RBound i j] by blast
  from rx_match_str[OF k] have t: "take 6 (drop i s) = ''-32603''" by (simp add: numeral_eq_Suc)
  then obtain r where d: "drop i s = CHR ''-'' # r" by (cases "drop i s") auto
  then have "i < length s" "s ! i = CHR ''-''" by (metis drop_eq_Nil linorder_not_less list.distinct(1), metis d nth_via_drop)
  then have "\<not> word_at s i" by (simp add: word_at_def is_word_char_def)
  then have "0 < i \<and> word_at s (i - 1)" using b by (auto simp: bound_at_def split: if_splits)
  then show ?thesis using t by (auto simp: word_at_def)
qed

theorem acp_code_needs_word_before_witness:
  "rx_test (TRANSIENT_RUNTIME_ERROR_PATTERNS ! 4) ''e-32603'' \<and> \<not> rx_test (TRANSIENT_RUNTIME_ERROR_PATTERNS ! 4) '' -32603''"
proof
  show "rx_test (TRANSIENT_RUNTIME_ERROR_PATTERNS ! 4) ''e-32603''" by code_simp
  have False if "rx_test (TRANSIENT_RUNTIME_ERROR_PATTERNS ! 4) '' -32603''"
  proof -
    from acp_code_needs_word_before[OF that] obtain i where i: "0 < i" "is_word_char ('' -32603'' ! (i - 1))"
      "take 6 (drop i '' -32603'') = ''-32603''" by blast
    from i(3) have "length (take 6 (drop i '' -32603'')) = 6" by simp
    then have "i = 1" using i(1) by simp
    with i(2) show False by (simp add: is_word_char_def)
  qed
  then show "\<not> rx_test (TRANSIENT_RUNTIME_ERROR_PATTERNS ! 4) '' -32603''" by blast
qed

end
