(* ===== verification/Runtime_Failure.thy ===== *)
theory Runtime_Failure
  imports Gateway_Types Runtime_Errors
begin

text \<open>
  The safe summary of a failed runtime (\<open>runtime-failure.ts\<close>, \<open>captureRuntimeFailure\<close> of the
  dispatcher): secrets are redacted from messages, output tails and command lines before anything is
  logged, recorded or shown. The random reference of a failure is a parameter.
\<close>

section \<open>Redaction\<close>

definition RUNTIME_FAILURE_TAIL_LIMIT :: nat where
  "RUNTIME_FAILURE_TAIL_LIMIT = 8 * 1024"

definition rx_us :: regex where
  "rx_us = rx_opt (RChar (\<lambda>c. c = CHR ''_'' \<or> c = CHR ''-''))"

definition secret_names :: "regex list" where
  "secret_names =
    [rx_seqs [rx_istr ''access'', rx_us, rx_istr ''token''], rx_seqs [rx_istr ''refresh'', rx_us, rx_istr ''token''],
     rx_seqs [rx_istr ''api'', rx_us, rx_istr ''key''], rx_istr ''apikey'', rx_istr ''password'', rx_istr ''secret'', rx_istr ''token'']"

definition SECRET_KEY_NAME_SOURCE :: regex where
  "SECRET_KEY_NAME_SOURCE =
     rx_alts ([rx_seqs [rx_istr ''openai'', rx_us, rx_istr ''api'', rx_us, rx_istr ''key''],
       rx_seqs [rx_istr ''anthropic'', rx_us, rx_istr ''api'', rx_us, rx_istr ''key''], rx_istr ''x-api-key''] @ secret_names)"

definition SECRET_VALUE_FLAGS :: "string list" where
  "SECRET_VALUE_FLAGS =
    [''--api-key'', ''--api_key'', ''--apikey'', ''--token'', ''--access-token'', ''--access_token'', ''--refresh-token'',
     ''--refresh_token'', ''--password'', ''--secret'']"

definition SECRET_FLAG_SOURCE :: regex where
  "SECRET_FLAG_SOURCE = rx_alts (map rx_istr SECRET_VALUE_FLAGS)"

text \<open>A quoted name, a separator and an opening quote; the quoted value; the closing quote. The back
  references to the two quotes are unfolded into the two possible quotes.\<close>

definition quote_chars :: "string list" where
  "quote_chars = [[CHR 0x22], [CHR 0x27]]"

definition quoted_prefix :: "regex \<Rightarrow> string \<Rightarrow> string \<Rightarrow> regex" where
  "quoted_prefix name sep q =
     RSeq (rx_alts (map (\<lambda>k. rx_seqs [rx_str k, name, rx_str k]) quote_chars))
       (rx_seqs [RStar rx_space, rx_str sep, RStar rx_space, rx_str q])"

definition quoted_value :: regex where
  "quoted_value =
     (let plain = RChar (\<lambda>c. c \<noteq> CHR 0x22 \<and> c \<noteq> CHR 0x27 \<and> c \<noteq> CHR 0x5C)
      in RSeq (RStar plain) (RStar (rx_seqs [rx_str [CHR 0x5C], rx_any, RStar plain])))"

text \<open>
  Both closing alternatives in one pass: the prefixes for the two opening quotes are tried in order at
  each position.
\<close>

definition quoted_match :: "regex \<Rightarrow> string \<Rightarrow> string \<Rightarrow> nat \<Rightarrow> (nat \<times> nat \<times> nat) list" where
  "quoted_match name sep s i = concat (map (\<lambda>q. parts_match (quoted_prefix name sep q) quoted_value (rx_str q) s i) quote_chars)"

function redact_quoted :: "regex \<Rightarrow> string \<Rightarrow> string \<Rightarrow> nat \<Rightarrow> string" where
  "redact_quoted name sep s i =
     (if i \<ge> length s then []
      else case quoted_match name sep s i of
             (j, k, l) # _ \<Rightarrow>
               (if i < l then slice i j s @ ''[REDACTED]'' @ slice k l s @ redact_quoted name sep s l
                else s ! i # redact_quoted name sep s (Suc i))
           | [] \<Rightarrow> s ! i # redact_quoted name sep s (Suc i))"
  by pat_completeness auto
termination
  by (relation "measure (\<lambda>(name, sep, s, i). length s - i)") auto

declare redact_quoted.simps [simp del]

definition value_run :: regex where
  "value_run = rx_plus (RChar (\<lambda>c. \<not> is_ws c \<and> c \<noteq> CHR 0x22 \<and> c \<noteq> CHR 0x27))"

definition token_run :: regex where
  "token_run = rx_plus (RChar (\<lambda>c. is_word_char c \<or> c = CHR ''-''))"

definition SECRET_VALUE_PATTERNS :: "(regex \<times> regex) list" where
  "SECRET_VALUE_PATTERNS =
    [(rx_seqs [rx_istr ''authorization:'', RStar rx_space, rx_istr ''bearer'', rx_plus rx_space], value_run),
     (rx_seqs [RAlt RBegin rx_space, SECRET_FLAG_SOURCE, rx_str ''=''], value_run),
     (rx_seqs [RAlt RBegin rx_space, SECRET_FLAG_SOURCE, rx_plus rx_space], value_run),
     (rx_seqs [RBound,
        rx_alts ([rx_seqs [rx_alts [rx_istr ''openai'', rx_istr ''anthropic''], rx_us, rx_istr ''api'', rx_us, rx_istr ''key''],
          rx_istr ''x-api-key''] @ secret_names),
        RStar rx_space, RChar (\<lambda>c. c = CHR '':'' \<or> c = CHR ''=''), RStar rx_space], value_run),
     (rx_seqs [RBound, rx_alts (map rx_str [''drt_'', ''dit_'', ''gho_'', ''ghp_'', ''sk-''])], token_run)]"

definition tailText :: "string option \<Rightarrow> nat \<Rightarrow> string option" where
  "tailText value limit =
     (case value of
        None \<Rightarrow> None
      | Some v \<Rightarrow> (if v = [] then None else Some (if length v > limit then take_last limit v else v)))"

definition sanitizeRuntimeFailureText :: "string \<Rightarrow> nat \<Rightarrow> string" where
  "sanitizeRuntimeFailureText value limit =
     (let a = redact_quoted SECRET_KEY_NAME_SOURCE '':'' value 0;
          b = redact_quoted SECRET_FLAG_SOURCE '','' a 0;
          c = foldl (\<lambda>out (p, v). rx_replace p v REps ''[REDACTED]'' out 0) b SECRET_VALUE_PATTERNS
      in case tailText (Some c) limit of Some t \<Rightarrow> t | None \<Rightarrow> [])"

text \<open>\<open>safeCommand\<close>: the argument after a secret flag is replaced as a whole.\<close>

fun safe_parts :: "string list \<Rightarrow> string list" where
  "safe_parts [] = []"
| "safe_parts [part] = [sanitizeRuntimeFailureText part 512]"
| "safe_parts (part # next # rest) =
     (if toLowerCase part \<in> set SECRET_VALUE_FLAGS
      then sanitizeRuntimeFailureText part 512 # ''[REDACTED]'' # safe_parts rest
      else sanitizeRuntimeFailureText part 512 # safe_parts (next # rest))"

definition safeCommand :: "string list option \<Rightarrow> string list option" where
  "safeCommand command =
     (case command of
        None \<Rightarrow> None
      | Some parts \<Rightarrow> (if length parts = 0 then None else Some (safe_parts parts)))"

section \<open>Summary of a failure\<close>

datatype thrown = ErrorObject string string | OtherThrown string

definition errorInfo :: "thrown \<Rightarrow> string option \<times> string" where
  "errorInfo err =
     (case err of
        ErrorObject name message \<Rightarrow> (Some (if name \<noteq> [] then name else ''Error''), sanitizeRuntimeFailureText message 2048)
      | OtherThrown shown \<Rightarrow> (None, sanitizeRuntimeFailureText shown 2048))"

record failure_report =
  fr_cwd :: "string option"
  fr_command :: "string list option"
  fr_exit_code :: "int option"
  fr_signal :: "string option"
  fr_duration_ms :: "int option"
  fr_stderr_tail :: "string option"
  fr_stdout_tail :: "string option"
  fr_error_name :: "string option"
  fr_error_message :: "string option"

definition no_report :: failure_report where
  "no_report = \<lparr>fr_cwd = None, fr_command = None, fr_exit_code = None, fr_signal = None, fr_duration_ms = None,
     fr_stderr_tail = None, fr_stdout_tail = None, fr_error_name = None, fr_error_message = None\<rparr>"

record failure_summary =
  fs_agent_id :: string
  fs_room_id :: string
  fs_topic_id :: "string option"
  fs_turn_id :: string
  fs_runtime :: string
  fs_cwd :: string
  fs_command :: "string list option"
  fs_exit_code :: "int option"
  fs_signal :: "string option"
  fs_duration_ms :: int
  fs_stderr_tail :: "string option"
  fs_stdout_tail :: "string option"
  fs_error_name :: "string option"
  fs_error_message :: string

record captured_failure =
  cf_errorRef :: string
  cf_summary :: failure_summary
  cf_safeMessage :: string
  cf_usageLimitText :: "string option"

definition safe_tail :: "string option \<Rightarrow> string option" where
  "safe_tail t =
     (case t of
        Some s \<Rightarrow> tailText (Some (sanitizeRuntimeFailureText s RUNTIME_FAILURE_TAIL_LIMIT)) RUNTIME_FAILURE_TAIL_LIMIT
      | None \<Rightarrow> None)"

definition failure_message :: "thrown \<Rightarrow> string option \<Rightarrow> failure_report \<Rightarrow> string \<times> string" where
  "failure_message err resultError report =
     (let info = snd (errorInfo err);
          source = (if info \<noteq> [] then info else (case resultError of Some e \<Rightarrow> e | None \<Rightarrow> ''runtime error''));
          sanitized = sanitizeRuntimeFailureText source 2048;
          baseMessage = (if sanitized \<noteq> [] then sanitized else ''runtime error'');
          safeMessage = (case fr_exit_code report of
              Some code \<Rightarrow>
                (if \<not> includes_str baseMessage (''code '' @ int_str code)
                 then baseMessage @ '' (exit code '' @ int_str code @ '')'' else baseMessage)
            | None \<Rightarrow> baseMessage)
      in (baseMessage, safeMessage))"

definition captureRuntimeFailure ::
  "(failure_summary \<Rightarrow> string) \<Rightarrow> inbound_message \<Rightarrow> gateway_route \<Rightarrow> string \<Rightarrow> int \<Rightarrow> thrown \<Rightarrow> string option \<Rightarrow>
   failure_report \<Rightarrow> captured_failure" where
  "captureRuntimeFailure makeRuntimeErrorRef msg route turnId elapsed err resultError report =
     (let (baseMessage, safeMessage) = failure_message err resultError report;
          usageLimitText = (if looksLikeUsageLimit baseMessage
                            then Some (formatUsageLimitMessage baseMessage (r_runtime route)) else None);
          summary = \<lparr>fs_agent_id = m_accountId msg, fs_room_id = c_id (m_conversation msg),
            fs_topic_id = c_threadId (m_conversation msg), fs_turn_id = turnId, fs_runtime = r_runtime route,
            fs_cwd = (case fr_cwd report of Some d \<Rightarrow> d | None \<Rightarrow> r_cwd route),
            fs_command = safeCommand (fr_command report), fs_exit_code = fr_exit_code report, fs_signal = fr_signal report,
            fs_duration_ms = (case fr_duration_ms report of Some d \<Rightarrow> d | None \<Rightarrow> elapsed),
            fs_stderr_tail = safe_tail (fr_stderr_tail report), fs_stdout_tail = safe_tail (fr_stdout_tail report),
            fs_error_name = (case fr_error_name report of Some n \<Rightarrow> Some n | None \<Rightarrow> fst (errorInfo err)),
            fs_error_message = (case fr_error_message report of
                Some m \<Rightarrow> sanitizeRuntimeFailureText m 2048 | None \<Rightarrow> safeMessage)\<rparr>
      in \<lparr>cf_errorRef = makeRuntimeErrorRef summary, cf_summary = summary, cf_safeMessage = safeMessage,
          cf_usageLimitText = usageLimitText\<rparr>)"

section \<open>What a captured command shows\<close>

text \<open>\<open>hidden cmd i\<close>: argument \<open>i\<close> is the value of a secret flag, counting flags from the left.\<close>

fun hidden :: "string list \<Rightarrow> bool list" where
  "hidden [] = []"
| "hidden [part] = [False]"
| "hidden (part # next # rest) =
     (if toLowerCase part \<in> set SECRET_VALUE_FLAGS then False # True # hidden rest else False # hidden (next # rest))"

text \<open>A recorded command line has one part per argument: the value of a secret flag is the redaction
  mark and every other argument is sanitized and at most 512 characters long.\<close>

theorem safeCommand_redacts:
  assumes "cmd \<noteq> []"
  shows "safeCommand (Some cmd) =
    Some (map (\<lambda>(h, part). if h then ''[REDACTED]'' else sanitizeRuntimeFailureText part 512) (zip (hidden cmd) cmd)) \<and>
    length (hidden cmd) = length cmd"
proof -
  have "safe_parts cmd = map (\<lambda>(h, part). if h then ''[REDACTED]'' else sanitizeRuntimeFailureText part 512) (zip (hidden cmd) cmd) \<and>
    length (hidden cmd) = length cmd"
    by (induction cmd rule: safe_parts.induct) auto
  then show ?thesis using assms by (simp add: safeCommand_def)
qed

lemma sanitize_length: "length (sanitizeRuntimeFailureText s limit) \<le> limit \<or> limit = 0"
  by (auto simp: sanitizeRuntimeFailureText_def tailText_def take_last_def Let_def split: option.splits)

end
