(* ===== verification/Turn_Stream.thy ===== *)
theory Turn_Stream
  imports Gateway_Types Event_Machine Js_Regex
begin

text \<open>
  What a running turn shows while its runtime works (\<open>dispatcher.ts\<close>, the callbacks of \<open>runTurn\<close>): blocks
  recorded and forwarded to the channel, the thinking markers the dispatcher synthesizes, typing pings
  and their debounce table, the tool-call budget, and the events that abort a turn.

  The callbacks share the variables of \<open>runTurn\<close>; here they are the record \<open>stream_state\<close>, with what was
  handed to the channel and to the transcript as logs. Channel calls are fire and forget.
\<close>

section \<open>Blocks\<close>

datatype block_kind = AssistantText | ToolUse | ToolResult | SystemBlock | Thinking | OtherBlock

record stream_block =
  sb_raw :: jsval
  sb_kind :: block_kind
  sb_seq :: nat

record block_summary =
  bs_type :: block_kind
  bs_chars :: "nat option"
  bs_name :: "string option"

definition summarizeStreamBlock :: "stream_block \<Rightarrow> block_summary" where
  "summarizeStreamBlock block =
     (let raw = sb_raw block
      in if \<not> is_object raw then \<lparr>bs_type = sb_kind block, bs_chars = None, bs_name = None\<rparr>
         else
           let chars = map_option length (as_str (get_prop raw ''text''));
               name = as_str (get_prop raw ''name'');
               nested = get_prop (get_prop raw ''params'') ''update'';
               update = (if nested = JUndef \<or> nested = JNull then get_prop raw ''update'' else nested);
               name' = (if is_object update
                        then let byUpdate = (case get_prop update ''sessionUpdate'' of
                                   JStr u \<Rightarrow> (case name of Some n \<Rightarrow> (if n = [] then Some u else Some n) | None \<Rightarrow> Some u)
                                 | _ \<Rightarrow> name);
                                 toolCall = get_prop update ''toolCall''
                             in if is_object toolCall
                                then (case get_prop toolCall ''name'' of JStr t \<Rightarrow> Some t | _ \<Rightarrow> byUpdate)
                                else byUpdate
                        else name)
           in \<lparr>bs_type = sb_kind block, bs_chars = chars, bs_name = name'\<rparr>)"

definition hasOnlyRetrySafeLifecycleBlocks :: "block_summary list \<Rightarrow> bool" where
  "hasOnlyRetrySafeLifecycleBlocks blocks \<longleftrightarrow> (\<forall>b \<in> set blocks. bs_type b = SystemBlock \<or> bs_type b = Thinking)"

section \<open>Redaction of recorded blocks\<close>

definition TRANSCRIPT_BLOCK_RAW_LIMIT :: nat where
  "TRANSCRIPT_BLOCK_RAW_LIMIT = 16 * 1024"

text \<open>The ellipsis, as its UTF-8 bytes.\<close>

definition ellipsis :: string where
  "ellipsis = [CHR 0xE2, CHR 0x80, CHR 0xA6]"

definition SECRET_KEY_RE :: regex where
  "SECRET_KEY_RE =
     rx_alts [rx_istr ''token'', rx_istr ''secret'', rx_seqs [rx_istr ''private'', rx_opt rx_any, rx_istr ''key''],
       rx_seqs [rx_istr ''api'', rx_opt rx_any, rx_istr ''key''], rx_istr ''authorization'', rx_istr ''password'']"

definition value_char :: "char \<Rightarrow> bool" where
  "value_char c \<longleftrightarrow> \<not> is_ws c \<and> c \<noteq> CHR 0x22 \<and> c \<noteq> CHR 0x27"

definition token_char :: "char \<Rightarrow> bool" where
  "token_char c \<longleftrightarrow> is_word_char c \<or> c = CHR ''-''"

definition redactSecretString :: "string \<Rightarrow> string" where
  "redactSecretString s =
     (let hide = (\<lambda>p c t. rx_replace p (rx_plus (RChar c)) REps ''[REDACTED]'' t 0);
          a = hide (rx_seqs [rx_istr ''authorization:'', RStar rx_space, rx_istr ''bearer'', rx_plus rx_space]) value_char s;
          b = hide (rx_seqs [RBound, rx_istr ''token='']) value_char a
      in hide (rx_seqs [RBound, rx_alts [rx_str ''drt_'', rx_str ''dit_'', rx_str ''gho_'']]) token_char b)"

text \<open>\<open>redactAndCap\<close>; a parsed JSON value has no cycles.\<close>

definition redact_text :: "string \<Rightarrow> string" where
  "redact_text v = redactSecretString
     (if length v > TRANSCRIPT_BLOCK_RAW_LIMIT then take TRANSCRIPT_BLOCK_RAW_LIMIT v @ ellipsis else v)"

function redactAndCap :: "jsval \<Rightarrow> jsval" where
  "redactAndCap (JStr s) = JStr (redact_text s)"
| "redactAndCap (JArr xs) = JArr (map redactAndCap (take 50 xs))"
| "redactAndCap (JObj ps) =
     JObj (map (\<lambda>(key, child). (key, if rx_test SECRET_KEY_RE key then JStr ''[REDACTED]'' else redactAndCap child)) (take 80 ps))"
| "redactAndCap JUndef = JUndef"
| "redactAndCap JNull = JNull"
| "redactAndCap (JBool b) = JBool b"
| "redactAndCap (JNum n) = JNum n"
  by pat_completeness auto
termination
proof (relation "measure size", goal_cases)
  case (2 xs x)
  then have "size x \<le> size_list size xs" by (auto intro: size_list_estimation' dest: in_set_takeD)
  then show ?case by simp
next
  case (3 ps p key child)
  then have "(key, child) \<in> set ps" by (auto dest: in_set_takeD)
  then have "size child \<le> size_list (size_prod (\<lambda>x. 0) size) ps" by (auto intro: size_list_estimation')
  then show ?case by simp
qed simp

fun secrets_redacted :: "jsval \<Rightarrow> bool" where
  "secrets_redacted (JArr xs) = (\<forall>x \<in> set xs. secrets_redacted x)"
| "secrets_redacted (JObj ps) =
     (\<forall>p \<in> set ps. (rx_test SECRET_KEY_RE (fst p) \<longrightarrow> snd p = JStr ''[REDACTED]'') \<and> secrets_redacted (snd p))"
| "secrets_redacted _ = True"

text \<open>Nothing below a key that names a secret is recorded: every such value of the result, at any depth,
  is the redaction mark.\<close>

theorem redactAndCap_hides_secrets: "secrets_redacted (redactAndCap v)"
proof (induction v rule: redactAndCap.induct)
  case (3 ps)
  then show ?case by (auto simp: split_beta)
qed simp_all

section \<open>State of a running turn\<close>

datatype abort_reason = AbortSuperseded string | AbortBudget | AbortTimeout

record block_record =
  br_seq :: nat
  br_blockType :: block_kind
  br_summary :: block_summary
  br_raw :: "jsval option"

record stream_state =
  ss_aborted :: "abort_reason option"
  ss_timerActive :: bool
  ss_timedOut :: bool
  ss_budgetExceeded :: "string option"
  ss_blocks :: "block_summary list"
  ss_observedToolCalls :: nat
  ss_typingLoopStarted :: bool
  ss_refreshTimer :: bool
  ss_thinkingActive :: bool
  ss_sawAssistantText :: bool
  ss_blocksSent :: nat
  ss_pings :: "(string \<times> int) list"
  ss_frames :: "stream_block list"
  ss_typings :: "(string \<times> int) list"
  ss_records :: "block_record list"

text \<open>What the closures read and never write.\<close>

record stream_ctx =
  sc_canType :: bool
  sc_canStream :: bool
  sc_transcript :: bool
  sc_verbose :: bool
  sc_maxToolCalls :: "nat option"
  sc_multi :: bool
  sc_pingKey :: string

definition shouldObserveBlocks :: "stream_ctx \<Rightarrow> bool" where
  "shouldObserveBlocks ctx \<longleftrightarrow> sc_canStream ctx \<or> sc_transcript ctx \<or> sc_maxToolCalls ctx \<noteq> None"

text \<open>The slot of a new turn; the debounce table belongs to the dispatcher.\<close>

definition init_stream :: "(string \<times> int) list \<Rightarrow> stream_state" where
  "init_stream pings =
     \<lparr>ss_aborted = None, ss_timerActive = True, ss_timedOut = False, ss_budgetExceeded = None, ss_blocks = [],
      ss_observedToolCalls = 0, ss_typingLoopStarted = False, ss_refreshTimer = False, ss_thinkingActive = False,
      ss_sawAssistantText = False, ss_blocksSent = 0, ss_pings = pings, ss_frames = [], ss_typings = [], ss_records = []\<rparr>"

text \<open>\<open>controller.abort(reason)\<close>: only the first abort counts.\<close>

definition abort_with :: "abort_reason \<Rightarrow> stream_state \<Rightarrow> stream_state" where
  "abort_with reason st = (case ss_aborted st of None \<Rightarrow> st\<lparr>ss_aborted := Some reason\<rparr> | Some _ \<Rightarrow> st)"

section \<open>Callbacks\<close>

definition count_tool_call :: "stream_ctx \<Rightarrow> stream_block \<Rightarrow> stream_state \<Rightarrow> stream_state" where
  "count_tool_call ctx block st =
     (case sc_maxToolCalls ctx of
        Some maxToolCalls \<Rightarrow>
          (if sb_kind block = ToolUse
           then let n = ss_observedToolCalls st + 1;
                    st' = st\<lparr>ss_observedToolCalls := n\<rparr>
                in if n > maxToolCalls \<and> ss_aborted st = None
                   then abort_with AbortBudget
                     (st'\<lparr>ss_budgetExceeded := Some (''tool call budget exceeded after '' @ nat_str n @ '' tool call(s)'')\<rparr>)
                   else st'
           else st)
      | None \<Rightarrow> st)"

definition recordBlock :: "stream_ctx \<Rightarrow> stream_block \<Rightarrow> stream_state \<Rightarrow> stream_state" where
  "recordBlock ctx block st =
     (let st1 = count_tool_call ctx block st;
          summary = summarizeStreamBlock block;
          st2 = st1\<lparr>ss_blocks := ss_blocks st1 @ [summary]\<rparr>
      in if sc_transcript ctx
         then st2\<lparr>ss_records := ss_records st2 @
                [\<lparr>br_seq = sb_seq block, br_blockType = sb_kind block, br_summary = summary,
                  br_raw = (if sc_verbose ctx then Some (redactAndCap (sb_raw block)) else None)\<rparr>]\<rparr>
         else st2)"

text \<open>Blocks are numbered again at the wire.\<close>

definition forwardBlockToChannel :: "stream_ctx \<Rightarrow> stream_block \<Rightarrow> stream_state \<Rightarrow> stream_state" where
  "forwardBlockToChannel ctx block st =
     (if sc_canStream ctx
      then st\<lparr>ss_blocksSent := ss_blocksSent st + 1,
              ss_frames := ss_frames st @ [block\<lparr>sb_seq := ss_blocksSent st + 1\<rparr>]\<rparr>
      else st)"

datatype thinking_phase = PhStarted | PhUpdated | PhStopped

datatype marker_source = FromDispatcher | FromRuntime

fun phase_str :: "thinking_phase \<Rightarrow> string" where
  "phase_str PhStarted = ''started''"
| "phase_str PhUpdated = ''updated''"
| "phase_str PhStopped = ''stopped''"

fun source_str :: "marker_source \<Rightarrow> string" where
  "source_str FromDispatcher = ''dispatcher''"
| "source_str FromRuntime = ''runtime''"

definition thinking_marker :: "thinking_phase \<Rightarrow> string option \<Rightarrow> marker_source \<Rightarrow> stream_block" where
  "thinking_marker phase label source =
     \<lparr>sb_raw = JObj ([(''phase'', JStr (phase_str phase)), (''source'', JStr (source_str source))] @
          (case label of Some l \<Rightarrow> (if l \<noteq> [] then [(''label'', JStr l)] else []) | None \<Rightarrow> [])),
      sb_kind = Thinking, sb_seq = 0\<rparr>"

definition sendThinkingMarker ::
  "stream_ctx \<Rightarrow> thinking_phase \<Rightarrow> string option \<Rightarrow> marker_source \<Rightarrow> stream_state \<Rightarrow> stream_state" where
  "sendThinkingMarker ctx phase label source st = forwardBlockToChannel ctx (thinking_marker phase label source) st"

definition TYPING_DEBOUNCE_MS :: int where
  "TYPING_DEBOUNCE_MS = 2000"

definition TYPING_RECENCY_CAP :: nat where
  "TYPING_RECENCY_CAP = 1024"

text \<open>The debounce table keeps its keys in the order they were last set; the oldest is dropped over the cap.\<close>

definition bump_ping :: "string \<Rightarrow> int \<Rightarrow> (string \<times> int) list \<Rightarrow> (string \<times> int) list" where
  "bump_ping key now table =
     (let table' = filter (\<lambda>p. fst p \<noteq> key) table @ [(key, now)]
      in if length table' > TYPING_RECENCY_CAP then tl table' else table')"

definition sendTypingPing :: "stream_ctx \<Rightarrow> int \<Rightarrow> stream_state \<Rightarrow> stream_state" where
  "sendTypingPing ctx now st =
     (if \<not> sc_canType ctx then st
      else
        let key = sc_pingKey ctx
        in case map_of (ss_pings st) key of
             Some prev \<Rightarrow>
               (if now - prev < TYPING_DEBOUNCE_MS then st
                else st\<lparr>ss_pings := bump_ping key now (ss_pings st), ss_typings := ss_typings st @ [(key, now)]\<rparr>)
           | None \<Rightarrow> st\<lparr>ss_pings := bump_ping key now (ss_pings st), ss_typings := ss_typings st @ [(key, now)]\<rparr>)"

definition fireTypingIfNeeded :: "stream_ctx \<Rightarrow> int \<Rightarrow> stream_state \<Rightarrow> stream_state" where
  "fireTypingIfNeeded ctx now st =
     (if \<not> sc_canType ctx \<or> ss_typingLoopStarted st then st
      else (sendTypingPing ctx now (st\<lparr>ss_typingLoopStarted := True\<rparr>))\<lparr>ss_refreshTimer := True\<rparr>)"

definition stopTypingRefresh :: "stream_state \<Rightarrow> stream_state" where
  "stopTypingRefresh st = st\<lparr>ss_refreshTimer := False\<rparr>"

datatype status_event =
    StTyping bool
  | StThinking thinking_phase "string option"

text \<open>\<open>StTyping True\<close> is \<open>typing.started\<close>. Callbacks of an aborted turn are dropped.\<close>

definition onStatus :: "stream_ctx \<Rightarrow> int \<Rightarrow> status_event \<Rightarrow> stream_state \<Rightarrow> stream_state" where
  "onStatus ctx now event st =
     (if \<not> (sc_canType ctx \<or> sc_canStream ctx) then st
      else if ss_aborted st \<noteq> None then st
      else (case event of
              StTyping started \<Rightarrow> (if started then fireTypingIfNeeded ctx now st else st)
            | StThinking PhStopped label \<Rightarrow>
                (let st' = (if ss_thinkingActive st then sendThinkingMarker ctx PhStopped label FromRuntime st else st)
                 in st'\<lparr>ss_thinkingActive := False\<rparr>)
            | StThinking phase label \<Rightarrow>
                sendThinkingMarker ctx phase label FromRuntime (st\<lparr>ss_thinkingActive := True\<rparr>)))"

text \<open>\<open>onBlock\<close>: the thinking marker before the block, then the block itself.\<close>

definition thinking_before_block :: "stream_ctx \<Rightarrow> stream_block \<Rightarrow> stream_state \<Rightarrow> stream_state" where
  "thinking_before_block ctx block st =
     (if \<not> ss_thinkingActive st \<and> sb_kind block \<noteq> AssistantText
      then (if \<not> ss_sawAssistantText st \<or> sb_kind block = ToolUse
            then sendThinkingMarker ctx PhStarted None FromDispatcher (st\<lparr>ss_thinkingActive := True\<rparr>)
            else st)
      else st)"

definition onBlock :: "stream_ctx \<Rightarrow> stream_block \<Rightarrow> stream_state \<Rightarrow> stream_state" where
  "onBlock ctx block st =
     (if \<not> shouldObserveBlocks ctx then st
      else
        let st1 = recordBlock ctx block st
        in if ss_aborted st1 \<noteq> None then st1
           else if \<not> sc_canStream ctx then st1
           else if sc_multi ctx \<and> (sb_kind block = AssistantText \<or> sb_kind block = OtherBlock) then st1
           else
             let st2 = thinking_before_block ctx block st1;
                 st3 = (if sb_kind block = AssistantText
                        then st2\<lparr>ss_thinkingActive := False, ss_sawAssistantText := True\<rparr>
                        else st2)
             in forwardBlockToChannel ctx block st3)"

definition finalizeThinkingIfActive :: "stream_ctx \<Rightarrow> stream_state \<Rightarrow> stream_state" where
  "finalizeThinkingIfActive ctx st =
     (if \<not> sc_canStream ctx \<or> \<not> ss_thinkingActive st then st
      else if ss_aborted st \<noteq> None \<and> \<not> ss_timedOut st then st
      else sendThinkingMarker ctx PhStopped None FromDispatcher (st\<lparr>ss_thinkingActive := False\<rparr>))"

section \<open>Events\<close>

text \<open>
  Everything that can happen to a turn while it waits: the runtime's callbacks, the refresh of the typing
  indicator, the turn timer, and a newer arrival that supersedes it.
\<close>

datatype turn_event =
    EvBlock stream_block
  | EvStatus int status_event
  | EvTypingTick int
  | EvTimeout
  | EvSupersede string

fun turn_event_step :: "stream_ctx \<Rightarrow> turn_event \<Rightarrow> stream_state \<Rightarrow> stream_state" where
  "turn_event_step ctx (EvBlock b) st = onBlock ctx b st"
| "turn_event_step ctx (EvStatus now e) st = onStatus ctx now e st"
| "turn_event_step ctx (EvTypingTick now) st = (if ss_refreshTimer st then sendTypingPing ctx now st else st)"
| "turn_event_step ctx EvTimeout st =
     (if ss_timerActive st then abort_with AbortTimeout (st\<lparr>ss_timedOut := True, ss_timerActive := False\<rparr>) else st)"
| "turn_event_step ctx (EvSupersede t) st = abort_with (AbortSuperseded t) st"

definition turn_events :: "stream_ctx \<Rightarrow> turn_event list \<Rightarrow> stream_state \<Rightarrow> stream_state" where
  "turn_events ctx es st = fold (turn_event_step ctx) es st"

section \<open>Properties\<close>

lemmas callback_defs = onBlock_def onStatus_def recordBlock_def count_tool_call_def forwardBlockToChannel_def
  sendThinkingMarker_def thinking_before_block_def abort_with_def fireTypingIfNeeded_def sendTypingPing_def

text \<open>Wire numbering, the tool budget and the reasons of an abort.\<close>

definition tool_calls :: "block_summary list \<Rightarrow> nat" where
  "tool_calls bs = length (filter (\<lambda>b. bs_type b = ToolUse) bs)"

definition stream_inv :: "stream_ctx \<Rightarrow> stream_state \<Rightarrow> bool" where
  "stream_inv ctx st \<longleftrightarrow>
     ss_blocksSent st = length (ss_frames st) \<and> map sb_seq (ss_frames st) = [1..<Suc (length (ss_frames st))] \<and>
     (case sc_maxToolCalls ctx of
        Some m \<Rightarrow> ss_observedToolCalls st = tool_calls (ss_blocks st) \<and> (ss_observedToolCalls st > m \<longrightarrow> ss_aborted st \<noteq> None)
      | None \<Rightarrow> ss_budgetExceeded st = None) \<and>
     (ss_budgetExceeded st \<noteq> None \<longrightarrow> ss_aborted st = Some AbortBudget) \<and>
     (ss_timedOut st \<longrightarrow> ss_aborted st \<noteq> None) \<and>
     (ss_aborted st = Some AbortTimeout \<longrightarrow> ss_timedOut st) \<and>
     (ss_aborted st = Some AbortBudget \<longrightarrow> ss_budgetExceeded st \<noteq> None)"

lemma bs_type_summarize [simp]: "bs_type (summarizeStreamBlock b) = sb_kind b"
  by (simp add: summarizeStreamBlock_def Let_def)

lemma stream_inv_forward [inv_intros]: "stream_inv ctx st \<Longrightarrow> stream_inv ctx (forwardBlockToChannel ctx b st)"
  by (auto simp: stream_inv_def forwardBlockToChannel_def split: option.splits)

lemma stream_inv_record [inv_intros]: "stream_inv ctx st \<Longrightarrow> stream_inv ctx (recordBlock ctx b st)"
  by (auto simp: stream_inv_def recordBlock_def count_tool_call_def abort_with_def tool_calls_def Let_def split: option.splits)

lemma stream_inv_flags [simp]:
  "stream_inv ctx (st\<lparr>ss_thinkingActive := a\<rparr>) = stream_inv ctx st"
  "stream_inv ctx (st\<lparr>ss_sawAssistantText := b\<rparr>) = stream_inv ctx st"
  "stream_inv ctx (st\<lparr>ss_typingLoopStarted := c\<rparr>) = stream_inv ctx st"
  "stream_inv ctx (st\<lparr>ss_refreshTimer := d\<rparr>) = stream_inv ctx st"
  "stream_inv ctx (st\<lparr>ss_pings := p\<rparr>) = stream_inv ctx st"
  "stream_inv ctx (st\<lparr>ss_typings := q\<rparr>) = stream_inv ctx st"
  "stream_inv ctx (st\<lparr>ss_timerActive := e\<rparr>) = stream_inv ctx st"
  by (simp_all add: stream_inv_def cong: option.case_cong)

lemma stream_inv_marker [inv_intros]: "stream_inv ctx st \<Longrightarrow> stream_inv ctx (sendThinkingMarker ctx ph l src st)"
  by (simp add: sendThinkingMarker_def stream_inv_forward)

lemma stream_inv_ping [inv_intros]: "stream_inv ctx st \<Longrightarrow> stream_inv ctx (sendTypingPing ctx now st)"
  by (auto simp: sendTypingPing_def Let_def split: option.splits)

lemma stream_inv_fire [inv_intros]: "stream_inv ctx st \<Longrightarrow> stream_inv ctx (fireTypingIfNeeded ctx now st)"
  by (simp add: fireTypingIfNeeded_def stream_inv_ping)

lemma stream_inv_before [inv_intros]: "stream_inv ctx st \<Longrightarrow> stream_inv ctx (thinking_before_block ctx b st)"
  by (simp add: thinking_before_block_def stream_inv_marker)

lemma stream_inv_onBlock [inv_intros]: "stream_inv ctx st \<Longrightarrow> stream_inv ctx (onBlock ctx b st)"
  by (simp add: onBlock_def Let_def stream_inv_record stream_inv_before stream_inv_forward)

lemma stream_inv_onStatus [inv_intros]: "stream_inv ctx st \<Longrightarrow> stream_inv ctx (onStatus ctx now e st)"
  by (auto simp: onStatus_def Let_def intro!: inv_intros split: status_event.split thinking_phase.split)

lemma stream_inv_step [inv_intros]: "stream_inv ctx st \<Longrightarrow> stream_inv ctx (turn_event_step ctx e st)"
proof (cases e)
  case EvTimeout
  assume "stream_inv ctx st"
  then show ?thesis using EvTimeout by (auto simp: stream_inv_def abort_with_def split: option.splits)
next
  case (EvSupersede t)
  assume "stream_inv ctx st"
  then show ?thesis using EvSupersede by (auto simp: stream_inv_def abort_with_def split: option.splits)
qed (auto intro!: inv_intros)

interpretation stream: open_machine "turn_event_step ctx" "stream_inv ctx" for ctx
  by unfold_locales (rule stream_inv_step)

lemma stream_inv_events [inv_intros]: "stream_inv ctx st \<Longrightarrow> stream_inv ctx (turn_events ctx es st)"
  unfolding turn_events_def by (rule stream.open_run_keeps)

lemma stream_inv_init [simp]: "stream_inv ctx (init_stream pings)"
  by (auto simp: stream_inv_def init_stream_def tool_calls_def split: option.splits)

text \<open>The tool budget is enforced at the wire: whatever happens during a turn, frames are numbered from
  one without gaps, and once more tool calls were observed than the budget allows the turn is aborted.\<close>

theorem tool_budget_enforced:
  "let st = turn_events ctx es (init_stream pings)
   in map sb_seq (ss_frames st) = [1..<Suc (length (ss_frames st))] \<and>
      (case sc_maxToolCalls ctx of
         Some m \<Rightarrow> \<not> (tool_calls (ss_blocks st) > m \<and> ss_aborted st = None)
       | None \<Rightarrow> ss_budgetExceeded st = None)"
  using stream_inv_events[OF stream_inv_init, of ctx es pings]
  by (auto simp: stream_inv_def Let_def split: option.splits)

text \<open>A turn that was aborted shows nothing more: no later event adds a frame to the wire.\<close>

lemma forward_aborted [simp]: "ss_aborted (forwardBlockToChannel ctx b st) = ss_aborted st"
  by (simp add: forwardBlockToChannel_def)

lemma record_frames [simp]: "ss_frames (recordBlock ctx b st) = ss_frames st"
  by (auto simp: recordBlock_def count_tool_call_def abort_with_def Let_def split: option.splits)

lemma record_aborted: "ss_aborted st \<noteq> None \<Longrightarrow> ss_aborted (recordBlock ctx b st) = ss_aborted st"
  by (auto simp: recordBlock_def count_tool_call_def abort_with_def Let_def split: option.splits)

lemma ping_frames [simp]: "ss_frames (sendTypingPing ctx now st) = ss_frames st" "ss_aborted (sendTypingPing ctx now st) = ss_aborted st"
  by (auto simp: sendTypingPing_def Let_def split: option.splits)

lemma step_aborted:
  assumes "ss_aborted st \<noteq> None"
  shows "ss_frames (turn_event_step ctx e st) = ss_frames st \<and> ss_aborted (turn_event_step ctx e st) = ss_aborted st"
  using assms record_aborted[OF assms]
  by (cases e) (auto simp: onBlock_def onStatus_def abort_with_def Let_def)

theorem aborted_turn_shows_nothing:
  assumes "ss_aborted st \<noteq> None"
  shows "ss_frames (turn_events ctx es st) = ss_frames st"
  using assms
proof (induction es arbitrary: st)
  case (Cons e es)
  then show ?case using step_aborted[OF Cons.prems, of ctx e] by (simp add: turn_events_def)
qed (simp add: turn_events_def)

subsection \<open>The thinking indicator\<close>

text \<open>
  What a reader of the wire believes: markers switch the indicator, text of the assistant switches it
  off. A block is plain when it does not itself look like a marker of the dispatcher.
\<close>

definition marker_phase :: "stream_block \<Rightarrow> string option" where
  "marker_phase b =
     (if sb_kind b = Thinking \<and> get_prop (sb_raw b) ''source'' \<in> {JStr ''dispatcher'', JStr ''runtime''}
      then as_str (get_prop (sb_raw b) ''phase'') else None)"

definition wire_step :: "bool \<Rightarrow> stream_block \<Rightarrow> bool" where
  "wire_step active b =
     (case marker_phase b of
        Some ph \<Rightarrow> ph \<noteq> ''stopped''
      | None \<Rightarrow> (if sb_kind b = AssistantText then False else active))"

definition wire_thinking :: "stream_block list \<Rightarrow> bool" where
  "wire_thinking frames = foldl wire_step False frames"

fun plain_event :: "turn_event \<Rightarrow> bool" where
  "plain_event (EvBlock b) \<longleftrightarrow> marker_phase b = None"
| "plain_event _ \<longleftrightarrow> True"

lemma marker_phase_seq [simp]: "marker_phase (b\<lparr>sb_seq := n\<rparr>) = marker_phase b"
  by (auto simp: marker_phase_def)

lemma marker_phase_marker [simp]: "marker_phase (thinking_marker ph l src) = Some (phase_str ph)"
  by (cases src) (auto simp: marker_phase_def thinking_marker_def get_prop_def split: option.splits)

lemma wire_thinking_snoc [simp]: "wire_thinking (fs @ [b]) = wire_step (wire_thinking fs) b"
  by (simp add: wire_thinking_def)

lemma phase_str_stopped [simp]: "phase_str ph = ''stopped'' \<longleftrightarrow> ph = PhStopped"
  by (cases ph) auto

definition thinking_inv :: "stream_ctx \<Rightarrow> stream_state \<Rightarrow> bool" where
  "thinking_inv ctx st \<longleftrightarrow> (sc_canStream ctx \<longrightarrow> wire_thinking (ss_frames st) = ss_thinkingActive st)"

lemma thinking_marker_sent:
  "ss_thinkingActive st = (ph \<noteq> PhStopped) \<Longrightarrow> thinking_inv ctx (sendThinkingMarker ctx ph l src st)"
  by (simp add: thinking_inv_def sendThinkingMarker_def forwardBlockToChannel_def wire_step_def)

lemma thinking_flags [simp]:
  "ss_thinkingActive (recordBlock ctx b st) = ss_thinkingActive st"
  "ss_thinkingActive (sendTypingPing ctx now st) = ss_thinkingActive st"
  "ss_thinkingActive (fireTypingIfNeeded ctx now st) = ss_thinkingActive st"
  "ss_frames (fireTypingIfNeeded ctx now st) = ss_frames st"
  "ss_thinkingActive (abort_with r st) = ss_thinkingActive st"
  "ss_frames (abort_with r st) = ss_frames st"
  "ss_thinkingActive (sendThinkingMarker ctx ph l src st) = ss_thinkingActive st"
  by (auto simp: callback_defs Let_def split: option.splits)

lemma thinking_forward:
  "thinking_inv ctx st \<Longrightarrow> marker_phase b = None \<Longrightarrow> sb_kind b = AssistantText \<longrightarrow> \<not> ss_thinkingActive st \<Longrightarrow>
   thinking_inv ctx (forwardBlockToChannel ctx b st)"
  by (auto simp: thinking_inv_def forwardBlockToChannel_def wire_step_def)

lemma thinking_before:
  "thinking_inv ctx st \<Longrightarrow> thinking_inv ctx (thinking_before_block ctx b st)"
  by (simp add: thinking_before_block_def thinking_marker_sent)

lemma thinking_text_forward:
  "sb_kind b = AssistantText \<Longrightarrow> marker_phase b = None \<Longrightarrow>
   thinking_inv ctx (forwardBlockToChannel ctx b (st\<lparr>ss_thinkingActive := False, ss_sawAssistantText := True\<rparr>))"
  by (simp add: thinking_inv_def forwardBlockToChannel_def wire_step_def)

lemma thinking_onBlock:
  "thinking_inv ctx st \<Longrightarrow> marker_phase b = None \<Longrightarrow> thinking_inv ctx (onBlock ctx b st)"
  by (cases "sb_kind b = AssistantText")
    (auto simp: onBlock_def Let_def thinking_text_forward
      intro!: thinking_forward thinking_before, auto simp: thinking_inv_def)

lemma thinking_onStatus: "thinking_inv ctx st \<Longrightarrow> thinking_inv ctx (onStatus ctx now e st)"
proof (cases e)
  case (StThinking ph l)
  assume inv: "thinking_inv ctx st"
  have stop: "thinking_inv ctx ((sendThinkingMarker ctx PhStopped l FromRuntime st)\<lparr>ss_thinkingActive := False\<rparr>)"
    by (simp add: thinking_inv_def sendThinkingMarker_def forwardBlockToChannel_def wire_step_def)
  show ?thesis using inv stop StThinking
    by (cases ph) (auto simp: onStatus_def Let_def intro!: thinking_marker_sent, auto simp: thinking_inv_def)
next
  case (StTyping s)
  assume "thinking_inv ctx st"
  then show ?thesis using StTyping by (simp add: onStatus_def thinking_inv_def)
qed

lemma thinking_step: "thinking_inv ctx st \<Longrightarrow> plain_event e \<Longrightarrow> thinking_inv ctx (turn_event_step ctx e st)"
  by (cases e) (auto simp: thinking_onBlock thinking_onStatus, auto simp: thinking_inv_def)

interpretation thinking: event_machine "turn_event_step ctx" plain_event "thinking_inv ctx" for ctx
  by unfold_locales (rule thinking_step)

lemma thinking_events: "thinking_inv ctx st \<Longrightarrow> list_all plain_event es \<Longrightarrow> thinking_inv ctx (turn_events ctx es st)"
  unfolding turn_events_def by (rule thinking.run_keeps)

text \<open>The interface is never left thinking: after any events of a turn, the finalizer leaves the
  indicator off, unless the turn was aborted without a timeout and its successor drives the indicator.\<close>

theorem ui_not_left_thinking:
  assumes "sc_canStream ctx" and "list_all plain_event es"
    and "ss_aborted (turn_events ctx es (init_stream pings)) = None \<or> ss_timedOut (turn_events ctx es (init_stream pings))"
  shows "\<not> wire_thinking (ss_frames (finalizeThinkingIfActive ctx (turn_events ctx es (init_stream pings))))"
proof -
  let ?st = "turn_events ctx es (init_stream pings)"
  have "thinking_inv ctx (init_stream pings)" by (simp add: thinking_inv_def init_stream_def wire_thinking_def)
  then have inv: "thinking_inv ctx ?st" using thinking_events assms(2) by blast
  have "thinking_inv ctx (sendThinkingMarker ctx PhStopped None FromDispatcher (?st\<lparr>ss_thinkingActive := False\<rparr>))"
    by (rule thinking_marker_sent) simp
  then show ?thesis using inv assms(1,3) by (auto simp: finalizeThinkingIfActive_def thinking_inv_def)
qed

definition example_ctx :: stream_ctx where
  "example_ctx = \<lparr>sc_canType = True, sc_canStream = True, sc_transcript = True, sc_verbose = False,
     sc_maxToolCalls = Some 1, sc_multi = False, sc_pingKey = ''ag_1:rm_1''\<rparr>"

definition example_tool :: stream_block where
  "example_tool = \<lparr>sb_raw = JNull, sb_kind = ToolUse, sb_seq = 1\<rparr>"

theorem ui_not_left_thinking_witness:
  "wire_thinking (ss_frames (turn_events example_ctx [EvBlock example_tool] (init_stream []))) \<and>
   \<not> wire_thinking (ss_frames (finalizeThinkingIfActive example_ctx (turn_events example_ctx [EvBlock example_tool] (init_stream []))))"
proof -
  have a: "ss_aborted (turn_events example_ctx [EvBlock example_tool] (init_stream [])) = None" by code_simp
  have w: "wire_thinking (ss_frames (turn_events example_ctx [EvBlock example_tool] (init_stream [])))" by code_simp
  from ui_not_left_thinking[of example_ctx "[EvBlock example_tool]" "[]"] a w show ?thesis
    by (simp add: example_ctx_def example_tool_def marker_phase_def)
qed

theorem aborted_turn_shows_nothing_witness:
  "ss_frames (turn_events example_ctx [EvBlock example_tool] ((init_stream [])\<lparr>ss_aborted := Some AbortTimeout\<rparr>)) = []"
  by (subst aborted_turn_shows_nothing) (simp_all add: init_stream_def)

subsection \<open>Typing pings\<close>

text \<open>The debounce table stays within its cap with one entry per conversation, and a ping for a conversation
  in the table goes out only when its last one is two seconds old.\<close>

definition pings_ok :: "(string \<times> int) list \<Rightarrow> bool" where
  "pings_ok t \<longleftrightarrow> length t \<le> TYPING_RECENCY_CAP \<and> distinct (map fst t)"

lemma distinct_fst_filter: "distinct (map fst t) \<Longrightarrow> distinct (map fst (filter P t))"
  by (induction t) auto

lemma pings_ok_bump [inv_intros]: "pings_ok t \<Longrightarrow> pings_ok (bump_ping k now t)"
proof -
  assume t: "pings_ok t"
  let ?t = "filter (\<lambda>p. fst p \<noteq> k) t @ [(k, now)]"
  have "distinct (map fst ?t)" using t by (auto simp: pings_ok_def distinct_fst_filter)
  moreover have "length ?t \<le> Suc TYPING_RECENCY_CAP"
    using t le_trans[OF length_filter_le[of "\<lambda>p. fst p \<noteq> k" t]] by (simp add: pings_ok_def)
  ultimately show ?thesis by (auto simp: bump_ping_def pings_ok_def Let_def distinct_tl map_tl)
qed

lemma map_of_snoc: "k \<notin> fst ` set xs \<Longrightarrow> map_of (xs @ [(k, v)]) k = Some v"
  by (induction xs) auto

lemma bump_ping_lookup: "map_of (bump_ping k now t) k = Some now"
proof (cases "filter (\<lambda>p. fst p \<noteq> k) t")
  case Nil
  then show ?thesis by (simp add: bump_ping_def TYPING_RECENCY_CAP_def)
next
  case (Cons p ps)
  then have "set (p # ps) = {q \<in> set t. fst q \<noteq> k}" by (metis set_filter)
  then have "k \<notin> fst ` set (p # ps)" by auto
  then show ?thesis using Cons map_of_snoc[of k "p # ps" now] map_of_snoc[of k ps now] by (auto simp: bump_ping_def Let_def)
qed

definition ping_inv :: "stream_ctx \<Rightarrow> stream_state \<Rightarrow> bool" where
  "ping_inv ctx st \<longleftrightarrow>
     pings_ok (ss_pings st) \<and>
     successively (\<lambda>a b. snd b - snd a \<ge> TYPING_DEBOUNCE_MS) (ss_typings st) \<and>
     (ss_typings st \<noteq> [] \<longrightarrow> map_of (ss_pings st) (sc_pingKey ctx) = Some (snd (last (ss_typings st))))"

lemma ping_inv_ping: "ping_inv ctx st \<Longrightarrow> ping_inv ctx (sendTypingPing ctx now st)"
  by (auto simp: ping_inv_def sendTypingPing_def Let_def bump_ping_lookup pings_ok_bump successively_append_iff split: option.splits)

lemma ping_inv_cong:
  "ss_pings st' = ss_pings st \<Longrightarrow> ss_typings st' = ss_typings st \<Longrightarrow> ping_inv ctx st' = ping_inv ctx st"
  by (simp add: ping_inv_def)

lemma pings_kept_parts [simp]:
  "ss_pings (recordBlock ctx b st) = ss_pings st" "ss_typings (recordBlock ctx b st) = ss_typings st"
  "ss_pings (forwardBlockToChannel ctx b st) = ss_pings st" "ss_typings (forwardBlockToChannel ctx b st) = ss_typings st"
  by (auto simp: recordBlock_def count_tool_call_def abort_with_def forwardBlockToChannel_def Let_def split: option.splits)

lemma pings_kept_before [simp]:
  "ss_pings (thinking_before_block ctx b st) = ss_pings st" "ss_typings (thinking_before_block ctx b st) = ss_typings st"
  by (simp_all add: thinking_before_block_def sendThinkingMarker_def)

lemma pings_kept [simp]:
  "ss_pings (onBlock ctx b st) = ss_pings st" "ss_typings (onBlock ctx b st) = ss_typings st"
  "ss_pings (abort_with r st) = ss_pings st" "ss_typings (abort_with r st) = ss_typings st"
  "ss_pings (sendThinkingMarker ctx ph l src st) = ss_pings st" "ss_typings (sendThinkingMarker ctx ph l src st) = ss_typings st"
  by (auto simp: onBlock_def abort_with_def sendThinkingMarker_def Let_def split: option.splits)

lemma ping_inv_step: "ping_inv ctx st \<Longrightarrow> ping_inv ctx (turn_event_step ctx e st)"
proof (cases e)
  case (EvStatus now ev)
  assume inv: "ping_inv ctx st"
  have "ping_inv ctx (fireTypingIfNeeded ctx now st)"
    using ping_inv_ping[of ctx "st\<lparr>ss_typingLoopStarted := True\<rparr>" now] inv by (auto simp: fireTypingIfNeeded_def ping_inv_def)
  then show ?thesis using inv EvStatus
    by (auto simp: onStatus_def Let_def ping_inv_def split: status_event.splits thinking_phase.splits)
qed (auto simp: ping_inv_ping, auto simp: ping_inv_def)

interpretation pings: open_machine "turn_event_step ctx" "ping_inv ctx" for ctx
  by unfold_locales (rule ping_inv_step)

text \<open>Typing pings of a turn are at least two seconds apart and the debounce table stays within its cap,
  whatever the runtime reports and however often the refresh timer fires.\<close>

theorem typing_pings_spaced:
  assumes "pings_ok pings"
  shows "successively (\<lambda>a b. snd b - snd a \<ge> TYPING_DEBOUNCE_MS) (ss_typings (turn_events ctx es (init_stream pings))) \<and>
    pings_ok (ss_pings (turn_events ctx es (init_stream pings)))"
proof -
  have "ping_inv ctx (init_stream pings)" using assms by (simp add: ping_inv_def init_stream_def)
  from pings.open_run_keeps[OF this, of es] show ?thesis by (simp add: ping_inv_def turn_events_def)
qed

theorem typing_pings_spaced_witness:
  "pings_ok [] \<and> ss_typings (turn_events example_ctx [EvStatus 0 (StTyping True), EvTypingTick 1000, EvTypingTick 4000] (init_stream [])) =
     [(''ag_1:rm_1'', 0), (''ag_1:rm_1'', 4000)]"
proof -
  have p: "pings_ok []" by (simp add: pings_ok_def)
  have "ss_typings (turn_events example_ctx [EvStatus 0 (StTyping True), EvTypingTick 1000, EvTypingTick 4000] (init_stream [])) =
     [(''ag_1:rm_1'', 0), (''ag_1:rm_1'', 4000)]"
    by code_simp
  with typing_pings_spaced[OF p, of example_ctx] p show ?thesis by simp
qed

end
