(* ===== verification/Turn_Setup.thy ===== *)
theory Turn_Setup
  imports Attention Session_Store Batching Park Runtime_Failure Turn_Stream
begin

text \<open>
  Everything \<open>runTurn\<close> of \<open>dispatcher.ts\<close> decides before it calls the runtime: the profile, working
  directory, session key, trust level and capabilities of the turn (\<open>plan_turn\<close>), the reply and status
  targets, cloud-run budgets, and the prompts (memory notice, recovery notice, session rotation).
\<close>

section \<open>Targets of replies and of the status reaction\<close>

definition pickReplyToTarget :: "inbound_message \<Rightarrow> string" where
  "pickReplyToTarget msg =
     (case m_replyTo msg of
        Some r \<Rightarrow> (if r \<noteq> [] then r else
          (case get_prop (get_prop (m_raw msg) ''envelope'') ''msg_id'' of JStr i \<Rightarrow> (if i \<noteq> [] then i else m_id msg) | _ \<Rightarrow> m_id msg))
      | None \<Rightarrow>
          (case get_prop (get_prop (m_raw msg) ''envelope'') ''msg_id'' of JStr i \<Rightarrow> (if i \<noteq> [] then i else m_id msg) | _ \<Rightarrow> m_id msg))"

definition rawEntryMsgId :: "jsval \<Rightarrow> string option" where
  "rawEntryMsgId entry =
     (if \<not> is_object entry then None
      else case get_prop (get_prop entry ''envelope'') ''msg_id'' of JStr i \<Rightarrow> (if i \<noteq> [] then Some i else None) | _ \<Rightarrow> None)"

definition rawEntryText :: "jsval \<Rightarrow> string" where
  "rawEntryText entry =
     (if \<not> is_object entry then []
      else case get_prop entry ''text'' of
             JStr t \<Rightarrow> t
           | _ \<Rightarrow> (case get_prop (get_prop (get_prop entry ''envelope'') ''payload'') ''text'' of JStr t \<Rightarrow> t | _ \<Rightarrow> []))"

text \<open>The Latin alternatives of the three mention expressions; the Chinese alternatives need characters
  outside the code units represented here.\<close>

definition rx_words :: "string list \<Rightarrow> regex" where
  "rx_words ws = rx_alts (map rx_istr ws)"

definition no_variants :: "string \<Rightarrow> regex" where
  "no_variants w = rx_seqs [rx_istr ''no'', RChar (\<lambda>c. c = CHR ''-'' \<or> c = CHR '' ''), rx_istr w]"

definition FYI_MENTION_RE :: regex where
  "FYI_MENTION_RE =
     rx_seqs [RBound,
       rx_alts [rx_words [''fyi'', ''for your awareness'', ''for visibility'', ''heads up''], RSeq (rx_istr ''cc'') RBound,
         no_variants ''action'', RSeq (no_variants ''reply'') (rx_opt (rx_istr '' needed'')),
         RSeq (no_variants ''response'') (rx_opt (rx_istr '' needed'')),
         rx_words [''just sharing'', ''just noting'', ''ack only''],
         rx_seqs [rx_istr ''context'', RChar (\<lambda>c. c = CHR ''-'' \<or> c = CHR '' ''), rx_istr ''only'']],
       RBound]"

definition strong_action_words :: "string list" where
  "strong_action_words =
     [''can you'', ''could you'', ''would you'', ''need you'', ''take a look'', ''review'', ''fix'', ''implement'', ''publish'',
      ''deploy'', ''restart'', ''verify'', ''investigate'', ''check'', ''confirm'', ''approve'', ''blocker'', ''blocked'', ''error'',
      ''failed'', ''failure'', ''incident'', ''rollback'', ''release'', ''ship'', ''merge'']"

definition action_re :: "string list \<Rightarrow> regex" where
  "action_re ws = RAlt (rx_seqs [RBound, rx_words ws, RBound]) (rx_str ''?'')"

definition STRONG_ACTION_MENTION_RE :: regex where
  "STRONG_ACTION_MENTION_RE = action_re strong_action_words"

definition ACTION_MENTION_RE :: regex where
  "ACTION_MENTION_RE = action_re ([''please'', ''pls''] @ strong_action_words)"

definition shouldShowReplyingStatus :: "inbound_message \<Rightarrow> bool" where
  "shouldShowReplyingStatus msg =
     (if c_kind (m_conversation msg) \<noteq> Group then False
      else if \<not> effectiveMention msg then False
      else
        let own = (case m_text msg of Some t \<Rightarrow> t | None \<Rightarrow> []);
            rest = (case get_prop (m_raw msg) ''batch'' of JArr es \<Rightarrow> map rawEntryText es | _ \<Rightarrow> []);
            t = trim (join [CHR 0x0A] (own # rest))
        in if rx_test FYI_MENTION_RE t \<and> \<not> rx_test STRONG_ACTION_MENTION_RE t then False
           else rx_test ACTION_MENTION_RE t)"

definition first_some :: "'a option list \<Rightarrow> 'a option" where
  "first_some xs = (case List.map_filter (\<lambda>x. x) xs of [] \<Rightarrow> None | y # _ \<Rightarrow> Some y)"

definition pickMessageStatusTarget :: "inbound_message \<Rightarrow> string option" where
  "pickMessageStatusTarget msg =
     (let batch = (case get_prop (m_raw msg) ''batch'' of JArr es \<Rightarrow> es | _ \<Rightarrow> []);
          mentioned = filter (\<lambda>e. get_prop e ''mentioned'' = JBool True) (rev batch)
      in case first_some (map rawEntryMsgId mentioned) of
           Some i \<Rightarrow> Some i
         | None \<Rightarrow>
             (case first_some (map rawEntryMsgId (rev batch)) of
                Some i \<Rightarrow> Some i
              | None \<Rightarrow> rawEntryMsgId (m_raw msg)))"

section \<open>Cloud-run budgets\<close>

record cloud_budget =
  cb_maxWallTimeMs :: "int option"
  cb_maxToolCalls :: "nat option"

definition positive_floor :: "jsval \<Rightarrow> rat \<Rightarrow> int option" where
  "positive_floor v scale =
     (case finite_num v of Some q \<Rightarrow> (if q > 0 then Some \<lfloor>q * scale\<rfloor> else None) | None \<Rightarrow> None)"

definition extractCloudRunBudget :: "inbound_message \<Rightarrow> cloud_budget option" where
  "extractCloudRunBudget msg =
     (let envelope = get_prop (m_raw msg) ''envelope''
      in if get_prop envelope ''type'' \<noteq> JStr ''cloud_run'' then None
         else
           let budget = get_prop (get_prop (get_prop envelope ''payload'') ''cloud_run'') ''budget''
           in if \<not> truthy budget then None
              else
                let wall = positive_floor (get_prop budget ''max_wall_time_seconds'') 1000;
                    calls = map_option nat (positive_floor (get_prop budget ''max_tool_calls'') 1)
                in if wall \<noteq> None \<or> calls \<noteq> None then Some \<lparr>cb_maxWallTimeMs = wall, cb_maxToolCalls = calls\<rparr> else None)"

section \<open>Prompts\<close>

definition lines_text :: "string list \<Rightarrow> string" where
  "lines_text ls = join [CHR 0x0A] ls"

definition buildMemoryUpdateNotice :: "string option \<Rightarrow> string \<Rightarrow> string \<Rightarrow> string" where
  "buildMemoryUpdateNotice previousVersion currentVersion userTurn =
     lines_text
       [''[BotCord Memory Update Notice]'',
        ''The persistent working memory changed since this runtime session last used it (previous: '' @
          (case previousVersion of Some v \<Rightarrow> v | None \<Rightarrow> ''none'') @ '', current: '' @ currentVersion @ '').'',
        ''Before acting on the message below, retrieve the latest working memory through the available BotCord memory tool or CLI, then treat that latest memory as authoritative.'',
        ''If using the local daemon CLI, run: botcord-daemon memory get'',
        ''The latest memory supersedes older goals, monitoring rules, preferences, and task state in the resumed conversation.'',
        [], ''[Current Message]'', userTurn]"

definition truncate_text :: "string \<Rightarrow> nat \<Rightarrow> string" where
  "truncate_text s limit = (if length s \<le> limit then s else take limit s @ ellipsis)"

definition buildRuntimeRecoveryPrompt :: "string \<Rightarrow> string \<Rightarrow> string \<Rightarrow> string option \<Rightarrow> string option \<Rightarrow> string" where
  "buildRuntimeRecoveryPrompt userTurn label reason err recoveryContext =
     lines_text
       ([''[BotCord Runtime Recovery Notice]'',
         ''The previous '' @ label @ '' runtime session for this room '' @ reason @ ''.''] @
        (case err of Some e \<Rightarrow> (if e \<noteq> [] then [''Previous runtime error: '' @ truncate_text e 1000] else []) | None \<Rightarrow> []) @
        [''You are now running in a fresh '' @ label @ '' session.'',
         ''Use the recent room messages below, current filesystem state, and available BotCord memory/context tools to reconstruct the active task.'',
         ''Continue the original user request without asking the user to repeat information unless it is missing from those sources.'',
         [],
         (case recoveryContext of
            Some c \<Rightarrow> (if trim c \<noteq> [] then trim c else lines_text [''[Recent Room Messages]'', ''(unavailable)''])
          | None \<Rightarrow> lines_text [''[Recent Room Messages]'', ''(unavailable)'']),
         [], ''[Current User Turn]'', userTurn])"

definition RECOVERY_REASON_FAILURE :: string where
  "RECOVERY_REASON_FAILURE = ''became unrecoverable while resuming or compacting context''"

text \<open>The sign for approximately equal, as its UTF-8 bytes.\<close>

definition approx_sign :: string where
  "approx_sign = [CHR 0xE2, CHR 0x89, CHR 0x88]"

definition rotationReason :: "int \<Rightarrow> int option \<Rightarrow> string" where
  "rotationReason turns inputTokens =
     ''was rotated to a fresh session to control context growth ('' @
     (case inputTokens of
        Some t \<Rightarrow> ''prev turn input '' @ approx_sign @ '' '' @ int_str t @ '' tokens across '' @ int_str turns @ '' turn(s)''
      | None \<Rightarrow> int_str turns @ '' turn(s)'') @ '')''"

record dispatcher_config =
  dc_turnTimeoutMs :: int
  dc_authFailureThreshold :: nat
  dc_authFailureCooldownMs :: int
  dc_maxResumeInputTokens :: int
  dc_maxResumeTurns :: int
  dc_transcript :: bool
  dc_verbose :: bool
  dc_onTurnComplete :: bool

text \<open>The reason to rotate away from a stored session, or \<open>None\<close> to keep resuming it; a threshold of zero
  switches its judge off.\<close>

definition rotationDecision :: "dispatcher_config \<Rightarrow> session_entry option \<Rightarrow> string option" where
  "rotationDecision cfg entry =
     (case entry of
        None \<Rightarrow> None
      | Some e \<Rightarrow>
          (if dc_maxResumeInputTokens cfg > 0 \<and> (case se_lastInputTokens e of Some t \<Rightarrow> t \<ge> dc_maxResumeInputTokens cfg | None \<Rightarrow> False)
           then Some (rotationReason (case se_turnCount e of Some n \<Rightarrow> n | None \<Rightarrow> 0) (se_lastInputTokens e))
           else if dc_maxResumeTurns cfg > 0 \<and> (case se_turnCount e of Some n \<Rightarrow> n \<ge> dc_maxResumeTurns cfg | None \<Rightarrow> False)
           then Some (rotationReason (case se_turnCount e of Some n \<Rightarrow> n | None \<Rightarrow> 0) None)
           else None))"

section \<open>Refused turns\<close>

text \<open>The refusal texts, as their UTF-8 bytes.\<close>

fun REFUSAL_TEXT :: "refusal_reason \<Rightarrow> string" where
  "REFUSAL_TEXT GrantInactive =
       [CHR 0xE4, CHR 0xBD, CHR 0xA0, CHR 0xE5, CHR 0xAF, CHR 0xB9, CHR 0xE8, CHR 0xBF, CHR 0x99, CHR 0xE4, CHR 0xB8,
       CHR 0xAA, CHR 0x20, CHR 0x41, CHR 0x67, CHR 0x65, CHR 0x6E, CHR 0x74, CHR 0x20, CHR 0xE7, CHR 0x9A, CHR 0x84,
       CHR 0xE4, CHR 0xBD, CHR 0xBF, CHR 0xE7, CHR 0x94, CHR 0xA8, CHR 0xE6, CHR 0x8E, CHR 0x88, CHR 0xE6, CHR 0x9D,
       CHR 0x83, CHR 0xE5, CHR 0xB7, CHR 0xB2, CHR 0xE8, CHR 0xA2, CHR 0xAB, CHR 0xE6, CHR 0x92, CHR 0xA4, CHR 0xE9,
       CHR 0x94, CHR 0x80, CHR 0xE6, CHR 0x88, CHR 0x96, CHR 0xE5, CHR 0xB7, CHR 0xB2, CHR 0xE8, CHR 0xBF, CHR 0x87,
       CHR 0xE6, CHR 0x9C, CHR 0x9F, CHR 0xEF, CHR 0xBC, CHR 0x8C, CHR 0xE8, CHR 0xAF, CHR 0xB7, CHR 0xE8, CHR 0x81,
       CHR 0x94, CHR 0xE7, CHR 0xB3, CHR 0xBB, CHR 0xE5, CHR 0xAE, CHR 0x83, CHR 0xE7, CHR 0x9A, CHR 0x84, CHR 0x20,
       CHR 0x6F, CHR 0x77, CHR 0x6E, CHR 0x65, CHR 0x72, CHR 0x20, CHR 0xE9, CHR 0x87, CHR 0x8D, CHR 0xE6, CHR 0x96,
       CHR 0xB0, CHR 0xE6, CHR 0x8E, CHR 0x88, CHR 0xE6, CHR 0x9D, CHR 0x83, CHR 0xE3, CHR 0x80, CHR 0x82]"
| "REFUSAL_TEXT HubDenied =
       [CHR 0xE4, CHR 0xBD, CHR 0xA0, CHR 0xE7, CHR 0x9B, CHR 0xAE, CHR 0xE5, CHR 0x89, CHR 0x8D, CHR 0xE6, CHR 0xB2,
       CHR 0xA1, CHR 0xE6, CHR 0x9C, CHR 0x89, CHR 0xE4, CHR 0xBD, CHR 0xBF, CHR 0xE7, CHR 0x94, CHR 0xA8, CHR 0xE8,
       CHR 0xBF, CHR 0x99, CHR 0xE4, CHR 0xB8, CHR 0xAA, CHR 0x20, CHR 0x41, CHR 0x67, CHR 0x65, CHR 0x6E, CHR 0x74,
       CHR 0x20, CHR 0xE7, CHR 0x9A, CHR 0x84, CHR 0xE6, CHR 0x9D, CHR 0x83, CHR 0xE9, CHR 0x99, CHR 0x90, CHR 0xEF,
       CHR 0xBC, CHR 0x8C, CHR 0xE8, CHR 0xAF, CHR 0xB7, CHR 0xE8, CHR 0x81, CHR 0x94, CHR 0xE7, CHR 0xB3, CHR 0xBB,
       CHR 0xE5, CHR 0xAE, CHR 0x83, CHR 0xE7, CHR 0x9A, CHR 0x84, CHR 0x20, CHR 0x6F, CHR 0x77, CHR 0x6E, CHR 0x65,
       CHR 0x72, CHR 0xE3, CHR 0x80, CHR 0x82]"
| "REFUSAL_TEXT RuntimeUnsupported =
       [CHR 0xE8, CHR 0xBF, CHR 0x99, CHR 0xE4, CHR 0xB8, CHR 0xAA, CHR 0x20, CHR 0x41, CHR 0x67, CHR 0x65, CHR 0x6E,
       CHR 0x74, CHR 0x20, CHR 0xE5, CHR 0xBD, CHR 0x93, CHR 0xE5, CHR 0x89, CHR 0x8D, CHR 0xE4, CHR 0xBD, CHR 0xBF,
       CHR 0xE7, CHR 0x94, CHR 0xA8, CHR 0xE7, CHR 0x9A, CHR 0x84, CHR 0x20, CHR 0x72, CHR 0x75, CHR 0x6E, CHR 0x74,
       CHR 0x69, CHR 0x6D, CHR 0x65, CHR 0x20, CHR 0xE4, CHR 0xB8, CHR 0x8D, CHR 0xE6, CHR 0x94, CHR 0xAF, CHR 0xE6,
       CHR 0x8C, CHR 0x81, CHR 0xE5, CHR 0x85, CHR 0xB1, CHR 0xE4, CHR 0xBA, CHR 0xAB, CHR 0xE8, CHR 0xB0, CHR 0x83,
       CHR 0xE7, CHR 0x94, CHR 0xA8, CHR 0xE7, CHR 0x9A, CHR 0x84, CHR 0xE6, CHR 0x9D, CHR 0x83, CHR 0xE9, CHR 0x99,
       CHR 0x90, CHR 0xE7, CHR 0xBA, CHR 0xA6, CHR 0xE6, CHR 0x9D, CHR 0x9F, CHR 0xEF, CHR 0xBC, CHR 0x8C, CHR 0xE6,
       CHR 0x9A, CHR 0x82, CHR 0xE6, CHR 0x97, CHR 0xB6, CHR 0xE6, CHR 0x97, CHR 0xA0, CHR 0xE6, CHR 0xB3, CHR 0x95,
       CHR 0xE4, CHR 0xB8, CHR 0xBA, CHR 0xE4, CHR 0xBD, CHR 0xA0, CHR 0xE6, CHR 0x89, CHR 0xA7, CHR 0xE8, CHR 0xA1,
       CHR 0x8C, CHR 0xE4, CHR 0xBB, CHR 0xBB, CHR 0xE5, CHR 0x8A, CHR 0xA1, CHR 0xE3, CHR 0x80, CHR 0x82, CHR 0xE8,
       CHR 0xAF, CHR 0xB7, CHR 0xE8, CHR 0x81, CHR 0x94, CHR 0xE7, CHR 0xB3, CHR 0xBB, CHR 0xE5, CHR 0xAE, CHR 0x83,
       CHR 0xE7, CHR 0x9A, CHR 0x84, CHR 0x20, CHR 0x6F, CHR 0x77, CHR 0x6E, CHR 0x65, CHR 0x72, CHR 0xE3, CHR 0x80,
       CHR 0x82]"

section \<open>The plan of a turn\<close>

datatype run_profile = ProfRestricted | ProfCollaborator

record turn_plan =
  tp_waitMarkerFile :: "string option"
  tp_budget :: "cloud_budget option"
  tp_timeoutMs :: int
  tp_execution :: turn_execution
  tp_restricted :: bool
  tp_teamDelivery :: bool
  tp_grant :: "access_grant option"
  tp_guestDir :: "string option"
  tp_cwd :: string
  tp_profile :: "run_profile option"
  tp_key :: string
  tp_trustLevel :: trust_level
  tp_responseIds :: "string list"
  tp_ctx :: stream_ctx
  tp_statusTarget :: "string option"

definition execution_grant :: "turn_execution \<Rightarrow> access_grant option" where
  "execution_grant ex =
     (case ex of ExDefault \<Rightarrow> None | ExRestricted g \<Rightarrow> g | ExCollaborator g \<Rightarrow> Some g | ExRefused _ g \<Rightarrow> g)"

definition turn_key_input :: "gateway_route \<Rightarrow> inbound_message \<Rightarrow> turn_execution \<Rightarrow> session_key_input" where
  "turn_key_input route msg ex =
     \<lparr>sk_runtime = r_runtime route, sk_channel = m_channel msg, sk_accountId = m_accountId msg,
      sk_conversationKind = c_kind (m_conversation msg), sk_conversationId = c_id (m_conversation msg),
      sk_threadId = c_threadId (m_conversation msg),
      sk_executionScope = (case execution_grant ex of
          Some g \<Rightarrow> Some (''grant:'' @ g_grantId g)
        | None \<Rightarrow> (if ex \<noteq> ExDefault then Some ''restricted'' else None))\<rparr>"

text \<open>\<open>guest\<close> is the directory \<open>ensureGuestWorkspace\<close> returns, \<open>None\<close> when it throws.\<close>

definition plan_turn ::
  "dispatcher_config \<Rightarrow> string \<Rightarrow> gateway_route \<Rightarrow> inbound_message \<Rightarrow> channel_adapter \<Rightarrow> string option \<Rightarrow> turn_plan" where
  "plan_turn cfg queueKey route msg channel guest =
     (let botcord = isBotCordChannel channel;
          group_room = botcord \<and> \<not> isOwnerChatRoom msg \<and> c_kind (m_conversation msg) = Group;
          budget = extractCloudRunBudget msg;
          execution = resolveTurnExecution msg route botcord;
          restricted = (execution \<noteq> ExDefault);
          guestDir = (case execution of ExCollaborator _ \<Rightarrow> guest | _ \<Rightarrow> None);
          responseIds = (if ch_responseRun channel then responseInputIds msg else []);
          streamable = (case m_trace msg of Some t \<Rightarrow> t_streamable t = Some True | None \<Rightarrow> False);
          canType = (m_trace msg \<noteq> None \<and> ch_typing channel \<and> (streamable \<or> \<not> botcord));
          canStream = (streamable \<and> m_trace msg \<noteq> None \<and> ch_streamBlock channel)
      in \<lparr>tp_waitMarkerFile = (if group_room then Some (resolveWaitMarkerPath (r_cwd route) queueKey) else None),
          tp_budget = budget,
          tp_timeoutMs = min (dc_turnTimeoutMs cfg)
            (case budget of
               Some b \<Rightarrow> (case cb_maxWallTimeMs b of Some w \<Rightarrow> w | None \<Rightarrow> dc_turnTimeoutMs cfg)
             | None \<Rightarrow> dc_turnTimeoutMs cfg),
          tp_execution = execution,
          tp_restricted = restricted,
          tp_teamDelivery = (botcord \<and> isTeamConversation msg \<and> \<not> isContactRequest msg),
          tp_grant = execution_grant execution,
          tp_guestDir = guestDir,
          tp_cwd = (case guestDir of Some d \<Rightarrow> d | None \<Rightarrow> r_cwd route),
          tp_profile = (case execution of
              ExCollaborator _ \<Rightarrow> (if guest = None then Some ProfRestricted else Some ProfCollaborator)
            | ExRestricted _ \<Rightarrow> Some ProfRestricted
            | _ \<Rightarrow> None),
          tp_key = sessionKey (turn_key_input route msg execution),
          tp_trustLevel = (if restricted then Public else (case r_trustLevel route of Some t \<Rightarrow> t | None \<Rightarrow> Trusted)),
          tp_responseIds = responseIds,
          tp_ctx = \<lparr>sc_canType = canType, sc_canStream = canStream, sc_transcript = dc_transcript cfg, sc_verbose = dc_verbose cfg,
            sc_maxToolCalls = (case budget of Some b \<Rightarrow> cb_maxToolCalls b | None \<Rightarrow> None),
            sc_multi = (length responseIds > 1),
            sc_pingKey = m_accountId msg @ '':'' @ c_id (m_conversation msg)\<rparr>,
          tp_statusTarget = (if group_room \<and> shouldShowReplyingStatus msg \<and> ch_messageStatus channel
                             then pickMessageStatusTarget msg else None)\<rparr>)"

end
