(* ===== verification/Turn_Run.thy ===== *)
theory Turn_Run
  imports Turn_Setup Auth_Breaker
begin

text \<open>
  One turn of an agent: \<open>runTurn\<close> of \<open>dispatcher.ts\<close> from the dispatched record to the release of its slot.

  The turn is a function of its environment: \<open>en_events\<close> gives, for every await of the code, what happens
  while the turn waits there (blocks of the runtime, a timeout, a newer arrival), and the other fields
  give the answers of the channel, the runtime, the hooks and the guest workspace. Every interleaving with the
  rest of the daemon is a choice of these lists. \<open>ts_fx\<close> is the list of the effects in order. The heartbeat
  timer of a response run, log lines and the rendering of attachments are left out.
\<close>

section \<open>Requests, results and effects\<close>

record run_request =
  rq_text :: string
  rq_sessionId :: "string option"
  rq_cwd :: string
  rq_trustLevel :: trust_level
  rq_profile :: "run_profile option"
  rq_allowedCommands :: "string list option"
  rq_systemContext :: "string option"

record run_result =
  rr_text :: string
  rr_newSessionId :: string
  rr_error :: "string option"
  rr_failure :: failure_report
  rr_inputCacheHitTokens :: "int option"
  rr_inputCacheMissTokens :: "int option"

datatype report_action = RaQueue | RaRegister | RaStart | RaIgnore | RaNoReply | RaReplying | RaFinish

datatype report_outcome = OcUnconfirmed | OcFailed | OcInterrupted

datatype response_reason =
    ReAgentDecision | ReSuperseded | ReCancelled | ReRuntimeError | ReRuntimeTimeout | ReReplySendFailed
  | ReMissingDecision | ReInvalidDecision | ReReportingFailed | ReAttentionPolicy | ReAuthUnavailable | ReNotExecuted

datatype error_phase = EpRuntime | EpTimeout | EpBudget

datatype delivery_status = DsDelivered | DsGated | DsEmptyText | DsSendFailed

record outbound =
  ob_error :: bool
  ob_text :: string
  ob_attachments :: "string list"
  ob_response :: "(string \<times> string list option) option"
  ob_errorRef :: "string option"
  ob_replyTo :: string

datatype turn_effect =
    FxDispatched string string "string list"
  | FxStatus bool
  | FxReport report_action "string list option" "report_outcome option" "response_reason option"
  | FxRuntime run_request
  | FxSessionDelete string
  | FxSessionSet session_entry
  | FxTurnComplete
  | FxTurnError error_phase string
  | FxSend outbound
  | FxCommit
  | FxAuthFailure string
  | FxAuthClear
  | FxOutbound delivery_status "string option"
  | FxStreamEnd
  | FxSlotFreed

section \<open>State and environment\<close>

record turn_state =
  ts_stream :: stream_state
  ts_store :: session_store
  ts_auth :: auth_table
  ts_files :: files
  ts_park :: park_state
  ts_statusStarted :: bool
  ts_runtimeText :: string
  ts_activeSession :: "string option"
  ts_memoryVersion :: "string option"
  ts_registered :: bool
  ts_targets :: "string list option"
  ts_responseFailed :: bool
  ts_failureReason :: "response_reason option"
  ts_replyText :: string
  ts_canDeliver :: bool
  ts_fx :: "turn_effect list"

datatype await_point =
    AwGuest | AwStatusStarted | AwSystemContext | AwMemory | AwRegister | AwStart | AwRotate | AwRecovery | AwRun
  | AwRetryDelete | AwRetryRecovery | AwBackoff | AwRetry | AwTurnComplete | AwErrorSend | AwNoReply | AwDecisionStart
  | AwCommit | AwPersist | AwReplying | AwSend | AwFinish | AwStatusCleared | AwStreamEnd

datatype run_outcome = RunThrew thrown | RunReturned run_result

record turn_env =
  en_events :: "await_point \<Rightarrow> turn_event list"
  en_now :: int
  en_elapsed :: int
  en_guest :: "string option"
  en_systemContext :: "string option"
  en_memoryVersion :: "string option"
  en_reportOk :: "await_point \<Rightarrow> bool"
  en_reportThrown :: thrown
  en_recovery :: "string option"
  en_run :: run_outcome
  en_retry :: run_outcome
  en_commit :: "string option"
  en_sendError :: "string option"
  en_attachments :: "string \<Rightarrow> string list"
  en_streamEndOk :: bool
  en_errorRef :: "failure_summary \<Rightarrow> string"
  en_parse :: "string \<Rightarrow> jsval option"

text \<open>The arguments of a turn, with its plan.\<close>

record turn_args =
  ta_cfg :: dispatcher_config
  ta_queueKey :: string
  ta_route :: gateway_route
  ta_text :: string
  ta_msg :: inbound_message
  ta_channel :: channel_adapter
  ta_turnId :: string
  ta_merged :: "string list"
  ta_plan :: turn_plan
  ta_entry :: "session_entry option"

definition emit :: "turn_effect \<Rightarrow> turn_state \<Rightarrow> turn_state" where
  "emit fx st = st\<lparr>ts_fx := ts_fx st @ [fx]\<rparr>"

text \<open>Transcript records reach a file only when the transcript is enabled.\<close>

definition emit_record :: "turn_args \<Rightarrow> turn_effect \<Rightarrow> turn_state \<Rightarrow> turn_state" where
  "emit_record a fx st = (if dc_transcript (ta_cfg a) then emit fx st else st)"

definition at_await :: "turn_args \<Rightarrow> turn_env \<Rightarrow> await_point \<Rightarrow> turn_state \<Rightarrow> turn_state" where
  "at_await a env p st = st\<lparr>ts_stream := turn_events (tp_ctx (ta_plan a)) (en_events env p) (ts_stream st)\<rparr>"

definition report :: "turn_args \<Rightarrow> turn_env \<Rightarrow> await_point \<Rightarrow> report_action \<Rightarrow> string list option \<Rightarrow> report_outcome option \<Rightarrow>
  response_reason option \<Rightarrow> turn_state \<Rightarrow> turn_state" where
  "report a env p act ids outcome reason st = at_await a env p (emit (FxReport act ids outcome reason) st)"

definition truthy_str :: "string option \<Rightarrow> bool" where
  "truthy_str s \<longleftrightarrow> (case s of Some t \<Rightarrow> t \<noteq> [] | None \<Rightarrow> False)"

definition is_aborted :: "turn_state \<Rightarrow> bool" where
  "is_aborted st \<longleftrightarrow> ss_aborted (ts_stream st) \<noteq> None"

definition timed_out :: "turn_state \<Rightarrow> bool" where
  "timed_out st \<longleftrightarrow> ss_timedOut (ts_stream st)"

definition over_budget :: "turn_state \<Rightarrow> bool" where
  "over_budget st \<longleftrightarrow> ss_budgetExceeded (ts_stream st) \<noteq> None"

section \<open>Before the runtime\<close>

definition sendReplyingStatus :: "turn_args \<Rightarrow> turn_env \<Rightarrow> bool \<Rightarrow> turn_state \<Rightarrow> turn_state" where
  "sendReplyingStatus a env started st =
     (if tp_statusTarget (ta_plan a) = None \<or> \<not> ch_messageStatus (ta_channel a) then st
      else if \<not> started \<and> \<not> ts_statusStarted st then st
      else at_await a env (if started then AwStatusStarted else AwStatusCleared)
             (emit (FxStatus started) (if started then st\<lparr>ts_statusStarted := True\<rparr> else st)))"

text \<open>The slot, the stale marker, the dispatched record, the status reaction, typing and the memory notice.\<close>

definition begin_turn :: "turn_args \<Rightarrow> turn_env \<Rightarrow> turn_state \<Rightarrow> turn_state" where
  "begin_turn a env st =
     (let st1 = (case tp_waitMarkerFile (ta_plan a) of
                   Some f \<Rightarrow> st\<lparr>ts_files := clearWaitMarker f (ts_files st)\<rparr> | None \<Rightarrow> st);
          st2 = emit_record a (FxDispatched (ta_turnId a) (ta_text a) (ta_merged a)) st1;
          st3 = (case tp_execution (ta_plan a) of ExCollaborator _ \<Rightarrow> at_await a env AwGuest st2 | _ \<Rightarrow> st2);
          st4 = sendReplyingStatus a env True st3;
          st5 = st4\<lparr>ts_stream := fireTypingIfNeeded (tp_ctx (ta_plan a)) (en_now env) (ts_stream st4)\<rparr>
      in at_await a env AwSystemContext st5)"

definition memory_notice :: "turn_args \<Rightarrow> turn_env \<Rightarrow> turn_state \<Rightarrow> turn_state" where
  "memory_notice a env st =
     (let st' = at_await a env AwMemory st
      in case en_memoryVersion env of
           Some v \<Rightarrow>
             (if v \<noteq> []
              then let previous = (case ta_entry a of Some e \<Rightarrow> se_memoryVersion e | None \<Rightarrow> None);
                       noticed = (if truthy_str (ts_activeSession st') \<and> previous \<noteq> Some v
                                  then buildMemoryUpdateNotice previous v (ta_text a) else ts_runtimeText st')
                   in st'\<lparr>ts_memoryVersion := Some v, ts_runtimeText := noticed\<rparr>
              else st')
         | None \<Rightarrow> st')"

text \<open>
  Registration of a response run. A rejected report is thrown and skips the runtime; the flag says
  whether one was thrown.
\<close>

definition register_response :: "turn_args \<Rightarrow> turn_env \<Rightarrow> turn_state \<Rightarrow> bool \<times> turn_state" where
  "register_response a env st =
     (let ids = tp_responseIds (ta_plan a);
          p = ta_plan a
      in if ids = [] then (False, st)
         else
           let st1 = report a env AwRegister RaRegister (Some ids) None None st
           in if \<not> en_reportOk env AwRegister then (True, st1)
              else
                let st2 = st1\<lparr>ts_registered := True\<rparr>;
                    starts = (length ids = 1 \<and> (tp_restricted p \<or> tp_teamDelivery p \<or> isOwnerChatRoom (ta_msg a)));
                    st3 = (if starts then report a env AwStart RaStart (Some ids) None None st2 else st2)
                in if starts \<and> \<not> en_reportOk env AwStart then (True, st3)
                   else (False, st3\<lparr>ts_runtimeText :=
                     responseInstructions (ta_turnId a) (c_id (m_conversation (ta_msg a))) ids (tp_restricted p \<or> tp_teamDelivery p) @
                     ts_runtimeText st3\<rparr>))"

definition delete_session :: "turn_args \<Rightarrow> turn_state \<Rightarrow> turn_state" where
  "delete_session a st =
     emit (FxSessionDelete (tp_key (ta_plan a))) (st\<lparr>ts_store := delete_entry (tp_key (ta_plan a)) (ts_store st)\<rparr>)"

text \<open>Proactive rotation: the stored session is dropped and the prompt carries recovery context.\<close>

definition rotate_session :: "turn_args \<Rightarrow> turn_env \<Rightarrow> turn_state \<Rightarrow> turn_state" where
  "rotate_session a env st =
     (if \<not> truthy_str (ts_activeSession st) then st
      else case rotationDecision (ta_cfg a) (ta_entry a) of
             None \<Rightarrow> st
           | Some reason \<Rightarrow>
               (let st1 = at_await a env AwRotate (delete_session a st);
                    st2 = at_await a env AwRecovery st1
                in st2\<lparr>ts_activeSession := None,
                       ts_runtimeText := buildRuntimeRecoveryPrompt (ta_text a) (r_runtime (ta_route a)) reason None (en_recovery env)\<rparr>))"

section \<open>The runtime and its retries\<close>

definition run_request_of :: "turn_args \<Rightarrow> turn_env \<Rightarrow> string \<Rightarrow> string option \<Rightarrow> run_request" where
  "run_request_of a env txt session =
     \<lparr>rq_text = txt, rq_sessionId = session, rq_cwd = tp_cwd (ta_plan a), rq_trustLevel = tp_trustLevel (ta_plan a),
      rq_profile = tp_profile (ta_plan a),
      rq_allowedCommands = (case (tp_profile (ta_plan a), tp_grant (ta_plan a)) of
          (Some ProfCollaborator, Some g) \<Rightarrow> Some (g_allowedCommands g) | _ \<Rightarrow> None),
      rq_systemContext = en_systemContext env\<rparr>"

text \<open>The registered runtimes; creating another one throws.\<close>

definition RUNTIME_IDS :: "string list" where
  "RUNTIME_IDS = [''claude-code'', ''codex'', ''deepseek-tui'', ''kimi-cli'', ''hermes-agent'', ''gemini'', ''openclaw-acp'']"

definition createRuntime :: "string \<Rightarrow> bool" where
  "createRuntime runtime \<longleftrightarrow> runtime \<in> set RUNTIME_IDS"

text \<open>A refused turn is answered by the stand-in runtime and never reaches a real one.\<close>

definition runRuntime :: "turn_args \<Rightarrow> turn_env \<Rightarrow> await_point \<Rightarrow> run_outcome \<Rightarrow> string \<Rightarrow> string option \<Rightarrow> turn_state \<Rightarrow>
  run_outcome \<times> turn_state" where
  "runRuntime a env p outcome txt session st =
     (case tp_execution (ta_plan a) of
        ExRefused reason _ \<Rightarrow>
          (RunReturned \<lparr>rr_text = REFUSAL_TEXT reason, rr_newSessionId = [], rr_error = None, rr_failure = no_report,
             rr_inputCacheHitTokens = None, rr_inputCacheMissTokens = None\<rparr>, st)
      | _ \<Rightarrow> (outcome, at_await a env p (emit (FxRuntime (run_request_of a env txt session)) st)))"

definition clean :: "turn_state \<Rightarrow> bool" where
  "clean st \<longleftrightarrow> \<not> is_aborted st \<and> \<not> timed_out st \<and> \<not> over_budget st"

definition shouldRetryFresh :: "turn_args \<Rightarrow> run_result \<Rightarrow> turn_state \<Rightarrow> bool" where
  "shouldRetryFresh a r st \<longleftrightarrow>
     (let firstError = (case rr_error r of Some e \<Rightarrow> e | None \<Rightarrow> [])
      in r_runtime (ta_route a) \<in> set FRESH_RETRY_SESSION_FAILURE_RUNTIMES \<and> truthy_str (ts_activeSession st) \<and> firstError \<noteq> [] \<and>
         trim (rr_text r) = [] \<and> \<not> looksLikeRuntimeAuthFailure firstError \<and> looksLikeRecoverableSessionFailure firstError \<and> clean st)"

definition shouldRetryTransient :: "turn_args \<Rightarrow> run_result \<Rightarrow> turn_state \<Rightarrow> bool" where
  "shouldRetryTransient a r st \<longleftrightarrow>
     (let firstError = (case rr_error r of Some e \<Rightarrow> e | None \<Rightarrow> [])
      in \<not> shouldRetryFresh a r st \<and> shouldObserveBlocks (tp_ctx (ta_plan a)) \<and>
         hasOnlyRetrySafeLifecycleBlocks (ss_blocks (ts_stream st)) \<and> firstError \<noteq> [] \<and> trim (rr_text r) = [] \<and>
         \<not> looksLikeRuntimeAuthFailure firstError \<and> \<not> looksLikeUsageLimit firstError \<and>
         looksLikeTransientRuntimeError firstError \<and> clean st)"

definition retry_runtime :: "turn_args \<Rightarrow> turn_env \<Rightarrow> run_result \<Rightarrow> turn_state \<Rightarrow> run_outcome \<times> turn_state" where
  "retry_runtime a env r st =
     (if shouldRetryFresh a r st then
        (let st1 = at_await a env AwRetryDelete (delete_session a st);
             st2 = at_await a env AwRetryRecovery st1;
             txt = buildRuntimeRecoveryPrompt (ta_text a) (r_runtime (ta_route a)) RECOVERY_REASON_FAILURE (rr_error r) (en_recovery env)
         in runRuntime a env AwRetry (en_retry env) txt None (st2\<lparr>ts_activeSession := None, ts_runtimeText := txt\<rparr>))
      else if shouldRetryTransient a r st then
        (let st1 = at_await a env AwBackoff st
         in if clean st1 then runRuntime a env AwRetry (en_retry env) (ts_runtimeText st1) (ts_activeSession st1) st1
            else (RunReturned r, st1))
      else (RunReturned r, st))"

text \<open>The guarded part of the turn: registration, rotation, the run and one retry. The result is the last
  result of the runtime, if one returned, and what was thrown, if anything was; the timer is cleared either way.\<close>

definition run_phase :: "turn_args \<Rightarrow> turn_env \<Rightarrow> turn_state \<Rightarrow> run_result option \<times> thrown option \<times> turn_state" where
  "run_phase a env st =
     (let stop = (\<lambda>(res, err, s). (res, err, s\<lparr>ts_stream := (ts_stream s)\<lparr>ss_timerActive := False\<rparr>\<rparr>));
          (rejected, st1) = register_response a env st
      in stop (if rejected then (None, Some (en_reportThrown env), st1)
               else
                 let st2 = rotate_session a env st1
                 in case runRuntime a env AwRun (en_run env) (ts_runtimeText st2) (ts_activeSession st2) st2 of
                      (RunThrew e, st3) \<Rightarrow> (None, Some e, st3)
                    | (RunReturned r, st3) \<Rightarrow>
                        (case retry_runtime a env r st3 of
                           (RunThrew e, st4) \<Rightarrow> (Some r, Some e, st4)
                         | (RunReturned r', st4) \<Rightarrow> (Some r', None, st4))))"

section \<open>After the runtime\<close>

definition reply_base :: "turn_args \<Rightarrow> outbound" where
  "reply_base a = \<lparr>ob_error = False, ob_text = [], ob_attachments = [], ob_response = None, ob_errorRef = None,
     ob_replyTo = pickReplyToTarget (ta_msg a)\<rparr>"

text \<open>\<open>sendReply\<close>: the message is handed to the channel; a failed send is an answer, not an exception.\<close>

definition sendReply :: "turn_args \<Rightarrow> turn_env \<Rightarrow> await_point \<Rightarrow> outbound \<Rightarrow> turn_state \<Rightarrow> turn_state" where
  "sendReply a env p ob st = at_await a env p (emit (FxSend ob) st)"

definition emitOutbound :: "turn_args \<Rightarrow> delivery_status \<Rightarrow> string option \<Rightarrow> turn_state \<Rightarrow> turn_state" where
  "emitOutbound a status reason st = emit_record a (FxOutbound status reason) st"

definition send_status :: "turn_env \<Rightarrow> delivery_status" where
  "send_status env = (if en_sendError env = None then DsDelivered else DsSendFailed)"

text \<open>The warning sign of error replies, as its UTF-8 bytes.\<close>

definition warning_sign :: string where
  "warning_sign = [CHR 0xE2, CHR 0x9A, CHR 0xA0, CHR 0xEF, CHR 0xB8, CHR 0x8F]"

definition failure_text :: "captured_failure \<Rightarrow> string" where
  "failure_text failure =
     (case cf_usageLimitText failure of
        Some t \<Rightarrow> t
      | None \<Rightarrow> warning_sign @ '' Runtime error: '' @ truncate_text (cf_safeMessage failure) 500 @ '' [error_ref: '' @ cf_errorRef failure @ '']'')"

definition restrictedDelivery :: "turn_args \<Rightarrow> bool" where
  "restrictedDelivery a \<longleftrightarrow> tp_restricted (ta_plan a) \<and> isBotCordChannel (ta_channel a) \<and> \<not> isContactRequest (ta_msg a)"

text \<open>Which rooms take the runtime's final text, and which take its diagnostics.\<close>

definition canDeliverRuntimeText :: "turn_args \<Rightarrow> bool" where
  "canDeliverRuntimeText a \<longleftrightarrow>
     isOwnerChatRoom (ta_msg a) \<or> \<not> isBotCordChannel (ta_channel a) \<or> restrictedDelivery a \<or> tp_teamDelivery (ta_plan a)"

definition canDeliverRuntimeDiagnostics :: "turn_args \<Rightarrow> bool" where
  "canDeliverRuntimeDiagnostics a \<longleftrightarrow> canDeliverRuntimeText a \<or> isBotCordChannel (ta_channel a)"

text \<open>A timeout or an exceeded budget. \<open>Math.round\<close> rounds halves up.\<close>

definition settle_interrupted :: "turn_args \<Rightarrow> turn_env \<Rightarrow> turn_state \<Rightarrow> turn_state" where
  "settle_interrupted a env st =
     (let minutes = (tp_timeoutMs (ta_plan a) + 30000) div 60000;
          (phase, err, txt) = (case ss_budgetExceeded (ts_stream st) of
              Some b \<Rightarrow> (EpBudget, b, ''Cloud run budget exceeded: '' @ b)
            | None \<Rightarrow> (EpTimeout, ''runtime timeout after '' @ int_str (tp_timeoutMs (ta_plan a)) @ ''ms'',
                      ''Runtime timeout after '' @ int_str minutes @ '' minute(s); aborted''));
          st1 = emit_record a (FxTurnError phase err) st
      in if canDeliverRuntimeDiagnostics a
         then sendReply a env AwErrorSend ((reply_base a)\<lparr>ob_error := True, ob_text := txt\<rparr>) st1
         else st1)"

text \<open>A runtime failure is recorded and, where diagnostics are delivered, answered.\<close>

definition capture :: "turn_args \<Rightarrow> turn_env \<Rightarrow> thrown \<Rightarrow> run_result option \<Rightarrow> captured_failure" where
  "capture a env err r =
     captureRuntimeFailure (en_errorRef env) (ta_msg a) (ta_route a) (ta_turnId a) (en_elapsed env) err
       (case r of Some x \<Rightarrow> rr_error x | None \<Rightarrow> None) (case r of Some x \<Rightarrow> rr_failure x | None \<Rightarrow> no_report)"

definition settle_failure :: "turn_args \<Rightarrow> turn_env \<Rightarrow> thrown \<Rightarrow> run_result option \<Rightarrow> turn_state \<Rightarrow> turn_state" where
  "settle_failure a env err r st =
     (let failure = capture a env err r;
          st1 = emit_record a (FxTurnError EpRuntime (cf_safeMessage failure)) st
      in if canDeliverRuntimeDiagnostics a
         then sendReply a env AwErrorSend
                ((reply_base a)\<lparr>ob_error := True, ob_text := failure_text failure, ob_errorRef := Some (cf_errorRef failure)\<rparr>) st1
         else st1)"

text \<open>
  The response decision in the final text: inputs the agent declines and inputs it answers are
  reported. \<open>True\<close> means the decision failed and the turn ends.
\<close>

definition fail_response :: "response_reason \<Rightarrow> turn_state \<Rightarrow> turn_state" where
  "fail_response reason st = st\<lparr>ts_responseFailed := True, ts_failureReason := Some reason\<rparr>"

definition decide_response :: "turn_args \<Rightarrow> turn_env \<Rightarrow> turn_state \<Rightarrow> bool \<times> turn_state" where
  "decide_response a env st =
     (let ids = tp_responseIds (ta_plan a);
          silence = (\<lambda>s. if ts_replyText s = ''NO_REPLY'' then s\<lparr>ts_replyText := []\<rparr> else s)
      in case parseResponseDecision (en_parse env) (ts_replyText st) ids of
           Inl _ \<Rightarrow> (True, fail_response ReInvalidDecision st)
         | Inr (Some d) \<Rightarrow>
             (let st1 = (if rd_noReply d \<noteq> [] then report a env AwNoReply RaNoReply (Some (rd_noReply d)) None (Some ReAgentDecision) st else st)
              in if rd_noReply d \<noteq> [] \<and> \<not> en_reportOk env AwNoReply then (True, fail_response ReReportingFailed st1)
                 else
                   let st2 = (if rd_respondsTo d \<noteq> [] then report a env AwDecisionStart RaStart (Some (rd_respondsTo d)) None None st1 else st1)
                   in if rd_respondsTo d \<noteq> [] \<and> \<not> en_reportOk env AwDecisionStart then (True, fail_response ReReportingFailed st2)
                      else (False, silence (st2\<lparr>ts_targets := Some (rd_respondsTo d),
                              ts_canDeliver := (ts_canDeliver st2 \<or> rd_respondsTo d \<noteq> []), ts_replyText := rd_text d\<rparr>)))
         | Inr None \<Rightarrow>
             (if ts_replyText st = ''NO_REPLY'' \<and> length ids = 1
              then let st1 = report a env AwNoReply RaNoReply (Some ids) None (Some ReAgentDecision) st
                   in if \<not> en_reportOk env AwNoReply then (True, fail_response ReReportingFailed st1) else (False, silence st1)
              else (False, silence st)))"

text \<open>The session after a turn: dropped, stored with its turn counter, or left alone.\<close>

definition next_entry :: "turn_args \<Rightarrow> turn_env \<Rightarrow> run_result \<Rightarrow> turn_state \<Rightarrow> session_entry" where
  "next_entry a env r st =
     (let resumedSame = (truthy_str (ts_activeSession st) \<and> map_option se_runtimeSessionId (ta_entry a) = ts_activeSession st);
          msg = ta_msg a
      in \<lparr>se_key = tp_key (ta_plan a), se_runtime = r_runtime (ta_route a), se_runtimeSessionId = rr_newSessionId r,
          se_memoryVersion = (case ts_memoryVersion st of
              Some v \<Rightarrow> Some v | None \<Rightarrow> (case ta_entry a of Some e \<Rightarrow> se_memoryVersion e | None \<Rightarrow> None)),
          se_channel = m_channel msg, se_accountId = m_accountId msg, se_conversationKind = c_kind (m_conversation msg),
          se_conversationId = c_id (m_conversation msg), se_threadId = c_threadId (m_conversation msg), se_cwd = r_cwd (ta_route a),
          se_updatedAt = Fin (of_int (en_now env)),
          se_turnCount = Some (if resumedSame
             then (case ta_entry a of Some e \<Rightarrow> (case se_turnCount e of Some n \<Rightarrow> n | None \<Rightarrow> 0) | None \<Rightarrow> 0) + 1 else 1),
          se_lastInputTokens = (if rr_inputCacheHitTokens r \<noteq> None \<or> rr_inputCacheMissTokens r \<noteq> None
             then Some ((case rr_inputCacheHitTokens r of Some n \<Rightarrow> n | None \<Rightarrow> 0) + (case rr_inputCacheMissTokens r of Some n \<Rightarrow> n | None \<Rightarrow> 0))
             else None)\<rparr>)"

definition persist_session :: "turn_args \<Rightarrow> turn_env \<Rightarrow> run_result \<Rightarrow> string option \<Rightarrow> string option \<Rightarrow> turn_state \<Rightarrow> turn_state" where
  "persist_session a env r effectiveError authFailureError st =
     (if truthy_str (ts_activeSession st) \<and> truthy_str effectiveError \<and> ts_replyText st = []
      then at_await a env AwPersist (delete_session a st)
      else if rr_newSessionId r \<noteq> [] \<and> authFailureError = None
      then (let e = next_entry a env r st
            in at_await a env AwPersist (emit (FxSessionSet e) (st\<lparr>ts_store := set_entry (of_int (en_now env)) e (ts_store st)\<rparr>)))
      else if truthy_str (ts_activeSession st) \<and> truthy_str effectiveError
      then at_await a env AwPersist (delete_session a st)
      else st)"

definition record_auth :: "turn_args \<Rightarrow> turn_env \<Rightarrow> string option \<Rightarrow> string option \<Rightarrow> turn_state \<Rightarrow> turn_state" where
  "record_auth a env effectiveError authFailureError st =
     (case authFailureError of
        Some e \<Rightarrow>
          emit (FxAuthFailure e) (st\<lparr>ts_auth := snd (snd (recordRuntimeAuthFailure (dc_authFailureThreshold (ta_cfg a))
            (dc_authFailureCooldownMs (ta_cfg a)) (en_now env) (ta_route a) (ta_msg a) e (ts_auth st)))\<rparr>)
      | None \<Rightarrow>
          (if \<not> truthy_str effectiveError
           then emit FxAuthClear (st\<lparr>ts_auth := snd (clearRuntimeAuthFailures (ta_route a) (ta_msg a) (ts_auth st))\<rparr>)
           else st))"

text \<open>Changes of a collaborator are committed, and the commit is named in the reply.\<close>

definition commit_guest :: "turn_args \<Rightarrow> turn_env \<Rightarrow> string option \<Rightarrow> turn_state \<Rightarrow> turn_state" where
  "commit_guest a env effectiveError st =
     (if tp_guestDir (ta_plan a) \<noteq> None \<and> tp_grant (ta_plan a) \<noteq> None \<and> \<not> truthy_str effectiveError \<and> \<not> is_aborted st
      then let st1 = at_await a env AwCommit (emit FxCommit st)
           in case en_commit env of
                Some committed \<Rightarrow>
                  (if committed \<noteq> []
                   then st1\<lparr>ts_replyText := (if ts_replyText st1 \<noteq> [] \<and> ts_replyText st1 \<noteq> ''NO_REPLY''
                          then ts_replyText st1 @ [CHR 0x0A, CHR 0x0A] @ committed else committed)\<rparr>
                   else st1)
              | None \<Rightarrow> st1
      else st)"

text \<open>The final answer: nothing to say, gated, silent, or sent.\<close>

definition deliver_reply :: "turn_args \<Rightarrow> turn_env \<Rightarrow> turn_state \<Rightarrow> turn_state" where
  "deliver_reply a env st =
     (let ids = tp_responseIds (ta_plan a);
          targets = (case ts_targets st of Some t \<Rightarrow> Some t | None \<Rightarrow> (if length ids = 1 then Some ids else None));
          known = (case targets of Some t \<Rightarrow> t | None \<Rightarrow> []);
          attachments = (if isOwnerChatRoom (ta_msg a) \<and> isBotCordChannel (ta_channel a) then en_attachments env (ts_replyText st) else []);
          announces = (ts_registered st \<and> known \<noteq> []);
          st1 = (if announces then report a env AwReplying RaReplying (Some known) None None st else st)
      in if announces \<and> \<not> en_reportOk env AwReplying then fail_response ReReportingFailed st1
         else
           let ob = (reply_base a)\<lparr>ob_text := ts_replyText st1, ob_attachments := attachments,
                 ob_response := (if ts_registered st1 then Some (ta_turnId a, targets) else None)\<rparr>;
               st2 = sendReply a env AwSend ob st1;
               st3 = (if en_sendError env = None then st2 else fail_response ReReplySendFailed st2)
           in emitOutbound a (send_status env) (en_sendError env) st3)"

definition settle_reply :: "turn_args \<Rightarrow> turn_env \<Rightarrow> run_result \<Rightarrow> string option \<Rightarrow> turn_state \<Rightarrow> turn_state" where
  "settle_reply a env r effectiveError st =
     (if ts_replyText st = [] then
        (if truthy_str effectiveError \<and> canDeliverRuntimeDiagnostics a
         then emitOutbound a (send_status env) (en_sendError env)
                (settle_failure a env (OtherThrown (the effectiveError)) (Some r) st)
         else if truthy_str effectiveError
         then emitOutbound a DsEmptyText effectiveError (settle_failure a env (OtherThrown (the effectiveError)) (Some r) st)
         else emitOutbound a DsEmptyText effectiveError st)
      else if \<not> ts_canDeliver st then emitOutbound a DsGated None st
      else if (restrictedDelivery a \<or> tp_teamDelivery (ta_plan a)) \<and> \<not> isOwnerChatRoom (ta_msg a) \<and> ts_replyText st = ''NO_REPLY''
      then emitOutbound a DsEmptyText (Some ''no_reply'') st
      else if is_aborted st \<and> \<not> timed_out st then st
      else deliver_reply a env st)"

definition settle_result :: "turn_args \<Rightarrow> turn_env \<Rightarrow> run_result \<Rightarrow> turn_state \<Rightarrow> turn_state" where
  "settle_result a env r st =
     (let raw = trim (rr_text r);
          authText = looksLikeRuntimeAuthFailure raw;
          st1 = st\<lparr>ts_replyText := (if authText then [] else raw), ts_canDeliver := canDeliverRuntimeText a\<rparr>;
          st2 = (if authText then fail_response ReRuntimeError st1 else st1);
          (failed, st3) = (if ts_registered st2 \<and> \<not> truthy_str (rr_error r) \<and> \<not> authText then decide_response a env st2 else (False, st2))
      in if failed then st3
         else
           let effectiveError = (case rr_error r of Some e \<Rightarrow> Some e | None \<Rightarrow> (if authText then Some raw else None));
               st4 = commit_guest a env effectiveError st3;
               authFailureError = (if truthy_str effectiveError \<and> looksLikeRuntimeAuthFailure (the effectiveError) then effectiveError else None);
               st5 = record_auth a env effectiveError authFailureError st4;
               st6 = persist_session a env r effectiveError authFailureError st5
           in settle_reply a env r effectiveError st6)"

definition settle :: "turn_args \<Rightarrow> turn_env \<Rightarrow> run_result option \<Rightarrow> thrown option \<Rightarrow> turn_state \<Rightarrow> turn_state" where
  "settle a env result threw st =
     (let st1 = (if dc_onTurnComplete (ta_cfg a) then at_await a env AwTurnComplete (emit FxTurnComplete st) else st)
      in if is_aborted st1 \<and> \<not> timed_out st1 \<and> \<not> over_budget st1 then st1
         else if timed_out st1 \<or> over_budget st1 then settle_interrupted a env st1
         else case threw of
                Some e \<Rightarrow> settle_failure a env e None st1
              | None \<Rightarrow> (case result of None \<Rightarrow> st1 | Some r \<Rightarrow> settle_result a env r st1))"

section \<open>Teardown\<close>

definition finish_outcome :: "run_result option \<Rightarrow> thrown option \<Rightarrow> turn_state \<Rightarrow> report_outcome \<times> response_reason option" where
  "finish_outcome result threw st =
     (let superseded = (is_aborted st \<and> \<not> timed_out st);
          runtimeError = (threw \<noteq> None \<or> (case result of Some r \<Rightarrow> truthy_str (rr_error r) | None \<Rightarrow> False))
      in (if superseded then OcInterrupted
          else if runtimeError \<or> timed_out st \<or> over_budget st \<or> ts_responseFailed st then OcFailed else OcUnconfirmed,
          if superseded then (case ss_aborted (ts_stream st) of Some (AbortSuperseded _) \<Rightarrow> Some ReSuperseded | _ \<Rightarrow> Some ReCancelled)
          else if timed_out st then Some ReRuntimeTimeout
          else if ts_responseFailed st then ts_failureReason st
          else if runtimeError \<or> over_budget st then Some ReRuntimeError else Some ReMissingDecision))"

text \<open>The \<open>finally\<close> block. A rejected \<open>streamEnd\<close> leaves it early: the slot is never released.\<close>

definition teardown :: "turn_args \<Rightarrow> turn_env \<Rightarrow> run_result option \<Rightarrow> thrown option \<Rightarrow> turn_state \<Rightarrow> turn_state" where
  "teardown a env result threw st =
     (let (outcome, reason) = finish_outcome result threw st;
          st1 = (if ts_registered st then report a env AwFinish RaFinish None (Some outcome) reason st else st);
          st2 = st1\<lparr>ts_stream := finalizeThinkingIfActive (tp_ctx (ta_plan a)) (stopTypingRefresh (ts_stream st1))\<rparr>;
          st3 = sendReplyingStatus a env False st2;
          ends_stream = (sc_canStream (tp_ctx (ta_plan a)) \<and> ch_streamEnd (ta_channel a));
          st4 = (if ends_stream then at_await a env AwStreamEnd (emit FxStreamEnd st3) else st3)
      in if ends_stream \<and> \<not> en_streamEndOk env then st4
         else
           let now = of_int (en_now env);
               (wait, fs, pk) = maybeSchedulePark (en_parse env) (tp_waitMarkerFile (ta_plan a)) (timed_out st4 \<or> is_aborted st4) now now
                 (ts_files st4) (ts_park st4)
           in emit FxSlotFreed (st4\<lparr>ts_files := fs, ts_park := pk\<rparr>))"

section \<open>The whole turn\<close>

record shared_state =
  sh_store :: session_store
  sh_auth :: auth_table
  sh_files :: files
  sh_park :: park_state
  sh_pings :: "(string \<times> int) list"

definition make_args ::
  "dispatcher_config \<Rightarrow> string \<Rightarrow> gateway_route \<Rightarrow> string \<Rightarrow> inbound_message \<Rightarrow> channel_adapter \<Rightarrow> string \<Rightarrow> string list \<Rightarrow>
   turn_env \<Rightarrow> shared_state \<Rightarrow> turn_args" where
  "make_args cfg queueKey route txt msg channel turnId merged env sh =
     (let plan = plan_turn cfg queueKey route msg channel (en_guest env)
      in \<lparr>ta_cfg = cfg, ta_queueKey = queueKey, ta_route = route, ta_text = txt, ta_msg = msg, ta_channel = channel,
          ta_turnId = turnId, ta_merged = merged, ta_plan = plan, ta_entry = get (sh_store sh) (tp_key plan)\<rparr>)"

definition init_turn :: "turn_args \<Rightarrow> shared_state \<Rightarrow> turn_state" where
  "init_turn a sh =
     \<lparr>ts_stream = init_stream (sh_pings sh), ts_store = sh_store sh, ts_auth = sh_auth sh, ts_files = sh_files sh, ts_park = sh_park sh,
      ts_statusStarted = False, ts_runtimeText = ta_text a, ts_activeSession = map_option se_runtimeSessionId (ta_entry a),
      ts_memoryVersion = None, ts_registered = False, ts_targets = None, ts_responseFailed = False, ts_failureReason = None,
      ts_replyText = [], ts_canDeliver = False, ts_fx = []\<rparr>"

definition refused :: "turn_args \<Rightarrow> bool" where
  "refused a \<longleftrightarrow> (case tp_execution (ta_plan a) of ExRefused _ _ \<Rightarrow> True | _ \<Rightarrow> False)"

text \<open>The runtime is created before the guarded part of the turn, so an unknown runtime leaves the turn
  without its teardown.\<close>

definition runTurn :: "turn_args \<Rightarrow> turn_env \<Rightarrow> shared_state \<Rightarrow> turn_state" where
  "runTurn a env sh =
     (let st1 = memory_notice a env (begin_turn a env (init_turn a sh))
      in if \<not> refused a \<and> \<not> createRuntime (r_runtime (ta_route a)) then st1
         else
           let (result, threw, st2) = run_phase a env st1;
               st3 = settle a env result threw st2
           in teardown a env result threw st3)"

end
