(* ===== verification/Turn_Safety.thy ===== *)
theory Turn_Safety
  imports Turn_Run
begin

text \<open>
  What a turn does and does not do, whatever its environment: a superseded turn stays silent, a room
  gets only the text it may get, a refused turn never reaches a runtime, a guest never touches the
  owner's sessions, sessions rotate, and the slot is released.
\<close>

section \<open>Frames\<close>

text \<open>Events act on the stream state only.\<close>

lemma at_await_frame [simp]:
  "ts_fx (at_await a env p st) = ts_fx st" "ts_store (at_await a env p st) = ts_store st"
  "ts_auth (at_await a env p st) = ts_auth st" "ts_files (at_await a env p st) = ts_files st"
  "ts_park (at_await a env p st) = ts_park st" "ts_statusStarted (at_await a env p st) = ts_statusStarted st"
  "ts_runtimeText (at_await a env p st) = ts_runtimeText st" "ts_activeSession (at_await a env p st) = ts_activeSession st"
  "ts_memoryVersion (at_await a env p st) = ts_memoryVersion st" "ts_registered (at_await a env p st) = ts_registered st"
  "ts_targets (at_await a env p st) = ts_targets st" "ts_responseFailed (at_await a env p st) = ts_responseFailed st"
  "ts_failureReason (at_await a env p st) = ts_failureReason st" "ts_replyText (at_await a env p st) = ts_replyText st"
  "ts_canDeliver (at_await a env p st) = ts_canDeliver st"
  by (simp_all add: at_await_def)

lemma emit_frame [simp]:
  "ts_fx (emit fx st) = ts_fx st @ [fx]" "ts_stream (emit fx st) = ts_stream st" "ts_store (emit fx st) = ts_store st"
  "ts_auth (emit fx st) = ts_auth st" "ts_registered (emit fx st) = ts_registered st" "ts_targets (emit fx st) = ts_targets st"
  "ts_activeSession (emit fx st) = ts_activeSession st" "ts_replyText (emit fx st) = ts_replyText st"
  "ts_canDeliver (emit fx st) = ts_canDeliver st" "ts_runtimeText (emit fx st) = ts_runtimeText st"
  "ts_statusStarted (emit fx st) = ts_statusStarted st" "ts_memoryVersion (emit fx st) = ts_memoryVersion st"
  "ts_files (emit fx st) = ts_files st" "ts_park (emit fx st) = ts_park st"
  by (simp_all add: emit_def)

lemma emit_record_frame [simp]:
  "ts_stream (emit_record a fx st) = ts_stream st" "ts_store (emit_record a fx st) = ts_store st"
  "ts_registered (emit_record a fx st) = ts_registered st" "ts_activeSession (emit_record a fx st) = ts_activeSession st"
  "ts_fx (emit_record a fx st) = ts_fx st @ (if dc_transcript (ta_cfg a) then [fx] else [])"
  "ts_runtimeText (emit_record a fx st) = ts_runtimeText st"
  by (simp_all add: emit_record_def)

lemma report_frame [simp]:
  "ts_fx (report a env p act ids oc re st) = ts_fx st @ [FxReport act ids oc re]" "ts_store (report a env p act ids oc re st) = ts_store st"
  "ts_registered (report a env p act ids oc re st) = ts_registered st" "ts_targets (report a env p act ids oc re st) = ts_targets st"
  "ts_activeSession (report a env p act ids oc re st) = ts_activeSession st" "ts_replyText (report a env p act ids oc re st) = ts_replyText st"
  "ts_canDeliver (report a env p act ids oc re st) = ts_canDeliver st" "ts_runtimeText (report a env p act ids oc re st) = ts_runtimeText st"
  by (simp_all add: report_def)

section \<open>Aborted turns\<close>

text \<open>After the guarded part the timer is off: an aborted turn stays aborted in the way it is.\<close>

definition stopped :: "stream_state \<Rightarrow> bool" where
  "stopped s \<longleftrightarrow> ss_aborted s \<noteq> None \<and> \<not> ss_timerActive s \<and> \<not> ss_timedOut s \<and> ss_budgetExceeded s = None"

lemma forward_flags [simp]:
  "ss_timerActive (forwardBlockToChannel c b s) = ss_timerActive s" "ss_timedOut (forwardBlockToChannel c b s) = ss_timedOut s"
  "ss_budgetExceeded (forwardBlockToChannel c b s) = ss_budgetExceeded s"
  by (simp_all add: forwardBlockToChannel_def)

lemma stopped_record: "stopped s \<Longrightarrow> stopped (recordBlock c b s)"
  by (auto simp: stopped_def recordBlock_def count_tool_call_def Let_def split: option.splits)

lemma stopped_ping: "stopped s \<Longrightarrow> stopped (sendTypingPing c now s)"
  by (auto simp: stopped_def sendTypingPing_def Let_def split: option.splits)

lemma stopped_step: "stopped s \<Longrightarrow> stopped (turn_event_step c e s)"
proof (cases e)
  case (EvBlock b)
  assume s: "stopped s"
  then have "ss_aborted (recordBlock c b s) \<noteq> None" using record_aborted[of s c b] by (simp add: stopped_def)
  then show ?thesis using s EvBlock stopped_record by (auto simp: onBlock_def Let_def)
next
  case (EvTypingTick now)
  assume "stopped s"
  then show ?thesis using EvTypingTick stopped_ping by simp
qed (auto simp: onStatus_def stopped_def abort_with_def)

lemma stopped_events: "stopped s \<Longrightarrow> stopped (turn_events c es s)"
  by (induction es arbitrary: s) (auto simp: turn_events_def stopped_step)

lemma stopped_await: "stopped (ts_stream st) \<Longrightarrow> stopped (ts_stream (at_await a env p st))"
  by (simp add: at_await_def stopped_events)

lemma stopped_flags: "stopped (ts_stream st) \<Longrightarrow> is_aborted st \<and> \<not> timed_out st \<and> \<not> over_budget st"
  by (simp add: stopped_def is_aborted_def timed_out_def over_budget_def)

text \<open>Effects that others see or that outlive the turn.\<close>

fun outward :: "turn_effect \<Rightarrow> bool" where
  "outward (FxSend _) = True"
| "outward (FxSessionSet _) = True"
| "outward (FxSessionDelete _) = True"
| "outward (FxTurnError _ _) = True"
| "outward (FxOutbound _ _) = True"
| "outward FxCommit = True"
| "outward (FxAuthFailure _) = True"
| "outward FxAuthClear = True"
| "outward (FxRuntime _) = True"
| "outward _ = False"

lemma sendReplyingStatus_outward [simp]: "filter outward (ts_fx (sendReplyingStatus a env b st)) = filter outward (ts_fx st)"
  by (simp add: sendReplyingStatus_def)

lemma teardown_outward: "filter outward (ts_fx (teardown a env r t st)) = filter outward (ts_fx st)"
  by (simp add: teardown_def Let_def split_beta)

lemma settle_stopped: "stopped (ts_stream st) \<Longrightarrow> filter outward (ts_fx (settle a env r t st)) = filter outward (ts_fx st)"
proof -
  assume s: "stopped (ts_stream st)"
  let ?st = "if dc_onTurnComplete (ta_cfg a) then at_await a env AwTurnComplete (emit FxTurnComplete st) else st"
  have "stopped (ts_stream ?st)" using s stopped_await[of "emit FxTurnComplete st" a env] by simp
  then have "is_aborted ?st \<and> \<not> timed_out ?st \<and> \<not> over_budget ?st" by (rule stopped_flags)
  then have "settle a env r t st = ?st" unfolding settle_def Let_def by (simp only: if_True simp_thms)
  then show ?thesis by simp
qed


section \<open>What every effect satisfies\<close>

text \<open>The session a turn may resume: the stored one, when it is not due for rotation.\<close>

definition may_resume :: "turn_args \<Rightarrow> string option \<Rightarrow> bool" where
  "may_resume a session \<longleftrightarrow> (truthy_str session \<longrightarrow>
     session = map_option se_runtimeSessionId (ta_entry a) \<and> rotationDecision (ta_cfg a) (ta_entry a) = None)"

definition may_say :: "turn_args \<Rightarrow> outbound \<Rightarrow> bool" where
  "may_say a ob \<longleftrightarrow> ob_error ob \<or> canDeliverRuntimeText a \<or>
     (\<exists>t. t \<noteq> [] \<and> ob_response ob = Some (ta_turnId a, Some t) \<and> set t \<subseteq> set (tp_responseIds (ta_plan a)))"

text \<open>The turn counter a turn may store: one on a new session, the next number on the session it resumed.\<close>

definition turn_count :: "session_entry \<Rightarrow> int" where
  "turn_count e = (case se_turnCount e of Some n \<Rightarrow> n | None \<Rightarrow> 0)"

definition count_ok :: "turn_args \<Rightarrow> session_entry \<Rightarrow> bool" where
  "count_ok a e \<longleftrightarrow> se_turnCount e = Some 1 \<or>
     (\<exists>e0. ta_entry a = Some e0 \<and> rotationDecision (ta_cfg a) (Some e0) = None \<and> se_turnCount e = Some (turn_count e0 + 1))"

fun fx_ok :: "turn_args \<Rightarrow> turn_effect \<Rightarrow> bool" where
  "fx_ok a (FxRuntime rq) \<longleftrightarrow> \<not> refused a \<and> rq_cwd rq = tp_cwd (ta_plan a) \<and> rq_trustLevel rq = tp_trustLevel (ta_plan a) \<and>
     rq_profile rq = tp_profile (ta_plan a) \<and> may_resume a (rq_sessionId rq)"
| "fx_ok a (FxSend ob) \<longleftrightarrow> may_say a ob"
| "fx_ok a (FxSessionSet e) \<longleftrightarrow> se_key e = tp_key (ta_plan a) \<and> count_ok a e"
| "fx_ok a (FxSessionDelete k) \<longleftrightarrow> k = tp_key (ta_plan a)"
| "fx_ok a _ \<longleftrightarrow> True"

abbreviation fxs_ok :: "turn_args \<Rightarrow> turn_state \<Rightarrow> bool" where
  "fxs_ok a st \<equiv> list_all (fx_ok a) (ts_fx st)"

definition session_ok :: "turn_args \<Rightarrow> turn_state \<Rightarrow> bool" where
  "session_ok a st \<longleftrightarrow> (truthy_str (ts_activeSession st) \<longrightarrow> ts_activeSession st = map_option se_runtimeSessionId (ta_entry a))"

lemma status_ok [simp]:
  "fxs_ok a (sendReplyingStatus a env b st) = fxs_ok a st" "ts_activeSession (sendReplyingStatus a env b st) = ts_activeSession st"
  "ts_store (sendReplyingStatus a env b st) = ts_store st"
  by (simp_all add: sendReplyingStatus_def)

lemma begin_ok: "fxs_ok a st \<Longrightarrow> fxs_ok a (begin_turn a env st)"
  and begin_session [simp]: "ts_activeSession (begin_turn a env st) = ts_activeSession st"
  and begin_store [simp]: "ts_store (begin_turn a env st) = ts_store st"
  by (auto simp: begin_turn_def Let_def emit_record_def split: option.splits turn_execution.splits)

lemma memory_ok [simp]: "ts_fx (memory_notice a env st) = ts_fx st" "ts_activeSession (memory_notice a env st) = ts_activeSession st"
  "ts_store (memory_notice a env st) = ts_store st"
  by (auto simp: memory_notice_def Let_def split: option.splits)

lemma register_ok: "fxs_ok a st \<Longrightarrow> fxs_ok a (snd (register_response a env st))"
  and register_session [simp]: "ts_activeSession (snd (register_response a env st)) = ts_activeSession st"
  and register_store [simp]: "ts_store (snd (register_response a env st)) = ts_store st"
  by (auto simp: register_response_def Let_def)

lemma delete_ok [simp]: "fxs_ok a (delete_session a st) = fxs_ok a st" "ts_activeSession (delete_session a st) = ts_activeSession st"
  "ts_stream (delete_session a st) = ts_stream st" "ts_registered (delete_session a st) = ts_registered st"
  "ts_replyText (delete_session a st) = ts_replyText st" "ts_canDeliver (delete_session a st) = ts_canDeliver st"
  "ts_targets (delete_session a st) = ts_targets st"
  by (simp_all add: delete_session_def)

lemma rotate_ok: "fxs_ok a st \<Longrightarrow> fxs_ok a (rotate_session a env st)"
  by (auto simp: rotate_session_def Let_def split: option.splits)

lemma rotate_session_ok: "session_ok a st \<Longrightarrow> may_resume a (ts_activeSession (rotate_session a env st))"
  by (auto simp: rotate_session_def session_ok_def may_resume_def truthy_str_def Let_def split: option.splits)

lemma runRuntime_ok:
  "fxs_ok a st \<Longrightarrow> may_resume a session \<Longrightarrow> fxs_ok a (snd (runRuntime a env p oc txt session st))"
  by (auto simp: runRuntime_def run_request_of_def refused_def split: turn_execution.splits)

lemma runRuntime_session [simp]:
  "ts_activeSession (snd (runRuntime a env p oc txt session st)) = ts_activeSession st"
  "ts_store (snd (runRuntime a env p oc txt session st)) = ts_store st"
  by (auto simp: runRuntime_def split: turn_execution.splits)

lemma may_resume_None [simp]: "may_resume a None"
  by (simp add: may_resume_def truthy_str_def)

lemma retry_ok: "fxs_ok a st \<Longrightarrow> may_resume a (ts_activeSession st) \<Longrightarrow> fxs_ok a (snd (retry_runtime a env r st))"
  by (auto simp: retry_runtime_def Let_def intro!: runRuntime_ok)

lemma retry_session: "may_resume a (ts_activeSession st) \<Longrightarrow> may_resume a (ts_activeSession (snd (retry_runtime a env r st)))"
  by (auto simp: retry_runtime_def Let_def)

lemma run_phase_session: "session_ok a st \<Longrightarrow> may_resume a (ts_activeSession (snd (snd (run_phase a env st)))) \<or> fst (register_response a env st)"
proof -
  assume "session_ok a st"
  then have "may_resume a (ts_activeSession (rotate_session a env (snd (register_response a env st))))"
    using rotate_session_ok[of a "snd (register_response a env st)" env] by (simp add: session_ok_def)
  then show ?thesis using retry_session by (auto simp: run_phase_def Let_def split_beta split: run_outcome.splits)
qed

lemma run_phase_result: "fst (register_response a env st) \<Longrightarrow> fst (run_phase a env st) = None"
  by (simp add: run_phase_def Let_def split_beta)

lemma run_phase_ok: "fxs_ok a st \<Longrightarrow> session_ok a st \<Longrightarrow> fxs_ok a (snd (snd (run_phase a env st)))"
proof -
  assume ok: "fxs_ok a st" "session_ok a st"
  let ?s1 = "snd (register_response a env st)" and ?s2 = "rotate_session a env (snd (register_response a env st))"
  have s1: "fxs_ok a ?s1" "session_ok a ?s1" using ok register_ok by (auto simp: session_ok_def)
  then have s2: "fxs_ok a ?s2" "may_resume a (ts_activeSession ?s2)" using rotate_ok rotate_session_ok by auto
  let ?r = "runRuntime a env AwRun (en_run env) (ts_runtimeText ?s2) (ts_activeSession ?s2) ?s2"
  have s3: "fxs_ok a (snd ?r)" "may_resume a (ts_activeSession (snd ?r))" using runRuntime_ok s2 by auto
  then have "fxs_ok a (snd (retry_runtime a env r (snd ?r)))" for r using retry_ok by blast
  then show ?thesis using s1 s3 by (auto simp: run_phase_def Let_def split_beta split: run_outcome.splits)
qed

definition say_ok :: "turn_args \<Rightarrow> turn_state \<Rightarrow> bool" where
  "say_ok a st \<longleftrightarrow> (ts_canDeliver st \<longrightarrow> canDeliverRuntimeText a \<or>
     (\<exists>t. t \<noteq> [] \<and> ts_targets st = Some t \<and> set t \<subseteq> set (tp_responseIds (ta_plan a)) \<and> ts_registered st))"

lemma say_ok_cong:
  "ts_canDeliver st' = ts_canDeliver st \<Longrightarrow> ts_targets st' = ts_targets st \<Longrightarrow> ts_registered st' = ts_registered st \<Longrightarrow>
   say_ok a st' = say_ok a st"
  by (simp add: say_ok_def)

lemma sendReply_ok: "fxs_ok a st \<Longrightarrow> may_say a ob \<Longrightarrow> fxs_ok a (sendReply a env p ob st)"
  by (simp add: sendReply_def)

lemma emitOutbound_ok [simp]: "fxs_ok a (emitOutbound a ds re st) = fxs_ok a st"
  by (simp add: emitOutbound_def emit_record_def)

lemma settle_interrupted_ok: "fxs_ok a st \<Longrightarrow> fxs_ok a (settle_interrupted a env st)"
  by (auto simp: settle_interrupted_def Let_def split_beta may_say_def intro!: sendReply_ok)

lemma settle_failure_ok: "fxs_ok a st \<Longrightarrow> fxs_ok a (settle_failure a env e r st)"
  by (auto simp: settle_failure_def Let_def may_say_def intro!: sendReply_ok)

lemma fail_response_frame [simp]:
  "ts_fx (fail_response re st) = ts_fx st" "ts_canDeliver (fail_response re st) = ts_canDeliver st"
  "ts_targets (fail_response re st) = ts_targets st" "ts_registered (fail_response re st) = ts_registered st"
  "ts_store (fail_response re st) = ts_store st" "ts_stream (fail_response re st) = ts_stream st"
  "ts_replyText (fail_response re st) = ts_replyText st" "ts_activeSession (fail_response re st) = ts_activeSession st"
  by (simp_all add: fail_response_def)

lemma parsed_targets:
  "parseResponseDecision parse t ids = Inr (Some d) \<Longrightarrow> set (rd_respondsTo d) \<subseteq> set ids"
  by (auto simp: parseResponseDecision_def dest!: decision_ids_ok split: if_splits option.splits sum.splits jsval.splits)

lemma decide_ok: "fxs_ok a st \<Longrightarrow> fxs_ok a (snd (decide_response a env st))"
  by (auto simp: decide_response_def Let_def split: sum.splits option.splits)

lemma decide_say: "ts_registered st \<Longrightarrow> ts_canDeliver st = canDeliverRuntimeText a \<Longrightarrow> say_ok a (snd (decide_response a env st))"
  by (auto simp: decide_response_def say_ok_def Let_def dest!: parsed_targets split: sum.splits option.splits)

lemma decide_frame [simp]: "ts_store (snd (decide_response a env st)) = ts_store st"
  by (auto simp: decide_response_def Let_def split: sum.splits option.splits)

lemma commit_ok: "fxs_ok a (commit_guest a env e st) = fxs_ok a st"
  and commit_say: "say_ok a (commit_guest a env e st) = say_ok a st"
  and commit_store [simp]: "ts_store (commit_guest a env e st) = ts_store st"
  by (auto simp: commit_guest_def say_ok_def Let_def split: option.splits)

lemma auth_ok: "fxs_ok a (record_auth a env e f st) = fxs_ok a st"
  and auth_say: "say_ok a (record_auth a env e f st) = say_ok a st"
  and auth_store [simp]: "ts_store (record_auth a env e f st) = ts_store st"
  by (auto simp: record_auth_def say_ok_def split: option.splits)

lemma next_entry_key [simp]: "se_key (next_entry a env r st) = tp_key (ta_plan a)"
  by (simp add: next_entry_def Let_def)

lemma next_entry_count: "may_resume a (ts_activeSession st) \<Longrightarrow> count_ok a (next_entry a env r st)"
  by (cases "ta_entry a") (auto simp: next_entry_def count_ok_def turn_count_def may_resume_def Let_def)

lemma persist_ok: "fxs_ok a st \<Longrightarrow> may_resume a (ts_activeSession st) \<Longrightarrow> fxs_ok a (persist_session a env r e f st)"
  and persist_say: "say_ok a (persist_session a env r e f st) = say_ok a st"
  by (auto simp: persist_session_def say_ok_def next_entry_count Let_def)

lemma decide_session [simp]: "ts_activeSession (snd (decide_response a env st)) = ts_activeSession st"
  by (auto simp: decide_response_def Let_def split: sum.splits option.splits)

lemma commit_session [simp]: "ts_activeSession (commit_guest a env e st) = ts_activeSession st"
  by (auto simp: commit_guest_def Let_def split: option.splits)

lemma auth_session [simp]: "ts_activeSession (record_auth a env e f st) = ts_activeSession st"
  by (auto simp: record_auth_def split: option.splits)

lemma deliver_ok: "fxs_ok a st \<Longrightarrow> say_ok a st \<Longrightarrow> ts_canDeliver st \<Longrightarrow> fxs_ok a (deliver_reply a env st)"
  by (auto simp: deliver_reply_def Let_def say_ok_def may_say_def reply_base_def sendReply_def)

lemma settle_reply_ok: "fxs_ok a st \<Longrightarrow> say_ok a st \<Longrightarrow> fxs_ok a (settle_reply a env r e st)"
  by (auto simp: settle_reply_def settle_failure_ok deliver_ok)

lemma settle_result_ok: "fxs_ok a st \<Longrightarrow> may_resume a (ts_activeSession st) \<Longrightarrow> fxs_ok a (settle_result a env r st)"
proof -
  assume ok: "fxs_ok a st" and may: "may_resume a (ts_activeSession st)"
  define st1 where "st1 = st\<lparr>ts_replyText := (if looksLikeRuntimeAuthFailure (trim (rr_text r)) then [] else trim (rr_text r)),
    ts_canDeliver := canDeliverRuntimeText a\<rparr>"
  define st2 where "st2 = (if looksLikeRuntimeAuthFailure (trim (rr_text r)) then fail_response ReRuntimeError st1 else st1)"
  define d where "d = (if ts_registered st2 \<and> \<not> truthy_str (rr_error r) \<and> \<not> looksLikeRuntimeAuthFailure (trim (rr_text r))
    then decide_response a env st2 else (False, st2))"
  have "fxs_ok a st2" "ts_canDeliver st2 = canDeliverRuntimeText a" using ok by (simp_all add: st2_def st1_def)
  then have d: "fxs_ok a (snd d)" "say_ok a (snd d)"
    using decide_ok[of a st2 env] decide_say[of st2 a env] by (auto simp: d_def say_ok_def)
  have may_d: "may_resume a (ts_activeSession (snd d))" using may by (simp add: d_def st2_def st1_def)
  have eq: "settle_result a env r st = (if fst d then snd d
     else let effectiveError = (case rr_error r of Some e \<Rightarrow> Some e | None \<Rightarrow> (if looksLikeRuntimeAuthFailure (trim (rr_text r)) then Some (trim (rr_text r)) else None));
               st4 = commit_guest a env effectiveError (snd d);
               authFailureError = (if truthy_str effectiveError \<and> looksLikeRuntimeAuthFailure (the effectiveError) then effectiveError else None);
               st5 = record_auth a env effectiveError authFailureError st4;
               st6 = persist_session a env r effectiveError authFailureError st5
           in settle_reply a env r effectiveError st6)"
    unfolding settle_result_def d_def st2_def st1_def Let_def by (simp only: split_beta)
  show ?thesis unfolding eq using d may_d by (auto simp: Let_def commit_ok commit_say auth_ok auth_say persist_say intro!: settle_reply_ok persist_ok)
qed

lemma settle_ok: "fxs_ok a st \<Longrightarrow> may_resume a (ts_activeSession st) \<or> res = None \<Longrightarrow> fxs_ok a (settle a env res t st)"
  by (auto simp: settle_def Let_def settle_interrupted_ok settle_failure_ok settle_result_ok split: option.splits)

lemma teardown_ok: "fxs_ok a st \<Longrightarrow> fxs_ok a (teardown a env r t st)"
  by (auto simp: teardown_def Let_def split_beta)

lemma init_ok [simp]: "fxs_ok a (init_turn a sh)" "session_ok a (init_turn a sh)"
  by (simp_all add: init_turn_def session_ok_def)

lemma runTurn_ok: "fxs_ok a (runTurn a env sh)"
proof -
  let ?st = "memory_notice a env (begin_turn a env (init_turn a sh))"
  have st: "fxs_ok a ?st" "session_ok a ?st" using begin_ok[of a "init_turn a sh" env] init_ok[of a sh] by (simp_all add: session_ok_def)
  then have "fxs_ok a (snd (snd (run_phase a env ?st)))" by (rule run_phase_ok)
  moreover have "may_resume a (ts_activeSession (snd (snd (run_phase a env ?st)))) \<or> fst (run_phase a env ?st) = None"
    using run_phase_session[OF st(2), of env] run_phase_result[of a env ?st] by argo
  ultimately show ?thesis using st by (auto simp: runTurn_def Let_def split_beta intro!: settle_ok teardown_ok)
qed

section \<open>The session store after a turn\<close>

text \<open>The store changes by the recorded operations only.\<close>

fun fx_op :: "turn_env \<Rightarrow> turn_effect \<Rightarrow> store_op option" where
  "fx_op env (FxSessionSet e) = Some (SetOp (of_int (en_now env)) e)"
| "fx_op env (FxSessionDelete k) = Some (DeleteOp k)"
| "fx_op env _ = None"

definition store_ops :: "turn_env \<Rightarrow> turn_effect list \<Rightarrow> store_op list" where
  "store_ops env fxs = List.map_filter (fx_op env) fxs"

lemma store_ops_simps [simp]:
  "store_ops env [] = []" "store_ops env (xs @ ys) = store_ops env xs @ store_ops env ys"
  "store_ops env (x # xs) = (case fx_op env x of Some op \<Rightarrow> op # store_ops env xs | None \<Rightarrow> store_ops env xs)"
  by (induction xs) (auto simp: store_ops_def map_filter_simps split: option.splits)

definition sync :: "turn_env \<Rightarrow> session_store \<Rightarrow> turn_state \<Rightarrow> bool" where
  "sync env s0 st \<longleftrightarrow> ts_store st = fold run_store_op (store_ops env (ts_fx st)) s0"

lemma sync_await [simp]: "sync env s0 (at_await a env' p st) = sync env s0 st"
  by (simp add: sync_def)

lemma sync_emit [simp]: "fx_op env fx = None \<Longrightarrow> sync env s0 (emit fx st) = sync env s0 st"
  by (simp add: sync_def)

lemma sync_record [simp]: "fx_op env fx = None \<Longrightarrow> sync env s0 (emit_record a fx st) = sync env s0 st"
  by (simp add: emit_record_def)

lemma sync_report [simp]: "sync env s0 (report a env' p act ids oc re st) = sync env s0 st"
  by (simp add: report_def)

lemma sync_fields [simp]:
  "sync env s0 (st\<lparr>ts_stream := x1\<rparr>) = sync env s0 st" "sync env s0 (st\<lparr>ts_files := x2\<rparr>) = sync env s0 st"
  "sync env s0 (st\<lparr>ts_statusStarted := x3\<rparr>) = sync env s0 st" "sync env s0 (st\<lparr>ts_runtimeText := x4\<rparr>) = sync env s0 st"
  "sync env s0 (st\<lparr>ts_activeSession := x5\<rparr>) = sync env s0 st" "sync env s0 (st\<lparr>ts_memoryVersion := x6\<rparr>) = sync env s0 st"
  "sync env s0 (st\<lparr>ts_registered := x7\<rparr>) = sync env s0 st" "sync env s0 (st\<lparr>ts_targets := x8\<rparr>) = sync env s0 st"
  "sync env s0 (st\<lparr>ts_replyText := x9\<rparr>) = sync env s0 st" "sync env s0 (st\<lparr>ts_canDeliver := x10\<rparr>) = sync env s0 st"
  "sync env s0 (st\<lparr>ts_auth := x11\<rparr>) = sync env s0 st" "sync env s0 (st\<lparr>ts_park := x12\<rparr>) = sync env s0 st"
  "sync env s0 (fail_response re st) = sync env s0 st"
  by (simp_all add: sync_def)

lemma sync_delete [simp]: "sync env s0 st \<Longrightarrow> sync env s0 (delete_session a st)"
  by (simp add: sync_def delete_session_def)

lemma sync_status [simp]: "sync env s0 (sendReplyingStatus a env' b st) = sync env s0 st"
  by (simp add: sendReplyingStatus_def)

lemma sync_begin: "sync env s0 st \<Longrightarrow> sync env s0 (memory_notice a env (begin_turn a env st))"
  by (auto simp: memory_notice_def begin_turn_def Let_def split: option.splits turn_execution.splits)

lemma sync_register: "sync env s0 st \<Longrightarrow> sync env s0 (snd (register_response a env st))"
  by (auto simp: register_response_def Let_def)

lemma sync_rotate: "sync env s0 st \<Longrightarrow> sync env s0 (rotate_session a env st)"
  by (auto simp: rotate_session_def Let_def split: option.splits)

lemma sync_run: "sync env s0 st \<Longrightarrow> sync env s0 (snd (runRuntime a env p oc txt session st))"
  by (auto simp: runRuntime_def split: turn_execution.splits)

lemma sync_retry: "sync env s0 st \<Longrightarrow> sync env s0 (snd (retry_runtime a env r st))"
  by (auto simp: retry_runtime_def Let_def intro!: sync_run)

lemma sync_phase: "sync env s0 st \<Longrightarrow> sync env s0 (snd (snd (run_phase a env st)))"
proof -
  assume "sync env s0 st"
  then have s2: "sync env s0 (snd (register_response a env st))" "sync env s0 (rotate_session a env (snd (register_response a env st)))"
    using sync_register sync_rotate by auto
  then have "sync env s0 (snd (retry_runtime a env r (snd (runRuntime a env p oc u v (rotate_session a env (snd (register_response a env st)))))))"
    and "sync env s0 (snd (runRuntime a env p oc u v (rotate_session a env (snd (register_response a env st)))))" for r p oc u v
    using sync_run sync_retry by blast+
  then show ?thesis using s2 by (auto simp: run_phase_def Let_def split_beta split: run_outcome.splits)
qed

lemma sync_set:
  "sync env s0 st \<Longrightarrow> sync env s0 (emit (FxSessionSet e) (st\<lparr>ts_store := set_entry (of_int (en_now env)) e (ts_store st)\<rparr>))"
  by (simp add: sync_def)

lemma sync_persist: "sync env s0 st \<Longrightarrow> sync env s0 (persist_session a env r e f st)"
  by (auto simp: persist_session_def Let_def sync_set)

lemma sync_reply: "sync env s0 st \<Longrightarrow> sync env s0 (settle_reply a env r e st)"
  by (auto simp: settle_reply_def deliver_reply_def settle_failure_def sendReply_def emitOutbound_def Let_def)

lemma sync_decide: "sync env s0 st \<Longrightarrow> sync env s0 (snd (decide_response a env st))"
  by (auto simp: decide_response_def Let_def split: sum.splits option.splits)

lemma sync_commit [simp]: "sync env s0 (commit_guest a env e st) = sync env s0 st"
  by (auto simp: commit_guest_def Let_def split: option.splits)

lemma sync_auth [simp]: "sync env s0 (record_auth a env e f st) = sync env s0 st"
  by (auto simp: record_auth_def split: option.splits)

lemma sync_result: "sync env s0 st \<Longrightarrow> sync env s0 (settle_result a env r st)"
  unfolding settle_result_def Let_def split_beta
  by (auto intro!: sync_reply sync_persist sync_decide)

lemma sync_settle: "sync env s0 st \<Longrightarrow> sync env s0 (settle a env res t st)"
  by (auto simp: settle_def settle_interrupted_def settle_failure_def sendReply_def Let_def split_beta sync_result split: option.splits)

lemma sync_teardown: "sync env s0 st \<Longrightarrow> sync env s0 (teardown a env r t st)"
  by (auto simp: teardown_def Let_def split_beta)

lemma runTurn_sync: "sync env (sh_store sh) (runTurn a env sh)"
proof -
  have "sync env (sh_store sh) (init_turn a sh)" by (simp add: sync_def init_turn_def)
  then show ?thesis
    using sync_begin sync_phase by (auto simp: runTurn_def Let_def split_beta intro!: sync_teardown sync_settle)
qed

text \<open>A turn touches its own session only: under every other key the store answers as before.\<close>

theorem turn_touches_own_session:
  assumes "store_inv (sh_store sh)" and "k \<noteq> tp_key (ta_plan a)"
  shows "get (ts_store (runTurn a env sh)) k = get (sh_store sh) k"
proof -
  let ?ops = "store_ops env (ts_fx (runTurn a env sh))"
  have "\<forall>op \<in> set (map store_kv ?ops). (case op of Ins k' _ \<Rightarrow> k' | Del k' \<Rightarrow> k') = tp_key (ta_plan a)"
    using runTurn_ok[of a env sh] by (auto simp: store_ops_def set_map_filter list_all_iff elim!: fx_op.elims)
  then have "\<forall>op \<in> set (map store_kv ?ops). (case op of Ins k' _ \<Rightarrow> k' | Del k' \<Rightarrow> k') \<noteq> k" using assms(2) by metis
  from sessions.lookup_untouched[OF assms(1) this]
  have "get (fold run_store_op ?ops (sh_store sh)) k = get (sh_store sh) k" by (simp add: fold_map comp_def flip: run_store_op_kv)
  then show ?thesis using runTurn_sync[of env sh a] by (simp add: sync_def)
qed

section \<open>A concrete turn\<close>

text \<open>An owner chat served by codex on a plain BotCord channel.\<close>

definition example_cfg :: dispatcher_config where
  "example_cfg = \<lparr>dc_turnTimeoutMs = 1800000, dc_authFailureThreshold = 3, dc_authFailureCooldownMs = 600000,
     dc_maxResumeInputTokens = 160000, dc_maxResumeTurns = 25, dc_transcript = True, dc_verbose = False, dc_onTurnComplete = False\<rparr>"

definition example_route :: gateway_route where
  "example_route = \<lparr>r_match = None, r_runtime = ''codex'', r_cwd = ''/w'', r_extraArgs = None, r_queueMode = None, r_trustLevel = None,
     r_nonOwnerExecution = None, r_gateway = JUndef, r_hermesProfile = None\<rparr>"

definition owner_msg :: inbound_message where
  "owner_msg = example_msg\<lparr>m_conversation := \<lparr>c_id = ''rm_oc_1'', c_kind = Direct, c_title = None, c_threadId = None\<rparr>\<rparr>"

definition plain_channel :: channel_adapter where
  "plain_channel = \<lparr>ch_id = ''botcord'', ch_type = ''botcord'', ch_responseRun = False, ch_streamBlock = False, ch_streamEnd = False,
     ch_typing = False, ch_messageStatus = False\<rparr>"

definition example_result :: run_result where
  "example_result = \<lparr>rr_text = ''done'', rr_newSessionId = ''s1'', rr_error = None, rr_failure = no_report,
     rr_inputCacheHitTokens = None, rr_inputCacheMissTokens = None\<rparr>"

definition example_env :: turn_env where
  "example_env = \<lparr>en_events = (\<lambda>_. []), en_now = 1000, en_elapsed = 5, en_guest = None, en_systemContext = None, en_memoryVersion = None,
     en_reportOk = (\<lambda>_. True), en_reportThrown = OtherThrown [], en_recovery = None, en_run = RunReturned example_result,
     en_retry = RunReturned example_result, en_commit = None, en_sendError = None, en_attachments = (\<lambda>_. []), en_streamEndOk = True,
     en_errorRef = (\<lambda>_. ''err_1''), en_parse = (\<lambda>_. None)\<rparr>"

definition example_shared :: shared_state where
  "example_shared = \<lparr>sh_store = new_store NaN None, sh_auth = Map.empty, sh_files = Map.empty, sh_park = empty_park, sh_pings = []\<rparr>"

definition example_turn :: "gateway_route \<Rightarrow> inbound_message \<Rightarrow> turn_args" where
  "example_turn route msg = make_args example_cfg ''q'' route ''go'' msg plain_channel ''t1'' [] example_env example_shared"

end
