(* ===== verification/Turn_Props.thy ===== *)
theory Turn_Props
  imports Turn_Safety
begin

text \<open>
  The properties of whole turns over the frames of \<open>Turn_Safety\<close>, their concrete instances, and what the
  model shows of the turn's flaws.
\<close>

section \<open>Evaluating concrete turns\<close>

lemma done_not_auth [simp]: "looksLikeRuntimeAuthFailure ''done'' = False"
  by code_simp

lemma trim_done [simp]: "trim ''done'' = ''done''"
  by code_simp

lemma example_no_budget [simp]: "extractCloudRunBudget owner_msg = None"
  by (simp add: extractCloudRunBudget_def owner_msg_def example_msg_def get_prop_def)

lemma example_execution [simp]: "resolveTurnExecution owner_msg example_route True = ExDefault"
  by (simp add: resolveTurnExecution_def owner_msg_def example_msg_def hubDecisions_def inboundEntries_def get_prop_def
      readHubDecision_def isOwnerTrustedInbound_def OWNER_CHAT_PREFIX_def startsWith_def)

lemma example_rooms [simp]: "isBotCordChannel plain_channel" "isOwnerChatRoom owner_msg" "\<not> isTeamConversation owner_msg"
  by (simp_all add: isBotCordChannel_def plain_channel_def isOwnerChatRoom_def owner_msg_def startsWith_def isTeamConversation_def
      example_msg_def response_entries_def team_entry_def get_prop_def)

lemma owner_msg_values:
  "m_accountId owner_msg = ''ag_1''" "m_channel owner_msg = ''botcord''" "c_kind (m_conversation owner_msg) = Direct"
  "c_id (m_conversation owner_msg) = ''rm_oc_1''" "c_threadId (m_conversation owner_msg) = None" "pickReplyToTarget owner_msg = ''h_1''"
  by (simp_all add: owner_msg_def example_msg_def pickReplyToTarget_def get_prop_def)

definition example_plan :: turn_plan where
  "example_plan =
     \<lparr>tp_waitMarkerFile = None, tp_budget = None, tp_timeoutMs = 1800000, tp_execution = ExDefault, tp_restricted = False,
      tp_teamDelivery = False, tp_grant = None, tp_guestDir = None, tp_cwd = ''/w'', tp_profile = None,
      tp_key = ''codex:botcord:ag_1:direct:rm_oc_1'', tp_trustLevel = Trusted, tp_responseIds = [],
      tp_ctx = \<lparr>sc_canType = False, sc_canStream = False, sc_transcript = True, sc_verbose = False, sc_maxToolCalls = None,
        sc_multi = False, sc_pingKey = ''ag_1:rm_oc_1''\<rparr>, tp_statusTarget = None\<rparr>"

lemma example_plan: "plan_turn example_cfg ''q'' example_route owner_msg plain_channel g = example_plan"
  unfolding example_plan_def
  by (simp add: plan_turn_def Let_def) (simp add: example_cfg_def example_route_def owner_msg_def example_msg_def plain_channel_def
      execution_grant_def turn_key_input_def sessionKey_def session_base_def)

lemma example_args_fields:
  "ta_plan (example_turn example_route owner_msg) = example_plan" "ta_cfg (example_turn example_route owner_msg) = example_cfg"
  "ta_route (example_turn example_route owner_msg) = example_route" "ta_msg (example_turn example_route owner_msg) = owner_msg"
  "ta_channel (example_turn example_route owner_msg) = plain_channel" "ta_text (example_turn example_route owner_msg) = ''go''"
  "ta_turnId (example_turn example_route owner_msg) = ''t1''" "ta_merged (example_turn example_route owner_msg) = []"
  "ta_entry (example_turn example_route owner_msg) = None"
  by (simp_all add: example_turn_def make_args_def example_plan Let_def example_shared_def new_store_def get_def)

text \<open>A turn nobody interrupts: awaits change nothing.\<close>

lemma at_await_quiet [simp]: "en_events env p = [] \<Longrightarrow> at_await a env p st = st"
  by (simp add: at_await_def turn_events_def)

lemma flags_emit [simp]:
  "is_aborted (emit fx st) = is_aborted st" "timed_out (emit fx st) = timed_out st" "over_budget (emit fx st) = over_budget st"
  by (simp_all add: is_aborted_def timed_out_def over_budget_def)

definition turn_a :: turn_args where
  "turn_a = example_turn example_route owner_msg"

lemma turn_a_fields [simp]:
  "ta_plan turn_a = example_plan" "ta_cfg turn_a = example_cfg" "ta_route turn_a = example_route" "ta_msg turn_a = owner_msg"
  "ta_channel turn_a = plain_channel" "ta_text turn_a = ''go''" "ta_turnId turn_a = ''t1''" "ta_merged turn_a = []" "ta_entry turn_a = None"
  by (simp_all add: turn_a_def example_args_fields)

lemma plan_values [simp]:
  "tp_waitMarkerFile example_plan = None" "tp_execution example_plan = ExDefault" "\<not> tp_restricted example_plan"
  "\<not> tp_teamDelivery example_plan" "tp_grant example_plan = None" "tp_guestDir example_plan = None" "tp_statusTarget example_plan = None"
  "tp_key example_plan = ''codex:botcord:ag_1:direct:rm_oc_1''" "tp_responseIds example_plan = []" "tp_profile example_plan = None"
  "tp_cwd example_plan = ''/w''" "tp_trustLevel example_plan = Trusted" "\<not> sc_canStream (tp_ctx example_plan)"
  "\<not> sc_canType (tp_ctx example_plan)" "dc_transcript example_cfg" "\<not> dc_onTurnComplete example_cfg" "r_runtime example_route = ''codex''"
  "r_cwd example_route = ''/w''"
  by (simp_all add: example_plan_def example_cfg_def example_route_def)

lemma begin_turn_a:
  assumes "\<And>p. p \<noteq> AwRun \<Longrightarrow> en_events env p = []" and "en_memoryVersion env = None"
  shows "memory_notice turn_a env (begin_turn turn_a env (init_turn turn_a sh)) = emit (FxDispatched ''t1'' ''go'' []) (init_turn turn_a sh)"
  using assms by (simp add: memory_notice_def begin_turn_def sendReplyingStatus_def fireTypingIfNeeded_def emit_record_def Let_def)

definition go_request :: run_request where
  "go_request = \<lparr>rq_text = ''go'', rq_sessionId = None, rq_cwd = ''/w'', rq_trustLevel = Trusted, rq_profile = None,
     rq_allowedCommands = None, rq_systemContext = None\<rparr>"

definition timer_off :: "turn_state \<Rightarrow> turn_state" where
  "timer_off st = st\<lparr>ts_stream := (ts_stream st)\<lparr>ss_timerActive := False\<rparr>\<rparr>"

lemma init_a_values [simp]:
  "ts_runtimeText (init_turn turn_a sh) = ''go''" "ts_activeSession (init_turn turn_a sh) = None" "ts_fx (init_turn turn_a sh) = []"
  "ts_registered (init_turn turn_a sh) = False" "ts_targets (init_turn turn_a sh) = None" "ts_memoryVersion (init_turn turn_a sh) = None"
  by (simp_all add: init_turn_def)

lemma run_phase_a:
  assumes "en_systemContext env = None" and "en_run env = RunReturned r" and "rr_error r = None"
  shows "run_phase turn_a env (emit (FxDispatched ''t1'' ''go'' []) (init_turn turn_a sh)) =
    (Some r, None, timer_off (at_await turn_a env AwRun (emit (FxRuntime go_request) (emit (FxDispatched ''t1'' ''go'' []) (init_turn turn_a sh)))))"
  using assms by (simp add: run_phase_def register_response_def rotate_session_def truthy_str_def runRuntime_def retry_runtime_def
      shouldRetryFresh_def shouldRetryTransient_def run_request_of_def go_request_def timer_off_def Let_def)


definition superseding_env :: turn_env where
  "superseding_env = example_env\<lparr>en_events := (\<lambda>p. if p = AwRun then [EvSupersede ''t2''] else [])\<rparr>"


text \<open>C14: The runtime's text is gated: whatever happens during a turn, a message that is not an error report goes
  out on the BotCord channel only to an owner chat, a restricted or a team conversation, or as the answer
  to inputs of this very response run.\<close>

theorem runtime_text_gated:
  "list_all (\<lambda>fx. case fx of
       FxSend ob \<Rightarrow> (if isBotCordChannel (ta_channel a)
         then ob_error ob \<or> isOwnerChatRoom (ta_msg a) \<or> restrictedDelivery a \<or> tp_teamDelivery (ta_plan a) \<or>
           (\<exists>t. t \<noteq> [] \<and> ob_response ob = Some (ta_turnId a, Some t) \<and> set t \<subseteq> set (tp_responseIds (ta_plan a)))
         else True)
     | _ \<Rightarrow> True) (ts_fx (runTurn a env sh))"
proof -
  have "fx_ok a fx \<Longrightarrow> (case fx of
       FxSend ob \<Rightarrow> (if isBotCordChannel (ta_channel a)
         then ob_error ob \<or> isOwnerChatRoom (ta_msg a) \<or> restrictedDelivery a \<or> tp_teamDelivery (ta_plan a) \<or>
           (\<exists>t. t \<noteq> [] \<and> ob_response ob = Some (ta_turnId a, Some t) \<and> set t \<subseteq> set (tp_responseIds (ta_plan a)))
         else True)
     | _ \<Rightarrow> True)" for fx
    by (auto simp: may_say_def canDeliverRuntimeText_def split: turn_effect.split)
  then show ?thesis using runTurn_ok[of a env sh] by (auto simp: list_all_iff)
qed

text \<open>C3: Guests are confined: every run a turn starts has the trust level, profile and working directory of
  its execution. A refused turn starts none, a restricted one runs read-only in the agent's directory, a
  collaborator runs in the guest workspace, or read-only when there is none.\<close>

theorem guest_runs_confined:
  "list_all (\<lambda>fx. case fx of
       FxRuntime rq \<Rightarrow>
         (case resolveTurnExecution msg route (isBotCordChannel channel) of
            ExDefault \<Rightarrow> rq_profile rq = None \<and> rq_cwd rq = r_cwd route
          | ExRestricted g \<Rightarrow> rq_trustLevel rq = Public \<and> rq_profile rq = Some ProfRestricted \<and> rq_cwd rq = r_cwd route
          | ExCollaborator g \<Rightarrow> rq_trustLevel rq = Public \<and>
              (case en_guest env of
                 Some d \<Rightarrow> rq_profile rq = Some ProfCollaborator \<and> rq_cwd rq = d
               | None \<Rightarrow> rq_profile rq = Some ProfRestricted \<and> rq_cwd rq = r_cwd route)
          | ExRefused _ _ \<Rightarrow> False)
     | _ \<Rightarrow> True) (ts_fx (runTurn (make_args cfg queueKey route txt msg channel turnId merged env sh) env sh))"
proof -
  let ?a = "make_args cfg queueKey route txt msg channel turnId merged env sh"
  have plan: "ta_plan ?a = plan_turn cfg queueKey route msg channel (en_guest env)" by (simp add: make_args_def Let_def)
  have "fx_ok ?a fx \<Longrightarrow> (case fx of
       FxRuntime rq \<Rightarrow>
         (case resolveTurnExecution msg route (isBotCordChannel channel) of
            ExDefault \<Rightarrow> rq_profile rq = None \<and> rq_cwd rq = r_cwd route
          | ExRestricted g \<Rightarrow> rq_trustLevel rq = Public \<and> rq_profile rq = Some ProfRestricted \<and> rq_cwd rq = r_cwd route
          | ExCollaborator g \<Rightarrow> rq_trustLevel rq = Public \<and>
              (case en_guest env of
                 Some d \<Rightarrow> rq_profile rq = Some ProfCollaborator \<and> rq_cwd rq = d
               | None \<Rightarrow> rq_profile rq = Some ProfRestricted \<and> rq_cwd rq = r_cwd route)
          | ExRefused _ _ \<Rightarrow> False)
     | _ \<Rightarrow> True)" for fx
    by (cases fx) (auto simp: plan refused_def plan_turn_def Let_def split: turn_execution.splits option.splits)
  then show ?thesis using runTurn_ok[of ?a env sh] by (auto simp: list_all_iff)
qed

text \<open>C4: A guest's turn leaves the owner's sessions alone: with identifiers free of the scope separator, a turn
  whose execution is not the default one changes no session stored without a scope.\<close>

theorem guest_turn_keeps_owner_sessions:
  assumes "store_inv (sh_store sh)" and "resolveTurnExecution msg route (isBotCordChannel channel) \<noteq> ExDefault"
    and "hash_free (turn_key_input route msg (resolveTurnExecution msg route (isBotCordChannel channel)))"
    and "hash_free i" and "sk_executionScope i = None"
  shows "get (ts_store (runTurn (make_args cfg queueKey route txt msg channel turnId merged env sh) env sh)) (sessionKey i) =
    get (sh_store sh) (sessionKey i)"
proof -
  let ?a = "make_args cfg queueKey route txt msg channel turnId merged env sh"
  let ?ki = "turn_key_input route msg (resolveTurnExecution msg route (isBotCordChannel channel))"
  obtain sc where sc: "sk_executionScope ?ki = Some sc" "sc \<noteq> []"
    using assms(2) by (cases "execution_grant (resolveTurnExecution msg route (isBotCordChannel channel))") (auto simp: turn_key_input_def)
  have "tp_key (ta_plan ?a) = sessionKey ?ki" by (simp add: make_args_def plan_turn_def Let_def)
  moreover have "sessionKey ?ki \<noteq> sessionKey i" using scoped_keys_disjoint[OF assms(3,4) _ sc] assms(5) by auto
  ultimately show ?thesis using turn_touches_own_session[OF assms(1)] by metis
qed

definition guest_route :: gateway_route where
  "guest_route = example_route\<lparr>r_nonOwnerExecution := Some NonOwnerRestricted\<rparr>"

lemma guest_execution: "resolveTurnExecution example_msg guest_route True = ExRestricted None"
  by (simp add: resolveTurnExecution_def example_msg_def guest_route_def example_route_def hubDecisions_def inboundEntries_def get_prop_def
      readHubDecision_def isOwnerTrustedInbound_def OWNER_CHAT_PREFIX_def startsWith_def entryOwnerTrusted_def readAccessContext_def
      isRestrictedTurn_def wantsRestriction_def RESTRICTION_CAPABLE_RUNTIMES_def team_restricted_entry_def map_filter_simps)

theorem guest_turn_keeps_owner_sessions_witness:
  "get (ts_store (runTurn (make_args example_cfg ''q'' guest_route ''go'' example_msg plain_channel ''t1'' [] example_env example_shared)
     example_env example_shared)) (sessionKey example_key) = None"
proof -
  have "get (ts_store (runTurn (make_args example_cfg ''q'' guest_route ''go'' example_msg plain_channel ''t1'' [] example_env example_shared)
     example_env example_shared)) (sessionKey example_key) = get (sh_store example_shared) (sessionKey example_key)"
    by (rule guest_turn_keeps_owner_sessions)
      (simp_all add: guest_execution, simp_all add: example_shared_def new_store_def store_inv_def hash_free_def turn_key_input_def
        execution_grant_def guest_route_def example_route_def example_msg_def example_key_def)
  then show ?thesis by (simp add: example_shared_def new_store_def get_def)
qed

section \<open>Rotation of sessions\<close>

text \<open>A stored session below both thresholds; a threshold of zero is off.\<close>

definition resumable :: "dispatcher_config \<Rightarrow> session_entry \<Rightarrow> bool" where
  "resumable cfg e \<longleftrightarrow>
     \<not> (dc_maxResumeInputTokens cfg > 0 \<and> (\<exists>t. se_lastInputTokens e = Some t \<and> t \<ge> dc_maxResumeInputTokens cfg)) \<and>
     \<not> (dc_maxResumeTurns cfg > 0 \<and> (\<exists>n. se_turnCount e = Some n \<and> n \<ge> dc_maxResumeTurns cfg))"

lemma rotation_iff: "rotationDecision cfg (Some e) = None \<longleftrightarrow> resumable cfg e"
  by (auto simp: rotationDecision_def resumable_def split: option.splits)

text \<open>A turn resumes only the stored session of its own key, and only while that session is below the token
  and turn thresholds; every other run starts fresh.\<close>

theorem resumed_session_below_thresholds:
  "list_all (\<lambda>fx. case fx of
       FxRuntime rq \<Rightarrow>
         (case rq_sessionId rq of
            None \<Rightarrow> True
          | Some s \<Rightarrow> s = [] \<or> (\<exists>e. ta_entry a = Some e \<and> se_runtimeSessionId e = s \<and> resumable (ta_cfg a) e))
     | _ \<Rightarrow> True) (ts_fx (runTurn a env sh))"
proof -
  have "fx_ok a fx \<Longrightarrow> (case fx of
       FxRuntime rq \<Rightarrow>
         (case rq_sessionId rq of
            None \<Rightarrow> True
          | Some s \<Rightarrow> s = [] \<or> (\<exists>e. ta_entry a = Some e \<and> se_runtimeSessionId e = s \<and> resumable (ta_cfg a) e))
     | _ \<Rightarrow> True)" for fx
    by (cases fx; cases "ta_entry a") (auto simp: may_resume_def truthy_str_def rotation_iff split: option.splits)
  then show ?thesis using runTurn_ok[of a env sh] by (auto simp: list_all_iff)
qed

definition counts_bounded :: "int \<Rightarrow> session_store \<Rightarrow> bool" where
  "counts_bounded n s \<longleftrightarrow> (\<forall>k e. get s k = Some e \<longrightarrow> turn_count e \<le> n)"

lemma counts_bounded_op:
  assumes "store_inv s" "counts_bounded n s" "\<forall>now e. op = SetOp now e \<longrightarrow> turn_count e \<le> n"
  shows "counts_bounded n (run_store_op op s)" and "store_inv (run_store_op op s)"
proof -
  have get: "get (run_store_op op s) = map_op (store_kv op) (get s)"
    using sessions.lookup_apply_op[OF assms(1)] by (simp add: run_store_op_kv)
  have stamped: "turn_count (e\<lparr>se_updatedAt := t\<rparr>) = turn_count e" for e t by (simp add: turn_count_def)
  show "counts_bounded n (run_store_op op s)"
    unfolding counts_bounded_def get using assms(2,3) by (cases op) (auto simp: counts_bounded_def stamped)
  show "store_inv (run_store_op op s)" using sessions.inv_apply_op[OF assms(1)] by (simp add: run_store_op_kv)
qed

lemma counts_bounded_ops:
  "store_inv s \<Longrightarrow> counts_bounded n s \<Longrightarrow> \<forall>op \<in> set ops. \<forall>now e. op = SetOp now e \<longrightarrow> turn_count e \<le> n \<Longrightarrow>
   counts_bounded n (fold run_store_op ops s)"
  by (induction ops arbitrary: s) (auto simp: counts_bounded_op)

text \<open>Session turn counters never pass the rotation threshold: if no stored counter exceeds it, none does
  after any further turn.\<close>

theorem turn_counts_stay_bounded:
  assumes "dc_maxResumeTurns cfg > 0" and "store_inv (sh_store sh)" and "counts_bounded (dc_maxResumeTurns cfg) (sh_store sh)"
  shows "counts_bounded (dc_maxResumeTurns cfg)
    (ts_store (runTurn (make_args cfg queueKey route txt msg channel turnId merged env sh) env sh))"
proof -
  let ?a = "make_args cfg queueKey route txt msg channel turnId merged env sh"
  have a: "ta_cfg ?a = cfg" "ta_entry ?a = get (sh_store sh) (tp_key (ta_plan ?a))" by (simp_all add: make_args_def Let_def)
  have small: "count_ok ?a e \<Longrightarrow> turn_count e \<le> dc_maxResumeTurns cfg" for e
    using assms(1) a by (auto simp: count_ok_def rotation_iff resumable_def turn_count_def split: option.splits)
  have "\<forall>op \<in> set (store_ops env (ts_fx (runTurn ?a env sh))). \<forall>now e. op = SetOp now e \<longrightarrow> turn_count e \<le> dc_maxResumeTurns cfg"
    using runTurn_ok[of ?a env sh] small by (auto simp: store_ops_def set_map_filter list_all_iff elim!: fx_op.elims)
  from counts_bounded_ops[OF assms(2,3) this] show ?thesis using runTurn_sync[of env sh ?a] by (simp add: sync_def)
qed

theorem turn_counts_stay_bounded_witness:
  "counts_bounded 25 (ts_store (runTurn (make_args example_cfg ''q'' example_route ''go'' owner_msg plain_channel ''t1'' [] example_env
     example_shared) example_env example_shared))"
  using turn_counts_stay_bounded[of example_cfg example_shared "''q''" example_route "''go''" owner_msg plain_channel "''t1''" "[]" example_env]
  by (simp add: example_cfg_def example_shared_def new_store_def store_inv_def counts_bounded_def get_def)

section \<open>Runs and release of the slot\<close>

text \<open>Effects of the guarded part and of the teardown: what happens between them emits neither.\<close>

fun is_run :: "turn_effect \<Rightarrow> bool" where
  "is_run (FxRuntime _) = True"
| "is_run _ = False"

definition runs :: "turn_state \<Rightarrow> nat" where
  "runs st = length (filter is_run (ts_fx st))"

lemma runs_simps [simp]:
  "runs (at_await a env p st) = runs st" "runs (report a env p act ids oc re st) = runs st"
  "runs (emit fx st) = runs st + (if is_run fx then 1 else 0)" "runs (fail_response rr st) = runs st"
  "runs (emit_record a fx st) = runs st + (if is_run fx \<and> dc_transcript (ta_cfg a) then 1 else 0)"
  "runs (delete_session a st) = runs st" "runs (sendReplyingStatus a env b st) = runs st"
  by (simp_all add: runs_def emit_record_def delete_session_def sendReplyingStatus_def)

lemma runs_fields [simp]:
  "runs (st\<lparr>ts_stream := x1\<rparr>) = runs st" "runs (st\<lparr>ts_files := x2\<rparr>) = runs st" "runs (st\<lparr>ts_runtimeText := x4\<rparr>) = runs st"
  "runs (st\<lparr>ts_activeSession := x5\<rparr>) = runs st" "runs (st\<lparr>ts_memoryVersion := x6\<rparr>) = runs st" "runs (st\<lparr>ts_registered := x7\<rparr>) = runs st"
  "runs (st\<lparr>ts_targets := x8\<rparr>) = runs st" "runs (st\<lparr>ts_replyText := x9\<rparr>) = runs st" "runs (st\<lparr>ts_canDeliver := x10\<rparr>) = runs st"
  "runs (st\<lparr>ts_auth := x11\<rparr>) = runs st" "runs (st\<lparr>ts_park := x12\<rparr>) = runs st" "runs (st\<lparr>ts_store := x13\<rparr>) = runs st"
  by (simp_all add: runs_def)

lemma runs_before [simp]: "runs (memory_notice a env (begin_turn a env st)) = runs st"
  by (auto simp: memory_notice_def begin_turn_def Let_def split: option.splits turn_execution.splits)

lemma runs_register [simp]: "runs (snd (register_response a env st)) = runs st"
  by (simp add: register_response_def Let_def)

lemma runs_rotate [simp]: "runs (rotate_session a env st) = runs st"
  by (auto simp: rotate_session_def Let_def split: option.splits)

lemma runs_run: "runs (snd (runRuntime a env p oc t se st)) \<le> runs st + 1"
  by (auto simp: runRuntime_def split: turn_execution.splits)

lemma runs_retry: "runs (snd (retry_runtime a env r st)) \<le> runs st + 1"
  by (auto simp: retry_runtime_def Let_def intro: order_trans[OF runs_run])

lemma runs_retry_only: "\<not> shouldRetryFresh a r st \<Longrightarrow> \<not> shouldRetryTransient a r st \<Longrightarrow> runs (snd (retry_runtime a env r st)) = runs st"
  by (simp add: retry_runtime_def)

lemma runs_decide [simp]: "runs (snd (decide_response a env st)) = runs st"
  by (auto simp: decide_response_def Let_def split: sum.splits option.splits)

lemma runs_commit [simp]: "runs (commit_guest a env e st) = runs st"
  by (auto simp: commit_guest_def Let_def split: option.splits)

lemma runs_auth [simp]: "runs (record_auth a env e f st) = runs st"
  by (auto simp: record_auth_def split: option.splits)

lemma runs_persist [simp]: "runs (persist_session a env r e f st) = runs st"
  by (auto simp: persist_session_def Let_def)

lemma runs_send [simp]: "runs (sendReply a env p ob st) = runs st" "runs (emitOutbound a ds re st) = runs st"
  by (simp_all add: sendReply_def emitOutbound_def)

lemma runs_failure [simp]: "runs (settle_failure a env e r st) = runs st" "runs (settle_interrupted a env st) = runs st"
  by (simp_all add: settle_failure_def settle_interrupted_def Let_def split_beta)

lemma runs_deliver [simp]: "runs (deliver_reply a env st) = runs st"
  by (simp add: deliver_reply_def Let_def)

lemma runs_reply [simp]: "runs (settle_reply a env r e st) = runs st"
  by (simp add: settle_reply_def)

lemma runs_result [simp]: "runs (settle_result a env r st) = runs st"
  unfolding settle_result_def Let_def split_beta by simp

lemma runs_settle [simp]: "runs (settle a env r t st) = runs st"
  by (auto simp: settle_def Let_def split: option.splits)

lemma runs_teardown [simp]: "runs (teardown a env r t st) = runs st"
  by (simp add: teardown_def Let_def split_beta)

lemma runs_phase: "runs (snd (snd (run_phase a env st))) \<le> runs st + 2"
proof -
  let ?s = "rotate_session a env (snd (register_response a env st))"
  have one: "runs (snd (runRuntime a env p oc t se ?s)) \<le> runs st + 1" for p oc t se using runs_run[of a env p oc t se ?s] by simp
  have two: "runs (snd (retry_runtime a env r (snd (runRuntime a env p oc t se ?s)))) \<le> runs st + 2" for r p oc t se
    using runs_retry[of a env r "snd (runRuntime a env p oc t se ?s)"] one[of p oc t se] by linarith
  show ?thesis using one two
    by (auto simp: run_phase_def Let_def split_beta split: run_outcome.splits intro: order_trans[OF one])
qed

text \<open>A turn retries at most once: whatever fails, the runtime is called at most twice, and never for a
  refused turn.\<close>

theorem runtime_called_at_most_twice:
  "length (filter is_run (ts_fx (runTurn a env sh))) \<le> (if refused a then 0 else 2)"
proof (cases "refused a")
  case True
  have "fx_ok a fx \<Longrightarrow> \<not> is_run fx" for fx using True by (cases fx) auto
  then have "filter is_run (ts_fx (runTurn a env sh)) = []"
    using runTurn_ok[of a env sh] by (auto simp: list_all_iff filter_empty_conv)
  then show ?thesis by simp
next
  case False
  have "runs (runTurn a env sh) \<le> runs (init_turn a sh) + 2"
    using runs_phase[of a env "memory_notice a env (begin_turn a env (init_turn a sh))"] by (simp add: runTurn_def Let_def split_beta)
  then show ?thesis using False by (simp add: runs_def init_turn_def)
qed

text \<open>A repeated run never doubles what a reader or a tool already saw: without a fresh-session retry, the second
  run happens only when the first one failed with a transient error, left no text, and produced nothing
  but lifecycle blocks.\<close>

theorem transient_retry_is_safe:
  assumes "shouldRetryTransient a r st"
  shows "truthy_str (rr_error r) \<and> trim (rr_text r) = [] \<and> list_all (\<lambda>b. bs_type b \<in> {SystemBlock, Thinking}) (ss_blocks (ts_stream st)) \<and>
    \<not> is_aborted st"
  using assms by (auto simp: shouldRetryTransient_def hasOnlyRetrySafeLifecycleBlocks_def truthy_str_def clean_def list_all_iff Let_def
      split: option.splits)

lemma before_run_fx: "\<exists>fx. ts_fx (memory_notice a env (begin_turn a env (init_turn a sh))) = fx \<and> FxSlotFreed \<notin> set fx"
  by (auto simp: begin_turn_def sendReplyingStatus_def emit_record_def init_turn_def Let_def split: option.splits turn_execution.splits)

text \<open>The slot of a turn is released exactly when its runtime exists (or is refused) and the end of its
  stream is accepted; its last effect is then the release.\<close>

theorem slot_released_iff:
  "(\<exists>fx. ts_fx (runTurn a env sh) = fx @ [FxSlotFreed]) \<longleftrightarrow>
     (refused a \<or> createRuntime (r_runtime (ta_route a))) \<and>
     \<not> (sc_canStream (tp_ctx (ta_plan a)) \<and> ch_streamEnd (ta_channel a) \<and> \<not> en_streamEndOk env)"
proof (cases "refused a \<or> createRuntime (r_runtime (ta_route a))")
  case False
  then have "ts_fx (runTurn a env sh) = ts_fx (memory_notice a env (begin_turn a env (init_turn a sh)))"
    by (simp add: runTurn_def Let_def)
  then show ?thesis using False before_run_fx[of a env sh] by force
next
  case True
  have "(\<exists>fx. ts_fx (teardown a env r t st) = fx @ [FxSlotFreed]) \<longleftrightarrow>
      \<not> (sc_canStream (tp_ctx (ta_plan a)) \<and> ch_streamEnd (ta_channel a) \<and> \<not> en_streamEndOk env)" for r t st
    by (auto simp: teardown_def Let_def split_beta)
  then show ?thesis using True by (auto simp: runTurn_def Let_def split_beta)
qed

section \<open>Corners of a turn\<close>

text \<open>Diagnostics are never suppressed: every channel is either the BotCord channel or not.\<close>

lemma diagnostics_always_delivered: "canDeliverRuntimeDiagnostics a"
  by (auto simp: canDeliverRuntimeDiagnostics_def canDeliverRuntimeText_def)

text \<open>A turn its own tool budget stopped is reported to the hub as cancelled.\<close>

lemma budget_abort_reported_cancelled:
  "ss_aborted (ts_stream st) = Some AbortBudget \<Longrightarrow> \<not> timed_out st \<Longrightarrow> finish_outcome r t st = (OcInterrupted, Some ReCancelled)"
  by (simp add: finish_outcome_def is_aborted_def Let_def)

text \<open>A superseded turn whose runtime is slow to die still times out, and then speaks: the timer is not
  cleared when the turn is aborted.\<close>

definition late_env :: turn_env where
  "late_env = example_env\<lparr>en_events := (\<lambda>p. if p = AwRun then [EvSupersede ''t2'', EvTimeout] else [])\<rparr>"

lemma superseded_turn_may_time_out: "\<exists>ob. FxSend ob \<in> set (ts_fx (runTurn turn_a late_env example_shared))"
proof -
  let ?st = "timer_off (at_await turn_a late_env AwRun (emit (FxRuntime go_request)
    (emit (FxDispatched ''t1'' ''go'' []) (init_turn turn_a example_shared))))"
  have run: "run_phase turn_a late_env (memory_notice turn_a late_env (begin_turn turn_a late_env
      (init_turn turn_a example_shared))) = (Some example_result, None, ?st)"
    by (subst begin_turn_a, simp_all add: late_env_def example_env_def)
      (subst run_phase_a, simp_all add: example_result_def)
  have "timed_out ?st"
    by (simp add: late_env_def at_await_def turn_events_def abort_with_def timer_off_def timed_out_def init_turn_def init_stream_def)
  then have "\<exists>ob. FxSend ob \<in> set (ts_fx (settle turn_a late_env (Some example_result) None ?st))"
    by (auto simp: settle_def settle_interrupted_def diagnostics_always_delivered sendReply_def Let_def split_beta split: option.splits)
  then obtain ob where "FxSend ob \<in> set (filter outward (ts_fx (settle turn_a late_env (Some example_result) None ?st)))" by auto
  moreover have "createRuntime (r_runtime (ta_route turn_a))" by (simp add: createRuntime_def RUNTIME_IDS_def)
  ultimately have "FxSend ob \<in> set (filter outward (ts_fx (runTurn turn_a late_env example_shared)))"
    using run by (simp add: runTurn_def teardown_outward)
  then show ?thesis by auto
qed

end
