(* ===== verification/Transcript.thy ===== *)
theory Transcript
  imports Session_Store Runtime_Errors "HOL-Library.Multiset"
begin

text \<open>
  The transcript files of \<open>transcript-paths.ts\<close> and \<open>transcript.ts\<close>: how an agent, a room and a topic become
  a path, and how the writer appends, rotates and sweeps files. A file system is the list of its files
  with their paths; what a call to it answers (a failed rename or append, a directory that cannot be
  read) is an argument.
\<close>

section \<open>Path segments\<close>

definition WIN_RESERVED :: "string list" where
  "WIN_RESERVED =
     [''CON'', ''PRN'', ''AUX'', ''NUL'', ''COM1'', ''COM2'', ''COM3'', ''COM4'', ''COM5'', ''COM6'', ''COM7'', ''COM8'', ''COM9'',
      ''LPT1'', ''LPT2'', ''LPT3'', ''LPT4'', ''LPT5'', ''LPT6'', ''LPT7'', ''LPT8'', ''LPT9'']"

definition MAX_LEN :: nat where
  "MAX_LEN = 200"

definition TRUNCATE_PREFIX :: nat where
  "TRUNCATE_PREFIX = 191"

definition isControlOrNul :: "nat \<Rightarrow> bool" where
  "isControlOrNul ch \<longleftrightarrow> ch = 0 \<or> ch < 0x20 \<or> ch = 0x7F"

definition isAllControl :: "string \<Rightarrow> bool" where
  "isAllControl raw = list_all (\<lambda>c. isControlOrNul (of_char c)) raw"

text \<open>The upper case of the letters a reserved name can have; no other character maps into one.\<close>

definition upper_char :: "char \<Rightarrow> char" where
  "upper_char c = (if c \<in> set ''abcdefghijklmnopqrstuvwxyz'' then char_of ((of_char c :: nat) - 32) else c)"

definition toUpperCase :: "string \<Rightarrow> string" where
  "toUpperCase s = map upper_char s"

definition alnum_bytes :: string where
  "alnum_bytes = ''0123456789ABCDEFGHIJKLMNOPQRSTUVWXYZabcdefghijklmnopqrstuvwxyz''"

definition isWhitelistByte :: "nat \<Rightarrow> bool" where
  "isWhitelistByte b \<longleftrightarrow>
     (0x30 \<le> b \<and> b \<le> 0x39) \<or> (0x41 \<le> b \<and> b \<le> 0x5A) \<or> (0x61 \<le> b \<and> b \<le> 0x7A) \<or> b = 0x5F \<or> b = 0x2D \<or> b = 0x25"

definition hex_digit :: "nat \<Rightarrow> char" where
  "hex_digit d = ''0123456789ABCDEF'' ! d"

definition percentEncodeByte :: "nat \<Rightarrow> string" where
  "percentEncodeByte b = [CHR ''%'', hex_digit (b div 16), hex_digit (b mod 16)]"

text \<open>\<open>Buffer.from(raw, "utf8")\<close> of the code units represented here.\<close>

definition utf8 :: "char \<Rightarrow> nat list" where
  "utf8 c = (let n = of_char c in if n < 0x80 then [n] else [0xC0 + n div 64, 0x80 + n mod 64])"

definition utf8_bytes :: "string \<Rightarrow> nat list" where
  "utf8_bytes s = concat (map utf8 s)"

definition escape_byte :: "nat \<Rightarrow> string" where
  "escape_byte b = (if isWhitelistByte b then [char_of b] else percentEncodeByte b)"

definition escapeRaw :: "string \<Rightarrow> string" where
  "escapeRaw raw = concat (map escape_byte (utf8_bytes raw))"

definition truncateEscaped :: "(string \<Rightarrow> string) \<Rightarrow> string \<Rightarrow> string \<Rightarrow> string" where
  "truncateEscaped sha256_8 escaped raw =
     (let cut0 = TRUNCATE_PREFIX;
          cut = (if escaped ! (cut0 - 1) = CHR ''%'' then cut0 - 1
                 else if escaped ! (cut0 - 2) = CHR ''%'' then cut0 - 2 else cut0)
      in take cut escaped @ ''_'' @ sha256_8 raw)"

definition fast_path :: "string \<Rightarrow> bool" where
  "fast_path raw \<longleftrightarrow> 1 \<le> length raw \<and> length raw \<le> 128 \<and> list_all (\<lambda>c. c \<in> set alnum_bytes \<or> c = CHR ''_'' \<or> c = CHR ''-'') raw"

definition safePathSegment :: "(string \<Rightarrow> string) \<Rightarrow> string \<Rightarrow> string" where
  "safePathSegment sha256_8 raw =
     (if raw = [] \<or> raw = ''.'' \<or> raw = ''..'' \<or> isAllControl raw then ''_invalid_'' @ sha256_8 raw
      else if toUpperCase raw \<in> set WIN_RESERVED then ''_win_'' @ raw
      else if fast_path raw then raw
      else
        let escaped = escapeRaw raw
        in if length escaped \<le> MAX_LEN then escaped else truncateEscaped sha256_8 escaped raw)"

text \<open>\<open>path.join\<close> of a normalized root and plain segments.\<close>

definition transcriptRoomDir :: "(string \<Rightarrow> string) \<Rightarrow> string \<Rightarrow> string \<Rightarrow> string \<Rightarrow> string" where
  "transcriptRoomDir sha256_8 rootDir agentId roomId =
     join ''/'' [rootDir, safePathSegment sha256_8 agentId, ''transcripts'', safePathSegment sha256_8 roomId]"

definition transcriptAgentRoot :: "(string \<Rightarrow> string) \<Rightarrow> string \<Rightarrow> string \<Rightarrow> string" where
  "transcriptAgentRoot sha256_8 rootDir agentId = join ''/'' [rootDir, safePathSegment sha256_8 agentId, ''transcripts'']"

definition transcriptFilePath :: "(string \<Rightarrow> string) \<Rightarrow> string \<Rightarrow> string \<Rightarrow> string \<Rightarrow> string option \<Rightarrow> string" where
  "transcriptFilePath sha256_8 rootDir agentId roomId topicId =
     join ''/'' [rootDir, safePathSegment sha256_8 agentId, ''transcripts'', safePathSegment sha256_8 roomId,
       (case topicId of None \<Rightarrow> ''_default'' | Some t \<Rightarrow> safePathSegment sha256_8 t) @ ''.jsonl'']"

section \<open>Truncation of text fields\<close>

definition TRANSCRIPT_TEXT_LIMIT :: nat where
  "TRANSCRIPT_TEXT_LIMIT = 32 * 1024"

text \<open>The code units represented here are below the surrogates, so the cut never steps back.\<close>

definition truncateTextField :: "string \<Rightarrow> string \<times> bool" where
  "truncateTextField v =
     (if length v \<le> TRANSCRIPT_TEXT_LIMIT then (v, False)
      else
        let code = (of_char (v ! (TRANSCRIPT_TEXT_LIMIT - 1)) :: nat);
            cut = (if 0xD800 \<le> code \<and> code \<le> 0xDBFF then TRANSCRIPT_TEXT_LIMIT - 1 else TRANSCRIPT_TEXT_LIMIT)
        in (take cut v, True))"

section \<open>The writer\<close>

definition TRANSCRIPT_FILE_LIMIT :: int where
  "TRANSCRIPT_FILE_LIMIT = 8 * 1024 * 1024"

definition TRANSCRIPT_RETENTION_MS :: int where
  "TRANSCRIPT_RETENTION_MS = 3 * 24 * 60 * 60 * 1000"

definition TRANSCRIPT_CLEANUP_INTERVAL_MS :: int where
  "TRANSCRIPT_CLEANUP_INTERVAL_MS = 6 * 60 * 60 * 1000"

definition resolveTranscriptEnabled :: "string option \<Rightarrow> bool option \<Rightarrow> bool" where
  "resolveTranscriptEnabled envVal configEnabled =
     (if envVal = Some ''1'' then True else if envVal = Some ''0'' then False
      else case configEnabled of Some b \<Rightarrow> b | None \<Rightarrow> True)"

record tfile =
  tf_lines :: "string list"
  tf_mtime :: int

type_synonym tfs = "(string \<times> tfile) list"

definition byteLength :: "string \<Rightarrow> int" where
  "byteLength s = int (length (utf8_bytes s))"

definition file_size :: "tfile \<Rightarrow> int" where
  "file_size f = sum_list (map byteLength (tf_lines f))"

record writer =
  tw_rootDir :: string
  tw_maxFileBytes :: int
  tw_retentionMs :: int
  tw_cleanupIntervalMs :: int
  tw_fileMeta :: "string \<rightharpoonup> int"
  tw_lastCleanupAt :: int

definition createTranscriptWriter :: "string \<Rightarrow> int option \<Rightarrow> int option \<Rightarrow> int option \<Rightarrow> writer" where
  "createTranscriptWriter rootDir maxFileBytes retentionMs cleanupIntervalMs =
     \<lparr>tw_rootDir = rootDir,
      tw_maxFileBytes = (case maxFileBytes of Some n \<Rightarrow> n | None \<Rightarrow> TRANSCRIPT_FILE_LIMIT),
      tw_retentionMs = (case retentionMs of Some n \<Rightarrow> n | None \<Rightarrow> TRANSCRIPT_RETENTION_MS),
      tw_cleanupIntervalMs = (case cleanupIntervalMs of Some n \<Rightarrow> n | None \<Rightarrow> TRANSCRIPT_CLEANUP_INTERVAL_MS),
      tw_fileMeta = Map.empty, tw_lastCleanupAt = 0\<rparr>"

text \<open>
  \<open>cleanupTranscriptFiles\<close> walks the directories below the root, seven levels of entries deep; a file
  is reached when its path leads there and every directory on the way and the file itself can be read.
\<close>

definition ends_with :: "string \<Rightarrow> string \<Rightarrow> bool" where
  "ends_with s suffix \<longleftrightarrow> take_last (length suffix) s = suffix"

definition visited :: "string \<Rightarrow> string \<Rightarrow> bool" where
  "visited rootDir file \<longleftrightarrow>
     startsWith file (rootDir @ ''/'') \<and> length (split_on (CHR ''/'') (drop (length rootDir + 1) file)) \<le> 7"

definition stale :: "(string \<Rightarrow> bool) \<Rightarrow> string \<Rightarrow> int \<Rightarrow> string \<times> tfile \<Rightarrow> bool" where
  "stale readable rootDir cutoffMs entry \<longleftrightarrow>
     visited rootDir (fst entry) \<and> readable (fst entry) \<and> ends_with (fst entry) ''.jsonl'' \<and>
     includes_str (fst entry) ''/transcripts/'' \<and> tf_mtime (snd entry) < cutoffMs"

definition cleanupTranscriptFiles :: "(string \<Rightarrow> bool) \<Rightarrow> string \<Rightarrow> int \<Rightarrow> tfs \<Rightarrow> nat \<times> tfs" where
  "cleanupTranscriptFiles readable rootDir cutoffMs fs =
     (length (filter (stale readable rootDir cutoffMs) fs), filter (\<lambda>e. \<not> stale readable rootDir cutoffMs e) fs)"

text \<open>What the file system answers while a record is written.\<close>

record fs_answers =
  fa_now :: int
  fa_readable :: "string \<Rightarrow> bool"
  fa_renameOk :: bool
  fa_appendOk :: bool

definition cleanupOldFiles :: "fs_answers \<Rightarrow> writer \<times> tfs \<Rightarrow> writer \<times> tfs" where
  "cleanupOldFiles fa s =
     (let (w, fs) = s
      in if fa_now fa - tw_lastCleanupAt w < tw_cleanupIntervalMs w then (w, fs)
         else (w\<lparr>tw_lastCleanupAt := fa_now fa\<rparr>,
               snd (cleanupTranscriptFiles (fa_readable fa) (tw_rootDir w) (fa_now fa - tw_retentionMs w) fs)))"

definition statFile :: "string \<Rightarrow> writer \<times> tfs \<Rightarrow> int \<times> writer" where
  "statFile file s =
     (let (w, fs) = s
      in case tw_fileMeta w file of
           Some n \<Rightarrow> (n, w)
         | None \<Rightarrow>
             let n = (case map_of fs file of Some f \<Rightarrow> file_size f | None \<Rightarrow> 0)
             in (n, w\<lparr>tw_fileMeta := (tw_fileMeta w)(file \<mapsto> n)\<rparr>))"

definition formatStamp :: "int \<Rightarrow> string" where
  "formatStamp ms =
     (let (y, m, d) = civil (ms div 86400000); sec = ms div 1000
      in int_str y @ pad 2 m @ pad 2 d @ ''-'' @ pad 2 (sec div 3600 mod 24) @ pad 2 (sec div 60 mod 60) @ pad 2 (sec mod 60))"

definition rotated_path :: "int \<Rightarrow> string \<Rightarrow> string" where
  "rotated_path now file =
     (let base = (if ends_with file ''.jsonl'' then take (length file - 6) file else file)
      in base @ ''.'' @ formatStamp now @ ''.jsonl'')"

text \<open>\<open>renameSync\<close> replaces a file of the new name; a failure is logged.\<close>

definition rename_file :: "string \<Rightarrow> string \<Rightarrow> tfs \<Rightarrow> tfs" where
  "rename_file old new fs = (case map_of fs old of None \<Rightarrow> fs | Some f \<Rightarrow> upd_assoc (del_assoc old fs) new f)"

definition rotate :: "fs_answers \<Rightarrow> string \<Rightarrow> tfs \<Rightarrow> tfs" where
  "rotate fa file fs = (if fa_renameOk fa then rename_file file (rotated_path (fa_now fa) file) fs else fs)"

definition append_line :: "int \<Rightarrow> string \<Rightarrow> string \<Rightarrow> tfs \<Rightarrow> tfs" where
  "append_line now file line fs =
     upd_assoc fs file \<lparr>tf_lines = (case map_of fs file of Some f \<Rightarrow> tf_lines f | None \<Rightarrow> []) @ [line], tf_mtime = now\<rparr>"

record transcript_record =
  tr_agentId :: string
  tr_roomId :: string
  tr_topicId :: "string option"
  tr_json :: string

text \<open>
  One write. After a rotation the cached size is gone, and the new one starts from the size the file
  had before it was rotated away.
\<close>

definition over_cap :: "int \<Rightarrow> int \<Rightarrow> writer \<Rightarrow> bool" where
  "over_cap sz bytes w \<longleftrightarrow> sz > 0 \<and> sz + bytes > tw_maxFileBytes w"

definition write_line :: "fs_answers \<Rightarrow> string \<Rightarrow> string \<Rightarrow> writer \<times> tfs \<Rightarrow> writer \<times> tfs" where
  "write_line fa file line s =
     (let (w, fs) = s;
          bytes = byteLength line;
          (sz, w1) = statFile file (w, fs);
          (w2, fs2) = (if over_cap sz bytes w1 then (w1\<lparr>tw_fileMeta := (tw_fileMeta w1)(file := None)\<rparr>, rotate fa file fs) else (w1, fs))
      in if \<not> fa_appendOk fa then (w2, fs2)
         else
           let cur = (case tw_fileMeta w2 file of Some n \<Rightarrow> n | None \<Rightarrow> sz)
           in (w2\<lparr>tw_fileMeta := (tw_fileMeta w2)(file \<mapsto> cur + bytes)\<rparr>, append_line (fa_now fa) file line fs2))"

definition write_record :: "(string \<Rightarrow> string) \<Rightarrow> fs_answers \<Rightarrow> transcript_record \<Rightarrow> writer \<times> tfs \<Rightarrow> writer \<times> tfs" where
  "write_record sha256_8 fa rec s =
     (let (w, fs) = cleanupOldFiles fa s;
          file = transcriptFilePath sha256_8 (tw_rootDir w) (tr_agentId rec) (tr_roomId rec) (tr_topicId rec)
      in write_line fa file (tr_json rec @ [CHR 0x0A]) (w, fs))"

section \<open>Segments are safe\<close>

text \<open>What the truncated hash of the standard library is relied on for.\<close>

definition hex8 :: "(string \<Rightarrow> string) \<Rightarrow> bool" where
  "hex8 h \<longleftrightarrow> (\<forall>r. length (h r) = 8 \<and> set (h r) \<subseteq> set ''0123456789abcdef'')"

definition segment_chars :: "char set" where
  "segment_chars = set alnum_bytes \<union> {CHR ''_'', CHR ''-'', CHR ''%''}"

lemma hex_digit_in: "d < 16 \<Longrightarrow> hex_digit d \<in> segment_chars"
proof -
  assume "d < 16"
  then have "hex_digit d \<in> set ''0123456789ABCDEF''" unfolding hex_digit_def by (intro nth_mem) simp
  then show ?thesis by (auto simp: segment_chars_def alnum_bytes_def)
qed

lemma whitelist_iff: "b < 256 \<Longrightarrow> isWhitelistByte b \<longleftrightarrow> char_of b \<in> segment_chars"
proof -
  assume b: "b < 256"
  have "char_of b \<in> segment_chars \<longleftrightarrow> b \<in> of_char ` segment_chars"
    using b by (auto simp: image_iff) (metis char_of_char of_char_of mod_less)
  also have "\<dots> \<longleftrightarrow> b \<in> {48..57} \<union> {65..90} \<union> {97..122} \<union> {95, 45, 37}"
  proof -
    have "(of_char ` segment_chars :: nat set) = {48..57} \<union> {65..90} \<union> {97..122} \<union> {95, 45, 37}"
      unfolding segment_chars_def alnum_bytes_def by (simp add: atLeastAtMost_insertL[symmetric] numeral_eq_Suc) auto
    then show ?thesis by simp
  qed
  finally show ?thesis by (auto simp: isWhitelistByte_def)
qed

lemma of_char_div_64: "(of_char c :: nat) div 64 < 4"
  by (rule less_mult_imp_div_less) (rule less_le_trans[OF nat_of_char_less_256], simp)

lemma utf8_bound: "b \<in> set (utf8_bytes s) \<Longrightarrow> b < 256"
proof -
  have "b \<in> set (utf8 c) \<Longrightarrow> b < 256" for c
    using of_char_div_64[of c] by (auto simp: utf8_def Let_def split: if_splits)
  then show "b \<in> set (utf8_bytes s) \<Longrightarrow> b < 256" by (auto simp: utf8_bytes_def)
qed

lemma set_escapeRaw: "set (escapeRaw raw) \<subseteq> segment_chars"
proof
  fix c assume "c \<in> set (escapeRaw raw)"
  then obtain b where b: "b \<in> set (utf8_bytes raw)" "c \<in> set (escape_byte b)"
    by (auto simp: escapeRaw_def)
  have "b < 256" using b(1) by (rule utf8_bound)
  then have "hex_digit (b div 16) \<in> segment_chars" "hex_digit (b mod 16) \<in> segment_chars" by (simp_all add: hex_digit_in)
  moreover have "CHR ''%'' \<in> segment_chars" by (simp add: segment_chars_def)
  ultimately show "c \<in> segment_chars" using b(2) whitelist_iff[OF \<open>b < 256\<close>]
    by (auto simp: escape_byte_def percentEncodeByte_def split: if_splits)
qed

lemma set_hash: "hex8 h \<Longrightarrow> set (h r) \<subseteq> segment_chars"
  unfolding hex8_def segment_chars_def alnum_bytes_def by (drule spec[of _ r], elim conjE, erule subset_trans) auto

lemma reserved_upper:
  assumes "toUpperCase raw \<in> set WIN_RESERVED"
  shows "set raw \<subseteq> segment_chars" and "length raw \<le> 4"
proof -
  have up: "upper_char c \<in> set ''CONPRAUXLMT123456789'' \<Longrightarrow> c \<in> segment_chars" for c
    by (auto simp: upper_char_def segment_chars_def alnum_bytes_def split: if_splits)
  have "set (toUpperCase raw) \<subseteq> set ''CONPRAUXLMT123456789''" using assms by (auto simp: WIN_RESERVED_def)
  then show "set raw \<subseteq> segment_chars" using up by (auto simp: toUpperCase_def)
  have "length (toUpperCase raw) \<le> 4" using assms by (auto simp: WIN_RESERVED_def)
  then show "length raw \<le> 4" by (simp add: toUpperCase_def)
qed

lemma set_fast_path: "fast_path raw \<Longrightarrow> set raw \<subseteq> segment_chars"
  by (auto simp: fast_path_def list_all_iff segment_chars_def)

lemma segment_chars_not_dot: "CHR ''.'' \<notin> segment_chars" "CHR ''/'' \<notin> segment_chars" "CHR 0x00 \<notin> segment_chars" "CHR 0x5C \<notin> segment_chars"
  by (simp_all add: segment_chars_def alnum_bytes_def)

lemma segment_cases:
  obtains "safePathSegment h raw = ''_invalid_'' @ h raw"
  | "safePathSegment h raw = ''_win_'' @ raw" "toUpperCase raw \<in> set WIN_RESERVED"
  | "safePathSegment h raw = raw" "fast_path raw" "toUpperCase raw \<notin> set WIN_RESERVED"
  | "safePathSegment h raw = escapeRaw raw" "length (escapeRaw raw) \<le> 200" "raw \<noteq> []" "\<not> fast_path raw"
  | cut where "safePathSegment h raw = take cut (escapeRaw raw) @ ''_'' @ h raw" "cut \<le> 191"
proof -
  let ?e = "escapeRaw raw"
  let ?cut = "if ?e ! 190 = CHR ''%'' then 190 else if ?e ! 189 = CHR ''%'' then 189 else (191 :: nat)"
  have cut: "truncateEscaped h ?e raw = take ?cut ?e @ ''_'' @ h raw" "?cut \<le> 191"
    by (simp_all add: truncateEscaped_def TRUNCATE_PREFIX_def Let_def)
  note d = safePathSegment_def[of h raw, unfolded Let_def MAX_LEN_def]
  consider "raw = [] \<or> raw = ''.'' \<or> raw = ''..'' \<or> isAllControl raw"
    | "\<not> (raw = [] \<or> raw = ''.'' \<or> raw = ''..'' \<or> isAllControl raw)" "toUpperCase raw \<in> set WIN_RESERVED"
    | "\<not> (raw = [] \<or> raw = ''.'' \<or> raw = ''..'' \<or> isAllControl raw)" "toUpperCase raw \<notin> set WIN_RESERVED" "fast_path raw"
    | "\<not> (raw = [] \<or> raw = ''.'' \<or> raw = ''..'' \<or> isAllControl raw)" "toUpperCase raw \<notin> set WIN_RESERVED" "\<not> fast_path raw"
    by blast
  then show thesis
  proof cases
    case 1
    then show thesis by (intro that(1)) (simp only: d if_True)
  next
    case 2
    then show thesis by (intro that(2)) (simp_all only: d if_True if_False)
  next
    case 3
    then show thesis by (intro that(3)) (simp_all only: d if_True if_False not_False_eq_True)
  next
    case 4
    show thesis
    proof (cases "length ?e \<le> 200")
      case True
      with 4 show thesis by (intro that(4)) (simp_all only: d if_True if_False, simp_all)
    next
      case False
      with 4 cut show thesis by (intro that(5)[of ?cut]) (simp_all only: d if_False)
    qed
  qed
qed

lemma set_segment: "hex8 h \<Longrightarrow> set (safePathSegment h raw) \<subseteq> segment_chars"
proof (cases rule: segment_cases[of h raw])
  case (5 cut)
  assume "hex8 h"
  have "set (take cut (escapeRaw raw)) \<subseteq> segment_chars" using set_escapeRaw set_take_subset by (rule subset_trans[rotated])
  with 5 set_hash[OF \<open>hex8 h\<close>] show ?thesis by (simp add: segment_chars_def)
qed (simp_all add: set_hash set_fast_path set_escapeRaw reserved_upper, simp_all add: segment_chars_def alnum_bytes_def)

lemma length_segment: "hex8 h \<Longrightarrow> length (safePathSegment h raw) \<le> 200"
proof (cases rule: segment_cases[of h raw])
  case 2
  with reserved_upper(2)[OF 2(2)] show ?thesis by simp
qed (auto simp: hex8_def fast_path_def)

lemma escape_byte_not_Nil [simp]: "escape_byte b \<noteq> []"
  by (simp add: escape_byte_def percentEncodeByte_def)

lemma utf8_not_Nil [simp]: "utf8 c \<noteq> []"
  by (simp add: utf8_def Let_def)

lemma escapeRaw_Nil_iff [simp]: "escapeRaw raw = [] \<longleftrightarrow> raw = []"
  by (cases raw) (auto simp: escapeRaw_def utf8_bytes_def)

lemma escapeRaw_Cons: "escapeRaw (c # s) = concat (map escape_byte (utf8 c)) @ escapeRaw s"
  by (simp add: escapeRaw_def utf8_bytes_def)

lemma escape_char:
  assumes "CHR ''%'' \<notin> set (concat (map escape_byte (utf8 c)))"
  shows "concat (map escape_byte (utf8 c)) = [c]" and "c \<in> set alnum_bytes \<or> c = CHR ''_'' \<or> c = CHR ''-''"
proof -
  have small: "of_char c < (128 :: nat)"
  proof (rule ccontr)
    assume "\<not> of_char c < (128 :: nat)"
    then show False using assms by (auto simp: utf8_def Let_def escape_byte_def isWhitelistByte_def percentEncodeByte_def split: if_splits)
  qed
  then have w: "isWhitelistByte (of_char c)" using assms by (auto simp: utf8_def escape_byte_def percentEncodeByte_def split: if_splits)
  then show one: "concat (map escape_byte (utf8 c)) = [c]" using small by (simp add: utf8_def escape_byte_def)
  have "c \<in> segment_chars" using w whitelist_iff[of "of_char c"] by simp
  then show "c \<in> set alnum_bytes \<or> c = CHR ''_'' \<or> c = CHR ''-''" using one assms by (auto simp: segment_chars_def)
qed

lemma escape_plain:
  "CHR ''%'' \<notin> set (escapeRaw raw) \<Longrightarrow> escapeRaw raw = raw \<and> list_all (\<lambda>c. c \<in> set alnum_bytes \<or> c = CHR ''_'' \<or> c = CHR ''-'') raw"
proof (induction raw)
  case (Cons c s)
  then have "CHR ''%'' \<notin> set (concat (map escape_byte (utf8 c)))" "CHR ''%'' \<notin> set (escapeRaw s)" by (simp_all add: escapeRaw_Cons)
  with Cons.IH escape_char[of c] show ?case by (simp add: escapeRaw_Cons)
qed simp

lemma segment_not_Nil: "safePathSegment h raw \<noteq> []"
  by (cases rule: segment_cases[of h raw]) (auto simp: fast_path_def)

text \<open>C12: No identifier leaves its directory: whatever the agent, room or topic id is, its segment is one
  non-empty path component of at most 200 safe characters, never \<open>.\<close> or \<open>..\<close>, and never a reserved
  device name.\<close>

theorem segment_is_safe:
  assumes "hex8 sha256_8"
  shows "safePathSegment sha256_8 raw \<noteq> [] \<and> set (safePathSegment sha256_8 raw) \<subseteq> set alnum_bytes \<union> {CHR ''_'', CHR ''-'', CHR ''%''} \<and>
    length (safePathSegment sha256_8 raw) \<le> 200 \<and> toUpperCase (safePathSegment sha256_8 raw) \<notin> set WIN_RESERVED"
proof -
  have reserved: "s \<in> set WIN_RESERVED \<Longrightarrow> CHR ''%'' \<notin> set s \<and> CHR ''_'' \<notin> set s \<and> length s \<le> 4" for s by (auto simp: WIN_RESERVED_def)
  have up: "c \<in> {CHR ''_'', CHR ''%''} \<Longrightarrow> c \<in> set s \<Longrightarrow> c \<in> set (toUpperCase s)" for c s
    by (force simp: toUpperCase_def upper_char_def image_iff)
  have "toUpperCase (safePathSegment sha256_8 raw) \<notin> set WIN_RESERVED"
  proof (cases rule: segment_cases[of sha256_8 raw])
    case 1
    with reserved up[of "CHR ''_''" "safePathSegment sha256_8 raw"] show ?thesis by fastforce
  next
    case 2
    with reserved up[of "CHR ''_''" "safePathSegment sha256_8 raw"] show ?thesis by fastforce
  next
    case 5
    with reserved up[of "CHR ''_''" "safePathSegment sha256_8 raw"] show ?thesis by fastforce
  next
    case 3
    then show ?thesis by simp
  next
    case 4
    show ?thesis
    proof (cases "CHR ''%'' \<in> set (escapeRaw raw)")
      case True
      then show ?thesis using 4(1) reserved up[of "CHR ''%''" "escapeRaw raw"] by auto
    next
      case False
      then have "128 < length (escapeRaw raw)" using escape_plain[OF False] 4(3,4) by (cases raw) (auto simp: fast_path_def)
      then show ?thesis using 4(1) reserved[of "toUpperCase (escapeRaw raw)"] by (auto simp: toUpperCase_def)
    qed
  qed
  then show ?thesis using set_segment[OF assms] length_segment[OF assms] segment_not_Nil by (simp add: segment_chars_def)
qed

definition example_hash :: "string \<Rightarrow> string" where
  "example_hash r = ''0123abcd''"

lemma hex8_example: "hex8 example_hash"
  by (simp add: hex8_def example_hash_def)

theorem segment_is_safe_witness:
  "safePathSegment example_hash ''../x'' = ''%2E%2E%2Fx'' \<and>
   set (safePathSegment example_hash ''../x'') \<subseteq> set alnum_bytes \<union> {CHR ''_'', CHR ''-'', CHR ''%''}"
proof
  show "safePathSegment example_hash ''../x'' = ''%2E%2E%2Fx''" by code_simp
  show "set (safePathSegment example_hash ''../x'') \<subseteq> set alnum_bytes \<union> {CHR ''_'', CHR ''-'', CHR ''%''}"
    using segment_is_safe[OF hex8_example, of "''../x''"] by blast
qed

section \<open>Segments can be read back\<close>

definition hex_val :: "char \<Rightarrow> nat" where
  "hex_val c = (let n = of_char c in if n < 58 then n - 48 else n - 55)"

fun unescape :: "string \<Rightarrow> nat list" where
  "unescape (c # a # b # s) =
     (if c = CHR ''%'' then (16 * hex_val a + hex_val b) # unescape s else of_char c # unescape (a # b # s))"
| "unescape (c # s) = of_char c # unescape s"
| "unescape [] = []"

fun undo_utf8 :: "nat list \<Rightarrow> string" where
  "undo_utf8 (a # b # bs) =
     (if a < 0x80 then char_of a # undo_utf8 (b # bs) else char_of (64 * (a - 0xC0) + (b - 0x80)) # undo_utf8 bs)"
| "undo_utf8 (a # bs) = char_of a # undo_utf8 bs"
| "undo_utf8 [] = []"

lemma hex_val_digit: "d < 16 \<Longrightarrow> hex_val (hex_digit d) = d"
proof -
  assume "d < 16"
  then have "d \<in> {0, 1, 2, 3, 4, 5, 6, 7, 8, 9, 10, 11, 12, 13, 14, 15}"
    unfolding insert_iff empty_iff by presburger
  then show ?thesis by (auto simp: hex_val_def hex_digit_def)
qed

lemma unescape_plain: "c \<noteq> CHR ''%'' \<Longrightarrow> unescape (c # s) = of_char c # unescape s"
  by (cases s; cases "tl s") auto

lemma unescape_byte: "b < 256 \<Longrightarrow> b \<noteq> 0x25 \<Longrightarrow> unescape (escape_byte b @ s) = b # unescape s"
proof (cases "isWhitelistByte b")
  case True
  assume b: "b < 256" "b \<noteq> 0x25"
  have "(of_char (char_of b :: char) :: nat) = b" using b(1) by simp
  moreover have "char_of b \<noteq> CHR ''%''"
  proof
    assume "char_of b = CHR ''%''"
    then have "(of_char (char_of b :: char) :: nat) = 0x25" by simp
    with b show False by simp
  qed
  ultimately show ?thesis using True by (simp add: escape_byte_def unescape_plain)
next
  case False
  assume "b < 256" "b \<noteq> 0x25"
  then show ?thesis using False by (simp add: escape_byte_def percentEncodeByte_def hex_val_digit)
qed

lemma unescape_bytes: "\<forall>b \<in> set bs. b < 256 \<and> b \<noteq> 0x25 \<Longrightarrow> unescape (concat (map escape_byte bs)) = bs"
  by (induction bs) (auto simp: unescape_byte)

lemma undo_utf8_char: "undo_utf8 (utf8 c @ bs) = c # undo_utf8 bs"
proof (cases "of_char c < (128 :: nat)")
  case True
  then show ?thesis by (cases bs) (auto simp: utf8_def)
next
  case False
  have "64 * ((of_char c :: nat) div 64) + of_char c mod 64 = of_char c" by simp
  then show ?thesis using False by (simp add: utf8_def Let_def)
qed

lemma undo_utf8_bytes: "undo_utf8 (utf8_bytes s) = s"
  by (induction s) (simp_all add: utf8_bytes_def undo_utf8_char)

lemma utf8_no_percent: "CHR ''%'' \<notin> set s \<Longrightarrow> 0x25 \<notin> set (utf8_bytes s)"
proof -
  have "0x25 \<in> set (utf8 c) \<Longrightarrow> c = CHR ''%''" for c
  proof -
    assume "0x25 \<in> set (utf8 c)"
    then have "of_char c = (of_char (CHR ''%'') :: nat)" by (auto simp: utf8_def Let_def split: if_splits)
    then show "c = CHR ''%''" by (simp only: of_char_eq_iff)
  qed
  then show "CHR ''%'' \<notin> set s \<Longrightarrow> 0x25 \<notin> set (utf8_bytes s)" by (auto simp: utf8_bytes_def)
qed

lemma escape_fast: "fast_path raw \<Longrightarrow> escapeRaw raw = raw"
proof -
  have "c \<in> set alnum_bytes \<or> c = CHR ''_'' \<or> c = CHR ''-'' \<Longrightarrow> concat (map escape_byte (utf8 c)) = [c]" for c
  proof -
    assume c: "c \<in> set alnum_bytes \<or> c = CHR ''_'' \<or> c = CHR ''-''"
    then have "isWhitelistByte (of_char c)" using whitelist_iff[of "of_char c"] by (auto simp: segment_chars_def)
    moreover from this have "of_char c < (128 :: nat)" by (auto simp: isWhitelistByte_def)
    ultimately show ?thesis by (simp add: utf8_def escape_byte_def)
  qed
  then have "list_all (\<lambda>c. c \<in> set alnum_bytes \<or> c = CHR ''_'' \<or> c = CHR ''-'') raw \<Longrightarrow> escapeRaw raw = raw"
    by (induction raw) (simp_all add: escapeRaw_Cons)
  then show "fast_path raw \<Longrightarrow> escapeRaw raw = raw" by (simp add: fast_path_def)
qed

text \<open>The identifiers whose segment is their escape.\<close>

definition readable_id :: "string \<Rightarrow> bool" where
  "readable_id raw \<longleftrightarrow> raw \<notin> {[], ''.'', ''..''} \<and> \<not> isAllControl raw \<and> toUpperCase raw \<notin> set WIN_RESERVED \<and>
     CHR ''%'' \<notin> set raw \<and> length (escapeRaw raw) \<le> 200"

text \<open>C13: Round trip of path segments: an id without a percent sign that is neither reserved nor too long can be
  read back from its segment, so two such ids never share a transcript directory or file.\<close>

theorem segment_round_trip:
  assumes "readable_id raw"
  shows "undo_utf8 (unescape (safePathSegment sha256_8 raw)) = raw"
proof -
  have "safePathSegment sha256_8 raw = escapeRaw raw"
    using assms escape_fast[of raw] by (auto simp: safePathSegment_def readable_id_def MAX_LEN_def)
  moreover have "unescape (escapeRaw raw) = utf8_bytes raw"
    unfolding escapeRaw_def using utf8_bound utf8_no_percent[of raw] assms by (intro unescape_bytes) (auto simp: readable_id_def)
  ultimately show ?thesis by (simp add: undo_utf8_bytes)
qed

theorem segment_round_trip_witness:
  "undo_utf8 (unescape (safePathSegment example_hash ''rm/1 a'')) = ''rm/1 a''"
proof -
  have "readable_id ''rm/1 a''" by code_simp
  then show ?thesis by (rule segment_round_trip)
qed

text \<open>A percent sign is kept as it is, so an id can spell the escape of another one, and the topic
  named like the default file shares it.\<close>

lemma segment_collision:
  "safePathSegment h ''a/b'' = safePathSegment h ''a%2Fb'' \<and>
   transcriptFilePath h rd agent room None = transcriptFilePath h rd agent room (Some ''_default'')"
proof
  show "safePathSegment h ''a/b'' = safePathSegment h ''a%2Fb''" by code_simp
  have "safePathSegment h ''_default'' = ''_default''" by code_simp
  then show "transcriptFilePath h rd agent room None = transcriptFilePath h rd agent room (Some ''_default'')"
    by (simp add: transcriptFilePath_def)
qed

section \<open>Rotation\<close>

lemma statFile_meta: "tw_fileMeta (snd (statFile file (w, fs))) f = (if f = file then Some (fst (statFile file (w, fs))) else tw_fileMeta w f)"
  by (auto simp: statFile_def Let_def split: option.splits)

lemma statFile_frame [simp]:
  "tw_maxFileBytes (snd (statFile file s)) = tw_maxFileBytes (fst s)" "tw_rootDir (snd (statFile file s)) = tw_rootDir (fst s)"
  "tw_lastCleanupAt (snd (statFile file s)) = tw_lastCleanupAt (fst s)"
  "tw_cleanupIntervalMs (snd (statFile file s)) = tw_cleanupIntervalMs (fst s)" "tw_retentionMs (snd (statFile file s)) = tw_retentionMs (fst s)"
  by (auto simp: statFile_def Let_def split_beta split: option.splits)

lemma write_line_frame [simp]:
  "tw_maxFileBytes (fst (write_line fa file line s)) = tw_maxFileBytes (fst s)"
  "tw_rootDir (fst (write_line fa file line s)) = tw_rootDir (fst s)"
  by (simp_all add: write_line_def Let_def split_beta)

lemma write_line_meta:
  "fa_appendOk fa \<Longrightarrow> tw_fileMeta (fst (write_line fa file line (w, fs))) f =
     (if f = file then Some (fst (statFile file (w, fs)) + byteLength line) else tw_fileMeta w f)"
  by (simp add: write_line_def Let_def split_beta statFile_meta)

lemma byteLength_nonneg: "0 \<le> byteLength s"
  by (simp add: byteLength_def)

definition write_all :: "(fs_answers \<times> string \<times> string) list \<Rightarrow> writer \<times> tfs \<Rightarrow> writer \<times> tfs" where
  "write_all ws = fold (\<lambda>(fa, file, line). write_line fa file line) ws"

lemma cached_over_sticks:
  assumes "tw_fileMeta (fst s) file = Some n" "tw_maxFileBytes (fst s) < n" "list_all (\<lambda>(fa, _, _). fa_appendOk fa) ws"
  shows "\<exists>m. tw_fileMeta (fst (write_all ws s)) file = Some m \<and> tw_maxFileBytes (fst (write_all ws s)) < m"
  using assms
proof (induction ws arbitrary: s n)
  case (Cons x ws)
  obtain fa f line where x: "x = (fa, f, line)" by (cases x)
  obtain w fs where s: "s = (w, fs)" by (cases s)
  have "f = file \<Longrightarrow> fst (statFile f (w, fs)) = n" using Cons.prems(1) s by (simp add: statFile_def)
  moreover have "tw_maxFileBytes w < n + byteLength line" using Cons.prems(2) s byteLength_nonneg[of line] by simp
  ultimately have "\<exists>m > tw_maxFileBytes w. tw_fileMeta (fst (write_line fa f line (w, fs))) file = Some m"
    using Cons.prems x s by (cases "f = file") (auto simp: write_line_meta)
  then obtain m where "tw_maxFileBytes w < m" "tw_fileMeta (fst (write_line fa f line (w, fs))) file = Some m" by blast
  then show ?case using Cons.IH[of "write_line fa f line s" m] Cons.prems(3) x s by (simp add: write_all_def)
qed (auto simp: write_all_def)

text \<open>Once a transcript file has been rotated, every later record rotates it again: the size the writer
  remembers still counts the file it moved away.\<close>

theorem rotation_repeats:
  assumes "over_cap (fst (statFile file (w, fs))) (byteLength line) w" and "0 \<le> tw_maxFileBytes w"
    and "list_all (\<lambda>(fa, _, _). fa_appendOk fa) ((fa, file, line) # ws)"
  shows "over_cap (fst (statFile file (write_all ((fa, file, line) # ws) (w, fs)))) (byteLength line') w"
proof -
  let ?s = "write_line fa file line (w, fs)"
  have "tw_fileMeta (fst ?s) file = Some (fst (statFile file (w, fs)) + byteLength line)" using assms(3) by (simp add: write_line_meta)
  moreover have "tw_maxFileBytes (fst ?s) < fst (statFile file (w, fs)) + byteLength line" using assms(1) by (simp add: over_cap_def)
  ultimately obtain m where m: "tw_fileMeta (fst (write_all ws ?s)) file = Some m" "tw_maxFileBytes (fst (write_all ws ?s)) < m"
    using cached_over_sticks[of "?s" "file" "fst (statFile file (w, fs)) + byteLength line" "ws"] assms(3) by auto
  have "tw_maxFileBytes (fst (write_all ws s)) = tw_maxFileBytes (fst s)" for s
    by (induction ws arbitrary: s) (auto simp: write_all_def)
  then have "tw_maxFileBytes w < m" using m(2) by simp
  moreover have "fst (statFile file (write_all ws ?s)) = m" using m(1) by (simp add: statFile_def split_beta)
  ultimately show ?thesis using assms(2) byteLength_nonneg[of line'] by (simp add: over_cap_def write_all_def add_strict_increasing2)
qed

definition quiet_fs :: "int \<Rightarrow> fs_answers" where
  "quiet_fs now = \<lparr>fa_now = now, fa_readable = (\<lambda>_. True), fa_renameOk = True, fa_appendOk = True\<rparr>"

definition small_writer :: writer where
  "small_writer = createTranscriptWriter ''/a'' (Some 3) None None"

theorem rotation_repeats_witness:
  "over_cap (fst (statFile ''/a/x.jsonl'' (write_all [(quiet_fs 0, ''/a/x.jsonl'', ''12''), (quiet_fs 0, ''/a/x.jsonl'', ''3'')]
     (small_writer, [(''/a/x.jsonl'', \<lparr>tf_lines = [''12''], tf_mtime = 0\<rparr>)])))) (byteLength []) small_writer"
proof (rule rotation_repeats)
  show "over_cap (fst (statFile ''/a/x.jsonl'' (small_writer, [(''/a/x.jsonl'', \<lparr>tf_lines = [''12''], tf_mtime = 0\<rparr>)])))
    (byteLength ''12'') small_writer" by code_simp
qed (simp_all add: small_writer_def createTranscriptWriter_def quiet_fs_def)

text \<open>The name of a rotated file has a resolution of one second, so the next rotation of the same second
  replaces it: of three records written within a second, the first one is in no file afterwards.\<close>

lemma rotated_record_lost:
  "map tf_lines (map snd (snd (write_all [(quiet_fs 0, ''/a/x.jsonl'', ''12''), (quiet_fs 1, ''/a/x.jsonl'', ''34''),
     (quiet_fs 2, ''/a/x.jsonl'', ''56'')] (small_writer, [])))) = [[''34''], [''56'']]"
  by code_simp

section \<open>Files stay within their cap\<close>

definition file_ok :: "int \<Rightarrow> tfile \<Rightarrow> bool" where
  "file_ok cap f \<longleftrightarrow> file_size f \<le> cap \<or> length (filter (\<lambda>l. l \<noteq> []) (tf_lines f)) \<le> 1"

definition size_at :: "tfs \<Rightarrow> string \<Rightarrow> int" where
  "size_at fs p = (case map_of fs p of Some f \<Rightarrow> file_size f | None \<Rightarrow> 0)"

definition is_transcript :: "(string \<Rightarrow> string) \<Rightarrow> string \<Rightarrow> string \<Rightarrow> bool" where
  "is_transcript h rd p \<longleftrightarrow> (\<exists>agent room topic. p = transcriptFilePath h rd agent room topic)"

text \<open>The cache never underestimates a transcript file, and every file respects the cap.\<close>

definition writer_inv :: "(string \<Rightarrow> string) \<Rightarrow> writer \<times> tfs \<Rightarrow> bool" where
  "writer_inv h s \<longleftrightarrow> distinct (map fst (snd s)) \<and>
     (\<forall>p f. map_of (snd s) p = Some f \<longrightarrow> file_ok (tw_maxFileBytes (fst s)) f) \<and>
     (\<forall>p n. tw_fileMeta (fst s) p = Some n \<longrightarrow> 0 \<le> n \<and> (is_transcript h (tw_rootDir (fst s)) p \<longrightarrow> size_at (snd s) p \<le> n))"

lemma file_size_nonneg [simp]: "0 \<le> file_size f"
  by (auto simp: file_size_def byteLength_nonneg intro!: sum_list_nonneg)

lemma map_of_filter_distinct:
  "distinct (map fst ps) \<Longrightarrow> map_of (filter P ps) k = (case map_of ps k of Some v \<Rightarrow> (if P (k, v) then Some v else None) | None \<Rightarrow> None)"
  by (induction ps) (auto split: option.splits simp: map_of_eq_None_iff rev_image_eqI)

lemma cleanup_inv: "writer_inv h s \<Longrightarrow> writer_inv h (cleanupOldFiles fa s)"
  by (cases s) (auto simp: writer_inv_def cleanupOldFiles_def Let_def cleanupTranscriptFiles_def distinct_filter_keys
      map_of_filter_distinct size_at_def split: option.splits if_splits)

lemma cleanup_frame [simp]:
  "tw_rootDir (fst (cleanupOldFiles fa s)) = tw_rootDir (fst s)" "tw_maxFileBytes (fst (cleanupOldFiles fa s)) = tw_maxFileBytes (fst s)"
  by (simp_all add: cleanupOldFiles_def Let_def split_beta)

text \<open>A rotated file is not the transcript of any conversation: its name has one more dot.\<close>

lemma no_sep_pad: "CHR ''/'' \<notin> set (pad w n)" "CHR ''/'' \<notin> set (formatStamp ms)"
proof -
  have i: "CHR ''/'' \<notin> set (int_str k)" for k using set_int_str[of k] by (auto simp: digit_chars_def)
  then show p: "CHR ''/'' \<notin> set (pad w n)" for w n by (auto simp: pad_def Let_def)
  show "CHR ''/'' \<notin> set (formatStamp ms)" using i p by (simp add: formatStamp_def Let_def split_beta)
qed

lemma last_part_dot:
  assumes "b @ [CHR ''.''] @ st = x @ [CHR ''/''] @ seg" "CHR ''/'' \<notin> set st" "CHR ''.'' \<notin> set seg"
  shows False
proof -
  have "rev st @ [CHR ''.''] @ rev b = rev seg @ [CHR ''/''] @ rev x" using arg_cong[OF assms(1), of rev] by simp
  then obtain us where "rev st = rev seg @ us \<and> us @ [CHR ''.''] @ rev b = [CHR ''/''] @ rev x \<or>
      rev st @ us = rev seg \<and> [CHR ''.''] @ rev b = us @ [CHR ''/''] @ rev x" by (auto simp: append_eq_append_conv2)
  then show False
  proof
    assume u: "rev st = rev seg @ us \<and> us @ [CHR ''.''] @ rev b = [CHR ''/''] @ rev x"
    then have "CHR ''/'' \<in> set us" by (cases us) auto
    then have "CHR ''/'' \<in> set (rev st)" using u by simp
    then show False using assms(2) by simp
  next
    assume u: "rev st @ us = rev seg \<and> [CHR ''.''] @ rev b = us @ [CHR ''/''] @ rev x"
    then have "CHR ''.'' \<in> set us" by (cases us) auto
    then have "CHR ''.'' \<in> set (rev seg)" using u by (metis Un_iff set_append)
    then show False using assms(3) by simp
  qed
qed

lemma transcript_shape:
  assumes "hex8 h" "is_transcript h rd p"
  obtains x seg where "p = (x @ [CHR ''/''] @ seg) @ ''.jsonl''" "CHR ''.'' \<notin> set seg"
proof -
  obtain a r t where p: "p = transcriptFilePath h rd a r t" using assms(2) by (auto simp: is_transcript_def)
  let ?seg = "case t of None \<Rightarrow> ''_default'' | Some t \<Rightarrow> safePathSegment h t"
  have "CHR ''.'' \<notin> set ?seg" using set_segment[OF assms(1)] segment_chars_not_dot(1) by (auto split: option.splits)
  moreover have "p = (join ''/'' [rd, safePathSegment h a, ''transcripts'', safePathSegment h r] @ [CHR ''/''] @ ?seg) @ ''.jsonl''"
    by (simp add: p transcriptFilePath_def)
  ultimately show thesis using that by blast
qed

lemma rotated_not_transcript: "hex8 h \<Longrightarrow> \<not> is_transcript h rd (rotated_path now f)"
proof
  assume "hex8 h" "is_transcript h rd (rotated_path now f)"
  then obtain x seg where p: "rotated_path now f = (x @ [CHR ''/''] @ seg) @ ''.jsonl''" "CHR ''.'' \<notin> set seg"
    by (rule transcript_shape)
  obtain b where "rotated_path now f = (b @ [CHR ''.''] @ formatStamp now) @ ''.jsonl''" by (simp add: rotated_path_def Let_def)
  with p have "b @ [CHR ''.''] @ formatStamp now = x @ [CHR ''/''] @ seg" by (simp del: append_assoc)
  then show False by (rule last_part_dot[OF _ no_sep_pad(2) p(2)])
qed

lemma size_rename:
  "old \<noteq> new \<Longrightarrow> size_at (rename_file old new fs) p = (if map_of fs old = None then size_at fs p
     else if p = new then size_at fs old else if p = old then 0 else size_at fs p)"
  by (auto simp: rename_file_def size_at_def split: option.splits)

lemma append_line_map: "map_of (append_line now file line fs) = (map_of fs)(file \<mapsto>
    \<lparr>tf_lines = (case map_of fs file of Some f \<Rightarrow> tf_lines f | None \<Rightarrow> []) @ [line], tf_mtime = now\<rparr>)"
  by (simp add: append_line_def)

lemma size_append: "size_at (append_line now file line fs) p = (if p = file then size_at fs file + byteLength line else size_at fs p)"
  by (auto simp: size_at_def append_line_map file_size_def split: option.splits)

lemma rotate_inv:
  assumes "hex8 h" "writer_inv h (w, fs)" "is_transcript h (tw_rootDir w) file" "fa_renameOk fa"
  shows "writer_inv h (w\<lparr>tw_fileMeta := (tw_fileMeta w)(file := None)\<rparr>, rotate fa file fs)" and "map_of (rotate fa file fs) file = None"
proof -
  let ?new = "rotated_path (fa_now fa) file"
  have ne: "file \<noteq> ?new" using rotated_not_transcript[OF assms(1)] assms(3) by metis
  then show "map_of (rotate fa file fs) file = None" using assms(4) by (auto simp: rotate_def rename_file_def split: option.splits)
  have "distinct (map fst (rename_file file ?new fs))" using assms(2)
    by (auto simp: writer_inv_def rename_file_def del_assoc_def intro!: distinct_upd_assoc distinct_filter_keys split: option.splits)
  moreover have "map_of (rename_file file ?new fs) p = Some f \<Longrightarrow> \<exists>q. map_of fs q = Some f" for p f
    by (auto simp: rename_file_def split: option.splits if_splits)
  moreover have "is_transcript h (tw_rootDir w) p \<Longrightarrow> p \<noteq> file \<Longrightarrow> size_at (rename_file file ?new fs) p = size_at fs p" for p
    using rotated_not_transcript[OF assms(1)] by (auto simp: size_rename[OF ne])
  ultimately show "writer_inv h (w\<lparr>tw_fileMeta := (tw_fileMeta w)(file := None)\<rparr>, rotate fa file fs)"
    using assms(2,4) unfolding writer_inv_def rotate_def by (auto split: if_splits) blast+
qed

lemma byteLength_0 [simp]: "byteLength s = 0 \<longleftrightarrow> s = []"
  unfolding byteLength_def utf8_bytes_def of_nat_eq_0_iff length_0_conv concat_eq_Nil_conv by (cases s) auto

lemma size_at_nonneg: "0 \<le> size_at fs p"
  by (simp add: size_at_def split: option.splits)

lemma file_size_0: "file_size f = 0 \<Longrightarrow> filter (\<lambda>l. l \<noteq> []) (tf_lines f) = []"
proof -
  have "sum_list (map byteLength ls) = 0 \<Longrightarrow> filter (\<lambda>l. l \<noteq> []) ls = []" for ls
  proof (induction ls)
    case (Cons l ls)
    have "0 \<le> sum_list (map byteLength ls)" by (auto simp: byteLength_nonneg intro!: sum_list_nonneg)
    then show ?case using Cons byteLength_nonneg[of l] by (auto simp: add_nonneg_eq_0_iff)
  qed simp
  then show "file_size f = 0 \<Longrightarrow> filter (\<lambda>l. l \<noteq> []) (tf_lines f) = []" by (simp add: file_size_def)
qed

lemma append_inv:
  assumes "writer_inv h (w, fs)" "tw_fileMeta w file = None \<or> tw_fileMeta w file = Some sz" "size_at fs file \<le> sz" "0 \<le> sz"
    "sz + byteLength line \<le> tw_maxFileBytes w \<or> size_at fs file = 0"
  shows "writer_inv h (w\<lparr>tw_fileMeta := (tw_fileMeta w)(file \<mapsto> sz + byteLength line)\<rparr>, append_line now file line fs)"
proof -
  let ?f = "\<lparr>tf_lines = (case map_of fs file of Some f \<Rightarrow> tf_lines f | None \<Rightarrow> []) @ [line], tf_mtime = now\<rparr>"
  have size: "file_size ?f = size_at fs file + byteLength line" by (simp add: file_size_def size_at_def split: option.splits)
  have "file_ok (tw_maxFileBytes w) ?f"
  proof (cases "size_at fs file = 0")
    case True
    then have "filter (\<lambda>l. l \<noteq> []) (case map_of fs file of Some f \<Rightarrow> tf_lines f | None \<Rightarrow> []) = []"
      using file_size_0 by (simp add: size_at_def split: option.splits)
    then show ?thesis by (simp add: file_ok_def)
  next
    case False
    then show ?thesis using assms(3,5) size by (simp add: file_ok_def)
  qed
  moreover have "distinct (map fst (append_line now file line fs))" using assms(1)
    by (auto simp: writer_inv_def append_line_def intro: distinct_upd_assoc)
  ultimately show ?thesis using assms byteLength_nonneg[of line] unfolding writer_inv_def
    by (simp add: append_line_map size_append)
qed

lemma write_line_inv:
  assumes "hex8 h" "writer_inv h (w, fs)" "is_transcript h (tw_rootDir w) file" "fa_renameOk fa"
  shows "writer_inv h (write_line fa file line (w, fs))"
proof -
  obtain sz w1 where st: "statFile file (w, fs) = (sz, w1)" by (cases "statFile file (w, fs)")
  have "statFile file (w, fs) = (case tw_fileMeta w file of Some n \<Rightarrow> (n, w)
      | None \<Rightarrow> (size_at fs file, w\<lparr>tw_fileMeta := (tw_fileMeta w)(file \<mapsto> size_at fs file)\<rparr>))"
    by (simp add: statFile_def size_at_def Let_def split: option.split)
  then have sz: "size_at fs file \<le> sz" "0 \<le> sz" using st assms(2,3) size_at_nonneg[of fs "file"]
    by (auto simp: writer_inv_def split: option.splits)
  have w1: "tw_fileMeta w1 = (tw_fileMeta w)(file \<mapsto> sz)" "tw_maxFileBytes w1 = tw_maxFileBytes w" "tw_rootDir w1 = tw_rootDir w"
    using st by (auto simp: statFile_def Let_def fun_eq_iff split: option.splits)
  have inv1: "writer_inv h (w1, fs)" using assms(2) sz by (auto simp: writer_inv_def w1 split: if_splits)
  show ?thesis
  proof (cases "over_cap sz (byteLength line) w1")
    case True
    let ?w2 = "w1\<lparr>tw_fileMeta := (tw_fileMeta w1)(file := None)\<rparr>"
    have rot: "writer_inv h (?w2, rotate fa file fs)" "map_of (rotate fa file fs) file = None"
      using rotate_inv[OF assms(1) inv1 _ assms(4), of "file"] assms(3) w1(3) by simp_all
    then have "size_at (rotate fa file fs) file = 0" by (simp add: size_at_def)
    from append_inv[OF rot(1), of "file" sz line "fa_now fa"] this sz(2) rot(1) show ?thesis
      using True by (simp add: write_line_def st)
  next
    case False
    then have fits: "sz + byteLength line \<le> tw_maxFileBytes w1 \<or> size_at fs file = 0"
      using sz size_at_nonneg[of fs "file"] by (auto simp: over_cap_def)
    from append_inv[OF inv1, of "file" sz line "fa_now fa"] sz fits w1(1) inv1 show ?thesis
      using False by (simp add: write_line_def st)
  qed
qed

definition write_records :: "(string \<Rightarrow> string) \<Rightarrow> (fs_answers \<times> transcript_record) list \<Rightarrow> writer \<times> tfs \<Rightarrow> writer \<times> tfs" where
  "write_records h ws = fold (\<lambda>(fa, rec). write_record h fa rec) ws"

lemma write_record_inv:
  assumes "hex8 h" "writer_inv h s" "fa_renameOk fa"
  shows "writer_inv h (write_record h fa rec s)" and "tw_maxFileBytes (fst (write_record h fa rec s)) = tw_maxFileBytes (fst s)"
proof -
  obtain w fs where c: "cleanupOldFiles fa s = (w, fs)" by (cases "cleanupOldFiles fa s")
  have w: "tw_rootDir w = tw_rootDir (fst s)" "tw_maxFileBytes w = tw_maxFileBytes (fst s)"
    using cleanup_frame[of fa s] by (simp_all add: c)
  have "writer_inv h (w, fs)" using cleanup_inv[OF assms(2), of fa] c by simp
  then show "writer_inv h (write_record h fa rec s)"
    using write_line_inv[OF assms(1) _ _ assms(3)] by (simp add: write_record_def c is_transcript_def) blast
  show "tw_maxFileBytes (fst (write_record h fa rec s)) = tw_maxFileBytes (fst s)" by (simp add: write_record_def c w)
qed

text \<open>The size cap holds: whatever is written, by a new writer whose renames succeed, no file grows past
  the cap unless it holds a single record, rotated files included.\<close>

theorem transcript_files_capped:
  assumes "hex8 sha256_8" and "list_all (\<lambda>(fa, _). fa_renameOk fa) ws"
    and "write_records sha256_8 ws (createTranscriptWriter rd (Some cap) retention interval, []) = (w, fs)"
    and "map_of fs p = Some f"
  shows "sum_list (map byteLength (tf_lines f)) \<le> cap \<or> length (filter (\<lambda>l. l \<noteq> []) (tf_lines f)) \<le> 1"
proof -
  have "writer_inv sha256_8 s \<Longrightarrow> list_all (\<lambda>(fa, _). fa_renameOk fa) ws \<Longrightarrow>
      writer_inv sha256_8 (write_records sha256_8 ws s) \<and> tw_maxFileBytes (fst (write_records sha256_8 ws s)) = tw_maxFileBytes (fst s)" for s ws
  proof (induction ws arbitrary: s)
    case (Cons x ws)
    then show ?case using write_record_inv[OF assms(1) Cons.prems(1), of "fst x" "snd x"]
      by (cases x) (auto simp: write_records_def)
  qed (simp add: write_records_def)
  moreover have "writer_inv sha256_8 (createTranscriptWriter rd (Some cap) retention interval, [])"
    by (simp add: writer_inv_def createTranscriptWriter_def)
  ultimately have "writer_inv sha256_8 (w, fs)" "tw_maxFileBytes w = cap" using assms(2,3)
    by (metis, metis createTranscriptWriter_def fst_conv option.simps(5) writer.select_convs(2))
  then show ?thesis using assms(4) by (auto simp: writer_inv_def file_ok_def file_size_def)
qed

theorem transcript_files_capped_witness:
  "case write_records example_hash [(quiet_fs 0, \<lparr>tr_agentId = ''a'', tr_roomId = ''r'', tr_topicId = None, tr_json = ''1''\<rparr>),
       (quiet_fs 0, \<lparr>tr_agentId = ''a'', tr_roomId = ''r'', tr_topicId = None, tr_json = ''2''\<rparr>)]
     (createTranscriptWriter ''/d'' (Some 3) None None, []) of (w, fs) \<Rightarrow>
     map_of fs ''/d/a/transcripts/r/_default.jsonl'' = Some \<lparr>tf_lines = [[CHR ''2'', CHR 0x0A]], tf_mtime = 0\<rparr> \<and>
     (sum_list (map byteLength [[CHR ''2'', CHR 0x0A]]) \<le> 3 \<or> length (filter (\<lambda>l. l \<noteq> []) [[CHR ''2'', CHR 0x0A]]) \<le> 1)"
proof -
  let ?ws = "[(quiet_fs 0, \<lparr>tr_agentId = ''a'', tr_roomId = ''r'', tr_topicId = None, tr_json = ''1''\<rparr>),
       (quiet_fs 0, \<lparr>tr_agentId = ''a'', tr_roomId = ''r'', tr_topicId = None, tr_json = ''2''\<rparr>)]"
  let ?r = "write_records example_hash ?ws (createTranscriptWriter ''/d'' (Some 3) None None, [])"
  have f: "map_of (snd ?r) ''/d/a/transcripts/r/_default.jsonl'' = Some \<lparr>tf_lines = [[CHR ''2'', CHR 0x0A]], tf_mtime = 0\<rparr>"
    by code_simp
  have "list_all (\<lambda>(fa, _). fa_renameOk fa) ?ws" by (simp add: quiet_fs_def)
  from transcript_files_capped[OF hex8_example this prod.collapse[symmetric] f] f show ?thesis by (simp add: split_beta)
qed

end
