(* ===== verification/Dispatch.thy ===== *)
theory Dispatch
  imports Turn_Run Transcript Routing
begin

text \<open>
  \<open>Dispatcher.handle\<close> of \<open>dispatcher.ts\<close>: one inbound envelope from the pre-skip branches through deferral
  of file-only messages, composition, the attention gate and the circuit breaker to the turn queue, and
  its acknowledgement. The effects are listed in the order of the code. The channel, the observer, the
  composer and the gate are parameters; the answers of awaited calls come from the environment. The
  heartbeat of a queued response and the log lines are not modelled.
\<close>

section \<open>Effects and environment\<close>

record inbound_record =
  ir_turnId :: string
  ir_messageId :: string
  ir_sender :: sender_info
  ir_text :: string
  ir_rawBatchEntries :: "nat option"
  ir_trace :: "(string \<times> bool) option"
  ir_truncated :: bool

datatype dispatch_effect =
    DxAck
  | DxInbound inbound_record
  | DxDropped drop_record
  | DxObserve inbound_message
  | DxSkipped string
  | DxComposeFailed string string
  | DxReport string report_action "string list option" "report_outcome option" "response_reason option"
  | DxTurnError string error_phase string
  | DxSend string outbound
  | DxOutbound string delivery_status "string option"
  | DxRun queue_mode string gateway_route string inbound_message channel_adapter string "string list"

datatype gate_answer = GateThrew inbound_message | GateSays bool inbound_message

datatype report_point = RpRegister | RpIgnore | RpFinish | RpQueue

record dispatch_env =
  de_channels :: "string \<rightharpoonup> channel_adapter"
  de_config :: route_config
  de_managed :: "gateway_route list option"
  de_transcript :: bool
  de_turnId :: string
  de_compose :: "composer option"
  de_onInbound :: bool
  de_gate :: "(inbound_message \<Rightarrow> gate_answer) option"
  de_reportOk :: "report_point \<Rightarrow> bool"
  de_sendError :: "string option"
  de_turnOk :: bool
  de_now :: int

record inbound_envelope =
  ev_message :: inbound_message
  ev_ack :: bool

definition record_fx :: "dispatch_env \<Rightarrow> dispatch_effect \<Rightarrow> dispatch_effect list" where
  "record_fx env fx = (if de_transcript env then [fx] else [])"

text \<open>A failed acknowledgement is logged and nothing else.\<close>

definition safeAck :: "inbound_envelope \<Rightarrow> dispatch_effect list" where
  "safeAck ev = (if ev_ack ev then [DxAck] else [])"

definition emitInbound :: "dispatch_env \<Rightarrow> string \<Rightarrow> inbound_message \<Rightarrow> dispatch_effect list" where
  "emitInbound env turnId msg =
     (if \<not> de_transcript env then []
      else
        let (txt, cut) = truncateTextField (case m_text msg of Some t \<Rightarrow> t | None \<Rightarrow> []);
            batch = (case get_prop (m_raw msg) ''batch'' of JArr xs \<Rightarrow> Some (length xs) | _ \<Rightarrow> None)
        in [DxInbound \<lparr>ir_turnId = turnId, ir_messageId = m_id msg,
              ir_sender = (m_sender msg)\<lparr>s_name := (if truthy_str (s_name (m_sender msg)) then s_name (m_sender msg) else None)\<rparr>,
              ir_text = txt,
              ir_rawBatchEntries = (case batch of Some n \<Rightarrow> (if n > 1 then Some n else None) | None \<Rightarrow> None),
              ir_trace = (case m_trace msg of
                  Some t \<Rightarrow> (if t_id t \<noteq> [] then Some (t_id t, t_streamable t = Some True) else None) | None \<Rightarrow> None),
              ir_truncated = cut\<rparr>])"

definition observe :: "dispatch_env \<Rightarrow> inbound_message \<Rightarrow> dispatch_effect list" where
  "observe env msg = (if de_onInbound env then [DxObserve msg] else [])"

section \<open>Skipped turns\<close>

datatype skip_outcome = SkipIgnored | SkipFailed

text \<open>\<open>settleSkippedResponse\<close>: the reports of a turn that will not run, up to the first that fails.\<close>

definition settleSkippedResponse ::
  "dispatch_env \<Rightarrow> inbound_message \<Rightarrow> channel_adapter \<Rightarrow> string \<Rightarrow> skip_outcome \<Rightarrow> response_reason \<Rightarrow> dispatch_effect list \<times> bool" where
  "settleSkippedResponse env msg channel runId outcome reason =
     (let ids = responseInputIds msg;
          register = DxReport runId RaRegister (Some ids) None None;
          ignore = DxReport runId RaIgnore (Some ids) None (Some reason);
          finish = DxReport runId RaFinish None (Some (case outcome of SkipIgnored \<Rightarrow> OcUnconfirmed | SkipFailed \<Rightarrow> OcFailed)) (Some reason)
      in if \<not> ch_responseRun channel \<or> ids = [] then ([], True)
         else if \<not> de_reportOk env RpRegister then ([register], False)
         else if outcome = SkipIgnored \<and> \<not> de_reportOk env RpIgnore then ([register, ignore], False)
         else (register # (if outcome = SkipIgnored then [ignore] else []) @ [finish], de_reportOk env RpFinish))"

text \<open>\<open>Date.toISOString\<close> of a non-negative time before the year 10000.\<close>

definition iso_string :: "int \<Rightarrow> string" where
  "iso_string ms =
     (let (y, m, d) = civil (ms div 86400000); sec = ms div 1000
      in pad 4 y @ ''-'' @ pad 2 m @ ''-'' @ pad 2 d @ ''T'' @ pad 2 (sec div 3600 mod 24) @ '':'' @ pad 2 (sec div 60 mod 60) @ '':'' @
         pad 2 (sec mod 60) @ ''.'' @ pad 3 (ms mod 1000) @ ''Z'')"

definition skipRuntimeForAuthBreaker ::
  "dispatch_env \<Rightarrow> auth_failure \<Rightarrow> gateway_route \<Rightarrow> inbound_message \<Rightarrow> channel_adapter \<Rightarrow> string \<Rightarrow> dispatch_effect list" where
  "skipRuntimeForAuthBreaker env state route msg channel turnId =
     (let err = ''runtime authentication failed repeatedly; dispatch paused until '' @ iso_string (af_blockedUntil state);
          canText = (isOwnerChatRoom msg \<or> \<not> isBotCordChannel channel);
          canDiagnose = (canText \<or> isBotCordChannel channel);
          ob = \<lparr>ob_error = True,
                ob_text = (if looksLikeUsageLimit err then formatUsageLimitMessage err (r_runtime route)
                           else warning_sign @ '' Runtime error: '' @ truncate_text err 500),
                ob_attachments = [], ob_response = None, ob_errorRef = None, ob_replyTo = pickReplyToTarget msg\<rparr>
      in record_fx env (DxTurnError turnId EpRuntime err) @
         (if canDiagnose
          then DxSend turnId ob #
               record_fx env (DxOutbound turnId (if de_sendError env = None then DsDelivered else DsSendFailed) (de_sendError env))
          else []))"

section \<open>What is dispatched\<close>

record dispatch_plan =
  dp_msg :: inbound_message
  dp_turnId :: string
  dp_route :: gateway_route
  dp_channel :: channel_adapter
  dp_text :: string
  dp_merged :: "string list"
  dp_composeError :: "string option"

type_synonym deferred_table = "string \<rightharpoonup> buffered_entry list"

text \<open>A composed text replaces the text unless it is empty; an exception keeps the text.\<close>

definition compose_plan :: "dispatch_env \<Rightarrow> dispatch_plan \<Rightarrow> (string option \<Rightarrow> string option) \<Rightarrow> dispatch_plan" where
  "compose_plan env p on_success =
     (case de_compose env of
        None \<Rightarrow> p
      | Some compose \<Rightarrow>
          (case compose (dp_msg p) (userTurnContext (dp_msg p) (dp_route p) (dp_channel p)) of
             Inl err \<Rightarrow> p\<lparr>dp_composeError := Some err\<rparr>
           | Inr None \<Rightarrow> p
           | Inr (Some composed) \<Rightarrow>
               (if length composed > 0 then p\<lparr>dp_text := composed, dp_composeError := on_success (dp_composeError p)\<rparr> else p)))"

text \<open>The deferred files of the queue are prepended; their turns end as merged.\<close>

definition take_deferred ::
  "dispatch_env \<Rightarrow> string \<Rightarrow> gateway_route \<Rightarrow> inbound_message \<Rightarrow> channel_adapter \<Rightarrow> string \<Rightarrow> string \<Rightarrow> deferred_table \<Rightarrow>
   dispatch_plan \<times> dispatch_effect list \<times> deferred_table" where
  "take_deferred env queueKey route msg channel turnId raw table =
     (let (deferred, table') = takeDeferredMultimodal queueKey table;
          alone = \<lparr>dp_msg = msg, dp_turnId = turnId, dp_route = route, dp_channel = channel, dp_text = raw, dp_merged = [],
                   dp_composeError = None\<rparr>
      in if deferred = [] then (alone, [], table')
         else
           case mergeSerialBuffer (de_compose env)
                  (deferred @ [\<lparr>be_route = route, be_msg = msg, be_channel = channel, be_turnId = turnId\<rparr>]) of
             None \<Rightarrow> (alone, [], table')
           | Some m \<Rightarrow>
               (\<lparr>dp_msg = mg_msg m, dp_turnId = mg_turnId m, dp_route = mg_route m, dp_channel = mg_channel m, dp_text = mg_text m,
                 dp_merged = map be_turnId deferred, dp_composeError = None\<rparr>,
                concat (map (\<lambda>e. record_fx env (DxDropped (Dropped (be_turnId e) BatchMerged (Some (mg_turnId m))))) deferred),
                table'))"

definition plan_dispatch ::
  "dispatch_env \<Rightarrow> queue_mode \<Rightarrow> string \<Rightarrow> gateway_route \<Rightarrow> inbound_message \<Rightarrow> channel_adapter \<Rightarrow> string \<Rightarrow> string \<Rightarrow> deferred_table \<Rightarrow>
   dispatch_plan \<times> dispatch_effect list \<times> deferred_table" where
  "plan_dispatch env mode queueKey route msg channel turnId raw table =
     (let (p, fx, table') = take_deferred env queueKey route msg channel turnId raw table;
          p' = (if mode = CancelPrevious then compose_plan env p (\<lambda>e. e) else p)
      in (p', fx, table'))"

section \<open>The gate, the breaker and the queue\<close>

text \<open>The gate's answer and the message it may have marked as mentioning the agent; an exception wakes.\<close>

definition ask_gate :: "dispatch_env \<Rightarrow> inbound_message \<Rightarrow> bool \<times> inbound_message" where
  "ask_gate env msg =
     (case de_gate env of
        None \<Rightarrow> (True, msg)
      | Some gate \<Rightarrow> (case gate msg of GateThrew m \<Rightarrow> (True, m) | GateSays wake m \<Rightarrow> (wake, m)))"

definition run_queue :: "dispatch_env \<Rightarrow> inbound_envelope \<Rightarrow> queue_mode \<Rightarrow> string \<Rightarrow> dispatch_plan \<Rightarrow> dispatch_effect list \<times> bool" where
  "run_queue env ev mode queueKey p =
     (let ids = (if ch_responseRun (dp_channel p) then responseInputIds (dp_msg p) else []);
          queued = (if ids \<noteq> [] then [DxReport (dp_turnId p) RaQueue (Some ids) None None] else []);
          cleanup = (if ids \<noteq> [] then [DxReport (dp_turnId p) RaFinish None (Some OcInterrupted) (Some ReNotExecuted)] else [])
      in if ids \<noteq> [] \<and> \<not> de_reportOk env RpQueue then (queued, False)
         else
           (queued @ [DxRun mode queueKey (dp_route p) (dp_text p) (dp_msg p) (dp_channel p) (dp_turnId p) (dp_merged p)] @ cleanup @
              (if de_turnOk env then safeAck ev else []),
            de_turnOk env))"

text \<open>A direct message the gate found to mention the agent is composed again.\<close>

definition recompose :: "dispatch_env \<Rightarrow> queue_mode \<Rightarrow> dispatch_plan \<Rightarrow> inbound_message \<Rightarrow> dispatch_plan" where
  "recompose env mode p msg =
     (if mode = CancelPrevious \<and> m_mentioned msg = Some True \<and> m_mentioned (dp_msg p) \<noteq> Some True
      then compose_plan env (p\<lparr>dp_msg := msg\<rparr>) (\<lambda>_. None) else p\<lparr>dp_msg := msg\<rparr>)"

definition admit :: "dispatch_env \<Rightarrow> inbound_envelope \<Rightarrow> queue_mode \<Rightarrow> string \<Rightarrow> dispatch_plan \<Rightarrow> auth_table \<Rightarrow>
  dispatch_effect list \<times> bool \<times> auth_table" where
  "admit env ev mode queueKey p auth =
     (let (wake, msg) = ask_gate env (dp_msg p)
      in if \<not> wake then
           (let (fx, ok) = settleSkippedResponse env msg (dp_channel p) (dp_turnId p) SkipIgnored ReAttentionPolicy
            in (record_fx env (DxSkipped (dp_turnId p)) @ fx @ (if ok then safeAck ev else []), ok, auth))
         else
           let p2 = recompose env mode p msg;
               failed = (if truthy_str (dp_composeError p2)
                         then record_fx env (DxComposeFailed (dp_turnId p2) (the (dp_composeError p2))) else []);
               (blocked, auth') = openRuntimeAuthBreaker (de_now env) (dp_route p2) (dp_msg p2) auth
           in case blocked of
                Some state \<Rightarrow>
                  (failed @ fst (settleSkippedResponse env (dp_msg p2) (dp_channel p2) (dp_turnId p2) SkipFailed ReAuthUnavailable) @
                     skipRuntimeForAuthBreaker env state (dp_route p2) (dp_msg p2) (dp_channel p2) (dp_turnId p2) @ safeAck ev,
                   True, auth')
              | None \<Rightarrow> (let (fx, ok) = run_queue env ev mode queueKey p2 in (failed @ fx, ok, auth')))"

text \<open>The whole handler: effects, whether it returned, and the tables it leaves.\<close>

definition handle :: "dispatch_env \<Rightarrow> inbound_envelope \<Rightarrow> deferred_table \<Rightarrow> auth_table \<Rightarrow>
  dispatch_effect list \<times> bool \<times> deferred_table \<times> auth_table" where
  "handle env ev table auth =
     (let msg = ev_message ev
      in case de_channels env (m_channel msg) of
           None \<Rightarrow> (safeAck ev, True, table, auth)
         | Some channel \<Rightarrow>
             if s_id (m_sender msg) = m_accountId msg \<and> s_kind (m_sender msg) = SAgent then (safeAck ev, True, table, auth)
             else
               let route = resolveRoute msg (de_config env) (de_managed env);
                   mode = resolveQueueMode route (c_kind (m_conversation msg));
                   queueKey = buildQueueKey msg;
                   raw = raw_text msg;
                   turnId = de_turnId env
               in if raw = [] then (safeAck ev, True, table, auth)
                  else if isMultimodalOnlyMessage msg then
                    (let (drops, table') = deferMultimodal queueKey
                           \<lparr>be_route = route, be_msg = msg, be_channel = channel, be_turnId = turnId\<rparr> table
                     in (safeAck ev @ emitInbound env turnId msg @ concat (map (\<lambda>d. record_fx env (DxDropped d)) drops) @ observe env msg,
                         True, table', auth))
                  else
                    let (p, fx, table') = plan_dispatch env mode queueKey route msg channel turnId raw table;
                        (fx', ok, auth') = admit env ev mode queueKey p auth
                    in (fx @ emitInbound env turnId msg @ observe env msg @ fx', ok, table', auth'))"

section \<open>Acknowledgement\<close>

lemma record_fx_no_ack [simp]: "fx \<noteq> DxAck \<Longrightarrow> DxAck \<notin> set (record_fx env fx)"
  by (simp add: record_fx_def)

lemma no_ack [simp]:
  "DxAck \<notin> set (emitInbound env t msg)" "DxAck \<notin> set (observe env msg)"
  "DxAck \<notin> set (fst (settleSkippedResponse env msg ch t oc re))" "DxAck \<notin> set (skipRuntimeForAuthBreaker env s r msg ch t)"
  by (auto simp: emitInbound_def observe_def settleSkippedResponse_def skipRuntimeForAuthBreaker_def Let_def split_beta)

lemma plan_no_ack [simp]: "DxAck \<notin> set (fst (snd (plan_dispatch env mode q r msg ch t raw table)))"
  by (auto simp: plan_dispatch_def take_deferred_def Let_def split_beta record_fx_def split: option.splits)

lemma filter_ack: "DxAck \<notin> set fx \<Longrightarrow> filter ((=) DxAck) fx = []"
  by (auto simp: filter_empty_conv)

text \<open>What a suffix of the effects acknowledges.\<close>

definition acks :: "inbound_envelope \<Rightarrow> dispatch_effect list \<Rightarrow> bool \<Rightarrow> bool" where
  "acks ev fx ok \<longleftrightarrow> (\<exists>fx'. DxAck \<notin> set fx' \<and> fx = fx' @ (if ok then safeAck ev else []))"

lemma acks_prepend: "DxAck \<notin> set gx \<Longrightarrow> acks ev fx ok \<Longrightarrow> acks ev (gx @ fx) ok"
  unfolding acks_def by (metis Un_iff append.assoc set_append)

lemma acks_end: "DxAck \<notin> set fx \<Longrightarrow> acks ev (fx @ (if ok then safeAck ev else [])) ok"
  unfolding acks_def by blast

lemma acks_run_queue: "acks ev (fst (run_queue env ev mode q p)) (snd (run_queue env ev mode q p))"
  unfolding acks_def run_queue_def Let_def by (auto intro: exI[of _ "_ @ _ # _"] split: if_splits)

lemma acks_admit: "acks ev (fst (admit env ev mode q p auth)) (fst (snd (admit env ev mode q p auth)))"
proof (cases "fst (ask_gate env (dp_msg p))")
  case False
  let ?s = "settleSkippedResponse env (snd (ask_gate env (dp_msg p))) (dp_channel p) (dp_turnId p) SkipIgnored ReAttentionPolicy"
  have "acks ev ((record_fx env (DxSkipped (dp_turnId p)) @ fst ?s) @ (if snd ?s then safeAck ev else [])) (snd ?s)"
    by (rule acks_end) simp
  then show ?thesis using False by (simp add: admit_def Let_def split_beta)
next
  case True
  let ?p2 = "recompose env mode p (snd (ask_gate env (dp_msg p)))"
  let ?failed = "if truthy_str (dp_composeError ?p2) then record_fx env (DxComposeFailed (dp_turnId ?p2) (the (dp_composeError ?p2))) else []"
  have f: "DxAck \<notin> set ?failed" by simp
  have skip: "acks ev (gx @ fx @ hx @ safeAck ev) True" if "DxAck \<notin> set gx" "DxAck \<notin> set fx" "DxAck \<notin> set hx" for gx fx hx
    using acks_end[of "gx @ fx @ hx" ev True] that by simp
  have blocked: "acks ev (?failed @ fst (settleSkippedResponse env (dp_msg ?p2) (dp_channel ?p2) (dp_turnId ?p2) SkipFailed ReAuthUnavailable) @
       skipRuntimeForAuthBreaker env st (dp_route ?p2) (dp_msg ?p2) (dp_channel ?p2) (dp_turnId ?p2) @ safeAck ev) True" for st
    by (rule skip[OF f no_ack(3,4)])
  have runs: "acks ev (?failed @ fst (run_queue env ev mode q ?p2)) (snd (run_queue env ev mode q ?p2))"
    by (rule acks_prepend[OF f acks_run_queue])
  show ?thesis using True blocked runs
    by (cases "fst (openRuntimeAuthBreaker (de_now env) (dp_route ?p2) (dp_msg ?p2) auth)")
      (simp_all only: admit_def Let_def split_beta if_False option.case fst_conv snd_conv not_True_eq_False)
qed

text \<open>A message that reaches the queue or is turned away by the gate or the breaker.\<close>

definition conversational :: "dispatch_env \<Rightarrow> inbound_message \<Rightarrow> bool" where
  "conversational env msg \<longleftrightarrow> de_channels env (m_channel msg) \<noteq> None \<and>
     \<not> (s_id (m_sender msg) = m_accountId msg \<and> s_kind (m_sender msg) = SAgent) \<and> raw_text msg \<noteq> []"

definition msg_mode :: "dispatch_env \<Rightarrow> inbound_message \<Rightarrow> queue_mode" where
  "msg_mode env msg = resolveQueueMode (resolveRoute msg (de_config env) (de_managed env)) (c_kind (m_conversation msg))"

definition msg_plan :: "dispatch_env \<Rightarrow> inbound_message \<Rightarrow> deferred_table \<Rightarrow> dispatch_plan \<times> dispatch_effect list \<times> deferred_table" where
  "msg_plan env msg table =
     plan_dispatch env (msg_mode env msg) (buildQueueKey msg) (resolveRoute msg (de_config env) (de_managed env)) msg
       (the (de_channels env (m_channel msg))) (de_turnId env) (raw_text msg) table"

lemma handle_text:
  assumes "handle env ev table auth = (fx, ok, table', auth')" "conversational env (ev_message ev)" "\<not> isMultimodalOnlyMessage (ev_message ev)"
  obtains p gx hx where "msg_plan env (ev_message ev) table = (p, gx, table')"
    "admit env ev (msg_mode env (ev_message ev)) (buildQueueKey (ev_message ev)) p auth = (hx, ok, auth')"
    "fx = gx @ emitInbound env (de_turnId env) (ev_message ev) @ observe env (ev_message ev) @ hx"
proof -
  obtain p gx t where pl: "msg_plan env (ev_message ev) table = (p, gx, t)" by (cases "msg_plan env (ev_message ev) table")
  obtain hx o' a where ad: "admit env ev (msg_mode env (ev_message ev)) (buildQueueKey (ev_message ev)) p auth = (hx, o', a)"
    by (cases "admit env ev (msg_mode env (ev_message ev)) (buildQueueKey (ev_message ev)) p auth")
  have "handle env ev table auth = (gx @ emitInbound env (de_turnId env) (ev_message ev) @ observe env (ev_message ev) @ hx, o', t, a)"
    using assms(2,3) pl ad by (auto simp: handle_def conversational_def msg_plan_def msg_mode_def Let_def split: if_splits)
  with assms(1) pl ad show thesis by (intro that) auto
qed

lemma handle_skip:
  "\<not> conversational env (ev_message ev) \<Longrightarrow> handle env ev table auth = (safeAck ev, True, table, auth)"
  by (auto simp: handle_def conversational_def Let_def split: option.splits)

text \<open>C8: Every envelope the handler returns from is acknowledged exactly once; one it rejects is not
  acknowledged at all, so the hub delivers it again. Only the files of a message without text are
  acknowledged before they have been handled.\<close>

theorem envelope_acked_once:
  assumes "handle env ev table auth = (fx, ok, table', auth')"
  shows "filter ((=) DxAck) fx = (if ok \<and> ev_ack ev then [DxAck] else []) \<and>
    (ok \<and> ev_ack ev \<and> \<not> isMultimodalOnlyMessage (ev_message ev) \<longrightarrow> last fx = DxAck)"
proof -
  have end_ok: "filter ((=) DxAck) fx = (if ok \<and> ev_ack ev then [DxAck] else []) \<and> (ok \<and> ev_ack ev \<longrightarrow> last fx = DxAck)"
    if "acks ev fx ok" for fx ok
    using that by (auto simp: acks_def safeAck_def filter_ack split: if_splits)
  show ?thesis
  proof (cases "conversational env (ev_message ev)")
    case False
    then show ?thesis using assms end_ok[of "safeAck ev" True] acks_end[of "[]" ev True] by (simp add: handle_skip)
  next
    case conv: True
    show ?thesis
    proof (cases "isMultimodalOnlyMessage (ev_message ev)")
      case True
      then have "\<exists>gx. DxAck \<notin> set gx \<and> fx = safeAck ev @ gx \<and> ok"
        using assms conv by (auto simp: conversational_def handle_def Let_def split_beta record_fx_def)
      then show ?thesis using True by (auto simp: safeAck_def filter_ack)
    next
      case False
      from handle_text[OF assms conv False] obtain p gx hx where h: "msg_plan env (ev_message ev) table = (p, gx, table')"
        "admit env ev (msg_mode env (ev_message ev)) (buildQueueKey (ev_message ev)) p auth = (hx, ok, auth')"
        "fx = gx @ emitInbound env (de_turnId env) (ev_message ev) @ observe env (ev_message ev) @ hx" .
      have "DxAck \<notin> set gx" using plan_no_ack h(1) unfolding msg_plan_def by (metis fst_conv snd_conv)
      moreover have "acks ev hx ok" using acks_admit h(2) by (metis fst_conv snd_conv)
      ultimately have "acks ev fx ok" unfolding h(3) by (simp add: acks_prepend)
      then show ?thesis using end_ok by blast
    qed
  qed
qed

definition echo_msg :: inbound_message where
  "echo_msg = example_msg\<lparr>m_text := Some ''hi'', m_raw := JObj [], m_sender := (m_sender example_msg)\<lparr>s_kind := SUser\<rparr>\<rparr>"

definition gateway_env :: dispatch_env where
  "gateway_env = \<lparr>de_channels = (\<lambda>_. Some example_channel), de_config = \<lparr>defaultRoute = plain_route ''codex'', routes = []\<rparr>,
     de_managed = None, de_transcript = True, de_turnId = ''t1'', de_compose = None, de_onInbound = False, de_gate = None,
     de_reportOk = (\<lambda>_. True), de_sendError = None, de_turnOk = True, de_now = 0\<rparr>"

lemma echo_plain:
  "\<not> isMultimodalOnlyMessage \<lparr>m_id = i, m_channel = c, m_accountId = a, m_conversation = cv, m_sender = se, m_text = t, m_raw = JObj [],
     m_replyTo = r, m_mentioned = me, m_receivedAt = ra, m_trace = tr\<rparr>"
  "\<not> isMultimodalOnlyMessage echo_msg"
  by (simp_all add: isMultimodalOnlyMessage_def echo_msg_def example_msg_def hasMultimodalContent.simps multimodal_single_def)

theorem envelope_acked_once_witness:
  "case handle gateway_env \<lparr>ev_message = echo_msg, ev_ack = True\<rparr> Map.empty Map.empty of (fx, ok, _, _) \<Rightarrow>
     filter ((=) DxAck) fx = [DxAck] \<and> last fx = DxAck"
proof -
  obtain fx ok t a where h: "handle gateway_env \<lparr>ev_message = echo_msg, ev_ack = True\<rparr> Map.empty Map.empty = (fx, ok, t, a)"
    by (cases "handle gateway_env \<lparr>ev_message = echo_msg, ev_ack = True\<rparr> Map.empty Map.empty")
  have "fst (snd (handle gateway_env \<lparr>ev_message = echo_msg, ev_ack = True\<rparr> Map.empty Map.empty))"
    using echo_plain by (simp add: handle_def gateway_env_def echo_msg_def example_msg_def raw_text_def Let_def
        plan_dispatch_def take_deferred_def takeDeferredMultimodal_def resolveRoute_def resolveQueueMode_def plain_route_def
        admit_def ask_gate_def recompose_def openRuntimeAuthBreaker_def run_queue_def example_channel_def compose_plan_def split_beta)
  then have "ok" using h by simp
  with envelope_acked_once[OF h] echo_plain(2) show ?thesis by (simp add: h)
qed

section \<open>Which messages start a turn\<close>

fun is_turn :: "dispatch_effect \<Rightarrow> bool" where
  "is_turn (DxRun _ _ _ _ _ _ _ _) = True"
| "is_turn _ = False"

fun is_drop :: "dispatch_effect \<Rightarrow> bool" where
  "is_drop (DxDropped _) = True"
| "is_drop _ = False"

lemma quiet_effects [simp]:
  "filter is_turn (record_fx env fx) = (if is_turn fx \<and> de_transcript env then [fx] else [])"
  "filter is_drop (record_fx env fx) = (if is_drop fx \<and> de_transcript env then [fx] else [])"
  "filter is_turn (safeAck ev) = []" "filter is_drop (safeAck ev) = []" "filter is_turn (emitInbound env t msg) = []"
  "filter is_drop (emitInbound env t msg) = []" "filter is_turn (observe env msg) = []" "filter is_drop (observe env msg) = []"
  "filter is_turn (fst (settleSkippedResponse env msg ch t oc re)) = []" "filter is_drop (fst (settleSkippedResponse env msg ch t oc re)) = []"
  "filter is_turn (skipRuntimeForAuthBreaker env s r msg ch t) = []" "filter is_drop (skipRuntimeForAuthBreaker env s r msg ch t) = []"
  by (auto simp: record_fx_def safeAck_def emitInbound_def observe_def settleSkippedResponse_def skipRuntimeForAuthBreaker_def Let_def split_beta)

lemma filter_concat_empty: "(\<And>x. x \<in> set xs \<Longrightarrow> filter P (f x) = []) \<Longrightarrow> filter P (concat (map f xs)) = []"
  by (induction xs) auto

lemma plan_no_turn: "filter is_turn (fst (snd (msg_plan env msg table))) = []"
  by (auto simp: msg_plan_def plan_dispatch_def take_deferred_def Let_def split_beta intro!: filter_concat_empty split: option.splits)

definition queue_ids :: "dispatch_plan \<Rightarrow> string list" where
  "queue_ids p = (if ch_responseRun (dp_channel p) then responseInputIds (dp_msg p) else [])"

definition turn_of :: "queue_mode \<Rightarrow> string \<Rightarrow> dispatch_plan \<Rightarrow> dispatch_effect" where
  "turn_of mode q p = DxRun mode q (dp_route p) (dp_text p) (dp_msg p) (dp_channel p) (dp_turnId p) (dp_merged p)"

lemma queue_turns:
  "filter is_turn (fst (run_queue env ev mode q p)) = (if queue_ids p = [] \<or> de_reportOk env RpQueue then [turn_of mode q p] else [])"
  "filter is_drop (fst (run_queue env ev mode q p)) = []"
  by (auto simp: run_queue_def queue_ids_def turn_of_def Let_def)

lemma admit_turns:
  "filter is_turn (fst (admit env ev mode q p auth)) =
     (let p' = recompose env mode p (snd (ask_gate env (dp_msg p)))
      in if fst (ask_gate env (dp_msg p)) \<and> fst (openRuntimeAuthBreaker (de_now env) (dp_route p') (dp_msg p') auth) = None \<and>
            (queue_ids p' = [] \<or> de_reportOk env RpQueue)
         then [turn_of mode q p'] else [])"
  "filter is_drop (fst (admit env ev mode q p auth)) = []"
  by (auto simp: admit_def Let_def split_beta queue_turns split: option.splits)

lemma handle_turns:
  "filter is_turn (fst (handle env ev table auth)) =
     (let msg = ev_message ev; mode = msg_mode env msg; p = fst (msg_plan env msg table);
          p' = recompose env mode p (snd (ask_gate env (dp_msg p)))
      in if conversational env msg \<and> \<not> isMultimodalOnlyMessage msg \<and> fst (ask_gate env (dp_msg p)) \<and>
            fst (openRuntimeAuthBreaker (de_now env) (dp_route p') (dp_msg p') auth) = None \<and>
            (queue_ids p' = [] \<or> de_reportOk env RpQueue)
         then [turn_of mode (buildQueueKey msg) p'] else [])"
proof (cases "conversational env (ev_message ev)")
  case False
  then show ?thesis by (simp add: handle_skip Let_def)
next
  case conv: True
  obtain fx ok t a where h: "handle env ev table auth = (fx, ok, t, a)" by (cases "handle env ev table auth")
  show ?thesis
  proof (cases "isMultimodalOnlyMessage (ev_message ev)")
    case True
    then show ?thesis using conv
      by (auto simp: conversational_def handle_def Let_def split_beta intro!: filter_concat_empty)
  next
    case False
    from handle_text[OF h conv False] obtain p gx hx where parts: "msg_plan env (ev_message ev) table = (p, gx, t)"
      "admit env ev (msg_mode env (ev_message ev)) (buildQueueKey (ev_message ev)) p auth = (hx, ok, a)"
      "fx = gx @ emitInbound env (de_turnId env) (ev_message ev) @ observe env (ev_message ev) @ hx" .
    have "filter is_turn gx = []" using plan_no_turn[of env "ev_message ev" table] parts(1) by simp
    then show ?thesis using admit_turns(1)[of env ev "msg_mode env (ev_message ev)" "buildQueueKey (ev_message ev)" p auth] parts conv False
      by (simp add: h Let_def)
  qed
qed


section \<open>Files wait for the next text\<close>

text \<open>The buffered form of a message that reaches the dispatcher.\<close>

definition arriving :: "dispatch_env \<Rightarrow> inbound_message \<Rightarrow> buffered_entry" where
  "arriving env msg = \<lparr>be_route = resolveRoute msg (de_config env) (de_managed env), be_msg = msg,
     be_channel = the (de_channels env (m_channel msg)), be_turnId = de_turnId env\<rparr>"

lemma compose_plan_frame [simp]:
  "dp_msg (compose_plan env p f) = dp_msg p" "dp_merged (compose_plan env p f) = dp_merged p" "dp_turnId (compose_plan env p f) = dp_turnId p"
  by (auto simp: compose_plan_def split: option.splits sum.splits)

lemma recompose_frame [simp]:
  "dp_msg (recompose env mode p msg) = msg" "dp_merged (recompose env mode p msg) = dp_merged p" "dp_turnId (recompose env mode p msg) = dp_turnId p"
  by (simp_all add: recompose_def)

lemma msg_plan_deferred:
  assumes "table (buildQueueKey msg) = Some es" "es \<noteq> []"
  shows "dp_msg (fst (msg_plan env msg table)) = merged_msg (es @ [arriving env msg])"
    and "dp_merged (fst (msg_plan env msg table)) = map be_turnId es" and "dp_turnId (fst (msg_plan env msg table)) = de_turnId env"
    and "filter is_drop (fst (snd (msg_plan env msg table))) =
      (if de_transcript env then map (\<lambda>e. DxDropped (Dropped (be_turnId e) BatchMerged (Some (de_turnId env)))) es else [])"
    and "snd (snd (msg_plan env msg table)) = table(buildQueueKey msg := None)"
proof -
  obtain e es' where es: "es = e # es'" using assms(2) by (cases es) auto
  have merge: "mergeSerialBuffer c (es @ [arriving env msg]) = Some \<lparr>mg_route = be_route (arriving env msg),
      mg_text = recomposeUserTurn c (merged_msg (es @ [arriving env msg])) (be_route (arriving env msg)) (be_channel (arriving env msg)),
      mg_msg = merged_msg (es @ [arriving env msg]), mg_channel = be_channel (arriving env msg), mg_turnId = de_turnId env\<rparr>" for c
    by (cases es') (auto simp: es mergeSerialBuffer_def Let_def arriving_def)
  have conc: "filter is_drop (concat (map (\<lambda>e. record_fx env (DxDropped (d e))) xs)) = (if de_transcript env then map (\<lambda>e. DxDropped (d e)) xs else [])"
    for d :: "buffered_entry \<Rightarrow> drop_record" and xs by (induction xs) (auto simp: record_fx_def)
  show "dp_msg (fst (msg_plan env msg table)) = merged_msg (es @ [arriving env msg])"
    "dp_merged (fst (msg_plan env msg table)) = map be_turnId es" "dp_turnId (fst (msg_plan env msg table)) = de_turnId env"
    "filter is_drop (fst (snd (msg_plan env msg table))) =
      (if de_transcript env then map (\<lambda>e. DxDropped (Dropped (be_turnId e) BatchMerged (Some (de_turnId env)))) es else [])"
    "snd (snd (msg_plan env msg table)) = table(buildQueueKey msg := None)"
    using assms merge[of "de_compose env"] conc
    by (simp_all add: msg_plan_def plan_dispatch_def take_deferred_def takeDeferredMultimodal_def arriving_def[symmetric] Let_def)
qed

text \<open>Files sent without text reach the next text message of their queue: the gate sees and the turn runs on
  the merge of all of them, in order, the turn names them, and each file's own turn ends with exactly one
  record saying which turn it went into.\<close>

theorem deferred_files_join_next_turn:
  assumes "conversational env (ev_message ev)" and "\<not> isMultimodalOnlyMessage (ev_message ev)"
    and "table (buildQueueKey (ev_message ev)) = Some es" and "es \<noteq> []"
    and "handle env ev table auth = (fx, ok, table', auth')"
  shows "list_all (\<lambda>x. case x of DxRun _ _ _ _ m _ _ merged \<Rightarrow>
        m = snd (ask_gate env (merged_msg (es @ [arriving env (ev_message ev)]))) \<and> merged = map be_turnId es | _ \<Rightarrow> True) fx \<and>
    filter is_drop fx = (if de_transcript env then map (\<lambda>e. DxDropped (Dropped (be_turnId e) BatchMerged (Some (de_turnId env)))) es else []) \<and>
    table' = table(buildQueueKey (ev_message ev) := None)"
proof -
  let ?p = "fst (msg_plan env (ev_message ev) table)"
  note plan = msg_plan_deferred[of table "ev_message ev" es env, OF assms(3,4)]
  from handle_text[OF assms(5,1,2)] obtain p gx hx where parts: "msg_plan env (ev_message ev) table = (p, gx, table')"
    "admit env ev (msg_mode env (ev_message ev)) (buildQueueKey (ev_message ev)) p auth = (hx, ok, auth')"
    "fx = gx @ emitInbound env (de_turnId env) (ev_message ev) @ observe env (ev_message ev) @ hx" .
  have "set (filter is_turn fx) \<subseteq> {turn_of (msg_mode env (ev_message ev)) (buildQueueKey (ev_message ev))
      (recompose env (msg_mode env (ev_message ev)) ?p (snd (ask_gate env (dp_msg ?p))))}"
    using handle_turns[of env ev table auth] assms(5) by (auto simp: Let_def split: if_splits)
  then have "x \<in> set fx \<Longrightarrow> is_turn x \<Longrightarrow> x = turn_of (msg_mode env (ev_message ev)) (buildQueueKey (ev_message ev))
      (recompose env (msg_mode env (ev_message ev)) ?p (snd (ask_gate env (dp_msg ?p))))" for x by auto
  then have "list_all (\<lambda>x. case x of DxRun _ _ _ _ m _ _ merged \<Rightarrow>
      m = snd (ask_gate env (merged_msg (es @ [arriving env (ev_message ev)]))) \<and> merged = map be_turnId es | _ \<Rightarrow> True) fx"
    using plan(1,2) by (fastforce simp: list_all_iff turn_of_def split: dispatch_effect.split)
  moreover have "filter is_drop fx = filter is_drop gx"
    using parts(2,3) admit_turns(2)[of env ev "msg_mode env (ev_message ev)" "buildQueueKey (ev_message ev)" p auth] by simp
  ultimately show ?thesis using plan(4,5) parts(1) by simp
qed

text \<open>An envelope the handler rejects is delivered again, but the files that were waiting for it are gone: the
  second delivery of the text finds none, although they were acknowledged when they came.\<close>

theorem rejected_text_loses_files:
  assumes "handle env ev table auth = (fx, False, table', auth')"
  shows "takeDeferredMultimodal (buildQueueKey (ev_message ev)) table' = ([], table')"
proof -
  have conv: "conversational env (ev_message ev)" using assms handle_skip by fastforce
  have "\<not> isMultimodalOnlyMessage (ev_message ev)" using assms conv by (auto simp: handle_def conversational_def Let_def split_beta split: option.splits)
  from handle_text[OF assms conv this] obtain p gx where "msg_plan env (ev_message ev) table = (p, gx, table')" by metis
  then show ?thesis
    by (auto simp: msg_plan_def plan_dispatch_def take_deferred_def takeDeferredMultimodal_def Let_def split_beta split: option.splits if_splits)
qed

definition waiting :: deferred_table where
  "waiting = [buildQueueKey echo_msg \<mapsto> [arriving gateway_env echo_msg]]"

lemma gateway_conversational: "conversational gateway_env echo_msg" "conversational (gateway_env\<lparr>de_turnOk := b\<rparr>) echo_msg"
  by (simp_all add: conversational_def gateway_env_def echo_msg_def example_msg_def raw_text_def, simp_all add: trim_def is_ws_def)

theorem deferred_files_join_next_turn_witness:
  "case handle gateway_env \<lparr>ev_message = echo_msg, ev_ack = True\<rparr> waiting Map.empty of (fx, ok, table', auth') \<Rightarrow>
     filter is_drop fx = [DxDropped (Dropped ''t1'' BatchMerged (Some ''t1''))] \<and> table' = Map.empty"
proof -
  obtain fx ok t a where h: "handle gateway_env \<lparr>ev_message = echo_msg, ev_ack = True\<rparr> waiting Map.empty = (fx, ok, t, a)"
    by (cases "handle gateway_env \<lparr>ev_message = echo_msg, ev_ack = True\<rparr> waiting Map.empty")
  have "de_transcript gateway_env" "de_turnId gateway_env = ''t1''" "be_turnId (arriving gateway_env echo_msg) = ''t1''"
    by (simp_all add: gateway_env_def arriving_def)
  with deferred_files_join_next_turn[OF _ _ _ _ h, of "[arriving gateway_env echo_msg]"] gateway_conversational(1) echo_plain(2)
  show ?thesis unfolding h by (simp add: waiting_def)
qed

theorem rejected_text_loses_files_witness:
  "case handle (gateway_env\<lparr>de_turnOk := False\<rparr>) \<lparr>ev_message = echo_msg, ev_ack = True\<rparr> waiting Map.empty of (fx, ok, table', auth') \<Rightarrow>
     \<not> ok \<and> fst (takeDeferredMultimodal (buildQueueKey echo_msg) waiting) \<noteq> [] \<and>
     fst (takeDeferredMultimodal (buildQueueKey echo_msg) table') = []"
proof -
  let ?env = "gateway_env\<lparr>de_turnOk := False\<rparr>"
  obtain fx ok t a where h: "handle ?env \<lparr>ev_message = echo_msg, ev_ack = True\<rparr> waiting Map.empty = (fx, ok, t, a)"
    by (cases "handle ?env \<lparr>ev_message = echo_msg, ev_ack = True\<rparr> waiting Map.empty")
  have quiet: "snd (run_queue ?env ev mode q p) = False" for ev mode q p by (simp add: run_queue_def gateway_env_def Let_def)
  have gate: "ask_gate ?env m = (True, m)" for m by (simp add: ask_gate_def gateway_env_def)
  have "fst (snd (admit ?env ev mode q p Map.empty)) = False" for ev mode q p
    by (simp add: admit_def gate quiet openRuntimeAuthBreaker_def Let_def split_beta)
  moreover obtain p hx where "admit ?env \<lparr>ev_message = echo_msg, ev_ack = True\<rparr> (msg_mode ?env echo_msg) (buildQueueKey echo_msg) p Map.empty = (hx, ok, a)"
    by (rule handle_text[OF h, unfolded inbound_envelope.select_convs, OF gateway_conversational(2) echo_plain(2)]) blast
  ultimately have "\<not> ok" by (metis fst_conv snd_conv)
  with h have "handle ?env \<lparr>ev_message = echo_msg, ev_ack = True\<rparr> waiting Map.empty = (fx, False, t, a)" by simp
  from rejected_text_loses_files[OF this] \<open>\<not> ok\<close> show ?thesis unfolding h by (simp add: waiting_def takeDeferredMultimodal_def)
qed

end
