(* ===== verification/Ingress.thy ===== *)
theory Ingress
  imports Gateway_Types Event_Machine Session_Store "HOL-Library.Word"
begin

text \<open>
  The cloud ingress of \<open>gateway-ingress\<close>: the file-backed event store (\<open>storage/store.ts\<close>), the orchestrator that
  takes events from provider adapters through the hub to a runtime session and sends replies back
  (\<open>orchestrator.ts\<close>), and the session manager it sends through (\<open>runtime/session.ts\<close>).

  Every \<open>await\<close> of the orchestrator ends a step: a dispatch in progress is a thread holding the event it
  read and the point it waits at, a reply in progress is a pending send. A run is a list of inputs
  (provider events, answers of the hub, of the runtime session and of the provider adapter, frames from the
  runtime, timer ticks) in any order. Event and delivery identifiers are drawn by the environment.
\<close>

unbundle bit_operations_syntax

section \<open>Rows\<close>

datatype event_status = EvReceived | EvQueued | EvDelivering | EvDelivered | EvFailed | EvDeadLetter

record gateway_connection =
  gc_id :: string
  gc_agentId :: string
  gc_provider :: string

record ingress_event =
  ie_eventId :: string
  ie_gatewayId :: string
  ie_agentId :: string
  ie_provider :: string
  ie_providerEventId :: string
  ie_message :: inbound_message
  ie_status :: event_status
  ie_attemptCount :: int
  ie_nextAttemptAt :: "int option"
  ie_lastError :: "string option"
  ie_createdAt :: int
  ie_updatedAt :: int

datatype ingress_delivery_status = DvStreaming | DvSent | DvFailed

record ingress_delivery =
  dv_deliveryId :: string
  dv_eventId :: string
  dv_gatewayId :: string
  dv_conversationId :: string
  dv_turnId :: string
  dv_status :: ingress_delivery_status
  dv_textHash :: "string option"
  dv_providerMessageId :: "string option"
  dv_lastError :: "string option"
  dv_createdAt :: int

definition isTerminalDeliveryStatus :: "ingress_delivery_status \<Rightarrow> bool" where
  "isTerminalDeliveryStatus s \<longleftrightarrow> s = DvSent \<or> s = DvFailed"

definition terminal :: "event_status \<Rightarrow> bool" where
  "terminal s \<longleftrightarrow> s = EvDelivered \<or> s = EvFailed \<or> s = EvDeadLetter"

section \<open>The store\<close>

record ingress_store =
  st_connections :: "string \<rightharpoonup> gateway_connection"
  st_dedupe :: "string \<rightharpoonup> string list"
  st_events :: "(string \<times> ingress_event) list"
  st_deliveries :: "(string \<times> ingress_delivery) list"

definition listEventsByStatus :: "event_status list \<Rightarrow> ingress_store \<Rightarrow> ingress_event list" where
  "listEventsByStatus statuses s =
     sort_key ie_createdAt (filter (\<lambda>e. statuses = [] \<or> ie_status e \<in> set statuses) (map snd (st_events s)))"

definition getEvent :: "string \<Rightarrow> ingress_store \<Rightarrow> ingress_event option" where
  "getEvent eventId s = map_of (st_events s) eventId"

text \<open>\<open>insertEvent\<close> raises when the identifier is taken.\<close>

definition insertEvent :: "ingress_event \<Rightarrow> ingress_store \<Rightarrow> ingress_store option" where
  "insertEvent e s =
     (if getEvent (ie_eventId e) s \<noteq> None then None else Some (s\<lparr>st_events := upd_assoc (st_events s) (ie_eventId e) e\<rparr>))"

text \<open>\<open>updateEvent\<close> with the patch as a function; an unknown event raises and nothing changes.\<close>

definition updateEvent :: "int \<Rightarrow> string \<Rightarrow> (ingress_event \<Rightarrow> ingress_event) \<Rightarrow> ingress_store \<Rightarrow> ingress_store" where
  "updateEvent now eventId patch s =
     (case getEvent eventId s of
        None \<Rightarrow> s
      | Some e \<Rightarrow> s\<lparr>st_events := upd_assoc (st_events s) eventId ((patch e)\<lparr>ie_eventId := eventId, ie_updatedAt := now\<rparr>)\<rparr>)"

definition DEFAULT_DEDUPE_CAPACITY :: nat where
  "DEFAULT_DEDUPE_CAPACITY = 1024"

definition appendDedupe :: "string \<Rightarrow> string \<Rightarrow> nat \<Rightarrow> ingress_store \<Rightarrow> bool \<times> ingress_store" where
  "appendDedupe gatewayId providerEventId capacity s =
     (let dedupe = (case st_dedupe s gatewayId of Some d \<Rightarrow> d | None \<Rightarrow> [])
      in if providerEventId \<in> set dedupe then (False, s)
         else (True, s\<lparr>st_dedupe := (st_dedupe s)(gatewayId \<mapsto> snd (shift_to_cap capacity (dedupe @ [providerEventId])))\<rparr>))"

definition hasProviderEventId :: "string \<Rightarrow> string \<Rightarrow> ingress_store \<Rightarrow> bool" where
  "hasProviderEventId gatewayId providerEventId s \<longleftrightarrow>
     (case st_dedupe s gatewayId of Some d \<Rightarrow> providerEventId \<in> set d | None \<Rightarrow> False) \<or>
     (\<exists>e \<in> set (listEventsByStatus [] s). ie_gatewayId e = gatewayId \<and> ie_providerEventId e = providerEventId)"

definition listDeliveries :: "ingress_store \<Rightarrow> ingress_delivery list" where
  "listDeliveries s = sort_key dv_createdAt (map snd (st_deliveries s))"

definition getDeliveryByEvent :: "string \<Rightarrow> ingress_store \<Rightarrow> ingress_delivery option" where
  "getDeliveryByEvent eventId s = find (\<lambda>d. dv_eventId d = eventId) (listDeliveries s)"

definition insertDelivery :: "ingress_delivery \<Rightarrow> ingress_store \<Rightarrow> ingress_store" where
  "insertDelivery d s = s\<lparr>st_deliveries := upd_assoc (st_deliveries s) (dv_deliveryId d) d\<rparr>"

definition updateDelivery :: "string \<Rightarrow> (ingress_delivery \<Rightarrow> ingress_delivery) \<Rightarrow> ingress_store \<Rightarrow> ingress_store" where
  "updateDelivery deliveryId patch s =
     (case map_of (st_deliveries s) deliveryId of
        None \<Rightarrow> s
      | Some d \<Rightarrow> s\<lparr>st_deliveries := upd_assoc (st_deliveries s) deliveryId ((patch d)\<lparr>dv_deliveryId := deliveryId\<rparr>)\<rparr>)"

section \<open>Text hashes\<close>

text \<open>\<open>h << 5\<close> and \<open>^\<close> work on 32-bit integers; the sum in between is exact, so its 32-bit value wraps.\<close>

definition hash_step :: "32 word \<Rightarrow> char \<Rightarrow> 32 word" where
  "hash_step h c = (push_bit 5 h + h) XOR of_nat (of_char c)"

definition base36_digit :: "nat \<Rightarrow> char" where
  "base36_digit d = ''0123456789abcdefghijklmnopqrstuvwxyz'' ! d"

fun base36 :: "nat \<Rightarrow> string" where
  "base36 n = (if n < 36 then [base36_digit n] else base36 (n div 36) @ [base36_digit (n mod 36)])"

definition hashText :: "string \<Rightarrow> string" where
  "hashText t = base36 (unat (foldl hash_step 5381 t))"

section \<open>The orchestrator\<close>

record orchestrator_config =
  oc_dedupeCapacity :: nat
  oc_retryBaseDelayMs :: int
  oc_retryMaxDelayMs :: int

definition DEFAULT_RETRY_BASE_DELAY_MS :: int where
  "DEFAULT_RETRY_BASE_DELAY_MS = 1000"

definition DEFAULT_RETRY_MAX_DELAY_MS :: int where
  "DEFAULT_RETRY_MAX_DELAY_MS = 30000"

definition retryDelayMs :: "orchestrator_config \<Rightarrow> int \<Rightarrow> int" where
  "retryDelayMs cfg attemptCount =
     (let exponent = max 0 (min (attemptCount - 1) 8)
      in min (oc_retryMaxDelayMs cfg) (oc_retryBaseDelayMs cfg * 2 ^ nat exponent))"

text \<open>Where a dispatch waits, and the event it read.\<close>

datatype wait_point = WaitPoll | WaitEnsure | WaitShared | WaitPollShared | WaitSession | WaitSend

record thread =
  th_wait :: wait_point
  th_event :: ingress_event
  th_connection :: gateway_connection

text \<open>A provider send in progress: the event and the delivery it completes.\<close>

record pending_send =
  ps_eventId :: string
  ps_deliveryId :: string
  ps_text :: string

datatype ingress_output =
    OutInbound string string string
  | OutEnsure string
  | OutPoll string
  | OutProviderSend string string

record ingress =
  ig_store :: ingress_store
  ig_dispatching :: "string list"
  ig_threads :: "(string \<times> thread) list"
  ig_completing :: "string list"
  ig_sends :: "(string \<times> pending_send) list"
  ig_ensuring :: "string list"
  ig_providers :: "string list"
  ig_out :: "ingress_output list"

definition emit_out :: "ingress_output \<Rightarrow> ingress \<Rightarrow> ingress" where
  "emit_out x g = g\<lparr>ig_out := ig_out g @ [x]\<rparr>"

definition requeueEvent :: "orchestrator_config \<Rightarrow> int \<Rightarrow> ingress_event \<Rightarrow> string \<Rightarrow> ingress_store \<Rightarrow> ingress_store" where
  "requeueEvent cfg now event lastError s =
     (let attemptCount = ie_attemptCount event + 1
      in updateEvent now (ie_eventId event)
           (\<lambda>e. e\<lparr>ie_status := EvQueued, ie_attemptCount := attemptCount,
                   ie_nextAttemptAt := Some (now + retryDelayMs cfg attemptCount), ie_lastError := Some lastError\<rparr>) s)"

definition failEvent :: "int \<Rightarrow> string \<Rightarrow> string \<Rightarrow> ingress_store \<Rightarrow> ingress_store" where
  "failEvent now eventId lastError s =
     updateEvent now eventId (\<lambda>e. e\<lparr>ie_status := EvFailed, ie_nextAttemptAt := None, ie_lastError := Some lastError\<rparr>) s"

definition provisioning :: "ingress_event \<Rightarrow> bool" where
  "provisioning e \<longleftrightarrow> (case ie_lastError e of Some x \<Rightarrow> startsWith x ''hub_status_provisioning'' | None \<Rightarrow> False)"

definition shouldPollRuntimeFirst :: "ingress_event \<Rightarrow> ingress_store \<Rightarrow> bool" where
  "shouldPollRuntimeFirst event s \<longleftrightarrow> provisioning event \<or>
     (\<exists>o' \<in> set (listEventsByStatus [EvQueued, EvDelivering] s).
        ie_eventId o' \<noteq> ie_eventId event \<and> ie_agentId o' = ie_agentId event \<and> provisioning o')"

text \<open>The end of a dispatch releases its lock.\<close>

definition end_dispatch :: "string \<Rightarrow> ingress \<Rightarrow> ingress" where
  "end_dispatch eventId g =
     g\<lparr>ig_threads := del_assoc eventId (ig_threads g), ig_dispatching := filter (\<lambda>x. x \<noteq> eventId) (ig_dispatching g)\<rparr>"

definition wait_at :: "string \<Rightarrow> thread \<Rightarrow> wait_point \<Rightarrow> ingress \<Rightarrow> ingress" where
  "wait_at eventId th p g = g\<lparr>ig_threads := upd_assoc (ig_threads g) eventId (th\<lparr>th_wait := p\<rparr>)\<rparr>"

text \<open>\<open>ensureRunningForEvent\<close>: one call per agent at a time; others wait for its answer.\<close>

definition ensure_running :: "string \<Rightarrow> thread \<Rightarrow> ingress \<Rightarrow> ingress" where
  "ensure_running eventId th g =
     (let agent = gc_agentId (th_connection th)
      in if agent \<in> set (ig_ensuring g) then wait_at eventId th WaitShared g
         else wait_at eventId th WaitEnsure (emit_out (OutEnsure agent) (g\<lparr>ig_ensuring := agent # ig_ensuring g\<rparr>)))"

text \<open>\<open>dispatchEvent\<close> up to its first \<open>await\<close>.\<close>

definition dispatch_begin :: "int \<Rightarrow> string \<Rightarrow> ingress \<Rightarrow> ingress" where
  "dispatch_begin now eventId g =
     (if eventId \<in> set (ig_dispatching g) then g
      else
        case getEvent eventId (ig_store g) of
          None \<Rightarrow> g
        | Some event \<Rightarrow>
            if terminal (ie_status event) then g
            else
              case st_connections (ig_store g) (ie_gatewayId event) of
                None \<Rightarrow> g\<lparr>ig_store := failEvent now eventId ''gateway_not_found'' (ig_store g)\<rparr>
              | Some connection \<Rightarrow>
                  let th = \<lparr>th_wait = WaitPoll, th_event = event, th_connection = connection\<rparr>;
                      g1 = g\<lparr>ig_dispatching := eventId # ig_dispatching g\<rparr>
                  in if shouldPollRuntimeFirst event (ig_store g)
                     then wait_at eventId th WaitPoll (emit_out (OutPoll (gc_agentId connection)) g1)
                     else ensure_running eventId th g1)"

text \<open>What the hub answers.\<close>

datatype hub_answer = HubReady | HubStatus string | HubFailed string | HubDeleted | HubError int string

definition hub_error_text :: "int \<Rightarrow> string \<Rightarrow> string" where
  "hub_error_text status code = (if code \<noteq> [] then code else ''http_'' @ int_str status)"

text \<open>The thread's continuation once its runtime metadata is known. \<open>HubError\<close> with status 0 stands for an
  error that is not the hub client's.\<close>

definition resolved :: "orchestrator_config \<Rightarrow> int \<Rightarrow> string \<Rightarrow> thread \<Rightarrow> hub_answer \<Rightarrow> ingress \<Rightarrow> ingress" where
  "resolved cfg now eventId th answer g =
     (case answer of
        HubReady \<Rightarrow> wait_at eventId th WaitSession g
      | HubFailed code \<Rightarrow>
          end_dispatch eventId (g\<lparr>ig_store := failEvent now eventId (''hub_status_failed:'' @ code) (ig_store g)\<rparr>)
      | HubDeleted \<Rightarrow> end_dispatch eventId (g\<lparr>ig_store := failEvent now eventId ''hub_status_deleted'' (ig_store g)\<rparr>)
      | HubStatus status \<Rightarrow>
          end_dispatch eventId (g\<lparr>ig_store := requeueEvent cfg now (th_event th) (''hub_status_'' @ status) (ig_store g)\<rparr>)
      | HubError status code \<Rightarrow>
          (let lastError = ''ensure_running_failed: '' @ hub_error_text status code
           in end_dispatch eventId (g\<lparr>ig_store :=
                (if status = 404 \<or> status = 409 then failEvent now eventId lastError (ig_store g)
                 else requeueEvent cfg now (th_event th) lastError (ig_store g))\<rparr>)))"

text \<open>The answer to \<open>getRuntime\<close>; a paused runtime is started.\<close>

definition polled :: "orchestrator_config \<Rightarrow> int \<Rightarrow> string \<Rightarrow> hub_answer \<Rightarrow> ingress \<Rightarrow> ingress" where
  "polled cfg now eventId answer g =
     (case map_of (ig_threads g) eventId of
        None \<Rightarrow> g
      | Some th \<Rightarrow>
          if th_wait th = WaitPoll then
            (if answer = HubStatus ''paused'' then ensure_running eventId th g else resolved cfg now eventId th answer g)
          else if th_wait th = WaitPollShared then resolved cfg now eventId th answer g
          else g)"

text \<open>The answer to \<open>ensureRunning\<close> of an agent reaches the caller and everyone who waited for it; a ready
  answer makes the others ask for their own metadata.\<close>

definition ensured_one :: "orchestrator_config \<Rightarrow> int \<Rightarrow> hub_answer \<Rightarrow> string \<times> thread \<Rightarrow> ingress \<Rightarrow> ingress" where
  "ensured_one cfg now answer entry g =
     (let (eventId, th) = entry
      in if th_wait th = WaitShared \<and> answer = HubReady
         then wait_at eventId th WaitPollShared (emit_out (OutPoll (gc_agentId (th_connection th))) g)
         else resolved cfg now eventId th answer g)"

definition ensured :: "orchestrator_config \<Rightarrow> int \<Rightarrow> string \<Rightarrow> hub_answer \<Rightarrow> ingress \<Rightarrow> ingress" where
  "ensured cfg now agent answer g =
     (if agent \<notin> set (ig_ensuring g) then g
      else
        fold (ensured_one cfg now answer)
          (filter (\<lambda>(_, th). gc_agentId (th_connection th) = agent \<and> th_wait th \<in> {WaitEnsure, WaitShared}) (ig_threads g))
          (g\<lparr>ig_ensuring := filter (\<lambda>a. a \<noteq> agent) (ig_ensuring g)\<rparr>))"

text \<open>The session is open (or not), and the frame is written with the event marked as delivering.\<close>

definition session_answer :: "orchestrator_config \<Rightarrow> int \<Rightarrow> string \<Rightarrow> string option \<Rightarrow> ingress \<Rightarrow> ingress" where
  "session_answer cfg now eventId err g =
     (case map_of (ig_threads g) eventId of
        None \<Rightarrow> g
      | Some th \<Rightarrow>
          if th_wait th \<noteq> WaitSession then g
          else
            case err of
              Some x \<Rightarrow> end_dispatch eventId (g\<lparr>ig_store := requeueEvent cfg now (th_event th) (''runtime_session_failed: '' @ x) (ig_store g)\<rparr>)
            | None \<Rightarrow>
                wait_at eventId th WaitSend (emit_out (OutInbound eventId (gc_agentId (th_connection th)) (gc_id (th_connection th)))
                  (g\<lparr>ig_store := updateEvent now eventId
                       (\<lambda>e. e\<lparr>ie_status := EvDelivering, ie_attemptCount := ie_attemptCount (th_event th) + 1, ie_nextAttemptAt := None\<rparr>)
                       (ig_store g)\<rparr>)))"

definition send_answer :: "orchestrator_config \<Rightarrow> int \<Rightarrow> string \<Rightarrow> string option \<Rightarrow> ingress \<Rightarrow> ingress" where
  "send_answer cfg now eventId err g =
     (case map_of (ig_threads g) eventId of
        None \<Rightarrow> g
      | Some th \<Rightarrow>
          if th_wait th \<noteq> WaitSend then g
          else
            case err of
              Some x \<Rightarrow> end_dispatch eventId (g\<lparr>ig_store := requeueEvent cfg now (th_event th) (''send_failed: '' @ x) (ig_store g)\<rparr>)
            | None \<Rightarrow> end_dispatch eventId g)"

text \<open>\<open>ingest\<close>: the result, or \<open>None\<close> where it raises.\<close>

definition ingest :: "orchestrator_config \<Rightarrow> int \<Rightarrow> string \<Rightarrow> string \<Rightarrow> inbound_message \<Rightarrow> string \<Rightarrow> ingress \<Rightarrow> bool option \<times> ingress" where
  "ingest cfg now eventId gatewayId message providerEventId g =
     (case st_connections (ig_store g) gatewayId of
        None \<Rightarrow> (None, g)
      | Some connection \<Rightarrow>
          if hasProviderEventId gatewayId providerEventId (ig_store g) then (Some False, g)
          else
            case insertEvent \<lparr>ie_eventId = eventId, ie_gatewayId = gatewayId, ie_agentId = gc_agentId connection,
                     ie_provider = gc_provider connection, ie_providerEventId = providerEventId, ie_message = message,
                     ie_status = EvQueued, ie_attemptCount = 0, ie_nextAttemptAt = None, ie_lastError = None,
                     ie_createdAt = now, ie_updatedAt = now\<rparr> (ig_store g) of
              None \<Rightarrow> (None, g)
            | Some s \<Rightarrow>
                (Some True, dispatch_begin now eventId
                   (g\<lparr>ig_store := snd (appendDedupe gatewayId providerEventId (oc_dedupeCapacity cfg) s)\<rparr>)))"

section \<open>Retries\<close>

definition isDue :: "orchestrator_config \<Rightarrow> int \<Rightarrow> ingress_event \<Rightarrow> ingress \<Rightarrow> bool" where
  "isDue cfg now event g =
     (if ie_eventId event \<in> set (ig_dispatching g) then False
      else case ie_nextAttemptAt event of
             Some t \<Rightarrow> t \<le> now
           | None \<Rightarrow>
               (if ie_attemptCount event \<le> 0 then True
                else ie_updatedAt event + retryDelayMs cfg (ie_attemptCount event) \<le> now))"

definition retry_candidates :: "orchestrator_config \<Rightarrow> int \<Rightarrow> bool \<Rightarrow> ingress \<Rightarrow> ingress_event list" where
  "retry_candidates cfg now force g =
     filter (\<lambda>e. force \<or> isDue cfg now e g)
       (listEventsByStatus (if force then [EvQueued, EvDelivering] else [EvQueued]) (ig_store g))"

section \<open>Frames from the runtime\<close>

datatype runtime_frame =
    FrAck string bool "string option"
  | FrStart string string string string
  | FrDelta string string string string string
  | FrComplete string string string string string
  | FrError string string string

definition ensureDeliveryFor :: "int \<Rightarrow> string \<Rightarrow> string \<Rightarrow> string \<Rightarrow> string \<Rightarrow> string \<Rightarrow> ingress_store \<Rightarrow> string \<times> ingress_store" where
  "ensureDeliveryFor now newId eventId gatewayId conversationId turnId s =
     (case getDeliveryByEvent eventId s of
        Some d \<Rightarrow> (dv_deliveryId d, s)
      | None \<Rightarrow> (newId, insertDelivery \<lparr>dv_deliveryId = newId, dv_eventId = eventId, dv_gatewayId = gatewayId,
                  dv_conversationId = conversationId, dv_turnId = turnId, dv_status = DvStreaming, dv_textHash = None,
                  dv_providerMessageId = None, dv_lastError = None, dv_createdAt = now\<rparr> s))"

definition set_failed :: "int \<Rightarrow> string \<Rightarrow> string \<Rightarrow> ingress_store \<Rightarrow> ingress_store" where
  "set_failed now eventId err s = updateEvent now eventId (\<lambda>e. e\<lparr>ie_status := EvFailed, ie_lastError := Some err\<rparr>) s"

definition onRuntimeFrame :: "int \<Rightarrow> string \<Rightarrow> runtime_frame \<Rightarrow> ingress \<Rightarrow> ingress" where
  "onRuntimeFrame now newId frame g =
     (case frame of
        FrAck eventId accepted err \<Rightarrow>
          (if accepted then g
           else g\<lparr>ig_store := set_failed now eventId (case err of Some c \<Rightarrow> ''daemon_rejected:'' @ c | None \<Rightarrow> ''daemon_rejected'') (ig_store g)\<rparr>)
      | FrStart eventId gatewayId conversationId turnId \<Rightarrow>
          g\<lparr>ig_store := snd (ensureDeliveryFor now newId eventId gatewayId conversationId turnId (ig_store g))\<rparr>
      | FrDelta eventId gatewayId conversationId turnId delta \<Rightarrow>
          (let (d, s) = ensureDeliveryFor now newId eventId gatewayId conversationId turnId (ig_store g)
           in g\<lparr>ig_store := updateDelivery d (\<lambda>r. r\<lparr>dv_textHash := Some (hashText delta), dv_status := DvStreaming\<rparr>) s\<rparr>)
      | FrComplete eventId gatewayId conversationId turnId finalText \<Rightarrow>
          (if (case getEvent eventId (ig_store g) of Some e \<Rightarrow> terminal (ie_status e) | None \<Rightarrow> False) then g
           else if eventId \<in> set (ig_completing g) then g
           else if gatewayId \<notin> set (ig_providers g)
           then g\<lparr>ig_store := set_failed now eventId ''provider_not_registered'' (ig_store g)\<rparr>
           else
             let (d, s) = ensureDeliveryFor now newId eventId gatewayId conversationId turnId (ig_store g)
             in emit_out (OutProviderSend eventId finalText)
                  (g\<lparr>ig_store := s, ig_completing := eventId # ig_completing g,
                     ig_sends := upd_assoc (ig_sends g) eventId \<lparr>ps_eventId = eventId, ps_deliveryId = d, ps_text = finalText\<rparr>\<rparr>))
      | FrError eventId code message \<Rightarrow>
          (if getEvent eventId (ig_store g) = None then g
           else
             let s = set_failed now eventId (''runtime_error:'' @ code) (ig_store g)
             in g\<lparr>ig_store := (case getDeliveryByEvent eventId s of
                    Some d \<Rightarrow> updateDelivery (dv_deliveryId d) (\<lambda>r. r\<lparr>dv_status := DvFailed, dv_lastError := Some message\<rparr>) s
                  | None \<Rightarrow> s)\<rparr>))"

text \<open>The provider's answer to a send. An unknown event makes the bookkeeping of a sent reply raise, and the
  handler then records the delivery as failed.\<close>

definition provider_answer :: "int \<Rightarrow> string \<Rightarrow> string + string option \<Rightarrow> ingress \<Rightarrow> ingress" where
  "provider_answer now eventId answer g =
     (case map_of (ig_sends g) eventId of
        None \<Rightarrow> g
      | Some ps \<Rightarrow>
          let known = (getEvent eventId (ig_store g) \<noteq> None);
              failed = (\<lambda>err s. set_failed now eventId (''provider_send_failed: '' @ err)
                          (updateDelivery (ps_deliveryId ps) (\<lambda>r. r\<lparr>dv_status := DvFailed, dv_lastError := Some err\<rparr>) s));
              s = (case answer of
                     Inr messageId \<Rightarrow>
                       (let s1 = updateDelivery (ps_deliveryId ps) (\<lambda>r. r\<lparr>dv_status := DvSent, dv_providerMessageId := messageId,
                                   dv_textHash := Some (hashText (ps_text ps))\<rparr>) (ig_store g)
                        in if known then updateEvent now eventId (\<lambda>e. e\<lparr>ie_status := EvDelivered\<rparr>) s1
                           else failed (''Error: event '' @ eventId @ '' not found'') s1)
                   | Inl err \<Rightarrow> failed err (ig_store g))
          in g\<lparr>ig_store := s, ig_sends := del_assoc eventId (ig_sends g), ig_completing := filter (\<lambda>x. x \<noteq> eventId) (ig_completing g)\<rparr>)"

definition close_event :: "int \<Rightarrow> string \<Rightarrow> string \<Rightarrow> ingress_event \<Rightarrow> ingress_store \<Rightarrow> ingress_store" where
  "close_event now agentId reason e s =
     (if ie_agentId e = agentId
      then updateEvent now (ie_eventId e) (\<lambda>r. r\<lparr>ie_status := EvQueued, ie_lastError := Some (''runtime_closed:'' @ reason)\<rparr>) s
      else s)"

definition onRuntimeClose :: "int \<Rightarrow> string \<Rightarrow> string \<Rightarrow> ingress \<Rightarrow> ingress" where
  "onRuntimeClose now agentId reason g =
     g\<lparr>ig_store := fold (close_event now agentId reason) (listEventsByStatus [EvDelivering] (ig_store g)) (ig_store g)\<rparr>"

section \<open>Runs\<close>

datatype ingress_input =
    InIngest string string inbound_message string
  | InRetry string
  | InPolled string hub_answer
  | InEnsured string hub_answer
  | InSession string "string option"
  | InSent string "string option"
  | InFrame string runtime_frame
  | InProvider string "string + string option"
  | InClose string string
  | InConnection gateway_connection
  | InProviderUp string
  | InProviderDown string

fun ingress_step :: "orchestrator_config \<Rightarrow> int \<times> ingress_input \<Rightarrow> ingress \<Rightarrow> ingress" where
  "ingress_step cfg (now, InIngest eid gw msg pid) g = snd (ingest cfg now eid gw msg pid g)"
| "ingress_step cfg (now, InRetry eid) g = dispatch_begin now eid g"
| "ingress_step cfg (now, InPolled eid a) g = polled cfg now eid a g"
| "ingress_step cfg (now, InEnsured agent a) g = ensured cfg now agent a g"
| "ingress_step cfg (now, InSession eid r) g = session_answer cfg now eid r g"
| "ingress_step cfg (now, InSent eid r) g = send_answer cfg now eid r g"
| "ingress_step cfg (now, InFrame newId f) g = onRuntimeFrame now newId f g"
| "ingress_step cfg (now, InProvider eid r) g = provider_answer now eid r g"
| "ingress_step cfg (now, InClose agent reason) g = onRuntimeClose now agent reason g"
| "ingress_step cfg (now, InConnection c) g = g\<lparr>ig_store := (ig_store g)\<lparr>st_connections := (st_connections (ig_store g))(gc_id c \<mapsto> c)\<rparr>\<rparr>"
| "ingress_step cfg (now, InProviderUp gw) g = g\<lparr>ig_providers := gw # ig_providers g\<rparr>"
| "ingress_step cfg (now, InProviderDown gw) g = g\<lparr>ig_providers := filter (\<lambda>x. x \<noteq> gw) (ig_providers g)\<rparr>"

definition empty_ingress :: ingress where
  "empty_ingress = \<lparr>ig_store = \<lparr>st_connections = Map.empty, st_dedupe = Map.empty, st_events = [], st_deliveries = []\<rparr>, ig_dispatching = [],
     ig_threads = [], ig_completing = [], ig_sends = [], ig_ensuring = [], ig_providers = [], ig_out = []\<rparr>"

definition ingress_run :: "orchestrator_config \<Rightarrow> (int \<times> ingress_input) list \<Rightarrow> ingress" where
  "ingress_run cfg xs = fold (ingress_step cfg) xs empty_ingress"

section \<open>Events are kept and never doubled\<close>

definition core :: "ingress_event \<Rightarrow> string \<times> string \<times> string \<times> inbound_message \<times> int" where
  "core e = (ie_gatewayId e, ie_providerEventId e, ie_agentId e, ie_message e, ie_createdAt e)"

definition cores :: "ingress_store \<Rightarrow> (string \<times> string \<times> string \<times> string \<times> inbound_message \<times> int) list" where
  "cores s = map (\<lambda>(k, e). (k, core e)) (st_events s)"

text \<open>The rows of the event table carry the identifier they are stored under.\<close>

definition keyed :: "ingress_store \<Rightarrow> bool" where
  "keyed s \<longleftrightarrow> list_all (\<lambda>(k, e). ie_eventId e = k) (st_events s)"

lemma upd_assoc_in_place: "map_of ps k = Some v \<Longrightarrow> core w = core v \<Longrightarrow>
    map (\<lambda>(k, e). (k, core e)) (upd_assoc ps k w) = map (\<lambda>(k, e). (k, core e)) ps"
  by (induction ps k w rule: upd_assoc.induct) (auto split: if_splits)

lemma upd_assoc_new: "map_of ps k = None \<Longrightarrow> upd_assoc ps k w = ps @ [(k, w)]"
  by (induction ps k w rule: upd_assoc.induct) auto

lemma list_all_upd_assoc: "list_all P ps \<Longrightarrow> P (k, w) \<Longrightarrow> list_all P (upd_assoc ps k w)"
  by (induction ps k w rule: upd_assoc.induct) auto

lemma updateEvent_frame [simp]:
  "st_connections (updateEvent now eid p s) = st_connections s" "st_dedupe (updateEvent now eid p s) = st_dedupe s"
  "st_deliveries (updateEvent now eid p s) = st_deliveries s"
  by (simp_all add: updateEvent_def split: option.splits)

lemma updateEvent_cores: "(\<And>e. core (p e) = core e) \<Longrightarrow> cores (updateEvent now eid p s) = cores s"
proof -
  assume p: "\<And>e. core (p e) = core e"
  have "core ((p e)\<lparr>ie_eventId := eid, ie_updatedAt := now\<rparr>) = core e" for e using p[of e] by (simp add: core_def)
  then show ?thesis by (auto simp: updateEvent_def cores_def getEvent_def upd_assoc_in_place split: option.splits)
qed

lemma updateEvent_keyed: "keyed s \<Longrightarrow> keyed (updateEvent now eid p s)"
  by (auto simp: updateEvent_def keyed_def intro!: list_all_upd_assoc split: option.splits)

lemma delivery_frame [simp]:
  "cores (updateDelivery d p s) = cores s" "cores (insertDelivery r s) = cores s" "keyed (updateDelivery d p s) = keyed s"
  "keyed (insertDelivery r s) = keyed s" "st_dedupe (updateDelivery d p s) = st_dedupe s" "st_dedupe (insertDelivery r s) = st_dedupe s"
  by (simp_all add: updateDelivery_def insertDelivery_def cores_def keyed_def split: option.splits)

lemma update_cores [simp]:
  "cores (requeueEvent cfg now e err s) = cores s" "cores (failEvent now eid err s) = cores s" "cores (set_failed now eid err s) = cores s"
  "keyed s \<Longrightarrow> keyed (requeueEvent cfg now e err s)" "keyed s \<Longrightarrow> keyed (failEvent now eid err s)" "keyed s \<Longrightarrow> keyed (set_failed now eid err s)"
  "st_dedupe (requeueEvent cfg now e err s) = st_dedupe s" "st_dedupe (failEvent now eid err s) = st_dedupe s"
  "st_dedupe (set_failed now eid err s) = st_dedupe s"
  by (simp_all add: requeueEvent_def failEvent_def set_failed_def updateEvent_keyed updateEvent_cores core_def Let_def)

text \<open>Steps that keep the table of events: same rows, same order, same identity.\<close>

definition same_events :: "ingress_store \<Rightarrow> ingress_store \<Rightarrow> bool" where
  "same_events s t \<longleftrightarrow> cores t = cores s \<and> (keyed s \<longrightarrow> keyed t) \<and> st_dedupe t = st_dedupe s"

lemma same_events_refl [simp]: "same_events s s"
  by (simp add: same_events_def)

lemma same_events_trans: "same_events s t \<Longrightarrow> same_events t u \<Longrightarrow> same_events s u"
  by (simp add: same_events_def)

lemma same_events_update:
  "same_events s (requeueEvent cfg now e err s)" "same_events s (failEvent now eid err s)" "same_events s (set_failed now eid err s)"
  "(\<And>e. core (p e) = core e) \<Longrightarrow> same_events s (updateEvent now eid p s)"
  "same_events s (updateDelivery d q s)" "same_events s (insertDelivery r s)"
  by (simp_all add: same_events_def updateEvent_cores updateEvent_keyed)

lemma store_frame [simp]:
  "ig_store (end_dispatch eid g) = ig_store g" "ig_store (wait_at eid th p g) = ig_store g" "ig_store (emit_out x g) = ig_store g"
  "ig_store (ensure_running eid th g) = ig_store g"
  by (simp_all add: end_dispatch_def wait_at_def emit_out_def ensure_running_def Let_def)

lemma same_begin: "same_events (ig_store g) (ig_store (dispatch_begin now eid g))"
  by (auto simp: dispatch_begin_def Let_def same_events_update split: option.splits)

lemma same_resolved: "same_events (ig_store g) (ig_store (resolved cfg now eid th a g))"
  by (auto simp: resolved_def Let_def same_events_update split: hub_answer.splits)

lemma same_polled: "same_events (ig_store g) (ig_store (polled cfg now eid a g))"
  by (auto simp: polled_def same_resolved split: option.splits)

lemma same_ensured: "same_events (ig_store g) (ig_store (ensured cfg now agent a g))"
proof -
  have one: "same_events (ig_store h) (ig_store (ensured_one cfg now a x h))" for x h
    by (auto simp: ensured_one_def Let_def split_beta same_resolved)
  have "same_events (ig_store h) (ig_store (fold (ensured_one cfg now a) xs h))" for xs h
    by (induction xs arbitrary: h) (auto intro: same_events_trans[OF one])
  from this[of "g\<lparr>ig_ensuring := ys\<rparr>" for ys] show ?thesis by (auto simp: ensured_def)
qed

lemma same_session: "same_events (ig_store g) (ig_store (session_answer cfg now eid r g))"
  by (auto simp: session_answer_def core_def intro!: same_events_update split: option.splits)

lemma same_send: "same_events (ig_store g) (ig_store (send_answer cfg now eid r g))"
  by (auto simp: send_answer_def same_events_update split: option.splits)

lemma same_delivery: "same_events s (snd (ensureDeliveryFor now i eid gw cv t s))"
  by (auto simp: ensureDeliveryFor_def same_events_update split: option.splits)

lemma same_frame: "same_events (ig_store g) (ig_store (onRuntimeFrame now i f g))"
  using same_events_trans[OF same_delivery same_events_update(5)] same_events_trans[OF same_events_update(3) same_events_update(5)]
  unfolding onRuntimeFrame_def Let_def split_beta
  by (cases f; simp add: same_events_update same_delivery split: option.splits)

lemma same_sent: "same_events s (updateEvent now eid (\<lambda>e. e\<lparr>ie_status := st\<rparr>) (updateDelivery d q s))"
  by (rule same_events_trans[OF same_events_update(5)[of s d q]]) (simp add: same_events_update(4) core_def)

lemma same_unsent: "same_events s (set_failed now eid err (updateDelivery d q s))"
  by (rule same_events_trans[OF same_events_update(5) same_events_update(3)])

lemma same_provider: "same_events (ig_store g) (ig_store (provider_answer now eid r g))"
  unfolding provider_answer_def Let_def
  by (auto intro: same_sent same_unsent same_events_trans[OF same_events_update(5) same_unsent] split: option.splits sum.splits)

lemma same_close_event: "same_events s (close_event now agent reason e s)"
  by (simp add: close_event_def core_def same_events_update)

lemma same_close: "same_events (ig_store g) (ig_store (onRuntimeClose now agent reason g))"
proof -
  have "same_events s (fold (close_event now agent reason) es s)" for es s
    by (induction es arbitrary: s) (auto intro: same_events_trans[OF same_close_event])
  then show ?thesis by (simp add: onRuntimeClose_def)
qed

lemma appendDedupe_cores [simp]:
  "cores (snd (appendDedupe gw pid cap s)) = cores s" "keyed (snd (appendDedupe gw pid cap s)) = keyed s"
  by (simp_all add: appendDedupe_def cores_def keyed_def Let_def)

definition pairs :: "ingress_store \<Rightarrow> (string \<times> string) list" where
  "pairs s = map (\<lambda>(k, gw, pid, _). (gw, pid)) (cores s)"

definition events_inv :: "nat \<Rightarrow> ingress_store \<Rightarrow> bool" where
  "events_inv cap s \<longleftrightarrow> keyed s \<and> distinct (map fst (cores s)) \<and> distinct (pairs s) \<and> (\<forall>gw d. st_dedupe s gw = Some d \<longrightarrow> length d \<le> cap)"

lemma fst_cores: "map fst (cores s) = map fst (st_events s)"
  by (simp add: cores_def split_beta comp_def)

lemma known_pair: "(gw, pid) \<in> set (pairs s) \<Longrightarrow> hasProviderEventId gw pid s"
  by (fastforce simp: pairs_def cores_def core_def hasProviderEventId_def listEventsByStatus_def)

lemma ingest_events:
  "\<exists>ys. cores (ig_store (snd (ingest cfg now eid gw msg pid g))) = cores (ig_store g) @ ys \<and>
     (events_inv (oc_dedupeCapacity cfg) (ig_store g) \<longrightarrow> events_inv (oc_dedupeCapacity cfg) (ig_store (snd (ingest cfg now eid gw msg pid g))))"
proof (cases "fst (ingest cfg now eid gw msg pid g) = Some True")
  case False
  then have "snd (ingest cfg now eid gw msg pid g) = g" by (auto simp: ingest_def split: option.splits if_splits)
  then show ?thesis by simp
next
  case True
  then obtain c e s where c: "st_connections (ig_store g) gw = Some c" "\<not> hasProviderEventId gw pid (ig_store g)"
      "insertEvent e (ig_store g) = Some s" "ie_eventId e = eid" "core e = (gw, pid, gc_agentId c, msg, now)"
      "ig_store (snd (ingest cfg now eid gw msg pid g)) =
        ig_store (dispatch_begin now eid (g\<lparr>ig_store := snd (appendDedupe gw pid (oc_dedupeCapacity cfg) s)\<rparr>))"
    by (auto simp: ingest_def core_def split: option.splits if_splits)
  have new: "map_of (st_events (ig_store g)) eid = None" and s: "st_events s = st_events (ig_store g) @ [(eid, e)]" "st_dedupe s = st_dedupe (ig_store g)"
    using c(3,4) by (auto simp: insertEvent_def getEvent_def upd_assoc_new split: if_splits)
  let ?s' = "snd (appendDedupe gw pid (oc_dedupeCapacity cfg) s)"
  have same: "same_events ?s' (ig_store (snd (ingest cfg now eid gw msg pid g)))"
    unfolding c(6) using same_begin[of "g\<lparr>ig_store := ?s'\<rparr>" now eid] by simp
  have cores_s: "cores s = cores (ig_store g) @ [(eid, core e)]" by (simp add: cores_def s)
  then have cores': "cores ?s' = cores (ig_store g) @ [(eid, core e)]" by simp
  have "eid \<notin> set (map fst (cores (ig_store g)))" using new by (simp add: fst_cores map_of_eq_None_iff)
  moreover have "(gw, pid) \<notin> set (pairs (ig_store g))" using known_pair c(2) by blast
  moreover have "keyed ?s' = keyed (ig_store g)" using c(4) s(1) by (simp add: keyed_def appendDedupe_def Let_def)
  moreover have "st_dedupe ?s' gw' = Some d \<Longrightarrow> (\<And>d. st_dedupe (ig_store g) gw' = Some d \<Longrightarrow> length d \<le> oc_dedupeCapacity cfg) \<Longrightarrow>
      length d \<le> oc_dedupeCapacity cfg" for gw' d
    using s(2) by (auto simp: appendDedupe_def Let_def shift_to_cap_eq split: if_splits option.splits)
  ultimately have "events_inv (oc_dedupeCapacity cfg) (ig_store g) \<Longrightarrow> events_inv (oc_dedupeCapacity cfg) ?s'"
    by (auto simp: events_inv_def cores_s pairs_def c(5))
  then show ?thesis using same cores' by (auto simp: same_events_def events_inv_def pairs_def)
qed

lemma step_same: "\<nexists>eid gw msg pid. i = InIngest eid gw msg pid \<Longrightarrow> same_events (ig_store g) (ig_store (ingress_step cfg (now, i) g))"
  by (cases i) (auto simp: same_begin same_polled same_ensured same_session same_send same_frame same_provider same_close,
      auto simp: same_events_def cores_def keyed_def)

lemma step_events:
  "\<exists>ys. cores (ig_store (ingress_step cfg x g)) = cores (ig_store g) @ ys \<and>
     (events_inv (oc_dedupeCapacity cfg) (ig_store g) \<longrightarrow> events_inv (oc_dedupeCapacity cfg) (ig_store (ingress_step cfg x g)))"
proof (cases "\<exists>eid gw msg pid. snd x = InIngest eid gw msg pid")
  case True
  then show ?thesis using ingest_events by (cases x) auto
next
  case False
  then show ?thesis using step_same[of "snd x" g cfg "fst x"] by (auto simp: same_events_def events_inv_def pairs_def)
qed

lemma run_events:
  "\<exists>ys. cores (ig_store (fold (ingress_step cfg) xs g)) = cores (ig_store g) @ ys \<and>
     (events_inv (oc_dedupeCapacity cfg) (ig_store g) \<longrightarrow> events_inv (oc_dedupeCapacity cfg) (ig_store (fold (ingress_step cfg) xs g)))"
proof (induction xs arbitrary: g)
  case (Cons x xs)
  obtain ys zs where "cores (ig_store (ingress_step cfg x g)) = cores (ig_store g) @ ys"
    "cores (ig_store (fold (ingress_step cfg) xs (ingress_step cfg x g))) = cores (ig_store (ingress_step cfg x g)) @ zs"
    using step_events Cons.IH by metis
  then show ?case using step_events[of cfg x g] Cons.IH[of "ingress_step cfg x g"] by simp
qed simp

lemma events_inv_run: "events_inv (oc_dedupeCapacity cfg) (ig_store (ingress_run cfg xs))"
  using run_events[of cfg xs empty_ingress] unfolding ingress_run_def
  by (simp add: events_inv_def keyed_def cores_def pairs_def empty_ingress_def)

text \<open>C23: A provider event is ingested once: however often an adapter reports it, and whatever happens in
  between, at most one stored event has its gateway and its provider identifier.\<close>

theorem provider_event_ingested_once:
  "distinct (map (\<lambda>(_, e). (ie_gatewayId e, ie_providerEventId e)) (st_events (ig_store (ingress_run cfg xs))))"
proof -
  have "pairs s = map (\<lambda>(_, e). (ie_gatewayId e, ie_providerEventId e)) (st_events s)" for s
    by (simp add: pairs_def cores_def core_def split_beta comp_def)
  then show ?thesis using events_inv_run[of cfg xs] by (simp add: events_inv_def)
qed

text \<open>No accepted event is lost: every later run keeps the events of an earlier one, in order and with their
  gateway, provider identifier, agent, message and time unchanged.\<close>

theorem ingested_events_kept:
  "\<exists>ys. cores (ig_store (ingress_run cfg (xs @ zs))) = cores (ig_store (ingress_run cfg xs)) @ ys"
  using run_events[of cfg zs "ingress_run cfg xs"] by (auto simp: ingress_run_def)

section \<open>One dispatch per event, one start per agent\<close>

text \<open>A lock is held exactly by the dispatches in progress; an agent is being started exactly while one
  dispatch waits for the answer, and others of the agent wait with it.\<close>

abbreviation thread_at :: "ingress \<Rightarrow> string \<Rightarrow> thread option" where
  "thread_at g \<equiv> map_of (ig_threads g)"

definition owns :: "string \<Rightarrow> thread \<Rightarrow> bool" where
  "owns agent th \<longleftrightarrow> th_wait th = WaitEnsure \<and> gc_agentId (th_connection th) = agent"

definition owning :: "ingress \<Rightarrow> string \<Rightarrow> string set" where
  "owning g agent = {eid. \<exists>th. thread_at g eid = Some th \<and> owns agent th}"

definition sharing :: "ingress \<Rightarrow> string set" where
  "sharing g = {gc_agentId (th_connection th) | eid th. thread_at g eid = Some th \<and> th_wait th = WaitShared}"

definition threads_inv :: "ingress \<Rightarrow> bool" where
  "threads_inv g \<longleftrightarrow> set (ig_dispatching g) = dom (thread_at g) \<and>
     (\<forall>agent. if agent \<in> set (ig_ensuring g) then \<exists>eid. owning g agent = {eid} else owning g agent = {}) \<and> sharing g \<subseteq> set (ig_ensuring g)"

lemma thread_at_simps [simp]:
  "thread_at (end_dispatch eid g) = (thread_at g)(eid := None)" "thread_at (wait_at eid th p g) = (thread_at g)(eid \<mapsto> th\<lparr>th_wait := p\<rparr>)"
  "ig_dispatching (wait_at eid th p g) = ig_dispatching g" "ig_ensuring (wait_at eid th p g) = ig_ensuring g"
  "ig_ensuring (end_dispatch eid g) = ig_ensuring g" "set (ig_dispatching (end_dispatch eid g)) = set (ig_dispatching g) - {eid}"
  "thread_at (emit_out x g) = thread_at g" "ig_dispatching (emit_out x g) = ig_dispatching g" "ig_ensuring (emit_out x g) = ig_ensuring g"
  by (auto simp: end_dispatch_def wait_at_def emit_out_def)

lemma inv_dom: "threads_inv g \<Longrightarrow> set (ig_dispatching g) = dom (thread_at g)"
  by (simp add: threads_inv_def)

text \<open>A dispatch that neither starts an agent nor waits for a start moves on or ends.\<close>

lemma inv_move:
  assumes "threads_inv g" "thread_at g eid = None \<or> (\<exists>th. thread_at g eid = Some th \<and> th_wait th \<notin> {WaitEnsure, WaitShared})"
    "ig_ensuring h = ig_ensuring g" "thread_at h = (thread_at g)(eid := t)" "set (ig_dispatching h) = dom (thread_at h)"
    "t = None \<or> (\<exists>th. t = Some th \<and> th_wait th \<notin> {WaitEnsure, WaitShared})"
  shows "threads_inv h"
proof -
  have "owning h a = owning g a" for a using assms(2,4,6) by (auto simp: owning_def owns_def)
  moreover have "sharing h \<subseteq> sharing g" using assms(4,6) by (fastforce simp: sharing_def split: if_splits)
  ultimately show ?thesis using assms(1,3,5) by (auto simp: threads_inv_def)
qed

lemma inv_ensure_running:
  assumes "threads_inv g" "thread_at g eid = None \<or> (\<exists>th. thread_at g eid = Some th \<and> th_wait th \<notin> {WaitEnsure, WaitShared})"
    "set (ig_dispatching h) = insert eid (set (ig_dispatching g))" "ig_threads h = ig_threads g" "ig_ensuring h = ig_ensuring g"
  shows "threads_inv (ensure_running eid th h)"
proof -
  let ?a = "gc_agentId (th_connection th)"
  let ?h = "ensure_running eid th h"
  have dom: "set (ig_dispatching ?h) = dom (thread_at ?h)" using assms(1,3,4) by (auto simp: ensure_running_def Let_def threads_inv_def)
  show ?thesis
  proof (cases "?a \<in> set (ig_ensuring g)")
    case True
    then have h: "thread_at ?h = (thread_at g)(eid \<mapsto> th\<lparr>th_wait := WaitShared\<rparr>)" "ig_ensuring ?h = ig_ensuring g"
      using assms(4,5) by (simp_all add: ensure_running_def)
    have "owning ?h a = owning g a" for a using assms(2) by (auto simp: owning_def owns_def h)
    moreover have "sharing ?h \<subseteq> insert ?a (sharing g)" by (auto simp: sharing_def h split: if_splits)
    ultimately show ?thesis using assms(1) True dom h(2) by (auto simp: threads_inv_def)
  next
    case False
    then have h: "thread_at ?h = (thread_at g)(eid \<mapsto> th\<lparr>th_wait := WaitEnsure\<rparr>)" "ig_ensuring ?h = ?a # ig_ensuring g"
      using assms(4,5) by (simp_all add: ensure_running_def Let_def)
    have "owning ?h a = (if a = ?a then insert eid (owning g a) else owning g a)" for a using assms(2) by (auto simp: owning_def owns_def h)
    moreover have "sharing ?h \<subseteq> sharing g" by (auto simp: sharing_def h split: if_splits)
    ultimately show ?thesis using assms(1) False dom h(2) by (auto simp: threads_inv_def)
  qed
qed

lemma inv_cong:
  "ig_threads h = ig_threads g \<Longrightarrow> ig_dispatching h = ig_dispatching g \<Longrightarrow> ig_ensuring h = ig_ensuring g \<Longrightarrow> threads_inv h = threads_inv g"
  by (simp add: threads_inv_def owning_def sharing_def)

lemma inv_store [simp]: "threads_inv (g\<lparr>ig_store := s\<rparr>) = threads_inv g"
  by (simp add: threads_inv_def owning_def sharing_def)

lemma inv_begin: "threads_inv g \<Longrightarrow> threads_inv (dispatch_begin now eid g)"
proof (cases "eid \<in> set (ig_dispatching g)")
  case False
  assume inv: "threads_inv g"
  then have none: "thread_at g eid = None" using False by (auto simp: threads_inv_def)
  have poll: "threads_inv (wait_at eid th WaitPoll (emit_out x (g\<lparr>ig_dispatching := eid # ig_dispatching g\<rparr>)))" for th x
    using inv none by (intro inv_move[OF inv, of eid _ "Some (th\<lparr>th_wait := WaitPoll\<rparr>)"]) (auto simp: inv_dom[OF inv])
  have ensure: "threads_inv (ensure_running eid th (g\<lparr>ig_dispatching := eid # ig_dispatching g\<rparr>))" for th
    using inv none by (intro inv_ensure_running[OF inv]) auto
  show ?thesis using inv poll ensure unfolding dispatch_begin_def Let_def by (simp split: option.splits)
qed (simp add: dispatch_begin_def)

lemma resolved_threads:
  "ig_ensuring (resolved cfg now eid th a g) = ig_ensuring g"
  "\<exists>t. thread_at (resolved cfg now eid th a g) = (thread_at g)(eid := t) \<and> (t = None \<or> t = Some (th\<lparr>th_wait := WaitSession\<rparr>))"
  "set (ig_dispatching g) = dom (thread_at g) \<Longrightarrow> eid \<in> dom (thread_at g) \<Longrightarrow>
     set (ig_dispatching (resolved cfg now eid th a g)) = dom (thread_at (resolved cfg now eid th a g))"
  by (auto simp: resolved_def Let_def split: hub_answer.splits)

lemma inv_resolved:
  assumes "threads_inv g" "thread_at g eid = Some th" "th_wait th \<notin> {WaitEnsure, WaitShared}"
  shows "threads_inv (resolved cfg now eid th a g)"
proof -
  obtain t where t: "thread_at (resolved cfg now eid th a g) = (thread_at g)(eid := t)" "t = None \<or> t = Some (th\<lparr>th_wait := WaitSession\<rparr>)"
    using resolved_threads(2) by metis
  have "set (ig_dispatching (resolved cfg now eid th a g)) = dom (thread_at (resolved cfg now eid th a g))"
    by (rule resolved_threads(3)[OF inv_dom[OF assms(1)]]) (simp add: assms(2) domI)
  then show ?thesis using assms(2,3) t(2) resolved_threads(1) by (intro inv_move[OF assms(1) _ _ t(1)]) auto
qed

lemma inv_polled: "threads_inv g \<Longrightarrow> threads_inv (polled cfg now eid a g)"
proof -
  assume inv: "threads_inv g"
  have "threads_inv (ensure_running eid th g)" if "thread_at g eid = Some th" "th_wait th = WaitPoll" for th
    using that by (intro inv_ensure_running[OF inv]) (auto simp: inv_dom[OF inv])
  then show ?thesis using inv by (auto simp: polled_def inv_resolved split: option.splits)
qed

lemma inv_emit [simp]: "threads_inv (emit_out x g) = threads_inv g"
  by (simp add: threads_inv_def owning_def sharing_def)

lemma inv_end:
  assumes "threads_inv g" "thread_at g eid = Some th" "th_wait th \<notin> {WaitEnsure, WaitShared}"
  shows "threads_inv (end_dispatch eid g)"
proof (rule inv_move[OF assms(1), of eid _ None])
  show "set (ig_dispatching (end_dispatch eid g)) = dom (thread_at (end_dispatch eid g))" using inv_dom[OF assms(1)] by auto
qed (use assms in auto)

lemma inv_wait:
  assumes "threads_inv g" "thread_at g eid = Some th" "th_wait th \<notin> {WaitEnsure, WaitShared}" "p \<notin> {WaitEnsure, WaitShared}"
  shows "threads_inv (wait_at eid t p g)"
proof (rule inv_move[OF assms(1), of eid _ "Some (t\<lparr>th_wait := p\<rparr>)"])
  show "set (ig_dispatching (wait_at eid t p g)) = dom (thread_at (wait_at eid t p g))" using inv_dom[OF assms(1)] assms(2) by auto
qed (use assms in auto)

lemma inv_session: "threads_inv g \<Longrightarrow> threads_inv (session_answer cfg now eid r g)"
  by (auto simp: session_answer_def intro: inv_end inv_wait split: option.splits)

lemma inv_send: "threads_inv g \<Longrightarrow> threads_inv (send_answer cfg now eid r g)"
  by (auto simp: send_answer_def intro: inv_end split: option.splits)

text \<open>The answer to a start: every dispatch that waited for it has left the two waiting points.\<close>

lemma ensured_one_threads:
  "ig_ensuring (ensured_one cfg now a (eid, th) g) = ig_ensuring g"
  "\<exists>t. thread_at (ensured_one cfg now a (eid, th) g) = (thread_at g)(eid := t) \<and>
     (t = None \<or> t = Some (th\<lparr>th_wait := WaitSession\<rparr>) \<or> t = Some (th\<lparr>th_wait := WaitPollShared\<rparr>))"
  "set (ig_dispatching g) = dom (thread_at g) \<Longrightarrow> eid \<in> dom (thread_at g) \<Longrightarrow>
     set (ig_dispatching (ensured_one cfg now a (eid, th) g)) = dom (thread_at (ensured_one cfg now a (eid, th) g))"
  using resolved_threads(1)[of cfg now eid th a g] resolved_threads(2)[of cfg now eid th a g] resolved_threads(3)[of g eid cfg now th a]
  by (auto simp: ensured_one_def)

lemma ensured_fold:
  assumes "set (ig_dispatching g) = dom (thread_at g)" "distinct (map fst xs)" "fst ` set xs \<subseteq> dom (thread_at g)"
  shows "ig_ensuring (fold (ensured_one cfg now a) xs g) = ig_ensuring g \<and>
    set (ig_dispatching (fold (ensured_one cfg now a) xs g)) = dom (thread_at (fold (ensured_one cfg now a) xs g)) \<and>
    (\<forall>k. k \<notin> fst ` set xs \<longrightarrow> thread_at (fold (ensured_one cfg now a) xs g) k = thread_at g k) \<and>
    (\<forall>k th. k \<in> fst ` set xs \<longrightarrow> thread_at (fold (ensured_one cfg now a) xs g) k = Some th \<longrightarrow> th_wait th \<notin> {WaitEnsure, WaitShared})"
  using assms
proof (induction xs arbitrary: g)
  case (Cons x xs)
  obtain eid th where x: "x = (eid, th)" by (cases x)
  let ?g = "ensured_one cfg now a (eid, th) g"
  obtain t where t: "thread_at ?g = (thread_at g)(eid := t)"
      "t = None \<or> t = Some (th\<lparr>th_wait := WaitSession\<rparr>) \<or> t = Some (th\<lparr>th_wait := WaitPollShared\<rparr>)"
    using ensured_one_threads(2) by metis
  have "set (ig_dispatching ?g) = dom (thread_at ?g)" using Cons.prems x by (intro ensured_one_threads(3)) auto
  moreover have "fst ` set xs \<subseteq> dom (thread_at ?g)" using Cons.prems x t(1) by auto
  ultimately have ih: "ig_ensuring (fold (ensured_one cfg now a) xs ?g) = ig_ensuring ?g \<and>
    set (ig_dispatching (fold (ensured_one cfg now a) xs ?g)) = dom (thread_at (fold (ensured_one cfg now a) xs ?g)) \<and>
    (\<forall>k. k \<notin> fst ` set xs \<longrightarrow> thread_at (fold (ensured_one cfg now a) xs ?g) k = thread_at ?g k) \<and>
    (\<forall>k th. k \<in> fst ` set xs \<longrightarrow> thread_at (fold (ensured_one cfg now a) xs ?g) k = Some th \<longrightarrow> th_wait th \<notin> {WaitEnsure, WaitShared})"
    using Cons.IH[of ?g] Cons.prems(2) by simp
  have "eid \<notin> fst ` set xs" using Cons.prems(2) x by simp
  then have "thread_at (fold (ensured_one cfg now a) xs ?g) eid = t" using ih t(1) by simp
  with ih t show ?case by (auto simp: x ensured_one_threads(1))
qed simp

lemma inv_drop:
  assumes "threads_inv g" "set (ig_dispatching h) = dom (thread_at h)" "ig_ensuring h = filter (\<lambda>x. x \<noteq> agent) (ig_ensuring g)"
    "\<And>b. owning h b = (if b = agent then {} else owning g b)" "sharing h \<subseteq> sharing g - {agent}"
  shows "threads_inv h"
  using assms by (auto simp: threads_inv_def)

lemma inv_ensured: "threads_inv g \<Longrightarrow> distinct (map fst (ig_threads g)) \<Longrightarrow> threads_inv (ensured cfg now agent a g)"
proof (cases "agent \<in> set (ig_ensuring g)")
  case True
  assume inv: "threads_inv g" and keys: "distinct (map fst (ig_threads g))"
  let ?P = "\<lambda>(_, th). gc_agentId (th_connection th) = agent \<and> th_wait th \<in> {WaitEnsure, WaitShared}"
  let ?xs = "filter ?P (ig_threads g)"
  let ?g = "g\<lparr>ig_ensuring := filter (\<lambda>x. x \<noteq> agent) (ig_ensuring g)\<rparr>"
  let ?h = "fold (ensured_one cfg now a) ?xs ?g"
  have in_xs: "k \<in> fst ` set ?xs \<longleftrightarrow> (\<exists>th. thread_at g k = Some th \<and> ?P (k, th))" for k
    using keys by (force simp: image_iff)
  then have sub: "fst ` set ?xs \<subseteq> dom (thread_at ?g)" by auto
  have dom: "set (ig_dispatching ?g) = dom (thread_at ?g)" using inv_dom[OF inv] by simp
  note fold = ensured_fold[OF dom distinct_filter_keys[OF keys] sub, of cfg now a]
  note f2 = fold[THEN conjunct2, THEN conjunct1]
  have f1: "ig_ensuring ?h = filter (\<lambda>x. x \<noteq> agent) (ig_ensuring g)" unfolding fold[THEN conjunct1] by simp
  have f3: "thread_at ?h k = thread_at g k" if "k \<notin> fst ` set ?xs" for k
    using fold[THEN conjunct2, THEN conjunct2, THEN conjunct1, rule_format, OF that] by (simp del: fold_simps)
  have f4: "th_wait th \<notin> {WaitEnsure, WaitShared}" if "k \<in> fst ` set ?xs" "thread_at ?h k = Some th" for k th
    by (rule fold[THEN conjunct2, THEN conjunct2, THEN conjunct2, rule_format, OF that])
  have own: "thread_at ?h k = Some th \<and> owns b th \<longleftrightarrow> b \<noteq> agent \<and> thread_at g k = Some th \<and> owns b th" for k th b
  proof (cases "k \<in> fst ` set ?xs")
    case True
    then show ?thesis using f4[OF True] in_xs[of k] by (auto simp only: owns_def split_conv insert_iff)
  next
    case False
    then show ?thesis using f3[OF False] in_xs[of k] by (auto simp only: owns_def split_conv insert_iff)
  qed
  have "owning ?h b = (if b = agent then {} else owning g b)" for b by (auto simp only: owning_def own mem_Collect_eq split: if_splits)
  moreover have "sharing ?h \<subseteq> sharing g - {agent}"
  proof
    fix b assume "b \<in> sharing ?h"
    then obtain k th where k: "thread_at ?h k = Some th" "th_wait th = WaitShared" "b = gc_agentId (th_connection th)" by (auto simp: sharing_def)
    then have out: "k \<notin> fst ` set ?xs" using f4 by blast
    then have "thread_at g k = Some th" using f3[OF out] k(1) by (simp only:)
    then show "b \<in> sharing g - {agent}" using k in_xs[of k] out by (auto simp only: sharing_def split_conv mem_Collect_eq)
  qed
  ultimately have "threads_inv ?h" by (rule inv_drop[OF inv f2 f1])
  then show ?thesis using True by (simp add: ensured_def)
qed (simp add: ensured_def)

text \<open>Threads are stored once per event.\<close>

abbreviation thread_keys :: "ingress \<Rightarrow> bool" where
  "thread_keys g \<equiv> distinct (map fst (ig_threads g))"

lemma keys_simps [simp]:
  "thread_keys g \<Longrightarrow> thread_keys (end_dispatch eid g)" "thread_keys g \<Longrightarrow> thread_keys (wait_at eid th p g)"
  "thread_keys (emit_out x g) = thread_keys g" "thread_keys g \<Longrightarrow> thread_keys (ensure_running eid th g)"
  by (simp_all add: end_dispatch_def wait_at_def emit_out_def ensure_running_def Let_def del_assoc_def distinct_upd_assoc distinct_filter_keys)

lemma keys_resolved: "thread_keys g \<Longrightarrow> thread_keys (resolved cfg now eid th a g)"
  by (simp add: resolved_def Let_def split: hub_answer.splits)

lemma keys_ensured: "thread_keys g \<Longrightarrow> thread_keys (ensured cfg now agent a g)"
proof -
  have one: "thread_keys h \<Longrightarrow> thread_keys (ensured_one cfg now a x h)" for x h
    by (simp add: ensured_one_def split_beta keys_resolved)
  have "thread_keys h \<Longrightarrow> thread_keys (fold (ensured_one cfg now a) xs h)" for xs h
    by (induction xs arbitrary: h) (simp_all add: one)
  then show "thread_keys g \<Longrightarrow> thread_keys (ensured cfg now agent a g)" by (simp add: ensured_def)
qed

lemma frame_threads: "ig_threads (onRuntimeFrame now i f g) = ig_threads g" "threads_inv (onRuntimeFrame now i f g) = threads_inv g"
proof -
  have "ig_threads (onRuntimeFrame now i f g) = ig_threads g \<and> ig_dispatching (onRuntimeFrame now i f g) = ig_dispatching g \<and>
      ig_ensuring (onRuntimeFrame now i f g) = ig_ensuring g"
    by (cases f) (simp_all add: onRuntimeFrame_def emit_out_def Let_def split_beta)
  then show "ig_threads (onRuntimeFrame now i f g) = ig_threads g" "threads_inv (onRuntimeFrame now i f g) = threads_inv g"
    by (simp_all add: threads_inv_def owning_def sharing_def)
qed

lemma begin_keys: "thread_keys g \<Longrightarrow> thread_keys (dispatch_begin now eid g)"
  by (simp add: dispatch_begin_def Let_def split: option.splits)

lemma ingest_threads:
  "threads_inv g \<Longrightarrow> threads_inv (snd (ingest cfg now eid gw msg pid g))" "thread_keys g \<Longrightarrow> thread_keys (snd (ingest cfg now eid gw msg pid g))"
  by (simp_all add: ingest_def inv_begin begin_keys split: option.splits)

lemma step_threads: "threads_inv g \<and> thread_keys g \<Longrightarrow> threads_inv (ingress_step cfg x g) \<and> thread_keys (ingress_step cfg x g)"
proof -
  assume inv: "threads_inv g \<and> thread_keys g"
  obtain now i where x: "x = (now, i)" by (cases x)
  have keys: "thread_keys (polled cfg now eid a g)" "thread_keys (session_answer cfg now eid r g)" "thread_keys (send_answer cfg now eid r g)" for eid a r
    using inv by (simp_all add: polled_def session_answer_def send_answer_def keys_resolved split: option.splits)
  have fields: "ig_threads (provider_answer now eid r g) = ig_threads g" "ig_dispatching (provider_answer now eid r g) = ig_dispatching g"
    "ig_ensuring (provider_answer now eid r g) = ig_ensuring g" for eid r
    by (simp_all add: provider_answer_def Let_def split: option.splits)
  have other: "threads_inv (g\<lparr>ig_providers := p\<rparr>)" "threads_inv (provider_answer now eid r g)" "thread_keys (provider_answer now eid r g)" for p eid r
    using inv inv_cong[of "g\<lparr>ig_providers := p\<rparr>" g] inv_cong[of "provider_answer now eid r g" g] fields by simp_all
  show ?thesis using inv keys other
    by (cases i) (simp_all add: x ingest_threads inv_begin begin_keys inv_polled inv_ensured keys_ensured inv_session inv_send frame_threads
        onRuntimeClose_def)
qed

interpretation dispatches: open_machine "ingress_step cfg" "\<lambda>g. threads_inv g \<and> thread_keys g" for cfg
  by unfold_locales (simp add: step_threads)


section \<open>Retries come due\<close>

lemma retryDelay_le: "retryDelayMs cfg n \<le> oc_retryMaxDelayMs cfg"
  by (simp add: retryDelayMs_def Let_def)

lemma getEvent_update: "getEvent eid (updateEvent now eid p s) = map_option (\<lambda>e. (p e)\<lparr>ie_eventId := eid, ie_updatedAt := now\<rparr>) (getEvent eid s)"
  by (simp add: updateEvent_def getEvent_def split: option.splits)

text \<open>A dispatch that fails for now is tried again: after the longest backoff has passed, the event it put back is
  queued and due, unless it is already being dispatched.\<close>

theorem requeued_event_comes_due:
  assumes "getEvent (ie_eventId e) s \<noteq> None" and "now + oc_retryMaxDelayMs cfg \<le> t" and "ie_eventId e \<notin> set (ig_dispatching g)"
  shows "\<exists>e'. getEvent (ie_eventId e) (requeueEvent cfg now e err s) = Some e' \<and> ie_status e' = EvQueued \<and> isDue cfg t e' g"
proof -
  let ?p = "\<lambda>e'. e'\<lparr>ie_status := EvQueued, ie_attemptCount := ie_attemptCount e + 1,
    ie_nextAttemptAt := Some (now + retryDelayMs cfg (ie_attemptCount e + 1)), ie_lastError := Some err\<rparr>"
  obtain y where y: "getEvent (ie_eventId e) s = Some y" using assms(1) by auto
  let ?e = "(?p y)\<lparr>ie_eventId := ie_eventId e, ie_updatedAt := now\<rparr>"
  have "getEvent (ie_eventId e) (requeueEvent cfg now e err s) = Some ?e" by (simp add: requeueEvent_def Let_def getEvent_update y)
  moreover have "isDue cfg t ?e g" using assms(2,3) retryDelay_le[of cfg "ie_attemptCount e + 1"] by (simp add: isDue_def)
  ultimately show ?thesis by force
qed

definition example_retry :: orchestrator_config where
  "example_retry = \<lparr>oc_dedupeCapacity = DEFAULT_DEDUPE_CAPACITY, oc_retryBaseDelayMs = DEFAULT_RETRY_BASE_DELAY_MS,
     oc_retryMaxDelayMs = DEFAULT_RETRY_MAX_DELAY_MS\<rparr>"

definition stored_event :: ingress_event where
  "stored_event = \<lparr>ie_eventId = ''e1'', ie_gatewayId = ''gw'', ie_agentId = ''ag'', ie_provider = ''telegram'', ie_providerEventId = ''p1'',
     ie_message = example_msg, ie_status = EvDelivering, ie_attemptCount = 1, ie_nextAttemptAt = None, ie_lastError = None,
     ie_createdAt = 0, ie_updatedAt = 0\<rparr>"

theorem requeued_event_comes_due_witness:
  "\<exists>e'. getEvent ''e1'' (requeueEvent example_retry 5 stored_event ''x'' ((ig_store empty_ingress)\<lparr>st_events := [(''e1'', stored_event)]\<rparr>)) = Some e' \<and>
     ie_status e' = EvQueued \<and> isDue example_retry 30005 e' empty_ingress"
  using requeued_event_comes_due[of stored_event "(ig_store empty_ingress)\<lparr>st_events := [(''e1'', stored_event)]\<rparr>" 5 example_retry 30005 empty_ingress "''x''"]
  by (simp add: getEvent_def stored_event_def example_retry_def DEFAULT_RETRY_MAX_DELAY_MS_def empty_ingress_def)

section \<open>Races with a running dispatch\<close>

definition double_reply_run :: "(int \<times> ingress_input) list" where
  "double_reply_run =
     [(0, InConnection \<lparr>gc_id = ''gw'', gc_agentId = ''ag'', gc_provider = ''telegram''\<rparr>), (0, InProviderUp ''gw''),
      (1, InIngest ''e1'' ''gw'' example_msg ''p1''), (2, InEnsured ''ag'' HubReady), (3, InSession ''e1'' None), (4, InSent ''e1'' None),
      (5, InClose ''ag'' ''code=1006''), (9000, InRetry ''e1''),
      (9001, InFrame ''d1'' (FrComplete ''e1'' ''gw'' ''c'' ''t'' ''hello'')), (9002, InProvider ''e1'' (Inr None)),
      (9003, InEnsured ''ag'' HubReady), (9004, InSession ''e1'' None), (9005, InSent ''e1'' None),
      (9006, InFrame ''d2'' (FrComplete ''e1'' ''gw'' ''c'' ''t'' ''hello''))]"

text \<open>
  A dispatch does not look at its event again after it has waited. When the reply of an earlier attempt
  arrives in between, the event is reopened, the message goes to the runtime once more, and its reply is
  sent to the provider a second time. Here the earlier attempt was put back because a session of the same
  agent closed.
\<close>

theorem stale_dispatch_doubles_reply:
  "filter (\<lambda>x. case x of OutProviderSend _ _ \<Rightarrow> True | _ \<Rightarrow> False) (ig_out (ingress_run example_retry double_reply_run)) =
     [OutProviderSend ''e1'' ''hello'', OutProviderSend ''e1'' ''hello'']"
  by (simp add: ingress_run_def double_reply_run_def empty_ingress_def ingest_def hasProviderEventId_def insertEvent_def getEvent_def
      listEventsByStatus_def appendDedupe_def dispatch_begin_def terminal_def shouldPollRuntimeFirst_def provisioning_def ensure_running_def
      wait_at_def emit_out_def ensured_def ensured_one_def resolved_def session_answer_def send_answer_def end_dispatch_def updateEvent_def
      onRuntimeClose_def close_event_def onRuntimeFrame_def ensureDeliveryFor_def getDeliveryByEvent_def listDeliveries_def insertDelivery_def
      provider_answer_def updateDelivery_def del_assoc_def startsWith_def shift_to_cap_eq Let_def)

text \<open>Without a dispatch in progress a delivered event stays delivered and its reply is not sent again.\<close>

lemma delivered_reply_not_repeated:
  assumes "getEvent eid (ig_store g) = Some e" "ie_status e = EvDelivered"
  shows "onRuntimeFrame now i (FrComplete eid gw cv t txt) g = g" and "thread_at g eid = None \<Longrightarrow> dispatch_begin now eid g = g"
  using assms by (simp_all add: onRuntimeFrame_def dispatch_begin_def terminal_def)

text \<open>A late negative acknowledgement overwrites the outcome of a delivered event.\<close>

lemma late_nack_overwrites_delivered:
  assumes "getEvent eid (ig_store g) = Some e"
  shows "\<exists>e'. getEvent eid (ig_store (onRuntimeFrame now i (FrAck eid False None) g)) = Some e' \<and> ie_status e' = EvFailed"
  using assms by (simp add: onRuntimeFrame_def set_failed_def getEvent_update)

section \<open>Text hashes\<close>

text \<open>One step is multiplication by 33 modulo \<open>2 ^ 32\<close>, then an exclusive or with the code unit.\<close>

lemma hash_step_arith: "unat (hash_step h c) = (33 * unat h mod 2 ^ 32) XOR of_char c"
proof -
  have "push_bit 5 h + h = 33 * h" by (simp add: push_bit_eq_mult)
  moreover have "unat (33 * h) = 33 * unat h mod 2 ^ 32" by (simp add: unat_word_ariths)
  moreover have "unat (of_nat (of_char c) :: 32 word) = of_char c"
    using less_trans[OF nat_of_char_less_256[of c], of "2 ^ 32"] by (simp add: unat_of_nat)
  ultimately show ?thesis by (simp add: hash_step_def unsigned_xor_eq)
qed

definition base36_val :: "string \<Rightarrow> nat" where
  "base36_val s = foldl (\<lambda>a c. 36 * a + (let n = of_char c in if n < 58 then n - 48 else n - 87)) 0 s"

declare base36.simps [simp del]

lemma base36_digit_val: "d < 36 \<Longrightarrow> (let n = of_char (base36_digit d) in if n < 58 then n - 48 else n - 87) = d"
proof -
  assume "d < 36"
  then have "d \<in> set [0..<36]" by simp
  moreover have "list_all (\<lambda>d. (let n = of_char (base36_digit d) in if n < 58 then n - 48 else n - 87) = d) [0..<36]" by code_simp
  ultimately show ?thesis by (simp add: list_all_iff)
qed

lemma base36_round_trip: "base36_val (base36 n) = n"
proof (induction n rule: base36.induct)
  case (1 n)
  show ?case
  proof (cases "n < 36")
    case True
    then show ?thesis using base36_digit_val[OF True] by (simp add: base36.simps base36_val_def)
  next
    case False
    then show ?thesis using 1 base36_digit_val[of "n mod 36"] by (subst base36.simps) (simp add: base36_val_def)
  qed
qed

lemma length_base36: "n < 36 ^ Suc k \<Longrightarrow> length (base36 n) \<le> Suc k"
proof (induction k arbitrary: n)
  case (Suc k)
  then have "n div 36 < 36 ^ Suc k" by (simp add: less_mult_imp_div_less mult.commute)
  then show ?case using Suc.IH[of "n div 36"] by (subst base36.simps) simp
qed (subst base36.simps, simp)

text \<open>The recorded hash of a text is at most seven base-36 digits and determines the 32-bit state it stands for.\<close>

theorem hashText_digits:
  "length (hashText t) \<le> 7 \<and> base36_val (hashText t) = unat (foldl hash_step 5381 t)"
proof -
  have "unat (foldl hash_step 5381 t) < 2 ^ 32" using unsigned_less[of "foldl hash_step 5381 t", where ?'a = nat] by simp
  then have "unat (foldl hash_step 5381 t) < 36 ^ Suc 6" by simp
  then have "length (base36 (unat (foldl hash_step 5381 t))) \<le> Suc 6" by (rule length_base36)
  then show ?thesis by (simp add: hashText_def base36_round_trip)
qed

section \<open>Runtime sessions\<close>

text \<open>
  \<open>RuntimeSessionManager\<close>: one socket per agent and gateway. A socket is a number with a state; its events reach
  the listeners that were registered when it was opened, whatever has replaced it since.
\<close>

datatype socket_state = SoConnecting | SoOpen | SoClosing | SoClosed

record session_manager =
  sm_sessions :: "string \<rightharpoonup> nat"
  sm_sockets :: "nat \<Rightarrow> socket_state"
  sm_next :: nat
  sm_listeners :: "nat \<Rightarrow> string \<times> string"
  sm_closed :: "string list"

definition runtimeSessionKey :: "string \<Rightarrow> string \<Rightarrow> string" where
  "runtimeSessionKey agentId gatewayId = agentId @ '':'' @ gatewayId"

text \<open>\<open>closeSession\<close> asks the socket to close and forgets it; the socket's own close event comes later.\<close>

definition closeSession :: "string \<Rightarrow> string \<Rightarrow> session_manager \<Rightarrow> session_manager" where
  "closeSession agentId gatewayId m =
     (case sm_sessions m (runtimeSessionKey agentId gatewayId) of
        None \<Rightarrow> m
      | Some sock \<Rightarrow>
          m\<lparr>sm_sockets := (sm_sockets m)(sock := (if sm_sockets m sock = SoClosed then SoClosed else SoClosing)),
            sm_sessions := (sm_sessions m)(runtimeSessionKey agentId gatewayId := None)\<rparr>)"

text \<open>\<open>ensureSession\<close>: an open session is reused; otherwise the old one is closed and a socket is opened, in the
  state the factory returns it in.\<close>

definition ensureSession :: "string \<Rightarrow> string \<Rightarrow> socket_state \<Rightarrow> session_manager \<Rightarrow> session_manager" where
  "ensureSession agentId gatewayId opened m =
     (let key = runtimeSessionKey agentId gatewayId
      in case sm_sessions m key of
           Some sock \<Rightarrow>
             (if sm_sockets m sock = SoOpen then m
              else
                let m1 = closeSession agentId gatewayId m
                in m1\<lparr>sm_sessions := (sm_sessions m1)(key \<mapsto> sm_next m), sm_sockets := (sm_sockets m1)(sm_next m := opened),
                      sm_listeners := (sm_listeners m1)(sm_next m := (agentId, gatewayId)), sm_next := Suc (sm_next m)\<rparr>)
         | None \<Rightarrow>
             m\<lparr>sm_sessions := (sm_sessions m)(key \<mapsto> sm_next m), sm_sockets := (sm_sockets m)(sm_next m := opened),
               sm_listeners := (sm_listeners m)(sm_next m := (agentId, gatewayId)), sm_next := Suc (sm_next m)\<rparr>)"

text \<open>The close event of a socket deletes the session of its key and tells the orchestrator.\<close>

definition socket_closed :: "nat \<Rightarrow> session_manager \<Rightarrow> session_manager" where
  "socket_closed sock m =
     (let (agentId, gatewayId) = sm_listeners m sock
      in m\<lparr>sm_sockets := (sm_sockets m)(sock := SoClosed),
           sm_sessions := (sm_sessions m)(runtimeSessionKey agentId gatewayId := None), sm_closed := sm_closed m @ [agentId]\<rparr>)"

definition sendInbound :: "string \<Rightarrow> string \<Rightarrow> session_manager \<Rightarrow> string + nat" where
  "sendInbound agentId gatewayId m =
     (case sm_sessions m (runtimeSessionKey agentId gatewayId) of
        None \<Rightarrow> Inl (''no runtime session for '' @ agentId @ ''/'' @ gatewayId)
      | Some sock \<Rightarrow>
          (if sm_sockets m sock \<noteq> SoOpen then Inl (''runtime session for '' @ agentId @ ''/'' @ gatewayId @ '' is not open'') else Inr sock))"

text \<open>After \<open>ensureSession\<close> with an open socket, frames go out on an open socket of that very agent and gateway.\<close>

lemma ensured_session_sends:
  assumes "\<forall>k s. sm_sessions m k = Some s \<longrightarrow> s < sm_next m \<and> k = runtimeSessionKey (fst (sm_listeners m s)) (snd (sm_listeners m s))"
  shows "\<exists>sock. sendInbound agentId gatewayId (ensureSession agentId gatewayId SoOpen m) = Inr sock \<and>
    runtimeSessionKey (fst (sm_listeners (ensureSession agentId gatewayId SoOpen m) sock)) (snd (sm_listeners (ensureSession agentId gatewayId SoOpen m) sock)) =
      runtimeSessionKey agentId gatewayId"
  using assms by (auto simp: ensureSession_def sendInbound_def closeSession_def Let_def split: option.splits)

definition fresh_manager :: session_manager where
  "fresh_manager = \<lparr>sm_sessions = Map.empty, sm_sockets = (\<lambda>_. SoClosed), sm_next = 0, sm_listeners = (\<lambda>_. ([], [])), sm_closed = []\<rparr>"

text \<open>A stale socket's close event takes the session that replaced it: the listener deletes by key, without
  looking at the socket, so the next frame finds no session although its socket is open.\<close>

lemma stale_close_drops_new_session:
  "let m = ensureSession ''ag'' ''gw'' SoOpen ((ensureSession ''ag'' ''gw'' SoOpen fresh_manager)\<lparr>sm_sockets := (\<lambda>_. SoClosing)\<rparr>)
   in sm_sockets m 1 = SoOpen \<and> sendInbound ''ag'' ''gw'' m = Inr 1 \<and>
      sendInbound ''ag'' ''gw'' (socket_closed 0 m) = Inl ''no runtime session for ag/gw''"
  by (simp add: ensureSession_def closeSession_def socket_closed_def sendInbound_def fresh_manager_def runtimeSessionKey_def Let_def)

end
