(* ===== verification/Control_Channel.thy ===== *)
theory Control_Channel
  imports Canonical_Json Event_Machine
begin

text \<open>
  The control-plane connection of the daemon (\<open>daemon/src/control-channel.ts\<close>) and the choice of
  the Hub keys it trusts (\<open>protocol-core/src/daemon-client.ts\<close>).

  \<^item> A socket is named by the connection number it was created with; \<open>cc_ready\<close> is what the
    socket object reports as its \<open>readyState\<close>. The asynchronous parts of \<open>connect\<close> are separate
    events: the access token arrives (or not), the socket opens (or fails), and from then on it
    delivers messages and at last closes. The calls that wait are part of the state, so every
    interleaving of two connection attempts, a stop and a timer is a sequence of events.
  \<^item> \<open>verifyEd25519\<close> and the number printer of JSON are parameters.
  \<^item> Frames are the values \<open>JSON.parse\<close> returns; the moment of receipt is an argument.
  \<^item> What the channel does to the outside is appended to \<open>cc_fx\<close>.
\<close>

section \<open>Trusted keys\<close>

definition HUB_CONTROL_PUBLIC_KEY :: string where
  "HUB_CONTROL_PUBLIC_KEY = ''H8lKtrtJclp+M69dh0n0avdia/kN8fy1tYUSrQFpDxY=''"

definition HUB_CONTROL_PROD_PUBLIC_KEY :: string where
  "HUB_CONTROL_PROD_PUBLIC_KEY = ''rAwrS4u4dsOKJoMCfp31a7wupSfopfCdnHOqntUD890=''"

definition HUB_CONTROL_DEFAULT_PUBLIC_KEYS :: "string list" where
  "HUB_CONTROL_DEFAULT_PUBLIC_KEYS = [HUB_CONTROL_PUBLIC_KEY, HUB_CONTROL_PROD_PUBLIC_KEY]"

text \<open>\<open>ring.split(/[\n,]/)\<close>: split at either separator.\<close>

definition split_ring :: "string \<Rightarrow> string list" where
  "split_ring r = split_on (CHR '','') (map (\<lambda>c. if c = newline then CHR '','' else c) r)"

text \<open>The two environment variables are arguments, \<open>None\<close> when unset.\<close>

definition resolveHubControlPublicKeys :: "string option \<Rightarrow> string option \<Rightarrow> string list" where
  "resolveHubControlPublicKeys ring legacy =
     (let fallback =
        (case legacy of
           Some l \<Rightarrow> if trim l \<noteq> [] then [trim l] else HUB_CONTROL_DEFAULT_PUBLIC_KEYS
         | None \<Rightarrow> HUB_CONTROL_DEFAULT_PUBLIC_KEYS)
      in case ring of
           Some r \<Rightarrow>
             (if trim r \<noteq> [] then
                (let keys = js_uniq (filter (\<lambda>k. k \<noteq> []) (map trim (split_ring r)))
                 in if keys \<noteq> [] then keys else fallback)
              else fallback)
         | None \<Rightarrow> fallback)"

definition resolveHubControlPublicKey :: "string option \<Rightarrow> string option \<Rightarrow> string option" where
  "resolveHubControlPublicKey ring legacy =
     (case resolveHubControlPublicKeys ring legacy of k # _ \<Rightarrow> Some k | [] \<Rightarrow> None)"

text \<open>An option that may be left out (\<open>Omitted\<close>) or given, \<open>None\<close> then standing for \<open>null\<close>.\<close>

datatype 'a opt_arg = Omitted | Given "'a option"

definition channel_keys ::
  "string list opt_arg \<Rightarrow> string opt_arg \<Rightarrow> string option \<Rightarrow> string option \<Rightarrow> string list" where
  "channel_keys hubPublicKeys hubPublicKey ring legacy =
     (case hubPublicKeys of
        Given ks \<Rightarrow> js_uniq (filter (\<lambda>k. k \<noteq> []) (case ks of Some l \<Rightarrow> l | None \<Rightarrow> []))
      | Omitted \<Rightarrow>
          (case hubPublicKey of
             Given (Some k) \<Rightarrow> if k \<noteq> [] then [k] else []
           | Given None \<Rightarrow> []
           | Omitted \<Rightarrow> resolveHubControlPublicKeys ring legacy))"

section \<open>The signing input\<close>

definition signed_object :: "jsval \<Rightarrow> jsval" where
  "signed_object frame =
     JObj [(''id'', get_prop frame ''id''),
           (''type'', get_prop frame ''type''),
           (''params'', case get_prop frame ''params'' of JUndef \<Rightarrow> JObj [] | JNull \<Rightarrow> JObj [] | p \<Rightarrow> p),
           (''ts'', case get_prop frame ''ts'' of JNum n \<Rightarrow> JNum n | _ \<Rightarrow> JNum (Fin 0))]"

definition controlSigningInput :: "(rat \<Rightarrow> string) \<Rightarrow> jsval \<Rightarrow> string" where
  "controlSigningInput ns frame =
     (case jcsCanonicalize ns (signed_object frame) of Some c \<Rightarrow> c | None \<Rightarrow> ''{}'')"

section \<open>State\<close>

datatype ready_state = WsConnecting | WsOpen | WsClosing | WsClosed

text \<open>Who called \<open>connect\<close>: \<open>start\<close>, whose promise the caller awaits, or the reconnect timer.\<close>

datatype connect_origin = FromStart | FromTimer

datatype control_fx =
    FxSend nat jsval
  | FxCloseSocket nat
  | FxAuthExpired
  | FxHandle rat jsval
  | FxRevoke rat jsval
  | FxStartSettled bool

record control_cfg =
  cfg_keys :: "string list"
  cfg_backoff :: "nat list"

record control_channel =
  cc_ws :: "nat option"
  cc_stopRequested :: bool
  cc_reconnectAttempts :: nat
  cc_reconnectTimer :: "nat option"
  cc_keepaliveTimer :: bool
  cc_seenFrameIds :: "string list"
  cc_connectInflight :: bool
  cc_connected :: bool
  cc_connectionSeq :: nat
  cc_ready :: "nat \<Rightarrow> ready_state"
  cc_tokenWaits :: "connect_origin list"
  cc_opening :: "nat \<rightharpoonup> connect_origin"
  cc_listening :: "nat \<Rightarrow> bool"
  cc_running :: "jsval list"
  cc_fx :: "control_fx list"

definition new_channel :: control_channel where
  "new_channel =
     \<lparr> cc_ws = None, cc_stopRequested = False, cc_reconnectAttempts = 0, cc_reconnectTimer = None,
       cc_keepaliveTimer = False, cc_seenFrameIds = [], cc_connectInflight = False,
       cc_connected = False, cc_connectionSeq = 0, cc_ready = (\<lambda>_. WsClosed), cc_tokenWaits = [],
       cc_opening = Map.empty, cc_listening = (\<lambda>_. False), cc_running = [], cc_fx = [] \<rparr>"

definition cc_emit :: "control_fx list \<Rightarrow> control_channel \<Rightarrow> control_channel" where
  "cc_emit fx s = s\<lparr>cc_fx := cc_fx s @ fx\<rparr>"

definition REPLAY_DEDUPE_CAP :: nat where
  "REPLAY_DEDUPE_CAP = 256"

definition RECONNECT_BACKOFF_MS :: "nat list" where
  "RECONNECT_BACKOFF_MS = [1000, 2000, 4000, 8000, 16000, 30000]"

text \<open>\<open>ws && (CONNECTING || OPEN)\<close> of the current socket.\<close>

definition socket_active :: "control_channel \<Rightarrow> bool" where
  "socket_active s = (case cc_ws s of Some n \<Rightarrow> cc_ready s n \<in> {WsConnecting, WsOpen} | None \<Rightarrow> False)"

definition socket_open :: "control_channel \<Rightarrow> bool" where
  "socket_open s = (case cc_ws s of Some n \<Rightarrow> cc_ready s n = WsOpen | None \<Rightarrow> False)"

text \<open>\<open>this.ws !== ws || connectionId !== this.connectionSeq\<close>\<close>

definition stale_socket :: "control_channel \<Rightarrow> nat \<Rightarrow> bool" where
  "stale_socket s n \<longleftrightarrow> cc_ws s \<noteq> Some n \<or> n \<noteq> cc_connectionSeq s"

text \<open>\<open>ws.close\<close>: an open or connecting socket starts closing.\<close>

definition close_socket :: "nat \<Rightarrow> control_channel \<Rightarrow> control_channel" where
  "close_socket n s =
     cc_emit [FxCloseSocket n]
       (s\<lparr>cc_ready := (if cc_ready s n = WsClosed then cc_ready s else (cc_ready s)(n := WsClosing))\<rparr>)"

section \<open>Sending\<close>

definition send :: "jsval \<Rightarrow> control_channel \<Rightarrow> bool \<times> control_channel" where
  "send frame s =
     (case cc_ws s of
        Some n \<Rightarrow> if cc_ready s n = WsOpen then (True, cc_emit [FxSend n frame] s) else (False, s)
      | None \<Rightarrow> (False, s))"

definition sendAck :: "jsval \<Rightarrow> control_channel \<Rightarrow> control_channel" where
  "sendAck ack s =
     (case cc_ws s of
        Some n \<Rightarrow> if cc_ready s n = WsOpen then cc_emit [FxSend n ack] s else s
      | None \<Rightarrow> s)"

definition ack_error :: "string \<Rightarrow> string \<Rightarrow> string \<Rightarrow> jsval" where
  "ack_error i code message =
     JObj [(''id'', JStr i), (''ok'', JBool False),
           (''error'', JObj [(''code'', JStr code), (''message'', JStr message)])]"

definition ack_ok :: "string \<Rightarrow> string \<Rightarrow> jsval" where
  "ack_ok i flag = JObj [(''id'', JStr i), (''ok'', JBool True), (''result'', JObj [(flag, JBool True)])]"

section \<open>Connecting\<close>

text \<open>\<open>r\<close> is the value of \<open>Math.random()\<close>, in \<open>[0, 1)\<close>.\<close>

definition withReconnectJitter :: "rat \<Rightarrow> nat \<Rightarrow> nat" where
  "withReconnectJitter r delayMs = delayMs + nat \<lfloor>r * of_nat delayMs * (1 / 4)\<rfloor>"

text \<open>An empty schedule gives an undefined delay, which \<open>setTimeout\<close> takes as one millisecond.\<close>

definition reconnect_delay :: "control_cfg \<Rightarrow> rat \<Rightarrow> nat \<Rightarrow> nat" where
  "reconnect_delay cfg r attempt =
     (if cfg_backoff cfg = [] then 1
      else withReconnectJitter r (cfg_backoff cfg ! min attempt (length (cfg_backoff cfg) - 1)))"

definition scheduleReconnect :: "control_cfg \<Rightarrow> rat \<Rightarrow> bool \<Rightarrow> control_channel \<Rightarrow> control_channel" where
  "scheduleReconnect cfg r refresh_rejected s =
     (if cc_stopRequested s then s
      else if cc_reconnectTimer s \<noteq> None then s
      else if socket_active s then s
      else if refresh_rejected then s\<lparr>cc_stopRequested := True\<rparr>
      else s\<lparr>cc_reconnectAttempts := cc_reconnectAttempts s + 1,
             cc_reconnectTimer := Some (reconnect_delay cfg r (cc_reconnectAttempts s))\<rparr>)"

text \<open>The promise of a \<open>connect\<close> call settles: \<open>start\<close> clears \<open>connectInflight\<close> and returns, the
  timer's call is done.\<close>

definition connect_resolved :: "connect_origin \<Rightarrow> control_channel \<Rightarrow> control_channel" where
  "connect_resolved orig s =
     (case orig of
        FromStart \<Rightarrow> cc_emit [FxStartSettled True] (s\<lparr>cc_connectInflight := False\<rparr>)
      | FromTimer \<Rightarrow> s)"

definition connect_rejected ::
  "control_cfg \<Rightarrow> rat \<Rightarrow> bool \<Rightarrow> connect_origin \<Rightarrow> control_channel \<Rightarrow> control_channel" where
  "connect_rejected cfg r refresh_rejected orig s =
     (case orig of
        FromStart \<Rightarrow>
          cc_emit [FxStartSettled False]
            ((if refresh_rejected then s\<lparr>cc_stopRequested := True\<rparr>
              else scheduleReconnect cfg r False s)\<lparr>cc_connectInflight := False\<rparr>)
      | FromTimer \<Rightarrow> scheduleReconnect cfg r refresh_rejected s)"

text \<open>\<open>connect\<close> up to its first suspension. \<open>auth\<close> tells whether a user-auth record is loaded.\<close>

definition connect :: "control_cfg \<Rightarrow> rat \<Rightarrow> bool \<Rightarrow> connect_origin \<Rightarrow> control_channel \<Rightarrow> control_channel" where
  "connect cfg r auth orig s =
     (if \<not> auth then connect_rejected cfg r False orig s
      else if socket_active s then connect_resolved orig s
      else s\<lparr>cc_reconnectTimer := None, cc_tokenWaits := cc_tokenWaits s @ [orig]\<rparr>)"

text \<open>What \<open>ensureAccessToken\<close> (or the URL check after it) came to.\<close>

datatype token_outcome = TokenOk | TokenError | TokenRefreshRejected

definition remove_nth :: "nat \<Rightarrow> 'a list \<Rightarrow> 'a list" where
  "remove_nth k xs = take k xs @ drop (Suc k) xs"

definition on_token :: "control_cfg \<Rightarrow> rat \<Rightarrow> nat \<Rightarrow> token_outcome \<Rightarrow> control_channel \<Rightarrow> control_channel" where
  "on_token cfg r k out s =
     (if k < length (cc_tokenWaits s) then
        (let orig = cc_tokenWaits s ! k; s = s\<lparr>cc_tokenWaits := remove_nth k (cc_tokenWaits s)\<rparr>
         in case out of
              TokenOk \<Rightarrow>
                (let n = cc_connectionSeq s + 1
                 in s\<lparr>cc_connectionSeq := n, cc_ready := (cc_ready s)(n := WsConnecting),
                      cc_ws := Some n, cc_opening := (cc_opening s)(n \<mapsto> orig)\<rparr>)
            | TokenError \<Rightarrow> connect_rejected cfg r False orig s
            | TokenRefreshRejected \<Rightarrow> connect_rejected cfg r True orig s)
      else s)"

text \<open>The socket's first \<open>open\<close> event; afterwards the message and close listeners are attached.\<close>

definition on_open :: "nat \<Rightarrow> control_channel \<Rightarrow> control_channel" where
  "on_open n s =
     (case cc_opening s n of
        Some orig \<Rightarrow>
          (if cc_ready s n = WsConnecting then
             (let s = s\<lparr>cc_ready := (cc_ready s)(n := WsOpen), cc_opening := (cc_opening s)(n := None)\<rparr>;
                  s = (if cc_stopRequested s \<or> stale_socket s n then close_socket n s
                       else s\<lparr>cc_connected := True, cc_reconnectAttempts := 0, cc_keepaliveTimer := True\<rparr>)
              in connect_resolved orig (s\<lparr>cc_listening := (cc_listening s)(n := True)\<rparr>))
           else s)
      | None \<Rightarrow> s)"

text \<open>The socket's \<open>error\<close> event before it opened.\<close>

definition on_error :: "control_cfg \<Rightarrow> rat \<Rightarrow> nat \<Rightarrow> control_channel \<Rightarrow> control_channel" where
  "on_error cfg r n s =
     (case cc_opening s n of
        Some orig \<Rightarrow>
          (let s = s\<lparr>cc_ready := (cc_ready s)(n := WsClosing), cc_opening := (cc_opening s)(n := None)\<rparr>
           in if stale_socket s n
              then connect_resolved orig (s\<lparr>cc_listening := (cc_listening s)(n := True)\<rparr>)
              else connect_rejected cfg r False orig s)
      | None \<Rightarrow> s)"

definition start :: "control_cfg \<Rightarrow> rat \<Rightarrow> bool \<Rightarrow> control_channel \<Rightarrow> control_channel" where
  "start cfg r auth s =
     (if \<not> auth then cc_emit [FxStartSettled False] s
      else if cc_connectInflight s then s
      else connect cfg r auth FromStart (s\<lparr>cc_stopRequested := False, cc_connectInflight := True\<rparr>))"

definition stop :: "control_channel \<Rightarrow> control_channel" where
  "stop s =
     (let s' = s\<lparr>cc_stopRequested := True, cc_reconnectTimer := None, cc_keepaliveTimer := False,
                 cc_ws := None, cc_connected := False\<rparr>
      in case cc_ws s of Some n \<Rightarrow> close_socket n s' | None \<Rightarrow> s')"

definition auth_close_code :: "int \<Rightarrow> bool" where
  "auth_close_code code \<longleftrightarrow> code = 4401 \<or> code = 4403 \<or> code = 1008"

definition onClose :: "control_cfg \<Rightarrow> rat \<Rightarrow> int \<Rightarrow> nat \<Rightarrow> control_channel \<Rightarrow> control_channel" where
  "onClose cfg r code n s =
     (if stale_socket s n then s
      else
        (let s = s\<lparr>cc_connected := False, cc_keepaliveTimer := False, cc_ws := None\<rparr>
         in if auth_close_code code then cc_emit [FxAuthExpired] (s\<lparr>cc_stopRequested := True\<rparr>)
            else if cc_stopRequested s then s
            else scheduleReconnect cfg r False s))"

definition on_timer :: "control_cfg \<Rightarrow> rat \<Rightarrow> bool \<Rightarrow> control_channel \<Rightarrow> control_channel" where
  "on_timer cfg r auth s =
     (if cc_reconnectTimer s = None then s
      else
        (let s = s\<lparr>cc_reconnectTimer := None\<rparr>
         in if cc_stopRequested s then s else connect cfg r auth FromTimer s))"

text \<open>One beat of the keepalive interval; the random suffix of the heartbeat id is an argument.\<close>

definition on_keepalive :: "rat \<Rightarrow> string \<Rightarrow> control_channel \<Rightarrow> control_channel" where
  "on_keepalive now hb_id s =
     (if cc_keepaliveTimer s \<and> socket_open s
      then snd (send (JObj [(''id'', JStr hb_id), (''type'', JStr ''pong''), (''ts'', JNum (Fin now))]) s)
      else s)"

section \<open>Receiving\<close>

definition REPLAY_WINDOW_MS :: rat where
  "REPLAY_WINDOW_MS = 5 * 60 * 1000"

text \<open>The comparison \<open>Math.abs(Date.now() - ts) > window\<close>; it is false for \<open>NaN\<close>.\<close>

definition stale_ts :: "rat \<Rightarrow> jsval \<Rightarrow> bool" where
  "stale_ts now ts =
     (case ts of
        JNum (Fin t) \<Rightarrow> abs (now - t) > REPLAY_WINDOW_MS
      | JNum NaN \<Rightarrow> False
      | JNum _ \<Rightarrow> True
      | _ \<Rightarrow> False)"

text \<open>The message of a rejection for its timestamp names the skew.\<close>

definition stale_message :: "(rat \<Rightarrow> string) \<Rightarrow> rat \<Rightarrow> jsval \<Rightarrow> string" where
  "stale_message ns now ts =
     ''timestamp skew '' @
     (case ts of JNum (Fin t) \<Rightarrow> ns (abs (now - t)) | _ \<Rightarrow> ''Infinity'') @ ''ms exceeds window''"

text \<open>The checks of \<open>onMessage\<close> before the duplicate check: \<open>Inl\<close> an optional negative
  acknowledgement, \<open>Inr\<close> the frame's id.\<close>

definition vet_frame ::
  "(rat \<Rightarrow> string) \<Rightarrow> (string \<Rightarrow> string \<Rightarrow> string \<Rightarrow> bool) \<Rightarrow> string list \<Rightarrow> rat \<Rightarrow> jsval \<Rightarrow> jsval option + string" where
  "vet_frame ns verify keys now frame =
     (case (get_prop frame ''id'', get_prop frame ''type'') of
        (JStr i, JStr _) \<Rightarrow>
          (if stale_ts now (get_prop frame ''ts'')
           then Inl (Some (ack_error i ''stale_ts'' (stale_message ns now (get_prop frame ''ts''))))
           else if keys \<noteq> [] then
             (case get_prop frame ''sig'' of
                JStr sig \<Rightarrow>
                  (if sig = [] then Inl (Some (ack_error i ''unsigned'' ''hub signature required''))
                   else if list_ex (\<lambda>key. verify key (controlSigningInput ns frame) sig) keys then Inr i
                   else Inl (Some (ack_error i ''bad_signature'' ''hub signature did not verify'')))
              | _ \<Rightarrow> Inl (Some (ack_error i ''unsigned'' ''hub signature required'')))
           else Inr i)
      | _ \<Rightarrow> Inl None)"

text \<open>\<open>seenFrameIds.push\<close> and the splice that keeps the last 256.\<close>

definition remember_id :: "string \<Rightarrow> string list \<Rightarrow> string list" where
  "remember_id i seen =
     (let seen' = seen @ [i]
      in if length seen' > REPLAY_DEDUPE_CAP then drop (length seen' - REPLAY_DEDUPE_CAP) seen' else seen')"

definition onMessage ::
  "(rat \<Rightarrow> string) \<Rightarrow> (string \<Rightarrow> string \<Rightarrow> string \<Rightarrow> bool) \<Rightarrow> control_cfg \<Rightarrow> rat \<Rightarrow> jsval option
     \<Rightarrow> control_channel \<Rightarrow> control_channel" where
  "onMessage ns verify cfg now data s =
     (case data of
        None \<Rightarrow> s
      | Some frame \<Rightarrow>
          (case vet_frame ns verify (cfg_keys cfg) now frame of
             Inl None \<Rightarrow> s
           | Inl (Some ack) \<Rightarrow> sendAck ack s
           | Inr i \<Rightarrow>
               (if i \<in> set (cc_seenFrameIds s) then sendAck (ack_ok i ''duplicate'') s
                else
                  (let s = s\<lparr>cc_seenFrameIds := remember_id i (cc_seenFrameIds s)\<rparr>
                   in if get_prop frame ''type'' = JStr ''revoke''
                      then stop (sendAck (ack_ok i ''acknowledged'')
                                   (cc_emit [FxRevoke now frame, FxAuthExpired] s))
                      else cc_emit [FxHandle now frame] (s\<lparr>cc_running := cc_running s @ [frame]\<rparr>)))))"

text \<open>The handler's promise settles: a result object, nothing, or an exception's message.\<close>

datatype handler_outcome = HandlerResult "(string \<times> jsval) list" | HandlerVoid | HandlerThrew string

definition handler_ack :: "string \<Rightarrow> handler_outcome \<Rightarrow> jsval" where
  "handler_ack i out =
     (case out of
        HandlerResult ps \<Rightarrow> JObj (foldl (\<lambda>qs (k, v). upd_assoc qs k v) [(''id'', JStr i)] ps)
      | HandlerVoid \<Rightarrow> JObj [(''id'', JStr i), (''ok'', JBool True)]
      | HandlerThrew m \<Rightarrow> ack_error i ''handler_error'' m)"

definition on_handled :: "nat \<Rightarrow> handler_outcome \<Rightarrow> control_channel \<Rightarrow> control_channel" where
  "on_handled k out s =
     (if k < length (cc_running s) then
        sendAck (handler_ack (case get_prop (cc_running s ! k) ''id'' of JStr i \<Rightarrow> i | _ \<Rightarrow> []) out)
          (s\<lparr>cc_running := remove_nth k (cc_running s)\<rparr>)
      else s)"

section \<open>Runs\<close>

datatype control_event =
    EvStart rat bool
  | EvStop
  | EvSend jsval
  | EvToken rat nat token_outcome
  | EvOpen nat
  | EvError rat nat
  | EvClose rat nat int
  | EvMessage nat rat "jsval option"
  | EvTimer rat bool
  | EvKeepalive rat string
  | EvHandled nat handler_outcome

text \<open>A socket delivers to the listeners \<open>connect\<close> attached once it opened; a message of a stale
  socket is dropped by its listener.\<close>

fun control_step ::
  "(rat \<Rightarrow> string) \<Rightarrow> (string \<Rightarrow> string \<Rightarrow> string \<Rightarrow> bool) \<Rightarrow> control_cfg \<Rightarrow> control_event
     \<Rightarrow> control_channel \<Rightarrow> control_channel" where
  "control_step ns verify cfg (EvStart r auth) s = start cfg r auth s"
| "control_step ns verify cfg EvStop s = stop s"
| "control_step ns verify cfg (EvSend frame) s = snd (send frame s)"
| "control_step ns verify cfg (EvToken r k out) s = on_token cfg r k out s"
| "control_step ns verify cfg (EvOpen n) s = on_open n s"
| "control_step ns verify cfg (EvError r n) s = on_error cfg r n s"
| "control_step ns verify cfg (EvClose r n code) s =
     (if cc_ready s n = WsClosed \<or> cc_opening s n \<noteq> None then s
      else
        (let s = s\<lparr>cc_ready := (cc_ready s)(n := WsClosed)\<rparr>
         in if cc_listening s n then onClose cfg r code n s else s))"
| "control_step ns verify cfg (EvMessage n now data) s =
     (if cc_listening s n \<and> cc_ready s n \<noteq> WsClosed \<and> \<not> stale_socket s n
      then onMessage ns verify cfg now data s else s)"
| "control_step ns verify cfg (EvTimer r auth) s = on_timer cfg r auth s"
| "control_step ns verify cfg (EvKeepalive now hb) s = on_keepalive now hb s"
| "control_step ns verify cfg (EvHandled k out) s = on_handled k out s"

definition control_run ::
  "(rat \<Rightarrow> string) \<Rightarrow> (string \<Rightarrow> string \<Rightarrow> string \<Rightarrow> bool) \<Rightarrow> control_cfg \<Rightarrow> control_event list
     \<Rightarrow> control_channel \<Rightarrow> control_channel" where
  "control_run ns verify cfg evs s = fold (control_step ns verify cfg) evs s"


section \<open>What a step leaves alone\<close>

text \<open>The frames the daemon acted on, with the moment each was received: handed to the handler, or
  a revocation.\<close>

definition acted_fx :: "control_fx \<Rightarrow> (rat \<times> jsval) option" where
  "acted_fx fx = (case fx of FxHandle t f \<Rightarrow> Some (t, f) | FxRevoke t f \<Rightarrow> Some (t, f) | _ \<Rightarrow> None)"

definition accepted :: "control_channel \<Rightarrow> (rat \<times> jsval) list" where
  "accepted s = List.map_filter acted_fx (cc_fx s)"

definition frame_id :: "jsval \<Rightarrow> string" where
  "frame_id frame = (case get_prop frame ''id'' of JStr i \<Rightarrow> i | _ \<Rightarrow> [])"

text \<open>The intake: what has been acted on and which ids are remembered.\<close>

definition intake :: "control_channel \<Rightarrow> (rat \<times> jsval) list \<times> string list" where
  "intake s = (accepted s, cc_seenFrameIds s)"

lemma intake_updates [frame_simps]:
  "intake (s\<lparr>cc_ws := a\<rparr>) = intake s"
  "intake (s\<lparr>cc_stopRequested := b\<rparr>) = intake s"
  "intake (s\<lparr>cc_reconnectAttempts := n\<rparr>) = intake s"
  "intake (s\<lparr>cc_reconnectTimer := t\<rparr>) = intake s"
  "intake (s\<lparr>cc_keepaliveTimer := b\<rparr>) = intake s"
  "intake (s\<lparr>cc_seenFrameIds := q\<rparr>) = (fst (intake s), q)"
  "intake (s\<lparr>cc_connectInflight := b\<rparr>) = intake s"
  "intake (s\<lparr>cc_connected := b\<rparr>) = intake s"
  "intake (s\<lparr>cc_connectionSeq := n\<rparr>) = intake s"
  "intake (s\<lparr>cc_ready := rd\<rparr>) = intake s"
  "intake (s\<lparr>cc_tokenWaits := w\<rparr>) = intake s"
  "intake (s\<lparr>cc_opening := og\<rparr>) = intake s"
  "intake (s\<lparr>cc_listening := l\<rparr>) = intake s"
  "intake (s\<lparr>cc_running := rn\<rparr>) = intake s"
  by (simp_all add: intake_def accepted_def)

lemma intake_emit [frame_simps]:
  "intake (cc_emit fx s) = (fst (intake s) @ List.map_filter acted_fx fx, snd (intake s))"
  by (simp add: intake_def accepted_def cc_emit_def map_filter_def)

lemmas log_simps = map_filter_def acted_fx_def Let_def

lemma intake_sendAck [frame_simps]: "intake (sendAck a s) = intake s"
  by (simp add: sendAck_def frame_simps log_simps split: option.splits)

lemma intake_send [frame_simps]: "intake (snd (send f s)) = intake s"
  by (simp add: send_def frame_simps log_simps split: option.splits)

lemma intake_schedule [frame_simps]: "intake (scheduleReconnect cfg r b s) = intake s"
  by (simp add: scheduleReconnect_def frame_simps log_simps)

lemma intake_close [frame_simps]: "intake (close_socket n s) = intake s"
  by (simp add: close_socket_def frame_simps log_simps)

lemma intake_resolved [frame_simps]: "intake (connect_resolved orig s) = intake s"
  by (simp add: connect_resolved_def frame_simps log_simps split: connect_origin.splits)

lemma intake_rejected [frame_simps]: "intake (connect_rejected cfg r b orig s) = intake s"
  by (simp add: connect_rejected_def frame_simps log_simps split: connect_origin.splits)

lemma intake_connect [frame_simps]: "intake (connect cfg r auth orig s) = intake s"
  by (simp add: connect_def frame_simps log_simps)

lemma intake_stop [frame_simps]: "intake (stop s) = intake s"
  by (simp add: stop_def frame_simps log_simps split: option.splits)

lemma intake_onClose [frame_simps]: "intake (onClose cfg r code n s) = intake s"
  by (simp add: onClose_def frame_simps log_simps)

lemma step_intake:
  assumes "\<nexists>n now data. e = EvMessage n now data"
  shows "intake (control_step ns verify cfg e s) = intake s"
  using assms
  by (cases e)
    (simp_all add: start_def on_token_def on_open_def on_error_def on_timer_def on_keepalive_def
      on_handled_def frame_simps log_simps split: option.splits token_outcome.splits)

lemma vet_frame_id: "vet_frame ns verify ks now frame = Inr i \<Longrightarrow> i = frame_id frame"
  by (auto simp: vet_frame_def frame_id_def split: jsval.splits if_splits)

lemma vet_frame_fresh: "vet_frame ns verify ks now frame = Inr i \<Longrightarrow> \<not> stale_ts now (get_prop frame ''ts'')"
  by (simp add: vet_frame_def split: jsval.splits if_splits)

lemma vet_frame_signed:
  assumes "vet_frame ns verify ks now frame = Inr i" and "ks \<noteq> []"
  shows "\<exists>sig. get_prop frame ''sig'' = JStr sig \<and> list_ex (\<lambda>key. verify key (controlSigningInput ns frame) sig) ks"
  using assms by (cases "get_prop frame ''sig''") (simp_all add: vet_frame_def split: jsval.splits if_splits)

lemma vet_frame_window:
  "vet_frame ns verify ks now f = Inr i \<Longrightarrow>
   case get_prop f ''ts'' of JNum (Fin t) \<Rightarrow> abs (now - t) \<le> 300000 | _ \<Rightarrow> True"
  using vet_frame_fresh[of ns verify ks now f i]
  by (simp add: stale_ts_def REPLAY_WINDOW_MS_def not_less split: jsval.splits jsnum.splits)

lemma vet_frame_verified:
  "vet_frame ns verify ks now f = Inr i \<Longrightarrow>
   case get_prop f ''sig'' of
     JStr sig \<Rightarrow> ks = [] \<or> list_ex (\<lambda>key. verify key (controlSigningInput ns f) sig) ks
   | _ \<Rightarrow> ks = []"
  using vet_frame_signed[of ns verify ks now f i] by (cases "ks = []") (auto split: jsval.splits)

lemma onMessage_intake:
  "intake (onMessage ns verify cfg now data s) = intake s \<or>
   (\<exists>frame. intake (onMessage ns verify cfg now data s)
        = (accepted s @ [(now, frame)], remember_id (frame_id frame) (cc_seenFrameIds s))
      \<and> vet_frame ns verify (cfg_keys cfg) now frame = Inr (frame_id frame)
      \<and> frame_id frame \<notin> set (cc_seenFrameIds s))"
proof (cases data)
  case (Some frame)
  have "fst (intake s) = accepted s" by (simp add: intake_def)
  with Some show ?thesis
    using vet_frame_id[of ns verify "cfg_keys cfg" now frame]
    by (cases "vet_frame ns verify (cfg_keys cfg) now frame")
      (auto simp: onMessage_def frame_simps log_simps split: option.splits)
qed (simp add: onMessage_def)

text \<open>A step keeps the intake, or extends it by one frame that passed every check and whose id is
  not among those remembered.\<close>

lemma control_step_intake:
  "intake (control_step ns verify cfg e s) = intake s \<or>
   (\<exists>now frame. intake (control_step ns verify cfg e s)
        = (accepted s @ [(now, frame)], remember_id (frame_id frame) (cc_seenFrameIds s))
      \<and> vet_frame ns verify (cfg_keys cfg) now frame = Inr (frame_id frame)
      \<and> frame_id frame \<notin> set (cc_seenFrameIds s))"
proof (cases "\<exists>n now data. e = EvMessage n now data")
  case True
  then obtain n now data where e: "e = EvMessage n now data" by blast
  show ?thesis
  proof (cases "cc_listening s n \<and> cc_ready s n \<noteq> WsClosed \<and> \<not> stale_socket s n")
    case True
    with e have "control_step ns verify cfg e s = onMessage ns verify cfg now data s" by simp
    with onMessage_intake[of ns verify cfg now data s] show ?thesis by metis
  qed (auto simp: e)
qed (simp add: step_intake)

section \<open>Authenticity and replay\<close>

text \<open>Every element differs from the \<open>n\<close> that follow it.\<close>

fun window_distinct :: "nat \<Rightarrow> 'a list \<Rightarrow> bool" where
  "window_distinct n [] = True"
| "window_distinct n (x # xs) = (x \<notin> set (take n xs) \<and> window_distinct n xs)"

lemma window_distinct_snoc:
  "window_distinct n (xs @ [x]) \<longleftrightarrow> window_distinct n xs \<and> x \<notin> set (take_last n xs)"
proof (induction xs)
  case (Cons y ys)
  show ?case
  proof (cases "length ys < n")
    case True
    then show ?thesis using Cons by (auto simp: take_last_def)
  next
    case False
    then have "take_last n (y # ys) = take_last n ys" by (simp add: take_last_def Suc_diff_le)
    with False Cons show ?thesis by simp
  qed
qed (simp add: take_last_def)

lemma remember_id_take_last:
  "remember_id i (take_last REPLAY_DEDUPE_CAP xs) = take_last REPLAY_DEDUPE_CAP (xs @ [i])"
proof (cases "256 \<le> length xs")
  case True
  then have "Suc (length xs - 256) = length xs - 255" by simp
  with True show ?thesis by (simp add: remember_id_def take_last_def REPLAY_DEDUPE_CAP_def Let_def)
qed (simp add: remember_id_def take_last_def REPLAY_DEDUPE_CAP_def Let_def)

definition intake_ok ::
  "(rat \<Rightarrow> string) \<Rightarrow> (string \<Rightarrow> string \<Rightarrow> string \<Rightarrow> bool) \<Rightarrow> control_cfg \<Rightarrow> control_channel \<Rightarrow> bool" where
  "intake_ok ns verify cfg s \<longleftrightarrow>
     list_all (\<lambda>(now, f). vet_frame ns verify (cfg_keys cfg) now f = Inr (frame_id f)) (accepted s)
     \<and> cc_seenFrameIds s = take_last REPLAY_DEDUPE_CAP (map (frame_id \<circ> snd) (accepted s))
     \<and> window_distinct REPLAY_DEDUPE_CAP (map (frame_id \<circ> snd) (accepted s))"

lemma intake_ok_step: "intake_ok ns verify cfg s \<Longrightarrow> intake_ok ns verify cfg (control_step ns verify cfg e s)"
  using control_step_intake[of ns verify cfg e s]
  by (auto simp: intake_ok_def intake_def window_distinct_snoc remember_id_take_last)

interpretation intakes: open_machine "control_step ns verify cfg" "intake_ok ns verify cfg" for ns verify cfg
  by unfold_locales (rule intake_ok_step)

lemma intake_ok_run: "intake_ok ns verify cfg s \<Longrightarrow> intake_ok ns verify cfg (control_run ns verify cfg evs s)"
  unfolding control_run_def by (rule intakes.open_run_keeps)

lemma intake_ok_new: "intake_ok ns verify cfg new_channel"
  by (simp add: intake_ok_def new_channel_def accepted_def map_filter_def take_last_def)

text \<open>C6: Whatever a peer sends and in whatever order sockets open, fail and close, every frame the
  daemon acts on was received within five minutes of its timestamp, when it carries one, and, unless
  the channel was built with an empty key list, verified under a trusted key.\<close>

theorem control_frames_authentic:
  "list_all
     (\<lambda>(now, f).
        (case get_prop f ''ts'' of JNum (Fin t) \<Rightarrow> abs (now - t) \<le> 300000 | _ \<Rightarrow> True) \<and>
        (case get_prop f ''sig'' of
           JStr sig \<Rightarrow> cfg_keys cfg = [] \<or> list_ex (\<lambda>key. verify key (controlSigningInput ns f) sig) (cfg_keys cfg)
         | _ \<Rightarrow> cfg_keys cfg = []))
     (accepted (control_run ns verify cfg evs new_channel))"
proof -
  have "list_all (\<lambda>(now, f). vet_frame ns verify (cfg_keys cfg) now f = Inr (frame_id f))
          (accepted (control_run ns verify cfg evs new_channel))"
    using intake_ok_run[OF intake_ok_new] by (auto simp: intake_ok_def)
  note vetted = this[unfolded list_all_iff]
  show ?thesis
    unfolding list_all_iff
  proof (rule ballI, goal_cases)
    case (1 p)
    obtain now f where p: "p = (now, f)" by fastforce
    with 1 vetted have "vet_frame ns verify (cfg_keys cfg) now f = Inr (frame_id f)" by auto
    from vet_frame_window[OF this] vet_frame_verified[OF this] p show ?case by simp
  qed
qed

text \<open>C7: A frame id is acted on at most once among any 257 consecutive frames the daemon acts on.\<close>

theorem control_frame_not_repeated:
  "window_distinct 256 (map (frame_id \<circ> snd) (accepted (control_run ns verify cfg evs new_channel)))"
  using intake_ok_run[OF intake_ok_new] by (auto simp: intake_ok_def REPLAY_DEDUPE_CAP_def)


text \<open>Without a key list among its options the channel always verifies: the environment can
  replace the trusted keys but not empty them.\<close>

lemma control_keys_nonempty: "channel_keys Omitted Omitted ring legacy \<noteq> []"
  by (auto simp: channel_keys_def resolveHubControlPublicKeys_def Let_def HUB_CONTROL_DEFAULT_PUBLIC_KEYS_def
      split: option.splits)

text \<open>A frame whose parameters are a JSON value; the values \<open>JSON.parse\<close> returns are.\<close>

definition frame_ok :: "jsval \<Rightarrow> bool" where
  "frame_ok f \<longleftrightarrow>
     (\<exists>i. get_prop f ''id'' = JStr i) \<and> (\<exists>t. get_prop f ''type'' = JStr t)
     \<and> (get_prop f ''params'' = JUndef \<or> json_ok (get_prop f ''params''))"

lemma signed_object_ok: "frame_ok f \<Longrightarrow> json_ok (signed_object f)"
  by (auto simp: signed_object_def frame_ok_def split: jsval.splits)

definition bound_params :: "jsval \<Rightarrow> jsval" where
  "bound_params f = canon (case get_prop f ''params'' of JUndef \<Rightarrow> JObj [] | JNull \<Rightarrow> JObj [] | p \<Rightarrow> p)"

definition bound_ts :: "jsval \<Rightarrow> jsval" where
  "bound_ts f = canon (case get_prop f ''ts'' of JNum n \<Rightarrow> JNum n | _ \<Rightarrow> JNum (Fin 0))"

lemma canon_signed_object:
  assumes "frame_ok f"
  shows "canon (signed_object f) =
    JObj [(''id'', get_prop f ''id''), (''params'', bound_params f), (''ts'', bound_ts f), (''type'', get_prop f ''type'')]"
proof -
  obtain i t where "get_prop f ''id'' = JStr i" "get_prop f ''type'' = JStr t"
    using assms by (auto simp: frame_ok_def)
  moreover have "(case get_prop f ''params'' of JUndef \<Rightarrow> JObj [] | JNull \<Rightarrow> JObj [] | p \<Rightarrow> p) \<noteq> JUndef"
    by (simp split: jsval.splits)
  moreover have "(case get_prop f ''ts'' of JNum n \<Rightarrow> JNum n | _ \<Rightarrow> JNum (Fin 0)) \<noteq> JUndef"
    by (simp split: jsval.splits)
  ultimately show ?thesis
    by (simp add: signed_object_def bound_params_def bound_ts_def)
qed

text \<open>A signature over one frame verifies another only when id, type, parameters and timestamp
  agree: two frames have the same signing input exactly when those four do. So a frame whose
  timestamp is removed does not keep its signature (an absent timestamp signs as zero).\<close>

theorem control_signature_binds:
  assumes "number_format ns" and "frame_ok f" and "frame_ok g"
  shows "controlSigningInput ns f = controlSigningInput ns g \<longleftrightarrow>
    get_prop f ''id'' = get_prop g ''id'' \<and> get_prop f ''type'' = get_prop g ''type''
    \<and> bound_params f = bound_params g \<and> bound_ts f = bound_ts g"
proof -
  note ok = signed_object_ok[OF assms(2)] signed_object_ok[OF assms(3)]
  have "controlSigningInput ns f = controlSigningInput ns g \<longleftrightarrow> canon (signed_object f) = canon (signed_object g)"
    using enc_inj[OF assms(1) nf_canon[OF ok(1)] nf_canon[OF ok(2)]]
    by (simp add: controlSigningInput_def jcs_enc[OF ok(1)] jcs_enc[OF ok(2)])
  then show ?thesis using assms(2,3) by (auto simp: canon_signed_object)
qed

theorem control_signature_binds_witness:
  "controlSigningInput int_format (JObj [(''id'', JStr ''a''), (''type'', JStr ''ping''), (''ts'', JNum (Fin 9))])
   \<noteq> controlSigningInput int_format (JObj [(''id'', JStr ''a''), (''type'', JStr ''ping'')])"
  using control_signature_binds[OF number_format_int_format,
      of "JObj [(''id'', JStr ''a''), (''type'', JStr ''ping''), (''ts'', JNum (Fin 9))]"
         "JObj [(''id'', JStr ''a''), (''type'', JStr ''ping'')]"]
  by (simp add: frame_ok_def bound_ts_def)

section \<open>The connection\<close>

text \<open>The delay before a reconnection lies between the scheduled one and a quarter more.\<close>

lemma reconnect_delay_bounds:
  assumes "0 \<le> r" and "r < 1" and "cfg_backoff cfg \<noteq> []" and "\<forall>b \<in> set (cfg_backoff cfg). lo \<le> b \<and> b \<le> hi"
  shows "lo \<le> reconnect_delay cfg r n \<and> reconnect_delay cfg r n \<le> hi + hi div 4"
proof -
  define b where "b = cfg_backoff cfg ! min n (length (cfg_backoff cfg) - 1)"
  have "b \<in> set (cfg_backoff cfg)"
    using assms(3) by (auto simp: b_def intro!: nth_mem) (cases "cfg_backoff cfg"; simp)
  with assms(4) have b: "lo \<le> b" "b \<le> hi" by auto
  have "r * of_nat b * (1 / 4) \<le> of_nat b / (4 :: rat)"
    using assms(1,2) by (simp add: mult_left_le_one_le)
  then have "\<lfloor>r * of_nat b * (1 / 4)\<rfloor> \<le> \<lfloor>of_nat b / (4 :: rat)\<rfloor>" by (rule floor_mono)
  also have "\<lfloor>of_nat b / (4 :: rat)\<rfloor> = int (b div 4)"
    using floor_divide_of_nat_eq[of b 4, where 'a = rat] by simp
  finally have "nat \<lfloor>r * of_nat b * (1 / 4)\<rfloor> \<le> b div 4" by simp
  moreover have "b div 4 \<le> hi div 4" using b(2) by (rule div_le_mono)
  ultimately show ?thesis
    using b assms(3) unfolding reconnect_delay_def withReconnectJitter_def b_def[symmetric] by simp
qed

lemma default_backoff_bounds: "\<forall>b \<in> set RECONNECT_BACKOFF_MS. 1000 \<le> b \<and> b \<le> 30000"
  by (simp add: RECONNECT_BACKOFF_MS_def)

text \<open>The current socket is always the newest one, so the two tests for a stale socket agree.\<close>

definition newest_socket :: "control_channel \<Rightarrow> bool" where
  "newest_socket s \<longleftrightarrow> (case cc_ws s of Some n \<Rightarrow> n = cc_connectionSeq s | None \<Rightarrow> \<not> cc_connected s)"

text \<open>The connection part of the state: current socket, its number, and whether it is up.\<close>

definition link :: "control_channel \<Rightarrow> nat option \<times> nat \<times> bool" where
  "link s = (cc_ws s, cc_connectionSeq s, cc_connected s)"

lemma newest_socket_cong: "link s = link s' \<Longrightarrow> newest_socket s \<longleftrightarrow> newest_socket s'"
  by (simp add: newest_socket_def link_def split: option.splits)

lemma link_ops:
  "link (cc_emit fx s) = link s" "link (sendAck a s) = link s" "link (snd (send f s)) = link s"
  "link (close_socket n s) = link s" "link (scheduleReconnect cfg r b s) = link s"
  "link (connect_resolved orig s) = link s" "link (connect_rejected cfg r b orig s) = link s"
  "link (connect cfg r auth orig s) = link s"
proof -
  show emit: "link (cc_emit fx s) = link s" for fx s by (simp add: link_def cc_emit_def)
  show close: "link (close_socket n s) = link s" for n s
    unfolding close_socket_def emit by (simp add: link_def)
  show sched: "link (scheduleReconnect cfg r b s) = link s" for b s
    by (simp add: scheduleReconnect_def link_def)
  show "link (sendAck a s) = link s" by (simp add: sendAck_def emit split: option.splits)
  show "link (snd (send f s)) = link s" by (simp add: send_def emit split: option.splits)
  have inflight: "link (s\<lparr>cc_connectInflight := x\<rparr>) = link s" for s x by (simp add: link_def)
  have stopreq: "link (s\<lparr>cc_stopRequested := x\<rparr>) = link s" for s x by (simp add: link_def)
  show res: "link (connect_resolved orig s) = link s" for orig s
    by (simp add: connect_resolved_def emit inflight split: connect_origin.splits)
  show rej: "link (connect_rejected cfg r b orig s) = link s" for b orig s
    by (simp add: connect_rejected_def emit inflight stopreq sched split: connect_origin.splits)
  show "link (connect cfg r auth orig s) = link s"
    unfolding connect_def by (simp add: rej res) (simp add: link_def)
qed

lemmas newest_ops = link_ops[THEN newest_socket_cong]

lemma newest_updates [simp]:
  "newest_socket (s\<lparr>cc_ready := rd\<rparr>) \<longleftrightarrow> newest_socket s"
  "newest_socket (s\<lparr>cc_listening := l\<rparr>) \<longleftrightarrow> newest_socket s"
  "newest_socket (s\<lparr>cc_opening := og\<rparr>) \<longleftrightarrow> newest_socket s"
  "newest_socket (s\<lparr>cc_running := rn\<rparr>) \<longleftrightarrow> newest_socket s"
  "newest_socket (s\<lparr>cc_tokenWaits := w\<rparr>) \<longleftrightarrow> newest_socket s"
  "newest_socket (s\<lparr>cc_seenFrameIds := q\<rparr>) \<longleftrightarrow> newest_socket s"
  "newest_socket (s\<lparr>cc_connectInflight := b\<rparr>) \<longleftrightarrow> newest_socket s"
  "newest_socket (s\<lparr>cc_stopRequested := b\<rparr>) \<longleftrightarrow> newest_socket s"
  "newest_socket (s\<lparr>cc_reconnectTimer := t\<rparr>) \<longleftrightarrow> newest_socket s"
  "newest_socket (s\<lparr>cc_reconnectAttempts := n\<rparr>) \<longleftrightarrow> newest_socket s"
  "newest_socket (s\<lparr>cc_keepaliveTimer := b\<rparr>) \<longleftrightarrow> newest_socket s"
  by (simp_all add: newest_socket_def split: option.splits)

lemma newest_stop: "newest_socket (stop s)"
  by (cases "cc_ws s") (simp_all add: stop_def Let_def newest_ops, simp_all add: newest_socket_def)

lemma newest_onMessage: "newest_socket s \<Longrightarrow> newest_socket (onMessage ns verify cfg now data s)"
  by (auto simp: onMessage_def Let_def newest_ops newest_stop split: option.splits sum.splits)

lemma newest_onClose: "newest_socket s \<Longrightarrow> newest_socket (onClose cfg r code n s)"
  by (auto simp: onClose_def Let_def newest_ops) (simp_all add: newest_socket_def split: option.splits)

lemma newest_on_open: "newest_socket s \<Longrightarrow> newest_socket (on_open n s)"
  by (auto simp: on_open_def Let_def newest_ops stale_socket_def split: option.splits)
    (simp_all add: newest_socket_def split: option.splits)

lemma newest_on_token: "newest_socket s \<Longrightarrow> newest_socket (on_token cfg r k out s)"
  by (auto simp: on_token_def Let_def newest_ops split: token_outcome.splits) (simp_all add: newest_socket_def split: option.splits)

lemma newest_step: "newest_socket s \<Longrightarrow> newest_socket (control_step ns verify cfg e s)"
  by (cases e)
    (auto simp: start_def on_error_def on_timer_def on_keepalive_def on_handled_def Let_def newest_ops
      newest_stop newest_onMessage newest_onClose newest_on_open newest_on_token split: option.splits)

interpretation newest: open_machine "control_step ns verify cfg" newest_socket for ns verify cfg
  by unfold_locales (rule newest_step)

text \<open>In every reachable state the socket the channel holds is the newest one it created, and it
  reports itself connected only while it holds one.\<close>

theorem control_socket_is_newest: "newest_socket (control_run ns verify cfg evs new_channel)"
proof -
  have "newest_socket s \<Longrightarrow> newest_socket (control_run ns verify cfg evs s)" for s
    unfolding control_run_def by (rule newest.open_run_keeps)
  then show ?thesis by (simp add: newest_socket_def new_channel_def)
qed

definition quiet :: "control_channel \<Rightarrow> bool" where
  "quiet s \<longleftrightarrow> cc_stopRequested s \<and> \<not> cc_connected s \<and> cc_reconnectTimer s = None"

lemma quiet_emit [simp]: "quiet (cc_emit fx s) \<longleftrightarrow> quiet s"
  by (simp add: quiet_def cc_emit_def)

lemma quiet_updates [simp]:
  "quiet (s\<lparr>cc_ready := rd\<rparr>) \<longleftrightarrow> quiet s"
  "quiet (s\<lparr>cc_listening := l\<rparr>) \<longleftrightarrow> quiet s"
  "quiet (s\<lparr>cc_opening := og\<rparr>) \<longleftrightarrow> quiet s"
  "quiet (s\<lparr>cc_running := rn\<rparr>) \<longleftrightarrow> quiet s"
  "quiet (s\<lparr>cc_tokenWaits := w\<rparr>) \<longleftrightarrow> quiet s"
  "quiet (s\<lparr>cc_seenFrameIds := q\<rparr>) \<longleftrightarrow> quiet s"
  "quiet (s\<lparr>cc_connectInflight := b\<rparr>) \<longleftrightarrow> quiet s"
  "quiet (s\<lparr>cc_connectionSeq := n\<rparr>) \<longleftrightarrow> quiet s"
  "quiet (s\<lparr>cc_ws := a\<rparr>) \<longleftrightarrow> quiet s"
  "quiet (s\<lparr>cc_keepaliveTimer := b\<rparr>) \<longleftrightarrow> quiet s"
  by (simp_all add: quiet_def)

lemma quiet_stop [simp]: "quiet (stop s)"
  by (simp add: stop_def close_socket_def quiet_def cc_emit_def Let_def split: option.splits)

lemma quiet_ops [simp]:
  "quiet (sendAck a s) \<longleftrightarrow> quiet s" "quiet (snd (send f s)) \<longleftrightarrow> quiet s"
  "quiet (connect_resolved orig s) \<longleftrightarrow> quiet s" "quiet (close_socket n s) \<longleftrightarrow> quiet s"
  by (auto simp: sendAck_def send_def connect_resolved_def close_socket_def
      split: option.splits connect_origin.splits)

lemma quiet_schedule: "quiet s \<Longrightarrow> quiet (scheduleReconnect cfg r b s)"
  by (simp add: scheduleReconnect_def quiet_def)

lemma quiet_rejected [intro]: "quiet s \<Longrightarrow> quiet (connect_rejected cfg r b orig s)"
  by (auto simp: connect_rejected_def quiet_schedule split: connect_origin.splits) (simp add: quiet_def)

lemma quiet_onMessage [intro]: "quiet s \<Longrightarrow> quiet (onMessage ns verify cfg now data s)"
  by (auto simp: onMessage_def Let_def split: option.splits sum.splits)

lemma quiet_onClose [intro]: "quiet s \<Longrightarrow> quiet (onClose cfg r code n s)"
  by (auto simp: onClose_def Let_def quiet_def cc_emit_def)

lemma quiet_on_open [intro]: "quiet s \<Longrightarrow> quiet (on_open n s)"
proof -
  assume q: "quiet s"
  then have "cc_stopRequested s" by (simp add: quiet_def)
  with q show ?thesis by (auto simp: on_open_def Let_def split: option.splits)
qed

lemma quiet_step:
  assumes "quiet s" and "\<nexists>r auth. e = EvStart r auth"
  shows "quiet (control_step ns verify cfg e s)"
proof (cases e)
  case (EvTimer r auth)
  with assms show ?thesis by (simp add: on_timer_def quiet_def)
next
  case (EvToken r k out)
  with assms show ?thesis by (auto simp: on_token_def Let_def split: token_outcome.splits)
qed (use assms in \<open>auto simp: on_error_def on_keepalive_def on_handled_def Let_def split: option.splits\<close>)

interpretation stopped: event_machine "control_step ns verify cfg" "\<lambda>e. case e of EvStart r auth \<Rightarrow> False | _ \<Rightarrow> True" quiet
  for ns verify cfg
  by unfold_locales (auto intro!: quiet_step)

text \<open>After \<open>stop\<close>, and until \<open>start\<close> is called again, nothing brings the channel back: whatever
  connection attempts were under way, it is not connected, does not become so, and no reconnect
  timer is armed.\<close>

theorem stopped_channel_stays_down:
  assumes "list_all (\<lambda>e. case e of EvStart r auth \<Rightarrow> False | _ \<Rightarrow> True) evs"
  shows "let s' = control_run ns verify cfg evs (stop s)
         in \<not> cc_connected s' \<and> cc_reconnectTimer s' = None \<and> cc_stopRequested s'"
proof -
  from stopped.run_keeps[OF quiet_stop assms] show ?thesis by (simp add: Let_def quiet_def control_run_def)
qed

theorem stopped_channel_stays_down_witness:
  "let s' = control_run int_format (\<lambda>_ _ _. True) \<lparr>cfg_keys = [], cfg_backoff = [5]\<rparr>
              [EvToken 0 0 TokenOk, EvOpen 1, EvClose 0 1 1006]
              (stop (start \<lparr>cfg_keys = [], cfg_backoff = [5]\<rparr> 0 True new_channel))
   in \<not> cc_connected s' \<and> cc_reconnectTimer s' = None \<and> cc_stopRequested s'"
  by (rule stopped_channel_stays_down) simp

text \<open>A \<open>start\<close> issued after a \<open>stop\<close> while the first connection attempt still waits for its token
  joins that attempt and leaves the stop request in place: the socket is closed as soon as it opens,
  the call returns as if it had connected, and no reconnection follows.\<close>

theorem restart_joins_stopped_attempt:
  "let s' = control_run ns verify cfg
              [EvStart r True, EvStop, EvStart r' True, EvToken r'' 0 TokenOk, EvOpen 1, EvClose q 1 1000] new_channel
   in cc_fx s' = [FxCloseSocket 1, FxStartSettled True] \<and> cc_stopRequested s'
      \<and> \<not> cc_connected s' \<and> cc_reconnectTimer s' = None"
  by (simp add: control_run_def start_def connect_def socket_active_def new_channel_def stop_def
      on_token_def remove_nth_def on_open_def stale_socket_def close_socket_def cc_emit_def
      connect_resolved_def onClose_def auth_close_code_def Let_def)

end
