(* ===== verification/Channel_Manager.thy ===== *)
theory Channel_Manager
  imports Js_Prelude
begin

text \<open>
  The supervisor of the channel adapters (\<open>daemon/src/gateway/channel-manager.ts\<close>) and the
  gateway operations that drive it (\<open>daemon/src/gateway/gateway.ts\<close>).

  An entry of the manager is an object that timers, running adapters and pending operations keep
  referring to after the manager forgot its id, so the entries live in a store \<open>cm_objs\<close> addressed by
  position and \<open>cm_entries\<close> maps the ids to positions. What runs outside the manager is recorded in
  the entry: \<open>ce_live\<close> the calls of \<open>adapter.start\<close> that have not settled, \<open>ce_timers\<close> the
  restart timers that are armed. \<open>adapter.start\<close> is an asynchronous function: it never throws
  before it returns its promise.
\<close>

section \<open>Entries\<close>

datatype lifecycle_state = LsIdle | LsStarting | LsRunning | LsStopping | LsCrashed

record channel_status =
  cs_channel :: string
  cs_accountId :: string
  cs_running :: bool
  cs_reconnectAttempts :: nat
  cs_restartPending :: bool
  cs_lastError :: "string option"
  cs_lastStartAt :: "int option"
  cs_lastStopAt :: "int option"

record channel_entry =
  ce_id :: string
  ce_state :: lifecycle_state
  ce_snapshot :: channel_status
  ce_controller :: "nat option"
  ce_runPromise :: "nat option"
  ce_restartTimer :: "nat option"
  ce_nextBackoff :: nat
  ce_currentStartAt :: int
  ce_reconnectAttempts :: nat
  ce_stopRequested :: bool
  ce_live :: "nat list"
  ce_aborted :: "nat list"
  ce_timers :: "nat list"
  ce_fresh :: nat

record backoff_options =
  bo_initial :: nat
  bo_max :: nat
  bo_factor :: nat

definition default_backoff :: backoff_options where
  "default_backoff = \<lparr> bo_initial = 1000, bo_max = 60000, bo_factor = 2 \<rparr>"

definition LONG_RUN_THRESHOLD_MS :: int where
  "LONG_RUN_THRESHOLD_MS = 30000"

definition new_entry :: "backoff_options \<Rightarrow> string \<Rightarrow> string \<Rightarrow> channel_entry" where
  "new_entry bo cid account =
     \<lparr> ce_id = cid, ce_state = LsIdle,
       ce_snapshot = \<lparr> cs_channel = cid, cs_accountId = account, cs_running = False,
         cs_reconnectAttempts = 0, cs_restartPending = False, cs_lastError = None,
         cs_lastStartAt = None, cs_lastStopAt = None \<rparr>,
       ce_controller = None, ce_runPromise = None, ce_restartTimer = None,
       ce_nextBackoff = bo_initial bo, ce_currentStartAt = 0, ce_reconnectAttempts = 0,
       ce_stopRequested = False, ce_live = [], ce_aborted = [], ce_timers = [], ce_fresh = 0 \<rparr>"

text \<open>\<open>launch\<close>: the transient state \<open>starting\<close> ends within the call.\<close>

definition launch :: "int \<Rightarrow> channel_entry \<Rightarrow> channel_entry" where
  "launch now e =
     (if ce_state e = LsStarting \<or> ce_state e = LsRunning then e
      else
        (let r = ce_fresh e
         in e\<lparr> ce_stopRequested := False, ce_controller := Some r, ce_currentStartAt := now,
               ce_snapshot := (ce_snapshot e)\<lparr> cs_running := True, cs_restartPending := False,
                 cs_lastStartAt := Some now, cs_lastError := None,
                 cs_reconnectAttempts := ce_reconnectAttempts e \<rparr>,
               ce_live := ce_live e @ [r], ce_fresh := Suc r,
               ce_runPromise := Some r, ce_state := LsRunning \<rparr>))"

definition scheduleRestart :: "channel_entry \<Rightarrow> channel_entry" where
  "scheduleRestart e =
     (let t = ce_fresh e
      in e\<lparr> ce_snapshot := (ce_snapshot e)\<lparr> cs_restartPending := True \<rparr>,
            ce_restartTimer := Some t, ce_timers := ce_timers e @ [t], ce_fresh := Suc t \<rparr>)"

text \<open>How \<open>adapter.start\<close> ended: it returned, it threw, or it threw the permanent-stop code.\<close>

datatype adapter_outcome = RunReturned | RunThrew string | RunPermanentStop string

definition onExit :: "backoff_options \<Rightarrow> int \<Rightarrow> adapter_outcome \<Rightarrow> channel_entry \<Rightarrow> channel_entry" where
  "onExit bo now out e =
     (let ranForMs = now - ce_currentStartAt e;
          e = e\<lparr> ce_snapshot := (ce_snapshot e)\<lparr> cs_running := False, cs_lastStopAt := Some now,
                   cs_lastError := (case out of RunThrew m \<Rightarrow> Some m | _ \<Rightarrow> cs_lastError (ce_snapshot e)) \<rparr> \<rparr>;
          e = (case out of
                 RunPermanentStop _ \<Rightarrow> e\<lparr> ce_state := LsIdle, ce_stopRequested := True \<rparr>
               | RunThrew _ \<Rightarrow> e\<lparr> ce_state := LsCrashed \<rparr>
               | RunReturned \<Rightarrow> e\<lparr> ce_state := LsIdle \<rparr>)
      in if ce_stopRequested e then e\<lparr> ce_runPromise := None \<rparr>
         else scheduleRestart
                (if ranForMs \<ge> LONG_RUN_THRESHOLD_MS then e\<lparr> ce_nextBackoff := bo_initial bo \<rparr> else e))"

text \<open>The run \<open>r\<close> of the entry settles.\<close>

definition run_settles :: "backoff_options \<Rightarrow> int \<Rightarrow> nat \<Rightarrow> adapter_outcome \<Rightarrow> channel_entry \<Rightarrow> channel_entry" where
  "run_settles bo now r out e =
     (if r \<in> set (ce_live e) then onExit bo now out (e\<lparr> ce_live := remove1 r (ce_live e) \<rparr>) else e)"

text \<open>The restart timer \<open>t\<close> fires.\<close>

definition restart_fires :: "backoff_options \<Rightarrow> int \<Rightarrow> nat \<Rightarrow> channel_entry \<Rightarrow> channel_entry" where
  "restart_fires bo now t e =
     (if t \<in> set (ce_timers e) then
        (let e = e\<lparr> ce_timers := remove1 t (ce_timers e), ce_restartTimer := None, ce_runPromise := None \<rparr>
         in if ce_stopRequested e then e
            else launch now
              (e\<lparr> ce_reconnectAttempts := ce_reconnectAttempts e + 1,
                  ce_snapshot := (ce_snapshot e)\<lparr> cs_restartPending := False,
                    cs_reconnectAttempts := ce_reconnectAttempts e + 1 \<rparr>,
                  ce_nextBackoff := min (ce_nextBackoff e * bo_factor bo) (bo_max bo) \<rparr>))
      else e)"

text \<open>The part \<open>removeOne\<close> and \<open>stopAll\<close> share for one entry, up to their await.\<close>

definition request_stop :: "channel_entry \<Rightarrow> channel_entry" where
  "request_stop e =
     (let e = e\<lparr> ce_stopRequested := True \<rparr>;
          e = (case ce_restartTimer e of
                 Some t \<Rightarrow> e\<lparr> ce_timers := remove1 t (ce_timers e), ce_restartTimer := None,
                              ce_snapshot := (ce_snapshot e)\<lparr> cs_restartPending := False \<rparr> \<rparr>
               | None \<Rightarrow> e)
      in if ce_state e = LsRunning \<or> ce_state e = LsStarting
         then e\<lparr> ce_state := LsStopping,
                 ce_aborted := (case ce_controller e of Some c \<Rightarrow> ce_aborted e @ [c] | None \<Rightarrow> ce_aborted e) \<rparr>
         else e)"

section \<open>The manager\<close>

text \<open>A pending operation waits for the runs it saw: object and run.\<close>

datatype pending_stop =
    PendingRemove nat string "(nat \<times> nat) list"
  | PendingStopAll "(nat \<times> nat) list"

record channel_manager =
  cm_objs :: "channel_entry list"
  cm_entries :: "(string \<times> nat) list"
  cm_pending :: "pending_stop list"

definition upd_obj :: "nat \<Rightarrow> (channel_entry \<Rightarrow> channel_entry) \<Rightarrow> channel_manager \<Rightarrow> channel_manager" where
  "upd_obj i f m = (if i < length (cm_objs m) then m\<lparr> cm_objs := (cm_objs m)[i := f (cm_objs m ! i)] \<rparr> else m)"

definition registerAdapter :: "backoff_options \<Rightarrow> string \<Rightarrow> string \<Rightarrow> channel_manager \<Rightarrow> channel_manager" where
  "registerAdapter bo cid account m =
     m\<lparr> cm_objs := cm_objs m @ [new_entry bo cid account],
        cm_entries := upd_assoc (cm_entries m) cid (length (cm_objs m)) \<rparr>"

definition startAll :: "int \<Rightarrow> channel_manager \<Rightarrow> channel_manager" where
  "startAll now m =
     fold (\<lambda>(cid, i). upd_obj i (\<lambda>e. if ce_state e = LsIdle \<or> ce_state e = LsCrashed then launch now e else e))
       (cm_entries m) m"

definition addOne :: "backoff_options \<Rightarrow> int \<Rightarrow> string \<Rightarrow> string \<Rightarrow> channel_manager \<Rightarrow> channel_manager" where
  "addOne bo now cid account m =
     (case map_of (cm_entries m) cid of
        Some _ \<Rightarrow> m
      | None \<Rightarrow> upd_obj (length (cm_objs m)) (launch now) (registerAdapter bo cid account m))"

definition awaited_run :: "channel_manager \<Rightarrow> nat \<Rightarrow> (nat \<times> nat) list" where
  "awaited_run m i = (case ce_runPromise (cm_objs m ! i) of Some r \<Rightarrow> [(i, r)] | None \<Rightarrow> [])"

definition removeOne :: "string \<Rightarrow> channel_manager \<Rightarrow> channel_manager" where
  "removeOne cid m =
     (case map_of (cm_entries m) cid of
        None \<Rightarrow> m
      | Some i \<Rightarrow>
          (let m = upd_obj i request_stop m
           in m\<lparr> cm_pending := cm_pending m @ [PendingRemove i cid (awaited_run m i)] \<rparr>))"

definition stopAll :: "channel_manager \<Rightarrow> channel_manager" where
  "stopAll m =
     (let m = fold (\<lambda>(cid, i). upd_obj i request_stop) (cm_entries m) m
      in m\<lparr> cm_pending := cm_pending m @ [PendingStopAll (concat (map (awaited_run m \<circ> snd) (cm_entries m)))] \<rparr>)"

definition run_settled :: "channel_manager \<Rightarrow> nat \<times> nat \<Rightarrow> bool" where
  "run_settled m p = (case p of (i, r) \<Rightarrow> r \<notin> set (ce_live (cm_objs m ! i)))"

definition awaits :: "pending_stop \<Rightarrow> (nat \<times> nat) list" where
  "awaits p = (case p of PendingRemove _ _ ws \<Rightarrow> ws | PendingStopAll ws \<Rightarrow> ws)"

definition resumable :: "nat \<Rightarrow> channel_manager \<Rightarrow> bool" where
  "resumable k m \<longleftrightarrow> k < length (cm_pending m) \<and> list_all (run_settled m) (awaits (cm_pending m ! k))"

text \<open>The rest of a pending operation, once the runs it awaits have settled.\<close>

definition finish_stop :: "pending_stop \<Rightarrow> channel_manager \<Rightarrow> channel_manager" where
  "finish_stop p m =
     (case p of
        PendingRemove i cid _ \<Rightarrow> m\<lparr> cm_entries := filter (\<lambda>(c, _). c \<noteq> cid) (cm_entries m) \<rparr>
      | PendingStopAll _ \<Rightarrow>
          fold (\<lambda>(cid, i). upd_obj i (\<lambda>e. e\<lparr> ce_stopRequested := False \<rparr>)) (cm_entries m) m)"

definition stop_resumes :: "nat \<Rightarrow> channel_manager \<Rightarrow> channel_manager" where
  "stop_resumes k m =
     finish_stop (cm_pending m ! k) (m\<lparr> cm_pending := take k (cm_pending m) @ drop (Suc k) (cm_pending m) \<rparr>)"

definition cm_status :: "channel_manager \<Rightarrow> (string \<times> channel_status) list" where
  "cm_status m = map (\<lambda>(cid, i). (cid, ce_snapshot (cm_objs m ! i))) (cm_entries m)"

text \<open>\<open>safeEmit\<close>: an envelope whose message lacks an id or a channel is dropped, the others reach
  the dispatcher.\<close>

definition safeEmit :: "jsval \<Rightarrow> bool" where
  "safeEmit env =
     (case get_prop env ''message'' of
        msg \<Rightarrow> truthy msg
          \<and> (case get_prop msg ''id'' of JStr i \<Rightarrow> i \<noteq> [] | _ \<Rightarrow> False)
          \<and> (case get_prop msg ''channel'' of JStr c \<Rightarrow> c \<noteq> [] | _ \<Rightarrow> False))"

section \<open>The gateway\<close>

text \<open>Adapters are named by numbers; \<open>gw_channelMap\<close> is the map the dispatcher replies through.
  \<open>gw_injected\<close> holds the calls of \<open>injectInboundThrough\<close> under way: the channel id, the adapter the
  call put in and the one it found.\<close>

record gateway_state =
  gw_started :: bool
  gw_stopped :: bool
  gw_channelMap :: "string \<rightharpoonup> nat"
  gw_adapters :: nat
  gw_accounts :: "(string \<times> string) list"
  gw_manager :: channel_manager
  gw_injected :: "(string \<times> nat \<times> nat option) list"

datatype gateway_result = GrOk | GrError string

definition add_channel :: "backoff_options \<Rightarrow> int \<Rightarrow> string \<Rightarrow> string \<Rightarrow> gateway_state \<Rightarrow> gateway_result \<times> gateway_state" where
  "add_channel bo now cid account g =
     (if gw_stopped g then (GrError ''gateway already stopped'', g)
      else if gw_channelMap g cid \<noteq> None then (GrError (''channel \"'' @ cid @ ''\" already registered''), g)
      else
        (GrOk,
         g\<lparr> gw_accounts := gw_accounts g @ [(cid, account)],
            gw_channelMap := (gw_channelMap g)(cid \<mapsto> gw_adapters g), gw_adapters := Suc (gw_adapters g),
            gw_manager := addOne bo now cid
              (case map_of (gw_accounts g @ [(cid, account)]) cid of Some a \<Rightarrow> a | None \<Rightarrow> []) (gw_manager g) \<rparr>))"

text \<open>\<open>removeChannel\<close> up to its await; the rest follows the manager's.\<close>

definition remove_channel :: "string \<Rightarrow> gateway_state \<Rightarrow> gateway_state" where
  "remove_channel cid g =
     (if gw_channelMap g cid = None then g else g\<lparr> gw_manager := removeOne cid (gw_manager g) \<rparr>)"

fun drop_first :: "('a \<Rightarrow> bool) \<Rightarrow> 'a list \<Rightarrow> 'a list" where
  "drop_first P [] = []"
| "drop_first P (x # xs) = (if P x then xs else x # drop_first P xs)"

definition gateway_resumes :: "nat \<Rightarrow> gateway_state \<Rightarrow> gateway_state" where
  "gateway_resumes k g =
     (let m = gw_manager g
      in if resumable k m then
           (case cm_pending m ! k of
              PendingRemove i cid _ \<Rightarrow>
                g\<lparr> gw_manager := stop_resumes k m, gw_channelMap := (gw_channelMap g)(cid := None),
                   gw_accounts := drop_first (\<lambda>(c, _). c = cid) (gw_accounts g) \<rparr>
            | PendingStopAll _ \<Rightarrow> g\<lparr> gw_manager := stop_resumes k m \<rparr>)
         else g)"

definition gateway_stop :: "gateway_state \<Rightarrow> gateway_state" where
  "gateway_stop g =
     (if gw_stopped g then g else g\<lparr> gw_stopped := True, gw_manager := stopAll (gw_manager g) \<rparr>)"

text \<open>\<open>injectInboundThrough\<close> around its await: put the caller's adapter in, later put back what was
  found.\<close>

definition inject_begins :: "string \<Rightarrow> gateway_state \<Rightarrow> gateway_state" where
  "inject_begins cid g =
     g\<lparr> gw_injected := gw_injected g @ [(cid, gw_adapters g, gw_channelMap g cid)],
        gw_channelMap := (gw_channelMap g)(cid \<mapsto> gw_adapters g), gw_adapters := Suc (gw_adapters g) \<rparr>"

definition inject_ends :: "nat \<Rightarrow> gateway_state \<Rightarrow> gateway_state" where
  "inject_ends k g =
     (if k < length (gw_injected g) then
        (case gw_injected g ! k of
           (cid, _, previous) \<Rightarrow>
             g\<lparr> gw_channelMap := (gw_channelMap g)(cid := previous),
                gw_injected := take k (gw_injected g) @ drop (Suc k) (gw_injected g) \<rparr>)
      else g)"

definition sendOutbound :: "string \<Rightarrow> gateway_state \<Rightarrow> string + nat" where
  "sendOutbound cid g =
     (case gw_channelMap g cid of
        None \<Rightarrow> Inl (''channel \"'' @ cid @ ''\" is not registered'')
      | Some a \<Rightarrow> Inr a)"

text \<open>The constructor followed by \<open>start\<close>; \<open>chans\<close> are the configured channels.\<close>

definition gateway_constructed :: "backoff_options \<Rightarrow> (string \<times> string) list \<Rightarrow> gateway_state" where
  "gateway_constructed bo chans =
     \<lparr> gw_started = False, gw_stopped = False,
       gw_channelMap = map_of (rev (zip (map fst chans) [0..<length chans])),
       gw_adapters = length chans, gw_accounts = chans,
       gw_manager = fold (\<lambda>(cid, _). registerAdapter bo cid (case map_of chans cid of Some a \<Rightarrow> a | None \<Rightarrow> []))
         chans \<lparr> cm_objs = [], cm_entries = [], cm_pending = [] \<rparr>,
       gw_injected = [] \<rparr>"

definition gateway_start :: "int \<Rightarrow> gateway_state \<Rightarrow> gateway_state" where
  "gateway_start now g =
     (if gw_started g then g else g\<lparr> gw_started := True, gw_manager := startAll now (gw_manager g) \<rparr>)"

datatype gateway_event =
    GeAddChannel int string string
  | GeRemoveChannel string
  | GeStop
  | GeStart int
  | GeResume nat
  | GeSettle nat nat int adapter_outcome
  | GeRestart nat nat int
  | GeSetStatus nat "channel_status \<Rightarrow> channel_status"
  | GeInject string
  | GeInjectEnd nat

definition on_manager :: "(channel_manager \<Rightarrow> channel_manager) \<Rightarrow> gateway_state \<Rightarrow> gateway_state" where
  "on_manager f g = g\<lparr> gw_manager := f (gw_manager g) \<rparr>"

fun gateway_step :: "backoff_options \<Rightarrow> gateway_event \<Rightarrow> gateway_state \<Rightarrow> gateway_state" where
  "gateway_step bo (GeAddChannel now cid account) g = snd (add_channel bo now cid account g)"
| "gateway_step bo (GeRemoveChannel cid) g = remove_channel cid g"
| "gateway_step bo GeStop g = gateway_stop g"
| "gateway_step bo (GeStart now) g = gateway_start now g"
| "gateway_step bo (GeResume k) g = gateway_resumes k g"
| "gateway_step bo (GeSettle i r now out) g = on_manager (upd_obj i (run_settles bo now r out)) g"
| "gateway_step bo (GeRestart i t now) g = on_manager (upd_obj i (restart_fires bo now t)) g"
| "gateway_step bo (GeSetStatus i f) g = on_manager (upd_obj i (\<lambda>e. e\<lparr> ce_snapshot := f (ce_snapshot e) \<rparr>)) g"
| "gateway_step bo (GeInject cid) g = inject_begins cid g"
| "gateway_step bo (GeInjectEnd k) g = inject_ends k g"

definition gateway_run :: "backoff_options \<Rightarrow> gateway_event list \<Rightarrow> gateway_state \<Rightarrow> gateway_state" where
  "gateway_run bo evs g = fold (gateway_step bo) evs g"

text \<open>The daemon starts the gateway before it connects the control plane that adds and removes
  channels.\<close>

definition gateway_booted :: "backoff_options \<Rightarrow> int \<Rightarrow> (string \<times> string) list \<Rightarrow> gateway_state" where
  "gateway_booted bo now chans = gateway_start now (gateway_constructed bo chans)"

section \<open>One entry\<close>

text \<open>The shape of an entry: a running or stopping one has exactly one live run, which its
  \<open>runPromise\<close> names, and no timer; an idle or crashed one has no live run and at most one timer,
  which \<open>restartTimer\<close> names.\<close>

definition entry_ok :: "channel_entry \<Rightarrow> bool" where
  "entry_ok e =
     (case ce_state e of
        LsStarting \<Rightarrow> False
      | LsRunning \<Rightarrow> ce_timers e = [] \<and> ce_restartTimer e = None \<and> (\<exists>r. ce_live e = [r] \<and> ce_runPromise e = Some r)
      | LsStopping \<Rightarrow> ce_timers e = [] \<and> ce_restartTimer e = None \<and> (\<exists>r. ce_live e = [r] \<and> ce_runPromise e = Some r)
      | _ \<Rightarrow> ce_live e = [] \<and> ce_timers e = (case ce_restartTimer e of Some t \<Rightarrow> [t] | None \<Rightarrow> []))"

definition dead :: "channel_entry \<Rightarrow> bool" where
  "dead e \<longleftrightarrow> ce_live e = [] \<and> ce_timers e = []"

text \<open>An entry that a pending stop will find dead when it resumes: \<open>rs\<close> are the runs it awaits.\<close>

definition doomed :: "nat set \<Rightarrow> channel_entry \<Rightarrow> bool" where
  "doomed rs e \<longleftrightarrow> ce_timers e = [] \<and> (ce_live e = [] \<or> ce_stopRequested e \<and> (\<exists>r \<in> rs. ce_live e = [r]))"

text \<open>What the manager relies on in an operation on one entry.\<close>

definition tame :: "(channel_entry \<Rightarrow> channel_entry) \<Rightarrow> bool" where
  "tame f \<longleftrightarrow> (\<forall>e. entry_ok e \<longrightarrow>
     entry_ok (f e) \<and> ce_id (f e) = ce_id e \<and> (dead e \<longrightarrow> dead (f e)) \<and> (\<forall>rs. doomed rs e \<longrightarrow> doomed rs (f e)))"

lemma tameI:
  assumes "\<And>e. entry_ok e \<Longrightarrow> entry_ok (f e)" "\<And>e. entry_ok e \<Longrightarrow> ce_id (f e) = ce_id e"
    "\<And>e. entry_ok e \<Longrightarrow> dead e \<Longrightarrow> dead (f e)" "\<And>e rs. entry_ok e \<Longrightarrow> doomed rs e \<Longrightarrow> doomed rs (f e)"
  shows "tame f"
  using assms by (simp add: tame_def)

lemma entry_ok_new: "entry_ok (new_entry bo cid a)" and dead_new: "dead (new_entry bo cid a)"
  by (simp_all add: entry_ok_def dead_def new_entry_def)

lemma entry_ok_launch:
  "entry_ok e \<Longrightarrow> ce_state e \<in> {LsIdle, LsCrashed} \<Longrightarrow> ce_restartTimer e = None \<Longrightarrow> entry_ok (launch now e)"
  by (auto simp: entry_ok_def launch_def Let_def)

lemma ce_id_launch [simp]: "ce_id (launch now e) = ce_id e"
  by (simp add: launch_def Let_def)

lemma entry_ok_live_state: "entry_ok e \<Longrightarrow> r \<in> set (ce_live e) \<Longrightarrow> ce_state e \<in> {LsRunning, LsStopping} \<and> ce_live e = [r]"
  by (auto simp: entry_ok_def split: lifecycle_state.splits)

lemma entry_ok_timer_state:
  "entry_ok e \<Longrightarrow> t \<in> set (ce_timers e) \<Longrightarrow>
   ce_state e \<in> {LsIdle, LsCrashed} \<and> ce_live e = [] \<and> ce_timers e = [t] \<and> ce_restartTimer e = Some t"
  by (auto simp: entry_ok_def split: lifecycle_state.splits option.splits)

text \<open>A settled run leaves an idle or crashed entry, with a timer unless a stop was requested.\<close>

lemma onExit_shape:
  assumes "ce_timers e = []" "ce_restartTimer e = None" "ce_live e = []"
  shows "entry_ok (onExit bo now out e) \<and> ce_id (onExit bo now out e) = ce_id e
    \<and> ce_live (onExit bo now out e) = [] \<and> (ce_stopRequested e \<longrightarrow> ce_timers (onExit bo now out e) = [])"
  using assms by (cases out) (simp_all add: onExit_def entry_ok_def scheduleRestart_def Let_def)

lemma tame_run_settles: "tame (run_settles bo now r out)"
proof (rule tameI)
  fix e assume ok: "entry_ok e"
  have shape: "entry_ok (onExit bo now out (e\<lparr>ce_live := remove1 r (ce_live e)\<rparr>))
      \<and> ce_id (onExit bo now out (e\<lparr>ce_live := remove1 r (ce_live e)\<rparr>)) = ce_id e
      \<and> ce_live (onExit bo now out (e\<lparr>ce_live := remove1 r (ce_live e)\<rparr>)) = []
      \<and> (ce_stopRequested e \<longrightarrow> ce_timers (onExit bo now out (e\<lparr>ce_live := remove1 r (ce_live e)\<rparr>)) = [])"
    if "r \<in> set (ce_live e)"
  proof -
    have "ce_timers e = [] \<and> ce_restartTimer e = None \<and> ce_live e = [r]"
      using entry_ok_live_state[OF ok that] ok by (auto simp: entry_ok_def)
    then show ?thesis using onExit_shape[of "e\<lparr>ce_live := remove1 r (ce_live e)\<rparr>" bo now out] by simp
  qed
  show "entry_ok (run_settles bo now r out e)" "ce_id (run_settles bo now r out e) = ce_id e"
    using ok shape by (simp_all add: run_settles_def)
  show "dead e \<Longrightarrow> dead (run_settles bo now r out e)" by (simp add: dead_def run_settles_def)
  show "doomed rs e \<Longrightarrow> doomed rs (run_settles bo now r out e)" for rs
    using shape by (auto simp: doomed_def run_settles_def)
qed

lemma tame_restart_fires: "tame (restart_fires bo now t)"
proof (rule tameI)
  fix e assume ok: "entry_ok e"
  show "entry_ok (restart_fires bo now t e)"
  proof (cases "t \<in> set (ce_timers e)")
    case True
    from entry_ok_timer_state[OF ok this] show ?thesis
      by (auto simp: restart_fires_def Let_def entry_ok_def launch_def)
  qed (simp add: restart_fires_def ok)
  show "ce_id (restart_fires bo now t e) = ce_id e" by (simp add: restart_fires_def Let_def)
  show "dead e \<Longrightarrow> dead (restart_fires bo now t e)" by (simp add: restart_fires_def dead_def)
  show "doomed rs e \<Longrightarrow> doomed rs (restart_fires bo now t e)" for rs by (simp add: restart_fires_def doomed_def)
qed

lemma request_stop_fields:
  "ce_id (request_stop e) = ce_id e" "ce_live (request_stop e) = ce_live e"
  "ce_stopRequested (request_stop e)" "ce_runPromise (request_stop e) = ce_runPromise e"
  by (simp_all add: request_stop_def Let_def split: option.splits)

lemma request_stop_timers: "entry_ok e \<Longrightarrow> ce_timers (request_stop e) = [] \<and> ce_restartTimer (request_stop e) = None"
  by (auto simp: request_stop_def Let_def entry_ok_def split: option.splits lifecycle_state.splits)

lemma entry_ok_request_stop: "entry_ok e \<Longrightarrow> entry_ok (request_stop e)"
  by (auto simp: request_stop_def Let_def entry_ok_def split: option.splits lifecycle_state.splits)

lemma tame_request_stop: "tame request_stop"
  by (rule tameI)
    (auto simp: entry_ok_request_stop request_stop_fields dead_def doomed_def dest: request_stop_timers)

lemma tame_set_status: "tame (\<lambda>e. e\<lparr> ce_snapshot := f (ce_snapshot e) \<rparr>)"
  by (rule tameI) (simp_all add: entry_ok_def dead_def doomed_def cong: lifecycle_state.case_cong)

text \<open>A stop request dooms the entry to the runs it is then seen to have.\<close>

lemma doomed_request_stop:
  assumes "entry_ok e" and "\<And>r. ce_runPromise e = Some r \<Longrightarrow> r \<in> rs"
  shows "doomed rs (request_stop e)"
proof -
  have "ce_live e = [] \<or> (\<exists>r. ce_live e = [r] \<and> ce_runPromise e = Some r)"
    using assms(1) by (auto simp: entry_ok_def split: lifecycle_state.splits)
  then show ?thesis
    using assms request_stop_timers[OF assms(1)] by (auto simp: doomed_def request_stop_fields)
qed

section \<open>The manager keeps one run per channel\<close>

definition removal_id :: "pending_stop \<Rightarrow> string option" where
  "removal_id p = (case p of PendingRemove _ cid _ \<Rightarrow> Some cid | PendingStopAll _ \<Rightarrow> None)"

abbreviation removing :: "channel_manager \<Rightarrow> string list" where
  "removing m \<equiv> List.map_filter removal_id (cm_pending m)"

text \<open>The runs of object \<open>i\<close> among those awaited.\<close>

definition runs_of :: "nat \<Rightarrow> (nat \<times> nat) list \<Rightarrow> nat set" where
  "runs_of i ws = {r. (i, r) \<in> set ws}"

definition pending_ok :: "bool \<Rightarrow> channel_manager \<Rightarrow> pending_stop \<Rightarrow> bool" where
  "pending_ok st m p =
     (case p of
        PendingRemove i cid ws \<Rightarrow> (cid, i) \<in> set (cm_entries m) \<and> doomed (runs_of i ws) (cm_objs m ! i)
      | PendingStopAll ws \<Rightarrow> st \<and> (\<forall>(cid, i) \<in> set (cm_entries m). doomed (runs_of i ws) (cm_objs m ! i)))"

definition stopping_all :: "channel_manager \<Rightarrow> bool" where
  "stopping_all m \<longleftrightarrow> list_ex (\<lambda>p. removal_id p = None) (cm_pending m)"

definition entries_ok :: "channel_manager \<Rightarrow> bool" where
  "entries_ok m \<longleftrightarrow>
     list_all entry_ok (cm_objs m) \<and> distinct (map fst (cm_entries m))
     \<and> (\<forall>(cid, i) \<in> set (cm_entries m). i < length (cm_objs m) \<and> ce_id (cm_objs m ! i) = cid)
     \<and> (\<forall>j < length (cm_objs m). (ce_id (cm_objs m ! j), j) \<notin> set (cm_entries m) \<longrightarrow> dead (cm_objs m ! j))"

text \<open>\<open>st\<close> tells whether the gateway was stopped.\<close>

definition manager_ok :: "bool \<Rightarrow> channel_manager \<Rightarrow> bool" where
  "manager_ok st m \<longleftrightarrow>
     entries_ok m \<and> list_all (pending_ok st m) (cm_pending m) \<and> distinct (removing m)
     \<and> (st \<and> \<not> stopping_all m \<longrightarrow> list_all dead (cm_objs m))"

lemma upd_obj_fields [simp]:
  "cm_entries (upd_obj i f m) = cm_entries m" "cm_pending (upd_obj i f m) = cm_pending m"
  "length (cm_objs (upd_obj i f m)) = length (cm_objs m)"
  by (simp_all add: upd_obj_def)

lemma upd_obj_nth: "j < length (cm_objs m) \<Longrightarrow> cm_objs (upd_obj i f m) ! j = (if j = i then f (cm_objs m ! j) else cm_objs m ! j)"
  by (simp add: upd_obj_def nth_list_update)

text \<open>Two managers that differ in their objects only, each object changed by a tame operation or not
  at all.\<close>

definition tamely :: "channel_manager \<Rightarrow> channel_manager \<Rightarrow> bool" where
  "tamely m m' \<longleftrightarrow>
     cm_entries m' = cm_entries m \<and> cm_pending m' = cm_pending m \<and> length (cm_objs m') = length (cm_objs m)
     \<and> (\<forall>j < length (cm_objs m). \<exists>f. tame f \<and> cm_objs m' ! j = f (cm_objs m ! j))"

lemma tame_id: "tame (\<lambda>e. e)"
  by (simp add: tame_def)

lemma tamely_upd_obj: "tame f \<Longrightarrow> tamely m (upd_obj i f m)"
  by (auto simp: tamely_def upd_obj_nth intro: tame_id)

lemma tame_apply:
  assumes "tame f" "entry_ok e"
  shows "entry_ok (f e)" "ce_id (f e) = ce_id e" "dead e \<Longrightarrow> dead (f e)" "doomed rs e \<Longrightarrow> doomed rs (f e)"
  using assms by (auto simp: tame_def)

lemma tamely_obj:
  assumes "tamely m m'" "entries_ok m" "j < length (cm_objs m)"
  shows "entry_ok (cm_objs m' ! j)" "ce_id (cm_objs m' ! j) = ce_id (cm_objs m ! j)"
    "dead (cm_objs m ! j) \<Longrightarrow> dead (cm_objs m' ! j)" "doomed rs (cm_objs m ! j) \<Longrightarrow> doomed rs (cm_objs m' ! j)"
proof -
  obtain f where f: "tame f" "cm_objs m' ! j = f (cm_objs m ! j)" using assms(1,3) by (auto simp: tamely_def)
  have ok: "entry_ok (cm_objs m ! j)" using assms(2,3) by (simp add: entries_ok_def list_all_length)
  show "entry_ok (cm_objs m' ! j)" "ce_id (cm_objs m' ! j) = ce_id (cm_objs m ! j)"
    "dead (cm_objs m ! j) \<Longrightarrow> dead (cm_objs m' ! j)" "doomed rs (cm_objs m ! j) \<Longrightarrow> doomed rs (cm_objs m' ! j)"
    unfolding f(2) by (rule tame_apply[OF f(1) ok], assumption?)+
qed

lemma entries_ok_index: "entries_ok m \<Longrightarrow> (cid, i) \<in> set (cm_entries m) \<Longrightarrow> i < length (cm_objs m) \<and> ce_id (cm_objs m ! i) = cid"
  by (auto simp: entries_ok_def)

lemma entries_ok_tamely:
  assumes "tamely m m'" "entries_ok m"
  shows "entries_ok m'"
proof -
  have same: "cm_entries m' = cm_entries m" "length (cm_objs m') = length (cm_objs m)"
    using assms(1) by (auto simp: tamely_def)
  note objs = tamely_obj[OF assms]
  have "list_all entry_ok (cm_objs m')" by (simp add: list_all_length same objs)
  moreover have "\<forall>(cid, i) \<in> set (cm_entries m). i < length (cm_objs m) \<and> ce_id (cm_objs m' ! i) = cid"
    using entries_ok_index[OF assms(2)] objs(2) by auto
  moreover have "dead (cm_objs m' ! j)" if "j < length (cm_objs m)" "(ce_id (cm_objs m' ! j), j) \<notin> set (cm_entries m)" for j
    using that objs(2,3) assms(2) by (simp add: entries_ok_def)
  ultimately show ?thesis using assms(2) by (simp add: entries_ok_def same)
qed

lemma pending_ok_tamely:
  assumes "tamely m m'" "entries_ok m" "pending_ok st m p"
  shows "pending_ok st m' p"
proof -
  have same: "cm_entries m' = cm_entries m" using assms(1) by (simp add: tamely_def)
  have "doomed rs (cm_objs m ! i) \<Longrightarrow> doomed rs (cm_objs m' ! i)" if "(cid, i) \<in> set (cm_entries m)" for cid i rs
    using tamely_obj(4)[OF assms(1,2)] entries_ok_index[OF assms(2) that] by blast
  then show ?thesis
    using assms(3) by (auto simp: pending_ok_def same split: pending_stop.splits)
qed

lemma manager_ok_tamely:
  assumes "tamely m m'" "manager_ok st m"
  shows "manager_ok st m'"
proof -
  have same: "cm_pending m' = cm_pending m" "length (cm_objs m') = length (cm_objs m)"
    using assms(1) by (auto simp: tamely_def)
  have e: "entries_ok m" using assms(2) by (simp add: manager_ok_def)
  have "list_all (pending_ok st m') (cm_pending m')"
    using assms(2) pending_ok_tamely[OF assms(1) e] unfolding same manager_ok_def list_all_iff by blast
  moreover have "list_all dead (cm_objs m')" if "list_all dead (cm_objs m)"
    using that tamely_obj(3)[OF assms(1) e] by (simp add: list_all_length same)
  ultimately show ?thesis
    using assms(2) entries_ok_tamely[OF assms(1) e] by (auto simp: manager_ok_def same stopping_all_def)
qed

subsection \<open>Operations over all entries\<close>

lemma fold_upd_fields [simp]:
  "cm_entries (fold (\<lambda>(c, i). upd_obj i f) es m) = cm_entries m"
  "cm_pending (fold (\<lambda>(c, i). upd_obj i f) es m) = cm_pending m"
  "length (cm_objs (fold (\<lambda>(c, i). upd_obj i f) es m)) = length (cm_objs m)"
  by (induction es arbitrary: m) (auto simp: split_beta)

lemma fold_upd_nth:
  "distinct (map snd es) \<Longrightarrow> j < length (cm_objs m) \<Longrightarrow>
   cm_objs (fold (\<lambda>(c, i). upd_obj i f) es m) ! j = (if j \<in> snd ` set es then f (cm_objs m ! j) else cm_objs m ! j)"
proof (induction es arbitrary: m)
  case (Cons p es)
  obtain c i where p: "p = (c, i)" by fastforce
  with Cons.prems have "distinct (map snd es)" "i \<notin> snd ` set es" by auto
  then show ?case using Cons.IH[of "upd_obj i f m"] Cons.prems(2) by (auto simp: p upd_obj_nth)
qed simp

lemma entries_distinct_objs:
  assumes "entries_ok m"
  shows "distinct (map snd (cm_entries m))"
proof -
  have "inj_on snd (set (cm_entries m))"
  proof (rule inj_onI)
    fix p q assume pq: "p \<in> set (cm_entries m)" "q \<in> set (cm_entries m)" "snd p = snd q"
    then have "ce_id (cm_objs m ! snd p) = fst p" "ce_id (cm_objs m ! snd q) = fst q"
      using entries_ok_index[OF assms] by (metis prod.collapse)+
    with pq(3) show "p = q" by (simp add: prod_eq_iff)
  qed
  moreover have "distinct (cm_entries m)"
    using assms by (simp add: entries_ok_def distinct_map)
  ultimately show ?thesis by (simp add: distinct_map)
qed

lemma tamely_fold: "entries_ok m \<Longrightarrow> tame f \<Longrightarrow> tamely m (fold (\<lambda>(c, i). upd_obj i f) (cm_entries m) m)"
  by (auto simp: tamely_def fold_upd_nth entries_distinct_objs intro: tame_id)

lemma manager_ok_add_pending:
  "manager_ok st m \<Longrightarrow> pending_ok st' m p \<Longrightarrow> (st \<longrightarrow> st') \<Longrightarrow> (st' \<and> \<not> st \<longrightarrow> removal_id p = None) \<Longrightarrow>
   (case removal_id p of Some c \<Rightarrow> c \<notin> set (removing m) | None \<Rightarrow> True) \<Longrightarrow>
   manager_ok st' (m\<lparr> cm_pending := cm_pending m @ [p] \<rparr>)"
  by (auto simp: manager_ok_def entries_ok_def pending_ok_def stopping_all_def list_all_iff map_filter_def
      split: pending_stop.splits option.splits)

lemma manager_ok_removeOne:
  assumes "manager_ok st m" and "cid \<notin> set (removing m)"
  shows "manager_ok st (removeOne cid m)"
proof (cases "map_of (cm_entries m) cid")
  case (Some i)
  let ?m = "upd_obj i request_stop m"
  have e: "entries_ok m" using assms(1) by (simp add: manager_ok_def)
  have mem: "(cid, i) \<in> set (cm_entries m)" using Some by (rule map_of_SomeD)
  have i: "i < length (cm_objs m)" using entries_ok_index[OF e mem] by simp
  have ok: "entry_ok (cm_objs m ! i)" using e i by (simp add: entries_ok_def list_all_length)
  have "doomed (runs_of i (awaited_run ?m i)) (cm_objs ?m ! i)"
    using i doomed_request_stop[OF ok]
    by (simp add: upd_obj_nth runs_of_def awaited_run_def request_stop_fields)
  then have "pending_ok st ?m (PendingRemove i cid (awaited_run ?m i))"
    using mem by (simp add: pending_ok_def)
  then show ?thesis
    using manager_ok_add_pending[OF manager_ok_tamely[OF tamely_upd_obj[OF tame_request_stop] assms(1)],
        of st i "PendingRemove i cid (awaited_run ?m i)"] assms(2)
    by (simp add: removeOne_def Some Let_def removal_id_def)
qed (simp add: removeOne_def assms(1))

lemma manager_ok_stopAll:
  assumes "manager_ok False m"
  shows "manager_ok True (stopAll m)"
proof -
  let ?m = "fold (\<lambda>(c, i). upd_obj i request_stop) (cm_entries m) m"
  let ?ws = "concat (map (awaited_run ?m \<circ> snd) (cm_entries m))"
  have e: "entries_ok m" using assms by (simp add: manager_ok_def)
  have "doomed (runs_of i ?ws) (cm_objs ?m ! i)" if mem: "(cid, i) \<in> set (cm_entries m)" for cid i
  proof -
    have i: "i < length (cm_objs m)" using entries_ok_index[OF e mem] by simp
    have "i \<in> snd ` set (cm_entries m)" using mem by force
    then have obj: "cm_objs ?m ! i = request_stop (cm_objs m ! i)"
      using i by (simp add: fold_upd_nth entries_distinct_objs[OF e])
    have "r \<in> runs_of i ?ws" if "ce_runPromise (cm_objs m ! i) = Some r" for r
      using mem that by (auto simp: runs_of_def awaited_run_def obj request_stop_fields intro!: bexI[of _ "(cid, i)"])
    moreover have "entry_ok (cm_objs m ! i)" using e i by (simp add: entries_ok_def list_all_length)
    ultimately show ?thesis unfolding obj by (intro doomed_request_stop)
  qed
  then have "pending_ok True ?m (PendingStopAll ?ws)" by (auto simp: pending_ok_def)
  then show ?thesis
    using manager_ok_add_pending[OF manager_ok_tamely[OF tamely_fold[OF e tame_request_stop] assms],
        of True "PendingStopAll ?ws"]
    by (simp add: stopAll_def Let_def removal_id_def)
qed

subsection \<open>Adding a channel\<close>

lemma register_fields [simp]:
  "cm_objs (registerAdapter bo cid a m) = cm_objs m @ [new_entry bo cid a]"
  "cm_pending (registerAdapter bo cid a m) = cm_pending m"
  by (simp_all add: registerAdapter_def)

lemma register_entries:
  "entries_ok m \<Longrightarrow> set (cm_entries (registerAdapter bo cid a m))
     = insert (cid, length (cm_objs m)) {p \<in> set (cm_entries m). fst p \<noteq> cid}"
  by (simp add: registerAdapter_def set_upd_assoc_distinct entries_ok_def)

lemma entries_ok_register:
  assumes e: "entries_ok m" and over: "\<And>i. map_of (cm_entries m) cid = Some i \<Longrightarrow> dead (cm_objs m ! i)"
  shows "entries_ok (registerAdapter bo cid a m)"
proof -
  let ?m = "registerAdapter bo cid a m"
  have new: "ce_id (new_entry bo cid a) = cid" by (simp add: new_entry_def)
  have distinct: "distinct (map fst (cm_entries m))" using e by (simp add: entries_ok_def)
  have "dead (cm_objs ?m ! j)"
    if j: "j < length (cm_objs ?m)" and nin: "(ce_id (cm_objs ?m ! j), j) \<notin> set (cm_entries ?m)" for j
  proof (cases "j < length (cm_objs m)")
    case True
    then have obj: "cm_objs ?m ! j = cm_objs m ! j" by (simp add: nth_append)
    show ?thesis
    proof (cases "(ce_id (cm_objs m ! j), j) \<in> set (cm_entries m)")
      case in_old: True
      with nin[unfolded obj] have "ce_id (cm_objs m ! j) = cid" by (simp add: register_entries[OF e])
      with in_old distinct have "map_of (cm_entries m) cid = Some j" by simp
      then show ?thesis using over obj by simp
    qed (use e True obj in \<open>simp add: entries_ok_def\<close>)
  next
    case False
    with j have "j = length (cm_objs m)" by simp
    with nin show ?thesis by (simp add: register_entries[OF e] new)
  qed
  moreover have "distinct (map fst (cm_entries ?m))"
    using distinct by (simp add: registerAdapter_def distinct_upd_assoc)
  moreover have "\<forall>(c, i) \<in> set (cm_entries ?m). i < length (cm_objs ?m) \<and> ce_id (cm_objs ?m ! i) = c"
    using entries_ok_index[OF e] by (auto simp: register_entries[OF e] new nth_append)
  moreover have "list_all entry_ok (cm_objs ?m)"
    using e by (simp add: entries_ok_def entry_ok_new)
  ultimately show ?thesis by (simp add: entries_ok_def)
qed

lemma launch_running:
  "entry_ok e \<Longrightarrow> ce_state e = LsIdle \<Longrightarrow> ce_timers e = [] \<Longrightarrow> entry_ok (launch now e)"
  by (rule entry_ok_launch) (auto simp: entry_ok_def split: option.splits)

text \<open>Changing one object that an entry names, with nothing pending for it, keeps the table.\<close>

lemma entries_ok_change:
  assumes e: "entries_ok m" and i: "(cid, i) \<in> set (cm_entries m)"
    and f: "entry_ok (f (cm_objs m ! i))" "ce_id (f (cm_objs m ! i)) = ce_id (cm_objs m ! i)"
  shows "entries_ok (upd_obj i f m)"
proof -
  have same: "ce_id (cm_objs (upd_obj i f m) ! j) = ce_id (cm_objs m ! j)" if "j < length (cm_objs m)" for j
    using that f(2) by (simp add: upd_obj_nth)
  have "list_all entry_ok (cm_objs (upd_obj i f m))"
    using e f(1) by (simp add: entries_ok_def list_all_length upd_obj_nth)
  moreover have "\<forall>(c, k) \<in> set (cm_entries m). k < length (cm_objs m) \<and> ce_id (cm_objs (upd_obj i f m) ! k) = c"
    using entries_ok_index[OF e] same by auto
  moreover have "dead (cm_objs (upd_obj i f m) ! j)"
    if "j < length (cm_objs m)" "(ce_id (cm_objs m ! j), j) \<notin> set (cm_entries m)" for j
  proof -
    have "j \<noteq> i" using that i entries_ok_index[OF e i] by auto
    with that e show ?thesis by (simp add: upd_obj_nth entries_ok_def)
  qed
  ultimately show ?thesis using e same by (simp add: entries_ok_def)
qed

lemma manager_ok_addOne:
  assumes ok: "manager_ok False m"
  shows "manager_ok False (addOne bo now cid a m)"
proof (cases "map_of (cm_entries m) cid")
  case None
  let ?r = "registerAdapter bo cid a m" and ?i = "length (cm_objs m)"
  let ?m = "upd_obj ?i (launch now) ?r"
  have e: "entries_ok m" using ok by (simp add: manager_ok_def)
  have er: "entries_ok ?r" by (rule entries_ok_register[OF e]) (simp add: None)
  have obj: "cm_objs ?r ! ?i = new_entry bo cid a" by simp
  have "entries_ok ?m"
  proof (rule entries_ok_change[OF er])
    show "(cid, ?i) \<in> set (cm_entries ?r)" by (simp add: register_entries[OF e])
    show "entry_ok (launch now (cm_objs ?r ! ?i))"
      unfolding obj by (rule launch_running) (simp_all add: entry_ok_new, simp_all add: new_entry_def)
  qed simp
  moreover have "pending_ok False ?m p" if "pending_ok False m p" for p
  proof -
    have "cid \<notin> fst ` set (cm_entries m)" using None by (simp add: map_of_eq_None_iff)
    then have kept: "(c, i) \<in> set (cm_entries ?m) \<and> cm_objs ?m ! i = cm_objs m ! i"
      if "(c, i) \<in> set (cm_entries m)" for c i
      using that entries_ok_index[OF e that]
      by (auto simp: register_entries[OF e] upd_obj_nth nth_append image_iff)
    with that show ?thesis by (auto simp: pending_ok_def split: pending_stop.splits)
  qed
  ultimately have "manager_ok False ?m"
    using ok by (auto simp: manager_ok_def list_all_iff)
  then show ?thesis by (simp add: addOne_def None)
qed (simp add: addOne_def ok)

subsection \<open>Finishing a stop\<close>

lemma doomed_settled:
  assumes "doomed (runs_of i ws) (cm_objs m ! i)" and "list_all (run_settled m) ws"
  shows "dead (cm_objs m ! i)"
  using assms by (fastforce simp: doomed_def dead_def runs_of_def run_settled_def list_all_iff)

lemma dead_doomed: "dead e \<Longrightarrow> doomed rs e"
  by (simp add: dead_def doomed_def)

lemma split_nth: "k < length ps \<Longrightarrow> take k ps @ ps ! k # drop (Suc k) ps = ps"
  by (simp add: Cons_nth_drop_Suc)

lemma removing_remove:
  assumes "k < length ps" and "distinct (List.map_filter removal_id ps)"
  shows "distinct (List.map_filter removal_id (take k ps @ drop (Suc k) ps))"
    and "removal_id (ps ! k) = Some c \<Longrightarrow> c \<notin> set (List.map_filter removal_id (take k ps @ drop (Suc k) ps))"
proof -
  have "distinct (List.map_filter removal_id (take k ps @ ps ! k # drop (Suc k) ps))"
    using assms by (simp only: split_nth)
  then show "distinct (List.map_filter removal_id (take k ps @ drop (Suc k) ps))"
    "removal_id (ps ! k) = Some c \<Longrightarrow> c \<notin> set (List.map_filter removal_id (take k ps @ drop (Suc k) ps))"
    by (auto simp: map_filter_append split: option.splits)
qed

lemma manager_ok_finish_remove:
  assumes ok: "manager_ok st m" and k: "k < length (cm_pending m)" and p: "cm_pending m ! k = PendingRemove i cid ws"
    and settled: "list_all (run_settled m) ws"
  shows "manager_ok st (stop_resumes k m)"
proof -
  let ?ps = "take k (cm_pending m) @ drop (Suc k) (cm_pending m)"
  let ?m = "stop_resumes k m"
  have m: "?m = m\<lparr> cm_pending := ?ps, cm_entries := filter (\<lambda>(c, _). c \<noteq> cid) (cm_entries m) \<rparr>"
    by (simp add: stop_resumes_def finish_stop_def p)
  have sub: "set ?ps \<subseteq> set (cm_pending m)" by (auto dest: in_set_takeD in_set_dropD)
  have e: "entries_ok m" and dist: "distinct (removing m)" using ok by (simp_all add: manager_ok_def)
  have pk: "pending_ok st m (PendingRemove i cid ws)"
    using ok k unfolding manager_ok_def p[symmetric] by (simp add: list_all_length)
  then have idead: "dead (cm_objs m ! i)" using doomed_settled[OF _ settled] by (simp add: pending_ok_def)
  have mem: "(cid, i) \<in> set (cm_entries m)" using pk by (simp add: pending_ok_def)
  have only: "j = i" if "(cid, j) \<in> set (cm_entries m)" for j
    using that mem e by (metis entries_ok_def map_of_is_SomeI option.inject)
  have "entries_ok ?m"
  proof -
    have "dead (cm_objs m ! j)" if "j < length (cm_objs m)"
      and "(ce_id (cm_objs m ! j), j) \<notin> set (cm_entries ?m)" for j
    proof (cases "(ce_id (cm_objs m ! j), j) \<in> set (cm_entries m)")
      case True
      with that(2) have "ce_id (cm_objs m ! j) = cid" by (simp add: m)
      with True only idead show ?thesis by auto
    qed (use e that in \<open>simp add: entries_ok_def\<close>)
    with e show ?thesis by (auto simp: entries_ok_def m distinct_map_filter)
  qed
  moreover have "pending_ok st ?m q" if q: "q \<in> set ?ps" for q
  proof -
    have "pending_ok st m q" using ok q sub by (auto simp: manager_ok_def list_all_iff)
    moreover have "c \<noteq> cid" if "q = PendingRemove j c ws'" for j c ws'
    proof
      assume "c = cid"
      with that have "removal_id q = Some cid" by (simp add: removal_id_def)
      with q have "cid \<in> set (List.map_filter removal_id ?ps)" unfolding set_map_filter by blast
      with removing_remove(2)[OF k dist, of cid] show False by (simp add: p removal_id_def)
    qed
    ultimately show ?thesis by (auto simp: pending_ok_def m split: pending_stop.splits)
  qed
  moreover have "stopping_all ?m \<longleftrightarrow> stopping_all m"
  proof -
    have "stopping_all m \<longleftrightarrow> list_ex (\<lambda>p. removal_id p = None) (take k (cm_pending m) @ cm_pending m ! k # drop (Suc k) (cm_pending m))"
      using k by (simp only: stopping_all_def split_nth)
    then show ?thesis by (simp add: m p stopping_all_def removal_id_def)
  qed
  ultimately show ?thesis
    using ok removing_remove(1)[OF k dist] by (auto simp: manager_ok_def list_all_iff m)
qed

text \<open>When a pending \<open>stopAll\<close> resumes, every channel is down.\<close>

lemma manager_ok_finish_stopAll:
  assumes ok: "manager_ok st m" and k: "k < length (cm_pending m)" and p: "cm_pending m ! k = PendingStopAll ws"
    and settled: "list_all (run_settled m) ws"
  shows "manager_ok st (stop_resumes k m)"
proof -
  let ?ps = "take k (cm_pending m) @ drop (Suc k) (cm_pending m)"
  let ?f = "\<lambda>e. e\<lparr> ce_stopRequested := False \<rparr>"
  let ?m = "stop_resumes k m"
  have e: "entries_ok m" and dist: "distinct (removing m)" using ok by (simp_all add: manager_ok_def)
  have m: "cm_entries ?m = cm_entries m" "cm_pending ?m = ?ps" "length (cm_objs ?m) = length (cm_objs m)"
    by (simp_all add: stop_resumes_def finish_stop_def p)
  have obj: "cm_objs ?m ! j = (if j \<in> snd ` set (cm_entries m) then ?f (cm_objs m ! j) else cm_objs m ! j)"
    if "j < length (cm_objs m)" for j
    using that fold_upd_nth[OF entries_distinct_objs[OF e], of j "m\<lparr> cm_pending := ?ps \<rparr>" ?f]
    by (simp add: stop_resumes_def finish_stop_def p)
  have pk: "pending_ok st m (PendingStopAll ws)"
    using ok k unfolding manager_ok_def p[symmetric] by (simp add: list_all_length)
  have was_dead: "dead (cm_objs m ! j)" if "j < length (cm_objs m)" for j
  proof (cases "(ce_id (cm_objs m ! j), j) \<in> set (cm_entries m)")
    case True
    then have "doomed (runs_of j ws) (cm_objs m ! j)" using pk by (auto simp: pending_ok_def)
    then show ?thesis using settled by (rule doomed_settled)
  qed (use e that in \<open>simp add: entries_ok_def\<close>)
  have now_dead: "dead (cm_objs ?m ! j)" if "j < length (cm_objs m)" for j
    using was_dead[OF that] by (simp add: obj[OF that] dead_def)
  have "entries_ok ?m"
    using e now_dead
    by (auto simp: entries_ok_def list_all_length m obj entry_ok_def cong: lifecycle_state.case_cong)
  moreover have "pending_ok st ?m q" if "q \<in> set ?ps" for q
  proof -
    have "pending_ok st m q" using ok that
      by (auto simp: manager_ok_def list_all_iff dest: in_set_takeD in_set_dropD)
    then show ?thesis
      using now_dead entries_ok_index[OF e] by (auto simp: pending_ok_def m dead_doomed split: pending_stop.splits)
  qed
  moreover have "list_all dead (cm_objs ?m)" using now_dead by (simp add: list_all_length m)
  ultimately show ?thesis
    using removing_remove(1)[OF k dist] by (simp add: manager_ok_def list_all_iff m)
qed

lemma manager_ok_resumes:
  assumes "manager_ok st m" and "resumable k m"
  shows "manager_ok st (stop_resumes k m)"
  using assms manager_ok_finish_remove manager_ok_finish_stopAll
  by (cases "cm_pending m ! k") (auto simp: resumable_def awaits_def)

subsection \<open>Starting\<close>

text \<open>A manager on which nothing has happened yet.\<close>

definition untouched :: "channel_manager \<Rightarrow> bool" where
  "untouched m \<longleftrightarrow> entries_ok m \<and> cm_pending m = [] \<and> list_all (\<lambda>e. dead e \<and> ce_state e = LsIdle) (cm_objs m)"

lemma untouched_register: "untouched m \<Longrightarrow> untouched (registerAdapter bo cid a m)"
proof -
  assume u: "untouched m"
  then have "dead (cm_objs m ! i)" if "map_of (cm_entries m) cid = Some i" for i
    using entries_ok_index[of m cid i] map_of_SomeD[OF that] by (simp add: untouched_def list_all_length)
  then show ?thesis
    using u entries_ok_register[of m cid bo a] by (simp add: untouched_def dead_def new_entry_def)
qed

lemma untouched_constructed: "untouched (gw_manager (gateway_constructed bo chans))"
proof -
  have "untouched (fold (\<lambda>(cid, _). registerAdapter bo cid (f cid)) cs m)" if "untouched m" for f cs m
    using that by (induction cs arbitrary: m) (auto simp: untouched_register split_beta)
  note folds = this
  have "untouched \<lparr> cm_objs = [], cm_entries = [], cm_pending = [] \<rparr>"
    by (simp add: untouched_def entries_ok_def)
  from folds[OF this] show ?thesis by (simp only: gateway_constructed_def gateway_state.simps)
qed

lemma manager_ok_startAll:
  assumes "untouched m"
  shows "manager_ok False (startAll now m)"
proof -
  let ?f = "\<lambda>e. if ce_state e = LsIdle \<or> ce_state e = LsCrashed then launch now e else e"
  let ?m = "startAll now m"
  have e: "entries_ok m" using assms by (simp add: untouched_def)
  have m: "cm_entries ?m = cm_entries m" "cm_pending ?m = []" "length (cm_objs ?m) = length (cm_objs m)"
    using assms by (simp_all add: startAll_def untouched_def)
  have obj: "cm_objs ?m ! j = (if j \<in> snd ` set (cm_entries m) then launch now (cm_objs m ! j) else cm_objs m ! j)"
    if "j < length (cm_objs m)" for j
    using that assms fold_upd_nth[OF entries_distinct_objs[OF e] that, of ?f]
    by (simp add: startAll_def untouched_def list_all_length)
  have launched: "entry_ok (launch now (cm_objs m ! j))" if "j < length (cm_objs m)" for j
    using assms that by (intro launch_running) (auto simp: untouched_def entries_ok_def list_all_length dead_def)
  have "entries_ok ?m"
    using e launched obj unfolding entries_ok_def list_all_length m
    by (auto simp: image_iff)
  then show ?thesis by (simp add: manager_ok_def m)
qed

section \<open>Channel supervision\<close>

definition gateway_ok :: "gateway_state \<Rightarrow> bool" where
  "gateway_ok g \<longleftrightarrow> gw_started g \<and> manager_ok (gw_stopped g) (gw_manager g)"

text \<open>No channel is removed again while an earlier removal of it still waits.\<close>

fun serial_removals :: "backoff_options \<Rightarrow> gateway_event list \<Rightarrow> gateway_state \<Rightarrow> bool" where
  "serial_removals bo [] g = True"
| "serial_removals bo (ev # evs) g =
     ((case ev of GeRemoveChannel cid \<Rightarrow> cid \<notin> set (removing (gw_manager g)) | _ \<Rightarrow> True)
      \<and> serial_removals bo evs (gateway_step bo ev g))"

lemma gateway_ok_on_manager: "gateway_ok g \<Longrightarrow> tame f \<Longrightarrow> gateway_ok (on_manager (upd_obj i f) g)"
  by (simp add: gateway_ok_def on_manager_def manager_ok_tamely[OF tamely_upd_obj])

lemma gateway_ok_step:
  assumes g: "gateway_ok g"
    and serial: "case ev of GeRemoveChannel cid \<Rightarrow> cid \<notin> set (removing (gw_manager g)) | _ \<Rightarrow> True"
  shows "gateway_ok (gateway_step bo ev g)"
proof (cases ev)
  case (GeAddChannel now cid account)
  with g show ?thesis by (auto simp: gateway_ok_def add_channel_def manager_ok_addOne)
next
  case (GeRemoveChannel cid)
  with g serial show ?thesis by (simp add: gateway_ok_def remove_channel_def manager_ok_removeOne)
next
  case GeStop
  with g show ?thesis by (auto simp: gateway_ok_def gateway_stop_def manager_ok_stopAll)
next
  case (GeResume k)
  with g show ?thesis
    by (simp add: gateway_ok_def gateway_resumes_def Let_def manager_ok_resumes split: pending_stop.splits)
next
  case (GeInjectEnd k)
  with g show ?thesis by (simp add: gateway_ok_def inject_ends_def split: prod.splits)
qed (use g in \<open>simp_all add: gateway_ok_on_manager tame_run_settles tame_restart_fires tame_set_status\<close>,
     use g in \<open>simp_all add: gateway_ok_def gateway_start_def inject_begins_def\<close>)

lemma gateway_ok_run: "gateway_ok g \<Longrightarrow> serial_removals bo evs g \<Longrightarrow> gateway_ok (gateway_run bo evs g)"
  by (induction evs arbitrary: g) (simp_all add: gateway_run_def gateway_ok_step)

lemma gateway_ok_booted: "gateway_ok (gateway_booted bo now chans)"
  using manager_ok_startAll[OF untouched_constructed, of now bo chans]
  by (simp add: gateway_ok_def gateway_booted_def gateway_start_def gateway_constructed_def)

text \<open>The adapter calls alive for a channel id, over all entries that ever had it, and the armed
  restart timers.\<close>

definition live_runs :: "string \<Rightarrow> gateway_state \<Rightarrow> nat" where
  "live_runs cid g = sum_list (map (\<lambda>e. if ce_id e = cid then length (ce_live e) else 0) (cm_objs (gw_manager g)))"

definition armed_timers :: "string \<Rightarrow> gateway_state \<Rightarrow> nat" where
  "armed_timers cid g = sum_list (map (\<lambda>e. if ce_id e = cid then length (ce_timers e) else 0) (cm_objs (gw_manager g)))"

lemma sum_list_single:
  assumes "\<And>j. j < length xs \<Longrightarrow> j \<noteq> i \<Longrightarrow> f (xs ! j) = (0 :: nat)"
  shows "sum_list (map f xs) = (if i < length xs then f (xs ! i) else 0)"
proof -
  have "sum_list (map f xs) = (\<Sum>j = 0..<length xs. f (xs ! j))" by (simp add: sum_list_sum_nth)
  also have "\<dots> = (\<Sum>j = 0..<length xs. if j = i then f (xs ! i) else 0)"
    using assms by (intro sum.cong) auto
  finally show ?thesis by (simp add: sum.delta)
qed

text \<open>Only the entry the table names can have a run or a timer.\<close>

lemma at_most_one:
  assumes ok: "entries_ok m" and cnt: "\<And>e. entry_ok e \<Longrightarrow> cnt e \<le> (1 :: nat)" "\<And>e. dead e \<Longrightarrow> cnt e = 0"
  shows "sum_list (map (\<lambda>e. if ce_id e = cid then cnt e else 0) (cm_objs m)) \<le> 1"
proof -
  obtain i where i: "\<And>j. (cid, j) \<in> set (cm_entries m) \<Longrightarrow> j = i"
    using ok by (metis entries_ok_def eq_key_imp_eq_value)
  have "(if ce_id (cm_objs m ! j) = cid then cnt (cm_objs m ! j) else 0) = 0"
    if "j < length (cm_objs m)" "j \<noteq> i" for j
    using that i ok cnt(2) by (auto simp: entries_ok_def)
  then have "sum_list (map (\<lambda>e. if ce_id e = cid then cnt e else 0) (cm_objs m))
      = (if i < length (cm_objs m) then (if ce_id (cm_objs m ! i) = cid then cnt (cm_objs m ! i) else 0) else 0)"
    by (rule sum_list_single)
  moreover have "i < length (cm_objs m) \<Longrightarrow> cnt (cm_objs m ! i) \<le> 1"
    using ok cnt(1) by (simp add: entries_ok_def list_all_length)
  ultimately show ?thesis by simp
qed

lemma runs_and_timers:
  "live_runs cid g + armed_timers cid g =
   sum_list (map (\<lambda>e. if ce_id e = cid then length (ce_live e) + length (ce_timers e) else 0) (cm_objs (gw_manager g)))"
  by (auto simp: live_runs_def armed_timers_def simp flip: sum_list_addf intro!: arg_cong[where f = sum_list])

lemma entry_ok_one: "entry_ok e \<Longrightarrow> length (ce_live e) + length (ce_timers e) \<le> 1"
  by (auto simp: entry_ok_def split: lifecycle_state.splits option.splits)

text \<open>C28: However adapters crash, exit, restart and are added, removed and stopped, a channel id never has
  two adapter calls running, nor one running and a restart due: the two together count one at most.
  Removals of one channel must not overlap.\<close>

theorem one_run_per_channel:
  assumes "serial_removals bo evs (gateway_booted bo now chans)"
  shows "live_runs cid (gateway_run bo evs (gateway_booted bo now chans))
       + armed_timers cid (gateway_run bo evs (gateway_booted bo now chans)) \<le> 1"
proof -
  let ?m = "gw_manager (gateway_run bo evs (gateway_booted bo now chans))"
  have "entries_ok ?m"
    using gateway_ok_run[OF gateway_ok_booted assms] by (simp add: gateway_ok_def manager_ok_def)
  then have "sum_list (map (\<lambda>e. if ce_id e = cid then length (ce_live e) + length (ce_timers e) else 0) (cm_objs ?m)) \<le> 1"
    by (rule at_most_one) (use entry_ok_one in auto, simp_all add: dead_def)
  then show ?thesis by (simp only: runs_and_timers)
qed

theorem one_run_per_channel_witness:
  "live_runs ''a'' (gateway_run default_backoff [GeSettle 0 0 5 (RunThrew ''x''), GeRestart 0 1 6, GeRemoveChannel ''a'']
      (gateway_booted default_backoff 0 [(''a'', ''ag'')]))
   + armed_timers ''a'' (gateway_run default_backoff [GeSettle 0 0 5 (RunThrew ''x''), GeRestart 0 1 6, GeRemoveChannel ''a'']
      (gateway_booted default_backoff 0 [(''a'', ''ag'')])) \<le> 1"
  by (rule one_run_per_channel)
    (simp add: gateway_booted_def gateway_start_def gateway_constructed_def registerAdapter_def
      startAll_def upd_obj_def new_entry_def launch_def on_manager_def run_settles_def onExit_def scheduleRestart_def
      restart_fires_def LONG_RUN_THRESHOLD_MS_def Let_def)

text \<open>Once a stop of the gateway has finished, no channel runs and none is due to restart, and this
  stays so: a later attempt to add a channel is refused.\<close>

theorem stopped_gateway_is_quiet:
  assumes "serial_removals bo evs (gateway_booted bo now chans)"
    and "gw_stopped (gateway_run bo evs (gateway_booted bo now chans))"
    and "\<not> stopping_all (gw_manager (gateway_run bo evs (gateway_booted bo now chans)))"
  shows "list_all (\<lambda>e. ce_live e = [] \<and> ce_timers e = [])
           (cm_objs (gw_manager (gateway_run bo evs (gateway_booted bo now chans))))"
  using gateway_ok_run[OF gateway_ok_booted assms(1)] assms(2,3)
  by (simp add: gateway_ok_def manager_ok_def list_all_iff dead_def)

lemmas gateway_eval = gateway_booted_def gateway_start_def gateway_constructed_def registerAdapter_def
  startAll_def upd_obj_def new_entry_def launch_def on_manager_def run_settles_def onExit_def scheduleRestart_def
  restart_fires_def LONG_RUN_THRESHOLD_MS_def gateway_stop_def stopAll_def request_stop_def awaited_run_def
  gateway_resumes_def resumable_def awaits_def run_settled_def stop_resumes_def finish_stop_def stopping_all_def
  removal_id_def gateway_run_def remove_channel_def removeOne_def add_channel_def addOne_def Let_def

theorem stopped_gateway_is_quiet_witness:
  "list_all (\<lambda>e. ce_live e = [] \<and> ce_timers e = [])
     (cm_objs (gw_manager (gateway_run default_backoff [GeStop, GeSettle 0 0 5 RunReturned, GeResume 0]
        (gateway_booted default_backoff 0 [(''a'', ''ag'')]))))"
  by (rule stopped_gateway_is_quiet) (simp_all add: gateway_eval)

text \<open>Two removals of one channel that overlap, as two \<open>upsert_gateway\<close> frames for one gateway can
  cause: the removal that finishes last deletes the entry of the channel added in between, whose
  adapter keeps running unseen, and the next addition starts a second one.\<close>

theorem overlapping_removals_double_run:
  "live_runs ''w'' (gateway_run default_backoff
     [GeRemoveChannel ''w'', GeRemoveChannel ''w'', GeSettle 0 0 5 RunReturned,
      GeResume 1, GeAddChannel 6 ''w'' ''ag'', GeResume 0, GeAddChannel 7 ''w'' ''ag'']
     (gateway_booted default_backoff 0 [(''w'', ''ag'')])) = 2"
  by (simp add: gateway_eval live_runs_def)

text \<open>Two calls of \<open>injectInboundThrough\<close> for one channel id that overlap leave the adapter of the
  first in the channel map for good: a registered channel is displaced by it, and an id without a
  channel counts as registered from then on.\<close>

theorem overlapping_injects_displace_channel:
  "let g' = gateway_run bo [GeInject cid, GeInject cid, GeInjectEnd 0, GeInjectEnd 0] (g\<lparr>gw_injected := []\<rparr>)
   in gw_channelMap g' cid = Some (gw_adapters g) \<and> gw_injected g' = []"
  by (simp add: gateway_run_def inject_begins_def inject_ends_def Let_def)

text \<open>A call that does not overlap another restores the map.\<close>

lemma inject_restores: "gw_injected g = [] \<Longrightarrow> gw_channelMap (inject_ends 0 (inject_begins cid g)) = gw_channelMap g"
  by (simp add: inject_begins_def inject_ends_def fun_eq_iff)

section \<open>Restart delays\<close>

definition backoff_ok :: "backoff_options \<Rightarrow> channel_entry \<Rightarrow> bool" where
  "backoff_ok bo e \<longleftrightarrow> bo_initial bo \<le> ce_nextBackoff e \<and> ce_nextBackoff e \<le> bo_max bo"

definition sane_backoff :: "backoff_options \<Rightarrow> bool" where
  "sane_backoff bo \<longleftrightarrow> 1 \<le> bo_factor bo \<and> bo_initial bo \<le> bo_max bo"

lemma backoff_step:
  assumes "sane_backoff bo" "b \<ge> bo_initial bo"
  shows "bo_initial bo \<le> min (b * bo_factor bo) (bo_max bo)"
proof -
  have "b * 1 \<le> b * bo_factor bo" using assms(1) unfolding sane_backoff_def by (intro mult_le_mono2) simp
  then have "b \<le> b * bo_factor bo" by simp
  with assms show ?thesis unfolding sane_backoff_def min.bounded_iff by linarith
qed

lemma backoff_ok_ops:
  assumes "sane_backoff bo" "backoff_ok bo e"
  shows "backoff_ok bo (launch now e)" "backoff_ok bo (request_stop e)"
    "backoff_ok bo (run_settles bo now r out e)" "backoff_ok bo (restart_fires bo now t e)"
proof -
  have l: "backoff_ok bo (launch now e)" if "backoff_ok bo e" for e
    using that by (simp add: backoff_ok_def launch_def Let_def)
  show "backoff_ok bo (launch now e)" using assms(2) by (rule l)
  show "backoff_ok bo (request_stop e)"
    using assms by (simp add: backoff_ok_def request_stop_def Let_def split: option.splits)
  show "backoff_ok bo (run_settles bo now r out e)"
    using assms
    by (cases out) (simp_all add: backoff_ok_def sane_backoff_def run_settles_def onExit_def scheduleRestart_def Let_def)
  show "backoff_ok bo (restart_fires bo now t e)"
    using assms backoff_step[OF assms(1), of "ce_nextBackoff e"]
    by (auto simp: restart_fires_def Let_def intro!: l) (simp_all add: backoff_ok_def)
qed

text \<open>Every restart delay lies between the initial and the maximal one.\<close>

definition backoffs_ok :: "backoff_options \<Rightarrow> gateway_state \<Rightarrow> bool" where
  "backoffs_ok bo g \<longleftrightarrow> list_all (backoff_ok bo) (cm_objs (gw_manager g))"

lemma backoffs_upd: "list_all (backoff_ok bo) (cm_objs m) \<Longrightarrow> (\<And>e. backoff_ok bo e \<Longrightarrow> backoff_ok bo (f e)) \<Longrightarrow>
  list_all (backoff_ok bo) (cm_objs (upd_obj i f m))"
  by (simp add: list_all_length upd_obj_nth)

lemma backoffs_fold: "list_all (backoff_ok bo) (cm_objs m) \<Longrightarrow> (\<And>e. backoff_ok bo e \<Longrightarrow> backoff_ok bo (f e)) \<Longrightarrow>
  list_all (backoff_ok bo) (cm_objs (fold (\<lambda>(c, i). upd_obj i f) es m))"
  by (induction es arbitrary: m) (auto simp: split_beta backoffs_upd)

lemma backoff_ok_new: "sane_backoff bo \<Longrightarrow> backoff_ok bo (new_entry bo cid a)"
  by (simp add: sane_backoff_def backoff_ok_def new_entry_def)

lemma backoffs_ok_step:
  assumes "sane_backoff bo" "backoffs_ok bo g"
  shows "backoffs_ok bo (gateway_step bo ev g)"
proof -
  note ops = backoff_ok_ops[OF assms(1)]
  have objs: "list_all (backoff_ok bo) (cm_objs (gw_manager g))" using assms(2) by (simp add: backoffs_ok_def)
  show ?thesis
  proof (cases ev)
    case (GeAddChannel now cid account)
    show ?thesis
      using objs ops(1)
      by (auto simp: GeAddChannel backoffs_ok_def add_channel_def addOne_def backoff_ok_new[OF assms(1)]
          intro!: backoffs_upd split: option.splits)
  next
    case (GeResume k)
    have "list_all (backoff_ok bo) (cm_objs (stop_resumes k (gw_manager g)))"
      using objs by (auto simp: stop_resumes_def finish_stop_def backoff_ok_def split: pending_stop.splits
          intro!: backoffs_fold)
    then show ?thesis
      using objs by (simp add: GeResume backoffs_ok_def gateway_resumes_def Let_def split: pending_stop.splits)
  qed (use objs ops in \<open>auto simp: backoffs_ok_def remove_channel_def removeOne_def gateway_stop_def stopAll_def
      gateway_start_def startAll_def on_manager_def inject_begins_def inject_ends_def Let_def
      intro!: backoffs_upd backoffs_fold split: option.splits prod.splits\<close>,
      simp_all add: backoff_ok_def)
qed

lemma backoffs_booted:
  assumes "sane_backoff bo"
  shows "backoffs_ok bo (gateway_booted bo now chans)"
proof -
  have reg: "list_all (backoff_ok bo) (cm_objs (fold (\<lambda>(cid, _). registerAdapter bo cid (f cid)) cs m))"
    if "list_all (backoff_ok bo) (cm_objs m)" for f cs m
    using that by (induction cs arbitrary: m) (auto simp: backoff_ok_new[OF assms])
  show ?thesis
    unfolding backoffs_ok_def gateway_booted_def gateway_start_def gateway_constructed_def startAll_def
    using backoff_ok_ops(1)[OF assms] by (auto intro!: backoffs_fold reg)
qed

lemma restart_delay_bounds:
  assumes "sane_backoff bo"
  shows "list_all (\<lambda>e. bo_initial bo \<le> ce_nextBackoff e \<and> ce_nextBackoff e \<le> bo_max bo)
           (cm_objs (gw_manager (gateway_run bo evs (gateway_booted bo now chans))))"
proof -
  have "backoffs_ok bo g \<Longrightarrow> backoffs_ok bo (gateway_run bo evs g)" for g
    by (induction evs arbitrary: g) (simp_all add: gateway_run_def backoffs_ok_step[OF assms])
  from this[OF backoffs_booted[OF assms]] show ?thesis
    by (simp add: backoffs_ok_def list_all_iff backoff_ok_def)
qed

end
