(* ===== verification/Sanitize.thy ===== *)
theory Sanitize
  imports Canonical_Json
begin

text \<open>
  The text helpers every channel and provider shares (\<open>protocol-core/src/gateway-sanitize.ts\<close>,
  \<open>protocol-core/src/gateway-text.ts\<close>): neutralizing untrusted text and splitting long replies.

  The regular expressions of the sanitizer are deterministic, so each is a function that takes the
  text from the current position and returns what follows the match. The five characters outside
  Latin-1 it writes (the warning sign, the two white brackets and the two wide angle brackets) are
  the fields of \<open>glyphs\<close>; the theorems assume of them only that they are none of the characters the
  sanitizer removes. The two patterns with Chinese text match no Latin-1 line and are left out.
\<close>

record glyphs =
  gl_warn :: char
  gl_lbracket :: char
  gl_rbracket :: char
  gl_lt :: char
  gl_gt :: char

section \<open>Patterns\<close>

abbreviation lt_char :: char where "lt_char \<equiv> CHR ''<''"
abbreviation gt_char :: char where "gt_char \<equiv> CHR ''>''"

text \<open>\<open>s.replace(/p/g, repl)\<close>, for a pattern that matches no empty text.\<close>

function replace_all :: "(string \<Rightarrow> string option) \<Rightarrow> string \<Rightarrow> string \<Rightarrow> string" where
  "replace_all pat repl [] = []"
| "replace_all pat repl (c # s) =
     (case pat (c # s) of
        Some rest \<Rightarrow> if length rest \<le> length s then repl @ replace_all pat repl rest else c # replace_all pat repl s
      | None \<Rightarrow> c # replace_all pat repl s)"
  by pat_completeness auto

termination
  by (relation "measure (\<lambda>(pat, repl, s). length s)") auto

text \<open>\<open>s.replace(/^p/, f)\<close>: only at the start of the text.\<close>

definition replace_start :: "(string \<Rightarrow> (string \<times> string) option) \<Rightarrow> string \<Rightarrow> string" where
  "replace_start pat s = (case pat s of Some (repl, rest) \<Rightarrow> repl @ rest | None \<Rightarrow> s)"

text \<open>A literal in either case.\<close>

fun eat_ci :: "string \<Rightarrow> string \<Rightarrow> string option" where
  "eat_ci [] s = Some s"
| "eat_ci (p # ps) [] = None"
| "eat_ci (p # ps) (c # s) = (if lower_char c = lower_char p then eat_ci ps s else None)"

definition eat_opt :: "char \<Rightarrow> string \<Rightarrow> string" where
  "eat_opt p s = (case s of c # t \<Rightarrow> if c = p then t else s | [] \<Rightarrow> [])"

abbreviation skip_ws :: "string \<Rightarrow> string" where
  "skip_ws \<equiv> dropWhile is_ws"

text \<open>A name whose letters white space may separate: \<open>a[\s]*g[\s]*e \<dots>\<close>.\<close>

fun eat_name :: "string \<Rightarrow> string \<Rightarrow> string option" where
  "eat_name [] s = Some s"
| "eat_name (p # ps) [] = None"
| "eat_name (p # ps) (c # s) =
     (if lower_char c = p then (if ps = [] then Some s else eat_name ps (skip_ws s)) else None)"

text \<open>\<open><\/?name[\s\S]*?>\<close>\<close>

definition wrapper_tag :: "string \<Rightarrow> string \<Rightarrow> string option" where
  "wrapper_tag name s =
     (case s of
        c # t \<Rightarrow>
          (if c = lt_char then
             (case eat_name name (eat_opt (CHR ''/'') t) of
                Some rest \<Rightarrow> (case dropWhile (\<lambda>d. d \<noteq> gt_char) rest of [] \<Rightarrow> None | _ # rest' \<Rightarrow> Some rest')
              | None \<Rightarrow> None)
           else None)
      | [] \<Rightarrow> None)"

text \<open>\<open><\/?\s*system(?:-reminder)?\s*>\<close>\<close>

definition system_tag :: "string \<Rightarrow> string option" where
  "system_tag s =
     (case s of
        c # t \<Rightarrow>
          (if c = lt_char then
             (case eat_ci ''system'' (skip_ws (eat_opt (CHR ''/'') t)) of
                Some rest \<Rightarrow>
                  (case skip_ws (case eat_ci ''-reminder'' rest of Some rest' \<Rightarrow> rest' | None \<Rightarrow> rest) of
                     d # after \<Rightarrow> if d = gt_char then Some after else None
                   | [] \<Rightarrow> None)
              | None \<Rightarrow> None)
           else None)
      | [] \<Rightarrow> None)"

text \<open>\<open>\[\/?INST\]\<close> and \<open><<\/?SYS>>\<close>\<close>

definition inst_mark :: "string \<Rightarrow> string option" where
  "inst_mark s = (case s of c # t \<Rightarrow> if c = CHR ''['' then eat_ci ''INST]'' (eat_opt (CHR ''/'') t) else None | [] \<Rightarrow> None)"

definition sys_mark :: "string \<Rightarrow> string option" where
  "sys_mark s = (case eat_ci ''<<'' s of Some t \<Rightarrow> eat_ci ''SYS>>'' (eat_opt (CHR ''/'') t) | None \<Rightarrow> None)"

text \<open>\<open><\s*\/?\|(?:system|user|assistant)\|?\s*>\<close>\<close>

definition role_name :: "string \<Rightarrow> string option" where
  "role_name s =
     (case eat_ci ''system'' s of Some r \<Rightarrow> Some r
      | None \<Rightarrow> (case eat_ci ''user'' s of Some r \<Rightarrow> Some r | None \<Rightarrow> eat_ci ''assistant'' s))"

definition role_tag :: "string \<Rightarrow> string option" where
  "role_tag s =
     (case s of
        c # t \<Rightarrow>
          (if c = lt_char then
             (case eat_ci ''|'' (eat_opt (CHR ''/'') (skip_ws t)) of
                Some t' \<Rightarrow>
                  (case role_name t' of
                     Some rest \<Rightarrow>
                       (case skip_ws (eat_opt (CHR ''|'') rest) of
                          d # after \<Rightarrow> if d = gt_char then Some after else None
                        | [] \<Rightarrow> None)
                   | None \<Rightarrow> None)
              | None \<Rightarrow> None)
           else None)
      | [] \<Rightarrow> None)"

section \<open>Line markers\<close>

definition stripped :: "glyphs \<Rightarrow> string \<Rightarrow> string" where
  "stripped g what = ''['' @ [gl_warn g] @ '' stripped: '' @ what @ '']''"

definition fake :: "glyphs \<Rightarrow> string \<Rightarrow> string" where
  "fake g what = ''['' @ [gl_warn g] @ '' fake: '' @ what @ '']''"

text \<open>\<open>^\[(BotCord (?:Message|Notification))\]\<close>, in either case; the captured text is kept.\<close>

definition captured :: "string \<Rightarrow> string \<Rightarrow> string" where
  "captured s rest = take (length s - length rest - 2) (drop 1 s)"

definition mark_message :: "glyphs \<Rightarrow> string \<Rightarrow> (string \<times> string) option" where
  "mark_message g s =
     (case eat_ci ''[BotCord Message]'' s of
        Some rest \<Rightarrow> Some (fake g (captured s rest), rest)
      | None \<Rightarrow>
          (case eat_ci ''[BotCord Notification]'' s of
             Some rest \<Rightarrow> Some (fake g (captured s rest), rest)
           | None \<Rightarrow> None))"

definition mark_rule :: "glyphs \<Rightarrow> string \<Rightarrow> (string \<times> string) option" where
  "mark_rule g s = (case eat_ci ''[Room Rule]'' s of Some rest \<Rightarrow> Some (fake g ''Room Rule'', rest) | None \<Rightarrow> None)"

text \<open>\<open>^\[BotCord\s+([^\]\r\n]+)\]\<close>: the label is what follows the white space, or, when the
  bracket closes at once, the last blank of at least two.\<close>

definition label_stop :: "char \<Rightarrow> bool" where
  "label_stop c \<longleftrightarrow> c = CHR '']'' \<or> c = CHR 0x0D \<or> c = CHR 0x0A"

definition botcord_label :: "string \<Rightarrow> (string \<times> string) option" where
  "botcord_label s =
     (case eat_ci ''[BotCord'' s of
        None \<Rightarrow> None
      | Some t \<Rightarrow>
          (let ws = takeWhile is_ws t; u = dropWhile is_ws t;
               label = takeWhile (\<lambda>c. \<not> label_stop c) u
           in if ws = [] then None
              else if label \<noteq> [] then
                (case dropWhile (\<lambda>c. \<not> label_stop c) u of
                   c # rest \<Rightarrow> if c = CHR '']'' then Some (label, rest) else None
                 | [] \<Rightarrow> None)
              else
                (case u of
                   c # rest \<Rightarrow>
                     if c = CHR '']'' \<and> length ws \<ge> 2 \<and> \<not> label_stop (last ws) then Some ([last ws], rest) else None
                 | [] \<Rightarrow> None)))"

definition label_head :: "string \<Rightarrow> string" where
  "label_head label =
     (let head = trim (takeWhile (\<lambda>c. c \<noteq> CHR '':'') label) in if head \<noteq> [] then head else trim label)"

definition mark_botcord :: "glyphs \<Rightarrow> string \<Rightarrow> (string \<times> string) option" where
  "mark_botcord g s =
     (case botcord_label s of
        Some (label, rest) \<Rightarrow> Some (fake g (''BotCord '' @ label_head label), rest)
      | None \<Rightarrow> None)"

definition role_words :: "string list" where
  "role_words = [''System'', ''SYSTEM'', ''Assistant'', ''ASSISTANT'', ''User'', ''USER'']"

definition mark_role :: "glyphs \<Rightarrow> string \<Rightarrow> (string \<times> string) option" where
  "mark_role g s =
     (case find (\<lambda>w. startsWith s (''['' @ w @ '']'')) role_words of
        Some w \<Rightarrow> Some (fake g w, drop (length w + 2) s)
      | None \<Rightarrow> None)"

section \<open>Sanitizing\<close>

text \<open>The rewritten of one line, in the order of the source.\<close>

definition line_rules :: "glyphs \<Rightarrow> (string \<Rightarrow> string) list" where
  "line_rules g =
     [replace_start (mark_message g),
      replace_start (mark_rule g),
      replace_start (mark_botcord g),
      replace_start (mark_role g),
      replace_all system_tag (stripped g ''system tag''),
      replace_all (eat_ci ''<|im_start|>'') (stripped g ''im_start''),
      replace_all (eat_ci ''<|im_end|>'') (stripped g ''im_end''),
      replace_all inst_mark (stripped g ''INST''),
      replace_all sys_mark (stripped g ''SYS''),
      replace_all role_tag (stripped g ''role tag'')]"

definition sanitize_line :: "glyphs \<Rightarrow> string \<Rightarrow> string" where
  "sanitize_line g line = fold (\<lambda>rule l. rule l) (line_rules g) line"

definition wrapper_names :: "string list" where
  "wrapper_names = [''agent-message'', ''human-message'', ''room-rule'']"

definition strip_tags :: "glyphs \<Rightarrow> string \<Rightarrow> string" where
  "strip_tags g text1 =
     fold (\<lambda>name s. replace_all (wrapper_tag name) (stripped g (name @ '' tag'')) s) wrapper_names text1"

definition sanitizeUntrustedContent :: "glyphs \<Rightarrow> string \<Rightarrow> string" where
  "sanitizeUntrustedContent g text1 =
     join [newline] (map (sanitize_line g) (split_lines (strip_tags g text1)))"

text \<open>Each replacement maps one character to one, so cutting to 100 characters can come first.\<close>

definition label_char :: "glyphs \<Rightarrow> char \<Rightarrow> char" where
  "label_char g c =
     (if c = newline \<or> c = CHR 0x0D then CHR '' ''
      else if c = CHR ''['' then gl_lbracket g
      else if c = CHR '']'' then gl_rbracket g
      else if c = CHR 0x22 then CHR 0x27
      else if c = lt_char then gl_lt g
      else if c = gt_char then gl_gt g
      else c)"

definition sanitizeSenderName :: "glyphs \<Rightarrow> string \<Rightarrow> string" where
  "sanitizeSenderName g name = map (label_char g) (take 100 name)"

section \<open>Splitting\<close>

text \<open>\<open>s.lastIndexOf("\n", limit)\<close>, \<open>None\<close> for \<open>-1\<close>.\<close>

definition last_newline :: "string \<Rightarrow> nat \<Rightarrow> nat option" where
  "last_newline s limit =
     (case filter (\<lambda>i. i < length s \<and> s ! i = newline) (rev [0..<Suc limit]) of i # _ \<Rightarrow> Some i | [] \<Rightarrow> None)"

definition split_cut :: "string \<Rightarrow> nat \<Rightarrow> nat" where
  "split_cut s limit = (case last_newline s limit of Some i \<Rightarrow> if i = 0 then limit else i | None \<Rightarrow> limit)"

definition drop_newline :: "string \<Rightarrow> string" where
  "drop_newline s = eat_opt newline s"

lemma last_newline_Some:
  assumes "last_newline s limit = Some i"
  shows "i \<le> limit \<and> i < length s \<and> s ! i = newline"
proof -
  have head: "(case ys of j # _ \<Rightarrow> Some j | [] \<Rightarrow> None) = Some i \<Longrightarrow> i \<in> set ys" for ys :: "nat list"
    by (cases ys) auto
  from head[OF assms[unfolded last_newline_def]] show ?thesis by (auto simp del: upt_Suc)
qed

lemma split_cut_bounds: "0 < limit \<Longrightarrow> 0 < split_cut s limit \<and> split_cut s limit \<le> limit"
  by (auto simp: split_cut_def split: option.splits dest: last_newline_Some)

lemma drop_newline_shorter: "length (drop_newline s) \<le> length s"
  by (simp add: drop_newline_def eat_opt_def split: list.splits)

text \<open>The loop of \<open>splitText\<close>, for a positive limit.\<close>

function split_loop :: "nat \<Rightarrow> string \<Rightarrow> string list" where
  "split_loop limit s =
     (if limit = 0 then [s]
      else if length s > limit
      then take (split_cut s limit) s # split_loop limit (drop_newline (drop (split_cut s limit) s))
      else if s \<noteq> [] then [s] else [])"
  by pat_completeness auto

termination
proof (relation "measure (\<lambda>(limit, s). length s)")
  fix limit :: nat and s :: string
  assume "\<not> limit = 0" "length s > limit"
  then have "0 < split_cut s limit" using split_cut_bounds by simp
  then have "length (drop (split_cut s limit) s) < length s" using \<open>length s > limit\<close> by simp
  then show "((limit, drop_newline (drop (split_cut s limit) s)), limit, s) \<in> measure (\<lambda>(limit, s). length s)"
    using drop_newline_shorter[of "drop (split_cut s limit) s"] by simp
qed simp

declare split_loop.simps [simp del]

text \<open>\<open>limit\<close> is the number the caller passes; a limit of zero or less returns the text whole.\<close>

definition splitText :: "string \<Rightarrow> int \<Rightarrow> string list" where
  "splitText text1 limit =
     (if limit \<le> 0 then [text1]
      else if text1 = [] then [[]]
      else if int (length text1) \<le> limit then [text1]
      else split_loop (nat limit) text1)"

section \<open>Rewrites that cannot assemble a tag\<close>

text \<open>
  \<open>rewritten s s'\<close>: \<open>s'\<close> arises from \<open>s\<close> by copying characters, by putting in place of a
  stretch of text a bracketed note without angle brackets, by dropping a carriage return before a
  line feed, and by putting a blank in place of white space.
\<close>

definition barrier :: "char \<Rightarrow> bool" where
  "barrier c \<longleftrightarrow> c = CHR ''['' \<or> c = CHR '']''"

inductive rewritten :: "string \<Rightarrow> string \<Rightarrow> bool" where
  rw_Nil: "rewritten [] []"
| rw_copy: "rewritten s s' \<Longrightarrow> rewritten (c # s) (c # s')"
| rw_note: "rewritten s s' \<Longrightarrow> barrier b \<Longrightarrow> lt_char \<notin> set x \<Longrightarrow> gt_char \<notin> set x \<Longrightarrow> rewritten (d @ s) (b # x @ s')"
| rw_cr: "rewritten (newline # s) s' \<Longrightarrow> rewritten (CHR 0x0D # newline # s) s'"
| rw_blank: "rewritten s s' \<Longrightarrow> w \<noteq> [] \<Longrightarrow> list_all is_ws w \<Longrightarrow> rewritten (w @ s) (CHR '' '' # s')"

lemma rewritten_refl: "rewritten s s"
  by (induction s) (auto intro: rewritten.intros)

lemma rewritten_append: "rewritten a a' \<Longrightarrow> rewritten b b' \<Longrightarrow> rewritten (a @ b) (a' @ b')"
proof (induction rule: rewritten.induct)
  case (rw_note s s' c x d)
  then have "rewritten (d @ (s @ b)) (c # x @ (s' @ b'))" by (intro rewritten.rw_note) simp_all
  then show ?case by simp
qed (auto intro: rewritten.intros)

lemma rewritten_gt: "rewritten s s' \<Longrightarrow> gt_char \<in> set s' \<Longrightarrow> gt_char \<in> set s"
  by (induction rule: rewritten.induct) (auto simp: barrier_def newline_def)

text \<open>The letters of the tag names, lower case, and the hyphen.\<close>

definition name_char :: "char \<Rightarrow> bool" where
  "name_char c \<longleftrightarrow> (97 \<le> (of_char c :: nat) \<and> (of_char c :: nat) \<le> 122) \<or> c = CHR ''-''"

lemma barrier_plain: "barrier c \<Longrightarrow> \<not> is_ws c \<and> c \<noteq> lt_char \<and> c \<noteq> gt_char \<and> c \<noteq> CHR ''/'' \<and> \<not> name_char (lower_char c)"
  by (auto simp: barrier_def is_ws_def name_char_def lower_char_def)

lemma name_char_not_ws: "name_char (lower_char c) \<Longrightarrow> \<not> is_ws c"
  by (auto simp: is_ws_def name_char_def lower_char_def Let_def split: if_splits)

lemma ws_consts: "is_ws newline" "is_ws (CHR 0x0D)" "is_ws (CHR '' '')"
  by (simp_all add: is_ws_def newline_def)

text \<open>A name read in the rewritten text, after white space, was there before.\<close>

lemma eat_name_rewritten:
  "rewritten s s' \<Longrightarrow> list_all name_char ps \<Longrightarrow> ps \<noteq> [] \<Longrightarrow> eat_name ps (skip_ws s') = Some r' \<Longrightarrow>
   \<exists>r. eat_name ps (skip_ws s) = Some r \<and> rewritten r r'"
proof (induction arbitrary: ps rule: rewritten.induct)
  case rw_Nil
  then show ?case by (cases ps) auto
next
  case (rw_copy s s' c)
  show ?case
  proof (cases "is_ws c")
    case True
    then show ?thesis using rw_copy by simp
  next
    case False
    obtain q qs where ps: "ps = q # qs" using rw_copy.prems by (cases ps) auto
    show ?thesis
    proof (cases "qs = []")
      case True
      then show ?thesis using rw_copy.prems False rw_copy.hyps by (auto simp: ps split: if_splits)
    next
      case qs: False
      then have "eat_name qs (skip_ws s') = Some r'" "lower_char c = q" "list_all name_char qs"
        using rw_copy.prems False by (auto simp: ps split: if_splits)
      then show ?thesis using rw_copy.IH[of qs] qs False by (auto simp: ps)
    qed
  qed
next
  case (rw_note s s' b x d)
  then obtain q qs where "ps = q # qs" "name_char q" by (cases ps) auto
  then show ?case using rw_note barrier_plain[of b] by (auto split: if_splits)
next
  case (rw_cr s s')
  then show ?case using ws_consts by auto
next
  case (rw_blank s s' w)
  then have "skip_ws (w @ s) = skip_ws s" by (auto simp: list_all_iff dropWhile_append)
  with rw_blank show ?case using ws_consts by auto
qed

lemma rewritten_head:
  "rewritten s s' \<Longrightarrow> s' = c # t \<Longrightarrow> \<not> barrier c \<Longrightarrow> \<not> is_ws c \<Longrightarrow> \<exists>u. s = c # u \<and> rewritten u t"
  by (induction rule: rewritten.induct) (auto simp: ws_consts)

lemma eat_name_head:
  assumes "rewritten s s'" "list_all name_char ps" "ps \<noteq> []" "eat_name ps s' = Some r'"
  shows "\<exists>r. eat_name ps s = Some r \<and> rewritten r r'"
proof -
  obtain q qs where ps: "ps = q # qs" using assms(3) by (cases ps) auto
  obtain c t where s': "s' = c # t" and c: "lower_char c = q" using assms(4) by (cases s') (auto simp: ps split: if_splits)
  have nws: "\<not> is_ws c" and nb: "\<not> barrier c" using assms(2) c name_char_not_ws[of c] barrier_plain[of c] by (auto simp: ps)
  then have "\<exists>u. s = c # u" using rewritten_head[OF assms(1) s'] by blast
  then have "skip_ws s = s" "skip_ws s' = s'" using nws by (auto simp: s')
  with eat_name_rewritten[OF assms(1-3)] assms(4) show ?thesis by simp
qed

text \<open>No complete tag of that name anywhere in the text.\<close>

fun tag_free :: "string \<Rightarrow> string \<Rightarrow> bool" where
  "tag_free name [] = True"
| "tag_free name (c # s) = (wrapper_tag name (c # s) = None \<and> tag_free name s)"

lemma tag_free_append: "tag_free name (d @ s) \<Longrightarrow> tag_free name s"
  by (induction d) auto

lemma tag_free_prepend: "lt_char \<notin> set x \<Longrightarrow> tag_free name (x @ s) \<longleftrightarrow> tag_free name s"
  by (induction x) (auto simp: wrapper_tag_def)

lemma dropWhile_gt: "dropWhile (\<lambda>d. d \<noteq> gt_char) r = [] \<longleftrightarrow> gt_char \<notin> set r"
  by (auto simp: dropWhile_eq_Nil_conv)

lemma wrapper_tag_None:
  "wrapper_tag name (lt_char # t) = None \<longleftrightarrow>
   (case eat_name name (eat_opt (CHR ''/'') t) of Some r \<Rightarrow> gt_char \<notin> set r | None \<Rightarrow> True)"
proof (cases "eat_name name (eat_opt (CHR ''/'') t)")
  case (Some r)
  then have "wrapper_tag name (lt_char # t)
      = (case dropWhile (\<lambda>d. d \<noteq> gt_char) r of [] \<Rightarrow> None | _ # rest' \<Rightarrow> Some rest')"
    by (simp only: wrapper_tag_def list.case if_True option.case refl)
  moreover have "(case xs of [] \<Rightarrow> None | _ # rest' \<Rightarrow> Some rest') = None \<longleftrightarrow> xs = []" for xs :: string
    by (cases xs) auto
  ultimately show ?thesis by (simp only: Some option.case dropWhile_gt)
qed (simp add: wrapper_tag_def)

lemma tag_kept_out:
  assumes "rewritten t t'" "list_all name_char name" "name \<noteq> []" "wrapper_tag name (lt_char # t) = None"
  shows "wrapper_tag name (lt_char # t') = None"
proof (rule ccontr)
  assume "wrapper_tag name (lt_char # t') \<noteq> None"
  then obtain r' where r': "eat_name name (eat_opt (CHR ''/'') t') = Some r'" "gt_char \<in> set r'"
    by (auto simp: wrapper_tag_None split: option.splits)
  have slash: "\<exists>r. eat_name name (eat_opt (CHR ''/'') t) = Some r \<and> rewritten r r'"
  proof (cases t')
    case (Cons c x)
    show ?thesis
    proof (cases "c = CHR ''/''")
      case True
      then obtain u where "t = c # u" "rewritten u x"
        using rewritten_head[OF assms(1) Cons] by (auto simp: barrier_def is_ws_def)
      then show ?thesis using eat_name_head[OF _ assms(2,3)] r'(1) True Cons by (auto simp: eat_opt_def)
    next
      case False
      then obtain r where r: "eat_name name t = Some r" "rewritten r r'"
        using eat_name_head[OF assms(1-3)] r'(1) Cons by (auto simp: eat_opt_def)
      have "eat_opt (CHR ''/'') t = t"
        using r(1) assms(2,3) by (cases name; cases t) (auto simp: eat_opt_def name_char_def lower_char_def split: if_splits)
      with r show ?thesis by auto
    qed
  qed (use r' assms(3) in \<open>cases name; simp add: eat_opt_def\<close>)
  then obtain r where "eat_name name (eat_opt (CHR ''/'') t) = Some r" "gt_char \<in> set r"
    using rewritten_gt r'(2) by blast
  with assms(4) show False by (simp add: wrapper_tag_None)
qed

lemma tag_free_rewritten:
  "rewritten s s' \<Longrightarrow> list_all name_char name \<Longrightarrow> name \<noteq> [] \<Longrightarrow> tag_free name s \<Longrightarrow> tag_free name s'"
proof (induction rule: rewritten.induct)
  case (rw_copy s s' c)
  have "wrapper_tag name (c # s') = None"
  proof (cases "c = lt_char")
    case True
    with rw_copy tag_kept_out[of s s' name] show ?thesis by simp
  qed (simp add: wrapper_tag_def)
  with rw_copy show ?case by simp
next
  case (rw_note s s' b x d)
  then have "tag_free name s'" using tag_free_append by blast
  moreover have "lt_char \<notin> set (b # x)" using rw_note barrier_plain[of b] by auto
  ultimately show ?case using tag_free_prepend[of "b # x" name s'] by simp
next
  case (rw_blank s s' w)
  then have "tag_free name s'" using tag_free_append by blast
  then show ?case by (simp add: wrapper_tag_def)
qed simp_all

section \<open>The rules are such rewrites\<close>

lemma rewritten_note: "barrier b \<Longrightarrow> lt_char \<notin> set x \<Longrightarrow> gt_char \<notin> set x \<Longrightarrow> rewritten s s' \<Longrightarrow> rewritten (d @ s) ((b # x) @ s')"
  using rw_note[of s s' b x d] by simp

text \<open>A pattern reads its text from the front.\<close>

definition reads_front :: "(string \<Rightarrow> string option) \<Rightarrow> bool" where
  "reads_front pat \<longleftrightarrow> (\<forall>s rest. pat s = Some rest \<longrightarrow> (\<exists>d. s = d @ rest))"

lemma reads_frontD: "reads_front pat \<Longrightarrow> pat s = Some rest \<Longrightarrow> \<exists>d. s = d @ rest"
  by (simp add: reads_front_def)

lemma suffix_dropWhile: "\<exists>d. s = d @ dropWhile P s"
  by (metis takeWhile_dropWhile_id)

lemma suffix_eat_opt: "\<exists>d. s = d @ eat_opt p s"
  by (cases s) (auto simp: eat_opt_def intro: exI[of _ "[p]"] exI[of _ "[]"])

lemma eat_ci_suffix: "eat_ci ps s = Some rest \<Longrightarrow> \<exists>d. s = d @ rest"
proof (induction ps s rule: eat_ci.induct)
  case (3 p ps c s)
  then obtain d where "s = d @ rest" by (auto split: if_splits)
  then show ?case by (intro exI[of _ "c # d"]) simp
qed auto

lemma eat_name_suffix: "eat_name ps s = Some rest \<Longrightarrow> \<exists>d. s = d @ rest"
proof (induction ps s rule: eat_name.induct)
  case (3 p ps c s)
  show ?case
  proof (cases "ps = []")
    case True
    with 3 show ?thesis by (intro exI[of _ "[c]"]) (auto split: if_splits)
  next
    case False
    with 3 obtain d where "skip_ws s = d @ rest" by (auto split: if_splits)
    moreover obtain e where "s = e @ skip_ws s" using suffix_dropWhile by blast
    ultimately show ?thesis by (intro exI[of _ "c # e @ d"]) simp
  qed
qed auto

text \<open>Suffixes compose.\<close>

definition tail_of :: "string \<Rightarrow> string \<Rightarrow> bool" where
  "tail_of t s \<longleftrightarrow> (\<exists>d. s = d @ t)"

lemma tail_of_trans: "tail_of t s \<Longrightarrow> tail_of u t \<Longrightarrow> tail_of u s"
  unfolding tail_of_def by (metis append.assoc)

lemma tail_ofs:
  "tail_of s s" "tail_of s (c # s)" "tail_of (dropWhile P s) s" "tail_of (eat_opt p s) s"
  "eat_ci ps s = Some r \<Longrightarrow> tail_of r s" "eat_name ps s = Some r \<Longrightarrow> tail_of r s"
  using suffix_dropWhile suffix_eat_opt eat_ci_suffix eat_name_suffix
  by (auto simp: tail_of_def)

lemma reads_front_tail: "(\<And>s rest. pat s = Some rest \<Longrightarrow> tail_of rest s) \<Longrightarrow> reads_front pat"
  by (auto simp: reads_front_def tail_of_def)

lemma reads_wrapper: "reads_front (wrapper_tag name)"
proof (rule reads_front_tail)
  fix s rest assume "wrapper_tag name s = Some rest"
  then obtain t r d where "s = lt_char # t" "eat_name name (eat_opt (CHR ''/'') t) = Some r"
    "dropWhile (\<lambda>d. d \<noteq> gt_char) r = d # rest"
    by (auto simp: wrapper_tag_def split: list.splits option.splits if_splits)
  then show "tail_of rest s"
    by (metis tail_of_trans tail_ofs)
qed

lemma reads_system: "reads_front system_tag"
proof (rule reads_front_tail)
  fix s rest assume h: "system_tag s = Some rest"
  then obtain c t where s: "s = c # t" by (cases s) (simp_all add: system_tag_def)
  have c: "c = lt_char" using h by (simp add: system_tag_def s split: if_splits)
  obtain r where r: "eat_ci ''system'' (skip_ws (eat_opt (CHR ''/'') t)) = Some r"
    using h unfolding system_tag_def s c
    by (cases "eat_ci ''system'' (skip_ws (eat_opt (CHR ''/'') t))") (simp_all del: eat_ci.simps)
  define q where "q = (case eat_ci ''-reminder'' r of Some rest' \<Rightarrow> rest' | None \<Rightarrow> r)"
  have q: "tail_of q r"
    by (cases "eat_ci ''-reminder'' r") (simp_all add: q_def tail_ofs del: eat_ci.simps)
  have "system_tag s = (case skip_ws q of d # after \<Rightarrow> if d = gt_char then Some after else None | [] \<Rightarrow> None)"
    by (simp add: system_tag_def s c q_def r del: eat_ci.simps)
  with h obtain d where d: "skip_ws q = d # rest" by (auto split: list.splits if_splits)
  have "tail_of r s"
    unfolding s using tail_ofs(2) tail_ofs(4) tail_ofs(3) tail_ofs(5)[OF r] by (blast intro: tail_of_trans)
  moreover have "tail_of rest q" using tail_of_trans[OF tail_ofs(3)[of is_ws q]] tail_ofs(2) unfolding d by blast
  ultimately show "tail_of rest s" using q by (blast intro: tail_of_trans)
qed

lemma reads_inst: "reads_front inst_mark"
proof (rule reads_front_tail)
  fix s rest assume "inst_mark s = Some rest"
  then obtain c t where "s = c # t" "eat_ci ''INST]'' (eat_opt (CHR ''/'') t) = Some rest"
    by (auto simp: inst_mark_def split: list.splits if_splits)
  then show "tail_of rest s" by (metis tail_of_trans tail_ofs)
qed

lemma reads_sys: "reads_front sys_mark"
proof (rule reads_front_tail)
  fix s rest assume "sys_mark s = Some rest"
  then obtain t where "eat_ci ''<<'' s = Some t" "eat_ci ''SYS>>'' (eat_opt (CHR ''/'') t) = Some rest"
    by (auto simp: sys_mark_def split: option.splits)
  then show "tail_of rest s" by (metis tail_of_trans tail_ofs)
qed

lemma role_name_tail: "role_name s = Some r \<Longrightarrow> tail_of r s"
  by (auto simp: role_name_def split: option.splits intro: tail_ofs)

lemma reads_role: "reads_front role_tag"
proof (rule reads_front_tail)
  fix s rest assume "role_tag s = Some rest"
  then obtain t t' r d where "s = lt_char # t" "eat_ci ''|'' (eat_opt (CHR ''/'') (skip_ws t)) = Some t'"
    "role_name t' = Some r" "skip_ws (eat_opt (CHR ''|'') r) = d # rest"
    by (auto simp: role_tag_def split: list.splits option.splits if_splits)
  then show "tail_of rest s" using role_name_tail[of t' r] by (metis tail_of_trans tail_ofs)
qed

lemma reads_ci: "reads_front (eat_ci ps)"
  by (rule reads_front_tail) (rule tail_ofs)

lemmas reads_patterns = reads_wrapper reads_system reads_inst reads_sys reads_role reads_ci

text \<open>Glyphs that are none of the characters the sanitizer watches.\<close>

definition glyphs_ok :: "glyphs \<Rightarrow> bool" where
  "glyphs_ok g \<longleftrightarrow>
     list_all (\<lambda>c. c \<notin> set [lt_char, gt_char, CHR ''['', CHR '']'', CHR 0x22, newline, CHR 0x0D])
       [gl_warn g, gl_lbracket g, gl_rbracket g, gl_lt g, gl_gt g]"

lemma replace_all_rewritten:
  assumes "reads_front pat" "barrier b" "lt_char \<notin> set x" "gt_char \<notin> set x"
  shows "rewritten s (replace_all pat (b # x) s)"
proof (induction "length s" arbitrary: s rule: less_induct)
  case less
  show ?case
  proof (cases s)
    case (Cons c t)
    show ?thesis
    proof (cases "\<exists>rest. pat s = Some rest \<and> length rest \<le> length t")
      case True
      then obtain rest where rest: "pat s = Some rest" "length rest \<le> length t" by blast
      obtain d where "s = d @ rest" using reads_frontD[OF assms(1) rest(1)] by blast
      moreover have "rewritten rest (replace_all pat (b # x) rest)" using less rest(2) Cons by simp
      ultimately have "rewritten s (b # x @ replace_all pat (b # x) rest)"
        using rw_note[OF _ assms(2-4)] by blast
      then show ?thesis using rest Cons by simp
    next
      case False
      then have "replace_all pat (b # x) s = c # replace_all pat (b # x) t"
        by (auto simp: Cons split: option.splits)
      moreover have "rewritten t (replace_all pat (b # x) t)" using less Cons by simp
      ultimately show ?thesis using Cons by (auto intro: rw_copy)
    qed
  qed (simp add: rw_Nil)
qed

text \<open>A removed tag does not come back.\<close>

lemma replace_all_ws:
  assumes "\<And>c s. pat (c # s) \<noteq> None \<Longrightarrow> c = lt_char" "\<not> is_ws b"
  shows "skip_ws (replace_all pat (b # x) s) = replace_all pat (b # x) (skip_ws s)"
proof (induction s)
  case (Cons c s)
  show ?case
  proof (cases "is_ws c")
    case True
    then have "c \<noteq> lt_char" by (auto simp: is_ws_def)
    then have "pat (c # s) = None" using assms(1) by blast
    then show ?thesis using Cons True by simp
  next
    case False
    then show ?thesis using assms(2) by (auto split: option.splits)
  qed
qed simp

lemma replace_all_head:
  assumes "replace_all pat (b # x) s = c # t" "c \<noteq> b"
  shows "\<exists>u. s = c # u \<and> t = replace_all pat (b # x) u"
  using assms by (cases s) (auto split: option.splits if_splits)

lemma eat_name_replaced:
  assumes pat: "\<And>c s. pat (c # s) \<noteq> None \<Longrightarrow> c = lt_char" and b: "barrier b"
  shows "list_all name_char ps \<Longrightarrow> eat_name ps (replace_all pat (b # x) s) = Some r' \<Longrightarrow>
    \<exists>r. eat_name ps s = Some r \<and> r' = replace_all pat (b # x) r"
proof (induction ps arbitrary: s)
  case (Cons q qs)
  obtain c t where ct: "replace_all pat (b # x) s = c # t" and q: "lower_char c = q"
    using Cons.prems(2) by (cases "replace_all pat (b # x) s") (auto split: if_splits)
  have "c \<noteq> b" using Cons.prems(1) q b barrier_plain[of b] by auto
  then obtain u where u: "s = c # u" "t = replace_all pat (b # x) u" using replace_all_head[OF ct] by blast
  show ?case
  proof (cases "qs = []")
    case True
    then show ?thesis using Cons.prems(2) ct q u by simp
  next
    case False
    have "skip_ws t = replace_all pat (b # x) (skip_ws u)"
      unfolding u(2)
    proof (rule replace_all_ws)
      show "\<And>c s. pat (c # s) \<noteq> None \<Longrightarrow> c = lt_char" by (rule pat)
      show "\<not> is_ws b" using b barrier_plain by blast
    qed
    then show ?thesis using Cons.IH[of "skip_ws u"] Cons.prems ct q u(1) False by auto
  qed
qed simp

lemma wrapper_starts: "wrapper_tag name (c # s) \<noteq> None \<Longrightarrow> c = lt_char"
  by (simp add: wrapper_tag_def split: if_splits)

lemma wrapper_shorter: "wrapper_tag name (c # s) = Some rest \<Longrightarrow> length rest \<le> length s"
proof -
  assume h: "wrapper_tag name (c # s) = Some rest"
  then obtain r d where "eat_name name (eat_opt (CHR ''/'') s) = Some r" "dropWhile (\<lambda>d. d \<noteq> gt_char) r = d # rest"
    by (auto simp: wrapper_tag_def split: option.splits list.splits if_splits)
  then have "tail_of rest s" by (metis tail_of_trans tail_ofs)
  then show ?thesis by (auto simp: tail_of_def)
qed

lemma replace_all_gt: "gt_char \<notin> set repl \<Longrightarrow> reads_front pat \<Longrightarrow> gt_char \<in> set (replace_all pat repl s) \<Longrightarrow> gt_char \<in> set s"
proof (induction pat repl s rule: replace_all.induct)
  case (2 pat repl c s)
  show ?case
  proof (cases "pat (c # s)")
    case None
    with 2 show ?thesis by auto
  next
    case (Some rest)
    obtain d where "c # s = d @ rest" using reads_frontD[OF 2(5) Some] by blast
    then have "set rest \<subseteq> set (c # s)" by (metis Un_upper2 set_append)
    then show ?thesis using 2 Some by (auto split: if_splits)
  qed
qed simp

lemma tag_removed:
  assumes b: "barrier b" and x: "lt_char \<notin> set x" "gt_char \<notin> set x" and name: "list_all name_char name" "name \<noteq> []"
  shows "tag_free name (replace_all (wrapper_tag name) (b # x) s)"
proof (induction "length s" arbitrary: s rule: less_induct)
  case less
  let ?R = "replace_all (wrapper_tag name) (b # x)"
  have bx: "lt_char \<notin> set (b # x)" "gt_char \<notin> set (b # x)" using b x barrier_plain[of b] by auto
  show ?case
  proof (cases s)
    case (Cons c t)
    show ?thesis
    proof (cases "wrapper_tag name (c # t)")
      case (Some rest)
      then have "?R s = (b # x) @ ?R rest" "length rest < length s"
        using wrapper_shorter[OF Some] by (simp_all add: Cons)
      with less bx(1) show ?thesis using tag_free_prepend[OF bx(1), of name "?R rest"] by simp
    next
      case None
      then have out: "?R s = c # ?R t" by (simp add: Cons)
      have "wrapper_tag name (c # ?R t) = None"
      proof (cases "c = lt_char")
        case True
        show ?thesis
        proof (rule ccontr)
          assume "wrapper_tag name (c # ?R t) \<noteq> None"
          then obtain r' where r': "eat_name name (eat_opt (CHR ''/'') (?R t)) = Some r'" "gt_char \<in> set r'"
            by (auto simp: True wrapper_tag_None split: option.splits)
          have eq: "eat_opt (CHR ''/'') (?R t) = ?R (eat_opt (CHR ''/'') t)"
          proof (cases "?R t")
            case (Cons e u)
            show ?thesis
            proof (cases "e = b")
              case True
              then have "e \<noteq> CHR ''/''" using b barrier_plain[of b] by auto
              moreover have "\<not> (\<exists>u. t = CHR ''/'' # u)"
                using Cons \<open>e \<noteq> CHR ''/''\<close> wrapper_starts[of name "CHR ''/''"] by (auto simp: wrapper_tag_def)
              ultimately show ?thesis using Cons by (cases t) (auto simp: eat_opt_def)
            next
              case False
              then obtain v where "t = e # v" "u = ?R v" using replace_all_head[OF Cons] by blast
              then show ?thesis using Cons by (auto simp: eat_opt_def)
            qed
          next
            case Nil
            then show ?thesis by (cases t) (auto simp: eat_opt_def split: option.splits if_splits)
          qed
          have "\<exists>r. eat_name name (eat_opt (CHR ''/'') t) = Some r \<and> r' = ?R r"
            by (rule eat_name_replaced[OF _ b name(1) r'(1)[unfolded eq]]) (rule wrapper_starts)
          then obtain r where "eat_name name (eat_opt (CHR ''/'') t) = Some r" "r' = ?R r" by blast
          with r'(2) None True show False
            using replace_all_gt[OF bx(2) reads_wrapper] by (auto simp: wrapper_tag_None)
        qed
      qed (simp add: wrapper_tag_def)
      then show ?thesis using less Cons out by simp
    qed
  qed simp
qed

subsection \<open>Marked lines\<close>

lemma eat_ci_match: "eat_ci ps s = Some rest \<Longrightarrow> \<exists>d. s = d @ rest \<and> map lower_char d = map lower_char ps"
proof (induction ps s rule: eat_ci.induct)
  case (3 p ps c s)
  then obtain d where "s = d @ rest" "map lower_char d = map lower_char ps" by (auto split: if_splits)
  with 3 show ?case by (intro exI[of _ "c # d"]) (auto split: if_splits)
qed auto

lemma of_lower_char: "(of_char (lower_char q) :: nat) = (let n = of_char q in if (65 \<le> n \<and> n \<le> 90) \<or> (192 \<le> n \<and> n \<le> 222 \<and> n \<noteq> 215) then n + 32 else n)"
  by (auto simp: lower_char_def Let_def)

lemma lower_char_angle: "lower_char q = lt_char \<longleftrightarrow> q = lt_char" "lower_char q = gt_char \<longleftrightarrow> q = gt_char"
proof -
  have "lower_char q = c \<longleftrightarrow> q = c" if "(of_char c :: nat) \<in> {60, 62}" for c
  proof -
    have "lower_char q = c \<longleftrightarrow> (of_char (lower_char q) :: nat) = of_char c" by simp
    also have "\<dots> \<longleftrightarrow> (of_char q :: nat) = of_char c" using that unfolding of_lower_char Let_def by auto
    finally show ?thesis by simp
  qed
  then show "lower_char q = lt_char \<longleftrightarrow> q = lt_char" "lower_char q = gt_char \<longleftrightarrow> q = gt_char" by simp_all
qed

text \<open>Text without angle brackets, and literals that match only such text.\<close>

definition plain :: "string \<Rightarrow> bool" where
  "plain s \<longleftrightarrow> lt_char \<notin> set s \<and> gt_char \<notin> set s"

lemma plain_simps [simp]: "plain []" "plain (c # s) \<longleftrightarrow> c \<noteq> lt_char \<and> c \<noteq> gt_char \<and> plain s"
  "plain (s @ t) \<longleftrightarrow> plain s \<and> plain t"
  by (auto simp: plain_def)

lemma plain_lower: "plain (map lower_char d) \<longleftrightarrow> plain d"
  by (induction d) (simp_all add: lower_char_angle)

lemma eat_ci_plain: "eat_ci ps s = Some rest \<Longrightarrow> plain ps \<Longrightarrow> \<exists>d. s = d @ rest \<and> plain d"
  using eat_ci_match[of ps s rest] by (metis plain_lower)

lemma plain_captured: "plain d \<Longrightarrow> plain (captured (d @ rest) rest)"
  by (auto simp: plain_def captured_def dest!: in_set_takeD in_set_dropD)

lemma fake_note:
  assumes "glyphs_ok g" "plain what" "rewritten s s'"
  shows "rewritten (d @ s) (fake g what @ s')"
  using rewritten_note[of "CHR ''[''" "[gl_warn g] @ '' fake: '' @ what @ '']''" s s' d] assms
  by (auto simp: fake_def barrier_def glyphs_ok_def plain_def)

lemma trim_middle: "\<exists>a b. s = a @ trim s @ b"
proof -
  define m where "m = dropWhile is_ws s"
  have s: "s = takeWhile is_ws s @ m" by (simp add: m_def)
  have "rev m = takeWhile is_ws (rev m) @ dropWhile is_ws (rev m)" by simp
  then have "m = rev (dropWhile is_ws (rev m)) @ rev (takeWhile is_ws (rev m))" by (metis rev_append rev_rev_ident)
  moreover have "trim s = rev (dropWhile is_ws (rev m))" by (simp add: trim_def m_def)
  ultimately have "s = takeWhile is_ws s @ trim s @ rev (takeWhile is_ws (rev m))" using s by metis
  then show ?thesis by blast
qed

lemma label_head_middle: "\<exists>a b. label = a @ label_head label @ b"
proof (cases "trim (takeWhile (\<lambda>c. c \<noteq> CHR '':'') label) \<noteq> []")
  case True
  obtain a b where "takeWhile (\<lambda>c. c \<noteq> CHR '':'') label = a @ trim (takeWhile (\<lambda>c. c \<noteq> CHR '':'') label) @ b"
    using trim_middle by blast
  then have "label = a @ trim (takeWhile (\<lambda>c. c \<noteq> CHR '':'') label) @ b @ dropWhile (\<lambda>c. c \<noteq> CHR '':'') label"
    by (metis append.assoc takeWhile_dropWhile_id)
  with True show ?thesis by (auto simp: label_head_def Let_def)
qed (use trim_middle[of label] in \<open>auto simp: label_head_def Let_def\<close>)

lemma botcord_label_split:
  assumes "botcord_label s = Some (label, rest)"
  shows "\<exists>d. s = d @ label @ CHR '']'' # rest"
proof -
  obtain t where t: "eat_ci ''[BotCord'' s = Some t"
    using assms by (cases "eat_ci ''[BotCord'' s") (simp_all add: botcord_label_def del: eat_ci.simps)
  obtain d where d: "s = d @ t" using eat_ci_suffix[OF t] by blast
  let ?ws = "takeWhile is_ws t" and ?u = "dropWhile is_ws t"
  let ?l = "takeWhile (\<lambda>c. \<not> label_stop c) ?u" and ?m = "dropWhile (\<lambda>c. \<not> label_stop c) ?u"
  note eq = assms[unfolded botcord_label_def t option.case Let_def]
  have ws: "?ws \<noteq> []" using eq by (auto split: if_splits)
  show ?thesis
  proof (cases "?l \<noteq> []")
    case True
    then have "label = ?l" "?m = CHR '']'' # rest"
      using eq ws by (auto split: list.splits if_splits)
    then have "t = ?ws @ label @ CHR '']'' # rest" by (metis takeWhile_dropWhile_id)
    then show ?thesis using d by (metis append.assoc)
  next
    case False
    then have "label = [last ?ws]" "?u = CHR '']'' # rest"
      using eq ws by (auto split: list.splits if_splits)
    then have "t = butlast ?ws @ label @ CHR '']'' # rest"
      using ws by (metis append.assoc append_butlast_last_id takeWhile_dropWhile_id)
    then show ?thesis using d by (metis append.assoc)
  qed
qed

lemma start_rule:
  assumes "\<And>repl rest. pat s = Some (repl, rest) \<Longrightarrow> rewritten s (repl @ rest)"
  shows "rewritten s (replace_start pat s)"
  using assms by (cases "pat s") (auto simp: replace_start_def rewritten_refl)

lemma mark_message_rule: "glyphs_ok g \<Longrightarrow> rewritten s (replace_start (mark_message g) s)"
proof (rule start_rule)
  fix repl rest assume g: "glyphs_ok g" and h: "mark_message g s = Some (repl, rest)"
  have "\<exists>ps. plain ps \<and> eat_ci ps s = Some rest \<and> repl = fake g (captured s rest)"
  proof (cases "eat_ci ''[BotCord Message]'' s")
    case (Some r)
    then show ?thesis using h
      by (intro exI[of _ "''[BotCord Message]''"]) (auto simp: mark_message_def simp del: eat_ci.simps)
  next
    case None
    then show ?thesis using h
      by (cases "eat_ci ''[BotCord Notification]'' s"; intro exI[of _ "''[BotCord Notification]''"])
        (simp_all add: mark_message_def del: eat_ci.simps)
  qed
  then obtain ps where ps: "plain ps" "eat_ci ps s = Some rest" and repl: "repl = fake g (captured s rest)" by blast
  obtain d where d: "s = d @ rest" "plain d" using eat_ci_plain[OF ps(2,1)] by blast
  show "rewritten s (repl @ rest)"
    unfolding repl using fake_note[OF g _ rewritten_refl, of "captured s rest" d rest] plain_captured[OF d(2), of rest]
    by (simp flip: d(1))
qed

lemma mark_rule_rule: "glyphs_ok g \<Longrightarrow> rewritten s (replace_start (mark_rule g) s)"
proof (rule start_rule)
  fix repl rest assume g: "glyphs_ok g" and h: "mark_rule g s = Some (repl, rest)"
  then have e: "eat_ci ''[Room Rule]'' s = Some rest" and repl: "repl = fake g ''Room Rule''"
    by (cases "eat_ci ''[Room Rule]'' s"; simp add: mark_rule_def del: eat_ci.simps)+
  obtain d where d: "s = d @ rest" using eat_ci_suffix[OF e] by blast
  show "rewritten s (repl @ rest)" unfolding repl d by (rule fake_note[OF g _ rewritten_refl]) simp
qed

lemma mark_botcord_rule: "glyphs_ok g \<Longrightarrow> rewritten s (replace_start (mark_botcord g) s)"
proof (rule start_rule)
  fix repl rest assume g: "glyphs_ok g" and h: "mark_botcord g s = Some (repl, rest)"
  then obtain label where l: "botcord_label s = Some (label, rest)"
    and repl: "repl = fake g (''BotCord '' @ label_head label)"
    by (auto simp: mark_botcord_def split: option.splits)
  obtain d a b where s: "s = d @ label @ CHR '']'' # rest" and label: "label = a @ label_head label @ b"
    using botcord_label_split[OF l] label_head_middle[of label] by blast
  let ?h = "label_head label"
  have "rewritten ((b @ '']'') @ rest) (('']'' @ []) @ rest)"
    using rewritten_note[OF _ _ _ rewritten_refl, of "CHR '']''" "[]" "b @ '']''" rest] by (simp add: barrier_def)
  then have "rewritten (?h @ (b @ '']'') @ rest) (?h @ '']'' @ rest)"
    using rewritten_append[OF rewritten_refl] by fastforce
  then have "rewritten ((d @ a) @ ?h @ (b @ '']'') @ rest)
      ((CHR ''['' # ([gl_warn g] @ '' fake: BotCord '')) @ (?h @ '']'' @ rest))"
    using g by (intro rewritten_note) (auto simp: barrier_def glyphs_ok_def)
  moreover have "s = (d @ a) @ ?h @ (b @ '']'') @ rest" by (subst s, subst label) simp
  ultimately show "rewritten s (repl @ rest)" unfolding repl fake_def by simp
qed

lemma mark_role_rule: "glyphs_ok g \<Longrightarrow> rewritten s (replace_start (mark_role g) s)"
proof (rule start_rule)
  fix repl rest assume g: "glyphs_ok g" and h: "mark_role g s = Some (repl, rest)"
  then obtain w where w: "find (\<lambda>w. startsWith s (''['' @ w @ '']'')) role_words = Some w"
    and repl: "repl = fake g w" "rest = drop (length w + 2) s"
    by (auto simp: mark_role_def split: option.splits)
  have "w \<in> set role_words" using w by (auto simp: find_Some_iff)
  then have "plain w" by (auto simp: role_words_def)
  moreover have "s = take (length w + 2) s @ rest" by (simp add: repl)
  ultimately show "rewritten s (repl @ rest)"
    using fake_note[OF g _ rewritten_refl, of w "take (length w + 2) s" rest] repl by metis
qed

lemma strip_rule:
  assumes "glyphs_ok g" "plain what" "reads_front pat"
  shows "rewritten s (replace_all pat (stripped g what) s)"
  using replace_all_rewritten[OF assms(3), of "CHR ''[''" "[gl_warn g] @ '' stripped: '' @ what @ '']''" s] assms(1,2)
  by (auto simp: stripped_def barrier_def glyphs_ok_def plain_def)

lemma line_rules_rewrite: "glyphs_ok g \<Longrightarrow> rule \<in> set (line_rules g) \<Longrightarrow> rewritten s (rule s)"
  unfolding line_rules_def
  by (auto simp: mark_message_rule mark_rule_rule mark_botcord_rule mark_role_rule intro!: strip_rule reads_patterns)

subsection \<open>Lines\<close>

lemma rewritten_join: "list_all2 rewritten ls ls' \<Longrightarrow> rewritten (join sep ls) (join sep ls')"
proof (induction rule: list_all2_induct)
  case (Cons x xs y ys)
  show ?case
  proof (cases xs)
    case Nil
    with Cons show ?thesis by auto
  next
    case (Cons z zs)
    then obtain z' zs' where ys: "ys = z' # zs'" using Cons.hyps(2) \<open>list_all2 rewritten xs ys\<close> by (cases ys) auto
    show ?thesis
      using rewritten_append[OF \<open>rewritten x y\<close> rewritten_append[OF rewritten_refl[of sep] \<open>rewritten (join sep xs) (join sep ys)\<close>]]
      by (simp add: Cons ys)
  qed
qed (simp add: rw_Nil)

lemma join_split_on: "join [c] (split_on c s) = s"
proof (induction s)
  case (Cons d s)
  then show ?case
    by (cases "split_on c s"; cases "tl (split_on c s)") (auto split: list.splits)
qed simp

lemma newline_code: "newline = char_of (10 :: nat)" and return_code: "CHR 0x0D = char_of (13 :: nat)"
proof -
  have "(of_char newline :: nat) = of_char (char_of (10 :: nat))" by (simp add: newline_def)
  then show "newline = char_of (10 :: nat)" by (simp only: of_char_eq_iff)
  have "(of_char (CHR 0x0D) :: nat) = of_char (char_of (13 :: nat))" by simp
  then show "CHR 0x0D = char_of (13 :: nat)" by (simp only: of_char_eq_iff)
qed

lemma rewritten_strip_cr: "rewritten s s' \<Longrightarrow> rewritten (l @ newline # s) (strip_cr l @ newline # s')"
proof (cases "l \<noteq> [] \<and> last l = char_of (13 :: nat)")
  case True
  assume r: "rewritten s s'"
  have l: "l = butlast l @ [CHR 0x0D]" using True by (metis append_butlast_last_id return_code)
  have "rewritten (CHR 0x0D # newline # s) (newline # s')" using r by (intro rw_cr rw_copy)
  then have "rewritten (butlast l @ CHR 0x0D # newline # s) (butlast l @ newline # s')"
    by (intro rewritten_append rewritten_refl)
  then show ?thesis using True l by (simp add: strip_cr_def) (metis append.assoc append_Cons append_Nil)
qed (auto simp: strip_cr_def intro!: rewritten_append rewritten_refl rw_copy)

lemma rewritten_lines: "rewritten s (join [newline] (split_lines s))"
proof -
  have "ls \<noteq> [] \<Longrightarrow> rewritten (join [newline] ls) (join [newline] (map strip_cr (butlast ls) @ [last ls]))" for ls
  proof (induction ls rule: induct_list012)
    case (3 x y zs)
    have "map strip_cr (butlast (y # zs)) @ [last (y # zs)] \<noteq> []" by simp
    then have "join [newline] (map strip_cr (butlast (x # y # zs)) @ [last (x # y # zs)])
        = strip_cr x @ newline # join [newline] (map strip_cr (butlast (y # zs)) @ [last (y # zs)])"
      by (cases "map strip_cr (butlast (y # zs)) @ [last (y # zs)]") simp_all
    moreover have "join [newline] (x # y # zs) = x @ newline # join [newline] (y # zs)" by simp
    ultimately show ?case using rewritten_strip_cr 3 by (metis list.distinct(1))
  qed (simp_all add: rewritten_refl)
  from this[of "split_on newline s"] show ?thesis
    by (simp add: split_lines_def join_split_on Let_def flip: newline_code)
qed

section \<open>What sanitized text cannot contain\<close>

lemma tag_free_lines:
  assumes "list_all name_char name" "name \<noteq> []" "\<And>rule s. rule \<in> set rules \<Longrightarrow> rewritten s (rule s)"
    and "tag_free name (join [newline] ls)"
  shows "tag_free name (join [newline] (map (\<lambda>l. fold (\<lambda>rule l. rule l) rules l) ls))"
  using assms(3,4)
proof (induction rules arbitrary: ls)
  case (Cons rule rules)
  have "list_all2 rewritten ls (map rule ls)" using Cons.prems(1) by (simp add: list_all2_conv_all_nth)
  then have "tag_free name (join [newline] (map rule ls))"
    using tag_free_rewritten[OF rewritten_join assms(1,2)] Cons.prems(2) by blast
  with Cons.IH[of "map rule ls"] Cons.prems(1) show ?case by (simp add: comp_def)
qed simp

lemma wrapper_names_ok: "name \<in> set wrapper_names \<Longrightarrow> list_all name_char name \<and> name \<noteq> [] \<and> plain name"
  by (auto simp: wrapper_names_def name_char_def)

lemma tag_free_stripped:
  assumes g: "glyphs_ok g" and "list_all (\<lambda>n. list_all name_char n \<and> n \<noteq> [] \<and> plain n) names" and "name \<in> set names \<or> tag_free name s"
    and name: "list_all name_char name" "name \<noteq> []"
  shows "tag_free name (fold (\<lambda>n s. replace_all (wrapper_tag n) (stripped g (n @ '' tag'')) s) names s)"
  using assms(2,3)
proof (induction names arbitrary: s)
  case (Cons n names)
  let ?s = "replace_all (wrapper_tag n) (stripped g (n @ '' tag'')) s"
  have n: "list_all name_char n" "n \<noteq> []" "plain n" using Cons.prems(1) by auto
  have "tag_free n ?s"
    using tag_removed[OF _ _ _ n(1,2), of "CHR ''[''" "[gl_warn g] @ '' stripped: '' @ (n @ '' tag'') @ '']''" s] g n(3)
    by (auto simp: stripped_def barrier_def glyphs_ok_def plain_def)
  moreover have "tag_free name s \<Longrightarrow> tag_free name ?s"
    using tag_free_rewritten[OF strip_rule[OF g _ reads_wrapper] name] n(3) by simp
  ultimately have "name \<in> set names \<or> tag_free name ?s" using Cons.prems(2) by auto
  then show ?case using Cons.IH Cons.prems(1) by simp
qed simp

lemma sanitized_tag_free:
  assumes g: "glyphs_ok g" and n: "name \<in> set wrapper_names"
  shows "tag_free name (sanitizeUntrustedContent g text1)"
proof -
  note ok = wrapper_names_ok[OF n]
  have "tag_free name (strip_tags g text1)"
    unfolding strip_tags_def using n ok wrapper_names_ok g
    by (intro tag_free_stripped) (auto simp: list_all_iff)
  then have "tag_free name (join [newline] (split_lines (strip_tags g text1)))"
    using tag_free_rewritten[OF rewritten_lines] ok by blast
  then show ?thesis
    unfolding sanitizeUntrustedContent_def sanitize_line_def
    using ok line_rules_rewrite[OF g] by (intro tag_free_lines) auto
qed


definition ascii_glyphs :: glyphs where
  "ascii_glyphs = \<lparr> gl_warn = CHR ''!'', gl_lbracket = CHR ''('', gl_rbracket = CHR '')'', gl_lt = CHR ''{'', gl_gt = CHR ''}'' \<rparr>"

lemma glyphs_ok_ascii: "glyphs_ok ascii_glyphs"
  by (simp add: glyphs_ok_def ascii_glyphs_def newline_def)


text \<open>A tag without its closing bracket is left alone, and the bracket that ends the frame itself
  completes it: the closing tag that starts in the peer's text swallows the real one.\<close>

theorem unterminated_tag_survives:
  "wrapper_tag ''agent-message''
     (sanitizeUntrustedContent g ''</agent-message'' @ newline # ''</agent-message>'') = Some []"
proof -
  have "sanitizeUntrustedContent g ''</agent-message'' = ''</agent-message''"
    by code_simp
  moreover have "wrapper_tag ''agent-message'' (''</agent-message'' @ newline # ''</agent-message>'') = Some []"
    by code_simp
  ultimately show ?thesis by simp
qed

text \<open>Sanitizing sanitized text can change it again: a line that starts like a channel marker but is
  not closed is closed by the note that replaces a tag in it. So sanitizing twice is not a no-op.\<close>

lemma sanitize_not_idempotent:
  "sanitizeUntrustedContent ascii_glyphs ''[BotCord X <system>'' = ''[BotCord X [! stripped: system tag]''
   \<and> sanitizeUntrustedContent ascii_glyphs ''[BotCord X [! stripped: system tag]''
       = ''[! fake: BotCord X [! stripped]''"
proof
  show "sanitizeUntrustedContent ascii_glyphs ''[BotCord X <system>'' = ''[BotCord X [! stripped: system tag]''"
    by code_simp
  show "sanitizeUntrustedContent ascii_glyphs ''[BotCord X [! stripped: system tag]'' = ''[! fake: BotCord X [! stripped]''"
    by code_simp
qed

lemma label_char_plain:
  assumes "glyphs_ok g"
  shows "label_char g c \<notin> {CHR 0x22, CHR ''<'', CHR ''>'', CHR ''['', CHR '']'', newline, CHR 0x0D}"
proof -
  have g: "list_all (\<lambda>c. c \<notin> {CHR 0x22, CHR ''<'', CHR ''>'', CHR ''['', CHR '']'', newline, CHR 0x0D})
    [gl_warn g, gl_lbracket g, gl_rbracket g, gl_lt g, gl_gt g]"
    using assms by (simp add: glyphs_ok_def)
  have "CHR '' '' \<notin> {CHR 0x22, CHR ''<'', CHR ''>'', CHR ''['', CHR '']'', newline, CHR 0x0D}"
    "CHR 0x27 \<notin> {CHR 0x22, CHR ''<'', CHR ''>'', CHR ''['', CHR '']'', newline, CHR 0x0D}"
    by (simp_all add: newline_def)
  with g show ?thesis unfolding label_char_def by simp
qed

text \<open>A sender label fits in one quoted attribute of a frame tag and in one header field: no quote,
  bracket, angle bracket or line break, and at most a hundred characters.\<close>

theorem sender_label_safe:
  assumes "glyphs_ok g"
  shows "length (sanitizeSenderName g name) \<le> 100
    \<and> set (sanitizeSenderName g name)
        \<inter> {CHR 0x22, CHR ''<'', CHR ''>'', CHR ''['', CHR '']'', newline, CHR 0x0D} = {}"
  using label_char_plain[OF assms] by (auto simp only: sanitizeSenderName_def length_map length_take min.cobounded1
      set_map disjoint_iff image_iff)

theorem sender_label_safe_witness:
  "length (sanitizeSenderName ascii_glyphs ''a\"><b'') \<le> 100
    \<and> set (sanitizeSenderName ascii_glyphs ''a\"><b'')
        \<inter> {CHR 0x22, CHR ''<'', CHR ''>'', CHR ''['', CHR '']'', newline, CHR 0x0D} = {}"
  by (rule sender_label_safe[OF glyphs_ok_ascii])

section \<open>Splitting keeps the text\<close>

text \<open>The chunks put one after the other, with one line feed or none between them, are the text.\<close>

fun rejoins :: "string \<Rightarrow> string list \<Rightarrow> bool" where
  "rejoins s [] = (s = [])"
| "rejoins s (c # cs) =
     (startsWith s c \<and>
      (rejoins (drop (length c) s) cs \<or>
       (case drop (length c) s of d # t \<Rightarrow> d = newline \<and> rejoins t cs | [] \<Rightarrow> False)))"

lemma split_loop_rejoins:
  "0 < limit \<Longrightarrow> rejoins s (split_loop limit s) \<and> list_all (\<lambda>c. length c \<le> limit) (split_loop limit s)"
proof (induction limit s rule: split_loop.induct)
  case (1 limit s)
  let ?k = "split_cut s limit" and ?r = "drop (split_cut s limit) s"
  show ?case
  proof (cases "length s > limit")
    case True
    have k: "?k \<le> limit" using split_cut_bounds[OF 1(2)] by simp
    have IH: "rejoins (drop_newline ?r) (split_loop limit (drop_newline ?r))
        \<and> list_all (\<lambda>c. length c \<le> limit) (split_loop limit (drop_newline ?r))"
      using 1 True by simp
    have loop: "split_loop limit s = take ?k s # split_loop limit (drop_newline ?r)"
      using 1(2) True by (simp add: split_loop.simps[of limit s])
    have len: "length (take ?k s) = ?k" using k True by simp
    have "rejoins s (split_loop limit s)"
      using IH unfolding loop rejoins.simps len
      using k True by (auto simp: startsWith_def min_absorb2 drop_newline_def eat_opt_def split: list.splits if_splits)
    then show ?thesis using IH k by (simp add: loop)
  next
    case False
    then show ?thesis using 1(2) by (simp add: split_loop.simps[of limit s] startsWith_def)
  qed
qed

text \<open>Splitting a reply loses nothing but a line feed at a cut, and every part fits the limit.\<close>

theorem splitText_keeps_text:
  "rejoins text1 (splitText text1 limit)
   \<and> (if limit > 0 then list_all (\<lambda>c. int (length c) \<le> limit) (splitText text1 limit) else True)"
proof (cases "limit > 0 \<and> int (length text1) > limit")
  case True
  then have "splitText text1 limit = split_loop (nat limit) text1" by (auto simp: splitText_def)
  then show ?thesis
    using True split_loop_rejoins[of "nat limit" text1] by (auto simp: list_all_iff le_nat_iff)
next
  case False
  then show ?thesis by (auto simp: splitText_def startsWith_def)
qed

end
