(* ===== verification/Botcord_Inbox.thy ===== *)
theory Botcord_Inbox
  imports Turn_Text Channel_Manager Event_Machine
begin

text \<open>
  The inbox of the BotCord channel (\<open>daemon/src/gateway/channels/botcord.ts\<close>): how a message of the
  Hub becomes a message of the gateway, and how the messages of a poll are checked against those
  already seen, grouped by conversation thread, handed to the gateway one grp after the other and
  acknowledged.

  A message of the inbox is the parsed object the Hub sent. A field whose declared type is a string
  is read as such, and any other value of it as absent.

  The drain is cut where the code waits: for the answer of a poll and for each acknowledgement of its
  first pass. Between two such points other calls run, the handoffs among them. A handoff is a link of
  the promise chain of its thread; it starts when the earlier links of that chain have settled. The
  consumer of an envelope awaits \<open>accept\<close> before it settles itself, as \<open>safeAck\<close> of the dispatcher
  does.
\<close>

section \<open>Reading a message of the inbox\<close>

definition str_field :: "jsval \<Rightarrow> string \<Rightarrow> string option" where
  "str_field v k = as_str (get_prop v k)"

definition OWNER_PREFIX :: string where
  "OWNER_PREFIX = ''rm_oc_''"

definition hub_msg_id :: "jsval \<Rightarrow> string" where
  "hub_msg_id msg = (case str_field msg ''hub_msg_id'' of Some s \<Rightarrow> s | None \<Rightarrow> [])"

definition isOwnerTrust :: "jsval \<Rightarrow> bool" where
  "isOwnerTrust msg \<longleftrightarrow>
     (case str_field msg ''room_id'' of Some r \<Rightarrow> startsWith r OWNER_PREFIX | None \<Rightarrow> False)
     \<or> str_field msg ''source_type'' = Some ''dashboard_user_chat''
     \<or> str_field msg ''source_type'' = Some ''cloud_agent_run''"

text \<open>\<open>msg.text ?? (typeof env.payload?.text === "string" ? env.payload.text : "")\<close>\<close>

definition inbox_text :: "jsval \<Rightarrow> jsval" where
  "inbox_text msg =
     (case get_prop msg ''text'' of
        JUndef \<Rightarrow> JStr (case str_field (get_prop (get_prop msg ''envelope'') ''payload'') ''text'' of Some s \<Rightarrow> s | None \<Rightarrow> [])
      | JNull \<Rightarrow> JStr (case str_field (get_prop (get_prop msg ''envelope'') ''payload'') ''text'' of Some s \<Rightarrow> s | None \<Rightarrow> [])
      | v \<Rightarrow> v)"

text \<open>\<open>msg.topic_id ?? msg.topic\<close>\<close>

definition inbox_topic :: "jsval \<Rightarrow> string option" where
  "inbox_topic msg =
     (case str_field msg ''topic_id'' of Some t \<Rightarrow> Some t | None \<Rightarrow> str_field msg ''topic'')"

record channel_options =
  bo_id :: string
  bo_accountId :: string

definition conversational_types :: "string list" where
  "conversational_types = [''message'', ''contact_request'', ''cloud_run'']"

definition normalizeInbox :: "glyphs \<Rightarrow> int \<Rightarrow> channel_options \<Rightarrow> jsval \<Rightarrow> inbound_message option" where
  "normalizeInbox g now opts msg =
     (let env = get_prop msg ''envelope''
      in if \<not> truthy env then None
         else if (case str_field env ''type'' of Some t \<Rightarrow> t \<notin> set conversational_types | None \<Rightarrow> True) then None
         else (case str_field msg ''room_id'' of
           None \<Rightarrow> None
         | Some room \<Rightarrow>
             if room = [] then None
             else (case inbox_text msg of
               JStr body \<Rightarrow>
                 (let ownerTrust = isOwnerTrust msg;
                      isOwnerChat = startsWith room OWNER_PREFIX
                  in Some \<lparr>m_id = hub_msg_id msg, m_channel = bo_id opts, m_accountId = bo_accountId opts,
                       m_conversation = \<lparr>c_id = room,
                         c_kind = (if isDirectRoomId room \<or> isOwnerChat then Direct else Group),
                         c_title = (case str_field msg ''room_name'' of
                             Some n \<Rightarrow> (if n \<noteq> [] then Some n else None) | None \<Rightarrow> None),
                         c_threadId = inbox_topic msg\<rparr>,
                       m_sender = \<lparr>s_id = (case str_field env ''from'' of Some s \<Rightarrow> s | None \<Rightarrow> []),
                         s_name = (case str_field msg ''source_user_name'' of
                             Some n \<Rightarrow> (if n \<noteq> [] then Some n else None) | None \<Rightarrow> None),
                         s_kind = (if ownerTrust \<or> str_field msg ''source_type'' = Some ''dashboard_human_room''
                                   then SUser else SAgent)\<rparr>,
                       m_text = Some (if ownerTrust then body else sanitizeUntrustedContent g body),
                       m_raw = msg,
                       m_replyTo = str_field env ''reply_to'',
                       m_mentioned = Some (get_prop msg ''mentioned'' = JBool True),
                       m_receivedAt = now,
                       m_trace = Some \<lparr>t_id = hub_msg_id msg, t_streamable = Some isOwnerChat\<rparr>\<rparr>)
             | _ \<Rightarrow> None)))"

text \<open>The body a batch is represented by: that of the newest message, or the newest one that is not
  blank.\<close>

fun representative :: "jsval list \<Rightarrow> string \<Rightarrow> string" where
  "representative [] fallback = fallback"
| "representative (m # older) fallback =
     (case inbox_text m of
        JStr candidate \<Rightarrow> if trim candidate \<noteq> [] then candidate else representative older fallback
      | _ \<Rightarrow> representative older fallback)"

definition normalizeInboxBatch ::
  "glyphs \<Rightarrow> int \<Rightarrow> channel_options \<Rightarrow> jsval list \<Rightarrow> inbound_message option" where
  "normalizeInboxBatch g now opts msgs =
     (case msgs of
        [] \<Rightarrow> None
      | [m] \<Rightarrow> normalizeInbox g now opts m
      | _ \<Rightarrow>
         (let latest = List.last msgs
          in case normalizeInbox g now opts latest of
               None \<Rightarrow> None
             | Some base \<Rightarrow>
                 (let txt = (case m_text base of Some t \<Rightarrow> t | None \<Rightarrow> [])
                  in Some (base\<lparr>
                       m_text := Some (if trim txt = [] then representative (rev msgs) txt else txt),
                       m_mentioned := Some (list_ex (\<lambda>m. get_prop m ''mentioned'' = JBool True) msgs),
                       m_raw := spread_with latest ''batch'' (JArr msgs)\<rparr>))))"

section \<open>The messages seen\<close>

definition SEEN_MESSAGES_CAP :: nat where
  "SEEN_MESSAGES_CAP = 500"

definition INBOX_POLL_LIMIT :: nat where
  "INBOX_POLL_LIMIT = 50"

text \<open>\<open>rememberSeen\<close>: the set in insertion order, or \<open>None\<close> when the id is in it. The oldest id is
  only evicted when it is not the empty string, which the code takes for no id.\<close>

definition rememberSeen :: "string \<Rightarrow> string list \<Rightarrow> string list option" where
  "rememberSeen mid seen =
     (if mid \<in> set seen then None
      else let seen1 = seen @ [mid]
           in Some (if length seen1 > SEEN_MESSAGES_CAP \<and> hd seen1 \<noteq> [] then tl seen1 else seen1))"

definition forget :: "string list \<Rightarrow> string list \<Rightarrow> string list" where
  "forget ids xs = filter (\<lambda>x. x \<notin> set ids) xs"

definition inboxGroupKey :: "channel_options \<Rightarrow> jsval \<Rightarrow> string" where
  "inboxGroupKey opts msg =
     bo_id opts @ '':'' @ bo_accountId opts @ '':'' @
     (case str_field msg ''room_id'' of Some r \<Rightarrow> r | None \<Rightarrow> []) @ '':'' @
     (case inbox_topic msg of Some t \<Rightarrow> t | None \<Rightarrow> [])"

text \<open>The \<open>Map\<close> of groups, in insertion order.\<close>

fun add_to_group :: "string \<Rightarrow> jsval \<Rightarrow> (string \<times> jsval list) list \<Rightarrow> (string \<times> jsval list) list" where
  "add_to_group k m groups =
     (case map_of groups k of
        Some l \<Rightarrow> upd_assoc groups k (l @ [m])
      | None \<Rightarrow> groups @ [(k, [m])])"

definition group_msgs :: "(jsval \<Rightarrow> string) \<Rightarrow> jsval list \<Rightarrow> (string \<times> jsval list) list" where
  "group_msgs key msgs = fold (\<lambda>m. add_to_group (key m) m) msgs []"

section \<open>State\<close>

datatype handoff_phase = HQueued | HRunning | HAcking

record handoff =
  ho_id :: nat
  ho_key :: string
  ho_ids :: "string list"
  ho_msg :: inbound_message
  ho_phase :: handoff_phase
  ho_accepted :: bool
  ho_lease :: bool
  ho_renewing :: bool

text \<open>
  A drain waits for the answer of its poll, or for the acknowledgement of a message of its first pass;
  then the messages still to be looked at, those found eligible and the \<open>has_more\<close> of the answer are
  kept.
\<close>

datatype drain_stage = DIdle | DPolling | DAcking "jsval list" "jsval list" bool

datatype inbox_output =
    OPoll nat
  | OAck "string list"
  | OEmit inbound_message "string list"
  | ORenew "string list"

record inbox_state =
  ib_seen :: "string list"
  ib_pending :: "string list"
  ib_hands :: "handoff list"
  ib_next :: nat
  ib_stage :: drain_stage
  ib_pendingUpdate :: bool
  ib_running :: bool
  ib_out :: "inbox_output list"

record inbox_env =
  be_glyphs :: glyphs
  be_opts :: channel_options
  be_leases :: bool

definition ib_emit :: "inbox_output \<Rightarrow> inbox_state \<Rightarrow> inbox_state" where
  "ib_emit x s = s\<lparr>ib_out := ib_out s @ [x]\<rparr>"

definition new_inbox :: inbox_state where
  "new_inbox = \<lparr>ib_seen = [], ib_pending = [], ib_hands = [], ib_next = 0, ib_stage = DIdle,
     ib_pendingUpdate = False, ib_running = True, ib_out = []\<rparr>"

section \<open>A drain\<close>

text \<open>
  The first pass, up to the next acknowledgement: the ids seen, the messages eligible, and the
  message to acknowledge with those after it.
\<close>

fun first_pass ::
  "inbox_env \<Rightarrow> int \<Rightarrow> string list \<Rightarrow> jsval list \<Rightarrow> string list \<Rightarrow> jsval list
    \<Rightarrow> string list \<times> jsval list \<times> (string \<times> jsval list) option" where
  "first_pass env now pending [] seen eligible = (seen, eligible, None)"
| "first_pass env now pending (m # ms) seen eligible =
     (let mid = hub_msg_id m
      in if mid \<in> set pending then first_pass env now pending ms seen eligible
         else case rememberSeen mid seen of
           None \<Rightarrow> (seen, eligible, Some (mid, ms))
         | Some seen1 \<Rightarrow>
             (case normalizeInbox (be_glyphs env) now (be_opts env) m of
                None \<Rightarrow> (seen1, eligible, Some (mid, ms))
              | Some _ \<Rightarrow> first_pass env now pending ms seen1 (eligible @ [m])))"

text \<open>The handoff of a grp: its ids become pending, its lease is renewed from now on, and its
  \<open>run\<close> joins the chain of its thread.\<close>

definition queueGroupHandoff :: "inbox_env \<Rightarrow> int \<Rightarrow> jsval list \<Rightarrow> inbox_state \<Rightarrow> inbox_state" where
  "queueGroupHandoff env now grp s =
     (case normalizeInboxBatch (be_glyphs env) now (be_opts env) grp of
        None \<Rightarrow> s
      | Some msg \<Rightarrow>
          (let ids = map hub_msg_id grp
           in s\<lparr>ib_pending := ib_pending s @ filter (\<lambda>x. x \<notin> set (ib_pending s)) (remdups ids),
                ib_hands := ib_hands s @ [\<lparr>ho_id = ib_next s, ho_key = inboxGroupKey (be_opts env) (hd grp),
                    ho_ids = ids, ho_msg = msg, ho_phase = HQueued, ho_accepted = False,
                    ho_lease = (be_leases env \<and> ids \<noteq> []), ho_renewing = False\<rparr>],
                ib_next := Suc (ib_next s)\<rparr>))"

text \<open>The end of an iteration of the loop of \<open>fireInbox\<close>.\<close>

definition start_poll :: "inbox_state \<Rightarrow> inbox_state" where
  "start_poll s = ib_emit (OPoll INBOX_POLL_LIMIT) (s\<lparr>ib_pendingUpdate := False, ib_stage := DPolling\<rparr>)"

definition drained :: "bool \<Rightarrow> inbox_state \<Rightarrow> inbox_state" where
  "drained hasMore s =
     (if (ib_pendingUpdate s \<or> hasMore) \<and> ib_running s then start_poll s else s\<lparr>ib_stage := DIdle\<rparr>)"

definition drain_go ::
  "inbox_env \<Rightarrow> int \<Rightarrow> jsval list \<Rightarrow> jsval list \<Rightarrow> bool \<Rightarrow> inbox_state \<Rightarrow> inbox_state" where
  "drain_go env now todo eligible hasMore s =
     (case first_pass env now (ib_pending s) todo (ib_seen s) eligible of
        (seen1, eligible1, Some (mid, rest)) \<Rightarrow>
          ib_emit (OAck [mid]) (s\<lparr>ib_seen := seen1, ib_stage := DAcking rest eligible1 hasMore\<rparr>)
      | (seen1, eligible1, None) \<Rightarrow>
          drained hasMore
            (fold (\<lambda>(k, grp). queueGroupHandoff env now grp)
               (group_msgs (inboxGroupKey (be_opts env)) eligible1)
               (s\<lparr>ib_seen := seen1, ib_stage := DIdle\<rparr>)))"

text \<open>\<open>drainInbox\<close> after the poll: an empty answer never asks for more.\<close>

definition inbox_polled :: "inbox_env \<Rightarrow> int \<Rightarrow> jsval list \<Rightarrow> bool \<Rightarrow> inbox_state \<Rightarrow> inbox_state" where
  "inbox_polled env now msgs has_more s =
     (if msgs = [] then drained False s else drain_go env now msgs [] has_more s)"

definition fireInbox :: "inbox_state \<Rightarrow> inbox_state" where
  "fireInbox s = (if ib_stage s \<noteq> DIdle then s\<lparr>ib_pendingUpdate := True\<rparr> else start_poll s)"

section \<open>Handoffs\<close>

definition upd_hand :: "nat \<Rightarrow> (handoff \<Rightarrow> handoff) \<Rightarrow> inbox_state \<Rightarrow> inbox_state" where
  "upd_hand i f s = s\<lparr>ib_hands := map (\<lambda>h. if ho_id h = i then f h else h) (ib_hands s)\<rparr>"

definition find_hand :: "nat \<Rightarrow> inbox_state \<Rightarrow> handoff option" where
  "find_hand i s = List.find (\<lambda>h. ho_id h = i) (ib_hands s)"

definition drop_hand :: "nat \<Rightarrow> inbox_state \<Rightarrow> inbox_state" where
  "drop_hand i s = s\<lparr>ib_hands := filter (\<lambda>h. ho_id h \<noteq> i) (ib_hands s)\<rparr>"

text \<open>The links of the chain of a thread that have not settled, up to a given one.\<close>

definition earlier_links :: "handoff \<Rightarrow> inbox_state \<Rightarrow> handoff list" where
  "earlier_links h s = filter (\<lambda>h'. ho_key h' = ho_key h) (takeWhile (\<lambda>h'. ho_id h' \<noteq> ho_id h) (ib_hands s))"

definition markAccepted :: "handoff \<Rightarrow> inbox_state \<Rightarrow> inbox_state" where
  "markAccepted h s =
     (if ho_accepted h then s
      else (upd_hand (ho_id h) (\<lambda>h. h\<lparr>ho_accepted := True, ho_lease := False\<rparr>) s)\<lparr>
             ib_pending := forget (ho_ids h) (ib_pending s)\<rparr>)"

definition run_handoff :: "handoff \<Rightarrow> inbox_state \<Rightarrow> inbox_state" where
  "run_handoff h s =
     (if ho_phase h = HQueued \<and> earlier_links h s = []
      then ib_emit (OEmit (ho_msg h) (ho_ids h)) (upd_hand (ho_id h) (ho_phase_update (\<lambda>_. HRunning)) s)
      else s)"

definition accept :: "handoff \<Rightarrow> inbox_state \<Rightarrow> inbox_state" where
  "accept h s =
     (if ho_phase h = HRunning
      then ib_emit (OAck (ho_ids h)) (upd_hand (ho_id h) (\<lambda>h. h\<lparr>ho_phase := HAcking, ho_lease := False\<rparr>) s)
      else s)"

text \<open>The acknowledgement has been answered or has failed: both ways the handoff is marked.\<close>

definition accept_settled :: "handoff \<Rightarrow> inbox_state \<Rightarrow> inbox_state" where
  "accept_settled h s =
     (if ho_phase h = HAcking
      then upd_hand (ho_id h) (ho_phase_update (\<lambda>_. HRunning)) (markAccepted h s)
      else s)"

definition emit_returned :: "handoff \<Rightarrow> inbox_state \<Rightarrow> inbox_state" where
  "emit_returned h s =
     (if ho_phase h = HRunning then drop_hand (ho_id h) (markAccepted h s) else s)"

definition forgetSeen :: "string list \<Rightarrow> inbox_state \<Rightarrow> inbox_state" where
  "forgetSeen ids s = s\<lparr>ib_seen := forget ids (ib_seen s), ib_pending := forget ids (ib_pending s)\<rparr>"

definition emit_threw :: "handoff \<Rightarrow> inbox_state \<Rightarrow> inbox_state" where
  "emit_threw h s =
     (if ho_phase h = HRunning
      then drop_hand (ho_id h) (if ho_accepted h then s else forgetSeen (ho_ids h) s)
      else s)"

definition lease_tick :: "handoff \<Rightarrow> inbox_state \<Rightarrow> inbox_state" where
  "lease_tick h s =
     (if ho_lease h \<and> \<not> ho_renewing h
      then ib_emit (ORenew (ho_ids h)) (upd_hand (ho_id h) (ho_renewing_update (\<lambda>_. True)) s)
      else s)"

definition lease_renewed :: "handoff \<Rightarrow> inbox_state \<Rightarrow> inbox_state" where
  "lease_renewed h s = upd_hand (ho_id h) (ho_renewing_update (\<lambda>_. False)) s"

text \<open>\<open>stopInboxLeaseRenewals\<close> with the flag the loop of \<open>fireInbox\<close> looks at.\<close>

definition stop_inbox :: "inbox_state \<Rightarrow> inbox_state" where
  "stop_inbox s = s\<lparr>ib_running := False, ib_hands := map (ho_lease_update (\<lambda>_. False)) (ib_hands s)\<rparr>"

section \<open>Steps\<close>

datatype inbox_event =
    EvFire
  | EvPolled int "jsval list" bool
  | EvPollFailed
  | EvAckSettled int
  | EvRun nat
  | EvAccept nat
  | EvAccepted nat
  | EvReturn nat
  | EvThrow nat
  | EvTick nat
  | EvRenewed nat
  | EvStop

definition on_hand :: "nat \<Rightarrow> (handoff \<Rightarrow> inbox_state \<Rightarrow> inbox_state) \<Rightarrow> inbox_state \<Rightarrow> inbox_state" where
  "on_hand i f s = (case find_hand i s of Some h \<Rightarrow> f h s | None \<Rightarrow> s)"

fun inbox_step :: "inbox_env \<Rightarrow> inbox_event \<Rightarrow> inbox_state \<Rightarrow> inbox_state" where
  "inbox_step env EvFire s = fireInbox s"
| "inbox_step env (EvPolled now msgs hm) s = (if ib_stage s = DPolling then inbox_polled env now msgs hm s else s)"
| "inbox_step env EvPollFailed s = (if ib_stage s = DPolling then s\<lparr>ib_stage := DIdle\<rparr> else s)"
| "inbox_step env (EvAckSettled now) s =
     (case ib_stage s of DAcking todo eligible hm \<Rightarrow> drain_go env now todo eligible hm s | _ \<Rightarrow> s)"
| "inbox_step env (EvRun i) s = on_hand i run_handoff s"
| "inbox_step env (EvAccept i) s = on_hand i accept s"
| "inbox_step env (EvAccepted i) s = on_hand i accept_settled s"
| "inbox_step env (EvReturn i) s = on_hand i emit_returned s"
| "inbox_step env (EvThrow i) s = on_hand i emit_threw s"
| "inbox_step env (EvTick i) s = on_hand i lease_tick s"
| "inbox_step env (EvRenewed i) s = on_hand i lease_renewed s"
| "inbox_step env EvStop s = stop_inbox s"

definition run_inbox :: "inbox_env \<Rightarrow> inbox_event list \<Rightarrow> inbox_state \<Rightarrow> inbox_state" where
  "run_inbox env evs s = fold (inbox_step env) evs s"

section \<open>Groups\<close>

text \<open>The groups are the conversation threads of the eligible messages, each with its messages in poll
  order.\<close>

lemma add_to_group_key:
  "map_of (add_to_group k m groups) k' =
     (if k' = k then Some ((case map_of groups k of Some l \<Rightarrow> l | None \<Rightarrow> []) @ [m]) else map_of groups k')"
  by (cases "map_of groups k") (auto simp: map_add_def split: option.splits)

lemma add_to_group_distinct:
  assumes "distinct (map fst groups)"
  shows "distinct (map fst (add_to_group k m groups))"
proof (cases "map_of groups k")
  case None
  then have "k \<notin> fst ` set groups" by (simp add: map_of_eq_None_iff)
  with None assms show ?thesis by simp
qed (use assms in \<open>simp add: distinct_upd_assoc\<close>)

lemma group_fold:
  "map_of (fold (\<lambda>m. add_to_group (key m) m) ms groups) k =
     (let g = (case map_of groups k of Some l \<Rightarrow> l | None \<Rightarrow> []) @ filter (\<lambda>m. key m = k) ms
      in if g = [] \<and> map_of groups k = None then None else Some g)"
proof (induction ms arbitrary: groups)
  case Nil
  then show ?case by (simp split: option.splits)
next
  case (Cons m ms)
  have "fold (\<lambda>m. add_to_group (key m) m) (m # ms) groups
      = fold (\<lambda>m. add_to_group (key m) m) ms (add_to_group (key m) m groups)" by simp
  then show ?case
    by (simp only: Cons.IH add_to_group_key) (auto simp: Let_def split: option.splits)
qed

lemma group_distinct: "distinct (map fst (group_msgs key ms))"
proof -
  have "distinct (map fst groups) \<Longrightarrow> distinct (map fst (fold (\<lambda>m. add_to_group (key m) m) ms groups))" for groups
  proof (induction ms arbitrary: groups)
    case (Cons m ms)
    from Cons.IH[OF add_to_group_distinct[OF Cons.prems, of "key m" m]] show ?case
      by (simp del: add_to_group.simps)
  qed simp
  then show ?thesis by (simp add: group_msgs_def)
qed

text \<open>A grp of a poll is the messages of one thread, in the order the Hub sent them: the map of groups
  has an entry for a key exactly when some message has that key.\<close>

theorem groups_are_threads:
  "distinct (map fst (group_msgs key ms)) \<and>
   map_of (group_msgs key ms) k =
     (let g = filter (\<lambda>m. key m = k) ms in if g = [] then None else Some g)"
  using group_distinct group_fold[of key ms "[]" k] by (simp add: group_msgs_def Let_def)

lemma mset_upd_group:
  "map_of groups k = Some l \<Longrightarrow>
   mset (concat (map snd (upd_assoc groups k (l @ [m])))) = add_mset m (mset (concat (map snd groups)))"
  by (induction groups) auto

lemma mset_add_to_group:
  "mset (concat (map snd (add_to_group k m groups))) = add_mset m (mset (concat (map snd groups)))"
  by (cases "map_of groups k") (simp_all add: mset_upd_group)

lemma mset_groups: "mset (concat (map snd (group_msgs key ms))) = mset ms"
proof -
  have "mset (concat (map snd (fold (\<lambda>m. add_to_group (key m) m) ms groups))) = mset (concat (map snd groups)) + mset ms"
    for groups
    by (induction ms arbitrary: groups) (simp_all add: mset_add_to_group del: add_to_group.simps)
  then show ?thesis by (simp add: group_msgs_def)
qed

lemma group_members:
  assumes "(k, g) \<in> set (group_msgs key ms)"
  shows "g \<noteq> [] \<and> g = filter (\<lambda>m. key m = k) ms"
proof -
  from assms have "map_of (group_msgs key ms) k = Some g"
    using group_distinct by (rule map_of_is_SomeI[rotated])
  with groups_are_threads[of key ms k] show ?thesis by (auto simp: Let_def split: if_splits)
qed

lemma normalizeInbox_fields:
  assumes "normalizeInbox g now opts msg = Some m"
  shows "str_field msg ''room_id'' = Some (c_id (m_conversation m))" "m_channel m = bo_id opts"
    "m_accountId m = bo_accountId opts" "c_threadId (m_conversation m) = inbox_topic msg" "m_raw m = msg"
    "m_id m = hub_msg_id msg"
    "\<exists>body. inbox_text msg = JStr body \<and>
       m_text m = Some (if isOwnerTrust msg then body else sanitizeUntrustedContent g body)"
proof -
  from assms obtain room where r: "str_field msg ''room_id'' = Some room"
    by (cases "str_field msg ''room_id''") (simp_all add: normalizeInbox_def Let_def split: if_splits)
  from assms r obtain body where b: "inbox_text msg = JStr body"
    by (cases "inbox_text msg") (simp_all add: normalizeInbox_def Let_def split: if_splits)
  show "str_field msg ''room_id'' = Some (c_id (m_conversation m))" "m_channel m = bo_id opts"
    "m_accountId m = bo_accountId opts" "c_threadId (m_conversation m) = inbox_topic msg" "m_raw m = msg"
    "m_id m = hub_msg_id msg"
    "\<exists>body. inbox_text msg = JStr body \<and>
       m_text m = Some (if isOwnerTrust msg then body else sanitizeUntrustedContent g body)"
    using assms r b by (simp_all add: normalizeInbox_def Let_def split: if_splits, auto)
qed

text \<open>The thread key is the key of the turn queue the message is handled on, so that grouping here and
  queueing in the dispatcher agree.\<close>

theorem group_key_is_queue_key:
  assumes "normalizeInbox g now opts msg = Some m"
  shows "inboxGroupKey opts msg = buildQueueKey m"
  using normalizeInbox_fields[OF assms] by (simp add: inboxGroupKey_def buildQueueKey_def)

lemma batch_normalizes:
  assumes "grp \<noteq> []" and "\<forall>m \<in> set grp. normalizeInbox g now opts m \<noteq> None"
  shows "normalizeInboxBatch g now opts grp \<noteq> None"
proof -
  have "normalizeInbox g now opts (List.last grp) \<noteq> None" using assms by simp
  then show ?thesis using assms(1)
    by (cases grp rule: list.exhaust[case_product list.exhaust[of "tl grp"]])
       (auto simp: normalizeInboxBatch_def Let_def split: list.splits)
qed

section \<open>No message in two turns\<close>

lemma set_forget [simp]: "set (forget ids xs) = set xs - set ids"
  by (auto simp: forget_def)

lemma take_last_filter: "set (filter P (take_last k xs)) \<subseteq> set (take_last k (filter P xs))"
proof -
  let ?n = "length xs - k"
  have split: "filter P xs = filter P (take ?n xs) @ filter P (drop ?n xs)"
    by (metis append_take_drop_id filter_append)
  have "length (filter P (drop ?n xs)) \<le> k" using length_filter_le[of P "drop ?n xs"] by simp
  then have "length (filter P xs) - k \<le> length (filter P (take ?n xs))" unfolding split by simp
  then have "set (drop (length (filter P (take ?n xs))) (filter P xs)) \<subseteq> set (drop (length (filter P xs) - k) (filter P xs))"
    by (rule set_drop_subset_set_drop)
  then show ?thesis unfolding take_last_def by (simp add: split)
qed

lemma take_last_mono: "j \<le> k \<Longrightarrow> set (take_last j xs) \<subseteq> set (take_last k xs)"
  unfolding take_last_def by (rule set_drop_subset_set_drop) simp

lemma take_last_tl: "k < length xs \<Longrightarrow> take_last k (tl xs) = take_last k xs"
  by (cases xs) (auto simp: take_last_def Suc_diff_le)

lemma rememberSeen_recent:
  assumes "rememberSeen mid seen = Some seen1" "k < SEEN_MESSAGES_CAP"
  shows "insert mid (set (take_last k seen)) \<subseteq> set (take_last (Suc k) seen1)" "mid \<notin> set seen"
proof -
  have "take_last (Suc k) seen1 = take_last (Suc k) (seen @ [mid])"
    using assms by (auto simp: rememberSeen_def Let_def take_last_tl split: if_splits)
  then show "insert mid (set (take_last k seen)) \<subseteq> set (take_last (Suc k) seen1)"
    by (simp add: take_last_snoc)
  show "mid \<notin> set seen" using assms(1) by (auto simp: rememberSeen_def split: if_splits)
qed

text \<open>What a drain keeps of the messages it has found eligible: their ids differ, none is pending, and
  all are among the newest ids seen.\<close>

definition eligible_ok :: "string list \<Rightarrow> string list \<Rightarrow> nat \<Rightarrow> jsval list \<Rightarrow> bool" where
  "eligible_ok pending seen todo eligible \<longleftrightarrow>
     todo \<le> INBOX_POLL_LIMIT
     \<and> distinct (map hub_msg_id eligible)
     \<and> set (map hub_msg_id eligible) \<inter> set pending = {}
     \<and> set (map hub_msg_id eligible) \<subseteq> set (take_last (INBOX_POLL_LIMIT - todo) seen)"

lemma eligible_ok_add:
  assumes "eligible_ok pending seen (Suc todo) eligible" "rememberSeen (hub_msg_id m) seen = Some seen1"
    and "hub_msg_id m \<notin> set pending"
  shows "eligible_ok pending seen1 todo (eligible @ [m])" "eligible_ok pending seen1 todo eligible"
proof -
  have k: "INBOX_POLL_LIMIT - todo = Suc (INBOX_POLL_LIMIT - Suc todo)"
    and le: "INBOX_POLL_LIMIT - Suc todo < SEEN_MESSAGES_CAP"
    using assms(1) by (auto simp: eligible_ok_def INBOX_POLL_LIMIT_def SEEN_MESSAGES_CAP_def)
  note r = rememberSeen_recent[OF assms(2) le]
  have "set (map hub_msg_id eligible) \<subseteq> set seen"
    using assms(1) set_take_last[of "INBOX_POLL_LIMIT - Suc todo" seen] by (auto simp: eligible_ok_def)
  then show "eligible_ok pending seen1 todo (eligible @ [m])" "eligible_ok pending seen1 todo eligible"
    using assms r by (auto simp: eligible_ok_def k)
qed

lemma eligible_ok_skip: "eligible_ok pending seen (Suc todo) eligible \<Longrightarrow> eligible_ok pending seen todo eligible"
  using take_last_mono[of "INBOX_POLL_LIMIT - Suc todo" "INBOX_POLL_LIMIT - todo" seen]
  by (simp add: eligible_ok_def diff_le_mono2) blast

lemma eligible_ok_forget:
  assumes "eligible_ok pending seen todo eligible" "set ids \<subseteq> set pending"
  shows "eligible_ok (forget ids pending) (forget ids seen) todo eligible"
proof -
  let ?k = "INBOX_POLL_LIMIT - todo" and ?e = "set (map hub_msg_id eligible)"
  have "?e \<inter> set ids = {}" using assms by (auto simp: eligible_ok_def)
  moreover have "?e \<subseteq> set (take_last ?k seen)" using assms(1) by (simp add: eligible_ok_def)
  ultimately have "?e \<subseteq> set (filter (\<lambda>x. x \<notin> set ids) (take_last ?k seen))" by auto
  then have "?e \<subseteq> set (take_last ?k (forget ids seen))"
    unfolding forget_def using take_last_filter by (rule order_trans)
  with assms(1) show ?thesis by (auto simp: eligible_ok_def)
qed

lemma eligible_ok_unpend:
  "eligible_ok pending seen todo eligible \<Longrightarrow> eligible_ok (forget ids pending) seen todo eligible"
  by (auto simp: eligible_ok_def)

lemma first_pass_ok:
  "eligible_ok pending seen (length todo) eligible \<Longrightarrow>
   first_pass env now pending todo seen eligible = (seen1, eligible1, r) \<Longrightarrow>
   eligible_ok pending seen1 (case r of Some (_, rest) \<Rightarrow> length rest | None \<Rightarrow> 0) eligible1"
proof (induction env now pending todo seen eligible rule: first_pass.induct)
  case (2 env now pending m ms seen eligible)
  show ?case
  proof (cases "hub_msg_id m \<in> set pending")
    case True
    with 2 show ?thesis by (auto dest: eligible_ok_skip)
  next
    case fresh: False
    show ?thesis
    proof (cases "rememberSeen (hub_msg_id m) seen")
      case None
      with 2(3,4) fresh show ?thesis by (auto dest: eligible_ok_skip)
    next
      case (Some seen2)
      note add = eligible_ok_add[OF _ Some fresh]
      show ?thesis
      proof (cases "normalizeInbox (be_glyphs env) now (be_opts env) m")
        case None
        with 2(3,4) fresh Some add(2) show ?thesis by auto
      next
        case (Some m')
        with 2(2)[OF refl fresh \<open>rememberSeen (hub_msg_id m) seen = Some seen2\<close> Some add(1)] 2(3,4) fresh
          \<open>rememberSeen (hub_msg_id m) seen = Some seen2\<close>
        show ?thesis by simp
      qed
    qed
  qed
qed simp

text \<open>The ids of the handoffs that are not accepted yet.\<close>

definition live_ids :: "handoff list \<Rightarrow> string list" where
  "live_ids hs = concat (map ho_ids (filter (\<lambda>h. \<not> ho_accepted h) hs))"

definition hands_ok :: "inbox_state \<Rightarrow> bool" where
  "hands_ok s \<longleftrightarrow>
     distinct (map ho_id (ib_hands s)) \<and> list_all (\<lambda>h. ho_id h < ib_next s) (ib_hands s)
     \<and> distinct (live_ids (ib_hands s)) \<and> set (live_ids (ib_hands s)) \<subseteq> set (ib_pending s)"

definition stage_ok :: "inbox_state \<Rightarrow> bool" where
  "stage_ok s \<longleftrightarrow>
     (case ib_stage s of
        DAcking todo eligible hm \<Rightarrow> eligible_ok (ib_pending s) (ib_seen s) (length todo) eligible
      | _ \<Rightarrow> True)"

text \<open>A link of a chain that has started has no earlier link that has not settled.\<close>

fun chains_ok :: "handoff list \<Rightarrow> bool" where
  "chains_ok [] \<longleftrightarrow> True"
| "chains_ok (h # hs) \<longleftrightarrow> list_all (\<lambda>h'. ho_key h' = ho_key h \<longrightarrow> ho_phase h' = HQueued) hs \<and> chains_ok hs"

lemma chains_ok_append:
  "chains_ok (as @ bs) \<longleftrightarrow>
     chains_ok as \<and> chains_ok bs \<and> (\<forall>a \<in> set as. \<forall>b \<in> set bs. ho_key b = ho_key a \<longrightarrow> ho_phase b = HQueued)"
  by (induction as) (auto simp: list_all_iff)

lemma chains_ok_filter: "chains_ok hs \<Longrightarrow> chains_ok (filter P hs)"
  by (induction hs) (auto simp: list_all_iff)

definition inbox_inv :: "inbox_state \<Rightarrow> bool" where
  "inbox_inv s \<longleftrightarrow> hands_ok s \<and> stage_ok s \<and> chains_ok (ib_hands s)"

lemma live_ids_append [simp]: "live_ids (as @ bs) = live_ids as @ live_ids bs"
  and live_ids_Nil [simp]: "live_ids [] = []"
  and live_ids_Cons [simp]: "live_ids (h # hs) = (if ho_accepted h then [] else ho_ids h) @ live_ids hs"
  by (simp_all add: live_ids_def)

text \<open>Looking a handoff up splits the list around it; an update replaces it and a removal leaves it out.\<close>

definition split_at :: "nat \<Rightarrow> handoff \<Rightarrow> handoff list \<Rightarrow> handoff list \<Rightarrow> inbox_state \<Rightarrow> bool" where
  "split_at i h as bs s \<longleftrightarrow>
     ib_hands s = as @ h # bs \<and> ho_id h = i \<and> list_all (\<lambda>x. ho_id x \<noteq> i) as \<and> list_all (\<lambda>x. ho_id x \<noteq> i) bs"

lemma hand_split:
  assumes "find_hand i s = Some h" "distinct (map ho_id (ib_hands s))"
  obtains as bs where "split_at i h as bs s"
proof -
  from assms(1) obtain k where k: "k < length (ib_hands s)" "ho_id (ib_hands s ! k) = i" "h = ib_hands s ! k"
    unfolding find_hand_def find_Some_iff by blast
  have hs: "ib_hands s = take k (ib_hands s) @ h # drop (Suc k) (ib_hands s)"
    using k id_take_nth_drop by metis
  then have "distinct (map ho_id (take k (ib_hands s) @ h # drop (Suc k) (ib_hands s)))" using assms(2) by simp
  then have "i \<notin> ho_id ` set (take k (ib_hands s))" "i \<notin> ho_id ` set (drop (Suc k) (ib_hands s))"
    using k by (auto simp del: append_take_drop_id)
  then have "split_at i h (take k (ib_hands s)) (drop (Suc k) (ib_hands s)) s"
    unfolding split_at_def list_all_iff using hs k(2,3) by blast
  then show thesis by (rule that)
qed

lemma map_others: "list_all (\<lambda>x. ho_id x \<noteq> i) hs \<Longrightarrow> map (\<lambda>h. if ho_id h = i then f h else h) hs = hs"
  by (induction hs) auto

lemma filter_others: "list_all (\<lambda>x. ho_id x \<noteq> i) hs \<Longrightarrow> filter (\<lambda>h. ho_id h \<noteq> i) hs = hs"
  by (induction hs) auto

lemma split_at_ops:
  assumes "split_at i h as bs s"
  shows "ib_hands (upd_hand i f s) = as @ f h # bs" "ib_hands (drop_hand i s) = as @ bs"
    "earlier_links h s = filter (\<lambda>h'. ho_key h' = ho_key h) as" "ho_id h = i"
  using assms by (auto simp: split_at_def upd_hand_def drop_hand_def earlier_links_def map_others filter_others list_all_iff
      takeWhile_append)

lemma split_at_upd: "split_at i h as bs s \<Longrightarrow> ho_id (f h) = i \<Longrightarrow> split_at i (f h) as bs (upd_hand i f s)"
  using split_at_ops(1)[of i h as bs s f] by (simp add: split_at_def)

lemma upd_hand_frame [simp]:
  "ib_seen (upd_hand i f s) = ib_seen s" "ib_pending (upd_hand i f s) = ib_pending s"
  "ib_stage (upd_hand i f s) = ib_stage s" "ib_next (upd_hand i f s) = ib_next s"
  "ib_seen (drop_hand i s) = ib_seen s" "ib_pending (drop_hand i s) = ib_pending s"
  "ib_stage (drop_hand i s) = ib_stage s" "ib_next (drop_hand i s) = ib_next s"
  by (simp_all add: upd_hand_def drop_hand_def)

lemma ib_emit_frame [simp]:
  "ib_seen (ib_emit x s) = ib_seen s" "ib_pending (ib_emit x s) = ib_pending s" "ib_hands (ib_emit x s) = ib_hands s"
  "ib_stage (ib_emit x s) = ib_stage s" "ib_next (ib_emit x s) = ib_next s" "ib_running (ib_emit x s) = ib_running s"
  "ib_pendingUpdate (ib_emit x s) = ib_pendingUpdate s" "ib_out (ib_emit x s) = ib_out s @ [x]"
  by (simp_all add: ib_emit_def)

text \<open>
  The invariant over the parts it reads, with the list split around one handoff: replacing or
  dropping the handoff keeps it when its ids leave the pending ones at most when it is accepted or
  dropped.
\<close>

definition parts_inv :: "string list \<Rightarrow> string list \<Rightarrow> drain_stage \<Rightarrow> nat \<Rightarrow> handoff list \<Rightarrow> bool" where
  "parts_inv seen pending stage n hs \<longleftrightarrow>
     distinct (map ho_id hs) \<and> list_all (\<lambda>h. ho_id h < n) hs \<and> distinct (live_ids hs)
     \<and> set (live_ids hs) \<subseteq> set pending
     \<and> (case stage of DAcking todo eligible hm \<Rightarrow> eligible_ok pending seen (length todo) eligible | _ \<Rightarrow> True)
     \<and> chains_ok hs"

lemma inbox_inv_parts: "inbox_inv s \<longleftrightarrow> parts_inv (ib_seen s) (ib_pending s) (ib_stage s) (ib_next s) (ib_hands s)"
  by (auto simp: inbox_inv_def hands_ok_def stage_ok_def parts_inv_def)

lemma parts_replace:
  assumes "parts_inv seen pending stage n (as @ h # bs)" "ho_id h' = ho_id h" "ho_ids h' = ho_ids h"
    "ho_accepted h \<Longrightarrow> ho_accepted h'" "ho_key h' = ho_key h"
    "ho_phase h' = HQueued \<or> ho_phase h \<noteq> HQueued \<or> (\<forall>a \<in> set as. ho_key a \<noteq> ho_key h)"
  shows "parts_inv seen pending stage n (as @ h' # bs)"
  using assms by (auto simp: parts_inv_def chains_ok_append list_all_iff split: if_splits)

lemma parts_unpend:
  assumes "parts_inv seen pending stage n (as @ h # bs)" "\<not> ho_accepted h" "ho_accepted h'"
    "ho_id h' = ho_id h" "ho_key h' = ho_key h" "ho_phase h' = ho_phase h"
  shows "parts_inv seen (forget (ho_ids h) pending) stage n (as @ h' # bs)"
  using assms
  by (auto simp: parts_inv_def chains_ok_append list_all_iff eligible_ok_unpend split: drain_stage.splits)

lemma parts_drop:
  assumes "parts_inv seen pending stage n (as @ h # bs)"
  shows "parts_inv seen pending stage n (as @ bs)"
  using assms by (auto simp: parts_inv_def chains_ok_append)

lemma parts_forget:
  assumes "parts_inv seen pending stage n (as @ h # bs)" "\<not> ho_accepted h"
  shows "parts_inv (forget (ho_ids h) seen) (forget (ho_ids h) pending) stage n (as @ bs)"
  using assms
  by (auto simp: parts_inv_def chains_ok_append intro: eligible_ok_forget split: drain_stage.splits)

lemma split_at_hands: "split_at i h as bs s \<Longrightarrow> ib_hands s = as @ h # bs"
  by (simp add: split_at_def)

lemma mark_parts:
  assumes "split_at i h as bs s" "inbox_inv s"
  shows "\<exists>h'. split_at i h' as bs (markAccepted h s) \<and> ho_phase h' = ho_phase h \<and> inbox_inv (markAccepted h s)"
proof (cases "ho_accepted h")
  case True
  then show ?thesis using assms by (auto simp: markAccepted_def)
next
  case False
  let ?f = "\<lambda>h. h\<lparr>ho_accepted := True, ho_lease := False\<rparr>"
  have i: "ho_id h = i" using assms(1) by (rule split_at_ops)
  have u: "split_at i (?f h) as bs (upd_hand i ?f s)" by (rule split_at_upd[OF assms(1)]) (simp add: i)
  then have sp: "split_at i (?f h) as bs (markAccepted h s)" using False i by (simp add: markAccepted_def split_at_def)
  have "parts_inv (ib_seen s) (forget (ho_ids h) (ib_pending s)) (ib_stage s) (ib_next s) (as @ ?f h # bs)"
    using assms False by (intro parts_unpend) (auto simp: inbox_inv_parts split_at_hands)
  then have "inbox_inv (markAccepted h s)"
    using False i split_at_hands[OF u] by (simp add: inbox_inv_parts markAccepted_def)
  with sp show ?thesis by (intro exI[of _ "?f h"]) simp
qed

lemma upd_inv:
  assumes "split_at i h as bs s" "inbox_inv s" "ho_id (f h) = ho_id h" "ho_ids (f h) = ho_ids h"
    "ho_accepted (f h) = ho_accepted h" "ho_key (f h) = ho_key h"
    "ho_phase (f h) = HQueued \<or> ho_phase h \<noteq> HQueued \<or> (\<forall>a \<in> set as. ho_key a \<noteq> ho_key h)"
  shows "inbox_inv (upd_hand i f s)"
  using assms parts_replace[of "ib_seen s" "ib_pending s" "ib_stage s" "ib_next s" as h bs "f h"]
  by (simp add: inbox_inv_parts split_at_ops split_at_hands)

lemma drop_inv: "split_at i h as bs s \<Longrightarrow> inbox_inv s \<Longrightarrow> inbox_inv (drop_hand i s)"
  using parts_drop by (auto simp: inbox_inv_parts split_at_ops split_at_hands)

lemma inbox_inv_emit [simp]: "inbox_inv (ib_emit x s) \<longleftrightarrow> inbox_inv s"
  by (simp add: inbox_inv_parts)

lemma run_handoff_inv:
  assumes "split_at i h as bs s" "inbox_inv s"
  shows "inbox_inv (run_handoff h s)"
proof (cases "ho_phase h = HQueued \<and> earlier_links h s = []")
  case True
  then have "\<forall>a \<in> set as. ho_key a \<noteq> ho_key h" by (simp add: split_at_ops[OF assms(1)] filter_empty_conv)
  then have "inbox_inv (upd_hand i (ho_phase_update (\<lambda>_. HRunning)) s)"
    using assms by (intro upd_inv) auto
  with True show ?thesis by (simp add: run_handoff_def split_at_ops[OF assms(1)])
next
  case False
  then show ?thesis using assms(2) by (auto simp: run_handoff_def)
qed

lemma accept_inv:
  assumes "split_at i h as bs s" "inbox_inv s"
  shows "inbox_inv (accept h s)" "inbox_inv (lease_tick h s)" "inbox_inv (lease_renewed h s)"
proof -
  have "ho_phase h = HRunning \<Longrightarrow> inbox_inv (upd_hand i (\<lambda>h. h\<lparr>ho_phase := HAcking, ho_lease := False\<rparr>) s)"
    by (rule upd_inv[OF assms]) simp_all
  moreover have "inbox_inv (upd_hand i (ho_renewing_update (\<lambda>_. b)) s)" for b
    by (rule upd_inv[OF assms]) auto
  ultimately show "inbox_inv (accept h s)" "inbox_inv (lease_tick h s)" "inbox_inv (lease_renewed h s)"
    using assms(2) by (auto simp: accept_def lease_tick_def lease_renewed_def split_at_ops[OF assms(1)])
qed

lemma accept_settled_inv:
  assumes "split_at i h as bs s" "inbox_inv s"
  shows "inbox_inv (accept_settled h s)"
proof (cases "ho_phase h = HAcking")
  case True
  obtain h' where h': "split_at i h' as bs (markAccepted h s)" "ho_phase h' = ho_phase h" "inbox_inv (markAccepted h s)"
    using mark_parts[OF assms] by blast
  then have "inbox_inv (upd_hand i (ho_phase_update (\<lambda>_. HRunning)) (markAccepted h s))"
    using True by (intro upd_inv) auto
  with True show ?thesis by (simp add: accept_settled_def split_at_ops[OF assms(1)])
qed (use assms in \<open>simp add: accept_settled_def\<close>)

lemma emit_returned_inv:
  assumes "split_at i h as bs s" "inbox_inv s"
  shows "inbox_inv (emit_returned h s)"
  using mark_parts[OF assms] drop_inv assms(2)
  by (auto simp: emit_returned_def split_at_ops[OF assms(1)])

lemma emit_threw_inv:
  assumes "split_at i h as bs s" "inbox_inv s"
  shows "inbox_inv (emit_threw h s)"
proof -
  have "\<not> ho_accepted h \<Longrightarrow> inbox_inv (drop_hand i (forgetSeen (ho_ids h) s))"
  proof -
    assume "\<not> ho_accepted h"
    moreover have "split_at i h as bs (forgetSeen (ho_ids h) s)"
      using assms(1) by (simp add: split_at_def forgetSeen_def)
    ultimately show ?thesis using assms parts_forget[of "ib_seen s" "ib_pending s" "ib_stage s" "ib_next s" as h bs]
      by (simp add: inbox_inv_parts split_at_ops split_at_hands) (simp add: forgetSeen_def)
  qed
  then show ?thesis using assms drop_inv[OF assms]
    by (auto simp: emit_threw_def split_at_ops[OF assms(1)])
qed

lemma on_hand_inv:
  assumes "inbox_inv s" "\<And>h as bs. split_at i h as bs s \<Longrightarrow> inbox_inv (f h s)"
  shows "inbox_inv (on_hand i f s)"
proof (cases "find_hand i s")
  case (Some h)
  have "distinct (map ho_id (ib_hands s))" using assms(1) by (simp add: inbox_inv_def hands_ok_def)
  from hand_split[OF Some this] obtain as bs where "split_at i h as bs s" .
  with assms(2) Some show ?thesis by (simp add: on_hand_def)
qed (use assms in \<open>simp add: on_hand_def\<close>)

text \<open>Handing the groups of a poll off.\<close>

lemma queueGroupHandoff_inv:
  assumes inv: "inbox_inv s" and nst: "\<And>t e hm. ib_stage s \<noteq> DAcking t e hm"
    and d: "distinct (map hub_msg_id grp)" and fresh: "set (map hub_msg_id grp) \<inter> set (ib_pending s) = {}"
  shows "inbox_inv (queueGroupHandoff env now grp s)"
    "set (ib_pending (queueGroupHandoff env now grp s)) \<subseteq> set (ib_pending s) \<union> set (map hub_msg_id grp)"
    "ib_stage (queueGroupHandoff env now grp s) = ib_stage s"
    "ib_seen (queueGroupHandoff env now grp s) = ib_seen s"
proof -
  have *: "stage_ok s'" if "ib_stage s' = ib_stage s" for s'
    using nst that by (cases "ib_stage s") (auto simp: stage_ok_def)
  show "inbox_inv (queueGroupHandoff env now grp s)"
    using inv d fresh *
    by (auto simp: queueGroupHandoff_def inbox_inv_def hands_ok_def chains_ok_append list_all_iff Let_def split: option.splits)
qed (auto simp: queueGroupHandoff_def Let_def split: option.splits)

lemma handoffs_inv:
  assumes "inbox_inv s" and "\<And>t e hm. ib_stage s \<noteq> DAcking t e hm"
    and "distinct (map hub_msg_id (concat (map snd groups)))"
    and "set (map hub_msg_id (concat (map snd groups))) \<inter> set (ib_pending s) = {}"
  shows "inbox_inv (fold (\<lambda>(k, grp). queueGroupHandoff env now grp) groups s)"
  using assms
proof (induction groups arbitrary: s)
  case (Cons kg groups)
  obtain k grp where kg: "kg = (k, grp)" by (cases kg)
  have dg: "distinct (map hub_msg_id grp)" and fg: "set (map hub_msg_id grp) \<inter> set (ib_pending s) = {}"
    using Cons.prems(3,4) by (auto simp: kg)
  note q = queueGroupHandoff_inv[OF Cons.prems(1,2) dg fg, of env now]
  have "inbox_inv (fold (\<lambda>(k, grp). queueGroupHandoff env now grp) groups (queueGroupHandoff env now grp s))"
  proof (rule Cons.IH[OF q(1)])
    show "\<And>t e hm. ib_stage (queueGroupHandoff env now grp s) \<noteq> DAcking t e hm" using Cons.prems(2) q(3) by simp
    show "distinct (map hub_msg_id (concat (map snd groups)))" using Cons.prems(3) by (simp add: kg)
    show "set (map hub_msg_id (concat (map snd groups))) \<inter> set (ib_pending (queueGroupHandoff env now grp s)) = {}"
    proof -
      let ?rest = "set (map hub_msg_id (concat (map snd groups)))"
      have "?rest \<inter> set (map hub_msg_id grp) = {}" using Cons.prems(3) by (simp add: kg Int_commute)
      moreover have "?rest \<inter> set (ib_pending s) = {}" using Cons.prems(4) by (simp add: kg Int_Un_distrib2)
      ultimately show ?thesis using q(2) by blast
    qed
  qed
  then show ?case by (simp add: kg)
qed simp

lemma drained_inv: "inbox_inv s \<Longrightarrow> inbox_inv (drained hm s)"
  by (simp add: drained_def start_poll_def inbox_inv_parts parts_inv_def)

lemma inbox_inv_seen:
  "inbox_inv s \<Longrightarrow> inbox_inv (s\<lparr>ib_seen := seen, ib_stage := DIdle\<rparr>)"
  by (simp add: inbox_inv_parts parts_inv_def)

lemma drain_go_inv:
  assumes inv: "inbox_inv s" and ok: "eligible_ok (ib_pending s) (ib_seen s) (length todo) eligible"
  shows "inbox_inv (drain_go env now todo eligible hm s)"
proof -
  obtain seen1 eligible1 r where fp: "first_pass env now (ib_pending s) todo (ib_seen s) eligible = (seen1, eligible1, r)"
    by (metis prod_cases3)
  note ok1 = first_pass_ok[OF ok fp]
  show ?thesis
  proof (cases r)
    case (Some a)
    then show ?thesis using fp ok1 inv
      by (auto simp: drain_go_def inbox_inv_parts parts_inv_def split: prod.splits)
  next
    case None
    let ?groups = "group_msgs (inboxGroupKey (be_opts env)) eligible1"
    let ?hand = "fold (\<lambda>(k, grp). queueGroupHandoff env now grp) ?groups"
    have m: "mset (map hub_msg_id (concat (map snd ?groups))) = mset (map hub_msg_id eligible1)"
      using mset_groups by (metis mset_map)
    have "inbox_inv (?hand (s\<lparr>ib_seen := seen1, ib_stage := DIdle\<rparr>))"
    proof (rule handoffs_inv[OF inbox_inv_seen[OF inv]])
      show "distinct (map hub_msg_id (concat (map snd ?groups)))"
        using ok1 mset_eq_imp_distinct_iff[OF m] by (simp add: eligible_ok_def None)
      show "set (map hub_msg_id (concat (map snd ?groups))) \<inter> set (ib_pending (s\<lparr>ib_seen := seen1, ib_stage := DIdle\<rparr>)) = {}"
        using ok1 mset_eq_setD[OF m] by (simp add: eligible_ok_def None)
    qed simp
    then have "inbox_inv (drained hm (?hand (s\<lparr>ib_seen := seen1, ib_stage := DIdle\<rparr>)))" by (rule drained_inv)
    then show ?thesis using fp None by (simp add: drain_go_def)
  qed
qed

text \<open>A poll answers with at most as many messages as it asked for.\<close>

fun poll_limited :: "inbox_event \<Rightarrow> bool" where
  "poll_limited (EvPolled now msgs hm) \<longleftrightarrow> length msgs \<le> INBOX_POLL_LIMIT"
| "poll_limited _ \<longleftrightarrow> True"

lemma unleased [simp]:
  "chains_ok (map (ho_lease_update f) hs) = chains_ok hs" "live_ids (map (ho_lease_update f) hs) = live_ids hs"
  "map ho_id (map (ho_lease_update f) hs) = map ho_id hs"
  by (induction hs) (auto simp: list_all_iff)

lemma inbox_step_inv:
  assumes inv: "inbox_inv s" and "poll_limited ev"
  shows "inbox_inv (inbox_step env ev s)"
proof (cases ev)
  case EvFire
  with inv show ?thesis
    by (cases "ib_stage s") (simp_all add: fireInbox_def start_poll_def inbox_inv_parts parts_inv_def)
next
  case (EvPolled now msgs hm)
  with assms have "eligible_ok (ib_pending s) (ib_seen s) (length msgs) []" by (simp add: eligible_ok_def)
  with EvPolled inv drain_go_inv show ?thesis by (auto simp: inbox_polled_def drained_inv)
next
  case EvPollFailed
  with inv show ?thesis by (auto simp: inbox_inv_parts parts_inv_def)
next
  case (EvAckSettled now)
  have "stage_ok s" using inv by (simp add: inbox_inv_def)
  then show ?thesis using EvAckSettled inv drain_go_inv[OF inv]
    by (cases "ib_stage s") (simp_all add: stage_ok_def)
next
  case EvStop
  then show ?thesis using inv
    by (simp add: stop_inbox_def inbox_inv_parts parts_inv_def list_all_iff del: map_map)
qed (use inv in \<open>auto intro!: on_hand_inv intro: run_handoff_inv accept_inv accept_settled_inv emit_returned_inv emit_threw_inv\<close>)

interpretation inbox: event_machine "inbox_step env" poll_limited inbox_inv for env
  by unfold_locales (rule inbox_step_inv)

lemma run_inbox_inv:
  assumes "list_all poll_limited evs" "inbox_inv s"
  shows "inbox_inv (run_inbox env evs s)"
  unfolding run_inbox_def by (rule inbox.run_keeps[OF assms(2,1)])

lemma new_inbox_inv: "inbox_inv new_inbox"
  by (simp add: inbox_inv_parts parts_inv_def new_inbox_def)

definition inbox_example :: inbox_env where
  "inbox_example = \<lparr>be_glyphs = ascii_glyphs, be_opts = \<lparr>bo_id = ''bc'', bo_accountId = ''ag_1''\<rparr>, be_leases = True\<rparr>"

text \<open>The message of the example: from another agent, in a group room.\<close>

definition hub_message :: "string \<Rightarrow> string \<Rightarrow> string \<Rightarrow> jsval" where
  "hub_message mid room body =
     JObj [(''hub_msg_id'', JStr mid), (''room_id'', JStr room), (''text'', JStr body),
           (''envelope'', JObj [(''type'', JStr ''message''), (''from'', JStr ''ag_2'')])]"

text \<open>C9: A message of the Hub is in at most one turn at a time. However polls, acknowledgements, handoffs and
  their failures follow each other, the ids of the handoffs that are not accepted yet are pairwise
  different, and each of them is kept as pending, so that another delivery of the message is set
  aside.\<close>

theorem message_in_one_turn:
  assumes "list_all poll_limited evs"
  shows "distinct (live_ids (ib_hands (run_inbox env evs new_inbox)))
       \<and> set (live_ids (ib_hands (run_inbox env evs new_inbox))) \<subseteq> set (ib_pending (run_inbox env evs new_inbox))"
  using run_inbox_inv[OF assms new_inbox_inv, of env] by (simp add: inbox_inv_def hands_ok_def)

definition example_polls :: "inbox_event list" where
  "example_polls = [EvFire, EvPolled 0 [hub_message ''m1'' ''rm_1'' ''hi'', hub_message ''m2'' ''rm_2'' ''yo''] False,
     EvRun 0, EvRun 1, EvFire, EvPolled 1 [hub_message ''m1'' ''rm_1'' ''hi'', hub_message ''m3'' ''rm_1'' ''so''] False]"

lemma example_polls_hands:
  "map ho_ids (ib_hands (run_inbox inbox_example example_polls new_inbox)) = [[''m1''], [''m2''], [''m3'']]"
  by code_simp

theorem message_in_one_turn_witness:
  "distinct (live_ids (ib_hands (run_inbox inbox_example example_polls new_inbox)))
     \<and> map ho_ids (ib_hands (run_inbox inbox_example example_polls new_inbox)) = [[''m1''], [''m2''], [''m3'']]"
  using message_in_one_turn[of example_polls inbox_example] example_polls_hands
  by (simp add: example_polls_def INBOX_POLL_LIMIT_def)


lemma example_polls_phases:
  "map ho_phase (ib_hands (run_inbox inbox_example example_polls new_inbox)) = [HRunning, HRunning, HQueued]"
  by code_simp


section \<open>A handoff that fails\<close>

lemma single_group: "group_msgs key [m] = [(key m, [m])]"
  by (simp add: group_msgs_def)

lemma polled_fresh:
  assumes "ib_stage s = DPolling" "hub_msg_id m \<notin> set (ib_pending s)" "hub_msg_id m \<notin> set (ib_seen s)"
    and "normalizeInbox (be_glyphs env) now (be_opts env) m = Some nm"
    and "s' = inbox_step env (EvPolled now [m] False) s" and "\<not> ib_pendingUpdate s"
  shows "map (\<lambda>h. (ho_ids h, ho_msg h)) (ib_hands s')
           = map (\<lambda>h. (ho_ids h, ho_msg h)) (ib_hands s) @ [([hub_msg_id m], nm)]"
    "ib_out s' = ib_out s"
  using assms
  by (auto simp: inbox_polled_def drain_go_def rememberSeen_def Let_def single_group queueGroupHandoff_def
      normalizeInboxBatch_def drained_def)

lemma polled_seen:
  assumes "ib_stage s = DPolling" "hub_msg_id m \<notin> set (ib_pending s)" "hub_msg_id m \<in> set (ib_seen s)"
    and "s' = inbox_step env (EvPolled now [m] False) s"
  shows "ib_hands s' = ib_hands s" "ib_out s' = ib_out s @ [OAck [hub_msg_id m]]"
  using assms by (simp_all add: inbox_polled_def drain_go_def rememberSeen_def)

text \<open>A handoff whose consumer throws before it has accepted is forgotten: when the Hub delivers one of its
  messages again, the message is handed to the gateway once more and not acknowledged.\<close>

theorem failed_message_retried:
  assumes "find_hand i s = Some h" "ho_phase h = HRunning" "\<not> ho_accepted h"
    and "hub_msg_id m \<in> set (ho_ids h)" "ib_stage s = DPolling" "\<not> ib_pendingUpdate s"
    and "normalizeInbox (be_glyphs env) now (be_opts env) m = Some nm"
    and "s1 = inbox_step env (EvThrow i) s" "s2 = inbox_step env (EvPolled now [m] False) s1"
  shows "map (\<lambda>h. (ho_ids h, ho_msg h)) (ib_hands s2)
           = map (\<lambda>h. (ho_ids h, ho_msg h)) (filter (\<lambda>h. ho_id h \<noteq> i) (ib_hands s)) @ [([hub_msg_id m], nm)]
         \<and> ib_out s2 = ib_out s"
proof -
  have i: "ho_id h = i" using assms(1) by (auto simp: find_hand_def find_Some_iff)
  have s1: "s1 = drop_hand i (forgetSeen (ho_ids h) s)"
    using assms(1-3,8) i by (simp add: on_hand_def emit_threw_def)
  then have "ib_stage s1 = DPolling" "hub_msg_id m \<notin> set (ib_pending s1)" "hub_msg_id m \<notin> set (ib_seen s1)"
    "\<not> ib_pendingUpdate s1" "ib_hands s1 = filter (\<lambda>h. ho_id h \<noteq> i) (ib_hands s)" "ib_out s1 = ib_out s"
    using assms(4-6) by (simp_all add: forgetSeen_def drop_hand_def)
  with polled_fresh[OF this(1-3) assms(7,9)] show ?thesis by simp
qed

text \<open>
  The emit of a channel that runs under the manager: \<open>safeEmit\<close> catches what the dispatcher throws, so
  that the call returns whether or not the handling failed.
\<close>

definition managed_settles :: "bool \<Rightarrow> nat \<Rightarrow> inbox_event" where
  "managed_settles failed i = EvReturn i"

text \<open>C10: Under the manager a failure is never seen by the channel. The dispatcher throws so that a message whose
  policy decision could not be stored is delivered again; the channel takes the call for handled, and
  acknowledges the message when the Hub delivers it again, without handing it on.\<close>

theorem failed_message_lost_under_manager:
  assumes "find_hand i s = Some h" "ho_phase h = HRunning" "\<not> ho_accepted h"
    and "hub_msg_id m \<in> set (ho_ids h)" "hub_msg_id m \<in> set (ib_seen s)" "ib_stage s = DPolling"
    and "s1 = inbox_step env (managed_settles True i) s" "s2 = inbox_step env (EvPolled now [m] False) s1"
  shows "length (ib_hands s2) < length (ib_hands s) \<and> ib_out s2 = ib_out s @ [OAck [hub_msg_id m]]"
proof -
  have i: "ho_id h = i" and h: "h \<in> set (ib_hands s)"
    using assms(1) by (auto simp: find_hand_def find_Some_iff)
  have s1: "s1 = drop_hand i (markAccepted h s)"
    using assms(1-3,7) i by (simp add: on_hand_def emit_returned_def managed_settles_def)
  have "length (filter (\<lambda>h. ho_id h \<noteq> i) (ib_hands (markAccepted h s))) < length (ib_hands (markAccepted h s))"
    using h i by (intro length_filter_less[of "h\<lparr>ho_accepted := True, ho_lease := False\<rparr>"])
      (auto simp: markAccepted_def assms(3) upd_hand_def)
  then have "length (ib_hands s1) < length (ib_hands s)"
    by (simp add: s1 drop_hand_def) (simp add: markAccepted_def assms(3) upd_hand_def)
  moreover have "ib_stage s1 = DPolling" "hub_msg_id m \<notin> set (ib_pending s1)" "hub_msg_id m \<in> set (ib_seen s1)"
    "ib_out s1 = ib_out s"
    using assms(3-6) by (simp_all add: s1 markAccepted_def upd_hand_def drop_hand_def)
  ultimately show ?thesis using polled_seen[OF _ _ _ assms(8)] by simp
qed

definition failing_polls :: "inbox_event list" where
  "failing_polls = [EvFire, EvPolled 0 [hub_message ''m1'' ''rm_1'' ''hi''] False, EvRun 0, EvFire]"

text \<open>The state before the failure: the first message is under way and the next poll has been asked.\<close>

definition failing_state :: inbox_state where
  "failing_state = run_inbox inbox_example failing_polls new_inbox"

lemma failing_state_values:
  "map_option (\<lambda>h. (ho_id h, ho_ids h, ho_phase h, ho_accepted h)) (find_hand 0 failing_state)
     = Some (0, [''m1''], HRunning, False)"
  "ib_stage failing_state = DPolling" "ib_seen failing_state = [''m1'']" "ib_pendingUpdate failing_state = False"
  "length (ib_hands failing_state) = 1" "ib_out failing_state = [] \<longleftrightarrow> False"
  by code_simp+

lemma example_normalizes:
  "normalizeInbox (be_glyphs inbox_example) 1 (be_opts inbox_example) (hub_message ''m1'' ''rm_1'' ''hi'') \<noteq> None"
  by code_simp

theorem failed_message_retried_witness:
  "map ho_ids (ib_hands (inbox_step inbox_example (EvPolled 1 [hub_message ''m1'' ''rm_1'' ''hi''] False)
      (inbox_step inbox_example (EvThrow 0) failing_state))) = [[''m1'']]"
proof -
  obtain h where h: "find_hand 0 failing_state = Some h" "ho_ids h = [''m1'']" "ho_phase h = HRunning" "\<not> ho_accepted h"
    using failing_state_values(1) by auto
  obtain nm where nm: "normalizeInbox (be_glyphs inbox_example) 1 (be_opts inbox_example) (hub_message ''m1'' ''rm_1'' ''hi'') = Some nm"
    using example_normalizes by auto
  have one: "filter (\<lambda>h. ho_id h \<noteq> 0) (ib_hands failing_state) = []" by code_simp
  have mid: "hub_msg_id (hub_message ''m1'' ''rm_1'' ''hi'') = ''m1''" by (simp add: hub_msg_id_def hub_message_def str_field_def)
  from failed_message_retried[OF h(1,3,4) _ failing_state_values(2) _ nm refl refl] h(2) failing_state_values(4) one
  show ?thesis by (auto simp add: mid map_eq_Cons_conv simp del: inbox_step.simps)
qed

theorem failed_message_lost_under_manager_witness:
  "let s = inbox_step inbox_example (EvPolled 1 [hub_message ''m1'' ''rm_1'' ''hi''] False)
             (inbox_step inbox_example (managed_settles True 0) failing_state)
   in ib_hands s = [] \<and> ib_out s = ib_out failing_state @ [OAck [''m1'']]"
proof -
  obtain h where h: "find_hand 0 failing_state = Some h" "ho_ids h = [''m1'']" "ho_phase h = HRunning" "\<not> ho_accepted h"
    using failing_state_values(1) by auto
  have mid: "hub_msg_id (hub_message ''m1'' ''rm_1'' ''hi'') = ''m1''" by (simp add: hub_msg_id_def hub_message_def str_field_def)
  from failed_message_lost_under_manager[OF h(1,3,4) _ _ failing_state_values(2) refl refl] h(2) failing_state_values(3,5)
  show ?thesis by (simp add: mid Let_def del: inbox_step.simps)
qed

section \<open>The text that is handed on\<close>

text \<open>The text of a message that does not come from the owner holds no complete wrapper tag.\<close>

theorem peer_text_has_no_wrapper_tag:
  assumes "glyphs_ok g" "normalizeInbox g now opts msg = Some m" "\<not> isOwnerTrust msg"
    and "name \<in> set wrapper_names" "m_text m = Some body"
  shows "tag_free name body"
proof -
  from normalizeInbox_fields(7)[OF assms(2)] assms(3,5) obtain raw where "body = sanitizeUntrustedContent g raw" by auto
  then show ?thesis using sanitized_tag_free[OF assms(1,4)] by simp
qed

text \<open>The text that stands for a batch is taken from an older message as the Hub sent it when the newest one is
  blank.\<close>

lemma batch_text_not_sanitized:
  assumes "normalizeInbox g now opts b = Some base" "inbox_text b = JStr blank" "trim blank = []"
    and "m_text base = Some txt" "trim txt = []" and "inbox_text a = JStr raw" "trim raw \<noteq> []"
  shows "map_option m_text (normalizeInboxBatch g now opts [a, b]) = Some (Some raw)"
  using assms by (simp add: normalizeInboxBatch_def Let_def)

text \<open>The task of a cloud run is passed on as it is, and framed by the composer as a message of a human.\<close>

lemma cloud_run_text_verbatim:
  assumes "normalizeInbox g now opts msg = Some m" "str_field msg ''source_type'' = Some ''cloud_agent_run''"
    and "\<not> startsWith (c_id (m_conversation m)) OWNER_PREFIX" "inbox_text msg = JStr raw"
  shows "m_text m = Some raw" "fst (classifyActivitySender m) \<noteq> AsOwner"
proof -
  have k: "get_prop msg ''source_type'' = JStr ''cloud_agent_run''"
    using assms(2) by (cases "get_prop msg ''source_type''") (auto simp: str_field_def)
  have t: "isOwnerTrust msg" using assms(2) by (simp add: isOwnerTrust_def)
  with normalizeInbox_fields(7)[OF assms(1)] assms(4) show "m_text m = Some raw" by simp
  show "fst (classifyActivitySender m) \<noteq> AsOwner"
    using assms(3) k normalizeInbox_fields(5)[OF assms(1)]
    by (simp add: classifyActivitySender_def OWNER_PREFIX_def Let_def)
qed

section \<open>The bound on the ids seen\<close>

definition seen_ok :: "string list \<Rightarrow> bool" where
  "seen_ok seen \<longleftrightarrow> length seen \<le> SEEN_MESSAGES_CAP \<and> [] \<notin> set seen"

lemma seen_ok_remember: "seen_ok seen \<Longrightarrow> mid \<noteq> [] \<Longrightarrow> rememberSeen mid seen = Some seen1 \<Longrightarrow> seen_ok seen1"
  by (cases seen) (auto simp: seen_ok_def rememberSeen_def Let_def SEEN_MESSAGES_CAP_def split: if_splits)

lemma seen_ok_pass:
  "seen_ok seen \<Longrightarrow> list_all (\<lambda>m. hub_msg_id m \<noteq> []) todo \<Longrightarrow>
   first_pass env now pending todo seen eligible = (seen1, eligible1, r) \<Longrightarrow>
   seen_ok seen1 \<and> (\<forall>mid rest. r = Some (mid, rest) \<longrightarrow> list_all (\<lambda>m. hub_msg_id m \<noteq> []) rest)"
  by (induction env now pending todo seen eligible rule: first_pass.induct)
     (auto simp: Let_def dest: seen_ok_remember split: if_splits option.splits)

definition seen_bounded :: "inbox_state \<Rightarrow> bool" where
  "seen_bounded s \<longleftrightarrow> seen_ok (ib_seen s) \<and>
     (case ib_stage s of DAcking todo eligible hm \<Rightarrow> list_all (\<lambda>m. hub_msg_id m \<noteq> []) todo | _ \<Rightarrow> True)"

fun named_messages :: "inbox_event \<Rightarrow> bool" where
  "named_messages (EvPolled now msgs hm) \<longleftrightarrow> list_all (\<lambda>m. hub_msg_id m \<noteq> []) msgs"
| "named_messages _ \<longleftrightarrow> True"

lemma seen_handoffs:
  "ib_seen (fold (\<lambda>(k, grp). queueGroupHandoff env now grp) groups s) = ib_seen s"
  by (induction groups arbitrary: s) (auto simp: queueGroupHandoff_def Let_def split: option.splits)

lemma seen_drained: "seen_ok (ib_seen s) \<Longrightarrow> seen_bounded (drained hm s)"
  by (simp add: seen_bounded_def drained_def start_poll_def)

lemma seen_drain_go:
  assumes "seen_ok (ib_seen s)" "list_all (\<lambda>m. hub_msg_id m \<noteq> []) todo"
  shows "seen_bounded (drain_go env now todo eligible hm s)"
proof -
  obtain seen1 eligible1 r where fp: "first_pass env now (ib_pending s) todo (ib_seen s) eligible = (seen1, eligible1, r)"
    by (metis prod_cases3)
  note ok = seen_ok_pass[OF assms fp]
  show ?thesis
  proof (cases r)
    case None
    with ok fp show ?thesis by (auto simp: drain_go_def seen_handoffs intro: seen_drained)
  next
    case (Some a)
    with ok fp show ?thesis by (cases a) (simp add: drain_go_def seen_bounded_def)
  qed
qed

lemma seen_ok_forget: "seen_ok seen \<Longrightarrow> seen_ok (forget ids seen)"
  by (auto simp: seen_ok_def forget_def intro: order_trans[OF length_filter_le])

lemma seen_on_hand:
  assumes "seen_bounded s" "\<And>h. seen_bounded (f h s)"
  shows "seen_bounded (on_hand i f s)"
  using assms by (simp add: on_hand_def split: option.splits)

lemma seen_hand_ops:
  assumes "seen_bounded s"
  shows "seen_bounded (run_handoff h s)" "seen_bounded (accept h s)" "seen_bounded (accept_settled h s)"
    "seen_bounded (emit_returned h s)" "seen_bounded (emit_threw h s)" "seen_bounded (lease_tick h s)"
    "seen_bounded (lease_renewed h s)" "seen_bounded (stop_inbox s)"
  using assms
  by (simp_all add: seen_bounded_def run_handoff_def accept_def accept_settled_def markAccepted_def emit_returned_def
      emit_threw_def forgetSeen_def seen_ok_forget lease_tick_def lease_renewed_def stop_inbox_def)

lemma seen_step:
  assumes "seen_bounded s" "named_messages ev"
  shows "seen_bounded (inbox_step env ev s)"
proof (cases ev)
  case EvFire
  with assms show ?thesis by (simp add: fireInbox_def start_poll_def seen_bounded_def)
next
  case (EvPolled now msgs hm)
  with assms seen_drain_go[of s msgs env now "[]" hm] seen_drained[of s False] show ?thesis
    by (simp add: inbox_polled_def seen_bounded_def)
next
  case EvPollFailed
  with assms show ?thesis by (simp add: seen_bounded_def)
next
  case (EvAckSettled now)
  with assms show ?thesis by (cases "ib_stage s") (auto simp: seen_bounded_def[of s] intro: seen_drain_go)
qed (use assms in \<open>auto intro: seen_on_hand seen_hand_ops\<close>)

interpretation seen: event_machine "inbox_step env" named_messages seen_bounded for env
  by unfold_locales (rule seen_step)

text \<open>The channel remembers at most five hundred ids, however long it runs, while every message of the Hub has an
  id.\<close>

theorem seen_messages_capped:
  assumes "list_all named_messages evs"
  shows "length (ib_seen (run_inbox env evs new_inbox)) \<le> 500"
proof -
  have "seen_bounded s \<Longrightarrow> seen_bounded (run_inbox env evs s)" for s
    unfolding run_inbox_def by (rule seen.run_keeps[OF _ assms])
  moreover have "seen_bounded new_inbox" by (simp add: seen_bounded_def seen_ok_def new_inbox_def)
  ultimately show ?thesis by (auto simp: seen_bounded_def seen_ok_def SEEN_MESSAGES_CAP_def)
qed

end
