(* ===== verification/Botcord_Socket.thy ===== *)
theory Botcord_Socket
  imports Botcord_Inbox Control_Channel
begin

text \<open>
  The WebSocket loop of the BotCord channel (\<open>startWsLoop\<close> of
  \<open>daemon/src/gateway/channels/botcord.ts\<close>): connecting and authenticating, the watchdogs, reconnecting
  with backoff, giving up after repeated authentication failures, and the two ways the Hub makes the
  channel stop for good.

  A socket is named by the number of its connection. The calls of \<open>connect\<close> under way, the token
  refreshes and the local revocations are kept in the state, since each of them waits for an answer
  while the other events go on.
\<close>

section \<open>Errors of the Hub\<close>

record hub_error =
  he_status :: "int option"
  he_code :: "string option"
  he_message :: string

definition isUnclaimedAgentError :: "hub_error \<Rightarrow> bool" where
  "isUnclaimedAgentError err \<longleftrightarrow>
     he_status err = Some 403
     \<and> list_ex (includes_str (he_message err))
         [''\"code\":\"agent_not_claimed_generic\"'', ''\"code\":\"agent_not_claimed\"'',
          ''agent_not_claimed_generic'', ''agent_not_claimed'']"

definition isTerminalAgentCredentialError :: "hub_error \<Rightarrow> bool" where
  "isTerminalAgentCredentialError err \<longleftrightarrow>
     (he_status err = Some 404 \<and> (he_code err = Some ''key_not_found'' \<or> he_code err = Some ''agent_not_found''))
     \<or> (he_status err = Some 403 \<and> he_code err = Some ''key_not_active'')
     \<or> (list_ex (includes_str (he_message err))
          [''\"code\":\"key_not_found\"'', ''\"code\":\"agent_not_found\"'', ''\"code\":\"key_not_active\"'',
           ''key_not_found'', ''agent_not_found'', ''key_not_active'']
        \<and> (includes_str (he_message err) ''Token refresh failed: 404''
           \<or> includes_str (he_message err) ''Token refresh failed: 403''))"

section \<open>State\<close>

definition RECONNECT_BACKOFF :: "nat list" where
  "RECONNECT_BACKOFF = [1000, 2000, 4000, 8000, 16000, 30000]"

definition MAX_AUTH_FAILURES :: nat where
  "MAX_AUTH_FAILURES = 5"

text \<open>\<open>withReconnectJitter\<close> on the step of the backoff for an attempt, with the number \<open>Math.random\<close> gave.\<close>

definition ws_delay :: "rat \<Rightarrow> nat \<Rightarrow> nat" where
  "ws_delay r attempt =
     (let base = RECONNECT_BACKOFF ! min attempt (length RECONNECT_BACKOFF - 1)
      in base + nat \<lfloor>r * rat_of_nat base * (1 / 4)\<rfloor>)"

datatype ws_ready = WsConnecting | WsOpen | WsClosing | WsClosed

datatype connect_stage = CRefresh | CToken

datatype loop_promise = LPending | LResolved | LRejected

text \<open>What asked for a revocation: the inbox drain, a call of \<open>connect\<close>, or the refresh after the close
  of a socket.\<close>

datatype revoke_origin = RDrain | RConnect | RRefresh nat

datatype ws_output =
    WsAuth nat
  | WsPing nat
  | WsFire
  | WsTimer nat
  | WsRevoke

record ws_status =
  sn_running :: bool
  sn_connected :: bool
  sn_restartPending :: bool
  sn_reconnectAttempts :: nat
  sn_lastError :: "string option"

record ws_loop =
  wl_ws :: "nat option"
  wl_ready :: "nat \<Rightarrow> ws_ready"
  wl_seq :: nat
  wl_connects :: "connect_stage list"
  wl_reconnect :: bool
  wl_handshake :: "nat option"
  wl_stale :: "nat option"
  wl_poll :: "nat option"
  wl_keepalive :: "nat option"
  wl_attempt :: nat
  wl_authFailures :: nat
  wl_running :: bool
  wl_permanent :: bool
  wl_refreshes :: "nat list"
  wl_pendingRefresh :: "nat option"
  wl_revokes :: "revoke_origin list"
  wl_promise :: loop_promise
  wl_status :: ws_status
  wl_out :: "ws_output list"

record ws_cfg =
  wc_handshakeTimeout :: bool
  wc_staleTimeout :: bool
  wc_polls :: bool

definition wl_emit :: "ws_output \<Rightarrow> ws_loop \<Rightarrow> ws_loop" where
  "wl_emit x s = s\<lparr>wl_out := wl_out s @ [x]\<rparr>"

definition markStatus :: "(ws_status \<Rightarrow> ws_status) \<Rightarrow> ws_loop \<Rightarrow> ws_loop" where
  "markStatus f s = s\<lparr>wl_status := f (wl_status s)\<rparr>"

definition clearTimers :: "ws_loop \<Rightarrow> ws_loop" where
  "clearTimers s = s\<lparr>wl_reconnect := False, wl_handshake := None, wl_stale := None, wl_keepalive := None,
     wl_poll := None\<rparr>"

definition socket_up :: "ws_loop \<Rightarrow> bool" where
  "socket_up s \<longleftrightarrow>
     (case wl_ws s of Some k \<Rightarrow> wl_ready s k = WsConnecting \<or> wl_ready s k = WsOpen | None \<Rightarrow> False)"

text \<open>The guard of the listeners: the socket is the current one and its connection the newest.\<close>

definition current :: "nat \<Rightarrow> ws_loop \<Rightarrow> bool" where
  "current k s \<longleftrightarrow> wl_ws s = Some k \<and> k = wl_seq s"

definition settle_loop :: "loop_promise \<Rightarrow> ws_loop \<Rightarrow> ws_loop" where
  "settle_loop p s = (if wl_promise s = LPending then s\<lparr>wl_promise := p\<rparr> else s)"

definition ws_close :: "nat \<Rightarrow> ws_loop \<Rightarrow> ws_loop" where
  "ws_close k s =
     (if wl_ready s k = WsClosed then s else s\<lparr>wl_ready := (wl_ready s)(k := WsClosing)\<rparr>)"

section \<open>Reconnecting\<close>

definition ws_scheduleReconnect :: "rat \<Rightarrow> ws_loop \<Rightarrow> ws_loop" where
  "ws_scheduleReconnect r s =
     (if \<not> wl_running s \<or> wl_reconnect s \<or> socket_up s then s
      else wl_emit (WsTimer (ws_delay r (wl_attempt s)))
        (markStatus (\<lambda>n. n\<lparr>sn_connected := False, sn_restartPending := True, sn_reconnectAttempts := Suc (wl_attempt s)\<rparr>)
          (s\<lparr>wl_attempt := Suc (wl_attempt s), wl_reconnect := True\<rparr>)))"

definition ws_connect :: "ws_loop \<Rightarrow> ws_loop" where
  "ws_connect s =
     (if \<not> wl_running s \<or> socket_up s then s
      else markStatus (\<lambda>n. n\<lparr>sn_connected := False, sn_restartPending := False\<rparr>)
        (s\<lparr>wl_connects := wl_connects s @ [if wl_pendingRefresh s \<noteq> None then CRefresh else CToken]\<rparr>))"

definition drop_connect :: "nat \<Rightarrow> ws_loop \<Rightarrow> ws_loop" where
  "drop_connect i s = s\<lparr>wl_connects := take i (wl_connects s) @ drop (Suc i) (wl_connects s)\<rparr>"

text \<open>The refresh a call of \<open>connect\<close> waited for has settled.\<close>

definition refresh_awaited :: "nat \<Rightarrow> ws_loop \<Rightarrow> ws_loop" where
  "refresh_awaited i s =
     (if i < length (wl_connects s) \<and> wl_connects s ! i = CRefresh
      then s\<lparr>wl_connects := (wl_connects s)[i := CToken], wl_pendingRefresh := None\<rparr>
      else s)"

definition at_token :: "nat \<Rightarrow> ws_loop \<Rightarrow> bool" where
  "at_token i s \<longleftrightarrow> i < length (wl_connects s) \<and> wl_connects s ! i = CToken"

text \<open>A token: the socket is constructed, or its construction throws. The loop may have stopped in the
  meantime; the code does not look.\<close>

definition token_ready :: "ws_cfg \<Rightarrow> rat \<Rightarrow> nat \<Rightarrow> bool \<Rightarrow> string \<Rightarrow> ws_loop \<Rightarrow> ws_loop" where
  "token_ready cfg r i constructed err s =
     (if \<not> at_token i s then s
      else let s1 = (drop_connect i s)\<lparr>wl_seq := Suc (wl_seq s)\<rparr>
           in if constructed
              then s1\<lparr>wl_ws := Some (wl_seq s1), wl_ready := (wl_ready s1)(wl_seq s1 := WsConnecting),
                      wl_handshake := (if wc_handshakeTimeout cfg then Some (wl_seq s1) else None)\<rparr>
              else ws_scheduleReconnect r (markStatus (\<lambda>n. n\<lparr>sn_lastError := Some err\<rparr>) s1))"

text \<open>What \<open>stopForTerminalCredentials\<close> and \<open>revokeLocalUnclaimedAgent\<close> do before they wait for the
  revocation.\<close>

definition begin_revoke :: "revoke_origin \<Rightarrow> ws_loop \<Rightarrow> ws_loop" where
  "begin_revoke origin s =
     (let s1 = clearTimers (s\<lparr>wl_running := False, wl_permanent := True\<rparr>);
          s2 = (case wl_ws s1 of Some k \<Rightarrow> ws_close k s1 | None \<Rightarrow> s1)
      in wl_emit WsRevoke (s2\<lparr>wl_revokes := wl_revokes s2 @ [origin]\<rparr>))"

definition token_failed :: "rat \<Rightarrow> nat \<Rightarrow> hub_error \<Rightarrow> ws_loop \<Rightarrow> ws_loop" where
  "token_failed r i err s =
     (if \<not> at_token i s then s
      else if isTerminalAgentCredentialError err then begin_revoke RConnect (drop_connect i s)
      else ws_scheduleReconnect r (markStatus (\<lambda>n. n\<lparr>sn_lastError := Some (he_message err)\<rparr>) (drop_connect i s)))"

text \<open>The drain of the inbox failed.\<close>

definition drain_failed :: "hub_error \<Rightarrow> ws_loop \<Rightarrow> ws_loop" where
  "drain_failed err s = (if isUnclaimedAgentError err then begin_revoke RDrain s else s)"

text \<open>The refresh started by the close of socket \<open>k\<close> has settled: its continuation forgets it and
  schedules a reconnect.\<close>

definition refresh_settled :: "rat \<Rightarrow> nat \<Rightarrow> ws_loop \<Rightarrow> ws_loop" where
  "refresh_settled r k s =
     ws_scheduleReconnect r
       (s\<lparr>wl_refreshes := remove1 k (wl_refreshes s),
          wl_pendingRefresh := (if wl_pendingRefresh s = Some k then None else wl_pendingRefresh s)\<rparr>)"

definition refresh_answer :: "rat \<Rightarrow> nat \<Rightarrow> hub_error option \<Rightarrow> ws_loop \<Rightarrow> ws_loop" where
  "refresh_answer r k answer s =
     (if k \<notin> set (wl_refreshes s) then s
      else case answer of
        Some err \<Rightarrow>
          if isTerminalAgentCredentialError err
          then begin_revoke (RRefresh k) (s\<lparr>wl_refreshes := remove1 k (wl_refreshes s)\<rparr>)
          else refresh_settled r k s
      | None \<Rightarrow> refresh_settled r k s)"

text \<open>A revocation has ended, well or badly; \<open>lastError\<close> tells which.\<close>

definition revoke_ended :: "rat \<Rightarrow> nat \<Rightarrow> string \<Rightarrow> ws_loop \<Rightarrow> ws_loop" where
  "revoke_ended r j note s =
     (if j < length (wl_revokes s)
      then let origin = wl_revokes s ! j;
               s1 = markStatus (\<lambda>n. n\<lparr>sn_running := False, sn_connected := False, sn_restartPending := False,
                                     sn_lastError := Some note\<rparr>)
                      (s\<lparr>wl_revokes := take j (wl_revokes s) @ drop (Suc j) (wl_revokes s)\<rparr>);
               s2 = settle_loop LRejected (s1\<lparr>wl_permanent := False\<rparr>)
           in (case origin of RRefresh k \<Rightarrow> refresh_settled r k s2 | _ \<Rightarrow> s2)
      else s)"

section \<open>Listeners of a socket\<close>

definition ws_opened :: "nat \<Rightarrow> ws_loop \<Rightarrow> ws_loop" where
  "ws_opened k s =
     (if wl_ready s k \<noteq> WsConnecting then s
      else let s1 = s\<lparr>wl_ready := (wl_ready s)(k := WsOpen)\<rparr>
           in if \<not> wl_running s1 \<or> \<not> current k s1 then ws_close k s1 else wl_emit (WsAuth k) s1)"

definition arm_stale :: "ws_cfg \<Rightarrow> nat \<Rightarrow> ws_loop \<Rightarrow> ws_loop" where
  "arm_stale cfg k s = s\<lparr>wl_stale := (if wc_staleTimeout cfg then Some k else None)\<rparr>"

definition ws_message :: "ws_cfg \<Rightarrow> nat \<Rightarrow> jsval \<Rightarrow> ws_loop \<Rightarrow> ws_loop" where
  "ws_message cfg k frame s =
     (if \<not> current k s then s
      else case str_field frame ''type'' of
        None \<Rightarrow> s
      | Some ty \<Rightarrow>
          if ty = ''auth_ok''
          then wl_emit WsFire
            (markStatus (\<lambda>n. n\<lparr>sn_running := True, sn_connected := True, sn_reconnectAttempts := 0, sn_lastError := None\<rparr>)
              ((arm_stale cfg k s)\<lparr>wl_handshake := None, wl_attempt := 0, wl_authFailures := 0,
                 wl_poll := (if wc_polls cfg then Some k else None), wl_keepalive := Some k\<rparr>))
          else if ty = ''inbox_update'' then wl_emit WsFire (arm_stale cfg k s)
          else if ty = ''heartbeat'' \<or> ty = ''pong'' then arm_stale cfg k s
          else if ty = ''error'' \<or> ty = ''auth_failed''
          then (if sn_connected (wl_status s) then arm_stale cfg k s else s)
          else s)"

definition ws_closed :: "rat \<Rightarrow> nat \<Rightarrow> int \<Rightarrow> ws_loop \<Rightarrow> ws_loop" where
  "ws_closed r k code s0 =
     (let s = s0\<lparr>wl_ready := (wl_ready s0)(k := WsClosed)\<rparr>
      in if wl_ready s0 k = WsClosed \<or> \<not> current k s then s
         else let s1 = markStatus (\<lambda>n. n\<lparr>sn_connected := False\<rparr>) ((clearTimers s)\<lparr>wl_ws := None\<rparr>)
              in if \<not> wl_running s1 then (if wl_permanent s1 then s1 else settle_loop LResolved s1)
                 else if code = 4001
                 then let s2 = s1\<lparr>wl_authFailures := Suc (wl_authFailures s1)\<rparr>
                      in if wl_authFailures s2 \<ge> MAX_AUTH_FAILURES
                         then settle_loop LResolved
                           (markStatus (\<lambda>n. n\<lparr>sn_running := False, sn_connected := False,
                                           sn_lastError := Some ''auth failed repeatedly''\<rparr>)
                             (s2\<lparr>wl_running := False\<rparr>))
                         else s2\<lparr>wl_refreshes := wl_refreshes s2 @ [k], wl_pendingRefresh := Some k\<rparr>
                 else ws_scheduleReconnect r s1)"

definition ws_error :: "nat \<Rightarrow> string \<Rightarrow> ws_loop \<Rightarrow> ws_loop" where
  "ws_error k err s = (if current k s then markStatus (\<lambda>n. n\<lparr>sn_lastError := Some err\<rparr>) s else s)"

text \<open>The two watchdogs: the socket is given up and terminated, and its close is ignored later.\<close>

definition watchdog_fires :: "rat \<Rightarrow> string \<Rightarrow> nat \<Rightarrow> ws_loop \<Rightarrow> ws_loop" where
  "watchdog_fires r note k s =
     (if \<not> wl_running s \<or> \<not> current k s then s
      else ws_scheduleReconnect r
        (ws_close k (markStatus (\<lambda>n. n\<lparr>sn_connected := False, sn_lastError := Some note\<rparr>) (s\<lparr>wl_ws := None\<rparr>))))"

definition handshake_fires :: "rat \<Rightarrow> ws_loop \<Rightarrow> ws_loop" where
  "handshake_fires r s =
     (case wl_handshake s of
        Some k \<Rightarrow> watchdog_fires r ''botcord ws handshake timeout'' k (s\<lparr>wl_handshake := None\<rparr>)
      | None \<Rightarrow> s)"

definition stale_fires :: "rat \<Rightarrow> ws_loop \<Rightarrow> ws_loop" where
  "stale_fires r s =
     (case wl_stale s of
        Some k \<Rightarrow> watchdog_fires r ''botcord ws stale'' k (s\<lparr>wl_stale := None\<rparr>)
      | None \<Rightarrow> s)"

definition reconnect_fires :: "ws_loop \<Rightarrow> ws_loop" where
  "reconnect_fires s = (if wl_reconnect s then ws_connect (s\<lparr>wl_reconnect := False\<rparr>) else s)"

definition poll_fires :: "ws_loop \<Rightarrow> ws_loop" where
  "poll_fires s =
     (case wl_poll s of
        Some k \<Rightarrow> (if wl_ws s = Some k \<and> wl_ready s k = WsOpen then wl_emit WsFire s else s)
      | None \<Rightarrow> s)"

definition keepalive_fires :: "ws_loop \<Rightarrow> ws_loop" where
  "keepalive_fires s =
     (case wl_keepalive s of
        Some k \<Rightarrow> (if wl_ws s = Some k \<and> wl_ready s k = WsOpen then wl_emit (WsPing k) s else s)
      | None \<Rightarrow> s)"

definition stopLoop :: "ws_loop \<Rightarrow> ws_loop" where
  "stopLoop s =
     (if \<not> wl_running s then s
      else let s1 = markStatus (\<lambda>n. n\<lparr>sn_running := False, sn_connected := False\<rparr>) (clearTimers (s\<lparr>wl_running := False\<rparr>));
               s2 = (case wl_ws s1 of Some k \<Rightarrow> (ws_close k s1)\<lparr>wl_ws := None\<rparr> | None \<Rightarrow> s1)
           in settle_loop LResolved s2)"

definition startWsLoop :: ws_loop where
  "startWsLoop = ws_connect \<lparr>wl_ws = None, wl_ready = (\<lambda>_. WsClosed), wl_seq = 0, wl_connects = [], wl_reconnect = False,
     wl_handshake = None, wl_stale = None, wl_poll = None, wl_keepalive = None, wl_attempt = 0, wl_authFailures = 0,
     wl_running = True, wl_permanent = False, wl_refreshes = [], wl_pendingRefresh = None, wl_revokes = [],
     wl_promise = LPending,
     wl_status = \<lparr>sn_running = True, sn_connected = False, sn_restartPending = False, sn_reconnectAttempts = 0,
        sn_lastError = None\<rparr>, wl_out = []\<rparr>"

section \<open>Steps\<close>

datatype ws_event =
    WeToken nat bool string | WeTokenFailed nat hub_error | WeRefreshAwaited nat
  | WeOpen nat | WeMessage nat jsval | WeClose nat int | WeError nat string
  | WeHandshake | WeStale | WeReconnect | WePoll | WeKeepalive
  | WeRefresh nat "hub_error option" | WeDrainFailed hub_error | WeRevoked nat string | WeStop

fun ws_step :: "ws_cfg \<Rightarrow> rat \<Rightarrow> ws_event \<Rightarrow> ws_loop \<Rightarrow> ws_loop" where
  "ws_step cfg r (WeToken i ok err) s = token_ready cfg r i ok err s"
| "ws_step cfg r (WeTokenFailed i err) s = token_failed r i err s"
| "ws_step cfg r (WeRefreshAwaited i) s = refresh_awaited i s"
| "ws_step cfg r (WeOpen k) s = ws_opened k s"
| "ws_step cfg r (WeMessage k frame) s = ws_message cfg k frame s"
| "ws_step cfg r (WeClose k code) s = ws_closed r k code s"
| "ws_step cfg r (WeError k err) s = ws_error k err s"
| "ws_step cfg r WeHandshake s = handshake_fires r s"
| "ws_step cfg r WeStale s = stale_fires r s"
| "ws_step cfg r WeReconnect s = reconnect_fires s"
| "ws_step cfg r WePoll s = poll_fires s"
| "ws_step cfg r WeKeepalive s = keepalive_fires s"
| "ws_step cfg r (WeRefresh k answer) s = refresh_answer r k answer s"
| "ws_step cfg r (WeDrainFailed err) s = drain_failed err s"
| "ws_step cfg r (WeRevoked j note) s = revoke_ended r j note s"
| "ws_step cfg r WeStop s = stopLoop s"

definition ws_run :: "ws_cfg \<Rightarrow> (rat \<times> ws_event) list \<Rightarrow> ws_loop \<Rightarrow> ws_loop" where
  "ws_run cfg evs s = fold (\<lambda>(r, ev). ws_step cfg r ev) evs s"

section \<open>One thing under way\<close>

text \<open>What the loop has under way: calls of \<open>connect\<close>, the reconnect timer, the socket, token refreshes.\<close>

definition under_way :: "ws_loop \<Rightarrow> nat" where
  "under_way s = length (wl_connects s) + of_bool (wl_reconnect s) + of_bool (wl_ws s \<noteq> None) + length (wl_refreshes s)"

definition ws_inv :: "ws_loop \<Rightarrow> bool" where
  "ws_inv s \<longleftrightarrow>
     (wl_running s \<longrightarrow> under_way s = 1) \<and> under_way s \<le> 1
     \<and> (\<forall>k. wl_ws s = Some k \<longrightarrow> k = wl_seq s)
     \<and> (wl_running s \<longrightarrow> wl_promise s = LPending \<and> wl_revokes s = [] \<and> wl_authFailures s < MAX_AUTH_FAILURES)
     \<and> (\<not> wl_running s \<and> wl_revokes s = [] \<longrightarrow> wl_promise s \<noteq> LPending)"

text \<open>A state between two things: nothing is under way, and the loop runs only if it may go on.\<close>

definition ws_gap :: "ws_loop \<Rightarrow> bool" where
  "ws_gap s \<longleftrightarrow>
     under_way s = 0
     \<and> (wl_running s \<longrightarrow> wl_promise s = LPending \<and> wl_revokes s = [] \<and> wl_authFailures s < MAX_AUTH_FAILURES)
     \<and> (\<not> wl_running s \<and> wl_revokes s = [] \<longrightarrow> wl_promise s \<noteq> LPending)"

named_theorems ws_frame \<open>fields an operation of the loop leaves alone\<close>

lemma markStatus_frame [ws_frame]:
  "wl_ws (markStatus f s) = wl_ws s" "wl_seq (markStatus f s) = wl_seq s" "wl_connects (markStatus f s) = wl_connects s"
  "wl_reconnect (markStatus f s) = wl_reconnect s" "wl_refreshes (markStatus f s) = wl_refreshes s"
  "wl_running (markStatus f s) = wl_running s" "wl_promise (markStatus f s) = wl_promise s"
  "wl_revokes (markStatus f s) = wl_revokes s" "wl_authFailures (markStatus f s) = wl_authFailures s"
  "wl_ready (markStatus f s) = wl_ready s" "wl_permanent (markStatus f s) = wl_permanent s" "wl_out (markStatus f s) = wl_out s"
  "wl_attempt (markStatus f s) = wl_attempt s" "wl_pendingRefresh (markStatus f s) = wl_pendingRefresh s"
  by (simp_all add: markStatus_def)

lemma wl_emit_frame [ws_frame]:
  "wl_ws (wl_emit x s) = wl_ws s" "wl_seq (wl_emit x s) = wl_seq s" "wl_connects (wl_emit x s) = wl_connects s"
  "wl_reconnect (wl_emit x s) = wl_reconnect s" "wl_refreshes (wl_emit x s) = wl_refreshes s"
  "wl_running (wl_emit x s) = wl_running s" "wl_promise (wl_emit x s) = wl_promise s"
  "wl_revokes (wl_emit x s) = wl_revokes s" "wl_authFailures (wl_emit x s) = wl_authFailures s"
  "wl_ready (wl_emit x s) = wl_ready s" "wl_permanent (wl_emit x s) = wl_permanent s" "wl_out (wl_emit x s) = wl_out s @ [x]"
  by (simp_all add: wl_emit_def)

lemma ws_close_frame [ws_frame]:
  "wl_ws (ws_close k s) = wl_ws s" "wl_seq (ws_close k s) = wl_seq s" "wl_connects (ws_close k s) = wl_connects s"
  "wl_reconnect (ws_close k s) = wl_reconnect s" "wl_refreshes (ws_close k s) = wl_refreshes s"
  "wl_running (ws_close k s) = wl_running s" "wl_promise (ws_close k s) = wl_promise s"
  "wl_revokes (ws_close k s) = wl_revokes s" "wl_authFailures (ws_close k s) = wl_authFailures s"
  "wl_permanent (ws_close k s) = wl_permanent s" "wl_out (ws_close k s) = wl_out s"
  by (simp_all add: ws_close_def)

lemma settle_loop_frame [ws_frame]:
  "wl_ws (settle_loop p s) = wl_ws s" "wl_seq (settle_loop p s) = wl_seq s" "wl_connects (settle_loop p s) = wl_connects s"
  "wl_reconnect (settle_loop p s) = wl_reconnect s" "wl_refreshes (settle_loop p s) = wl_refreshes s"
  "wl_running (settle_loop p s) = wl_running s" "wl_revokes (settle_loop p s) = wl_revokes s"
  "wl_authFailures (settle_loop p s) = wl_authFailures s" "wl_permanent (settle_loop p s) = wl_permanent s"
  "wl_out (settle_loop p s) = wl_out s" "p \<noteq> LPending \<Longrightarrow> wl_promise (settle_loop p s) \<noteq> LPending"
  by (simp_all add: settle_loop_def)

lemma clearTimers_frame [ws_frame]:
  "wl_ws (clearTimers s) = wl_ws s" "wl_seq (clearTimers s) = wl_seq s" "wl_connects (clearTimers s) = wl_connects s"
  "wl_reconnect (clearTimers s) = False" "wl_refreshes (clearTimers s) = wl_refreshes s"
  "wl_running (clearTimers s) = wl_running s" "wl_promise (clearTimers s) = wl_promise s"
  "wl_revokes (clearTimers s) = wl_revokes s" "wl_authFailures (clearTimers s) = wl_authFailures s"
  "wl_permanent (clearTimers s) = wl_permanent s" "wl_out (clearTimers s) = wl_out s" "wl_ready (clearTimers s) = wl_ready s"
  by (simp_all add: clearTimers_def)

lemma arm_stale_frame [ws_frame]:
  "wl_ws (arm_stale cfg k s) = wl_ws s" "wl_seq (arm_stale cfg k s) = wl_seq s" "wl_connects (arm_stale cfg k s) = wl_connects s"
  "wl_reconnect (arm_stale cfg k s) = wl_reconnect s" "wl_refreshes (arm_stale cfg k s) = wl_refreshes s"
  "wl_running (arm_stale cfg k s) = wl_running s" "wl_promise (arm_stale cfg k s) = wl_promise s"
  "wl_revokes (arm_stale cfg k s) = wl_revokes s" "wl_authFailures (arm_stale cfg k s) = wl_authFailures s"
  "wl_out (arm_stale cfg k s) = wl_out s"
  by (simp_all add: arm_stale_def)

text \<open>The invariant reads only these fields.\<close>

lemma ws_inv_cong:
  assumes "wl_ws s' = wl_ws s" "wl_seq s' = wl_seq s" "wl_connects s' = wl_connects s" "wl_reconnect s' = wl_reconnect s"
    "wl_refreshes s' = wl_refreshes s" "wl_running s' = wl_running s" "wl_promise s' = wl_promise s"
    "wl_revokes s' = wl_revokes s" "wl_authFailures s' \<le> wl_authFailures s"
  shows "ws_inv s \<Longrightarrow> ws_inv s'"
  using assms by (auto simp: ws_inv_def under_way_def)

lemma gap_schedule:
  assumes "ws_gap s"
  shows "ws_inv (ws_scheduleReconnect r s)"
proof -
  have z: "wl_connects s = []" "\<not> wl_reconnect s" "wl_ws s = None" "wl_refreshes s = []"
    using assms by (auto simp: ws_gap_def under_way_def)
  then have "\<not> socket_up s" by (simp add: socket_up_def)
  with z assms show ?thesis
    by (cases "wl_running s") (simp_all add: ws_scheduleReconnect_def ws_inv_def ws_gap_def under_way_def ws_frame)
qed

lemma schedule_stopped: "\<not> wl_running s \<Longrightarrow> ws_scheduleReconnect r s = s"
  by (simp add: ws_scheduleReconnect_def)

text \<open>Taking away the one thing that is under way leaves a gap.\<close>

lemma inv_gap:
  assumes "ws_inv s" "under_way s' < under_way s" "wl_running s' = wl_running s" "wl_promise s' = wl_promise s"
    "wl_revokes s' = wl_revokes s" "wl_authFailures s' = wl_authFailures s"
  shows "ws_gap s'"
  using assms by (auto simp: ws_inv_def ws_gap_def)

lemma inv_stopped:
  assumes "under_way s \<le> 1" "\<forall>k. wl_ws s = Some k \<longrightarrow> k = wl_seq s" "\<not> wl_running s"
    "wl_revokes s \<noteq> [] \<or> wl_promise s \<noteq> LPending"
  shows "ws_inv s"
  using assms by (auto simp: ws_inv_def)

lemma drop_connect_length:
  "i < length (wl_connects s) \<Longrightarrow> length (wl_connects (drop_connect i s)) = length (wl_connects s) - 1"
  by (simp add: drop_connect_def)

lemma drop_connect_frame [ws_frame]:
  "wl_ws (drop_connect i s) = wl_ws s" "wl_seq (drop_connect i s) = wl_seq s"
  "wl_reconnect (drop_connect i s) = wl_reconnect s" "wl_refreshes (drop_connect i s) = wl_refreshes s"
  "wl_running (drop_connect i s) = wl_running s" "wl_promise (drop_connect i s) = wl_promise s"
  "wl_revokes (drop_connect i s) = wl_revokes s" "wl_authFailures (drop_connect i s) = wl_authFailures s"
  "wl_out (drop_connect i s) = wl_out s"
  by (simp_all add: drop_connect_def)

lemma drop_connect_way:
  assumes "at_token i s"
  shows "under_way (drop_connect i s) < under_way s"
  using assms by (cases "wl_connects s") (auto simp: under_way_def at_token_def drop_connect_length ws_frame)

lemma begin_revoke_inv:
  assumes "under_way s \<le> 1" "\<forall>k. wl_ws s = Some k \<longrightarrow> k = wl_seq s"
  shows "ws_inv (begin_revoke origin s)"
  using assms
  by (intro inv_stopped) (auto simp: begin_revoke_def Let_def ws_frame under_way_def split: option.splits)

lemma token_ready_inv:
  assumes "ws_inv s"
  shows "ws_inv (token_ready cfg r i ok err s)"
proof (cases "at_token i s")
  case True
  note way = drop_connect_way[OF True]
  have up: "under_way (drop_connect i s) = 0" using way assms by (auto simp: ws_inv_def)
  show ?thesis
  proof (cases ok)
    case ok: True
    from up assms show ?thesis
      by (auto simp: token_ready_def True ok Let_def ws_inv_def under_way_def ws_frame)
  next
    case False
    have "ws_gap (markStatus (\<lambda>n. n\<lparr>sn_lastError := Some err\<rparr>) ((drop_connect i s)\<lparr>wl_seq := Suc (wl_seq s)\<rparr>))"
      using way by (intro inv_gap[OF assms]) (simp_all add: ws_frame under_way_def)
    then show ?thesis by (simp add: token_ready_def True False Let_def gap_schedule)
  qed
qed (use assms in \<open>simp add: token_ready_def\<close>)

lemma token_failed_inv:
  assumes "ws_inv s"
  shows "ws_inv (token_failed r i err s)"
proof (cases "at_token i s")
  case True
  note way = drop_connect_way[OF True]
  have "ws_gap (markStatus f (drop_connect i s))" for f
    using way by (intro inv_gap[OF assms]) (simp_all add: ws_frame under_way_def)
  moreover have "ws_inv (begin_revoke RConnect (drop_connect i s))"
    using way assms by (intro begin_revoke_inv) (auto simp: ws_inv_def ws_frame)
  ultimately show ?thesis by (simp add: token_failed_def True gap_schedule)
qed (use assms in \<open>simp add: token_failed_def\<close>)

lemma refresh_gap:
  assumes "ws_inv s" "k \<in> set (wl_refreshes s)" "under_way s' = under_way (s\<lparr>wl_refreshes := remove1 k (wl_refreshes s)\<rparr>)"
    "wl_running s' = wl_running s" "wl_promise s' = wl_promise s" "wl_revokes s' = wl_revokes s" "wl_authFailures s' = wl_authFailures s"
  shows "ws_gap s'"
proof (rule inv_gap[OF assms(1)])
  have "length (remove1 k (wl_refreshes s)) < length (wl_refreshes s)"
    using assms(2) length_pos_if_in_set[OF assms(2)] by (simp add: length_remove1)
  with assms(3) show "under_way s' < under_way s" by (simp add: under_way_def)
qed (use assms in simp_all)

lemma refresh_answer_inv:
  assumes "ws_inv s"
  shows "ws_inv (refresh_answer r k answer s)"
proof (cases "k \<in> set (wl_refreshes s)")
  case True
  have "ws_inv (refresh_settled r k s)"
    unfolding refresh_settled_def by (rule gap_schedule, rule refresh_gap[OF assms True]) (simp_all add: under_way_def)
  moreover have "ws_inv (begin_revoke (RRefresh k) (s\<lparr>wl_refreshes := remove1 k (wl_refreshes s)\<rparr>))"
    using assms by (intro begin_revoke_inv) (auto simp: ws_inv_def under_way_def length_remove1 split: if_splits)
  ultimately show ?thesis using True by (auto simp: refresh_answer_def split: option.splits)
qed (use assms in \<open>simp add: refresh_answer_def\<close>)

lemma revoke_ended_inv:
  assumes "ws_inv s"
  shows "ws_inv (revoke_ended r j note s)"
proof (cases "j < length (wl_revokes s)")
  case True
  then have st: "\<not> wl_running s" using assms by (auto simp: ws_inv_def)
  define s2 where "s2 = settle_loop LRejected
      ((markStatus (\<lambda>n. n\<lparr>sn_running := False, sn_connected := False, sn_restartPending := False, sn_lastError := Some note\<rparr>)
        (s\<lparr>wl_revokes := take j (wl_revokes s) @ drop (Suc j) (wl_revokes s)\<rparr>))\<lparr>wl_permanent := False\<rparr>)"
  have f: "wl_ws s2 = wl_ws s" "wl_seq s2 = wl_seq s" "wl_connects s2 = wl_connects s" "wl_reconnect s2 = wl_reconnect s"
      "wl_refreshes s2 = wl_refreshes s" "\<not> wl_running s2" "wl_promise s2 \<noteq> LPending"
    using st by (simp_all add: s2_def ws_frame)
  have inv: "ws_inv (s2\<lparr>wl_refreshes := remove1 k (wl_refreshes s2), wl_pendingRefresh := p\<rparr>)" "ws_inv s2" for k p
    using assms f by (auto simp: ws_inv_def under_way_def length_remove1 split: if_splits)
  have "revoke_ended r j note s = (case wl_revokes s ! j of RRefresh k \<Rightarrow> refresh_settled r k s2 | _ \<Rightarrow> s2)"
    using True by (cases "wl_revokes s ! j") (simp_all add: revoke_ended_def Let_def s2_def)
  then show ?thesis using inv f
    by (simp add: refresh_settled_def schedule_stopped split: revoke_origin.splits)
qed (use assms in \<open>simp add: revoke_ended_def\<close>)

lemma watchdog_inv:
  assumes "ws_inv s"
  shows "ws_inv (watchdog_fires r note k s)"
proof (cases "wl_running s \<and> current k s")
  case True
  have "ws_gap (ws_close k (markStatus f (s\<lparr>wl_ws := None\<rparr>)))" for f
    using True by (intro inv_gap[OF assms]) (simp_all add: ws_frame under_way_def current_def)
  then show ?thesis using True by (simp add: watchdog_fires_def gap_schedule)
qed (use assms in \<open>auto simp: watchdog_fires_def\<close>)

lemma ws_closed_inv:
  assumes "ws_inv s0"
  shows "ws_inv (ws_closed r k code s0)"
proof (cases "wl_ready s0 k = WsClosed \<or> \<not> current k (s0\<lparr>wl_ready := (wl_ready s0)(k := WsClosed)\<rparr>)")
  case True
  have "ws_inv (s0\<lparr>wl_ready := (wl_ready s0)(k := WsClosed)\<rparr>)" by (rule ws_inv_cong[OF _ _ _ _ _ _ _ _ _ assms]) simp_all
  with True show ?thesis by (auto simp: ws_closed_def Let_def)
next
  case False
  define s1 where "s1 = markStatus (\<lambda>n. n\<lparr>sn_connected := False\<rparr>)
      ((clearTimers (s0\<lparr>wl_ready := (wl_ready s0)(k := WsClosed)\<rparr>))\<lparr>wl_ws := None\<rparr>)"
  have ws: "wl_ws s0 = Some k" using False by (simp add: current_def)
  have gap: "ws_gap s1"
    using ws by (intro inv_gap[OF assms]) (simp_all add: s1_def ws_frame under_way_def)
  have eq: "ws_closed r k code s0 =
      (if \<not> wl_running s1 then (if wl_permanent s1 then s1 else settle_loop LResolved s1)
       else if code = 4001
       then let s2 = s1\<lparr>wl_authFailures := Suc (wl_authFailures s1)\<rparr>
            in if wl_authFailures s2 \<ge> MAX_AUTH_FAILURES
               then settle_loop LResolved
                 (markStatus (\<lambda>n. n\<lparr>sn_running := False, sn_connected := False,
                                 sn_lastError := Some ''auth failed repeatedly''\<rparr>)
                   (s2\<lparr>wl_running := False\<rparr>))
               else s2\<lparr>wl_refreshes := wl_refreshes s2 @ [k], wl_pendingRefresh := Some k\<rparr>
       else ws_scheduleReconnect r s1)"
    using False by (simp add: ws_closed_def Let_def s1_def)
  have stopped: "\<not> wl_running s1 \<Longrightarrow> ws_inv s1 \<and> ws_inv (settle_loop LResolved s1)"
    using gap by (auto simp: ws_gap_def ws_inv_def under_way_def ws_frame)
  have given_up: "ws_inv (settle_loop LResolved (markStatus f (s1\<lparr>wl_authFailures := n, wl_running := False\<rparr>)))" for f n
    using gap by (intro inv_stopped) (simp_all add: ws_gap_def under_way_def ws_frame)
  have refreshing: "wl_running s1 \<Longrightarrow> n < MAX_AUTH_FAILURES \<Longrightarrow>
      ws_inv (s1\<lparr>wl_authFailures := n, wl_refreshes := wl_refreshes s1 @ [k], wl_pendingRefresh := Some k\<rparr>)" for n
    using gap by (auto simp: ws_gap_def ws_inv_def under_way_def)
  show ?thesis unfolding eq using stopped given_up refreshing gap_schedule[OF gap]
    by (simp add: Let_def not_le)
qed

lemma ws_connect_inv:
  assumes "ws_gap s"
  shows "ws_inv (ws_connect s)"
proof -
  have z: "wl_connects s = []" "\<not> wl_reconnect s" "wl_ws s = None" "wl_refreshes s = []"
    using assms by (auto simp: ws_gap_def under_way_def)
  then have "\<not> socket_up s" by (simp add: socket_up_def)
  with z assms show ?thesis
    by (cases "wl_running s") (simp_all add: ws_connect_def ws_inv_def ws_gap_def under_way_def ws_frame)
qed

lemma reconnect_fires_inv:
  assumes "ws_inv s"
  shows "ws_inv (reconnect_fires s)"
proof (cases "wl_reconnect s")
  case True
  then have "ws_gap (s\<lparr>wl_reconnect := False\<rparr>)" by (intro inv_gap[OF assms]) (simp_all add: under_way_def)
  with True show ?thesis by (simp add: reconnect_fires_def ws_connect_inv)
qed (use assms in \<open>simp add: reconnect_fires_def\<close>)

lemma stopLoop_inv:
  assumes "ws_inv s"
  shows "ws_inv (stopLoop s)"
proof (cases "wl_running s")
  case True
  let ?t = "markStatus (\<lambda>n. n\<lparr>sn_running := False, sn_connected := False\<rparr>) (clearTimers (s\<lparr>wl_running := False\<rparr>))"
  have "under_way (?t\<lparr>wl_ws := None\<rparr>) \<le> 1"
    using assms by (simp add: ws_inv_def under_way_def ws_frame)
  then have "ws_inv (settle_loop LResolved (case wl_ws ?t of Some k \<Rightarrow> (ws_close k ?t)\<lparr>wl_ws := None\<rparr> | None \<Rightarrow> ?t))"
    by (intro inv_stopped) (auto simp: ws_frame under_way_def split: option.splits)
  with True show ?thesis by (simp add: stopLoop_def Let_def)
qed (use assms in \<open>simp add: stopLoop_def\<close>)

lemma ws_message_inv: "ws_inv s \<Longrightarrow> ws_inv (ws_message cfg k frame s)"
  by (erule ws_inv_cong[rotated 9]) (auto simp: ws_message_def ws_frame split: option.splits)

lemma ws_quiet_inv:
  assumes "ws_inv s"
  shows "ws_inv (refresh_awaited i s)" "ws_inv (ws_opened k s)" "ws_inv (ws_error k err s)" "ws_inv (poll_fires s)"
    "ws_inv (keepalive_fires s)"
  using assms
  by (auto simp: refresh_awaited_def ws_opened_def ws_error_def poll_fires_def keepalive_fires_def Let_def ws_frame
      ws_inv_def under_way_def split: option.splits)

lemma ws_step_inv:
  assumes "ws_inv s"
  shows "ws_inv (ws_step cfg r ev s)"
proof (cases ev)
  case WeHandshake
  have "ws_inv (s\<lparr>wl_handshake := None\<rparr>)" by (rule ws_inv_cong[OF _ _ _ _ _ _ _ _ _ assms]) simp_all
  with WeHandshake assms show ?thesis by (simp add: handshake_fires_def watchdog_inv split: option.splits)
next
  case WeStale
  have "ws_inv (s\<lparr>wl_stale := None\<rparr>)" by (rule ws_inv_cong[OF _ _ _ _ _ _ _ _ _ assms]) simp_all
  with WeStale assms show ?thesis by (simp add: stale_fires_def watchdog_inv split: option.splits)
next
  case (WeDrainFailed err)
  have "ws_inv (begin_revoke RDrain s)" using assms by (intro begin_revoke_inv) (auto simp: ws_inv_def)
  with WeDrainFailed assms show ?thesis by (simp add: drain_failed_def)
qed (use assms in \<open>simp_all add: token_ready_inv token_failed_inv ws_quiet_inv ws_message_inv ws_closed_inv
      reconnect_fires_inv refresh_answer_inv revoke_ended_inv stopLoop_inv\<close>)

interpretation socket: open_machine "\<lambda>(r, ev). ws_step cfg r ev" ws_inv for cfg
  by unfold_locales (auto intro: ws_step_inv)

lemma ws_run_inv: "ws_inv s \<Longrightarrow> ws_inv (ws_run cfg evs s)"
  unfolding ws_run_def by (rule socket.open_run_keeps)

lemma startWsLoop_inv: "ws_inv startWsLoop"
  unfolding startWsLoop_def
  by (rule ws_connect_inv) (simp add: ws_gap_def under_way_def MAX_AUTH_FAILURES_def)

text \<open>C27: While the loop runs exactly one thing is under way: a call of \<open>connect\<close>, the reconnect timer, a socket or
  a token refresh. So it never holds two connections and never stops reconnecting without having
  settled. It is pending as long as it runs, settled once it has stopped and every local revocation has
  ended, and it gives up before the fifth authentication failure in a row is exceeded.\<close>

theorem channel_loop_never_stalls:
  "ws_run cfg evs startWsLoop = s \<Longrightarrow>
     under_way s \<le> 1 \<and> (wl_running s \<longrightarrow> under_way s = 1 \<and> wl_promise s = LPending \<and> wl_authFailures s < 5)
     \<and> (\<not> wl_running s \<and> wl_revokes s = [] \<longrightarrow> wl_promise s \<noteq> LPending)"
  using ws_run_inv[OF startWsLoop_inv, of cfg evs] by (auto simp: ws_inv_def MAX_AUTH_FAILURES_def)

definition refused_run :: "(rat \<times> ws_event) list" where
  "refused_run = [(0, WeToken 0 True []), (0, WeOpen 1), (0, WeClose 1 4001)]"

definition default_ws :: ws_cfg where
  "default_ws = \<lparr>wc_handshakeTimeout = True, wc_staleTimeout = True, wc_polls = True\<rparr>"

theorem channel_loop_never_stalls_witness:
  "let s = ws_run default_ws refused_run startWsLoop
   in wl_running s \<and> under_way s = 1 \<and> wl_refreshes s = [1] \<and> wl_out s = [WsAuth 1] \<and> wl_promise s = LPending"
proof -
  let ?s = "ws_run default_ws refused_run startWsLoop"
  have r: "wl_running ?s" "wl_refreshes ?s = [1]" "wl_out ?s = [WsAuth 1]" by code_simp+
  from channel_loop_never_stalls[OF refl, of default_ws refused_run] r show ?thesis by (simp add: Let_def)
qed

text \<open>The reconnect delay is at least one second and at most 37.5 seconds.\<close>

lemma ws_delay_bounds:
  assumes "0 \<le> r" "r < 1"
  shows "1000 \<le> ws_delay r attempt \<and> ws_delay r attempt \<le> 37500"
proof -
  define b where "b = RECONNECT_BACKOFF ! min attempt (length RECONNECT_BACKOFF - 1)"
  have "b \<in> set RECONNECT_BACKOFF" unfolding b_def by (rule nth_mem) (simp add: RECONNECT_BACKOFF_def)
  then have b: "1000 \<le> b" "b \<le> 30000" by (auto simp: RECONNECT_BACKOFF_def)
  have "r * rat_of_nat b * (1 / 4) \<le> rat_of_nat b * (1 / 4)"
    using assms by (intro mult_right_mono mult_left_le_one_le) simp_all
  also have "\<dots> \<le> 7500" using b(2) by simp
  finally have "nat \<lfloor>r * rat_of_nat b * (1 / 4)\<rfloor> \<le> 7500" by linarith
  moreover have "ws_delay r attempt = b + nat \<lfloor>r * rat_of_nat b * (1 / 4)\<rfloor>"
    unfolding ws_delay_def Let_def b_def by (rule refl)
  ultimately show ?thesis using b by linarith
qed

section \<open>After the stop\<close>

text \<open>Outputs that make the Hub or the process do something for a loop that has stopped.\<close>

fun reconnecting :: "ws_output \<Rightarrow> bool" where
  "reconnecting (WsAuth k) = True"
| "reconnecting (WsTimer d) = True"
| "reconnecting (WsPing k) = False"
| "reconnecting WsFire = False"
| "reconnecting WsRevoke = False"

definition stays_down :: "ws_loop \<Rightarrow> ws_loop \<Rightarrow> bool" where
  "stays_down s s' \<longleftrightarrow> \<not> wl_running s' \<and> filter reconnecting (wl_out s') = filter reconnecting (wl_out s)"

lemma ws_stopped_step:
  assumes "\<not> wl_running s"
  shows "stays_down s (ws_step cfg r ev s)"
proof (cases ev)
  case (WeMessage k frame)
  then show ?thesis using assms
    by (auto simp: stays_down_def ws_message_def ws_frame split: option.splits)
next
  case (WeClose k code)
  then show ?thesis using assms by (auto simp: stays_down_def ws_closed_def Let_def ws_frame)
next
  case (WeToken i ok err)
  then show ?thesis using assms
    by (auto simp: stays_down_def token_ready_def Let_def ws_frame ws_scheduleReconnect_def)
next
  case (WeRevoked j why)
  then show ?thesis using assms
    by (auto simp: stays_down_def revoke_ended_def refresh_settled_def Let_def ws_frame ws_scheduleReconnect_def
        split: revoke_origin.splits)
qed (use assms in \<open>auto simp: stays_down_def token_failed_def begin_revoke_def ws_scheduleReconnect_def ws_frame Let_def
      refresh_awaited_def ws_opened_def ws_error_def handshake_fires_def stale_fires_def watchdog_fires_def
      reconnect_fires_def ws_connect_def poll_fires_def keepalive_fires_def refresh_answer_def refresh_settled_def
      drain_failed_def stopLoop_def split: option.splits\<close>)

text \<open>A loop that has stopped stays stopped: it sends no token and schedules no reconnect, even when a
  connection attempt was under way.\<close>

theorem stopped_loop_stays_down:
  assumes "\<not> wl_running s"
  shows "\<not> wl_running (ws_run cfg evs s) \<and> filter reconnecting (wl_out (ws_run cfg evs s)) = filter reconnecting (wl_out s)"
  using assms
proof (induction evs arbitrary: s)
  case (Cons ev evs)
  obtain r e where ev: "ev = (r, e)" by (cases ev)
  from ws_stopped_step[OF Cons.prems, of cfg r e] Cons.IH[of "ws_step cfg r e s"] show ?case
    by (simp add: ws_run_def ev stays_down_def)
qed (simp add: ws_run_def)

end
