(* ===== verification/Botcord_Blocks.thy ===== *)
theory Botcord_Blocks
  imports Botcord_Inbox
begin

text \<open>
  The blocks of a runtime as the owner chat shows them (\<open>normalizeBlockForHub\<close> and what it calls, in
  \<open>daemon/src/gateway/channels/botcord.ts\<close>): the frames of Claude Code, Codex, DeepSeek, Kimi and the
  ACP runtimes become assistant texts, tool calls, tool results and lifecycle marks.

  A frame is a parsed JSON document. \<open>JSON.parse\<close>, \<open>JSON.stringify\<close> with its indentation and the text of
  a number are the fields of \<open>blocks_env\<close>; on a parsed document \<open>JSON.stringify\<close> does not throw.
\<close>

record blocks_env =
  bk_parse :: "string \<Rightarrow> jsval option"
  bk_json :: "jsval \<Rightarrow> string"
  bk_number :: "jsnum \<Rightarrow> string"

section \<open>Values\<close>

definition nullish :: "jsval \<Rightarrow> bool" where
  "nullish v \<longleftrightarrow> v = JUndef \<or> v = JNull"

text \<open>\<open>a ?? b ?? c\<close>\<close>

fun coalesce :: "jsval list \<Rightarrow> jsval" where
  "coalesce [] = JUndef"
| "coalesce [v] = v"
| "coalesce (v # w # vs) = (if nullish v then coalesce (w # vs) else v)"

definition props :: "jsval \<Rightarrow> string list \<Rightarrow> jsval list" where
  "props v ks = map (get_prop v) ks"

text \<open>\<open>v && typeof v === "object" ? v : undefined\<close>\<close>

definition object_or_undef :: "jsval \<Rightarrow> jsval" where
  "object_or_undef v = (if is_object v then v else JUndef)"

definition stringField :: "jsval \<Rightarrow> string \<Rightarrow> string option" where
  "stringField obj key = (case get_prop obj key of JStr s \<Rightarrow> (if s \<noteq> [] then Some s else None) | _ \<Rightarrow> None)"

fun first_of :: "'a option list \<Rightarrow> 'a option" where
  "first_of [] = None"
| "first_of (Some x # xs) = Some x"
| "first_of (None # xs) = first_of xs"

definition some_or :: "'a option \<Rightarrow> 'a \<Rightarrow> 'a" where
  "some_or a b = (case a of Some x \<Rightarrow> x | None \<Rightarrow> b)"

definition isEmptyRecord :: "jsval \<Rightarrow> bool" where
  "isEmptyRecord v \<longleftrightarrow> v = JObj []"

definition parseMaybeJson :: "blocks_env \<Rightarrow> jsval \<Rightarrow> jsval" where
  "parseMaybeJson env value =
     (case value of
        JStr s \<Rightarrow>
          (let trimmed = trim s
           in if trimmed = [] then value
              else if \<not> startsWith trimmed ''{'' \<and> \<not> startsWith trimmed ''['' then value
              else case bk_parse env trimmed of Some v \<Rightarrow> v | None \<Rightarrow> value)
      | _ \<Rightarrow> value)"

fun stringifyToolResult :: "blocks_env \<Rightarrow> jsval \<Rightarrow> string" where
  "stringifyToolResult env JUndef = []"
| "stringifyToolResult env JNull = []"
| "stringifyToolResult env (JStr s) = s"
| "stringifyToolResult env (JArr xs) =
     join [newline] (filter (\<lambda>t. t \<noteq> [])
       (map (\<lambda>c. case c of
                   JStr s \<Rightarrow> s
                 | _ \<Rightarrow> (case get_prop c ''text'' of JStr s \<Rightarrow> s | _ \<Rightarrow> stringifyToolResult env c)) xs))"
| "stringifyToolResult env v = bk_json env v"

function extractContentText :: "jsval \<Rightarrow> string" where
  "extractContentText v =
     (case v of
        JStr s \<Rightarrow> s
      | JArr xs \<Rightarrow> join [newline] (filter (\<lambda>t. t \<noteq> []) (map extractContentText xs))
      | JObj ps \<Rightarrow>
          (case first_of (map as_str (props v [''text'', ''thinking'', ''content''])) of
             Some s \<Rightarrow> s
           | None \<Rightarrow>
              (case as_arr (get_prop v ''content'') of
                 Some xs \<Rightarrow> join [newline] (filter (\<lambda>t. t \<noteq> []) (map extractContentText xs))
               | None \<Rightarrow> []))
      | _ \<Rightarrow> [])"
  by pat_completeness auto
termination
proof (relation "measure size", goal_cases)
  case (2 v xs x)
  then show ?case by (simp add: size_list_estimation' less_Suc_eq_le)
next
  case (3 v ps xs x)
  then have "get_prop v ''content'' = JArr xs" by (cases "get_prop v ''content''") auto
  with 3 show ?case by (simp add: size_get_prop_arr del: jsval.size)
qed auto

declare extractContentText.simps [simp del]

section \<open>Frames of the runtimes\<close>

definition formatBlockDetails :: "blocks_env \<Rightarrow> jsval \<Rightarrow> string" where
  "formatBlockDetails env raw =
     (if \<not> is_object raw then []
      else
        let payload = get_prop raw ''payload'';
            item = get_prop payload ''item'';
            item2 = get_prop (get_prop payload ''payload'') ''item'';
            direct = some_or (first_of (map as_str
              (props raw [''text'', ''message'', ''summary'', ''label'']
               @ [get_prop payload ''delta'', get_prop item ''detail'', get_prop item ''summary'',
                  get_prop item2 ''detail'', get_prop item2 ''summary'']))) [];
            contentText = extractContentText (coalesce
              [get_prop raw ''content'', get_prop (get_prop raw ''message'') ''content'',
               get_prop (get_prop (get_prop raw ''params'') ''update'') ''content''])
        in if direct \<noteq> [] then direct
           else if contentText \<noteq> [] then contentText
           else bk_json env raw)"

definition filled :: "jsval \<Rightarrow> bool" where
  "filled v \<longleftrightarrow> v \<noteq> JUndef \<and> v \<noteq> JNull \<and> v \<noteq> JStr []"

fun copy_filled :: "jsval \<Rightarrow> string list \<Rightarrow> (string \<times> jsval) list \<Rightarrow> (string \<times> jsval) list" where
  "copy_filled v [] ps = ps"
| "copy_filled v (k # ks) ps =
     copy_filled v ks (if filled (get_prop v k) then upd_assoc ps k (get_prop v k) else ps)"

definition codexToolParams :: "jsval \<Rightarrow> jsval" where
  "codexToolParams item =
     (let ps = copy_filled item
                 [''command'', ''cmd'', ''args'', ''path'', ''query'', ''url'', ''name'', ''input'', ''arguments'',
                  ''action'', ''changes''] [];
          action = get_prop item ''action''
      in JObj (if is_object action then copy_filled action [''query'', ''url'', ''command'', ''path''] ps else ps))"

definition codexToolResult :: "blocks_env \<Rightarrow> jsval \<Rightarrow> string" where
  "codexToolResult env item =
     (let status = some_or (as_str (get_prop item ''status'')) [];
          exitCode = coalesce [get_prop item ''exit_code'', get_prop item ''exitCode''];
          exitText = (case exitCode of JNum n \<Rightarrow> [''exit_code: '' @ bk_number env n] | JStr s \<Rightarrow> [''exit_code: '' @ s] | _ \<Rightarrow> []);
          outputs = List.map_filter (\<lambda>v. case v of JStr s \<Rightarrow> (if trim s \<noteq> [] then Some (trim s) else None) | _ \<Rightarrow> None)
            (props item [''output'', ''stdout'', ''stderr'', ''aggregated_output'', ''result'', ''summary'']);
          results = (case get_prop item ''results'' of JArr (x # xs) \<Rightarrow> [bk_json env (JArr (x # xs))] | _ \<Rightarrow> [])
      in join [newline] ((if status \<noteq> [] then [''status: '' @ status] else []) @ exitText @ outputs @ results))"

definition unwrapDeepseekPayload :: "jsval \<Rightarrow> jsval" where
  "unwrapDeepseekPayload raw =
     (let payload = get_prop raw ''payload''; nested = get_prop payload ''payload''
      in if \<not> is_object payload then JUndef
         else if is_object nested \<and>
           (stringField payload ''event'' \<noteq> None
            \<or> list_ex truthy (props nested [''item'', ''tool'', ''turn'', ''kind'', ''output'', ''result'', ''error'']))
         then nested
         else payload)"

text \<open>
  \<open>inferDeepseekToolName\<close>: the longest run of name characters that is followed, after blanks, by one of
  the words of the pattern. The run may give characters back.
\<close>

definition tool_name_char :: "char \<Rightarrow> bool" where
  "tool_name_char c \<longleftrightarrow>
     (let n = (of_char c :: nat) in (65 \<le> n \<and> n \<le> 90) \<or> (97 \<le> n \<and> n \<le> 122) \<or> (48 \<le> n \<and> n \<le> 57)
        \<or> c \<in> set ''_.:-'')"

definition after_name :: "string \<Rightarrow> bool" where
  "after_name s \<longleftrightarrow> list_ex (startsWith (dropWhile is_ws s)) [''started'', ''completed'', ''failed'', ''returned'', '':'']"

definition tool_name_match :: "string \<Rightarrow> string option" where
  "tool_name_match s =
     map_option (\<lambda>n. take n s)
       (List.find (\<lambda>n. after_name (drop n s)) (rev [1..<Suc (length (takeWhile tool_name_char s))]))"

definition inferDeepseekToolName :: "jsval \<Rightarrow> string option" where
  "inferDeepseekToolName item =
     first_of (map (\<lambda>candidate. case candidate of
         Some s \<Rightarrow> (case tool_name_match s of Some n \<Rightarrow> (if n \<noteq> ''tool_call'' then Some n else None) | None \<Rightarrow> None)
       | None \<Rightarrow> None)
       [stringField item ''summary'', stringField item ''detail''])"

section \<open>Tool calls\<close>

record tool_call =
  tc_name :: string
  tc_params :: jsval
  tc_id :: "string option"
  tc_status :: "string option"

definition deepseek_event :: "jsval \<Rightarrow> string option" where
  "deepseek_event raw = first_of [stringField raw ''event'', stringField (get_prop raw ''payload'') ''event'']"

definition extractDeepseekToolCall :: "blocks_env \<Rightarrow> jsval \<Rightarrow> tool_call option" where
  "extractDeepseekToolCall env raw =
     (let payload = get_prop raw ''payload''; inner = unwrapDeepseekPayload raw
      in if \<not> is_object payload then None
         else if deepseek_event raw = Some ''tool.started''
         then
           (let tool = object_or_undef (get_prop inner ''tool'')
            in Some \<lparr>tc_name = some_or (first_of [stringField inner ''name'', stringField tool ''name'']) ''tool'',
                 tc_params = parseMaybeJson env (coalesce (props inner [''input'', ''arguments'', ''params'']
                   @ props tool [''input'', ''rawInput'', ''arguments'', ''params''])),
                 tc_id = first_of [stringField inner ''id'', stringField tool ''id''],
                 tc_status = first_of [stringField inner ''status'', stringField tool ''status'']\<rparr>)
         else if deepseek_event raw = Some ''item.started''
         then
           (let item = object_or_undef (get_prop inner ''item'');
                tool = (if is_object (get_prop inner ''tool'') then get_prop inner ''tool'' else get_prop item ''tool'');
                metadata = object_or_undef (get_prop item ''metadata'');
                command = coalesce (props metadata [''command'', ''cmd'']);
                metadataCommand =
                  (if truthy command
                   then JObj [(if truthy (get_prop metadata ''command'') then ''command'' else ''cmd'', command)] else JUndef);
                itemInputs = props item [''input'', ''arguments'', ''params''];
                metaInputs = props metadata [''input'', ''arguments'', ''params''] @ [metadataCommand];
                itemParams = parseMaybeJson env (coalesce (itemInputs @ metaInputs @ [get_prop item ''detail'']));
                detailParams =
                  (if itemParams \<noteq> JUndef then itemParams
                   else case get_prop item ''detail'' of
                     JStr d \<Rightarrow> (if trim d \<noteq> [] then JStr (trim d) else JUndef)
                   | _ \<Rightarrow> JUndef)
            in Some \<lparr>tc_name = some_or (first_of [stringField tool ''name'', stringField inner ''name'', stringField item ''name'',
                     inferDeepseekToolName item, stringField item ''type'']) ''tool'',
                 tc_params = coalesce [parseMaybeJson env (coalesce (props tool [''input'', ''rawInput'', ''arguments'', ''params'']
                     @ props inner [''input'', ''arguments'', ''params''] @ itemInputs @ metaInputs)),
                     detailParams, tool, item],
                 tc_id = first_of [stringField tool ''id'', stringField inner ''id'', stringField item ''id'',
                     stringField payload ''item_id''],
                 tc_status = first_of [stringField tool ''status'', stringField inner ''status'', stringField item ''status'']\<rparr>)
         else None)"

definition contents_of :: "jsval \<Rightarrow> jsval list" where
  "contents_of raw = some_or (as_arr (get_prop (get_prop raw ''message'') ''content'')) []"

definition acp_update :: "jsval \<Rightarrow> jsval" where
  "acp_update raw = coalesce [get_prop (get_prop raw ''params'') ''update'', get_prop raw ''update'']"

definition acp_tool :: "jsval \<Rightarrow> jsval" where
  "acp_tool raw = coalesce (props (acp_update raw) [''toolCall'', ''tool_call'', ''tool''])"

definition extractToolCall :: "blocks_env \<Rightarrow> jsval \<Rightarrow> tool_call option" where
  "extractToolCall env raw =
     (case List.find (\<lambda>c. get_prop c ''type'' = JStr ''tool_use'') (contents_of raw) of
        Some tu \<Rightarrow> Some \<lparr>tc_name = some_or (stringField tu ''name'') ''tool'',
            tc_params = parseMaybeJson env (coalesce (props tu [''input'', ''arguments''])),
            tc_id = stringField tu ''id'', tc_status = None\<rparr>
      | None \<Rightarrow>
     (case extractDeepseekToolCall env raw of
        Some call \<Rightarrow> Some call
      | None \<Rightarrow>
     (let item = get_prop raw ''item'' in
      if is_object item
      then Some \<lparr>tc_name = some_or (first_of [stringField item ''type'', stringField item ''name'']) ''tool'',
             tc_params = codexToolParams item, tc_id = stringField item ''id'', tc_status = stringField item ''status''\<rparr>
      else
     (case List.find is_object (some_or (as_arr (get_prop raw ''tool_calls'')) []) of
        Some toolCall \<Rightarrow>
          (let fn = object_or_undef (get_prop toolCall ''function'')
           in Some \<lparr>tc_name = some_or (first_of [stringField fn ''name'', stringField toolCall ''name'']) ''tool'',
                tc_params = parseMaybeJson env
                  (coalesce (get_prop fn ''arguments'' # props toolCall [''arguments'', ''input'', ''rawInput''])),
                tc_id = stringField toolCall ''id'', tc_status = None\<rparr>)
      | None \<Rightarrow>
     (let update = acp_update raw; acpTool = acp_tool raw in
      if is_object acpTool
      then Some \<lparr>tc_name = some_or (first_of [stringField acpTool ''name'', stringField update ''name'']) ''tool'',
             tc_params = coalesce [parseMaybeJson env
                 (coalesce (props acpTool [''rawInput'', ''raw_input'', ''input'', ''arguments'', ''args'', ''params''])), acpTool],
             tc_id = first_of [stringField acpTool ''id'', stringField update ''toolCallId''], tc_status = None\<rparr>
      else None)))))"

section \<open>Tool results\<close>

record tool_result =
  tr_name :: "string option"
  tr_result :: string
  tr_id :: "string option"

definition extractDeepseekToolResult :: "blocks_env \<Rightarrow> jsval \<Rightarrow> tool_result option" where
  "extractDeepseekToolResult env raw =
     (let payload = get_prop raw ''payload''; inner = unwrapDeepseekPayload raw
      in if \<not> is_object payload then None
         else if deepseek_event raw = Some ''tool.completed''
         then Some \<lparr>tr_name = stringField inner ''name'',
                tr_result = stringifyToolResult env
                  (coalesce (props inner [''output'', ''result'', ''content'', ''error''] @ [inner, payload])),
                tr_id = stringField inner ''id''\<rparr>
         else if deepseek_event raw = Some ''item.completed'' \<or> deepseek_event raw = Some ''item.failed''
         then
           (let item = object_or_undef (get_prop inner ''item'')
            in Some \<lparr>tr_name = first_of [stringField item ''name'', inferDeepseekToolName item, stringField inner ''name'',
                     stringField item ''type''],
                 tr_result = stringifyToolResult env
                   (coalesce (props item [''output'', ''result'', ''content'', ''detail'', ''summary'', ''error'']
                     @ props inner [''output'', ''result'', ''error''] @ [item, inner])),
                 tr_id = first_of [stringField item ''id'', stringField inner ''id'', stringField payload ''item_id'']\<rparr>)
         else None)"

definition extractToolResult :: "blocks_env \<Rightarrow> jsval \<Rightarrow> tool_result option" where
  "extractToolResult env raw =
     (case List.find (\<lambda>c. get_prop c ''type'' = JStr ''tool_result'') (contents_of raw) of
        Some tr \<Rightarrow> Some \<lparr>tr_name = None, tr_result = stringifyToolResult env (get_prop tr ''content''),
            tr_id = stringField tr ''tool_use_id''\<rparr>
      | None \<Rightarrow>
     (case extractDeepseekToolResult env raw of
        Some res \<Rightarrow> Some res
      | None \<Rightarrow>
     (let item = get_prop raw ''item'' in
      if is_object item
      then
        (let result = codexToolResult env item
         in Some \<lparr>tr_name = first_of [stringField item ''type'', stringField item ''name''],
              tr_result = (if result \<noteq> [] then result else stringifyToolResult env item), tr_id = stringField item ''id''\<rparr>)
      else if get_prop raw ''role'' = JStr ''tool''
      then Some \<lparr>tr_name = None, tr_result = stringifyToolResult env (get_prop raw ''content''),
             tr_id = stringField raw ''tool_call_id''\<rparr>
      else
     (let update = acp_update raw; acpTool = acp_tool raw in
      if is_object acpTool
      then Some \<lparr>tr_name = first_of [stringField acpTool ''name'', stringField update ''name''],
             tr_result = stringifyToolResult env
               (coalesce (props acpTool [''output'', ''result'', ''content'', ''error''] @ [get_prop update ''content'', update])),
             tr_id = first_of [stringField acpTool ''id'', stringField update ''toolCallId'']\<rparr>
      else None))))"

section \<open>The block of the Hub\<close>

record hub_block =
  hb_kind :: string
  hb_seq :: jsnum
  hb_payload :: "(string \<times> jsval) list"
  hb_raw :: "jsval option"

definition isTerminalRuntimeBlock :: "jsval \<Rightarrow> bool" where
  "isTerminalRuntimeBlock raw \<longleftrightarrow>
     (case first_of [as_str (get_prop raw ''event''), as_str (get_prop (get_prop raw ''payload'') ''event'')] of
        Some e \<Rightarrow> e \<in> set [''turn.completed'', ''turn.finished'', ''turn.done'', ''done'']
      | None \<Rightarrow> False)"

text \<open>The text of an assistant block: the text parts of Claude Code, else the item of Codex, else the
  deltas of DeepSeek.\<close>

definition claude_text :: "jsval \<Rightarrow> string" where
  "claude_text raw =
     concat (map (\<lambda>c. if get_prop c ''type'' = JStr ''text'' then some_or (as_str (get_prop c ''text'')) [] else [])
       (contents_of raw))"

definition assistant_text :: "jsval \<Rightarrow> string" where
  "assistant_text raw =
     (let payload = get_prop raw ''payload'';
          t1 = claude_text raw;
          t2 = (if t1 = [] then some_or (as_str (get_prop (get_prop raw ''item'') ''text'')) [] else t1);
          t3 = (if t2 = [] \<and> get_prop raw ''event'' = JStr ''message.delta''
                then some_or (as_str (get_prop payload ''content'')) [] else t2)
      in if t3 = [] \<and> get_prop raw ''event'' = JStr ''item.delta''
             \<and> (get_prop payload ''kind'' = JStr ''agent_message''
                \<or> get_prop (get_prop payload ''payload'') ''kind'' = JStr ''agent_message'')
         then some_or (first_of [as_str (get_prop payload ''delta''),
                as_str (get_prop (get_prop payload ''payload'') ''delta'')]) []
         else t3)"

definition copy_strings :: "jsval \<Rightarrow> string list \<Rightarrow> (string \<times> jsval) list" where
  "copy_strings raw ks =
     List.map_filter (\<lambda>k. map_option (\<lambda>s. (k, JStr s)) (as_str (get_prop raw k))) ks"

definition opt_prop :: "string \<Rightarrow> string option \<Rightarrow> (string \<times> jsval) list" where
  "opt_prop k v = (case v of Some s \<Rightarrow> [(k, JStr s)] | None \<Rightarrow> [])"

definition call_payload :: "tool_call option \<Rightarrow> (string \<times> jsval) list" where
  "call_payload call =
     (case call of
        None \<Rightarrow> []
      | Some c \<Rightarrow> [(''name'', JStr (tc_name c))]
          @ (if tc_params c \<noteq> JUndef \<and> \<not> isEmptyRecord (tc_params c) then [(''params'', tc_params c)] else [])
          @ opt_prop ''id'' (tc_id c) @ opt_prop ''status'' (tc_status c))"

definition result_payload :: "tool_result option \<Rightarrow> (string \<times> jsval) list" where
  "result_payload res =
     (case res of
        None \<Rightarrow> []
      | Some r \<Rightarrow> opt_prop ''name'' (tr_name r) @ [(''result'', JStr (tr_result r))] @ opt_prop ''tool_use_id'' (tr_id r))"

definition other_payload :: "blocks_env \<Rightarrow> jsval \<Rightarrow> (string \<times> jsval) list" where
  "other_payload env raw =
     (if isTerminalRuntimeBlock raw
      then
        (let event = as_str (get_prop raw ''event'');
             embedded = as_str (get_prop (get_prop raw ''payload'') ''event'')
         in [(''terminal'', JBool True), (''details'', JStr (formatBlockDetails env raw))]
            @ (if some_or event [] \<noteq> [] \<or> some_or embedded [] \<noteq> []
               then [(''event'', JStr (some_or (first_of [event, embedded]) []))] else []))
      else if get_prop raw ''type'' = JStr ''result''
      then
        (case get_prop raw ''result'' of JStr s \<Rightarrow> [(''text'', JStr s)] | _ \<Rightarrow> [])
        @ copy_strings raw [''subtype'']
        @ (case get_prop raw ''total_cost_usd'' of JNum n \<Rightarrow> [(''total_cost_usd'', JNum n)] | _ \<Rightarrow> [])
      else [])"

definition normalizeBlockForHub :: "blocks_env \<Rightarrow> jsval \<Rightarrow> jsnum \<Rightarrow> hub_block" where
  "normalizeBlockForHub env block sq =
     (let raw = coalesce [get_prop block ''raw'', JObj []];
          kind = some_or (str_field block ''kind'') ''other'';
          carried = (case block of JObj ps \<Rightarrow> map_of ps ''raw'' | _ \<Rightarrow> None)
      in if kind = ''assistant_text''
         then \<lparr>hb_kind = ''assistant'', hb_seq = sq, hb_payload = [(''text'', JStr (assistant_text raw))], hb_raw = None\<rparr>
         else if kind = ''tool_use''
         then \<lparr>hb_kind = ''tool_call'', hb_seq = sq, hb_payload = call_payload (extractToolCall env raw), hb_raw = carried\<rparr>
         else if kind = ''tool_result''
         then \<lparr>hb_kind = ''tool_result'', hb_seq = sq, hb_payload = result_payload (extractToolResult env raw), hb_raw = carried\<rparr>
         else if kind = ''system''
         then \<lparr>hb_kind = ''system'', hb_seq = sq,
                hb_payload = copy_strings raw [''subtype'', ''session_id'', ''model''] @ [(''details'', JStr (formatBlockDetails env raw))],
                hb_raw = carried\<rparr>
         else if kind = ''thinking''
         then \<lparr>hb_kind = ''thinking'', hb_seq = sq,
                hb_payload = copy_strings raw [''phase'', ''label'', ''source''] @ [(''details'', JStr (formatBlockDetails env raw))],
                hb_raw = carried\<rparr>
         else \<lparr>hb_kind = ''other'', hb_seq = sq, hb_payload = other_payload env raw, hb_raw = carried\<rparr>)"

text \<open>\<open>streamBlock\<close>: the body of the request.\<close>

definition streamBlock :: "blocks_env \<Rightarrow> string \<Rightarrow> jsval \<Rightarrow> string \<times> jsnum \<times> hub_block" where
  "streamBlock env traceId block =
     (let sq = (case get_prop block ''seq'' of JNum n \<Rightarrow> n | _ \<Rightarrow> Fin 0)
      in (traceId, sq, normalizeBlockForHub env block sq))"

section \<open>What the owner chat can rely on\<close>

lemma keys_copy_strings: "map fst (copy_strings raw ks) = filter (\<lambda>k. as_str (get_prop raw k) \<noteq> None) ks"
  by (induction ks) (auto simp: copy_strings_def List.map_filter_simps split: option.splits)

lemma distinct_keys_snoc:
  "distinct ks \<Longrightarrow> k \<notin> set ks \<Longrightarrow> distinct (map fst (copy_strings raw ks @ [(k, v)]))"
  by (simp add: keys_copy_strings)

lemma distinct_call: "distinct (map fst (call_payload call))"
  by (auto simp: call_payload_def opt_prop_def split: option.splits)

lemma distinct_result: "distinct (map fst (result_payload res))"
  by (auto simp: result_payload_def opt_prop_def split: option.splits)

lemma distinct_other: "distinct (map fst (other_payload env raw))"
  by (auto simp: other_payload_def Let_def keys_copy_strings split: jsval.splits)

definition hub_kinds :: "string list" where
  "hub_kinds = [''assistant'', ''tool_call'', ''tool_result'', ''system'', ''thinking'', ''other'']"


lemma stringField_nonempty: "stringField v k = Some s \<Longrightarrow> s \<noteq> []"
  by (auto simp: stringField_def split: jsval.splits if_splits)

lemma first_of_in: "first_of xs = Some x \<Longrightarrow> Some x \<in> set xs"
  by (induction xs rule: first_of.induct) auto

lemma tool_name_match_shape:
  assumes "tool_name_match s = Some n"
  shows "n \<noteq> [] \<and> list_all tool_name_char n \<and> (\<exists>rest. s = n @ rest \<and> after_name rest)"
proof -
  from assms obtain k where k: "List.find (\<lambda>n. after_name (drop n s)) (rev [1..<Suc (length (takeWhile tool_name_char s))]) = Some k"
    and n: "n = take k s" by (auto simp: tool_name_match_def)
  then have r: "after_name (drop k s)" "k \<in> {1..<Suc (length (takeWhile tool_name_char s))}"
    using find_SomeD[OF k] by auto
  have "take k s = take k (takeWhile tool_name_char s)"
    using r(2) takeWhile_eq_take[of tool_name_char s] by (metis atLeastLessThan_iff less_Suc_eq_le min.absorb1 take_take)
  then have "list_all tool_name_char n" using set_takeWhileD n by (fastforce simp: list_all_iff dest: in_set_takeD)
  moreover have "s \<noteq> []" using r(2) by auto
  ultimately show ?thesis using r n by (auto intro: exI[of _ "drop k s"])
qed

lemma field_not_blank [simp]: "stringField v k \<noteq> Some []"
  using stringField_nonempty by blast

lemma inferred_not_blank [simp]: "inferDeepseekToolName item \<noteq> Some []"
proof
  assume "inferDeepseekToolName item = Some []"
  then show False unfolding inferDeepseekToolName_def
    by (auto dest!: first_of_in tool_name_match_shape split: option.splits if_splits)
qed

lemma not_blank_flipped [simp]: "Some [] \<noteq> stringField v k" "Some [] \<noteq> inferDeepseekToolName item"
  using field_not_blank[of v k] inferred_not_blank[of item] by (metis, metis)

lemma some_or_not_blank: "Some [] \<notin> set xs \<Longrightarrow> some_or (first_of xs) ''tool'' \<noteq> []"
  using first_of_in[of xs] by (fastforce simp: some_or_def split: option.splits)

lemma some_or_field: "some_or (stringField v k) ''tool'' \<noteq> []"
  by (simp add: some_or_def split: option.splits) (metis field_not_blank)

lemmas named_simps = some_or_not_blank some_or_field
lemmas keep_folded = coalesce.simps first_of.simps

lemma deepseek_call_named:
  assumes "extractDeepseekToolCall env raw = Some call"
  shows "tc_name call \<noteq> []"
proof -
  from assms have p: "is_object (get_prop raw ''payload'')"
    by (cases "is_object (get_prop raw ''payload'')") (simp_all add: extractDeepseekToolCall_def Let_def del: keep_folded)
  show ?thesis
  proof (cases "deepseek_event raw = Some ''tool.started''")
    case True
    with assms p show ?thesis
      by (auto simp: extractDeepseekToolCall_def Let_def named_simps simp del: keep_folded)
  next
    case False
    with assms p have "deepseek_event raw = Some ''item.started''"
      by (cases "deepseek_event raw = Some ''item.started''")
         (simp_all add: extractDeepseekToolCall_def Let_def del: keep_folded)
    with assms p show ?thesis
      by (auto simp: extractDeepseekToolCall_def Let_def named_simps simp del: keep_folded)
  qed
qed

text \<open>A tool call that is recognized is never shown without a name.\<close>

theorem tool_call_named:
  assumes "extractToolCall env raw = Some call"
  shows "tc_name call \<noteq> []"
  using assms deepseek_call_named
  by (auto simp: extractToolCall_def Let_def named_simps simp del: keep_folded split: option.splits if_splits)

text \<open>The parameters shown for a Codex item hold no empty field.\<close>

definition filled_fields :: "(string \<times> jsval) list \<Rightarrow> bool" where
  "filled_fields ps \<longleftrightarrow> distinct (map fst ps) \<and> (\<forall>p \<in> set ps. filled (snd p))"

lemma filled_upd: "filled_fields ps \<Longrightarrow> filled v \<Longrightarrow> filled_fields (upd_assoc ps k v)"
  unfolding filled_fields_def using distinct_upd_assoc[of ps k v] set_upd_assoc_distinct[of ps k v] by auto

lemma copy_filled_filled: "filled_fields ps \<Longrightarrow> filled_fields (copy_filled v ks ps)"
  by (induction v ks ps rule: copy_filled.induct) (simp_all add: filled_upd)

theorem codex_params_filled: "\<exists>ps. codexToolParams item = JObj ps \<and> filled_fields ps"
proof -
  have "filled_fields []" by (simp add: filled_fields_def)
  from copy_filled_filled[OF this] have "filled_fields (copy_filled item ks [])" for ks .
  with copy_filled_filled show ?thesis by (simp add: codexToolParams_def Let_def del: copy_filled.simps)
qed

text \<open>A frame of no known kind ends the compact view exactly when it marks the end of a turn.\<close>

lemma terminal_flag_iff:
  "(''terminal'', JBool True) \<in> set (other_payload env raw) \<longleftrightarrow> isTerminalRuntimeBlock raw"
  by (auto simp: other_payload_def Let_def copy_strings_def set_map_filter split: jsval.splits option.splits)

end
