(* ===== verification/Botcord_Outbound.thy ===== *)
theory Botcord_Outbound
  imports Botcord_Socket
begin

text \<open>
  The calls the gateway makes through the BotCord channel (\<open>daemon/src/gateway/channels/botcord.ts\<close>):
  control requests that refresh a refused token once, the retries of response runs and status
  reactions, the upload of attachments and the sending of a message.

  The answers of the Hub are the fields of \<open>hub_world\<close>: the token of \<open>ensureToken\<close>, the answer to the
  request of an attempt with a token, and the answer of \<open>refreshToken\<close>. A request that throws has no
  status. The requests made are returned beside the result.
\<close>

section \<open>Control requests\<close>

record hub_world =
  hw_ensure :: "hub_error + string"
  hw_fetch :: "nat \<Rightarrow> string \<Rightarrow> hub_error + int"
  hw_refresh :: "string \<Rightarrow> hub_error + string"

datatype control_call = CFetch string | CRefreshToken string | CRevoke

text \<open>
  What the callback for a refused credential does (\<open>revokeOutboundTerminalCredentials\<close>): the loop is
  stopped and the local binding revoked when the error is terminal. A call without the callback, as that
  of \<open>responseRun\<close>, does nothing.
\<close>

definition on_refused :: "bool \<Rightarrow> hub_error \<Rightarrow> control_call list" where
  "on_refused revokes err = (if revokes \<and> isTerminalAgentCredentialError err then [CRevoke] else [])"

definition postControlWithRefresh :: "bool \<Rightarrow> hub_world \<Rightarrow> control_call list \<times> (hub_error + int)" where
  "postControlWithRefresh revokes w =
     (case hw_ensure w of
        Inl err \<Rightarrow> (on_refused revokes err, Inl err)
      | Inr token \<Rightarrow>
          (case hw_fetch w 0 token of
             Inl err \<Rightarrow> ([CFetch token], Inl err)
           | Inr status \<Rightarrow>
               if status \<noteq> 401 then ([CFetch token], Inr status)
               else (case hw_refresh w token of
                  Inl err \<Rightarrow> ([CFetch token, CRefreshToken token] @ on_refused revokes err, Inl err)
                | Inr token2 \<Rightarrow> ([CFetch token, CRefreshToken token, CFetch token2], hw_fetch w 1 token2))))"

definition fetches :: "control_call list \<Rightarrow> string list" where
  "fetches cs = List.map_filter (\<lambda>c. case c of CFetch t \<Rightarrow> Some t | _ \<Rightarrow> None) cs"

text \<open>A control request is sent at most twice, the second time only after the first was refused with 401 and
  with the token that was refreshed for it; the answer of the second is final.\<close>

theorem control_request_refreshes_once:
  assumes "hw_ensure w = Inr token" and "postControlWithRefresh revokes w = (calls, res)"
  shows "fetches calls = [token] \<and> (hw_fetch w 0 token = Inr 401 \<longrightarrow> (\<exists>err. hw_refresh w token = Inl err \<and> res = Inl err))
       \<or> (\<exists>token2. hw_fetch w 0 token = Inr 401 \<and> hw_refresh w token = Inr token2
            \<and> fetches calls = [token, token2] \<and> res = hw_fetch w 1 token2)"
  using assms
  by (auto simp: postControlWithRefresh_def fetches_def on_refused_def List.map_filter_simps
      split: sum.splits if_splits)

section \<open>Response runs\<close>

datatype stored_result = RunStored | RunFailed string

definition http_ok :: "int \<Rightarrow> bool" where
  "http_ok status \<longleftrightarrow> 200 \<le> status \<and> status \<le> 299"

text \<open>\<open>responseRun\<close>: an attempt per world. The error of an attempt is thrown at once when it is the last
  or when its text says that the request was rejected.\<close>

fun response_attempts :: "nat \<Rightarrow> hub_world list \<Rightarrow> nat \<times> stored_result" where
  "response_attempts n [] = (n, RunStored)"
| "response_attempts n (w # ws) =
     (case snd (postControlWithRefresh False w) of
        Inr status \<Rightarrow>
          if http_ok status then (Suc n, RunStored)
          else if status < 500 then (Suc n, RunFailed (''Response protocol rejected ('' @ int_str status @ '')''))
          else if ws = [] then (Suc n, RunFailed (''Response protocol unavailable ('' @ int_str status @ '')''))
          else response_attempts (Suc n) ws
      | Inl err \<Rightarrow>
          if ws = [] \<or> includes_str (he_message err) ''rejected'' then (Suc n, RunFailed (he_message err))
          else response_attempts (Suc n) ws)"

definition responseRun :: "hub_world \<Rightarrow> hub_world \<Rightarrow> hub_world \<Rightarrow> nat \<times> stored_result" where
  "responseRun w1 w2 w3 = response_attempts 0 [w1, w2, w3]"

text \<open>An attempt that leaves the outcome open: the Hub failed, or the request got no answer.\<close>

definition retryable :: "hub_world \<Rightarrow> bool" where
  "retryable w \<longleftrightarrow>
     (case snd (postControlWithRefresh False w) of
        Inr status \<Rightarrow> \<not> http_ok status \<and> status \<ge> 500
      | Inl err \<Rightarrow> \<not> includes_str (he_message err) ''rejected'')"

definition stored :: "hub_world \<Rightarrow> bool" where
  "stored w \<longleftrightarrow> (case snd (postControlWithRefresh False w) of Inr status \<Rightarrow> http_ok status | Inl err \<Rightarrow> False)"

lemma attempt_cases:
  "response_attempts n (w # ws) =
     (if stored w then (Suc n, RunStored)
      else if retryable w \<and> ws \<noteq> [] then response_attempts (Suc n) ws
      else (Suc n, snd (response_attempts n [w])))"
  by (auto simp: stored_def retryable_def split: sum.splits)

text \<open>A decision about a message is stored exactly when one of three attempts is accepted and every attempt
  before it left the outcome open.\<close>

theorem response_run_stored_iff:
  "snd (responseRun w1 w2 w3) = RunStored \<longleftrightarrow>
     stored w1 \<or> (retryable w1 \<and> (stored w2 \<or> (retryable w2 \<and> stored w3)))"
proof -
  have one: "snd (response_attempts n [w]) = RunStored \<longleftrightarrow> stored w" for n w
    by (auto simp: stored_def split: sum.splits)
  have more_left: "snd (response_attempts n (w # v # ws)) = RunStored \<longleftrightarrow>
      stored w \<or> (retryable w \<and> snd (response_attempts (Suc n) (v # ws)) = RunStored)" for n w v ws
    using attempt_cases[of n w "v # ws"] one[of n w] by (auto simp del: response_attempts.simps)
  show ?thesis unfolding responseRun_def by (simp only: more_left one)
qed

section \<open>Status reactions\<close>

datatype status_phase = PhaseStarted | PhaseCleared

fun status_attempts :: "hub_world list \<Rightarrow> nat" where
  "status_attempts [] = 0"
| "status_attempts (w # ws) =
     (case snd (postControlWithRefresh True w) of
        Inr status \<Rightarrow>
          if http_ok status then 1 else if 400 \<le> status \<and> status < 500 then 1 else Suc (status_attempts ws)
      | Inl err \<Rightarrow> Suc (status_attempts ws))"

text \<open>\<open>messageStatus\<close>: the number of requests made; a clear has a second try.\<close>

definition messageStatus :: "status_phase \<Rightarrow> hub_world \<Rightarrow> hub_world \<Rightarrow> nat" where
  "messageStatus phase w1 w2 = status_attempts (if phase = PhaseCleared then [w1, w2] else [w1])"

section \<open>Attachments\<close>

record out_attachment =
  oa_filePath :: "string option"
  oa_filename :: "string option"
  oa_contentType :: "string option"
  oa_sourcePath :: "string option"

record uploaded_file =
  uf_original_filename :: string
  uf_url :: string
  uf_content_type :: "string option"
  uf_size_bytes :: "rat option"

text \<open>The upload of a file: the client may lack the operation, and it may fail.\<close>

type_synonym uploader = "(string \<Rightarrow> string \<Rightarrow> string option \<Rightarrow> uploaded_file option) option"

definition basename :: "string \<Rightarrow> string" where
  "basename path = (case filter (\<lambda>p. p \<noteq> []) (split_on CHR ''/'' path) of [] \<Rightarrow> [] | parts \<Rightarrow> List.last parts)"

fun upload_each ::
  "(string \<Rightarrow> string \<Rightarrow> string option \<Rightarrow> uploaded_file option) \<Rightarrow> out_attachment list
    \<Rightarrow> uploaded_file list \<times> (string \<times> string) list" where
  "upload_each up [] = ([], [])"
| "upload_each up (a # as) =
     (let (files, repls) = upload_each up as
      in case oa_filePath a of
           None \<Rightarrow> (files, repls)
         | Some path \<Rightarrow>
             if path = [] then (files, repls)
             else (case up path (case oa_filename a of Some n \<Rightarrow> n | None \<Rightarrow> basename path) (oa_contentType a) of
                None \<Rightarrow> (files, repls)
              | Some f \<Rightarrow>
                  (f\<lparr>uf_content_type := (case uf_content_type f of Some t \<Rightarrow> (if t \<noteq> [] then Some t else None) | None \<Rightarrow> None)\<rparr> # files,
                   (case oa_sourcePath a of Some p \<Rightarrow> (if p \<noteq> [] then [(p, uf_url f)] else []) | None \<Rightarrow> []) @ repls)))"

definition uploadOutboundAttachments ::
  "uploader \<Rightarrow> out_attachment list \<Rightarrow> uploaded_file list \<times> (string \<times> string) list" where
  "uploadOutboundAttachments up as = (case up of None \<Rightarrow> ([], []) | Some f \<Rightarrow> upload_each f as)"

text \<open>
  \<open>String.replaceAll\<close> with a string: the occurrences from left to right that do not overlap. The
  replacement is a template, in which a dollar sign with one of \<open>$\<close>, \<open>&\<close>, a backquote or a quote stands
  for itself, the match, the text before it or the text after it.
\<close>

fun expand_template :: "string \<Rightarrow> string \<Rightarrow> string \<Rightarrow> string \<Rightarrow> string" where
  "expand_template before m after [] = []"
| "expand_template before m after [c] = [c]"
| "expand_template before m after (c # d # cs) =
     (if c \<noteq> CHR ''$'' then c # expand_template before m after (d # cs)
      else if d = CHR ''$'' then CHR ''$'' # expand_template before m after cs
      else if d = CHR ''&'' then m @ expand_template before m after cs
      else if d = CHR 0x60 then before @ expand_template before m after cs
      else if d = CHR 0x27 then after @ expand_template before m after cs
      else c # expand_template before m after (d # cs))"

fun replace_from :: "string \<Rightarrow> string \<Rightarrow> string \<Rightarrow> nat \<Rightarrow> string \<Rightarrow> string" where
  "replace_from needle repl before skip [] = []"
| "replace_from needle repl before (Suc n) (c # cs) = replace_from needle repl (before @ [c]) n cs"
| "replace_from needle repl before 0 (c # cs) =
     (if startsWith (c # cs) needle
      then expand_template before needle (drop (length needle) (c # cs)) repl
             @ replace_from needle repl (before @ [c]) (length needle - 1) cs
      else c # replace_from needle repl (before @ [c]) 0 cs)"

definition replaceAll :: "string \<Rightarrow> string \<Rightarrow> string \<Rightarrow> string" where
  "replaceAll s needle repl = replace_from needle repl [] 0 s"

fun rewriteUploadedAttachmentPaths :: "string \<Rightarrow> (string \<times> string) list \<Rightarrow> string" where
  "rewriteUploadedAttachmentPaths out [] = out"
| "rewriteUploadedAttachmentPaths out ((sourcePath, url) # rs) =
     rewriteUploadedAttachmentPaths (if sourcePath = [] \<or> url = [] then out else replaceAll out sourcePath url) rs"

lemma replace_absent: "\<not> includes_str s needle \<Longrightarrow> replace_from needle repl before 0 s = s"
  by (induction s arbitrary: before) (auto simp: includes_str_iff startsWith_iff Cons_eq_append_conv)

text \<open>A text that mentions none of the paths is sent as it is.\<close>

theorem unmentioned_paths_keep_text:
  assumes "\<forall>(p, u) \<in> set rs. \<not> includes_str text1 p"
  shows "rewriteUploadedAttachmentPaths text1 rs = text1"
  using assms by (induction text1 rs rule: rewriteUploadedAttachmentPaths.induct) (auto simp: replaceAll_def replace_absent)

text \<open>The paths are replaced one after the other in the text as it has become: a path that begins another one
  spoils the other's occurrences.\<close>

theorem prefix_path_spoils_other:
  "rewriteUploadedAttachmentPaths ''see /a/b.png'' [(''/a/b'', ''u1''), (''/a/b.png'', ''u2'')] = ''see u1.png''"
  by code_simp

text \<open>An upload never stops a message: every file that cannot be uploaded is left out, and the others keep their
  order.\<close>

theorem uploads_are_best_effort:
  "map uf_url (fst (uploadOutboundAttachments (Some up) as)) =
     List.map_filter (\<lambda>a. case oa_filePath a of
        None \<Rightarrow> None
      | Some path \<Rightarrow> if path = [] then None
          else map_option uf_url (up path (case oa_filename a of Some n \<Rightarrow> n | None \<Rightarrow> basename path) (oa_contentType a))) as"
  by (induction as)
     (auto simp: uploadOutboundAttachments_def List.map_filter_simps Let_def split: option.splits prod.splits)

section \<open>Sending a message\<close>

record out_message =
  om_isError :: bool
  om_conversationId :: string
  om_text :: string
  om_attachments :: "out_attachment list"
  om_response :: "jsval option"
  om_messageId :: "string option"
  om_replyTo :: "string option"
  om_threadId :: "string option"
  om_errorRef :: "string option"
  om_traceId :: "string option"

record send_options =
  so_response :: "jsval option"
  so_messageId :: "string option"
  so_replyTo :: "string option"
  so_topic :: "string option"
  so_errorRef :: "string option"
  so_traceId :: "string option"
  so_attachments :: "uploaded_file list option"

datatype hub_send = SendTyped string string send_options | SendMessage string string send_options

definition nonempty :: "string option \<Rightarrow> string option" where
  "nonempty s = (case s of Some t \<Rightarrow> (if t \<noteq> [] then Some t else None) | None \<Rightarrow> None)"

definition make_send :: "uploader \<Rightarrow> bool \<Rightarrow> out_message \<Rightarrow> hub_send" where
  "make_send up typed m =
     (let (files, repls) = uploadOutboundAttachments up (om_attachments m);
          opts = \<lparr>so_response = (if om_isError m then None else om_response m), so_messageId = nonempty (om_messageId m),
             so_replyTo = nonempty (om_replyTo m), so_topic = nonempty (om_threadId m), so_errorRef = nonempty (om_errorRef m),
             so_traceId = nonempty (om_traceId m), so_attachments = (if files = [] then None else Some files)\<rparr>;
          txt = rewriteUploadedAttachmentPaths (om_text m) repls
      in if om_isError m \<and> typed then SendTyped (om_conversationId m) txt opts else SendMessage (om_conversationId m) txt opts)"

text \<open>\<open>send\<close>: the id the Hub gave, or the error after a terminal one has revoked the binding.\<close>

definition channel_send ::
  "uploader \<Rightarrow> bool \<Rightarrow> (hub_send \<Rightarrow> hub_error + jsval) \<Rightarrow> out_message \<Rightarrow> control_call list \<times> (hub_error + string option)" where
  "channel_send up typed hub m =
     (case hub (make_send up typed m) of
        Inl err \<Rightarrow> (on_refused True err, Inl err)
      | Inr resp \<Rightarrow>
          ([], Inr (case nonempty (str_field resp ''hub_msg_id'') of
             Some i \<Rightarrow> Some i
           | None \<Rightarrow> str_field resp ''message_id'')))"

text \<open>An error reply never carries a response decision, whatever the caller put in it.\<close>

theorem error_reply_has_no_response:
  "om_isError m \<Longrightarrow>
     (case make_send up typed m of SendTyped c t opts \<Rightarrow> so_response opts | SendMessage c t opts \<Rightarrow> so_response opts) = None"
  by (simp add: make_send_def Let_def split: prod.splits)

end
