(* ===== verification/Hub_Client.thy ===== *)
theory Hub_Client
  imports Botcord_Blocks
begin

text \<open>
  The client of the Hub (\<open>protocol-core/src/client.ts\<close>), its stored credentials (\<open>credentials.ts\<close>) and the
  check of the Hub's address (\<open>hub-url.ts\<close>): which credentials are accepted, how the clients of one
  agent share a token and its refresh, and how a request is repeated when it is refused or limited.

  \<open>JSON.parse\<close>, the \<open>URL\<close> parser and the derivation of a public key are the fields of \<open>client_env\<close>.
  Times are seconds.
\<close>

record parsed_url =
  pu_protocol :: string
  pu_hostname :: string

record client_env =
  ce_json_parse :: "string \<Rightarrow> jsval option"
  ce_URL :: "string \<Rightarrow> parsed_url option"
  ce_derivePublicKey :: "string \<Rightarrow> string"

section \<open>The address of the Hub\<close>

definition strip_brackets :: "string \<Rightarrow> string" where
  "strip_brackets s =
     (if startsWith s ''['' \<and> length s \<ge> 2 \<and> List.last s = CHR '']'' then butlast (tl s) else s)"

definition has_suffix :: "string \<Rightarrow> string \<Rightarrow> bool" where
  "has_suffix s t \<longleftrightarrow> startsWith (rev s) (rev t)"

definition isLoopbackHost :: "string \<Rightarrow> bool" where
  "isLoopbackHost hostname \<longleftrightarrow>
     (let normalized = strip_brackets (toLowerCase hostname)
      in normalized \<in> set [''localhost'', ''127.0.0.1'', ''::1''] \<or> has_suffix normalized ''.localhost'')"

definition drop_slash :: "string \<Rightarrow> string" where
  "drop_slash s = (if s \<noteq> [] \<and> List.last s = CHR ''/'' then butlast s else s)"

datatype url_error = UrlMissing | UrlMalformed | UrlScheme | UrlInsecure

definition normalizeAndValidateHubUrl :: "client_env \<Rightarrow> string \<Rightarrow> url_error + string" where
  "normalizeAndValidateHubUrl env hubUrl =
     (let trimmed = trim hubUrl
      in if trimmed = [] then Inl UrlMissing
         else case ce_URL env trimmed of
           None \<Rightarrow> Inl UrlMalformed
         | Some u \<Rightarrow>
             if pu_protocol u \<noteq> ''https:'' \<and> pu_protocol u \<noteq> ''http:'' then Inl UrlScheme
             else if pu_protocol u = ''http:'' \<and> \<not> isLoopbackHost (pu_hostname u) then Inl UrlInsecure
             else Inr (drop_slash trimmed))"

section \<open>Stored credentials\<close>

definition normalizeCredentialValue :: "jsval \<Rightarrow> string list \<Rightarrow> string option" where
  "normalizeCredentialValue raw ks =
     first_of (map (\<lambda>k. case get_prop raw k of JStr s \<Rightarrow> (if trim s \<noteq> [] then Some s else None) | _ \<Rightarrow> None) ks)"

definition normalizeTokenExpiresAt :: "jsval \<Rightarrow> rat option" where
  "normalizeTokenExpiresAt v =
     (case finite_num v of
        Some q \<Rightarrow> Some (if q > 10000000000 then of_int \<lfloor>q / 1000\<rfloor> else q)
      | None \<Rightarrow> None)"

record stored_credentials =
  sc_hubUrl :: string
  sc_agentId :: string
  sc_keyId :: string
  sc_privateKey :: string
  sc_publicKey :: string
  sc_displayName :: "string option"
  sc_savedAt :: "string option"
  sc_token :: "string option"
  sc_tokenExpiresAt :: "rat option"
  sc_onboardedAt :: "string option"
  sc_runtime :: "string option"
  sc_runtimeModel :: "string option"
  sc_reasoningEffort :: "string option"
  sc_thinking :: "bool option"
  sc_cwd :: "string option"
  sc_openclawGateway :: "string option"
  sc_openclawAgent :: "string option"
  sc_hermesProfile :: "string option"

datatype credentials_error = MissingField string | KeyMismatch | BadHubUrl url_error

fun as_bool :: "jsval \<Rightarrow> bool option" where
  "as_bool (JBool b) = Some b"
| "as_bool _ = None"

text \<open>\<open>loadStoredCredentials\<close> on the parsed file; \<open>None\<close> as the time of saving stands for the current time.\<close>

definition loadStoredCredentials :: "client_env \<Rightarrow> jsval \<Rightarrow> credentials_error + stored_credentials" where
  "loadStoredCredentials env raw =
     (let val = normalizeCredentialValue raw;
          expires = (case get_prop raw ''tokenExpiresAt'' of JNum n \<Rightarrow> JNum n | _ \<Rightarrow> get_prop raw ''token_expires_at'')
      in case val [''hubUrl'', ''hub_url'', ''hub''] of None \<Rightarrow> Inl (MissingField ''hubUrl'') | Some hubUrl \<Rightarrow>
        (case val [''agentId'', ''agent_id''] of None \<Rightarrow> Inl (MissingField ''agentId'') | Some agentId \<Rightarrow>
        (case val [''keyId'', ''key_id''] of None \<Rightarrow> Inl (MissingField ''keyId'') | Some keyId \<Rightarrow>
        (case val [''privateKey'', ''private_key''] of None \<Rightarrow> Inl (MissingField ''privateKey'') | Some privateKey \<Rightarrow>
          (let derived = ce_derivePublicKey env privateKey; publicKey = val [''publicKey'', ''public_key'']
           in if publicKey \<noteq> None \<and> publicKey \<noteq> Some derived then Inl KeyMismatch
              else case normalizeAndValidateHubUrl env hubUrl of
                Inl e \<Rightarrow> Inl (BadHubUrl e)
              | Inr url \<Rightarrow> Inr \<lparr>sc_hubUrl = url, sc_agentId = agentId, sc_keyId = keyId, sc_privateKey = privateKey,
                  sc_publicKey = some_or publicKey derived, sc_displayName = val [''displayName'', ''display_name''],
                  sc_savedAt = val [''savedAt'', ''saved_at''], sc_token = val [''token''],
                  sc_tokenExpiresAt = normalizeTokenExpiresAt expires, sc_onboardedAt = val [''onboardedAt'', ''onboarded_at''],
                  sc_runtime = val [''runtime''], sc_runtimeModel = val [''runtimeModel'', ''runtime_model''],
                  sc_reasoningEffort = val [''reasoningEffort'', ''reasoning_effort''],
                  sc_thinking = first_of [as_bool (get_prop raw ''thinking''), as_bool (get_prop raw ''thinking_enabled'')],
                  sc_cwd = val [''cwd''], sc_openclawGateway = val [''openclawGateway'', ''openclaw_gateway''],
                  sc_openclawAgent = val [''openclawAgent'', ''openclaw_agent''],
                  sc_hermesProfile = val [''hermesProfile'', ''hermes_profile'']\<rparr>)))))"

text \<open>\<open>updateCredentialsToken\<close>: the document written back.\<close>

definition updateCredentialsToken :: "string \<Rightarrow> rat \<Rightarrow> jsval \<Rightarrow> jsval" where
  "updateCredentialsToken token expires raw =
     spread_with (spread_with raw ''token'' (JStr token)) ''tokenExpiresAt'' (JNum (Fin expires))"

text \<open>Credentials are only ever accepted for a Hub that is reached over TLS or on this machine, with a public key
  that belongs to the private one.\<close>

theorem accepted_credentials_safe:
  assumes "loadStoredCredentials env raw = Inr c"
  shows "sc_publicKey c = ce_derivePublicKey env (sc_privateKey c)
       \<and> (\<exists>url u. ce_URL env (trim url) = Some u \<and> sc_hubUrl c = drop_slash (trim url)
            \<and> (pu_protocol u = ''https:'' \<or> (pu_protocol u = ''http:'' \<and> isLoopbackHost (pu_hostname u))))"
proof -
  have url: "\<exists>u. ce_URL env (trim s) = Some u \<and> r = drop_slash (trim s)
      \<and> (pu_protocol u = ''https:'' \<or> (pu_protocol u = ''http:'' \<and> isLoopbackHost (pu_hostname u)))"
    if "normalizeAndValidateHubUrl env s = Inr r" for s r
    using that by (auto simp: normalizeAndValidateHubUrl_def Let_def split: if_splits option.splits)
  have "sc_publicKey c = ce_derivePublicKey env (sc_privateKey c)
      \<and> (\<exists>url. normalizeAndValidateHubUrl env url = Inr (sc_hubUrl c))"
    using assms
    by (auto simp: loadStoredCredentials_def Let_def some_or_def split: option.splits if_splits sum.splits)
  with url show ?thesis by blast
qed

text \<open>Storing a token leaves every other field of the credentials as it was, and the stored token is the one read
  back.\<close>

theorem token_update_keeps_credentials:
  assumes "loadStoredCredentials env raw = Inr c" "trim token \<noteq> []" "expires \<le> 10000000000"
  shows "loadStoredCredentials env (updateCredentialsToken token expires raw)
       = Inr (c\<lparr>sc_token := Some token, sc_tokenExpiresAt := Some expires\<rparr>)"
proof -
  define raw1 where "raw1 = updateCredentialsToken token expires raw"
  have g: "get_prop raw1 k = (if k = ''tokenExpiresAt'' then JNum (Fin expires) else if k = ''token'' then JStr token else get_prop raw k)" for k
    by (simp add: raw1_def updateCredentialsToken_def)
  have v: "normalizeCredentialValue raw1 ks = normalizeCredentialValue raw ks"
    if "''token'' \<notin> set ks" "''tokenExpiresAt'' \<notin> set ks" for ks
    unfolding normalizeCredentialValue_def using that by (intro arg_cong[where f = first_of] map_cong) (auto simp: g)
  have t: "normalizeCredentialValue raw1 [''token''] = Some token"
    using assms(2) by (simp add: normalizeCredentialValue_def g)
  show ?thesis unfolding raw1_def[symmetric] using assms(1,3)
    by (auto simp: loadStoredCredentials_def Let_def v t g normalizeTokenExpiresAt_def
        split: option.splits if_splits sum.splits)
qed

definition example_client :: client_env where
  "example_client = \<lparr>ce_json_parse = (\<lambda>_. None),
     ce_URL = (\<lambda>s. if startsWith s ''https://'' then Some \<lparr>pu_protocol = ''https:'', pu_hostname = ''hub''\<rparr> else None),
     ce_derivePublicKey = (\<lambda>k. ''pub-'' @ k)\<rparr>"

definition example_stored :: jsval where
  "example_stored = JObj [(''hub_url'', JStr ''https://hub/''), (''agentId'', JStr ''ag_1''), (''key_id'', JStr ''k1''),
     (''privateKey'', JStr ''s''), (''publicKey'', JStr ''pub-s'')]"

lemma example_loads: "\<exists>c. loadStoredCredentials example_client example_stored = Inr c"
proof -
  have "(case loadStoredCredentials example_client example_stored of Inr c \<Rightarrow> True | Inl e \<Rightarrow> False)" by code_simp
  then show ?thesis by (simp split: sum.splits)
qed

theorem accepted_credentials_safe_witness:
  "\<exists>c. loadStoredCredentials example_client example_stored = Inr c \<and> sc_publicKey c = ''pub-'' @ sc_privateKey c"
  using example_loads accepted_credentials_safe[of example_client example_stored] by (force simp: example_client_def)

theorem token_update_keeps_credentials_witness:
  "\<exists>c. loadStoredCredentials example_client example_stored = Inr c
     \<and> loadStoredCredentials example_client (updateCredentialsToken ''t2'' 5 example_stored)
         = Inr (c\<lparr>sc_token := Some ''t2'', sc_tokenExpiresAt := Some 5\<rparr>)"
proof -
  obtain c where "loadStoredCredentials example_client example_stored = Inr c" using example_loads by blast
  moreover have "trim ''t2'' \<noteq> []" by code_simp
  ultimately show ?thesis using token_update_keeps_credentials[of example_client example_stored c "''t2''" 5] by auto
qed

section \<open>The token of an agent\<close>

text \<open>
  The credentials shared by the clients of one scope, and the refreshes under way. A caller of
  \<open>refreshToken\<close> either has the token at once or waits for the refresh that is shared.
\<close>

record cred_state =
  cr_token :: "string option"
  cr_expires :: rat
  cr_generation :: nat
  cr_refresh :: "nat option"

datatype auth_answer = GotToken "string option" | RefreshFailed string

record auth_world =
  aw_states :: "string \<rightharpoonup> cred_state"
  aw_flights :: "(nat \<times> string) list"
  aw_next :: nat
  aw_waiters :: "(nat \<times> nat) list"
  aw_answers :: "(nat \<times> auth_answer) list"

definition scope_key :: "string \<Rightarrow> string \<Rightarrow> string \<Rightarrow> string" where
  "scope_key hubUrl agentId keyId = hubUrl @ [CHR 0x00] @ agentId @ [CHR 0x00] @ keyId"

text \<open>The constructor: a state that exists is shared, and the token of the configuration is then not looked at.\<close>

definition new_client :: "string \<Rightarrow> string option \<Rightarrow> jsval \<Rightarrow> auth_world \<Rightarrow> auth_world" where
  "new_client scope token expires w =
     (case aw_states w scope of
        Some _ \<Rightarrow> w
      | None \<Rightarrow> w\<lparr>aw_states := (aw_states w)(scope \<mapsto>
          \<lparr>cr_token = token, cr_expires = (if some_or token [] \<noteq> [] then some_or (normalizeTokenExpiresAt expires) 0 else 0),
           cr_generation = (if some_or token [] \<noteq> [] then 1 else 0), cr_refresh = None\<rparr>)\<rparr>)"

definition answer :: "nat \<Rightarrow> auth_answer \<Rightarrow> auth_world \<Rightarrow> auth_world" where
  "answer c a w = w\<lparr>aw_answers := aw_answers w @ [(c, a)]\<rparr>"

definition refreshToken :: "nat \<Rightarrow> string \<Rightarrow> string option \<Rightarrow> auth_world \<Rightarrow> auth_world" where
  "refreshToken c scope failedToken w =
     (case aw_states w scope of
        None \<Rightarrow> w
      | Some st \<Rightarrow>
          if failedToken \<noteq> None \<and> some_or (cr_token st) [] \<noteq> [] \<and> cr_token st \<noteq> failedToken
          then answer c (GotToken (cr_token st)) w
          else case cr_refresh st of
            Some f \<Rightarrow> w\<lparr>aw_waiters := aw_waiters w @ [(c, f)]\<rparr>
          | None \<Rightarrow> w\<lparr>aw_states := (aw_states w)(scope \<mapsto> st\<lparr>cr_refresh := Some (aw_next w)\<rparr>),
                      aw_flights := aw_flights w @ [(aw_next w, scope)], aw_next := Suc (aw_next w),
                      aw_waiters := aw_waiters w @ [(c, aw_next w)]\<rparr>)"

definition ensureToken :: "nat \<Rightarrow> string \<Rightarrow> rat \<Rightarrow> auth_world \<Rightarrow> auth_world" where
  "ensureToken c scope now w =
     (case aw_states w scope of
        None \<Rightarrow> w
      | Some st \<Rightarrow>
          if some_or (cr_token st) [] \<noteq> [] \<and> now < cr_expires st - 60
          then answer c (GotToken (cr_token st)) w
          else refreshToken c scope None w)"

definition settle_waiters :: "nat \<Rightarrow> auth_answer \<Rightarrow> auth_world \<Rightarrow> auth_world" where
  "settle_waiters f a w =
     w\<lparr>aw_answers := aw_answers w @ map (\<lambda>(c, _). (c, a)) (filter (\<lambda>(_, g). g = f) (aw_waiters w)),
       aw_waiters := filter (\<lambda>(_, g). g \<noteq> f) (aw_waiters w),
       aw_flights := filter (\<lambda>(g, _). g \<noteq> f) (aw_flights w)\<rparr>"

text \<open>
  The end of \<open>performTokenRefresh\<close> with the continuation of the caller that started it: on success the
  shared state takes the token of the answer, in both cases it forgets the refresh.
\<close>

definition response_token :: "jsval \<Rightarrow> string option" where
  "response_token data =
     (case str_field data ''agent_token'' of
        Some t \<Rightarrow> (if t \<noteq> [] then Some t else str_field data ''token'')
      | None \<Rightarrow> str_field data ''token'')"

definition performTokenRefresh :: "nat \<Rightarrow> rat \<Rightarrow> string + jsval \<Rightarrow> auth_world \<Rightarrow> auth_world" where
  "performTokenRefresh f now result w =
     (case map_of (aw_flights w) f of
        None \<Rightarrow> w
      | Some scope \<Rightarrow>
          (case aw_states w scope of
             None \<Rightarrow> w
           | Some st \<Rightarrow>
               (let forgotten = (if cr_refresh st = Some f then None else cr_refresh st)
                in case result of
                     Inl err \<Rightarrow> settle_waiters f (RefreshFailed err)
                       (w\<lparr>aw_states := (aw_states w)(scope \<mapsto> st\<lparr>cr_refresh := forgotten\<rparr>)\<rparr>)
                   | Inr data \<Rightarrow> settle_waiters f (GotToken (response_token data))
                       (w\<lparr>aw_states := (aw_states w)(scope \<mapsto>
                          st\<lparr>cr_token := response_token data,
                             cr_expires := some_or (finite_num (get_prop data ''expires_at'')) (now + 86400),
                             cr_generation := Suc (cr_generation st), cr_refresh := forgotten\<rparr>)\<rparr>))))"

datatype auth_event =
    AeNew string "string option" jsval
  | AeEnsure nat string rat
  | AeRefresh nat string "string option"
  | AeAnswer nat rat "string + jsval"

fun auth_step :: "auth_event \<Rightarrow> auth_world \<Rightarrow> auth_world" where
  "auth_step (AeNew scope token expires) w = new_client scope token expires w"
| "auth_step (AeEnsure c scope now) w = ensureToken c scope now w"
| "auth_step (AeRefresh c scope failed) w = refreshToken c scope failed w"
| "auth_step (AeAnswer f now result) w = performTokenRefresh f now result w"

definition no_auth :: auth_world where
  "no_auth = \<lparr>aw_states = Map.empty, aw_flights = [], aw_next = 0, aw_waiters = [], aw_answers = []\<rparr>"

definition auth_run :: "auth_event list \<Rightarrow> auth_world" where
  "auth_run evs = fold auth_step evs no_auth"

text \<open>The refreshes under way are those the states name; every waiter waits for one of them.\<close>

definition auth_inv :: "auth_world \<Rightarrow> bool" where
  "auth_inv w \<longleftrightarrow>
     distinct (map fst (aw_flights w)) \<and> distinct (map snd (aw_flights w))
     \<and> (\<forall>(f, scope) \<in> set (aw_flights w). f < aw_next w)
     \<and> (\<forall>f scope. (f, scope) \<in> set (aw_flights w) \<longleftrightarrow> (\<exists>st. aw_states w scope = Some st \<and> cr_refresh st = Some f))
     \<and> (\<forall>(c, f) \<in> set (aw_waiters w). f \<in> fst ` set (aw_flights w))"

definition named_by :: "auth_world \<Rightarrow> nat \<Rightarrow> string \<Rightarrow> bool" where
  "named_by w f scope \<longleftrightarrow> (\<exists>st. aw_states w scope = Some st \<and> cr_refresh st = Some f)"

lemma auth_inv_iff:
  "auth_inv w \<longleftrightarrow>
     distinct (map fst (aw_flights w)) \<and> distinct (map snd (aw_flights w))
     \<and> (\<forall>p \<in> set (aw_flights w). fst p < aw_next w)
     \<and> (\<forall>f scope. (f, scope) \<in> set (aw_flights w) \<longleftrightarrow> named_by w f scope)
     \<and> (\<forall>p \<in> set (aw_waiters w). snd p \<in> fst ` set (aw_flights w))"
  unfolding auth_inv_def named_by_def by (simp add: case_prod_beta)

lemma auth_inv_new:
  assumes "auth_inv w"
  shows "auth_inv (new_client scope token expires w)"
proof (cases "aw_states w scope")
  case None
  let ?w = "new_client scope token expires w"
  have n: "named_by ?w f sc \<longleftrightarrow> named_by w f sc" for f sc
    using None by (auto simp: named_by_def new_client_def)
  have "aw_flights ?w = aw_flights w" "aw_waiters ?w = aw_waiters w" "aw_next ?w = aw_next w"
    using None by (simp_all add: new_client_def)
  with assms n show ?thesis by (simp add: auth_inv_iff)
qed (use assms in \<open>simp add: new_client_def\<close>)

lemma auth_inv_answer: "auth_inv w \<Longrightarrow> auth_inv (answer c a w)"
  by (simp add: auth_inv_def answer_def)

lemma auth_inv_refresh:
  assumes inv: "auth_inv w"
  shows "auth_inv (refreshToken c scope failed w)"
proof (cases "aw_states w scope")
  case (Some st)
  show ?thesis
  proof (cases "failed \<noteq> None \<and> some_or (cr_token st) [] \<noteq> [] \<and> cr_token st \<noteq> failed")
    case True
    then show ?thesis using Some inv by (simp add: refreshToken_def auth_inv_answer)
  next
    case no: False
    show ?thesis
    proof (cases "cr_refresh st")
      case (Some f)
      then have "(f, scope) \<in> set (aw_flights w)"
        using \<open>aw_states w scope = Some st\<close> inv by (simp add: auth_inv_iff named_by_def)
      then have "f \<in> fst ` set (aw_flights w)" by force
      then show ?thesis using Some no \<open>aw_states w scope = Some st\<close> inv
        by (auto simp: refreshToken_def auth_inv_iff named_by_def)
    next
      case None
      let ?w = "refreshToken c scope failed w"
      have w: "aw_flights ?w = aw_flights w @ [(aw_next w, scope)]" "aw_next ?w = Suc (aw_next w)"
        "aw_waiters ?w = aw_waiters w @ [(c, aw_next w)]"
        "aw_states ?w = (aw_states w)(scope \<mapsto> st\<lparr>cr_refresh := Some (aw_next w)\<rparr>)"
        using None no Some by (auto simp: refreshToken_def)
      have free: "(f, scope) \<notin> set (aw_flights w)" for f
        using inv Some None by (auto simp: auth_inv_iff named_by_def)
      have fresh: "(aw_next w, sc) \<notin> set (aw_flights w)" for sc
        using inv by (force simp: auth_inv_iff)
      have n: "named_by ?w f sc \<longleftrightarrow> named_by w f sc \<or> (f = aw_next w \<and> sc = scope)" for f sc
        using Some None w(4) by (auto simp: named_by_def)
      show ?thesis using inv free fresh n by (force simp: auth_inv_iff w)
    qed
  qed
qed (use assms in \<open>simp add: refreshToken_def\<close>)

lemma settle_waiters_inv:
  assumes inv: "auth_inv w" and flight: "(f, scope) \<in> set (aw_flights w)"
    and states: "aw_states w' = (aw_states w)(scope \<mapsto> st')" "cr_refresh st' = None"
    and rest: "aw_flights w' = aw_flights w" "aw_waiters w' = aw_waiters w" "aw_next w' = aw_next w"
  shows "auth_inv (settle_waiters f a w')"
proof -
  let ?w = "settle_waiters f a w'"
  have fl: "set (aw_flights ?w) = set (aw_flights w) - {(f, scope)}"
  proof -
    have "distinct (map fst (aw_flights w))" using inv by (simp add: auth_inv_iff)
    then have "sc = scope" if "(f, sc) \<in> set (aw_flights w)" for sc
      using that flight by (rule eq_key_imp_eq_value)
    then show ?thesis by (auto simp: settle_waiters_def rest)
  qed
  have n: "named_by ?w g sc \<longleftrightarrow> named_by w g sc \<and> sc \<noteq> scope" for g sc
    using states by (auto simp: named_by_def settle_waiters_def)
  have named: "(g, sc) \<in> set (aw_flights w) \<longleftrightarrow> named_by w g sc" for g sc using inv by (simp add: auth_inv_iff)
  have "named_by w g scope \<Longrightarrow> g = f" for g using flight named by (auto simp: named_by_def)
  moreover have "named_by w f sc \<Longrightarrow> sc = scope" for sc
    using inv flight named eq_key_imp_eq_value by (metis auth_inv_iff)
  ultimately have "(g, sc) \<in> set (aw_flights ?w) \<longleftrightarrow> named_by ?w g sc" for g sc
    using fl n named by auto
  moreover have "distinct (map fst (aw_flights ?w))" "distinct (map snd (aw_flights ?w))"
    using inv by (auto simp: auth_inv_iff settle_waiters_def rest distinct_map inj_on_def)
  moreover have "\<forall>p \<in> set (aw_waiters ?w). snd p \<in> fst ` set (aw_flights ?w)"
    using inv by (force simp: auth_inv_iff settle_waiters_def rest)
  ultimately show ?thesis using inv by (auto simp: auth_inv_iff settle_waiters_def rest)
qed

lemma auth_inv_perform:
  assumes inv: "auth_inv w"
  shows "auth_inv (performTokenRefresh f now result w)"
proof (cases "map_of (aw_flights w) f")
  case (Some scope)
  then have fl: "(f, scope) \<in> set (aw_flights w)" by (rule map_of_SomeD)
  then obtain st where st: "aw_states w scope = Some st" "cr_refresh st = Some f"
    using inv by (auto simp: auth_inv_iff named_by_def)
  show ?thesis using Some st
    by (auto simp: performTokenRefresh_def Let_def intro!: settle_waiters_inv[OF inv fl] split: sum.splits)
qed (use assms in \<open>simp add: performTokenRefresh_def\<close>)

lemma auth_inv_step: "auth_inv w \<Longrightarrow> auth_inv (auth_step ev w)"
  by (cases ev) (auto simp: auth_inv_new auth_inv_refresh auth_inv_perform ensureToken_def auth_inv_answer split: option.splits)

interpretation tokens: open_machine auth_step auth_inv
  by unfold_locales (rule auth_inv_step)

lemma auth_run_inv: "auth_inv (auth_run evs)"
  unfolding auth_run_def by (rule tokens.open_run_keeps) (simp add: auth_inv_def no_auth_def)

text \<open>However many clients of an agent ask for a token at once, one refresh per agent and key is under way, and
  whoever waits waits for a refresh that will answer.\<close>

theorem one_refresh_per_agent:
  "distinct (map snd (aw_flights (auth_run evs)))
   \<and> snd ` set (aw_waiters (auth_run evs)) \<subseteq> fst ` set (aw_flights (auth_run evs))"
  using auth_run_inv[of evs] by (auto simp: auth_inv_iff)

text \<open>The scopes of two clients are the same exactly when they use the same Hub, agent and key.\<close>

theorem scope_key_separates:
  assumes "CHR 0x00 \<notin> set h1 \<union> set a1 \<union> set h2 \<union> set a2"
  shows "scope_key h1 a1 k1 = scope_key h2 a2 k2 \<longleftrightarrow> h1 = h2 \<and> a1 = a2 \<and> k1 = k2"
  unfolding scope_key_def
proof
  assume "h1 @ [CHR 0x00] @ a1 @ [CHR 0x00] @ k1 = h2 @ [CHR 0x00] @ a2 @ [CHR 0x00] @ k2"
  then have "h1 = h2 \<and> a1 @ [CHR 0x00] @ k1 = a2 @ [CHR 0x00] @ k2"
    using append_sep_eq[of "CHR 0x00" h1 h2] assms by simp
  then show "h1 = h2 \<and> a1 = a2 \<and> k1 = k2"
    using append_sep_eq[of "CHR 0x00" a1 a2 k1 k2] assms by auto
qed simp

section \<open>Requests\<close>

datatype retry_after = RetryValid nat | RetryMissing | RetryOversized

definition is_digit :: "char \<Rightarrow> bool" where
  "is_digit c \<longleftrightarrow> 48 \<le> (of_char c :: nat) \<and> (of_char c :: nat) \<le> 57"

definition parseRetryAfterSeconds :: "string option \<Rightarrow> retry_after" where
  "parseRetryAfterSeconds value =
     (case value of
        None \<Rightarrow> RetryMissing
      | Some v \<Rightarrow>
          if v = [] \<or> \<not> list_all is_digit v then RetryMissing
          else let seconds = digits_val v
               in if seconds > 3600 then RetryOversized else if seconds = 0 then RetryMissing else RetryValid seconds)"

definition parseErrorCode :: "client_env \<Rightarrow> string \<Rightarrow> string option" where
  "parseErrorCode env body =
     (case ce_json_parse env body of
        Some v \<Rightarrow> first_of [as_str (get_prop v ''code''), as_str (get_prop v ''detail'')]
      | None \<Rightarrow> None)"

definition isTerminalRateLimit :: "client_env \<Rightarrow> string \<Rightarrow> bool" where
  "isTerminalRateLimit env body \<longleftrightarrow>
     (case ce_json_parse env body of Some v \<Rightarrow> get_prop v ''code'' = JStr ''duplicate_content'' | None \<Rightarrow> False)"

record http_response =
  hr_status :: int
  hr_body :: string
  hr_retryAfter :: "string option"

datatype fetch_failure = FetchThrew string | FetchStatus int string | FetchExhausted

datatype fetch_action = FaRequest nat string | FaWait nat | FaRefresh string

text \<open>What the Hub answers: the request of an attempt with a token, and a refresh of a token.\<close>

record fetch_world =
  fw_request :: "nat \<Rightarrow> string \<Rightarrow> string + http_response"
  fw_refresh :: "string \<Rightarrow> string + string"

definition retry_delay :: "bool \<Rightarrow> nat \<Rightarrow> http_response \<Rightarrow> nat option" where
  "retry_delay isSend attempt r =
     (case parseRetryAfterSeconds (hr_retryAfter r) of
        RetryOversized \<Rightarrow> None
      | RetryMissing \<Rightarrow> if isSend then None else Some (1000 * (attempt + 1))
      | RetryValid n \<Rightarrow> Some (n * 1000))"

fun fetch_attempts ::
  "client_env \<Rightarrow> fetch_world \<Rightarrow> bool \<Rightarrow> nat list \<Rightarrow> string \<Rightarrow> fetch_action list \<times> (fetch_failure + http_response)" where
  "fetch_attempts env w isSend [] token = ([], Inl FetchExhausted)"
| "fetch_attempts env w isSend (attempt # later) token =
     (case fw_request w attempt token of
        Inl err \<Rightarrow> ([FaRequest attempt token], Inl (FetchThrew err))
      | Inr r \<Rightarrow>
          if 200 \<le> hr_status r \<and> hr_status r \<le> 299 then ([FaRequest attempt token], Inr r)
          else if hr_status r = 401 \<and> attempt = 0
          then (case fw_refresh w token of
                  Inl err \<Rightarrow> ([FaRequest attempt token, FaRefresh token], Inl (FetchThrew err))
                | Inr token2 \<Rightarrow>
                    (let (acts, res) = fetch_attempts env w isSend later token2
                     in (FaRequest attempt token # FaRefresh token # acts, res)))
          else if hr_status r = 429 \<and> attempt < 2 \<and> \<not> isTerminalRateLimit env (hr_body r)
          then (case retry_delay isSend attempt r of
                  None \<Rightarrow> ([FaRequest attempt token], Inl (FetchStatus (hr_status r) (hr_body r)))
                | Some delay \<Rightarrow>
                    (let (acts, res) = fetch_attempts env w isSend later token
                     in (FaRequest attempt token # FaWait delay # acts, res)))
          else ([FaRequest attempt token], Inl (FetchStatus (hr_status r) (hr_body r))))"

text \<open>\<open>hubFetch\<close> with the token \<open>ensureToken\<close> gave.\<close>

definition hubFetch ::
  "client_env \<Rightarrow> fetch_world \<Rightarrow> bool \<Rightarrow> string \<Rightarrow> fetch_action list \<times> (fetch_failure + http_response)" where
  "hubFetch env w isSend token = fetch_attempts env w isSend [0, 1, 2] token"

definition waits :: "fetch_action list \<Rightarrow> nat list" where
  "waits acts = List.map_filter (\<lambda>a. case a of FaWait d \<Rightarrow> Some d | _ \<Rightarrow> None) acts"

definition requests :: "fetch_action list \<Rightarrow> nat list" where
  "requests acts = List.map_filter (\<lambda>a. case a of FaRequest n t \<Rightarrow> Some n | _ \<Rightarrow> None) acts"

definition refreshes :: "fetch_action list \<Rightarrow> nat" where
  "refreshes acts = length (filter (\<lambda>a. case a of FaRefresh t \<Rightarrow> True | _ \<Rightarrow> False) acts)"

lemma fetch_counts [simp]:
  "waits [] = []" "waits (FaRequest n t # acts) = waits acts" "waits (FaRefresh t # acts) = waits acts"
  "waits (FaWait d # acts) = d # waits acts"
  "requests [] = []" "requests (FaRequest n t # acts) = n # requests acts" "requests (FaRefresh t # acts) = requests acts"
  "requests (FaWait d # acts) = requests acts"
  "refreshes [] = 0" "refreshes (FaRequest n t # acts) = refreshes acts" "refreshes (FaRefresh t # acts) = Suc (refreshes acts)"
  "refreshes (FaWait d # acts) = refreshes acts"
  by (simp_all add: waits_def requests_def refreshes_def List.map_filter_simps)

lemma retry_valid_bounds: "parseRetryAfterSeconds v = RetryValid n \<Longrightarrow> 1 \<le> n \<and> n \<le> 3600"
  by (auto simp: parseRetryAfterSeconds_def Let_def split: option.splits if_splits)

lemma retry_delay_bounds:
  assumes "retry_delay isSend attempt r = Some d" "attempt < 2"
  shows "1000 \<le> d \<and> d \<le> 3600000 \<and> (isSend \<longrightarrow> parseRetryAfterSeconds (hr_retryAfter r) = RetryValid (d div 1000))"
  using assms retry_valid_bounds
  by (auto simp: retry_delay_def split: retry_after.splits if_splits dest!: retry_valid_bounds)

lemma fetch_attempts_shape:
  assumes "fetch_attempts env w isSend ns token = (acts, res)" "sorted_wrt (<) ns"
  shows "(\<forall>d \<in> set (waits acts). 1000 \<le> d \<and> d \<le> 3600000)
    \<and> (isSend \<longrightarrow> (\<forall>d \<in> set (waits acts). \<exists>n t r. fw_request w n t = Inr r
          \<and> parseRetryAfterSeconds (hr_retryAfter r) = RetryValid (d div 1000)))
    \<and> (\<exists>later. ns = requests acts @ later) \<and> refreshes acts \<le> (if 0 \<in> set ns then 1 else 0)"
  using assms
proof (induction env w isSend ns token arbitrary: acts res rule: fetch_attempts.induct)
  case (2 env w isSend n later token)
  show ?case
  proof (cases "fw_request w n token")
    case (Inl err)
    with 2(3) show ?thesis by auto
  next
    case (Inr r)
    consider (ok) "200 \<le> hr_status r \<and> hr_status r \<le> 299"
      | (refused) "\<not> (200 \<le> hr_status r \<and> hr_status r \<le> 299)" "hr_status r = 401" "n = 0"
      | (limited) "\<not> (200 \<le> hr_status r \<and> hr_status r \<le> 299)" "\<not> (hr_status r = 401 \<and> n = 0)" "hr_status r = 429" "n < 2"
          "\<not> isTerminalRateLimit env (hr_body r)"
      | (failed) "\<not> (200 \<le> hr_status r \<and> hr_status r \<le> 299)" "\<not> (hr_status r = 401 \<and> n = 0)"
          "\<not> (hr_status r = 429 \<and> n < 2 \<and> \<not> isTerminalRateLimit env (hr_body r))"
      by blast
    then show ?thesis
    proof cases
      case ok
      with 2(3) Inr show ?thesis by auto
    next
      case refused
      show ?thesis
      proof (cases "fw_refresh w token")
        case (Inl err)
        with 2(3) Inr refused show ?thesis by auto
      next
        case token2: (Inr token2)
        obtain acts2 where acts2: "fetch_attempts env w isSend later token2 = (acts2, res)"
          "acts = FaRequest n token # FaRefresh token # acts2"
          using 2(3) Inr refused token2 by (auto split: prod.splits)
        have "0 \<notin> set later" using 2(4) refused(3) by auto
        with 2(1)[OF Inr refused(1) _ token2 acts2(1)] 2(4) refused acts2 show ?thesis by auto
      qed
    next
      case limited
      show ?thesis
      proof (cases "retry_delay isSend n r")
        case None
        with 2(3) Inr limited show ?thesis by auto
      next
        case (Some d)
        obtain acts2 where acts2: "fetch_attempts env w isSend later token = (acts2, res)"
          "acts = FaRequest n token # FaWait d # acts2"
          using 2(3) Inr limited Some by (auto split: prod.splits)
        have IH: "(\<forall>d \<in> set (waits acts2). 1000 \<le> d \<and> d \<le> 3600000)
          \<and> (isSend \<longrightarrow> (\<forall>d \<in> set (waits acts2). \<exists>n t r. fw_request w n t = Inr r
                \<and> parseRetryAfterSeconds (hr_retryAfter r) = RetryValid (d div 1000)))
          \<and> (\<exists>rest. later = requests acts2 @ rest) \<and> refreshes acts2 \<le> (if 0 \<in> set later then 1 else 0)"
          using 2(2)[OF Inr limited(1,2) _ Some acts2(1)] 2(4) limited by auto
        show ?thesis using IH retry_delay_bounds[OF Some limited(4)] Inr acts2(2)
          by (auto split: if_splits)
      qed
    next
      case failed
      with 2(3) Inr show ?thesis by auto
    qed
  qed
qed simp


definition limited_once :: fetch_world where
  "limited_once = \<lparr>fw_request = (\<lambda>n t. Inr (if n = 0
        then \<lparr>hr_status = 429, hr_body = [], hr_retryAfter = Some ''2''\<rparr>
        else \<lparr>hr_status = 200, hr_body = [], hr_retryAfter = None\<rparr>)),
     fw_refresh = (\<lambda>t. Inr t)\<rparr>"


text \<open>The loop never runs out of attempts: the third one always ends the call.\<close>

theorem hub_request_ends: "snd (hubFetch env w isSend token) \<noteq> Inl FetchExhausted"
proof -
  have "fetch_attempts env w isSend ns t \<noteq> (x, Inl FetchExhausted)" if "ns \<noteq> []" "List.last ns = 2" for ns t x
    using that
  proof (induction ns arbitrary: t x)
    case (Cons n later)
    have "fetch_attempts env w isSend later t' \<noteq> (y, Inl FetchExhausted)" if "n < 2" for t' y
      using that Cons.prems by (intro Cons.IH) (auto split: if_splits)
    then show ?case by (auto split: sum.splits option.splits prod.splits if_splits)
  qed simp
  then show ?thesis by (metis hubFetch_def last.simps list.distinct(1) prod.collapse)
qed

text \<open>A token that expires while the client waits for a rate limit is not refreshed: a 401 is only answered by a
  refresh on the first attempt.\<close>

theorem late_401_fails:
  assumes "fw_request w 0 token = Inr r0" "hr_status r0 = 429" "hr_retryAfter r0 = Some ''3600''"
    and "\<not> isTerminalRateLimit env (hr_body r0)"
    and "fw_request w 1 token = Inr r1" "hr_status r1 = 401"
  shows "hubFetch env w isSend token =
     ([FaRequest 0 token, FaWait 3600000, FaRequest 1 token], Inl (FetchStatus 401 (hr_body r1)))"
proof -
  have p: "parseRetryAfterSeconds (Some ''3600'') = RetryValid 3600" by code_simp
  have "retry_delay isSend 0 r0 = Some 3600000" using p assms(3) by (simp add: retry_delay_def)
  then show ?thesis using assms by (simp add: hubFetch_def)
qed

end
