(* ===== verification/Working_Memory.thy ===== *)
theory Working_Memory
  imports Hub_Client
begin

text \<open>
  The working memory of an agent (\<open>daemon/src/working-memory.ts\<close>): the notes that are kept in a file, changed
  by section, and put into the prompt of every turn.

  A file holds a JSON document, or something that cannot be parsed (\<open>None\<close>). The sections are the
  properties of an object: assigning to the name \<open>__proto__\<close> sets the prototype, which a string leaves
  as it was, and adds no property. The order in which the language lists properties named by digits
  is not modelled; nothing below depends on the order of sections.
\<close>

section \<open>The memory\<close>

record working_memory =
  wm_goal :: "string option"
  wm_sections :: "(string \<times> string) list"
  wm_updatedAt :: string

definition MAX_SECTION_CHARS :: nat where
  "MAX_SECTION_CHARS = 10000"

definition MAX_GOAL_CHARS :: nat where
  "MAX_GOAL_CHARS = 500"

definition MAX_TOTAL_CHARS :: nat where
  "MAX_TOTAL_CHARS = 20000"

definition DEFAULT_SECTION :: string where
  "DEFAULT_SECTION = ''notes''"

definition key_char :: "char \<Rightarrow> bool" where
  "key_char c \<longleftrightarrow>
     (let n = (of_char c :: nat) in (65 \<le> n \<and> n \<le> 90) \<or> (97 \<le> n \<and> n \<le> 122) \<or> (48 \<le> n \<and> n \<le> 57) \<or> c = CHR ''_'')"

definition section_key_ok :: "string \<Rightarrow> bool" where
  "section_key_ok k \<longleftrightarrow> k \<noteq> [] \<and> list_all key_char k"

definition put_section :: "string \<Rightarrow> string \<Rightarrow> (string \<times> string) list \<Rightarrow> (string \<times> string) list" where
  "put_section k v ps = (if k = ''__proto__'' then ps else upd_assoc ps k v)"

definition sanitizeSections :: "jsval \<Rightarrow> (string \<times> string) list" where
  "sanitizeSections raw =
     (case raw of
        JObj ps \<Rightarrow>
          fold (\<lambda>(k, v) out. case v of JStr s \<Rightarrow> (if section_key_ok k then put_section k s out else out) | _ \<Rightarrow> out) ps []
      | _ \<Rightarrow> [])"

definition normalize_memory :: "jsval \<Rightarrow> working_memory option" where
  "normalize_memory raw =
     (if \<not> is_object raw then None
      else if get_prop raw ''version'' = JNum (Fin 2) \<and> is_object (get_prop raw ''sections'')
      then Some \<lparr>wm_goal = as_str (get_prop raw ''goal''), wm_sections = sanitizeSections (get_prop raw ''sections''),
             wm_updatedAt = some_or (as_str (get_prop raw ''updatedAt'')) []\<rparr>
      else if get_prop raw ''version'' = JNum (Fin 1)
      then (case get_prop raw ''content'' of
              JStr content \<Rightarrow> Some \<lparr>wm_goal = None,
                wm_sections = (if content \<noteq> [] then [(DEFAULT_SECTION, content)] else []),
                wm_updatedAt = some_or (as_str (get_prop raw ''updatedAt'')) []\<rparr>
            | _ \<Rightarrow> None)
      else None)"

text \<open>The document that is written: a goal that is \<open>undefined\<close> is left out.\<close>

definition memory_json :: "working_memory \<Rightarrow> jsval" where
  "memory_json m =
     JObj ([(''version'', JNum (Fin 2))] @ (case wm_goal m of Some g \<Rightarrow> [(''goal'', JStr g)] | None \<Rightarrow> [])
       @ [(''sections'', JObj (map (\<lambda>(k, v). (k, JStr v)) (wm_sections m))), (''updatedAt'', JStr (wm_updatedAt m))])"

section \<open>The files\<close>

text \<open>The file the CLI shares and the two older places it is migrated from.\<close>

record memory_files =
  mf_cli :: "jsval option option"
  mf_state :: "jsval option option"
  mf_legacy :: "jsval option option"

datatype move_result = Moved | CrossDevice bool bool | MoveFailed

datatype memory_place = AtCli | AtState | AtLegacy

definition file_at :: "memory_place \<Rightarrow> memory_files \<Rightarrow> jsval option option" where
  "file_at p f = (case p of AtCli \<Rightarrow> mf_cli f | AtState \<Rightarrow> mf_state f | AtLegacy \<Rightarrow> mf_legacy f)"

definition remove_at :: "memory_place \<Rightarrow> memory_files \<Rightarrow> memory_files" where
  "remove_at p f =
     (case p of AtCli \<Rightarrow> f\<lparr>mf_cli := None\<rparr> | AtState \<Rightarrow> f\<lparr>mf_state := None\<rparr> | AtLegacy \<Rightarrow> f\<lparr>mf_legacy := None\<rparr>)"

text \<open>
  \<open>resolveReadPath\<close>: the place to read from. A file in an older place is moved, across file systems by
  copying it and unlinking the old one, each of which may fail.
\<close>

definition resolveReadPath :: "move_result \<Rightarrow> memory_files \<Rightarrow> memory_files \<times> memory_place option" where
  "resolveReadPath mv f =
     (if mf_cli f \<noteq> None then (f, Some AtCli)
      else
        let from1 = (if mf_state f \<noteq> None then Some AtState else if mf_legacy f \<noteq> None then Some AtLegacy else None)
        in case from1 of
             None \<Rightarrow> (f, None)
           | Some p \<Rightarrow>
               (let copied = f\<lparr>mf_cli := file_at p f\<rparr>
                in case mv of
                     Moved \<Rightarrow> (remove_at p copied, Some AtCli)
                   | CrossDevice copies unlinks \<Rightarrow>
                       (if \<not> copies then (f, Some p)
                        else if unlinks then (remove_at p copied, Some AtCli)
                        else (copied, Some p))
                   | MoveFailed \<Rightarrow> (f, Some p)))"

definition readWorkingMemory :: "move_result \<Rightarrow> memory_files \<Rightarrow> memory_files \<times> working_memory option" where
  "readWorkingMemory mv f =
     (case resolveReadPath mv f of
        (f1, None) \<Rightarrow> (f1, None)
      | (f1, Some p) \<Rightarrow>
          (f1, case file_at p f1 of Some (Some doc) \<Rightarrow> normalize_memory doc | _ \<Rightarrow> None))"

definition writeWorkingMemory :: "working_memory \<Rightarrow> memory_files \<Rightarrow> memory_files" where
  "writeWorkingMemory m f = f\<lparr>mf_cli := Some (Some (memory_json m))\<rparr>"

section \<open>Changes\<close>

record memory_update =
  mu_goal :: "string option"
  mu_section :: "string option"
  mu_content :: "string option"

datatype memory_error = NothingToDo | GoalTooLong | BadSectionName | SectionTooLong | TotalTooLong nat

record update_result =
  ur_memory :: working_memory
  ur_totalChars :: nat
  ur_sectionPresent :: bool

definition total_chars :: "working_memory \<Rightarrow> nat" where
  "total_chars m = length (some_or (wm_goal m) []) + sum_list (map (\<lambda>(k, v). length v) (wm_sections m))"

definition changed_memory :: "memory_update \<Rightarrow> string \<Rightarrow> working_memory \<Rightarrow> working_memory" where
  "changed_memory u sectionName m =
     (let m1 = (case mu_goal u of Some g \<Rightarrow> m\<lparr>wm_goal := (if g = [] then None else Some g)\<rparr> | None \<Rightarrow> m)
      in case mu_content u of
           None \<Rightarrow> m1
         | Some c \<Rightarrow>
             if c = [] then m1\<lparr>wm_sections := filter (\<lambda>p. fst p \<noteq> sectionName) (wm_sections m1)\<rparr>
             else m1\<lparr>wm_sections := put_section sectionName c (wm_sections m1)\<rparr>)"

definition updateWorkingMemory ::
  "move_result \<Rightarrow> string \<Rightarrow> memory_update \<Rightarrow> memory_files \<Rightarrow> memory_files \<times> (memory_error + update_result)" where
  "updateWorkingMemory mv now u f =
     (let sectionName = trim (some_or (mu_section u) DEFAULT_SECTION)
      in if mu_goal u = None \<and> mu_content u = None then (f, Inl NothingToDo)
         else if length (some_or (mu_goal u) []) > MAX_GOAL_CHARS then (f, Inl GoalTooLong)
         else if mu_content u \<noteq> None \<and> \<not> section_key_ok sectionName then (f, Inl BadSectionName)
         else if length (some_or (mu_content u) []) > MAX_SECTION_CHARS then (f, Inl SectionTooLong)
         else
           (case readWorkingMemory mv f of
              (f1, found) \<Rightarrow>
                (let m = changed_memory u sectionName
                           (some_or found \<lparr>wm_goal = None, wm_sections = [], wm_updatedAt = []\<rparr>)
                 in if total_chars m > MAX_TOTAL_CHARS then (f1, Inl (TotalTooLong (total_chars m)))
                    else
                      (let m1 = m\<lparr>wm_updatedAt := now\<rparr>
                       in (writeWorkingMemory m1 f1,
                           Inr \<lparr>ur_memory = m1, ur_totalChars = total_chars m,
                             ur_sectionPresent =
                               (case mu_content u of
                                  Some c \<Rightarrow> c \<noteq> []
                                | None \<Rightarrow> sectionName \<in> fst ` set (wm_sections m1) \<or> sectionName \<in> set object_prototype_keys)\<rparr>)))))"

definition clearWorkingMemory :: "string \<Rightarrow> memory_files \<Rightarrow> memory_files" where
  "clearWorkingMemory now f = writeWorkingMemory \<lparr>wm_goal = None, wm_sections = [], wm_updatedAt = now\<rparr> f"

section \<open>The prompt\<close>

text \<open>The pattern for a reserved tag, \<open><\/?(?:current_memory|section_\w+)\b[^>]*>\<close> without regard to case: what
  follows the tag. The name of a section is a word, taken as far as it goes; a word ends after it or is
  given back a character at a time, which leaves no boundary.\<close>

definition word_ends :: "string \<Rightarrow> bool" where
  "word_ends s \<longleftrightarrow> (case s of [] \<Rightarrow> True | c # _ \<Rightarrow> \<not> key_char c)"

definition reserved_name :: "string \<Rightarrow> string option" where
  "reserved_name s =
     (case eat_ci ''current_memory'' s of
        Some r \<Rightarrow> (if word_ends r then Some r else None)
      | None \<Rightarrow>
          (case eat_ci ''section_'' s of
             Some r \<Rightarrow> (if takeWhile key_char r \<noteq> [] then Some (dropWhile key_char r) else None)
           | None \<Rightarrow> None))"

definition reserved_tag :: "string \<Rightarrow> string option" where
  "reserved_tag s =
     (case s of
        c # t \<Rightarrow>
          if c \<noteq> lt_char then None
          else (case reserved_name (eat_opt (CHR ''/'') t) of
             Some r \<Rightarrow> (case dropWhile (\<lambda>d. d \<noteq> gt_char) r of d # after \<Rightarrow> Some after | [] \<Rightarrow> None)
           | None \<Rightarrow> None)
      | [] \<Rightarrow> None)"

definition quote_char :: "glyphs \<Rightarrow> char \<Rightarrow> char" where
  "quote_char g c = (if c = lt_char then gl_lt g else if c = gt_char then gl_gt g else c)"

text \<open>The replacement, with the number of characters of the tag that are still to be rewritten.\<close>

fun quote_tags :: "glyphs \<Rightarrow> nat \<Rightarrow> string \<Rightarrow> string" where
  "quote_tags g n [] = []"
| "quote_tags g (Suc n) (c # s) = quote_char g c # quote_tags g n s"
| "quote_tags g 0 (c # s) =
     (case reserved_tag (c # s) of
        Some rest \<Rightarrow> quote_char g c # quote_tags g (length s - length rest) s
      | None \<Rightarrow> c # quote_tags g 0 s)"

definition sanitizeMemoryContent :: "glyphs \<Rightarrow> string \<Rightarrow> string" where
  "sanitizeMemoryContent g content = quote_tags g 0 content"

text \<open>\<open>/[\r\n]+/g\<close> replaced by one blank.\<close>

fun fold_lines :: "bool \<Rightarrow> string \<Rightarrow> string" where
  "fold_lines inside [] = []"
| "fold_lines inside (c # s) =
     (if c = newline \<or> c = CHR 0x0D then (if inside then fold_lines True s else CHR '' '' # fold_lines True s)
      else c # fold_lines False s)"

definition memory_intro :: "string list" where
  "memory_intro =
    [''[BotCord Working Memory]'',
     ''You have a persistent working memory that survives across turns and rooms.'',
     ''Use it to track your goal, important facts, pending commitments, and context worth remembering.'',
     ''This is the only BotCord memory source. It is stored in `~/.botcord/memory/{agentId}/working-memory.json`; do not create or update workspace memory files.'',
     [],
     ''Update via the daemon's `memory` CLI (or whatever tool the operator wires):'',
     ''- goal: a short pinned statement of what you're working on.'',
     ''- sections: named buckets (contacts, pending_tasks, preferences, etc.).'',
     ''- Updating one section never touches others. Empty content deletes a section.'',
     [],
     ''For cross-room work, update memory before or immediately after delegating:'',
     ''- If you accept a request in one room and continue it in another, record a `pending_tasks` entry with source room id/name, target room id/name, requested deliverable, current status, and where to report completion.'',
     ''- When a delegated room replies or delivers an artifact, consult `pending_tasks` before deciding `NO_REPLY`; if it matches a pending handoff, acknowledge, update status, and send the promised follow-up to the source room when appropriate.'',
     ''- Remove or mark the entry done once the source room has been updated.'',
     [],
     ''Only update when something meaningful changes. Keep each section tight.'']"

definition section_lines :: "glyphs \<Rightarrow> string \<times> string \<Rightarrow> string list" where
  "section_lines g p =
     (if snd p = [] then []
      else [[], ''<section_'' @ fst p @ ''>'', sanitizeMemoryContent g (snd p), ''</section_'' @ fst p @ ''>''])"

definition goal_text :: "glyphs \<Rightarrow> string \<Rightarrow> string" where
  "goal_text g goal = sanitizeMemoryContent g (trim (fold_lines False goal))"

definition buildWorkingMemoryPrompt :: "glyphs \<Rightarrow> bool \<Rightarrow> working_memory option \<Rightarrow> string" where
  "buildWorkingMemoryPrompt g warnLarge memory =
     join [newline] (memory_intro @
       (case memory of
          None \<Rightarrow> [[], ''Your working memory is currently empty.'']
        | Some m \<Rightarrow>
            (let goal = some_or (wm_goal m) []
             in if goal = [] \<and> wm_sections m = [] then [[], ''Your working memory is currently empty.'']
                else
                  (let goalLines = (if goal \<noteq> [] then [[], ''Goal: '' @ goal_text g goal] else []);
                       total = (if goal \<noteq> [] then length (goal_text g goal) else 0)
                         + sum_list (map (\<lambda>(k, v). if v = [] then 0 else length (sanitizeMemoryContent g v)) (wm_sections m))
                   in [[], ''Current working memory (last updated: '' @ wm_updatedAt m @ ''):'']
                      @ goalLines @ concat (map (section_lines g) (wm_sections m))
                      @ (if warnLarge \<and> total > 2000
                         then [[], [gl_warn g] @ '' Your working memory is '' @ nat_str total
                                @ '' characters. Consider condensing sections to keep token usage low.'']
                         else [])))))"

section \<open>Reserved tags\<close>

fun reserved_free :: "string \<Rightarrow> bool" where
  "reserved_free [] = True"
| "reserved_free (c # s) = (reserved_tag (c # s) = None \<and> reserved_free s)"

text \<open>The two glyphs that stand for the angle brackets are no brackets, no slash and no characters of a name.\<close>

definition quote_glyphs_ok :: "glyphs \<Rightarrow> bool" where
  "quote_glyphs_ok g \<longleftrightarrow>
     list_all (\<lambda>c. c \<noteq> lt_char \<and> c \<noteq> gt_char \<and> c \<noteq> CHR ''/'' \<and> \<not> key_char c) [gl_lt g, gl_gt g]"

definition quoted :: "glyphs \<Rightarrow> string \<Rightarrow> string \<Rightarrow> bool" where
  "quoted g = list_all2 (\<lambda>c d. d = c \<or> (c = lt_char \<and> d = gl_lt g) \<or> (c = gt_char \<and> d = gl_gt g))"

lemma quoted_refl: "quoted g s s"
  by (simp add: quoted_def list_all2_refl)

lemma quoted_tags: "quoted g s (quote_tags g n s)"
  by (induction g n s rule: quote_tags.induct)
     (auto simp: quoted_def quote_char_def list_all2_refl split: option.splits)

lemma brackets_plain: "\<not> key_char lt_char" "\<not> key_char gt_char" "lt_char \<noteq> CHR ''/''" "gt_char \<noteq> CHR ''/''" "lt_char \<noteq> gt_char"
  by (simp_all add: key_char_def)

lemma underscore_code: "c = CHR ''_'' \<longleftrightarrow> (of_char c :: nat) = 95"
  using of_char_eq_iff[of c "CHR ''_''", where 'a = nat] by simp

lemma lower_key:
  assumes "lower_char c = lower_char p" "key_char p"
  shows "key_char c"
proof -
  have "(of_char (lower_char c) :: nat) = of_char (lower_char p)" using assms(1) by simp
  then show ?thesis using assms(2) unfolding of_lower_char key_char_def Let_def underscore_code
    by (simp split: if_splits; arith)
qed

lemma quoted_key:
  assumes "quote_glyphs_ok g" "d = c \<or> (c = lt_char \<and> d = gl_lt g) \<or> (c = gt_char \<and> d = gl_gt g)"
  shows "key_char d \<longleftrightarrow> key_char c" "key_char c \<Longrightarrow> d = c" "d = CHR ''/'' \<longleftrightarrow> c = CHR ''/''" "d = gt_char \<Longrightarrow> c = gt_char"
  using assms brackets_plain by (auto simp: quote_glyphs_ok_def)

lemma eat_ci_quoted:
  assumes "quote_glyphs_ok g"
  shows "quoted g s s' \<Longrightarrow> list_all key_char ps \<Longrightarrow> rel_option (quoted g) (eat_ci ps s) (eat_ci ps s')"
proof (induction ps s arbitrary: s' rule: eat_ci.induct)
  case (3 p ps c s)
  then obtain d t where s': "s' = d # t" and t: "quoted g s t"
    and d: "d = c \<or> (c = lt_char \<and> d = gl_lt g) \<or> (c = gt_char \<and> d = gl_gt g)"
    by (auto simp: quoted_def list_all2_Cons1)
  have p: "key_char p" using 3(3) by simp
  have "lower_char d = lower_char p \<longleftrightarrow> lower_char c = lower_char p"
    using quoted_key(1,2)[OF assms d] lower_key[OF _ p, of c] lower_key[OF _ p, of d] by metis
  with 3 s' t show ?case by simp
qed (auto simp: quoted_def)

lemma dropWhile_quoted:
  assumes "quote_glyphs_ok g"
  shows "quoted g s s' \<Longrightarrow> quoted g (dropWhile key_char s) (dropWhile key_char s')
     \<and> (takeWhile key_char s = [] \<longleftrightarrow> takeWhile key_char s' = [])"
proof (induction s arbitrary: s')
  case (Cons c s)
  then obtain d t where s': "s' = d # t" and t: "quoted g s t"
    and d: "d = c \<or> (c = lt_char \<and> d = gl_lt g) \<or> (c = gt_char \<and> d = gl_gt g)"
    by (auto simp: quoted_def list_all2_Cons1)
  show ?case using quoted_key(1)[OF assms d] Cons.IH[OF t] Cons.prems s' by auto
qed (simp add: quoted_def)

lemma word_ends_quoted: "quote_glyphs_ok g \<Longrightarrow> quoted g s s' \<Longrightarrow> word_ends s \<longleftrightarrow> word_ends s'"
  by (cases s; cases s') (auto simp: quoted_def word_ends_def dest: quoted_key(1))

lemma reserved_name_quoted:
  assumes g: "quote_glyphs_ok g" and q: "quoted g s s'"
  shows "rel_option (quoted g) (reserved_name s) (reserved_name s')"
proof -
  have keys: "list_all key_char ''current_memory''" "list_all key_char ''section_''" by (simp_all add: key_char_def)
  note c = eat_ci_quoted[OF g q keys(1)] and e = eat_ci_quoted[OF g q keys(2)]
  show ?thesis
  proof (cases "eat_ci ''current_memory'' s")
    case (Some r)
    with c obtain r' where r': "eat_ci ''current_memory'' s' = Some r'" "quoted g r r'" by (cases "eat_ci ''current_memory'' s'") (auto simp del: eat_ci.simps)
    with Some word_ends_quoted[OF g r'(2)] show ?thesis by (simp add: reserved_name_def del: eat_ci.simps)
  next
    case None
    with c have n: "eat_ci ''current_memory'' s' = None" by (cases "eat_ci ''current_memory'' s'") (auto simp del: eat_ci.simps)
    show ?thesis
    proof (cases "eat_ci ''section_'' s")
      case (Some r)
      with e obtain r' where r': "eat_ci ''section_'' s' = Some r'" "quoted g r r'" by (cases "eat_ci ''section_'' s'") (auto simp del: eat_ci.simps)
      with Some None n dropWhile_quoted[OF g r'(2)] show ?thesis by (simp add: reserved_name_def del: eat_ci.simps)
    next
      case absent: None
      with e have "eat_ci ''section_'' s' = None" by (cases "eat_ci ''section_'' s'") (auto simp del: eat_ci.simps)
      with None n absent show ?thesis by (simp add: reserved_name_def del: eat_ci.simps)
    qed
  qed
qed

lemma eat_slash_quoted: "quote_glyphs_ok g \<Longrightarrow> quoted g s s' \<Longrightarrow> quoted g (eat_opt (CHR ''/'') s) (eat_opt (CHR ''/'') s')"
  by (cases s; cases s') (auto simp: quoted_def eat_opt_def dest: quoted_key(3))

lemma gt_quoted: "quote_glyphs_ok g \<Longrightarrow> quoted g s s' \<Longrightarrow> gt_char \<in> set s' \<Longrightarrow> gt_char \<in> set s"
proof (induction s arbitrary: s')
  case (Cons c s)
  then obtain d t where s': "s' = d # t" and t: "quoted g s t"
    and d: "d = c \<or> (c = lt_char \<and> d = gl_lt g) \<or> (c = gt_char \<and> d = gl_gt g)"
    by (auto simp: quoted_def list_all2_Cons1)
  then show ?case using Cons quoted_key(4)[OF Cons.prems(1) d] by auto
qed (simp add: quoted_def)

lemma reserved_tag_parts:
  assumes "reserved_tag (c # s) \<noteq> None"
  shows "c = lt_char \<and> (\<exists>r. reserved_name (eat_opt (CHR ''/'') s) = Some r \<and> gt_char \<in> set r)"
proof -
  have c: "c = lt_char" using assms by (cases "c = lt_char") (simp_all add: reserved_tag_def)
  obtain r where r: "reserved_name (eat_opt (CHR ''/'') s) = Some r"
    using assms c by (cases "reserved_name (eat_opt (CHR ''/'') s)") (simp_all add: reserved_tag_def)
  have "dropWhile (\<lambda>d. d \<noteq> gt_char) r \<noteq> []"
    using assms c r by (cases "dropWhile (\<lambda>d. d \<noteq> gt_char) r") (simp_all add: reserved_tag_def)
  then have "gt_char \<in> set r" by (simp add: dropWhile_eq_Nil_conv)
  with c r show ?thesis by blast
qed

lemma reserved_tag_quoted:
  assumes "quote_glyphs_ok g" "quoted g s s'" "reserved_tag (c # s) = None"
  shows "reserved_tag (c # s') = None"
proof (rule ccontr)
  assume "reserved_tag (c # s') \<noteq> None"
  then obtain r' where c: "c = lt_char" and r': "reserved_name (eat_opt (CHR ''/'') s') = Some r'" and gt: "gt_char \<in> set r'"
    using reserved_tag_parts by blast
  from reserved_name_quoted[OF assms(1) eat_slash_quoted[OF assms(1,2)]] r'
  obtain r where r: "reserved_name (eat_opt (CHR ''/'') s) = Some r" "quoted g r r'"
    by (cases "reserved_name (eat_opt (CHR ''/'') s)") auto
  have "gt_char \<in> set r" using gt_quoted[OF assms(1) r(2) gt] .
  then have "dropWhile (\<lambda>d. d \<noteq> gt_char) r \<noteq> []" by (auto simp: dropWhile_eq_Nil_conv)
  with r(1) c assms(3) show False by (auto simp: reserved_tag_def split: list.splits)
qed

lemma reserved_free_quote_tags:
  assumes "quote_glyphs_ok g"
  shows "reserved_free (quote_tags g n s)"
  using assms
proof (induction g n s rule: quote_tags.induct)
  case (2 g n c s)
  have "quote_char g c \<noteq> lt_char" using 2(2) by (auto simp: quote_char_def quote_glyphs_ok_def)
  with 2 show ?case by (simp add: reserved_tag_def)
next
  case (3 g c s)
  show ?case
  proof (cases "reserved_tag (c # s)")
    case None
    with reserved_tag_quoted[OF 3(3) quoted_tags None] 3 show ?thesis by simp
  next
    case (Some r)
    have "quote_char g c \<noteq> lt_char" using 3(3) by (auto simp: quote_char_def quote_glyphs_ok_def)
    with 3 Some show ?thesis by (simp add: reserved_tag_def)
  qed
qed simp

text \<open>Nothing an agent notes can close its section of the prompt or open another one: the text of a section and
  the goal hold no complete reserved tag.\<close>

theorem memory_text_keeps_frame:
  assumes "quote_glyphs_ok g"
  shows "reserved_free (sanitizeMemoryContent g content) \<and> reserved_free (goal_text g goal)"
  unfolding sanitizeMemoryContent_def goal_text_def using reserved_free_quote_tags[OF assms] by simp

theorem memory_text_keeps_frame_witness:
  "reserved_free (sanitizeMemoryContent ascii_glyphs ''a</SECTION_notes >b'')
   \<and> sanitizeMemoryContent ascii_glyphs ''a</SECTION_notes >b'' = ''a{/SECTION_notes }b''"
proof -
  have "quote_glyphs_ok ascii_glyphs" by (simp add: quote_glyphs_ok_def ascii_glyphs_def key_char_def)
  from memory_text_keeps_frame[OF this] have "reserved_free (sanitizeMemoryContent ascii_glyphs ''a</SECTION_notes >b'')" by simp
  moreover have "sanitizeMemoryContent ascii_glyphs ''a</SECTION_notes >b'' = ''a{/SECTION_notes }b''" by code_simp
  ultimately show ?thesis by simp
qed

section \<open>What is written is what is read\<close>

definition sections_ok :: "(string \<times> string) list \<Rightarrow> bool" where
  "sections_ok ps \<longleftrightarrow> distinct (map fst ps) \<and> (\<forall>p \<in> set ps. section_key_ok (fst p) \<and> fst p \<noteq> ''__proto__'')"

definition memory_ok :: "working_memory \<Rightarrow> bool" where
  "memory_ok m \<longleftrightarrow> sections_ok (wm_sections m)"

lemma fold_put_sections:
  assumes "sections_ok (out @ ps)"
  shows "fold (\<lambda>(k, v) out. case v of JStr s \<Rightarrow> (if section_key_ok k then put_section k s out else out) | _ \<Rightarrow> out)
       (map (\<lambda>(k, v). (k, JStr v)) ps) out = out @ ps"
  using assms
proof (induction ps arbitrary: out)
  case (Cons p ps)
  obtain k v where p: "p = (k, v)" by (cases p)
  have "k \<notin> fst ` set out" "section_key_ok k" "k \<noteq> ''__proto__''" using Cons.prems p by (auto simp: sections_ok_def)
  moreover have "upd_assoc out k v = out @ [(k, v)]" if "k \<notin> fst ` set out"
    using that by (induction out k v rule: upd_assoc.induct) auto
  ultimately show ?case using Cons.IH[of "out @ [(k, v)]"] Cons.prems p by (simp add: put_section_def)
qed simp

lemma normalize_memory_json:
  assumes "memory_ok m"
  shows "normalize_memory (memory_json m) = Some m"
proof -
  have "sanitizeSections (JObj (map (\<lambda>(k, v). (k, JStr v)) (wm_sections m))) = wm_sections m"
    using fold_put_sections[of "[]" "wm_sections m"] assms by (simp add: sanitizeSections_def memory_ok_def)
  then show ?thesis by (cases "wm_goal m") (simp_all add: normalize_memory_def memory_json_def some_or_def)
qed

text \<open>A memory that is written is read back as it is, wherever an older file may lie.\<close>

theorem memory_round_trip:
  assumes "memory_ok m"
  shows "snd (readWorkingMemory mv (writeWorkingMemory m f)) = Some m"
  using normalize_memory_json[OF assms]
  by (simp add: readWorkingMemory_def writeWorkingMemory_def resolveReadPath_def file_at_def)

lemma sections_ok_put: "sections_ok ps \<Longrightarrow> section_key_ok k \<Longrightarrow> sections_ok (put_section k v ps)"
  using distinct_upd_assoc[of ps k v] set_upd_assoc_distinct[of ps k v]
  by (auto simp: put_section_def sections_ok_def)

lemma sections_ok_filter: "sections_ok ps \<Longrightarrow> sections_ok (filter P ps)"
  by (auto simp: sections_ok_def distinct_map_filter)

lemma sanitized_sections_ok: "sections_ok (sanitizeSections raw)"
proof (cases raw)
  case (JObj ps)
  have "sections_ok out \<Longrightarrow>
    sections_ok (fold (\<lambda>(k, v) out. case v of JStr s \<Rightarrow> (if section_key_ok k then put_section k s out else out) | _ \<Rightarrow> out) ps out)"
    for out
  proof (induction ps arbitrary: out)
    case (Cons p ps)
    obtain k v where p: "p = (k, v)" by (cases p)
    show ?case using Cons.IH Cons.prems sections_ok_put[of out k] by (cases v) (simp_all add: p)
  qed simp
  from this[of "[]"] JObj show ?thesis by (simp add: sanitizeSections_def sections_ok_def)
qed (simp_all add: sanitizeSections_def sections_ok_def)

lemma default_section_ok: "section_key_ok DEFAULT_SECTION" "DEFAULT_SECTION \<noteq> ''__proto__''"
  by (simp_all add: section_key_ok_def DEFAULT_SECTION_def key_char_def)

text \<open>Whatever a file holds, the memory that is read is well formed.\<close>

lemma read_memory_ok: "normalize_memory raw = Some m \<Longrightarrow> memory_ok m"
  using sanitized_sections_ok default_section_ok
  by (auto simp: normalize_memory_def memory_ok_def sections_ok_def[of "[(DEFAULT_SECTION, _)]"] sections_ok_def[of "[]"]
      split: if_splits jsval.splits)

lemma changed_memory_ok:
  assumes "memory_ok m" "mu_content u \<noteq> None \<Longrightarrow> section_key_ok k"
  shows "memory_ok (changed_memory u k m)"
  using assms
  by (auto simp: changed_memory_def memory_ok_def Let_def sections_ok_filter sections_ok_put split: option.splits)

definition updated_from :: "move_result \<Rightarrow> memory_files \<Rightarrow> working_memory" where
  "updated_from mv f = some_or (snd (readWorkingMemory mv f)) \<lparr>wm_goal = None, wm_sections = [], wm_updatedAt = []\<rparr>"

lemma updated_from_ok: "memory_ok (updated_from mv f)"
proof -
  have "snd (readWorkingMemory mv f) = Some m \<Longrightarrow> memory_ok m" for m
    by (auto simp: readWorkingMemory_def split: prod.splits option.splits intro: read_memory_ok)
  then show ?thesis by (simp add: updated_from_def some_or_def memory_ok_def sections_ok_def[of "[]"] split: option.splits)
qed

lemma update_accepted:
  assumes "updateWorkingMemory mv now u f = (f1, Inr r)"
  shows "ur_memory r = (changed_memory u (trim (some_or (mu_section u) DEFAULT_SECTION)) (updated_from mv f))\<lparr>wm_updatedAt := now\<rparr>"
    "ur_totalChars r \<le> MAX_TOTAL_CHARS" "ur_totalChars r = total_chars (ur_memory r)"
    "mu_content u \<noteq> None \<Longrightarrow> section_key_ok (trim (some_or (mu_section u) DEFAULT_SECTION))"
    "mf_cli f1 = Some (Some (memory_json (ur_memory r)))"
    "mu_content u = Some c \<Longrightarrow> ur_sectionPresent r = (c \<noteq> [])"
  using assms
  by (auto simp: updateWorkingMemory_def updated_from_def writeWorkingMemory_def total_chars_def Let_def
      split: if_splits prod.splits)

text \<open>A change that is accepted leaves a memory within its bound, and the next reading finds exactly the changed
  memory: the goal and the section that were given, and every other section as it was.\<close>

theorem accepted_update_is_read:
  assumes "updateWorkingMemory mv now u f = (f1, Inr r)"
    and "mu_content u = Some c" "k = trim (some_or (mu_section u) DEFAULT_SECTION)" "k \<noteq> ''__proto__''"
  shows "snd (readWorkingMemory mv2 f1) = Some (ur_memory r) \<and> total_chars (ur_memory r) \<le> 20000
       \<and> map_of (wm_sections (ur_memory r)) = (map_of (wm_sections (updated_from mv f)))(k := if c = [] then None else Some c)
       \<and> wm_goal (ur_memory r) = (case mu_goal u of Some g \<Rightarrow> (if g = [] then None else Some g) | None \<Rightarrow> wm_goal (updated_from mv f))"
proof -
  note acc = update_accepted[OF assms(1)]
  have m: "memory_ok (ur_memory r)"
    using changed_memory_ok[OF updated_from_ok acc(4), of u mv f] acc(1) by (simp add: memory_ok_def)
  have "snd (readWorkingMemory mv2 f1) = Some (ur_memory r)"
    using normalize_memory_json[OF m] acc(5) by (simp add: readWorkingMemory_def resolveReadPath_def file_at_def)
  moreover have "map_of (filter (\<lambda>p. fst p \<noteq> k) ps) = (map_of ps)(k := None)" for ps :: "(string \<times> string) list"
    by (induction ps) (auto simp: fun_eq_iff)
  ultimately show ?thesis using acc(1-3) assms(2-4)
    by (auto simp: changed_memory_def Let_def put_section_def MAX_TOTAL_CHARS_def split: option.splits)
qed

definition new_note :: memory_update where
  "new_note = \<lparr>mu_goal = None, mu_section = Some ''contacts'', mu_content = Some ''bob''\<rparr>"

definition no_files :: memory_files where
  "no_files = \<lparr>mf_cli = None, mf_state = None, mf_legacy = None\<rparr>"

theorem accepted_update_is_read_witness:
  "\<exists>f1 r. updateWorkingMemory Moved ''now'' new_note no_files = (f1, Inr r)
     \<and> snd (readWorkingMemory Moved f1) = Some (ur_memory r) \<and> map_of (wm_sections (ur_memory r)) ''contacts'' = Some ''bob''"
proof -
  have ok: "case snd (updateWorkingMemory Moved ''now'' new_note no_files) of Inr r \<Rightarrow> True | Inl e \<Rightarrow> False"
    by code_simp
  obtain f1 r where r: "updateWorkingMemory Moved ''now'' new_note no_files = (f1, Inr r)"
  proof (cases "snd (updateWorkingMemory Moved ''now'' new_note no_files)")
    case (Inr r)
    then show thesis using that[of "fst (updateWorkingMemory Moved ''now'' new_note no_files)" r] by (metis prod.collapse)
  qed (use ok in simp)
  have k: "''contacts'' = trim (some_or (mu_section new_note) DEFAULT_SECTION)" by code_simp
  have "mu_content new_note = Some ''bob''" by (simp add: new_note_def)
  from accepted_update_is_read[OF r this k, of Moved] r show ?thesis by auto
qed

text \<open>The name \<open>__proto__\<close> passes the check of section names, but the content is not kept, although the answer says
  that the section is there.\<close>

theorem proto_section_is_lost:
  assumes "updateWorkingMemory mv now u f = (f1, Inr r)" "mu_section u = Some ''__proto__''" "mu_content u = Some c" "c \<noteq> []"
  shows "ur_sectionPresent r \<and> map_of (wm_sections (ur_memory r)) ''__proto__'' = None"
proof -
  note acc = update_accepted[OF assms(1)]
  have m: "memory_ok (ur_memory r)"
    using changed_memory_ok[OF updated_from_ok acc(4), of u mv f] acc(1) by (simp add: memory_ok_def)
  then have "''__proto__'' \<notin> fst ` set (wm_sections (ur_memory r))" by (auto simp: memory_ok_def sections_ok_def)
  then show ?thesis using acc(6)[OF assms(3)] assms(4) by (simp add: map_of_eq_None_iff)
qed

text \<open>A file that cannot be parsed counts as no memory, and the next change overwrites it.\<close>

lemma unreadable_memory_overwritten:
  assumes "mf_cli f = Some None" "mu_goal u = Some g" "mu_content u = None" "length g \<le> 500"
  shows "\<exists>r. updateWorkingMemory mv now u f = (f\<lparr>mf_cli := Some (Some (memory_json (ur_memory r)))\<rparr>, Inr r)
      \<and> wm_sections (ur_memory r) = []"
  using assms
  by (auto simp: updateWorkingMemory_def readWorkingMemory_def resolveReadPath_def file_at_def writeWorkingMemory_def
      changed_memory_def total_chars_def some_or_def MAX_GOAL_CHARS_def MAX_TOTAL_CHARS_def Let_def split: option.splits)

text \<open>A memory above the bound cannot be reduced step by step: removing a section is refused as long as the rest is
  above it.\<close>

lemma oversized_memory_cannot_shrink:
  assumes "mu_goal u = None" "mu_content u = Some []" "section_key_ok (trim (some_or (mu_section u) DEFAULT_SECTION))"
    and "total_chars (changed_memory u (trim (some_or (mu_section u) DEFAULT_SECTION)) (updated_from mv f)) > 20000"
  shows "\<exists>f1 n. updateWorkingMemory mv now u f = (f1, Inl (TotalTooLong n))"
  using assms
  by (auto simp: updateWorkingMemory_def updated_from_def MAX_TOTAL_CHARS_def MAX_SECTION_CHARS_def MAX_GOAL_CHARS_def some_or_def
      Let_def split: option.splits prod.splits)

end
