(* ===== verification/User_Auth.thy ===== *)
theory User_Auth
  imports Working_Memory
begin

text \<open>
  The login of the daemon (\<open>daemon/src/user-auth.ts\<close>, \<open>start-auth.ts\<close>, the login part of \<open>index.ts\<close>,
  \<open>cloud-mode.ts\<close>, \<open>cloud-auth.ts\<close> and \<open>protocol-core/src/daemon-client.ts\<close>): the stored record, the
  manager that refreshes it for all callers at once, and the polling of a device login.

  The steps of the manager interleave with answers of the Hub and with other processes that write the
  same file. Times are milliseconds; a lifetime may be infinite, since a JSON number may be too large
  for a double. The file holds its mode and the parsed document (\<open>None\<close> when it cannot be parsed).
\<close>

unbundle bit_operations_syntax

section \<open>Tokens\<close>

record daemon_token =
  dt_accessToken :: string
  dt_refreshToken :: string
  dt_expiresIn :: jsnum
  dt_userId :: string
  dt_daemonInstanceId :: string
  dt_hubUrl :: string

definition pick :: "jsval \<Rightarrow> string \<Rightarrow> string \<Rightarrow> jsval" where
  "pick obj camel snake = (if nullish (get_prop obj camel) then get_prop obj snake else get_prop obj camel)"

fun positive_or :: "jsval \<Rightarrow> rat \<Rightarrow> jsnum" where
  "positive_or (JNum (Fin q)) d = (if q > 0 then Fin q else Fin d)"
| "positive_or (JNum PosInf) d = PosInf"
| "positive_or _ d = Fin d"

text \<open>The first missing field is the error.\<close>

definition parseTokenResponse :: "jsval \<Rightarrow> string \<Rightarrow> string + daemon_token" where
  "parseTokenResponse raw fallbackHubUrl =
     (case nonempty_str (pick raw ''accessToken'' ''access_token'') of None \<Rightarrow> Inl ''accessToken'' | Some a \<Rightarrow>
     (case nonempty_str (pick raw ''refreshToken'' ''refresh_token'') of None \<Rightarrow> Inl ''refreshToken'' | Some r \<Rightarrow>
     (case nonempty_str (pick raw ''userId'' ''user_id'') of None \<Rightarrow> Inl ''userId'' | Some u \<Rightarrow>
     (case nonempty_str (pick raw ''daemonInstanceId'' ''daemon_instance_id'') of None \<Rightarrow> Inl ''daemonInstanceId'' | Some d \<Rightarrow>
       Inr \<lparr>dt_accessToken = a, dt_refreshToken = r,
         dt_expiresIn = positive_or (pick raw ''expiresIn'' ''expires_in'') 3600, dt_userId = u, dt_daemonInstanceId = d,
         dt_hubUrl = some_or (nonempty_str (pick raw ''hubUrl'' ''hub_url'')) fallbackHubUrl\<rparr>))))"

section \<open>The stored record\<close>

record user_auth =
  ua_userId :: string
  ua_daemonInstanceId :: string
  ua_hubUrl :: string
  ua_accessToken :: string
  ua_refreshToken :: string
  ua_expiresAt :: jsnum
  ua_loggedInAt :: string
  ua_label :: "string option"

record auth_file =
  af_mode :: nat
  af_doc :: "jsval option"

datatype auth_error = Insecure nat | NotJson | NotObject | MissingText string | MissingNumber string

text \<open>\<open>assertSecurePermissions\<close>: no bit outside the owner's, \<open>0o077\<close>.\<close>

definition securePermissions :: "nat \<Rightarrow> bool" where
  "securePermissions mode \<longleftrightarrow> mode AND 63 = 0"

definition parse_user_auth :: "string \<Rightarrow> jsval \<Rightarrow> auth_error + user_auth" where
  "parse_user_auth now obj =
     (let str = (\<lambda>k. nonempty_str (get_prop obj k)) in
      case str ''userId'' of None \<Rightarrow> Inl (MissingText ''userId'') | Some userId \<Rightarrow>
     (case str ''daemonInstanceId'' of None \<Rightarrow> Inl (MissingText ''daemonInstanceId'') | Some inst \<Rightarrow>
     (case str ''hubUrl'' of None \<Rightarrow> Inl (MissingText ''hubUrl'') | Some hubUrl \<Rightarrow>
     (case str ''accessToken'' of None \<Rightarrow> Inl (MissingText ''accessToken'') | Some a \<Rightarrow>
     (case str ''refreshToken'' of None \<Rightarrow> Inl (MissingText ''refreshToken'') | Some r \<Rightarrow>
     (case finite_num (get_prop obj ''expiresAt'') of None \<Rightarrow> Inl (MissingNumber ''expiresAt'') | Some e \<Rightarrow>
       Inr \<lparr>ua_userId = userId, ua_daemonInstanceId = inst, ua_hubUrl = hubUrl, ua_accessToken = a, ua_refreshToken = r,
         ua_expiresAt = Fin e, ua_loggedInAt = some_or (as_str (get_prop obj ''loggedInAt'')) now,
         ua_label = as_str (get_prop obj ''label'')\<rparr>))))))"

definition loadUserAuth :: "string \<Rightarrow> auth_file option \<Rightarrow> auth_error + user_auth option" where
  "loadUserAuth now f =
     (case f of
        None \<Rightarrow> Inr None
      | Some h \<Rightarrow>
          if \<not> securePermissions (af_mode h) then Inl (Insecure (af_mode h AND 511))
          else (case af_doc h of
             None \<Rightarrow> Inl NotJson
           | Some doc \<Rightarrow>
               if \<not> is_object doc then Inl NotObject
               else (case parse_user_auth now doc of Inl e \<Rightarrow> Inl e | Inr r \<Rightarrow> Inr (Some r))))"

text \<open>The document of a record: a number that is not finite is written as \<open>null\<close>, an absent label is left out.\<close>

definition user_auth_json :: "user_auth \<Rightarrow> jsval" where
  "user_auth_json r =
     JObj ([(''version'', JNum (Fin 1)), (''userId'', JStr (ua_userId r)), (''daemonInstanceId'', JStr (ua_daemonInstanceId r)),
        (''hubUrl'', JStr (ua_hubUrl r)), (''accessToken'', JStr (ua_accessToken r)), (''refreshToken'', JStr (ua_refreshToken r)),
        (''expiresAt'', case ua_expiresAt r of Fin q \<Rightarrow> JNum (Fin q) | _ \<Rightarrow> JNull), (''loggedInAt'', JStr (ua_loggedInAt r))]
       @ (case ua_label r of Some l \<Rightarrow> [(''label'', JStr l)] | None \<Rightarrow> []))"

definition saveUserAuth :: "user_auth \<Rightarrow> auth_file option" where
  "saveUserAuth r = Some \<lparr>af_mode = 384, af_doc = Some (user_auth_json r)\<rparr>"

definition expires_at :: "rat \<Rightarrow> jsnum \<Rightarrow> jsnum" where
  "expires_at now e = (case e of Fin q \<Rightarrow> Fin (now + q * 1000) | n \<Rightarrow> n)"

definition userAuthFromTokenResponse :: "rat \<Rightarrow> string \<Rightarrow> daemon_token \<Rightarrow> string option \<Rightarrow> string option \<Rightarrow> user_auth" where
  "userAuthFromTokenResponse now stamp tok label loggedInAt =
     \<lparr>ua_userId = dt_userId tok, ua_daemonInstanceId = dt_daemonInstanceId tok, ua_hubUrl = dt_hubUrl tok,
      ua_accessToken = dt_accessToken tok, ua_refreshToken = dt_refreshToken tok,
      ua_expiresAt = expires_at now (dt_expiresIn tok), ua_loggedInAt = some_or loggedInAt stamp,
      ua_label = (case label of Some l \<Rightarrow> (if l = [] then None else Some l) | None \<Rightarrow> None)\<rparr>"

definition isTokenNearExpiry :: "rat \<Rightarrow> user_auth \<Rightarrow> bool" where
  "isTokenNearExpiry now r =
     (case ua_expiresAt r of Fin q \<Rightarrow> q - now \<le> 60000 | NegInf \<Rightarrow> True | _ \<Rightarrow> False)"

section \<open>The manager\<close>

datatype refresh_error = NotLoggedIn | RefreshRejected nat | RefreshFailed

text \<open>A refresh that is under way waits for the Hub, or has its outcome and is about to hand it out.\<close>

datatype refresh_stage = Asking user_auth | Settling "refresh_error + user_auth"

record auth_manager =
  am_record :: "user_auth option"
  am_inflight :: "refresh_stage option"
  am_waiting :: "nat list"
  am_answers :: "(nat \<times> (refresh_error + user_auth)) list"
  am_file :: "auth_file option"
  am_expired :: bool
  am_sent :: "string list"
  am_replied :: nat

datatype hub_reply = TokenReply jsval | RefusedReply nat | NoReply

text \<open>The part of the refresh before the request: the record on disk is adopted when its refresh token differs; a
  fresh one ends the refresh, otherwise it is the basis of the request. An address that is not accepted fails
  before anything is sent.\<close>

definition begin_refresh :: "client_env \<Rightarrow> rat \<Rightarrow> string \<Rightarrow> user_auth \<Rightarrow> auth_manager \<Rightarrow> auth_manager" where
  "begin_refresh env now stamp current m =
     (let onDisk = (case loadUserAuth stamp (am_file m) of Inr (Some d) \<Rightarrow> (if ua_refreshToken d \<noteq> ua_refreshToken current then Some d else None) | _ \<Rightarrow> None);
          m1 = (case onDisk of Some d \<Rightarrow> m\<lparr>am_record := Some d\<rparr> | None \<Rightarrow> m);
          basis = some_or onDisk current
      in if onDisk \<noteq> None \<and> \<not> isTokenNearExpiry now basis then m1\<lparr>am_inflight := Some (Settling (Inr basis))\<rparr>
         else (case normalizeAndValidateHubUrl env (ua_hubUrl basis) of
            Inl e \<Rightarrow> m1\<lparr>am_inflight := Some (Settling (Inl RefreshFailed))\<rparr>
          | Inr url \<Rightarrow> m1\<lparr>am_inflight := Some (Asking basis), am_sent := am_sent m @ [ua_refreshToken basis]\<rparr>))"

definition refresh :: "client_env \<Rightarrow> rat \<Rightarrow> string \<Rightarrow> nat \<Rightarrow> auth_manager \<Rightarrow> auth_manager" where
  "refresh env now stamp caller m =
     (case am_record m of
        None \<Rightarrow> m\<lparr>am_answers := am_answers m @ [(caller, Inl NotLoggedIn)]\<rparr>
      | Some current \<Rightarrow>
          (let m1 = (if am_inflight m \<noteq> None then m else begin_refresh env now stamp current m)
           in m1\<lparr>am_waiting := am_waiting m1 @ [caller]\<rparr>))"

definition ensureAccessToken :: "client_env \<Rightarrow> rat \<Rightarrow> string \<Rightarrow> nat \<Rightarrow> auth_manager \<Rightarrow> auth_manager" where
  "ensureAccessToken env now stamp caller m =
     (case am_record m of
        None \<Rightarrow> m\<lparr>am_answers := am_answers m @ [(caller, Inl NotLoggedIn)]\<rparr>
      | Some r \<Rightarrow>
          if \<not> isTokenNearExpiry now r then m\<lparr>am_answers := am_answers m @ [(caller, Inr r)]\<rparr>
          else refresh env now stamp caller m)"

definition refreshed :: "rat \<Rightarrow> daemon_token \<Rightarrow> user_auth \<Rightarrow> user_auth" where
  "refreshed now tok basis =
     basis\<lparr>ua_accessToken := dt_accessToken tok, ua_refreshToken := dt_refreshToken tok,
       ua_expiresAt := expires_at now (dt_expiresIn tok),
       ua_hubUrl := (if dt_hubUrl tok \<noteq> [] then dt_hubUrl tok else ua_hubUrl basis)\<rparr>"

text \<open>The answer of the Hub. The record is replaced in memory only after it has been saved, which may fail; a
  refusal writes the flag.\<close>

definition hub_replies :: "client_env \<Rightarrow> rat \<Rightarrow> bool \<Rightarrow> hub_reply \<Rightarrow> auth_manager \<Rightarrow> auth_manager" where
  "hub_replies env now saves reply m =
     (case am_inflight m of
        Some (Asking basis) \<Rightarrow>
          (let m1 = m\<lparr>am_replied := am_replied m + 1\<rparr>;
               failed = m1\<lparr>am_inflight := Some (Settling (Inl RefreshFailed))\<rparr>;
               base = (case normalizeAndValidateHubUrl env (ua_hubUrl basis) of Inr url \<Rightarrow> url | Inl e \<Rightarrow> [])
           in case reply of
                NoReply \<Rightarrow> failed
              | RefusedReply status \<Rightarrow>
                  (if status = 401 \<or> status = 403
                   then m1\<lparr>am_inflight := Some (Settling (Inl (RefreshRejected status))), am_expired := True\<rparr>
                   else failed)
              | TokenReply raw \<Rightarrow>
                  (case parseTokenResponse raw base of
                     Inl e \<Rightarrow> failed
                   | Inr tok \<Rightarrow>
                       (let new = refreshed now tok basis
                        in if \<not> saves then failed
                           else m1\<lparr>am_file := saveUserAuth new, am_record := Some new,
                                  am_inflight := Some (Settling (Inr new))\<rparr>)))
      | _ \<Rightarrow> m)"

text \<open>The outcome reaches everyone who waits, and the next refresh starts anew.\<close>

definition hand_out :: "auth_manager \<Rightarrow> auth_manager" where
  "hand_out m =
     (case am_inflight m of
        Some (Settling out) \<Rightarrow>
          m\<lparr>am_inflight := None, am_waiting := [], am_answers := am_answers m @ map (\<lambda>c. (c, out)) (am_waiting m)\<rparr>
      | _ \<Rightarrow> m)"

definition replace_auth :: "user_auth \<Rightarrow> auth_manager \<Rightarrow> auth_manager" where
  "replace_auth r m = m\<lparr>am_file := saveUserAuth r, am_record := Some r, am_expired := False\<rparr>"

definition clear_auth :: "auth_manager \<Rightarrow> auth_manager" where
  "clear_auth m = m\<lparr>am_file := None, am_record := None\<rparr>"

datatype auth_action =
    CallEnsure rat string nat
  | CallRefresh rat string nat
  | HubReplies rat bool hub_reply
  | HandOut
  | Replace user_auth
  | Clear
  | FileChanges "auth_file option"

fun manager_step :: "client_env \<Rightarrow> auth_action \<Rightarrow> auth_manager \<Rightarrow> auth_manager" where
  "manager_step env (CallEnsure now stamp c) m = ensureAccessToken env now stamp c m"
| "manager_step env (CallRefresh now stamp c) m = refresh env now stamp c m"
| "manager_step env (HubReplies now saves reply) m = hub_replies env now saves reply m"
| "manager_step env HandOut m = hand_out m"
| "manager_step env (Replace r) m = replace_auth r m"
| "manager_step env Clear m = clear_auth m"
| "manager_step env (FileChanges f) m = m\<lparr>am_file := f\<rparr>"

definition new_manager :: "user_auth option \<Rightarrow> auth_file option \<Rightarrow> bool \<Rightarrow> auth_manager" where
  "new_manager r f flag =
     \<lparr>am_record = r, am_inflight = None, am_waiting = [], am_answers = [], am_file = f, am_expired = flag, am_sent = [],
      am_replied = 0\<rparr>"

text \<open>\<open>UserAuthManager.load\<close>.\<close>

definition load_manager :: "string \<Rightarrow> auth_file option \<Rightarrow> bool \<Rightarrow> auth_error + auth_manager" where
  "load_manager stamp f flag = (case loadUserAuth stamp f of Inl e \<Rightarrow> Inl e | Inr r \<Rightarrow> Inr (new_manager r f flag))"

definition manager_run :: "client_env \<Rightarrow> auth_action list \<Rightarrow> auth_manager \<Rightarrow> auth_manager" where
  "manager_run env evs m = fold (manager_step env) evs m"


section \<open>Login\<close>

record device_code =
  dc_deviceCode :: string
  dc_userCode :: string
  dc_verificationUri :: string
  dc_verificationUriComplete :: "string option"
  dc_expiresIn :: jsnum
  dc_interval :: jsnum

definition parseDeviceCodeResponse :: "jsval \<Rightarrow> string + device_code" where
  "parseDeviceCodeResponse raw =
     (case nonempty_str (pick raw ''deviceCode'' ''device_code'') of None \<Rightarrow> Inl ''deviceCode'' | Some d \<Rightarrow>
     (case nonempty_str (pick raw ''userCode'' ''user_code'') of None \<Rightarrow> Inl ''userCode'' | Some u \<Rightarrow>
     (case nonempty_str (pick raw ''verificationUri'' ''verification_uri'') of None \<Rightarrow> Inl ''verificationUri'' | Some v \<Rightarrow>
       Inr \<lparr>dc_deviceCode = d, dc_userCode = u, dc_verificationUri = v,
         dc_verificationUriComplete = nonempty_str (pick raw ''verificationUriComplete'' ''verification_uri_complete''),
         dc_expiresIn = positive_or (pick raw ''expiresIn'' ''expires_in'') 600,
         dc_interval = positive_or (pick raw ''interval'' ''interval'') 5\<rparr>)))"

datatype poll_result = Pending | SlowDown jsnum | Issued daemon_token

text \<open>A poll with the status and the body of the response, an empty object when the body is not JSON; \<open>None\<close> is an error.\<close>

definition pollDeviceToken :: "nat \<Rightarrow> jsval \<Rightarrow> string \<Rightarrow> poll_result option" where
  "pollDeviceToken status data base =
     (if status = 200
      then (let st = pick data ''status'' ''state''
            in if st = JStr ''pending'' \<or> st = JStr ''authorization_pending'' then Some Pending
               else if st = JStr ''slow_down'' then Some (SlowDown (positive_or (get_prop data ''interval'') 10))
               else (case parseTokenResponse data base of Inr tok \<Rightarrow> Some (Issued tok) | Inl e \<Rightarrow> None))
      else if status = 400 \<or> status = 428
      then (let err = pick data ''error'' ''code''
            in if err = JStr ''authorization_pending'' then Some Pending
               else if err = JStr ''slow_down'' then Some (SlowDown (positive_or (get_prop data ''interval'') 10))
               else None)
      else None)"

text \<open>\<open>delay\<close>: \<open>setTimeout\<close> takes one millisecond for a delay below one or above 2147483647, and cuts off the fraction.\<close>

definition delay_ms :: "jsnum \<Rightarrow> rat" where
  "delay_ms n = (case n of Fin q \<Rightarrow> (if 1 \<le> q * 1000 \<and> q * 1000 \<le> 2147483647 then of_int \<lfloor>q * 1000\<rfloor> else 1) | _ \<Rightarrow> 1)"

definition num_max :: "jsnum \<Rightarrow> jsnum \<Rightarrow> jsnum" where
  "num_max a b =
     (case a of NaN \<Rightarrow> NaN | PosInf \<Rightarrow> (if b = NaN then NaN else PosInf) | NegInf \<Rightarrow> b
      | Fin p \<Rightarrow> (case b of NaN \<Rightarrow> NaN | PosInf \<Rightarrow> PosInf | NegInf \<Rightarrow> Fin p | Fin q \<Rightarrow> Fin (max p q)))"

definition before_end :: "rat \<Rightarrow> jsnum \<Rightarrow> bool" where
  "before_end now n = (case n of Fin q \<Rightarrow> now < q | PosInf \<Rightarrow> True | _ \<Rightarrow> False)"

datatype login_result = LoggedIn user_auth | LoginExpired | StillPolling

text \<open>The loop of \<open>runDeviceCodeFlow\<close> over the polls to come, each with the time it takes.\<close>

fun poll_loop :: "string \<Rightarrow> string option \<Rightarrow> rat \<Rightarrow> jsnum \<Rightarrow> jsnum \<Rightarrow> (rat \<times> poll_result option) list \<Rightarrow> login_result" where
  "poll_loop stamp label now ends interval [] = (if before_end now ends then StillPolling else LoginExpired)"
| "poll_loop stamp label now ends interval ((took, res) # rest) =
     (if \<not> before_end now ends then LoginExpired
      else
        (let t = now + delay_ms interval + took
         in case res of
              None \<Rightarrow> poll_loop stamp label t ends interval rest
            | Some Pending \<Rightarrow> poll_loop stamp label t ends interval rest
            | Some (SlowDown i) \<Rightarrow> poll_loop stamp label t ends (num_max interval i) rest
            | Some (Issued tok) \<Rightarrow> LoggedIn (userAuthFromTokenResponse t stamp tok label None)))"

definition runDeviceCodeFlow ::
  "string \<Rightarrow> string option \<Rightarrow> rat \<Rightarrow> jsval option \<Rightarrow> (rat \<times> poll_result option) list
     \<Rightarrow> auth_file option \<times> bool \<Rightarrow> (auth_file option \<times> bool) \<times> login_result option" where
  "runDeviceCodeFlow stamp label now codes polls disk =
     (case codes of
        None \<Rightarrow> (disk, None)
      | Some raw \<Rightarrow>
          (case parseDeviceCodeResponse raw of
             Inl e \<Rightarrow> (disk, None)
           | Inr dc \<Rightarrow>
               (case poll_loop stamp label now (expires_at now (dc_expiresIn dc)) (dc_interval dc) polls of
                  LoggedIn r \<Rightarrow> ((saveUserAuth r, False), Some (LoggedIn r))
                | res \<Rightarrow> (disk, Some res))))"

datatype start_auth_action = ReuseExisting | InstallToken | DeviceCode

definition resolveStartAuthAction :: "user_auth option \<Rightarrow> bool \<Rightarrow> string option \<Rightarrow> start_auth_action" where
  "resolveStartAuthAction existing relogin installToken =
     (if installToken \<noteq> None \<and> installToken \<noteq> Some [] then InstallToken
      else if existing \<noteq> None \<and> \<not> relogin then ReuseExisting else DeviceCode)"

record start_args =
  sa_hub :: "string option"
  sa_label :: "string option"
  sa_installToken :: "string option"
  sa_relogin :: bool

text \<open>\<open>defaultLoginLabel\<close>: the name of the machine without the suffix \<open>.local\<close> in any case.\<close>

definition defaultLoginLabel :: "string \<Rightarrow> string" where
  "defaultLoginLabel hostname =
     (let raw0 = trim hostname;
          raw = (if has_suffix (toLowerCase raw0) ''.local'' then take (length raw0 - 6) raw0 else raw0)
      in if raw \<noteq> [] then raw else ''daemon'')"

definition safeLoadUserAuth :: "string \<Rightarrow> auth_file option \<Rightarrow> user_auth option" where
  "safeLoadUserAuth stamp f = (case loadUserAuth stamp f of Inr r \<Rightarrow> r | Inl e \<Rightarrow> None)"

datatype start_outcome = Started user_auth | StartFailed | NoTerminal | PollingStill

definition DEFAULT_HUB :: string where
  "DEFAULT_HUB = ''https://api.botcord.chat''"

text \<open>\<open>ensureUserAuthForStart\<close>. The exchange of the install token is \<open>redeem\<close>, the body of its response for the Hub's
  address and the instance that is sent along, or \<open>None\<close>; the device login has its codes and polls.\<close>

definition ensureUserAuthForStart ::
  "rat \<Rightarrow> string \<Rightarrow> string \<Rightarrow> bool \<Rightarrow> start_args \<Rightarrow> (string \<Rightarrow> string option \<Rightarrow> jsval option)
     \<Rightarrow> jsval option \<Rightarrow> (rat \<times> poll_result option) list \<Rightarrow> auth_file option \<times> bool
     \<Rightarrow> (auth_file option \<times> bool) \<times> start_outcome" where
  "ensureUserAuthForStart now stamp hostname tty args redeem codes polls disk =
     (let existing = safeLoadUserAuth stamp (fst disk);
          action = resolveStartAuthAction existing (sa_relogin args) (sa_installToken args);
          hubUrl = some_or (sa_hub args) (case existing of Some r \<Rightarrow> ua_hubUrl r | None \<Rightarrow> DEFAULT_HUB);
          label = some_or (sa_label args) (defaultLoginLabel hostname)
      in case action of
           ReuseExisting \<Rightarrow> ((fst disk, False), case existing of Some r \<Rightarrow> Started r | None \<Rightarrow> StartFailed)
         | InstallToken \<Rightarrow>
             (let keep = (case existing of
                    Some r \<Rightarrow> (if \<not> sa_relogin args \<and> \<not> snd disk then (disk, Started r) else (disk, StartFailed))
                  | None \<Rightarrow> (disk, StartFailed))
              in case redeem hubUrl (map_option ua_daemonInstanceId existing) of
                   None \<Rightarrow> keep
                 | Some raw \<Rightarrow>
                     (case parseTokenResponse raw hubUrl of
                        Inl e \<Rightarrow> keep
                      | Inr tok \<Rightarrow>
                          (let r = userAuthFromTokenResponse now stamp tok (Some label)
                                 (case existing of
                                    Some x \<Rightarrow> (if ua_daemonInstanceId x \<noteq> [] \<and> ua_daemonInstanceId x = dt_daemonInstanceId tok
                                              then Some (ua_loggedInAt x) else None)
                                  | None \<Rightarrow> None)
                           in ((saveUserAuth r, False), Started r))))
         | DeviceCode \<Rightarrow>
             (if \<not> tty then (disk, NoTerminal)
              else (case runDeviceCodeFlow stamp (Some label) now codes polls disk of
                      (d, Some (LoggedIn r)) \<Rightarrow> (d, Started r)
                    | (d, Some StillPolling) \<Rightarrow> (d, PollingStill)
                    | (d, Some LoginExpired) \<Rightarrow> (d, StartFailed)
                    | (d, None) \<Rightarrow> (d, StartFailed))))"

section \<open>Cloud mode\<close>

record cloud_config =
  cc_hubUrl :: string
  cc_cloudDaemonInstanceId :: string
  cc_daemonInstanceId :: string
  cc_accessToken :: string

definition isCloudMode :: "(string \<Rightarrow> string option) \<Rightarrow> bool" where
  "isCloudMode env \<longleftrightarrow> (case env ''BOTCORD_CLOUD_DAEMON_ACCESS_TOKEN'' of Some t \<Rightarrow> t \<noteq> [] | None \<Rightarrow> False)"

definition require_string :: "(string \<Rightarrow> string option) \<Rightarrow> string \<Rightarrow> string + string" where
  "require_string env name = (case env name of Some v \<Rightarrow> (if v = [] then Inl name else Inr v) | None \<Rightarrow> Inl name)"

definition loadCloudModeConfig :: "(string \<Rightarrow> string option) \<Rightarrow> string + cloud_config" where
  "loadCloudModeConfig env =
     (case require_string env ''BOTCORD_HUB_URL'' of Inl e \<Rightarrow> Inl e | Inr h \<Rightarrow>
     (case require_string env ''BOTCORD_CLOUD_DAEMON_INSTANCE_ID'' of Inl e \<Rightarrow> Inl e | Inr c \<Rightarrow>
     (case require_string env ''BOTCORD_DAEMON_INSTANCE_ID'' of Inl e \<Rightarrow> Inl e | Inr d \<Rightarrow>
     (case require_string env ''BOTCORD_CLOUD_DAEMON_ACCESS_TOKEN'' of Inl e \<Rightarrow> Inl e | Inr t \<Rightarrow>
       Inr \<lparr>cc_hubUrl = h, cc_cloudDaemonInstanceId = c, cc_daemonInstanceId = d, cc_accessToken = t\<rparr>))))"

definition cloud_auth :: "string \<Rightarrow> cloud_config \<Rightarrow> user_auth" where
  "cloud_auth stamp cfg =
     \<lparr>ua_userId = cc_cloudDaemonInstanceId cfg, ua_daemonInstanceId = cc_daemonInstanceId cfg, ua_hubUrl = cc_hubUrl cfg,
      ua_accessToken = cc_accessToken cfg, ua_refreshToken = [], ua_expiresAt = Fin 9007199254740991, ua_loggedInAt = stamp,
      ua_label = Some (''cloud:'' @ cc_cloudDaemonInstanceId cfg)\<rparr>"


section \<open>The stored record is read back\<close>

definition auth_ok :: "user_auth \<Rightarrow> bool" where
  "auth_ok r \<longleftrightarrow> [] \<notin> {ua_userId r, ua_daemonInstanceId r, ua_hubUrl r, ua_accessToken r, ua_refreshToken r}
     \<and> (\<exists>q. ua_expiresAt r = Fin q)"

lemma load_saved: "auth_ok r \<Longrightarrow> loadUserAuth stamp (saveUserAuth r) = Inr (Some r)"
  by (cases "ua_label r")
     (auto simp: auth_ok_def loadUserAuth_def saveUserAuth_def securePermissions_def user_auth_json_def parse_user_auth_def
       nonempty_str_def some_or_def Let_def)

lemma loaded_ok: "loadUserAuth stamp f = Inr (Some r) \<Longrightarrow> auth_ok r"
  by (auto simp: loadUserAuth_def parse_user_auth_def auth_ok_def nonempty_str_def Let_def
      split: option.splits if_splits sum.splits jsval.splits)

lemma parsed_token_ok:
  assumes "parseTokenResponse raw base = Inr tok"
  shows "[] \<notin> {dt_accessToken tok, dt_refreshToken tok, dt_userId tok, dt_daemonInstanceId tok}"
    "dt_expiresIn tok = PosInf \<or> (\<exists>q > 0. dt_expiresIn tok = Fin q)"
proof -
  have pos: "positive_or v 3600 = PosInf \<or> (\<exists>q > 0. positive_or v 3600 = Fin q)" for v
    by (cases "(v, 3600 :: rat)" rule: positive_or.cases) auto
  have ne: "nonempty_str v \<noteq> Some []" for v by (cases v) (auto simp: nonempty_str_def)
  show "[] \<notin> {dt_accessToken tok, dt_refreshToken tok, dt_userId tok, dt_daemonInstanceId tok}"
    using assms ne by (auto simp: parseTokenResponse_def split: option.splits)
  have "dt_expiresIn tok = positive_or (pick raw ''expiresIn'' ''expires_in'') 3600"
    using assms by (auto simp: parseTokenResponse_def split: option.splits)
  then show "dt_expiresIn tok = PosInf \<or> (\<exists>q > 0. dt_expiresIn tok = Fin q)" using pos by simp
qed

text \<open>A file others may read is never used, whatever it holds.\<close>

lemma insecure_auth_rejected:
  "\<not> securePermissions (af_mode h) \<Longrightarrow> loadUserAuth stamp (Some h) = Inl (Insecure (af_mode h AND 511))"
  by (simp add: loadUserAuth_def)

section \<open>One refresh for all callers\<close>

definition asking :: "auth_manager \<Rightarrow> bool" where
  "asking m \<longleftrightarrow> (case am_inflight m of Some (Asking b) \<Rightarrow> True | _ \<Rightarrow> False)"

definition manager_inv :: "auth_manager \<Rightarrow> bool" where
  "manager_inv m \<longleftrightarrow> length (am_sent m) = am_replied m + (if asking m then 1 else 0)
     \<and> (am_inflight m = None \<longrightarrow> am_waiting m = [])"

text \<open>The caller an action brings, and the callers that wait or have their answer.\<close>

fun caller :: "auth_action \<Rightarrow> nat multiset" where
  "caller (CallEnsure now stamp c) = {#c#}"
| "caller (CallRefresh now stamp c) = {#c#}"
| "caller _ = {#}"

definition accounted :: "auth_manager \<Rightarrow> nat multiset" where
  "accounted m = mset (am_waiting m) + mset (map fst (am_answers m))"

lemma begin_refresh_inv:
  assumes "manager_inv m" "am_inflight m = None"
  shows "length (am_sent (begin_refresh env now stamp cur m)) = am_replied (begin_refresh env now stamp cur m)
      + (if asking (begin_refresh env now stamp cur m) then 1 else 0)"
    "am_inflight (begin_refresh env now stamp cur m) \<noteq> None"
    "am_waiting (begin_refresh env now stamp cur m) = am_waiting m" "am_answers (begin_refresh env now stamp cur m) = am_answers m"
  using assms
  by (auto simp: begin_refresh_def manager_inv_def asking_def Let_def split: option.splits sum.splits)

lemma refresh_inv:
  assumes "manager_inv m"
  shows "manager_inv (refresh env now stamp c m) \<and> accounted (refresh env now stamp c m) = add_mset c (accounted m)"
proof (cases "am_record m")
  case None
  with assms show ?thesis by (simp add: refresh_def manager_inv_def asking_def accounted_def)
next
  case (Some r)
  show ?thesis
  proof (cases "am_inflight m")
    case None
    note b = begin_refresh_inv[OF assms None, of env now stamp r]
    with Some None show ?thesis by (simp add: refresh_def manager_inv_def asking_def accounted_def)
  next
    case (Some st)
    with \<open>am_record m = Some r\<close> assms show ?thesis by (simp add: refresh_def manager_inv_def asking_def accounted_def)
  qed
qed

lemma ensure_inv:
  assumes "manager_inv m"
  shows "manager_inv (ensureAccessToken env now stamp c m) \<and> accounted (ensureAccessToken env now stamp c m) = add_mset c (accounted m)"
proof (cases "am_record m")
  case None
  with assms show ?thesis by (simp add: ensureAccessToken_def manager_inv_def asking_def accounted_def)
next
  case (Some r)
  with refresh_inv[OF assms] assms show ?thesis
    by (cases "isTokenNearExpiry now r") (simp_all add: ensureAccessToken_def manager_inv_def asking_def accounted_def)
qed

lemma replies_inv:
  assumes "manager_inv m"
  shows "manager_inv (hub_replies env now saves reply m) \<and> accounted (hub_replies env now saves reply m) = accounted m"
  using assms
  by (auto simp: hub_replies_def manager_inv_def asking_def accounted_def Let_def
      split: option.splits refresh_stage.splits hub_reply.splits sum.splits)

lemma hand_out_inv:
  assumes "manager_inv m"
  shows "manager_inv (hand_out m) \<and> accounted (hand_out m) = accounted m"
  using assms
  by (auto simp: hand_out_def manager_inv_def asking_def accounted_def multiset.map_comp comp_def
      split: option.splits refresh_stage.splits)

lemma manager_step_inv:
  assumes "manager_inv m"
  shows "manager_inv (manager_step env ev m) \<and> accounted (manager_step env ev m) = caller ev + accounted m"
proof (cases ev)
  case (CallEnsure now stamp c)
  with ensure_inv[OF assms] show ?thesis by simp
next
  case (CallRefresh now stamp c)
  with refresh_inv[OF assms] show ?thesis by simp
next
  case (HubReplies now s r)
  with replies_inv[OF assms] show ?thesis by simp
next
  case HandOut
  with hand_out_inv[OF assms] show ?thesis by simp
qed (use assms in \<open>auto simp: replace_auth_def clear_auth_def manager_inv_def asking_def accounted_def\<close>)

interpretation manager: counting_machine "manager_step env" manager_inv caller accounted for env
  by unfold_locales (simp_all add: manager_step_inv)

text \<open>C30: However calls, answers of the Hub and changes of the file are interleaved, one request at most is open at the
  Hub, nobody waits when no refresh is under way, and every caller waits or has been answered exactly once.\<close>

theorem daemon_refresh_single_flight:
  "let m = manager_run env evs (new_manager r f flag)
   in length (am_sent m) = am_replied m + (case am_inflight m of Some (Asking b) \<Rightarrow> 1 | _ \<Rightarrow> 0)
      \<and> (case am_inflight m of None \<Rightarrow> am_waiting m = [] | Some st \<Rightarrow> True)
      \<and> mset (am_waiting m) + mset (map fst (am_answers m)) = sum_list (map caller evs)"
proof -
  have "manager_inv (new_manager r f flag)" "accounted (new_manager r f flag) = {#}"
    by (simp_all add: new_manager_def manager_inv_def asking_def accounted_def)
  from manager.open_run_keeps[OF this(1), of env evs] manager.run_counts[OF this(1), of env evs] this(2) show ?thesis
    by (auto simp: manager_inv_def asking_def accounted_def manager_run_def Let_def split: option.splits refresh_stage.splits)
qed

section \<open>Which token is sent, and what an answer does\<close>

text \<open>The refresh token that is sent is the one on disk whenever the file can be read, so that a token another process
  has already exchanged is not sent again.\<close>

lemma refresh_sends_stored_token:
  assumes "loadUserAuth stamp (am_file m) = Inr (Some d)" "am_inflight m = None"
  shows "am_sent (refresh env now stamp c m) \<in> {am_sent m, am_sent m @ [ua_refreshToken d]}"
  using assms
  by (auto simp: refresh_def begin_refresh_def Let_def some_or_def split: option.splits sum.splits)

lemma refreshed_ok:
  assumes "auth_ok basis" "parseTokenResponse raw base = Inr tok" "dt_expiresIn tok = Fin q"
  shows "auth_ok (refreshed now tok basis)"
  using assms parsed_token_ok(1)[OF assms(2)] by (auto simp: auth_ok_def refreshed_def expires_at_def)

definition example_auth :: user_auth where
  "example_auth = \<lparr>ua_userId = ''u1'', ua_daemonInstanceId = ''d1'', ua_hubUrl = ''https://hub'', ua_accessToken = ''a1'',
     ua_refreshToken = ''r1'', ua_expiresAt = Fin 0, ua_loggedInAt = [], ua_label = None\<rparr>"

definition example_reply :: jsval where
  "example_reply = JObj [(''access_token'', JStr ''a2''), (''refresh_token'', JStr ''r2''), (''user_id'', JStr ''u1''),
     (''daemon_instance_id'', JStr ''d1''), (''expires_in'', JNum (Fin 900))]"

definition example_token :: daemon_token where
  "example_token = \<lparr>dt_accessToken = ''a2'', dt_refreshToken = ''r2'', dt_expiresIn = Fin 900, dt_userId = ''u1'',
     dt_daemonInstanceId = ''d1'', dt_hubUrl = ''https://hub''\<rparr>"

definition waiting_manager :: auth_manager where
  "waiting_manager = (new_manager (Some example_auth) (saveUserAuth example_auth) False)
     \<lparr>am_inflight := Some (Asking example_auth), am_waiting := [1, 2], am_sent := [''r1'']\<rparr>"

lemma example_auth_ok: "auth_ok example_auth"
  by (simp add: auth_ok_def example_auth_def)

lemma example_reply_parses:
  "parseTokenResponse example_reply (case normalizeAndValidateHubUrl example_client (ua_hubUrl example_auth) of Inr url \<Rightarrow> url | Inl e \<Rightarrow> [])
     = Inr example_token"
  by code_simp

lemma waiting_manager_asks: "am_inflight waiting_manager = Some (Asking example_auth)"
  by (simp add: waiting_manager_def)

text \<open>A token the Hub issues reaches everyone who waits, and it is at once the record in memory and the record a later
  start of the daemon reads.\<close>

theorem issued_token_reaches_all:
  assumes "am_inflight m = Some (Asking basis)" "auth_ok basis"
    and "parseTokenResponse raw (case normalizeAndValidateHubUrl env (ua_hubUrl basis) of Inr url \<Rightarrow> url | Inl e \<Rightarrow> []) = Inr tok"
    and "dt_expiresIn tok = Fin q" "m2 = hand_out (hub_replies env now True (TokenReply raw) m)"
  shows "am_answers m2 = am_answers m @ map (\<lambda>c. (c, Inr (refreshed now tok basis))) (am_waiting m)
       \<and> am_record m2 = Some (refreshed now tok basis)
       \<and> loadUserAuth stamp (am_file m2) = Inr (Some (refreshed now tok basis))
       \<and> ua_refreshToken (refreshed now tok basis) = dt_refreshToken tok
       \<and> ua_userId (refreshed now tok basis) = ua_userId basis
       \<and> am_inflight m2 = None"
  using assms(1,3-5) load_saved[OF refreshed_ok[OF assms(2-4)]]
  by (simp add: hub_replies_def hand_out_def Let_def refreshed_def)

theorem issued_token_reaches_all_witness:
  "map fst (am_answers (hand_out (hub_replies example_client 0 True (TokenReply example_reply) waiting_manager))) = [1, 2]
   \<and> loadUserAuth [] (am_file (hand_out (hub_replies example_client 0 True (TokenReply example_reply) waiting_manager)))
      = Inr (Some (refreshed 0 example_token example_auth))"
  using issued_token_reaches_all[OF waiting_manager_asks example_auth_ok example_reply_parses _ refl,
      where q = 900 and now = 0 and stamp = "[]"]
  by (simp add: example_token_def waiting_manager_def new_manager_def)

text \<open>A refusal is told to everyone who waits and marks the login as expired; nothing stored is lost.\<close>

lemma refusal_reaches_all:
  assumes "am_inflight m = Some (Asking basis)" "status = 401 \<or> status = 403"
    and "m2 = hand_out (hub_replies env now saves (RefusedReply status) m)"
  shows "am_answers m2 = am_answers m @ map (\<lambda>c. (c, Inl (RefreshRejected status))) (am_waiting m)
       \<and> am_expired m2 \<and> am_file m2 = am_file m \<and> am_record m2 = am_record m \<and> am_inflight m2 = None"
  using assms by (auto simp: hub_replies_def hand_out_def Let_def)

text \<open>A token that is handed out without a refresh is good for another minute.\<close>

lemma handed_token_is_fresh:
  assumes "am_record m = Some r" "\<not> isTokenNearExpiry now r"
  shows "am_answers (ensureAccessToken env now stamp c m) = am_answers m @ [(c, Inr r)]
       \<and> (\<forall>q. ua_expiresAt r = Fin q \<longrightarrow> q > now + 60000)"
  using assms by (auto simp: ensureAccessToken_def isTokenNearExpiry_def)

text \<open>A login of another process during a refresh is overwritten: the file then holds the record of the user the refresh
  began for. The same holds for a login by \<open>replace\<close>, and \<open>clear\<close> is undone.\<close>

theorem login_during_refresh_lost:
  assumes "am_inflight m = Some (Asking basis)" "auth_ok basis"
    and "parseTokenResponse raw (case normalizeAndValidateHubUrl env (ua_hubUrl basis) of Inr url \<Rightarrow> url | Inl e \<Rightarrow> []) = Inr tok"
    and "dt_expiresIn tok = Fin q" "ev \<in> {Replace other, Clear, FileChanges (saveUserAuth other), FileChanges None}"
    and "m2 = manager_run env [ev, HubReplies now True (TokenReply raw)] m"
  shows "\<exists>r. loadUserAuth stamp (am_file m2) = Inr (Some r) \<and> am_record m2 = Some r \<and> ua_userId r = ua_userId basis"
proof -
  have "am_inflight (manager_step env ev m) = Some (Asking basis)"
    using assms(1,5) by (auto simp: replace_auth_def clear_auth_def)
  then show ?thesis using assms(3,4,6) load_saved[OF refreshed_ok[OF assms(2-4)]]
    by (auto simp: manager_run_def hub_replies_def Let_def refreshed_def)
qed

theorem login_during_refresh_lost_witness:
  "\<exists>r. loadUserAuth [] (am_file (manager_run example_client
       [FileChanges (saveUserAuth (example_auth\<lparr>ua_userId := ''u2''\<rparr>)), HubReplies 0 True (TokenReply example_reply)] waiting_manager))
      = Inr (Some r) \<and> ua_userId r = ''u1''"
  using login_during_refresh_lost[OF waiting_manager_asks example_auth_ok example_reply_parses _ _ refl,
      where q = 900 and ev = "FileChanges (saveUserAuth (example_auth\<lparr>ua_userId := ''u2''\<rparr>))"
        and other = "example_auth\<lparr>ua_userId := ''u2''\<rparr>" and now = 0 and stamp = "[]"]
  by (auto simp: example_token_def example_auth_def)

text \<open>When the new record cannot be saved, it is dropped although the Hub has already exchanged the old refresh token:
  the next refresh sends the old token once more.\<close>

theorem unsaved_token_is_dropped:
  assumes "am_inflight m = Some (Asking basis)" "am_record m = Some basis"
    and "loadUserAuth stamp (am_file m) = Inr (Some basis)"
    and "normalizeAndValidateHubUrl env (ua_hubUrl basis) = Inr url"
    and "m2 = manager_run env [HubReplies now False (TokenReply raw), HandOut, CallRefresh later stamp c] m"
  shows "am_record m2 = Some basis \<and> am_sent m2 = am_sent m @ [ua_refreshToken basis]"
  using assms
  by (cases "parseTokenResponse raw url")
     (simp_all add: manager_run_def hub_replies_def hand_out_def refresh_def begin_refresh_def some_or_def Let_def)

text \<open>An infinite lifetime is written as \<open>null\<close>, so the file of such a login cannot be read.\<close>

lemma infinite_lifetime_unreadable:
  assumes "dt_expiresIn tok = PosInf"
  shows "\<exists>e. loadUserAuth stamp (saveUserAuth (userAuthFromTokenResponse now stamp2 tok label since)) = Inl e"
  using assms
  by (auto simp: loadUserAuth_def saveUserAuth_def securePermissions_def user_auth_json_def userAuthFromTokenResponse_def
      parse_user_auth_def expires_at_def nonempty_str_def Let_def split: option.splits)

section \<open>The login ends and keeps what was there\<close>

lemma delay_ms_ge_1: "delay_ms n \<ge> 1"
proof -
  have "(1 :: rat) \<le> of_int \<lfloor>q * 1000\<rfloor>" if "1 \<le> q * 1000" for q :: rat
  proof -
    have "1 \<le> \<lfloor>q * 1000\<rfloor>" using that by (simp add: le_floor_iff)
    then show ?thesis by (metis of_int_1 of_int_le_iff)
  qed
  then show ?thesis by (simp add: delay_ms_def split: jsnum.splits)
qed

text \<open>C32: However the Hub answers, a device login with a finite lifetime ends after at most one poll for each millisecond of it.\<close>

theorem device_login_ends:
  assumes "\<forall>p \<in> set polls. fst p \<ge> 0" "of_nat (length polls) \<ge> ends - now"
  shows "poll_loop stamp label now (Fin ends) interval polls \<noteq> StillPolling"
  using assms
proof (induction polls arbitrary: now interval)
  case Nil
  then show ?case by (simp add: before_end_def)
next
  case (Cons p polls)
  obtain took res where p: "p = (took, res)" by (cases p)
  have "took \<ge> 0" using Cons.prems(1) p by simp
  then have "of_nat (length polls) \<ge> ends - (now + delay_ms interval + took)"
    using Cons.prems(2) delay_ms_ge_1[of interval] by simp
  from Cons.IH[OF _ this] Cons.prems(1) p show ?case
    by (cases res) (auto simp: Let_def split: poll_result.splits)
qed

theorem device_login_ends_witness:
  "poll_loop [] None 0 (Fin 2) (Fin 1) [(0, Some Pending), (0, None)] \<noteq> StillPolling"
  using device_login_ends[of "[(0, Some Pending), (0, None)]" 2 0 "[]" None "Fin 1"] by simp

lemma device_flow_keeps:
  "runDeviceCodeFlow stamp label now codes polls disk = (disk2, res) \<Longrightarrow>
     (case res of Some (LoggedIn r) \<Rightarrow> disk2 = (saveUserAuth r, False) | _ \<Rightarrow> disk2 = disk)"
  by (auto simp: runDeviceCodeFlow_def split: option.splits sum.splits login_result.splits)

text \<open>Starting the daemon never loses a login: either the stored file is as it was, or it holds the record the daemon
  starts with; the mark of an expired login is only cleared when the daemon starts.\<close>

theorem start_keeps_login:
  "case ensureUserAuthForStart now stamp hostname tty args redeem codes polls disk of
     (disk2, Started r) \<Rightarrow> fst disk2 = saveUserAuth r \<or> (fst disk2 = fst disk \<and> safeLoadUserAuth stamp (fst disk) = Some r)
   | (disk2, _) \<Rightarrow> disk2 = disk"
proof -
  have flow: "case runDeviceCodeFlow stamp l now codes polls disk of
     (d, Some (LoggedIn r)) \<Rightarrow> d = (saveUserAuth r, False) | (d, _) \<Rightarrow> d = disk" for l
    using device_flow_keeps[of stamp l now codes polls disk]
    by (cases "runDeviceCodeFlow stamp l now codes polls disk") (auto split: option.splits login_result.splits)
  show ?thesis
    using flow[of "Some (some_or (sa_label args) (defaultLoginLabel hostname))"]
    by (auto simp: ensureUserAuthForStart_def resolveStartAuthAction_def Let_def
        split: start_auth_action.splits option.splits sum.splits if_splits prod.splits login_result.splits)
qed

text \<open>The token of a cloud daemon counts as fresh until the end of the safe integers, so it is never refreshed.\<close>

lemma cloud_token_never_near_expiry:
  "now < 9007199254680991 \<Longrightarrow> \<not> isTokenNearExpiry now (cloud_auth stamp cfg)"
  by (simp add: isTokenNearExpiry_def cloud_auth_def)

lemma cloud_mode_needs_all:
  "(\<exists>cfg. loadCloudModeConfig env = Inr cfg) \<longleftrightarrow>
     (\<forall>k \<in> {''BOTCORD_HUB_URL'', ''BOTCORD_CLOUD_DAEMON_INSTANCE_ID'', ''BOTCORD_DAEMON_INSTANCE_ID'',
        ''BOTCORD_CLOUD_DAEMON_ACCESS_TOKEN''}. \<exists>v. env k = Some v \<and> v \<noteq> [])"
  by (auto simp: loadCloudModeConfig_def require_string_def split: option.splits if_splits sum.splits)

end
