(* ===== verification/Daemon_Config.thy ===== *)
theory Daemon_Config
  imports Hub_Client
begin

text \<open>
  The configuration of the daemon: the reading of the file (\<open>daemon/src/config.ts\<close>), its translation into the
  channels and routes of the gateway (\<open>daemon/src/daemon-config-map.ts\<close>) and the command-line options of a
  runtime (\<open>daemon/src/runtime-route-options.ts\<close>).

  A document is a JSON value. The parts the loader hands on as they stand (the default route, the routes, the
  third-party gateways) stay JSON values, of which a field that should be a text counts as absent when it is
  not one. The registry of adapters is the argument \<open>adapters\<close> (\<open>Some False\<close> for one that cannot run a
  turn), the workspace of an agent and the reading of a token file are arguments too.
\<close>

section \<open>The configuration\<close>

record openclaw_profile =
  op_name :: string
  op_url :: string
  op_token :: "string option"
  op_tokenFile :: "string option"
  op_defaultAgent :: "string option"

record discovery_config =
  di_enabled :: "bool option"
  di_credentialsDir :: "string option"

record openclaw_discovery =
  od_enabled :: "bool option"
  od_searchPaths :: "string list option"
  od_defaultPorts :: "int list option"
  od_autoProvision :: "bool option"

record daemon_config =
  lc_agentId :: "string option"
  lc_agents :: "string list option"
  lc_agentDiscovery :: "discovery_config option"
  lc_defaultRoute :: jsval
  lc_routes :: "jsval list"
  lc_nonOwnerExecution :: jsval
  lc_streamBlocks :: jsval
  lc_transcript :: "bool option option"
  lc_openclawGateways :: "openclaw_profile list option"
  lc_openclawDiscovery :: "openclaw_discovery option"
  lc_thirdPartyGateways :: "jsval list option"

datatype config_error =
    ConfigMissing | ConfigUnreadable | NoAgents | BadAgent nat | NoDefaultRoute | UnknownAdapter string | ProbeOnly string
  | GatewaysNotArray | BadGateway nat | DuplicateGateway nat | GatewayRefMissing string | GatewayRefUnknown string
  | RoutesNotArray | BadRoute nat | ThirdPartyNotArray | BadThirdParty nat | DuplicateThirdParty nat
  | RouteWithoutMatch nat

section \<open>Which agents\<close>

definition resolveConfiguredAgentIds :: "daemon_config \<Rightarrow> string list option" where
  "resolveConfiguredAgentIds cfg =
     (let agents = filter (\<lambda>s. s \<noteq> []) (case lc_agents cfg of Some xs \<Rightarrow> xs | None \<Rightarrow> []);
          legacy = (case lc_agentId cfg of Some s \<Rightarrow> (if s \<noteq> [] then Some s else None) | None \<Rightarrow> None)
      in if agents \<noteq> [] then Some (js_uniq agents)
         else case legacy of Some s \<Rightarrow> Some [s] | None \<Rightarrow> None)"

definition resolveAgentIds :: "daemon_config \<Rightarrow> config_error + string list" where
  "resolveAgentIds cfg = (case resolveConfiguredAgentIds cfg of Some ids \<Rightarrow> Inr ids | None \<Rightarrow> Inl NoAgents)"

section \<open>Reading the file\<close>

definition validateAdapter :: "(string \<Rightarrow> bool option) \<Rightarrow> string \<Rightarrow> config_error option" where
  "validateAdapter adapters i =
     (case adapters i of
        None \<Rightarrow> Some (UnknownAdapter i)
      | Some runs \<Rightarrow> (if runs then None else Some (ProbeOnly i)))"

text \<open>The entries of \<open>agents\<close>, checked only when one of them is a text that is not empty.\<close>

fun check_agents :: "nat \<Rightarrow> jsval list \<Rightarrow> config_error option" where
  "check_agents i [] = None"
| "check_agents i (a # as) = (if nonempty_str a = None then Some (BadAgent i) else check_agents (Suc i) as)"

fun check_gateways :: "nat \<Rightarrow> string list \<Rightarrow> jsval list \<Rightarrow> config_error option" where
  "check_gateways i names [] = None"
| "check_gateways i names (g # gs) =
     (if \<not> is_object g then Some (BadGateway i)
      else case nonempty_str (get_prop g ''name'') of
        None \<Rightarrow> Some (BadGateway i)
      | Some n \<Rightarrow>
          if nonempty_str (get_prop g ''url'') = None then Some (BadGateway i)
          else if n \<in> set names then Some (DuplicateGateway i)
          else check_gateways (Suc i) (names @ [n]) gs)"

definition validateGatewayRef :: "string list \<Rightarrow> jsval \<Rightarrow> config_error option" where
  "validateGatewayRef names route =
     (if get_prop route ''adapter'' = JStr ''openclaw-acp''
      then (case nonempty_str (get_prop route ''gateway'') of
              None \<Rightarrow> Some (GatewayRefMissing ''openclaw-acp'')
            | Some g \<Rightarrow> (if g \<in> set names then None else Some (GatewayRefUnknown g)))
      else None)"

fun first_error :: "config_error option list \<Rightarrow> config_error option" where
  "first_error [] = None"
| "first_error (e # es) = (case e of Some x \<Rightarrow> Some x | None \<Rightarrow> first_error es)"

fun check_routes :: "(string \<Rightarrow> bool option) \<Rightarrow> string list \<Rightarrow> nat \<Rightarrow> jsval list \<Rightarrow> config_error option" where
  "check_routes adapters names i [] = None"
| "check_routes adapters names i (r # rs) =
     (if \<not> is_object r then Some (BadRoute i)
      else case (get_prop r ''adapter'', get_prop r ''cwd'') of
        (JStr a, JStr c) \<Rightarrow>
          first_error [validateAdapter adapters a, validateGatewayRef names r, check_routes adapters names (Suc i) rs]
      | _ \<Rightarrow> Some (BadRoute i))"

fun check_third_party :: "nat \<Rightarrow> string list \<Rightarrow> jsval list \<Rightarrow> config_error option" where
  "check_third_party i seen [] = None"
| "check_third_party i seen (g # gs) =
     (if \<not> is_object g then Some (BadThirdParty i)
      else case nonempty_str (get_prop g ''id'') of
        None \<Rightarrow> Some (BadThirdParty i)
      | Some gid \<Rightarrow>
          if get_prop g ''type'' \<notin> {JStr ''telegram'', JStr ''wechat'', JStr ''feishu''} then Some (BadThirdParty i)
          else if nonempty_str (get_prop g ''accountId'') = None then Some (BadThirdParty i)
          else if gid \<in> set seen then Some (DuplicateThirdParty i)
          else check_third_party (Suc i) (seen @ [gid]) gs)"

definition copy_profile :: "jsval \<Rightarrow> openclaw_profile" where
  "copy_profile g =
     \<lparr>op_name = some_or (as_str (get_prop g ''name'')) [], op_url = some_or (as_str (get_prop g ''url'')) [],
      op_token = as_str (get_prop g ''token''), op_tokenFile = as_str (get_prop g ''tokenFile''),
      op_defaultAgent = as_str (get_prop g ''defaultAgent'')\<rparr>"

definition port_of :: "jsval \<Rightarrow> int option" where
  "port_of v = (case finite_num v of
     Some q \<Rightarrow> (if of_int \<lfloor>q\<rfloor> = q \<and> \<lfloor>q\<rfloor> > 0 \<and> \<lfloor>q\<rfloor> < 65536 then Some \<lfloor>q\<rfloor> else None)
   | None \<Rightarrow> None)"

definition copy_discovery :: "jsval \<Rightarrow> discovery_config" where
  "copy_discovery d = \<lparr>di_enabled = as_bool (get_prop d ''enabled''), di_credentialsDir = nonempty_str (get_prop d ''credentialsDir'')\<rparr>"

definition copy_openclaw_discovery :: "jsval \<Rightarrow> openclaw_discovery" where
  "copy_openclaw_discovery d =
     \<lparr>od_enabled = as_bool (get_prop d ''enabled''),
      od_searchPaths = map_option (List.map_filter nonempty_str) (as_arr (get_prop d ''searchPaths'')),
      od_defaultPorts = map_option (List.map_filter port_of) (as_arr (get_prop d ''defaultPorts'')),
      od_autoProvision = as_bool (get_prop d ''autoProvision'')\<rparr>"

definition as_list :: "jsval \<Rightarrow> jsval list" where
  "as_list v = (case v of JArr xs \<Rightarrow> xs | _ \<Rightarrow> [])"

definition has_agents :: "jsval \<Rightarrow> bool" where
  "has_agents doc \<longleftrightarrow> list_ex (\<lambda>a. nonempty_str a \<noteq> None) (as_list (get_prop doc ''agents''))"

definition gateway_names :: "jsval \<Rightarrow> string list" where
  "gateway_names doc = List.map_filter (\<lambda>g. nonempty_str (get_prop g ''name'')) (as_list (get_prop doc ''openclawGateways''))"

definition is_arr :: "jsval \<Rightarrow> bool" where
  "is_arr v \<longleftrightarrow> (case v of JArr xs \<Rightarrow> True | _ \<Rightarrow> False)"

text \<open>The checks of \<open>loadConfig\<close>, in their order.\<close>

definition config_errors :: "(string \<Rightarrow> bool option) \<Rightarrow> jsval \<Rightarrow> config_error option" where
  "config_errors adapters doc =
     (let route = get_prop doc ''defaultRoute'';
          discovery = get_prop doc ''agentDiscovery'';
          gateways = get_prop doc ''openclawGateways'';
          routes = get_prop doc ''routes'';
          third = get_prop doc ''thirdPartyGateways'';
          names = gateway_names doc
      in first_error
        [if \<not> has_agents doc \<and> nonempty_str (get_prop doc ''agentId'') = None
            \<and> is_object discovery \<and> get_prop discovery ''enabled'' = JBool False then Some NoAgents else None,
         if has_agents doc then check_agents 0 (as_list (get_prop doc ''agents'')) else None,
         (case (get_prop route ''adapter'', get_prop route ''cwd'') of
            (JStr a, JStr c) \<Rightarrow> validateAdapter adapters a
          | _ \<Rightarrow> Some NoDefaultRoute),
         if gateways = JUndef then None
         else if \<not> is_arr gateways then Some GatewaysNotArray
         else check_gateways 0 [] (as_list gateways),
         validateGatewayRef names route,
         if \<not> nullish routes \<and> \<not> is_arr routes then Some RoutesNotArray else check_routes adapters names 0 (as_list routes),
         if third = JUndef then None
         else if \<not> is_arr third then Some ThirdPartyNotArray
         else check_third_party 0 [] (as_list third)])"

text \<open>The configuration that is built from an accepted document: the fields the loader names, and no others.\<close>

definition built_config :: "jsval \<Rightarrow> daemon_config" where
  "built_config doc =
     \<lparr>lc_agentId = nonempty_str (get_prop doc ''agentId''),
      lc_agents = (if has_agents doc then Some (List.map_filter as_str (as_list (get_prop doc ''agents''))) else None),
      lc_agentDiscovery = (if is_object (get_prop doc ''agentDiscovery'') then Some (copy_discovery (get_prop doc ''agentDiscovery'')) else None),
      lc_defaultRoute = get_prop doc ''defaultRoute'',
      lc_routes = as_list (get_prop doc ''routes''),
      lc_nonOwnerExecution = JUndef,
      lc_streamBlocks = (if nullish (get_prop doc ''streamBlocks'') then JBool True else get_prop doc ''streamBlocks''),
      lc_transcript = (if is_object (get_prop doc ''transcript'') then Some (as_bool (get_prop (get_prop doc ''transcript'') ''enabled'')) else None),
      lc_openclawGateways = map_option (map copy_profile) (as_arr (get_prop doc ''openclawGateways'')),
      lc_openclawDiscovery = (if is_object (get_prop doc ''openclawDiscovery'')
         then Some (copy_openclaw_discovery (get_prop doc ''openclawDiscovery'')) else None),
      lc_thirdPartyGateways = as_arr (get_prop doc ''thirdPartyGateways'')\<rparr>"

text \<open>The file is missing, cannot be parsed (as \<open>null\<close>, whose fields cannot be read), or holds a document.\<close>

definition loadConfig :: "(string \<Rightarrow> bool option) \<Rightarrow> jsval option option \<Rightarrow> config_error + daemon_config" where
  "loadConfig adapters stored =
     (case stored of
        None \<Rightarrow> Inl ConfigMissing
      | Some None \<Rightarrow> Inl ConfigUnreadable
      | Some (Some doc) \<Rightarrow>
          if doc = JNull then Inl ConfigUnreadable
          else case config_errors adapters doc of Some e \<Rightarrow> Inl e | None \<Rightarrow> Inr (built_config doc))"

definition initDefaultConfig :: "string list \<Rightarrow> string \<Rightarrow> daemon_config" where
  "initDefaultConfig ids cwd =
     \<lparr>lc_agentId = None, lc_agents = (if ids \<noteq> [] then Some (js_uniq ids) else None), lc_agentDiscovery = None,
      lc_defaultRoute = JObj [(''adapter'', JStr ''claude-code''), (''cwd'', JStr cwd)], lc_routes = [],
      lc_nonOwnerExecution = JUndef, lc_streamBlocks = JBool True, lc_transcript = None, lc_openclawGateways = None,
      lc_openclawDiscovery = None, lc_thirdPartyGateways = None\<rparr>"


section \<open>Options of a runtime\<close>

record runtime_meta =
  mt_runtime :: "string option"
  mt_runtimeModel :: "string option"
  mt_reasoningEffort :: "string option"
  mt_thinking :: "bool option"
  mt_cwd :: "string option"
  mt_openclawGateway :: "string option"
  mt_openclawAgent :: "string option"
  mt_hermesProfile :: "string option"

definition no_meta :: runtime_meta where
  "no_meta = \<lparr>mt_runtime = None, mt_runtimeModel = None, mt_reasoningEffort = None, mt_thinking = None, mt_cwd = None,
     mt_openclawGateway = None, mt_openclawAgent = None, mt_hermesProfile = None\<rparr>"

definition cleanString :: "string option \<Rightarrow> string option" where
  "cleanString v = (case v of Some s \<Rightarrow> (if trim s \<noteq> [] then Some (trim s) else None) | None \<Rightarrow> None)"

fun escape_chars :: "char list \<Rightarrow> string \<Rightarrow> string" where
  "escape_chars cs [] = []"
| "escape_chars cs (c # s) = (if c \<in> set cs then CHR 0x5C # c # escape_chars cs s else c # escape_chars cs s)"

text \<open>The two replacements one after the other: the backslashes, then the quotes.\<close>

definition quoteCodexConfigValue :: "string \<Rightarrow> string" where
  "quoteCodexConfigValue v = [CHR 0x22] @ escape_chars [CHR 0x22] (escape_chars [CHR 0x5C] v) @ [CHR 0x22]"

definition flag_opt :: "string \<Rightarrow> string option \<Rightarrow> string list" where
  "flag_opt f v = (case v of Some s \<Rightarrow> [f, s] | None \<Rightarrow> [])"

definition buildRuntimeSelectionExtraArgs :: "string \<Rightarrow> runtime_meta \<Rightarrow> string list" where
  "buildRuntimeSelectionExtraArgs runtime meta =
     (let model = cleanString (mt_runtimeModel meta); effort = cleanString (mt_reasoningEffort meta)
      in if runtime = ''claude-code'' then flag_opt ''--model'' model @ flag_opt ''--effort'' effort
         else if runtime = ''codex''
         then flag_opt ''--model'' model
           @ flag_opt ''-c'' (map_option (\<lambda>e. ''model_reasoning_effort='' @ quoteCodexConfigValue e) effort)
         else if runtime = ''deepseek-tui'' then flag_opt ''--model'' model @ flag_opt ''--reasoning-effort'' effort
         else if runtime = ''kimi-cli''
         then flag_opt ''--model'' model
           @ (case mt_thinking meta of Some t \<Rightarrow> [if t then ''--thinking'' else ''--no-thinking''] | None \<Rightarrow> [])
         else [])"

definition mergeRuntimeExtraArgs :: "string list option \<Rightarrow> string list \<Rightarrow> string list option" where
  "mergeRuntimeExtraArgs inherited selected =
     (let out = some_or inherited [] @ selected in if out \<noteq> [] then Some out else None)"

section \<open>Channels and routes\<close>

text \<open>A profile with its token: the token of the profile, or what the token file holds.\<close>

definition prepareGatewayProfile :: "(string \<Rightarrow> string option) \<Rightarrow> openclaw_profile \<Rightarrow> openclaw_profile \<times> string option" where
  "prepareGatewayProfile readToken p =
     (p, if op_token p \<noteq> None \<and> op_token p \<noteq> Some [] then op_token p
         else case op_tokenFile p of
                Some f \<Rightarrow> (if f \<noteq> [] then map_option trim (readToken f) else None)
              | None \<Rightarrow> None)"

definition prepareGatewayProfiles ::
  "(string \<Rightarrow> string option) \<Rightarrow> openclaw_profile list option \<Rightarrow> (string \<times> openclaw_profile \<times> string option) list" where
  "prepareGatewayProfiles readToken profiles =
     fold (\<lambda>p out. upd_assoc out (op_name p) (prepareGatewayProfile readToken p)) (some_or profiles []) []"

definition resolveGateway ::
  "(string \<times> openclaw_profile \<times> string option) list \<Rightarrow> string option \<Rightarrow> string option \<Rightarrow> jsval" where
  "resolveGateway profiles gatewayName agentOverride =
     (case gatewayName of
        None \<Rightarrow> JUndef
      | Some n \<Rightarrow>
          if n = [] then JUndef
          else (case map_of profiles n of
             None \<Rightarrow> JUndef
           | Some (p, token) \<Rightarrow>
               (let agent = (case agentOverride of Some a \<Rightarrow> Some a | None \<Rightarrow> op_defaultAgent p)
                in JObj ([(''name'', JStr (op_name p)), (''url'', JStr (op_url p))]
                  @ (case token of Some t \<Rightarrow> (if t \<noteq> [] then [(''token'', JStr t)] else []) | None \<Rightarrow> [])
                  @ (case agent of Some a \<Rightarrow> (if a \<noteq> [] then [(''openclawAgent'', JStr a)] else []) | None \<Rightarrow> [])))))"

definition mapTrustLevel :: "jsval \<Rightarrow> trust_level option" where
  "mapTrustLevel v = (if v = JUndef then None else if v = JStr ''owner'' then Some Owner else Some Public)"

definition execution_of :: "jsval \<Rightarrow> non_owner_execution option" where
  "execution_of v = (if \<not> truthy v then None else if v = JStr ''restricted'' then Some NonOwnerRestricted else Some NonOwnerFull)"

definition string_list :: "jsval \<Rightarrow> string list option" where
  "string_list v = map_option (List.map_filter as_str) (as_arr v)"

definition kind_of :: "jsval \<Rightarrow> conv_kind option" where
  "kind_of v = (if v = JStr ''direct'' then Some Direct else if v = JStr ''group'' then Some Group else None)"

text \<open>A canonical field of a match and its older name; the older name only counts when the canonical one is absent.\<close>

definition alias_str :: "jsval \<Rightarrow> string \<Rightarrow> string \<Rightarrow> string option" where
  "alias_str m canonical old = nonempty_str (if nullish (get_prop m canonical) then get_prop m old else get_prop m canonical)"

definition map_match :: "jsval \<Rightarrow> route_match" where
  "map_match m =
     \<lparr>rm_channel = nonempty_str (get_prop m ''channel''), rm_accountId = nonempty_str (get_prop m ''accountId''),
      rm_conversationId = alias_str m ''conversationId'' ''roomId'',
      rm_conversationPrefix = alias_str m ''conversationPrefix'' ''roomPrefix'',
      rm_conversationKind = kind_of (get_prop m ''conversationKind''), rm_senderId = nonempty_str (get_prop m ''senderId''),
      rm_mentioned = as_bool (get_prop m ''mentioned'')\<rparr>"

definition gateway_of :: "(string \<times> openclaw_profile \<times> string option) list \<Rightarrow> jsval \<Rightarrow> jsval" where
  "gateway_of profiles r =
     (if get_prop r ''adapter'' = JStr ''openclaw-acp''
      then resolveGateway profiles (as_str (get_prop r ''gateway'')) (as_str (get_prop r ''openclawAgent''))
      else JUndef)"

text \<open>\<open>mapRoute\<close>; a route without \<open>match\<close> ends the translation with an error.\<close>

definition mapRoute ::
  "(string \<times> openclaw_profile \<times> string option) list \<Rightarrow> nat \<Rightarrow> jsval \<Rightarrow> config_error + gateway_route" where
  "mapRoute profiles i r =
     (if nullish (get_prop r ''match'') then Inl (RouteWithoutMatch i)
      else Inr \<lparr>r_match = Some (map_match (get_prop r ''match'')), r_runtime = some_or (as_str (get_prop r ''adapter'')) [],
             r_cwd = some_or (as_str (get_prop r ''cwd'')) [], r_extraArgs = string_list (get_prop r ''extraArgs''), r_queueMode = None,
             r_trustLevel = mapTrustLevel (get_prop r ''trustLevel''),
             r_nonOwnerExecution = execution_of (get_prop r ''nonOwnerExecution''),
             r_gateway = gateway_of profiles r, r_hermesProfile = None\<rparr>)"

fun map_routes ::
  "(string \<times> openclaw_profile \<times> string option) list \<Rightarrow> nat \<Rightarrow> jsval list \<Rightarrow> config_error + gateway_route list" where
  "map_routes profiles i [] = Inr []"
| "map_routes profiles i (r # rs) =
     (case mapRoute profiles i r of
        Inl e \<Rightarrow> Inl e
      | Inr g \<Rightarrow> (case map_routes profiles (Suc i) rs of Inl e \<Rightarrow> Inl e | Inr gs \<Rightarrow> Inr (g # gs)))"

definition default_route :: "(string \<times> openclaw_profile \<times> string option) list \<Rightarrow> daemon_config \<Rightarrow> gateway_route" where
  "default_route profiles cfg =
     (let r = lc_defaultRoute cfg
      in \<lparr>r_match = None, r_runtime = some_or (as_str (get_prop r ''adapter'')) [], r_cwd = some_or (as_str (get_prop r ''cwd'')) [],
          r_extraArgs = string_list (get_prop r ''extraArgs''), r_queueMode = None,
          r_trustLevel = mapTrustLevel (get_prop r ''trustLevel''),
          r_nonOwnerExecution = execution_of (get_prop (lc_nonOwnerExecution cfg) ''default''),
          r_gateway = gateway_of profiles r, r_hermesProfile = None\<rparr>)"

definition agent_match :: "string \<Rightarrow> route_match" where
  "agent_match agentId =
     \<lparr>rm_channel = None, rm_accountId = Some agentId, rm_conversationId = None, rm_conversationPrefix = None,
      rm_conversationKind = None, rm_senderId = None, rm_mentioned = None\<rparr>"

definition agent_execution :: "jsval \<Rightarrow> string \<Rightarrow> non_owner_execution option" where
  "agent_execution policy agentId =
     (let own = get_prop (get_prop policy ''agents'') agentId
      in execution_of (if nullish own then get_prop policy ''default'' else own))"

text \<open>The route of one agent, or none when its runtime needs an OpenClaw gateway that cannot be resolved.\<close>

definition managed_route ::
  "(string \<Rightarrow> string) \<Rightarrow> (string \<times> openclaw_profile \<times> string option) list \<Rightarrow> jsval \<Rightarrow> gateway_route \<Rightarrow> string \<Rightarrow> runtime_meta
     \<Rightarrow> gateway_route option" where
  "managed_route workspace profiles policy dflt agentId meta =
     (let runtime = some_or (mt_runtime meta) (r_runtime dflt);
          gname = (case mt_openclawGateway meta of Some g \<Rightarrow> Some g | None \<Rightarrow> as_str (get_prop (r_gateway dflt) ''name''));
          gw = (if gname \<noteq> None \<and> gname \<noteq> Some [] then resolveGateway profiles gname (mt_openclawAgent meta) else r_gateway dflt)
      in if runtime = ''openclaw-acp'' \<and> gw = JUndef then None
         else Some \<lparr>r_match = Some (agent_match agentId), r_runtime = runtime,
                r_cwd = (case mt_cwd meta of Some c \<Rightarrow> (if c \<noteq> [] then c else workspace agentId) | None \<Rightarrow> workspace agentId),
                r_extraArgs = mergeRuntimeExtraArgs (r_extraArgs dflt) (buildRuntimeSelectionExtraArgs runtime meta),
                r_queueMode = None, r_trustLevel = None, r_nonOwnerExecution = agent_execution policy agentId,
                r_gateway = (if runtime = ''openclaw-acp'' then gw else JUndef),
                r_hermesProfile = (if runtime = ''hermes-agent'' then
                  (case mt_hermesProfile meta of Some h \<Rightarrow> (if h \<noteq> [] then Some h else None) | None \<Rightarrow> None) else None)\<rparr>)"

definition buildManagedRoutes ::
  "(string \<Rightarrow> string) \<Rightarrow> (string \<times> openclaw_profile \<times> string option) list \<Rightarrow> jsval \<Rightarrow> gateway_route
     \<Rightarrow> (string \<Rightarrow> runtime_meta option) \<Rightarrow> string list \<Rightarrow> (string \<times> gateway_route) list" where
  "buildManagedRoutes workspace profiles policy dflt runtimes agentIds =
     fold (\<lambda>a out. case managed_route workspace profiles policy dflt a (some_or (runtimes a) no_meta) of
             Some r \<Rightarrow> upd_assoc out a r
           | None \<Rightarrow> out) agentIds []"

record channel_config =
  cf_id :: string
  cf_type :: string
  cf_accountId :: string
  cf_agentId :: "string option"
  cf_options :: jsval

definition agent_channel :: "string \<Rightarrow> channel_config" where
  "agent_channel a = \<lparr>cf_id = a, cf_type = ''botcord'', cf_accountId = a, cf_agentId = Some a, cf_options = JUndef\<rparr>"

definition third_party_channel :: "jsval \<Rightarrow> channel_config" where
  "third_party_channel g =
     \<lparr>cf_id = some_or (as_str (get_prop g ''id'')) [], cf_type = some_or (as_str (get_prop g ''type'')) [],
      cf_accountId = some_or (as_str (get_prop g ''accountId'')) [], cf_agentId = None,
      cf_options = JObj (filter (\<lambda>p. snd p \<noteq> JUndef) (map (\<lambda>k. (k, get_prop g k))
        [''label'', ''secretFile'', ''stateFile'', ''allowedSenderIds'', ''allowedChatIds'', ''splitAt'', ''baseUrl'', ''appId'', ''domain'',
         ''userOpenId'']))\<rparr>"

record gateway_config =
  gc_channels :: "channel_config list"
  gc_routes :: route_config
  gc_managedRoutes :: "gateway_route list"
  gc_streamBlocks :: jsval

definition toGatewayConfig ::
  "(string \<Rightarrow> string option) \<Rightarrow> (string \<Rightarrow> string) \<Rightarrow> (string \<Rightarrow> runtime_meta option) \<Rightarrow> string list option \<Rightarrow> daemon_config
     \<Rightarrow> config_error + gateway_config" where
  "toGatewayConfig readToken workspace runtimes optIds cfg =
     (case (case optIds of Some ids \<Rightarrow> Inr ids | None \<Rightarrow> resolveAgentIds cfg) of
        Inl e \<Rightarrow> Inl e
      | Inr agentIds \<Rightarrow>
          (let profiles = prepareGatewayProfiles readToken (lc_openclawGateways cfg);
               dflt = default_route profiles cfg;
               third = filter (\<lambda>g. get_prop g ''enabled'' \<noteq> JBool False) (some_or (lc_thirdPartyGateways cfg) [])
           in case map_routes profiles 0 (lc_routes cfg) of
                Inl e \<Rightarrow> Inl e
              | Inr rs \<Rightarrow>
                  Inr \<lparr>gc_channels = map agent_channel agentIds @ map third_party_channel third,
                    gc_routes = \<lparr>defaultRoute = dflt, routes = rs\<rparr>,
                    gc_managedRoutes = map snd (buildManagedRoutes workspace profiles (lc_nonOwnerExecution cfg) dflt runtimes agentIds),
                    gc_streamBlocks = lc_streamBlocks cfg\<rparr>))"


section \<open>What an accepted configuration guarantees\<close>

lemma loaded_config:
  assumes "loadConfig adapters stored = Inr cfg"
  obtains doc where "stored = Some (Some doc)" "config_errors adapters doc = None" "cfg = built_config doc"
  using assms by (auto simp: loadConfig_def split: option.splits if_splits)

lemma first_error_None: "first_error es = None \<longleftrightarrow> (\<forall>e \<in> set es. e = None)"
  by (induction es) (auto split: option.splits)

lemma validateAdapter_None: "validateAdapter adapters a = None \<longleftrightarrow> adapters a = Some True"
  by (auto simp: validateAdapter_def split: option.splits)

definition runnable :: "(string \<Rightarrow> bool option) \<Rightarrow> jsval \<Rightarrow> bool" where
  "runnable adapters r \<longleftrightarrow> (\<exists>a. get_prop r ''adapter'' = JStr a \<and> adapters a = Some True)"

lemma check_routes_runnable:
  "check_routes adapters names i rs = None \<Longrightarrow> r \<in> set rs \<Longrightarrow> runnable adapters r"
proof (induction adapters names i rs rule: check_routes.induct)
  case (2 adapters names i r0 rs)
  then show ?case
    by (auto simp: runnable_def first_error_None validateAdapter_None split: if_splits jsval.splits option.splits)
qed simp

lemma accepted_routes_runnable:
  assumes "config_errors adapters doc = None"
  shows "runnable adapters (get_prop doc ''defaultRoute'')" "r \<in> set (as_list (get_prop doc ''routes'')) \<Longrightarrow> runnable adapters r"
proof -
  have errs: "(case (get_prop (get_prop doc ''defaultRoute'') ''adapter'', get_prop (get_prop doc ''defaultRoute'') ''cwd'') of
      (JStr a, JStr c) \<Rightarrow> validateAdapter adapters a | _ \<Rightarrow> Some NoDefaultRoute) = None"
    "(if \<not> nullish (get_prop doc ''routes'') \<and> \<not> is_arr (get_prop doc ''routes'') then Some RoutesNotArray
      else check_routes adapters (gateway_names doc) 0 (as_list (get_prop doc ''routes''))) = None"
    using assms unfolding config_errors_def Let_def first_error_None by (simp_all only: list.set ball_simps insert_iff)
  from errs(1) show "runnable adapters (get_prop doc ''defaultRoute'')"
    by (auto simp: runnable_def validateAdapter_None split: jsval.splits)
  from errs(2) show "r \<in> set (as_list (get_prop doc ''routes'')) \<Longrightarrow> runnable adapters r"
    by (auto intro: check_routes_runnable split: if_splits)
qed

lemma map_routes_in:
  "map_routes profiles i rs = Inr gs \<Longrightarrow> g \<in> set gs \<Longrightarrow> \<exists>r \<in> set rs. \<exists>j. mapRoute profiles j r = Inr g"
proof (induction rs arbitrary: gs i)
  case (Cons r rs)
  from Cons.prems(1) obtain x xs where x: "mapRoute profiles i r = Inr x" "map_routes profiles (Suc i) rs = Inr xs" "gs = x # xs"
    by (auto split: sum.splits)
  show ?case
  proof (cases "g = x")
    case False
    with Cons.IH[OF x(2)] Cons.prems(2) x(3) show ?thesis by auto
  qed (use x in auto)
qed simp

lemma gateway_config_parts:
  assumes "toGatewayConfig readToken workspace runtimes optIds cfg = Inr g"
  obtains ids profiles where "profiles = prepareGatewayProfiles readToken (lc_openclawGateways cfg)"
    "map_routes profiles 0 (lc_routes cfg) = Inr (routes (gc_routes g))" "defaultRoute (gc_routes g) = default_route profiles cfg"
    "gc_managedRoutes g = map snd (buildManagedRoutes workspace profiles (lc_nonOwnerExecution cfg) (default_route profiles cfg) runtimes ids)"
    "(case optIds of Some xs \<Rightarrow> ids = xs | None \<Rightarrow> resolveAgentIds cfg = Inr ids)"
  using assms by (auto simp: toGatewayConfig_def Let_def split: sum.splits option.splits)

text \<open>A configuration that is accepted names, on the default route and on every route the user has written, only runtimes
  that are registered and can run a turn.\<close>

theorem accepted_routes_can_run:
  assumes "loadConfig adapters stored = Inr cfg" "toGatewayConfig readToken workspace runtimes optIds cfg = Inr g"
  shows "\<forall>r \<in> insert (defaultRoute (gc_routes g)) (set (routes (gc_routes g))). adapters (r_runtime r) = Some True"
proof -
  obtain doc where doc: "config_errors adapters doc = None" "cfg = built_config doc" using loaded_config[OF assms(1)] by metis
  obtain ids profiles where g: "map_routes profiles 0 (lc_routes cfg) = Inr (routes (gc_routes g))"
    "defaultRoute (gc_routes g) = default_route profiles cfg"
    using gateway_config_parts[OF assms(2)] by metis
  have "adapters (r_runtime (defaultRoute (gc_routes g))) = Some True"
    using accepted_routes_runnable(1)[OF doc(1)] by (auto simp: g(2) doc(2) default_route_def built_config_def runnable_def some_or_def Let_def)
  moreover have "adapters (r_runtime r) = Some True" if routed: "r \<in> set (routes (gc_routes g))" for r
  proof -
    obtain x j where x: "x \<in> set (as_list (get_prop doc ''routes''))" "mapRoute profiles j x = Inr r"
      using map_routes_in[OF g(1) routed] by (auto simp: doc(2) built_config_def)
    from accepted_routes_runnable(2)[OF doc(1) x(1)] x(2) show ?thesis
      by (auto simp: mapRoute_def runnable_def some_or_def split: if_splits)
  qed
  ultimately show ?thesis by simp
qed

section \<open>Managed routes\<close>

lemma managed_fold:
  "map_of (fold (\<lambda>a out. case mr a of Some r \<Rightarrow> upd_assoc out a r | None \<Rightarrow> out) ids out) a
     = (if a \<in> set ids \<and> mr a \<noteq> None then mr a else map_of out a)"
  by (induction ids arbitrary: out) (auto split: option.splits)

lemma managed_distinct:
  "distinct (map fst out) \<Longrightarrow> distinct (map fst (fold (\<lambda>a out. case mr a of Some r \<Rightarrow> upd_assoc out a r | None \<Rightarrow> out) ids out))"
  by (induction ids arbitrary: out) (auto simp: distinct_upd_assoc split: option.splits)

lemma managed_lookup:
  "map_of (buildManagedRoutes workspace profiles policy dflt runtimes ids) a
     = (if a \<in> set ids then managed_route workspace profiles policy dflt a (some_or (runtimes a) no_meta) else None)"
  unfolding buildManagedRoutes_def by (simp add: managed_fold)

lemma managed_keys: "distinct (map fst (buildManagedRoutes workspace profiles policy dflt runtimes ids))"
  unfolding buildManagedRoutes_def by (rule managed_distinct) simp

lemma managed_route_match: "managed_route workspace profiles policy dflt a meta = Some r \<Longrightarrow> r_match r = Some (agent_match a)"
  by (auto simp: managed_route_def Let_def split: if_splits)

lemma matches_agent: "matchesRoute msg (Some (agent_match a)) \<longleftrightarrow> m_accountId msg = a"
  by (auto simp: matchesRoute_def agent_match_def matches_opt_def)

lemma find_managed:
  assumes "distinct (map fst ps)" "\<forall>(a, r) \<in> set ps. r_match r = Some (agent_match a)" "map_of ps (m_accountId msg) = Some r"
  shows "find (\<lambda>r. matchesRoute msg (r_match r)) (map snd ps) = Some r"
  using assms by (induction ps) (auto simp: matches_agent split: if_splits)


section \<open>The restriction that is lost\<close>

lemma no_policy: "agent_execution JUndef a = None" "execution_of JUndef = None"
  by (simp_all add: agent_execution_def execution_of_def nullish_def Let_def)

lemma managed_without_policy:
  assumes "(a, r) \<in> set (buildManagedRoutes workspace profiles JUndef dflt runtimes ids)"
  shows "r_nonOwnerExecution r = None"
  using map_of_is_SomeI[OF managed_keys assms]
  by (auto simp: managed_lookup managed_route_def no_policy Let_def split: if_splits)

text \<open>C34: The setting \<open>nonOwnerExecution\<close> of the file never takes effect: whatever the document says, the loader does not copy
  it, so neither the default route nor the route of any agent restricts a requester who is not the owner, and a
  message without a decision of the Hub, a grant or a team restriction runs with full rights.\<close>

theorem configured_restriction_not_applied:
  assumes "loadConfig adapters (Some (Some doc)) = Inr cfg" "toGatewayConfig readToken workspace runtimes optIds cfg = Inr g"
    and "route \<in> insert (defaultRoute (gc_routes g)) (set (gc_managedRoutes g))"
    and "hubDecisions msg = None" "List.map_filter readAccessContext (inboundEntries msg) = []"
    and "\<not> (\<exists>e \<in> set (inboundEntries msg). team_restricted_entry e)"
  shows "resolveTurnExecution msg route True = ExDefault"
proof -
  have policy: "lc_nonOwnerExecution cfg = JUndef" using loaded_config[OF assms(1)] by (metis built_config_def daemon_config.select_convs(6))
  obtain ids profiles where g: "defaultRoute (gc_routes g) = default_route profiles cfg"
    "gc_managedRoutes g = map snd (buildManagedRoutes workspace profiles (lc_nonOwnerExecution cfg) (default_route profiles cfg) runtimes ids)"
    using gateway_config_parts[OF assms(2)] by metis
  have "r_nonOwnerExecution route = None"
    using assms(3) managed_without_policy by (auto simp: g policy default_route_def no_policy Let_def)
  then show ?thesis using assms(4-6)
    by (simp add: resolveTurnExecution_def isRestrictedTurn_def wantsRestriction_def Let_def)
qed

definition restricted_doc :: jsval where
  "restricted_doc = JObj [(''agents'', JArr [JStr ''ag_1'']), (''defaultRoute'', JObj [(''adapter'', JStr ''codex''), (''cwd'', JStr ''/w'')]),
     (''nonOwnerExecution'', JObj [(''default'', JStr ''restricted'')])]"

definition codex_only :: "string \<Rightarrow> bool option" where
  "codex_only a = (if a = ''codex'' then Some True else None)"

definition guest_msg :: inbound_message where
  "guest_msg = example_msg\<lparr>m_raw := JObj []\<rparr>"

lemma restricted_doc_loads:
  "loadConfig codex_only (Some (Some restricted_doc)) = Inr (built_config restricted_doc)"
proof -
  have "config_errors codex_only restricted_doc = None" by code_simp
  then show ?thesis by (simp add: loadConfig_def restricted_doc_def)
qed

lemma restricted_doc_translates:
  obtains g where "toGatewayConfig (\<lambda>_. None) (\<lambda>a. a) (\<lambda>_. None) None (built_config restricted_doc) = Inr g"
proof -
  have "(case toGatewayConfig (\<lambda>_. None) (\<lambda>a. a) (\<lambda>_. None) None (built_config restricted_doc) of Inr g \<Rightarrow> True | Inl e \<Rightarrow> False)"
    by code_simp
  then show thesis using that by (auto split: sum.splits)
qed

theorem accepted_routes_can_run_witness:
  "\<exists>g. toGatewayConfig (\<lambda>_. None) (\<lambda>a. a) (\<lambda>_. None) None (built_config restricted_doc) = Inr g
     \<and> codex_only (r_runtime (defaultRoute (gc_routes g))) = Some True"
proof -
  obtain g where g: "toGatewayConfig (\<lambda>_. None) (\<lambda>a. a) (\<lambda>_. None) None (built_config restricted_doc) = Inr g"
    by (rule restricted_doc_translates)
  from accepted_routes_can_run[OF restricted_doc_loads g] g show ?thesis by simp
qed

definition claude_agents :: "string \<Rightarrow> runtime_meta option" where
  "claude_agents a = Some (no_meta\<lparr>mt_runtime := Some ''claude-code''\<rparr>)"


theorem configured_restriction_not_applied_witness:
  "\<exists>g. toGatewayConfig (\<lambda>_. None) (\<lambda>a. a) (\<lambda>_. None) None (built_config restricted_doc) = Inr g
     \<and> resolveTurnExecution guest_msg (defaultRoute (gc_routes g)) True = ExDefault"
proof -
  obtain g where g: "toGatewayConfig (\<lambda>_. None) (\<lambda>a. a) (\<lambda>_. None) None (built_config restricted_doc) = Inr g"
    by (rule restricted_doc_translates)
  have m: "hubDecisions guest_msg = None" "List.map_filter readAccessContext (inboundEntries guest_msg) = []"
    "\<not> (\<exists>e \<in> set (inboundEntries guest_msg). team_restricted_entry e)"
    by code_simp+
  from configured_restriction_not_applied[OF restricted_doc_loads g _ m] g show ?thesis by blast
qed

text \<open>A route without \<open>match\<close> passes the checks of the file and ends the translation at the start of the daemon.\<close>

lemma route_without_match_accepted:
  "let doc = JObj [(''agents'', JArr [JStr ''ag_1'']), (''defaultRoute'', JObj [(''adapter'', JStr ''codex''), (''cwd'', JStr ''/w'')]),
        (''routes'', JArr [JObj [(''adapter'', JStr ''codex''), (''cwd'', JStr ''/w'')]])]
   in config_errors (\<lambda>_. Some True) doc = None
      \<and> toGatewayConfig (\<lambda>_. None) (\<lambda>a. a) (\<lambda>_. None) None (built_config doc) = Inl (RouteWithoutMatch 0)"
  by code_simp

section \<open>Values on the command line of Codex\<close>

fun unescape_value :: "string \<Rightarrow> string option" where
  "unescape_value [] = Some []"
| "unescape_value [c] = (if c = CHR 0x5C \<or> c = CHR 0x22 then None else Some [c])"
| "unescape_value (c # d # s) =
     (if c = CHR 0x22 then None
      else if c = CHR 0x5C then (if d = CHR 0x5C \<or> d = CHR 0x22 then map_option (Cons d) (unescape_value s) else None)
      else map_option (Cons c) (unescape_value (d # s)))"

lemma escape_twice:
  "escape_chars [CHR 0x22] (escape_chars [CHR 0x5C] v) = escape_chars [CHR 0x5C, CHR 0x22] v"
  by (induction v) auto

lemma codex_unescape_escape: "unescape_value (escape_chars [CHR 0x5C, CHR 0x22] v) = Some v"
proof (induction v)
  case (Cons c v)
  show ?case
  proof (cases "c = CHR 0x5C \<or> c = CHR 0x22")
    case True
    with Cons show ?thesis by auto
  next
    case False
    with Cons show ?thesis by (cases "escape_chars [CHR 0x5C, CHR 0x22] v") auto
  qed
qed simp

text \<open>The value of a Codex option is read back as it was given: it is one quoted string, in which every quote and every
  backslash is escaped, so no choice of a reasoning effort can end the string early.\<close>

theorem codex_value_round_trip:
  "\<exists>body. quoteCodexConfigValue v = [CHR 0x22] @ body @ [CHR 0x22] \<and> unescape_value body = Some v"
  by (auto simp: quoteCodexConfigValue_def escape_twice codex_unescape_escape)

end
