(* ===== verification/Cli_Runtime.thy ===== *)
theory Cli_Runtime
  imports Turn_Run Transcript System_Rules
begin

text \<open>
  The common part of the runtime adapters that start a program and read JSON lines from it
  (\<open>daemon/src/gateway/runtimes/ndjson-stream.ts\<close>, \<open>text-cap.ts\<close>) and the environment it is given
  (\<open>gateway/cli-resolver.ts\<close>).

  The program is its output, in the pieces it arrives in, and the way it ends. \<open>JSON.parse\<close> is the argument
  \<open>parse\<close>; the part of an adapter that reads one event is the argument \<open>handle\<close> (it is given by the theories
  \<open>Claude_Runtime\<close> and \<open>Codex_Runtime\<close>), which returns the new state and what it reports. Errors a handler
  throws are caught and logged, a handler here is total. Log lines and the durations are left out.
\<close>

section \<open>Capped text\<close>

definition utf8ByteLength :: "string \<Rightarrow> nat" where
  "utf8ByteLength s = length (utf8_bytes s)"

fun slice_bytes :: "nat \<Rightarrow> nat \<Rightarrow> string \<Rightarrow> string" where
  "slice_bytes maxBytes used [] = []"
| "slice_bytes maxBytes used (c # cs) =
     (let n = utf8ByteLength [c] in if used + n > maxBytes then [] else c # slice_bytes maxBytes (used + n) cs)"

definition sliceUtf8Bytes :: "string \<Rightarrow> nat \<Rightarrow> string" where
  "sliceUtf8Bytes s maxBytes =
     (if maxBytes = 0 then [] else if utf8ByteLength s \<le> maxBytes then s else slice_bytes maxBytes 0 s)"

section \<open>The state of a run\<close>

record token_usage =
  us_hit :: "rat option"
  us_miss :: "rat option"
  us_output :: "rat option"

record ndjson_state =
  nd_newSessionId :: string
  nd_finalText :: string
  nd_chunks :: "string list"
  nd_bytes :: nat
  nd_capped :: bool
  nd_costUsd :: "jsnum option"
  nd_errorText :: "string option"
  nd_usage :: "token_usage option"

definition ASSISTANT_TEXT_CAP :: nat where "ASSISTANT_TEXT_CAP = 1 * 1024 * 1024"

definition appendAssistantText :: "string \<Rightarrow> ndjson_state \<Rightarrow> ndjson_state" where
  "appendAssistantText t s =
     (if t = [] then s
      else if nd_capped s then s
      else if nd_bytes s \<ge> ASSISTANT_TEXT_CAP then s\<lparr>nd_capped := True\<rparr>
      else let budget = ASSISTANT_TEXT_CAP - nd_bytes s; bytes = utf8ByteLength t
        in if bytes > budget
           then let chunk = sliceUtf8Bytes t budget
             in (if chunk \<noteq> [] then s\<lparr>nd_chunks := nd_chunks s @ [chunk], nd_bytes := nd_bytes s + utf8ByteLength chunk\<rparr> else s)\<lparr>nd_capped := True\<rparr>
           else s\<lparr>nd_chunks := nd_chunks s @ [t], nd_bytes := nd_bytes s + bytes\<rparr>)"

definition begin_state :: "string option \<Rightarrow> ndjson_state" where
  "begin_state sessionId =
     \<lparr>nd_newSessionId = (case sessionId of Some i \<Rightarrow> i | None \<Rightarrow> []), nd_finalText = [], nd_chunks = [], nd_bytes = 0,
      nd_capped = False, nd_costUsd = None, nd_errorText = None, nd_usage = None\<rparr>"

section \<open>Reading lines\<close>

datatype run_report = ReportStatus status_event | ReportBlock stream_block

type_synonym event_handler = "jsval \<Rightarrow> nat \<Rightarrow> ndjson_state \<Rightarrow> ndjson_state \<times> run_report list"

record line_reader =
  lr_buf :: string
  lr_seq :: nat
  lr_state :: ndjson_state
  lr_reports :: "run_report list"

definition dispatchLine :: "(string \<Rightarrow> jsval option) \<Rightarrow> event_handler \<Rightarrow> string \<Rightarrow> line_reader \<Rightarrow> line_reader" where
  "dispatchLine parse handle line r =
     (if line = [] then r
      else case parse line of
        None \<Rightarrow> r
      | Some obj \<Rightarrow>
          (case handle obj (Suc (lr_seq r)) (lr_state r) of
             (s, reports) \<Rightarrow> r\<lparr>lr_seq := Suc (lr_seq r), lr_state := s, lr_reports := lr_reports r @ reports\<rparr>))"

text \<open>The loop over the line feeds of the buffer: one line after the other is cut off, trimmed and dispatched.\<close>

function drain_buffer :: "(string \<Rightarrow> jsval option) \<Rightarrow> event_handler \<Rightarrow> string \<Rightarrow> line_reader \<Rightarrow> line_reader" where
  "drain_buffer parse handle buf r =
     (if newline \<in> set buf
      then let line = takeWhile (\<lambda>c. c \<noteq> newline) buf
        in drain_buffer parse handle (drop (Suc (length line)) buf) (dispatchLine parse handle (trim line) r)
      else r\<lparr>lr_buf := buf\<rparr>)"
  by pat_completeness auto

termination
  by (relation "measure (\<lambda>(parse, handle, buf, r). length buf)") (auto dest: split_list)

declare drain_buffer.simps [simp del]

definition on_data :: "(string \<Rightarrow> jsval option) \<Rightarrow> event_handler \<Rightarrow> string \<Rightarrow> line_reader \<Rightarrow> line_reader" where
  "on_data parse handle chunk r = drain_buffer parse handle (lr_buf r @ chunk) r"

definition flush_residual :: "(string \<Rightarrow> jsval option) \<Rightarrow> event_handler \<Rightarrow> line_reader \<Rightarrow> line_reader" where
  "flush_residual parse handle r = dispatchLine parse handle (trim (lr_buf r)) r"

section \<open>The result\<close>

definition looksLikeTerminalStderr :: "string \<Rightarrow> bool" where
  "looksLikeTerminalStderr t \<longleftrightarrow>
     trim t \<noteq> [] \<and>
     rx_test (rx_alts [rx_seqs [RBound, auth_phrase [''error'', ''failed'', ''failure'', ''exception'', ''traceback'', ''unauthorized'',
        ''forbidden'', ''authentication'', ''permission denied''], RBound],
       rx_istr ''rate limit'', rx_istr ''quota exceeded'', rx_istr ''invalid api key'', rx_istr ''api call failed'']) t"

record cli_result =
  cr_text :: string
  cr_newSessionId :: string
  cr_costUsd :: "jsnum option"
  cr_usage :: "token_usage option"
  cr_error :: "string option"
  cr_failure :: "failure_report option"

definition has_error :: "string option \<Rightarrow> bool" where
  "has_error e \<longleftrightarrow> e \<noteq> None \<and> e \<noteq> Some []"

text \<open>The end of the program: its code (\<open>None\<close> when a signal ended it) and the signal.\<close>

record cli_exit =
  ce_code :: "int option"
  ce_signal :: "string option"

definition code_str :: "int option \<Rightarrow> string" where
  "code_str c = (case c of Some n \<Rightarrow> int_str n | None \<Rightarrow> ''null'')"

definition exit_error :: "string \<Rightarrow> cli_exit \<Rightarrow> string \<Rightarrow> ndjson_state \<Rightarrow> ndjson_state" where
  "exit_error runtime e stderrTail s =
     (if ce_code e \<noteq> Some 0 \<and> \<not> has_error (nd_errorText s)
      then s\<lparr>nd_errorText := Some (runtime @ '' exited with code '' @ code_str (ce_code e) @ '': '' @ take_last 500 stderrTail)\<rparr>
      else s)"

definition raw_answer :: "ndjson_state \<Rightarrow> string" where
  "raw_answer s = (if nd_finalText s \<noteq> [] then nd_finalText s else trim (concat (nd_chunks s)))"

definition finish_run :: "string \<Rightarrow> string \<Rightarrow> string list \<Rightarrow> cli_exit \<Rightarrow> string \<Rightarrow> string \<Rightarrow> ndjson_state \<Rightarrow> cli_result" where
  "finish_run runtime cwd command e stderrTail stdoutTail s0 =
     (let s1 = exit_error runtime e stderrTail s0;
          answer = raw_answer s1;
          s = (if ce_code e = Some 0 \<and> \<not> has_error (nd_errorText s1) \<and> answer = [] \<and> looksLikeTerminalStderr stderrTail
               then s1\<lparr>nd_errorText := Some (runtime @ '' reported an error on stderr: '' @ take_last 500 stderrTail)\<rparr>
               else s1)
      in \<lparr>cr_text = (if utf8ByteLength answer > ASSISTANT_TEXT_CAP then sliceUtf8Bytes answer ASSISTANT_TEXT_CAP else answer),
          cr_newSessionId = nd_newSessionId s, cr_costUsd = nd_costUsd s, cr_usage = nd_usage s,
          cr_error = (if has_error (nd_errorText s) then nd_errorText s else None),
          cr_failure =
            (if has_error (nd_errorText s)
             then Some (no_report\<lparr>fr_cwd := Some cwd, fr_command := safeCommand (Some command), fr_exit_code := ce_code e,
               fr_signal := ce_signal e, fr_stderr_tail := tailText (Some stderrTail) RUNTIME_FAILURE_TAIL_LIMIT,
               fr_stdout_tail := tailText (Some stdoutTail) RUNTIME_FAILURE_TAIL_LIMIT,
               fr_error_message := Some (sanitizeRuntimeFailureText (case nd_errorText s of Some t \<Rightarrow> t | None \<Rightarrow> []) 2048)\<rparr>)
             else None)\<rparr>)"

definition collect_tail :: "string list \<Rightarrow> string" where
  "collect_tail chunks = fold (\<lambda>chunk t. sanitizeRuntimeFailureText (t @ chunk) RUNTIME_FAILURE_TAIL_LIMIT) chunks []"

text \<open>\<open>run\<close>: what is reported, and the result.\<close>

definition ndjson_run ::
  "(string \<Rightarrow> jsval option) \<Rightarrow> event_handler \<Rightarrow> string \<Rightarrow> string option \<Rightarrow> string \<Rightarrow> string list \<Rightarrow> bool
   \<Rightarrow> string list \<Rightarrow> string list \<Rightarrow> cli_exit \<Rightarrow> run_report list \<times> cli_result" where
  "ndjson_run parse handle runtime sessionId cwd command aborted stdout stderr e =
     (if aborted
      then ([], \<lparr>cr_text = [], cr_newSessionId = (case sessionId of Some i \<Rightarrow> i | None \<Rightarrow> []), cr_costUsd = None, cr_usage = None,
              cr_error = Some (runtime @ '' aborted before spawn''), cr_failure = None\<rparr>)
      else let r = flush_residual parse handle (fold (on_data parse handle) stdout
                     \<lparr>lr_buf = [], lr_seq = 0, lr_state = begin_state sessionId, lr_reports = []\<rparr>)
        in (lr_reports r, finish_run runtime cwd command e (collect_tail stderr) (collect_tail stdout) (lr_state r)))"

section \<open>The process\<close>

text \<open>\<open>child.killed\<close> of Node: \<open>kill\<close> sets it when the signal has been delivered, whether or not the program ends.\<close>

datatype signal = SIGTERM | SIGKILL

record child_process =
  cp_alive :: bool
  cp_closed :: bool
  cp_killed :: bool
  cp_signals :: "signal list"
  cp_listening :: bool
  cp_killTimer :: bool

definition child_kill :: "signal \<Rightarrow> child_process \<Rightarrow> child_process" where
  "child_kill sig c = (if cp_alive c then c\<lparr>cp_killed := True, cp_signals := cp_signals c @ [sig]\<rparr> else c)"

datatype process_event = PeAbort | PeKillTimer | PeDies | PeClose

fun process_step :: "process_event \<Rightarrow> child_process \<Rightarrow> child_process" where
  "process_step PeAbort c =
     (if \<not> cp_listening c then c
      else let c = c\<lparr>cp_listening := False\<rparr>
        in if cp_killed c then c else (child_kill SIGTERM c)\<lparr>cp_killTimer := True\<rparr>)"
| "process_step PeKillTimer c =
     (if \<not> cp_killTimer c then c
      else let c = c\<lparr>cp_killTimer := False\<rparr> in if cp_killed c then c else child_kill SIGKILL c)"
| "process_step PeDies c = c\<lparr>cp_alive := False\<rparr>"
| "process_step PeClose c = (if cp_alive c then c else c\<lparr>cp_closed := True, cp_listening := False, cp_killTimer := False\<rparr>)"

definition spawned :: child_process where
  "spawned = \<lparr>cp_alive = True, cp_closed = False, cp_killed = False, cp_signals = [], cp_listening = True, cp_killTimer = False\<rparr>"

section \<open>The environment\<close>

definition opt_entry :: "string \<Rightarrow> string option \<Rightarrow> (string \<times> string) list" where
  "opt_entry k v = (case v of Some t \<Rightarrow> if t \<noteq> [] then [(k, t)] else [] | None \<Rightarrow> [])"

definition buildCliEnv :: "string option \<Rightarrow> string option \<Rightarrow> string option \<Rightarrow> string option \<Rightarrow> string option \<Rightarrow> (string \<times> string) list" where
  "buildCliEnv binDir hubUrl accountId basePath waitMarkerFile =
     opt_entry ''BOTCORD_HUB'' hubUrl @ opt_entry ''BOTCORD_AGENT_ID'' accountId @ opt_entry ''BOTCORD_WAIT_FILE'' waitMarkerFile @
     (case binDir of
        None \<Rightarrow> []
      | Some dir \<Rightarrow> [(''PATH'', (case basePath of Some p \<Rightarrow> if p \<noteq> [] then dir @ '':'' @ p else dir | None \<Rightarrow> dir))])"

text \<open>\<open>{ ...a, ...b }\<close>.\<close>

definition env_with :: "(string \<times> string) list \<Rightarrow> (string \<times> string) list \<Rightarrow> (string \<times> string) list" where
  "env_with a b = fold (\<lambda>(k, v) e. upd_assoc e k v) b a"

definition child_env :: "trust_level \<Rightarrow> (string \<times> string) list \<Rightarrow> (string \<times> string) list" where
  "child_env trust env = (if trust = Public then scrubGuestEnv env else env)"

section \<open>Extra arguments\<close>

definition extraFlagName :: "string \<Rightarrow> string" where
  "extraFlagName arg = (if startsWith arg ''-'' then takeWhile (\<lambda>c. c \<noteq> CHR ''='') arg else arg)"

definition has_eq :: "string \<Rightarrow> bool" where
  "has_eq arg \<longleftrightarrow> CHR ''='' \<in> set arg"

text \<open>The value that follows a flag: a text, or a negative number.\<close>

definition is_value :: "string \<Rightarrow> bool" where
  "is_value v \<longleftrightarrow> \<not> startsWith v ''-'' \<or> (case v of c # d # _ \<Rightarrow> d \<in> digit_chars | _ \<Rightarrow> False)"

definition nextExtraValue :: "string list \<Rightarrow> string option" where
  "nextExtraValue rest = (case rest of v # _ \<Rightarrow> if is_value v then Some v else None | [] \<Rightarrow> None)"

text \<open>The arguments after a flag that is dropped with its value.\<close>

definition after_value :: "string \<Rightarrow> string list \<Rightarrow> string list" where
  "after_value arg rest = (if \<not> has_eq arg \<and> nextExtraValue rest \<noteq> None then tl rest else rest)"

lemma after_value_shorter: "length (after_value arg rest) \<le> length rest"
  by (simp add: after_value_def)

record run_options =
  ro_text :: string
  ro_sessionId :: "string option"
  ro_extraArgs :: "string list option"
  ro_trustLevel :: trust_level
  ro_collaborator :: bool
  ro_allowedCommands :: "string list option"
  ro_systemContext :: "string option"
  ro_systemRules :: "system_rule list option"

text \<open>\<open>ro_collaborator\<close>: the execution profile is \<open>collaborator\<close>.\<close>

definition guest :: "run_options \<Rightarrow> bool" where
  "guest opts \<longleftrightarrow> ro_trustLevel opts = Public"

section \<open>How the output is cut does not matter\<close>

lemma drain_no_newline: "newline \<notin> set buf \<Longrightarrow> drain_buffer parse handle buf r = r\<lparr>lr_buf := buf\<rparr>"
  by (simp add: drain_buffer.simps)

lemma drain_line: "newline \<notin> set line \<Longrightarrow>
  drain_buffer parse handle (line @ newline # rest) r = drain_buffer parse handle rest (dispatchLine parse handle (trim line) r)"
proof -
  assume "newline \<notin> set line"
  then have "takeWhile (\<lambda>c. c \<noteq> newline) (line @ newline # rest) = line"
    by (subst takeWhile_append2) auto
  then show ?thesis by (subst drain_buffer.simps) (simp add: Let_def)
qed

lemma dispatchLine_buf: "lr_buf (dispatchLine parse handle line r) = lr_buf r"
  by (simp add: dispatchLine_def split: option.splits prod.splits)

lemma dispatchLine_upd: "dispatchLine parse handle line (r\<lparr>lr_buf := b\<rparr>) = (dispatchLine parse handle line r)\<lparr>lr_buf := b\<rparr>"
  by (simp add: dispatchLine_def split: option.splits prod.splits)

lemma drain_upd: "drain_buffer parse handle buf (r\<lparr>lr_buf := b\<rparr>) = drain_buffer parse handle buf r"
proof (induction "length buf" arbitrary: buf r rule: less_induct)
  case less
  show ?case
  proof (cases "newline \<in> set buf")
    case True
    then obtain l rest where buf: "buf = l @ newline # rest" "newline \<notin> set l" using split_list_first by fast
    then show ?thesis using less[of rest] by (simp add: drain_line dispatchLine_upd)
  qed (simp add: drain_no_newline)
qed

lemma drain_append: "drain_buffer parse handle (a @ b) r = drain_buffer parse handle (lr_buf (drain_buffer parse handle a r) @ b) (drain_buffer parse handle a r)"
proof (induction "length a" arbitrary: a r rule: less_induct)
  case less
  show ?case
  proof (cases "newline \<in> set a")
    case True
    then obtain l rest where a: "a = l @ newline # rest" "newline \<notin> set l" using split_list_first by fast
    then show ?thesis using less[of rest] by (simp add: drain_line)
  next
    case False
    then show ?thesis by (simp add: drain_no_newline drain_upd)
  qed
qed

lemma chunks_as_one: "chunks \<noteq> [] \<Longrightarrow> fold (on_data parse handle) chunks r = on_data parse handle (concat chunks) r"
proof (induction chunks arbitrary: r)
  case (Cons c chunks)
  show ?case
  proof (cases "chunks = []")
    case False
    have "fold (on_data parse handle) (c # chunks) r = on_data parse handle (concat chunks) (on_data parse handle c r)"
      using Cons.IH[OF False] by simp
    also have "\<dots> = on_data parse handle (c @ concat chunks) r"
      unfolding on_data_def append_assoc[symmetric] by (rule drain_append[symmetric])
    finally show ?thesis by simp
  qed simp
qed simp

text \<open>How the output of a program is cut into pieces on its way does not matter: the events that are handled, what is
  reported and the state at the end are those of the output as a whole.\<close>

theorem chunking_irrelevant:
  "concat chunks = concat chunks' \<Longrightarrow> chunks \<noteq> [] \<Longrightarrow> chunks' \<noteq> [] \<Longrightarrow>
   fold (on_data parse handle) chunks r = fold (on_data parse handle) chunks' r"
  by (simp add: chunks_as_one)

section \<open>The answer is bounded\<close>

lemma utf8_append: "utf8ByteLength (a @ b) = utf8ByteLength a + utf8ByteLength b"
  by (simp add: utf8ByteLength_def utf8_bytes_def)

lemma utf8_Nil [simp]: "utf8ByteLength [] = 0"
  by (simp add: utf8ByteLength_def utf8_bytes_def)

lemma utf8_Cons: "utf8ByteLength (c # s) = utf8ByteLength [c] + utf8ByteLength s"
  using utf8_append[of "[c]" s] by simp

lemma slice_bytes_bounded: "used \<le> n \<Longrightarrow> used + utf8ByteLength (slice_bytes n used s) \<le> n"
proof (induction n used s rule: slice_bytes.induct)
  case (2 n used c cs)
  show ?case
  proof (cases "used + utf8ByteLength [c] > n")
    case False
    then have "(used + utf8ByteLength [c]) + utf8ByteLength (slice_bytes n (used + utf8ByteLength [c]) cs) \<le> n" using 2 by simp
    then show ?thesis using False utf8_Cons[of c "slice_bytes n (used + utf8ByteLength [c]) cs"] by (simp add: Let_def)
  qed (use 2 in \<open>simp add: Let_def\<close>)
qed simp

lemma slice_bytes_prefix: "\<exists>rest. s = slice_bytes n used s @ rest"
  by (induction n used s rule: slice_bytes.induct) (auto simp: Let_def)

lemma slice_bounded: "utf8ByteLength (sliceUtf8Bytes s n) \<le> n"
  using slice_bytes_bounded[of 0 n s] by (simp add: sliceUtf8Bytes_def)

lemma slice_prefix: "\<exists>rest. s = sliceUtf8Bytes s n @ rest"
  using slice_bytes_prefix by (simp add: sliceUtf8Bytes_def)

text \<open>The answer of a run fits the cap, and it is the beginning of what the runtime gave as its final text or streamed.\<close>

theorem answer_bounded:
  "utf8ByteLength (cr_text (finish_run runtime cwd command e stderrTail stdoutTail s)) \<le> ASSISTANT_TEXT_CAP
   \<and> (\<exists>rest. raw_answer s = cr_text (finish_run runtime cwd command e stderrTail stdoutTail s) @ rest)"
proof -
  have same: "raw_answer (exit_error runtime e stderrTail s) = raw_answer s"
    by (simp add: exit_error_def raw_answer_def)
  show ?thesis using slice_bounded slice_prefix by (auto simp: finish_run_def Let_def same)
qed

text \<open>What is streamed is bounded while it arrives, and a capped run takes nothing more.\<close>

definition chunks_ok :: "ndjson_state \<Rightarrow> bool" where
  "chunks_ok s \<longleftrightarrow> nd_bytes s = utf8ByteLength (concat (nd_chunks s)) \<and> nd_bytes s \<le> ASSISTANT_TEXT_CAP"

lemma append_keeps_bound: "chunks_ok s \<Longrightarrow> chunks_ok (appendAssistantText t s)"
  using slice_bounded[of t "ASSISTANT_TEXT_CAP - nd_bytes s"]
  by (auto simp: chunks_ok_def appendAssistantText_def Let_def utf8_append)

text \<open>A program that does not end with code 0 always has an error and a report.\<close>

theorem failed_program_reported:
  "if ce_code e \<noteq> Some 0
   then cr_error (finish_run runtime cwd command e stderrTail stdoutTail s) \<noteq> None
      \<and> cr_failure (finish_run runtime cwd command e stderrTail stdoutTail s) \<noteq> None
   else True"
  by (auto simp: finish_run_def exit_error_def has_error_def Let_def)

section \<open>A program that ignores SIGTERM\<close>

lemma process_invariant:
  "(cp_killTimer c \<longrightarrow> cp_killed c \<or> \<not> cp_alive c) \<and> SIGKILL \<notin> set (cp_signals c) \<Longrightarrow>
   (cp_killTimer (process_step e c) \<longrightarrow> cp_killed (process_step e c) \<or> \<not> cp_alive (process_step e c))
   \<and> SIGKILL \<notin> set (cp_signals (process_step e c))"
  by (cases e) (auto simp: child_kill_def Let_def)

text \<open>The escalation never happens: \<open>SIGTERM\<close> sets the flag that the timer reads as "has ended", so \<open>SIGKILL\<close> is not
  sent in any run, and a program that ignores \<open>SIGTERM\<close> keeps its run open for ever.\<close>

lemma sigkill_never_sent: "SIGKILL \<notin> set (cp_signals (fold process_step es spawned))"
proof -
  have "(cp_killTimer c \<longrightarrow> cp_killed c \<or> \<not> cp_alive c) \<and> SIGKILL \<notin> set (cp_signals c) \<Longrightarrow>
      SIGKILL \<notin> set (cp_signals (fold process_step es c))" for c
    by (induction es arbitrary: c) (use process_invariant in \<open>simp, fastforce\<close>)
  then show ?thesis by (simp add: spawned_def)
qed

lemma stubborn_program_never_closed: "PeDies \<notin> set es \<Longrightarrow> cp_alive c \<Longrightarrow> \<not> cp_closed c \<Longrightarrow> \<not> cp_closed (fold process_step es c)"
proof (induction es arbitrary: c)
  case (Cons e es)
  have "cp_alive (process_step e c) \<and> \<not> cp_closed (process_step e c)"
    using Cons.prems by (cases e) (auto simp: child_kill_def Let_def)
  then show ?case using Cons by simp
qed simp

section \<open>What a guest's program sees\<close>

text \<open>The program of a guest gets none of the variables that are to be kept from it.\<close>

lemma scrubbed_env:
  "(k, v) \<in> set (child_env Public env) \<Longrightarrow>
   env_keep_prefix k \<or> \<not> (k \<in> set GUEST_ENV_DROP_EXACT \<or> env_drop_prefix k \<or> env_secretish k)"
  unfolding child_env_def by (simp, induction env rule: scrubGuestEnv.induct) (auto split: if_splits)

end
