(* ===== verification/Codex_Runtime.thy ===== *)
theory Codex_Runtime
  imports Cli_Runtime
begin

text \<open>
  The adapter of Codex (\<open>daemon/src/gateway/runtimes/codex.ts\<close>): the arguments the program is started with, which fix
  what it may do, and the reading of its events. Probing for the program and the instruction file it reads are left
  out; \<open>JSON.stringify\<close> is the argument \<open>stringify\<close>.
\<close>

section \<open>Arguments\<close>

definition CODEX_SANDBOX_MODES :: "string list" where
  "CODEX_SANDBOX_MODES = [''read-only'', ''workspace-write'', ''danger-full-access'']"

definition CODEX_FOREIGN_EXTRA_FLAGS_WITH_VALUE :: "string list" where
  "CODEX_FOREIGN_EXTRA_FLAGS_WITH_VALUE = [''--append-system-prompt'', ''--permission-mode'']"

definition BYPASS :: string where "BYPASS = ''--dangerously-bypass-approvals-and-sandbox''"

definition quoted_setting :: "string \<Rightarrow> string \<Rightarrow> string" where
  "quoted_setting key value = key @ ''='' @ [CHR 0x22] @ value @ [CHR 0x22]"

definition after_eq :: "string \<Rightarrow> string" where
  "after_eq arg = tl (dropWhile (\<lambda>c. c \<noteq> CHR ''='') arg)"

function sanitize_codex :: "string list \<Rightarrow> string list" where
  "sanitize_codex [] = []"
| "sanitize_codex (arg # rest) =
     (let name = extraFlagName arg in
      if name \<in> set CODEX_FOREIGN_EXTRA_FLAGS_WITH_VALUE then sanitize_codex (after_value arg rest)
      else if name = ''-s'' \<or> name = ''--sandbox''
      then (let value = (if has_eq arg then Some (after_eq arg) else nextExtraValue rest)
            in (case value of
                  Some v \<Rightarrow> if v \<in> set CODEX_SANDBOX_MODES then [''-c'', quoted_setting ''sandbox_mode'' v] else []
                | None \<Rightarrow> []) @ sanitize_codex (after_value arg rest))
      else if arg = ''--full-auto'' then BYPASS # sanitize_codex rest
      else arg # sanitize_codex rest)"
  by pat_completeness auto

termination
  by (relation "measure length") (auto simp: less_Suc_eq_le after_value_shorter)

definition sanitizeCodexExtraArgs :: "string list option \<Rightarrow> string list" where
  "sanitizeCodexExtraArgs extraArgs = (case extraArgs of Some xs \<Rightarrow> sanitize_codex xs | None \<Rightarrow> [])"

definition model_setting :: "string \<Rightarrow> bool" where
  "model_setting v \<longleftrightarrow> startsWith v ''model='' \<or> startsWith v ''model_reasoning_effort=''"

fun restrictedCodexExtraArgs :: "string list \<Rightarrow> string list" where
  "restrictedCodexExtraArgs [] = []"
| "restrictedCodexExtraArgs [arg] = (if extraFlagName arg \<in> {''--model'', ''-m''} \<and> has_eq arg then [arg] else [])"
| "restrictedCodexExtraArgs (arg # next' # rest) =
     (if extraFlagName arg \<in> {''--model'', ''-m''}
      then (if has_eq arg then arg # restrictedCodexExtraArgs (next' # rest)
            else if is_value next' then arg # next' # restrictedCodexExtraArgs rest
            else restrictedCodexExtraArgs (next' # rest))
      else if arg = ''-c'' \<or> arg = ''--config''
      then (if model_setting next' then [''-c'', next'] else []) @ restrictedCodexExtraArgs rest
      else restrictedCodexExtraArgs (next' # rest))"

fun hasCodexSandboxOverride :: "string list \<Rightarrow> bool" where
  "hasCodexSandboxOverride [] = False"
| "hasCodexSandboxOverride (arg # rest) =
     (arg = BYPASS \<or> startsWith arg ''-c sandbox_mode='' \<or> startsWith arg ''-csandbox_mode='' \<or> startsWith arg ''--config=sandbox_mode=''
      \<or> ((arg = ''-c'' \<or> arg = ''--config'') \<and> (case rest of v # _ \<Rightarrow> startsWith v ''sandbox_mode='' | [] \<Rightarrow> False))
      \<or> hasCodexSandboxOverride rest)"

definition codex_extra :: "run_options \<Rightarrow> string list" where
  "codex_extra opts =
     (let sanitized = sanitizeCodexExtraArgs (ro_extraArgs opts) in if guest opts then restrictedCodexExtraArgs sanitized else sanitized)"

definition codex_policy :: "run_options \<Rightarrow> string list" where
  "codex_policy opts =
     (if guest opts \<and> ro_collaborator opts
      then [''-c'', quoted_setting ''sandbox_mode'' ''workspace-write'', ''-c'', quoted_setting ''approval_policy'' ''never'',
            ''-c'', ''sandbox_workspace_write.network_access=false'',
            ''-c'', ''sandbox_workspace_write.exclude_tmpdir_env_var=true'',
            ''-c'', ''sandbox_workspace_write.exclude_slash_tmp=true'']
      else if guest opts
      then [''-c'', quoted_setting ''sandbox_mode'' ''read-only'', ''-c'', quoted_setting ''approval_policy'' ''never'']
      else if \<not> hasCodexSandboxOverride (codex_extra opts)
      then [''-c'', quoted_setting ''sandbox_mode'' ''danger-full-access'', ''-c'', quoted_setting ''approval_policy'' ''never'']
      else [])"

definition codex_buildArgs :: "run_options \<Rightarrow> string list" where
  "codex_buildArgs opts =
     (let tail = codex_policy opts @ [''--skip-git-repo-check'', ''--json''] @ codex_extra opts
      in (case ro_sessionId opts of
            Some i \<Rightarrow> if i \<noteq> [] then [''exec'', ''resume'', i] else [''exec'']
          | None \<Rightarrow> [''exec'']) @ tail @ [''--'', ro_text opts])"

text \<open>\<open>CODEX_SESSION_ID_RE\<close>: hexadecimal groups of 8, 4, 4, 4 and 12.\<close>

definition uuid_char :: "char \<Rightarrow> bool" where
  "uuid_char c \<longleftrightarrow> c \<in> set ''0123456789abcdefABCDEF''"

definition codex_session_id :: "string \<Rightarrow> bool" where
  "codex_session_id s \<longleftrightarrow>
     (case split_on (CHR ''-'') s of
        [a, b, c, d, e] \<Rightarrow> list_all (list_all uuid_char) [a, b, c, d, e] \<and> map length [a, b, c, d, e] = [8, 4, 4, 4, 12]
      | _ \<Rightarrow> False)"

definition codex_accepts :: "run_options \<Rightarrow> bool" where
  "codex_accepts opts \<longleftrightarrow> (case ro_sessionId opts of Some i \<Rightarrow> i = [] \<or> codex_session_id i | None \<Rightarrow> True)"

section \<open>Events\<close>

definition codex_tools :: "string list" where
  "codex_tools = [''command_execution'', ''file_change'', ''mcp_tool_call'', ''web_search'']"

definition codexToolLabel :: "string \<Rightarrow> string" where
  "codexToolLabel tool =
     (if tool = ''command_execution'' then ''Running command''
      else if tool = ''file_change'' then ''Editing files''
      else if tool = ''mcp_tool_call'' then ''Calling tool''
      else if tool = ''web_search'' then ''Searching web''
      else tool)"

definition codexStatusEvent :: "jsval \<Rightarrow> status_event option" where
  "codexStatusEvent obj =
     (let ty = get_prop obj ''type''; itemType = get_prop (get_prop obj ''item'') ''type'' in
      if ty = JStr ''thread.started'' then Some (StThinking PhStarted (Some ''Starting session''))
      else if ty = JStr ''turn.started'' then Some (StThinking PhStarted (Some ''Thinking''))
      else if ty = JStr ''item.started'' \<and> (case itemType of JStr t \<Rightarrow> t \<in> set codex_tools | _ \<Rightarrow> False)
      then Some (StThinking PhUpdated (Some (codexToolLabel (case itemType of JStr t \<Rightarrow> t | _ \<Rightarrow> []))))
      else if ty = JStr ''item.completed'' \<and> itemType = JStr ''agent_message'' then Some (StThinking PhStopped None)
      else if ty = JStr ''turn.completed'' then Some (StThinking PhStopped None)
      else None)"

definition codex_block :: "jsval \<Rightarrow> nat \<Rightarrow> stream_block" where
  "codex_block obj seq =
     (let ty = get_prop obj ''type''; itemType = get_prop (get_prop obj ''item'') ''type''
      in \<lparr>sb_raw = obj,
          sb_kind =
            (if ty \<in> {JStr ''thread.started'', JStr ''turn.started'', JStr ''turn.completed''} then SystemBlock
             else if ty = JStr ''item.completed'' \<and> itemType = JStr ''agent_message'' then AssistantText
             else if ty \<in> {JStr ''item.started'', JStr ''item.completed''} \<and> (case itemType of JStr t \<Rightarrow> t \<in> set codex_tools | _ \<Rightarrow> False)
             then (if ty = JStr ''item.completed'' then ToolResult else ToolUse)
             else OtherBlock),
          sb_seq = seq\<rparr>)"

definition numOrUndefined :: "jsval \<Rightarrow> rat option" where
  "numOrUndefined v = (case finite_num v of Some q \<Rightarrow> if q \<ge> 0 then Some q else None | None \<Rightarrow> None)"

definition codex_usage :: "jsval \<Rightarrow> token_usage option" where
  "codex_usage usage =
     (if \<not> is_object usage then None
      else let input = numOrUndefined (get_prop usage ''input_tokens'');
               cached = numOrUndefined (get_prop usage ''cached_input_tokens'');
               output = numOrUndefined (get_prop usage ''output_tokens'');
               miss = map_option (\<lambda>i. max 0 (i - (case cached of Some c \<Rightarrow> c | None \<Rightarrow> 0))) input
        in if cached = None \<and> miss = None \<and> output = None then None
           else Some \<lparr>us_hit = cached, us_miss = miss, us_output = output\<rparr>)"

text \<open>\<open>v?.trim()\<close>; \<open>None\<close>: the call throws, as \<open>v\<close> is neither a text nor missing.\<close>

definition trimmed_message :: "jsval \<Rightarrow> string option" where
  "trimmed_message v = (case v of JStr m \<Rightarrow> Some (trim m) | JUndef \<Rightarrow> Some [] | JNull \<Rightarrow> Some [] | _ \<Rightarrow> None)"

text \<open>\<open>dots\<close> is the ellipsis.\<close>

definition summarizeCodexErrorEvent :: "(jsval \<Rightarrow> string option) \<Rightarrow> char \<Rightarrow> jsval \<Rightarrow> string" where
  "summarizeCodexErrorEvent stringify dots obj =
     (case stringify obj of
        None \<Rightarrow> []
      | Some json \<Rightarrow>
          if json \<in> {[], ''{}'', ''null''} then []
          else if length json > 800 then take 800 json @ [dots] else json)"

definition codex_error :: "(jsval \<Rightarrow> string option) \<Rightarrow> char \<Rightarrow> string \<Rightarrow> jsval \<Rightarrow> string option \<Rightarrow> ndjson_state \<Rightarrow> ndjson_state" where
  "codex_error stringify dots fallback obj message s =
     (case message of
        None \<Rightarrow> s
      | Some m \<Rightarrow> s\<lparr>nd_errorText := Some
          (if m \<noteq> [] then m
           else let summary = summarizeCodexErrorEvent stringify dots obj in if summary \<noteq> [] then summary else fallback)\<rparr>)"

definition codex_state :: "(jsval \<Rightarrow> string option) \<Rightarrow> char \<Rightarrow> jsval \<Rightarrow> ndjson_state \<Rightarrow> ndjson_state" where
  "codex_state stringify dots obj s =
     (let ty = get_prop obj ''type''; item = get_prop obj ''item'' in
      if ty = JStr ''thread.started''
      then (case get_prop obj ''thread_id'' of JStr t \<Rightarrow> s\<lparr>nd_newSessionId := t\<rparr> | _ \<Rightarrow> s)
      else if ty = JStr ''item.completed'' \<and> get_prop item ''type'' = JStr ''agent_message''
      then (case get_prop item ''text'' of JStr t \<Rightarrow> (appendAssistantText t s)\<lparr>nd_finalText := t\<rparr> | _ \<Rightarrow> s)
      else if ty = JStr ''turn.completed''
      then (let s = (case codex_usage (get_prop obj ''usage'') of Some u \<Rightarrow> s\<lparr>nd_usage := Some u\<rparr> | None \<Rightarrow> s)
            in if get_prop (get_prop obj ''turn'') ''status'' = JStr ''failed''
               then codex_error stringify dots ''codex turn failed'' obj
                      (trimmed_message (get_prop (get_prop (get_prop obj ''turn'') ''error'') ''message'')) s
               else s)
      else if ty = JStr ''error''
      then (let err = get_prop obj ''error''
            in codex_error stringify dots ''codex error'' obj
                 (case err of JStr t \<Rightarrow> Some (trim t) | _ \<Rightarrow> trimmed_message (get_prop err ''message'')) s)
      else s)"

definition codex_handleEvent :: "(jsval \<Rightarrow> string option) \<Rightarrow> char \<Rightarrow> event_handler" where
  "codex_handleEvent stringify dots obj seq s =
     (codex_state stringify dots obj s,
      (case codexStatusEvent obj of Some e \<Rightarrow> [ReportStatus e] | None \<Rightarrow> []) @ [ReportBlock (codex_block obj seq)])"

section \<open>What a guest's program may do\<close>

text \<open>Arguments that choose a model and nothing else.\<close>

fun model_choice :: "string list \<Rightarrow> bool" where
  "model_choice [] = True"
| "model_choice [arg] = (extraFlagName arg \<in> {''--model'', ''-m''} \<and> has_eq arg)"
| "model_choice (arg # v # rest) =
     (if extraFlagName arg \<in> {''--model'', ''-m''} \<and> has_eq arg then model_choice (v # rest)
      else ((arg \<in> {''--model'', ''-m''} \<and> is_value v) \<or> (arg = ''-c'' \<and> model_setting v)) \<and> model_choice rest)"

lemma model_choice_eq: "extraFlagName arg \<in> {''--model'', ''-m''} \<Longrightarrow> has_eq arg \<Longrightarrow> model_choice (arg # rest) = model_choice rest"
  by (cases rest) simp_all

lemma flag_name_plain: "\<not> has_eq arg \<Longrightarrow> extraFlagName arg = arg"
  by (auto simp: extraFlagName_def has_eq_def takeWhile_eq_all_conv)

lemma model_choice_value:
  "(arg \<in> {''--model'', ''-m''} \<and> is_value v) \<or> (arg = ''-c'' \<and> model_setting v) \<Longrightarrow> model_choice (arg # v # rest) = model_choice rest"
  by (auto simp: has_eq_def extraFlagName_def startsWith_def)

lemma restricted_codex_models: "model_choice (restrictedCodexExtraArgs xs)"
proof (induction xs rule: restrictedCodexExtraArgs.induct)
  case (3 arg next' rest)
  consider (eq) "extraFlagName arg \<in> {''--model'', ''-m''}" "has_eq arg"
    | (model) "extraFlagName arg \<in> {''--model'', ''-m''}" "\<not> has_eq arg"
    | (other) "extraFlagName arg \<notin> {''--model'', ''-m''}" by blast
  then show ?case
  proof cases
    case eq
    then show ?thesis using 3 model_choice_eq by simp
  next
    case model
    then have "arg \<in> {''--model'', ''-m''}" using flag_name_plain by metis
    then show ?thesis using model 3 model_choice_value by simp
  next
    case other
    then show ?thesis using 3 model_choice_value[of "''-c''" next'] by auto
  qed
qed simp_all

lemma flag_names [simp]: "extraFlagName ''--model'' = ''--model''" "extraFlagName ''-m'' = ''-m''"
  by (simp_all add: extraFlagName_def startsWith_def)

text \<open>Where no model setting, no value and none of the three flags is meant, the list holds nothing.\<close>

definition harmless :: "string \<Rightarrow> bool" where
  "harmless x \<longleftrightarrow> extraFlagName x \<in> {''--model'', ''-m''} \<or> x = ''-c'' \<or> is_value x \<or> model_setting x"

lemma model_choice_args: "model_choice xs \<Longrightarrow> x \<in> set xs \<Longrightarrow> harmless x"
  by (induction xs rule: model_choice.induct) (auto simp: harmless_def split: if_splits)

lemma not_harmless: "\<not> harmless BYPASS" "\<not> harmless ''--''" "\<not> harmless ''--config''"
  by (simp_all add: harmless_def BYPASS_def extraFlagName_def startsWith_def is_value_def model_setting_def digit_chars_def)

lemma harmless_start:
  assumes "harmless x"
  shows "\<not> startsWith x ''-c sandbox_mode='' \<and> \<not> startsWith x ''-csandbox_mode='' \<and> \<not> startsWith x ''--config=sandbox_mode=''"
proof -
  have "extraFlagName (''-c sandbox_mode='' @ t) = ''-c sandbox_mode''" "extraFlagName (''-csandbox_mode='' @ t) = ''-csandbox_mode''"
    "extraFlagName (''--config=sandbox_mode='' @ t) = ''--config''" for t
    by (simp_all add: extraFlagName_def startsWith_def)
  moreover have "\<not> is_value (''-c sandbox_mode='' @ t)" "\<not> is_value (''-csandbox_mode='' @ t)" "\<not> is_value (''--config=sandbox_mode='' @ t)" for t
    by (simp_all add: is_value_def startsWith_def digit_chars_def)
  ultimately show ?thesis using assms by (auto simp: startsWith_iff harmless_def model_setting_def)
qed

lemma model_choice_no_override: "model_choice xs \<Longrightarrow> \<not> hasCodexSandboxOverride xs"
proof (induction xs rule: model_choice.induct)
  case (2 arg)
  then have "harmless arg" using model_choice_args[of "[arg]"] by simp
  then show ?case using harmless_start[of arg] not_harmless(1) 2 by (auto simp: extraFlagName_def)
next
  case (3 arg v rest)
  have h: "harmless arg" "harmless v" using model_choice_args[OF 3(3)] by auto
  have m: "model_setting v \<Longrightarrow> \<not> startsWith v ''sandbox_mode=''" by (auto simp: model_setting_def startsWith_iff)
  have c: "arg = ''-c'' \<or> arg = ''--config'' \<Longrightarrow> extraFlagName arg \<notin> {''--model'', ''-m''}" by (auto simp: extraFlagName_def startsWith_def)
  show ?case
  proof (cases "extraFlagName arg \<in> {''--model'', ''-m''} \<and> has_eq arg")
    case True
    then show ?thesis using 3 harmless_start[OF h(1)] not_harmless(1) h(1) c by auto
  next
    case False
    then have "model_choice rest" "(arg \<in> {''--model'', ''-m''} \<and> is_value v) \<or> (arg = ''-c'' \<and> model_setting v)" using 3(3) by auto
    moreover have "v \<noteq> ''-c'' \<and> v \<noteq> ''--config''"
      using calculation(2) by (auto simp: is_value_def startsWith_def digit_chars_def model_setting_def)
    ultimately show ?thesis using 3(2) False harmless_start[OF h(1)] harmless_start[OF h(2)] not_harmless(1) h m by auto
  qed
qed simp


text \<open>A session id that is accepted is no option.\<close>

lemma session_id_no_option: "codex_session_id s \<Longrightarrow> \<not> startsWith s ''-''"
proof
  assume s: "codex_session_id s" "startsWith s ''-''"
  then obtain t where "s = CHR ''-'' # t" by (auto simp: startsWith_iff)
  then show False using s(1) split_on_append_sep[of "CHR ''-''" "[]" t]
    by (auto simp: codex_session_id_def split: list.splits)
qed

section \<open>What an operator sets\<close>

text \<open>A sandbox mode that Codex does not know is dropped together with its flag, and the program runs with full access; so
  does one that is given with \<open>--full-auto\<close>.\<close>

lemma unknown_sandbox_mode_fails_open:
  assumes "\<not> guest opts" "ro_extraArgs opts = Some [''--sandbox'', mode]" "is_value mode" "mode \<notin> set CODEX_SANDBOX_MODES"
  shows "quoted_setting ''sandbox_mode'' ''danger-full-access'' \<in> set (codex_buildArgs opts) \<and> codex_extra opts = []"
proof -
  have flag: "extraFlagName ''--sandbox'' = ''--sandbox''" "\<not> has_eq ''--sandbox''"
    by (simp_all add: extraFlagName_def startsWith_def has_eq_def)
  have "codex_extra opts = []" using assms flag
    by (simp add: codex_extra_def sanitizeCodexExtraArgs_def after_value_def nextExtraValue_def CODEX_FOREIGN_EXTRA_FLAGS_WITH_VALUE_def Let_def)
  then show ?thesis using assms(1) by (simp add: codex_buildArgs_def codex_policy_def Let_def)
qed

lemma full_auto_bypasses_sandbox:
  assumes "\<not> guest opts" "ro_extraArgs opts = Some [''--full-auto'']"
  shows "BYPASS \<in> set (codex_buildArgs opts)"
proof -
  have "extraFlagName ''--full-auto'' = ''--full-auto''" by (simp add: extraFlagName_def startsWith_def)
  then show ?thesis using assms
    by (simp add: codex_buildArgs_def codex_extra_def sanitizeCodexExtraArgs_def CODEX_FOREIGN_EXTRA_FLAGS_WITH_VALUE_def Let_def)
qed

lemma operator_sandbox_kept:
  assumes "\<not> guest opts" "ro_extraArgs opts = Some [''-s'', mode]" "mode \<in> set CODEX_SANDBOX_MODES"
  shows "codex_extra opts = [''-c'', quoted_setting ''sandbox_mode'' mode] \<and> codex_policy opts = []"
proof -
  have flag: "extraFlagName ''-s'' = ''-s''" "\<not> has_eq ''-s''" by (simp_all add: extraFlagName_def startsWith_def has_eq_def)
  have "is_value mode" using assms(3) by (auto simp: CODEX_SANDBOX_MODES_def is_value_def startsWith_def)
  then have e: "codex_extra opts = [''-c'', quoted_setting ''sandbox_mode'' mode]" using assms flag
    by (simp add: codex_extra_def sanitizeCodexExtraArgs_def after_value_def nextExtraValue_def CODEX_FOREIGN_EXTRA_FLAGS_WITH_VALUE_def Let_def)
  then show ?thesis using assms(1) by (simp add: codex_policy_def quoted_setting_def startsWith_def)
qed


section \<open>What the events leave behind\<close>

text \<open>The tokens that were read from the cache and those that were not add up to the input, when the counts are sound.\<close>

lemma codex_usage_adds_up:
  assumes "codex_usage usage = Some u" "numOrUndefined (get_prop usage ''input_tokens'') = Some i"
    "numOrUndefined (get_prop usage ''cached_input_tokens'') = Some c" "c \<le> i"
  shows "us_hit u = Some c \<and> us_miss u = Some (i - c)"
  using assms by (auto simp: codex_usage_def Let_def split: if_splits)

text \<open>An error event whose message is a text or missing always ends in a run with an error that says something.\<close>

lemma codex_error_shown:
  assumes "get_prop obj ''type'' = JStr ''error''" "\<exists>t. get_prop obj ''error'' = JStr t"
  shows "has_error (nd_errorText (codex_state stringify dots obj s))"
  using assms by (auto simp: codex_state_def codex_error_def has_error_def Let_def split: if_splits)

text \<open>The last message of the agent is the answer, whatever was streamed before.\<close>

lemma codex_last_message_wins:
  assumes "get_prop obj ''type'' = JStr ''item.completed''" "get_prop (get_prop obj ''item'') ''type'' = JStr ''agent_message''"
    "get_prop (get_prop obj ''item'') ''text'' = JStr t" "t \<noteq> []"
  shows "raw_answer (codex_state stringify dots obj s) = t"
  using assms by (simp add: codex_state_def raw_answer_def)

lemma chunks_ok_same: "chunks_ok s \<Longrightarrow> nd_chunks t = nd_chunks s \<Longrightarrow> nd_bytes t = nd_bytes s \<Longrightarrow> chunks_ok t"
  by (simp add: chunks_ok_def)

lemma codex_error_chunks: "nd_chunks (codex_error f d b o' m s) = nd_chunks s" "nd_bytes (codex_error f d b o' m s) = nd_bytes s"
  by (simp_all add: codex_error_def split: option.splits)

text \<open>What is streamed stays within the cap at every event.\<close>

lemma codex_state_bound:
  assumes "chunks_ok s"
  shows "chunks_ok (codex_state stringify dots obj s)"
proof -
  have append: "chunks_ok ((appendAssistantText t s)\<lparr>nd_finalText := t\<rparr>)" for t
    using append_keeps_bound[OF assms] by (rule chunks_ok_same) simp_all
  have same: "nd_chunks t = nd_chunks s \<Longrightarrow> nd_bytes t = nd_bytes s \<Longrightarrow> chunks_ok t" for t
    by (rule chunks_ok_same[OF assms])
  have thread: "chunks_ok (case v of JStr t \<Rightarrow> s\<lparr>nd_newSessionId := t\<rparr> | _ \<Rightarrow> s)" for v
    by (cases v) (simp_all add: same)
  have message: "chunks_ok (case v of JStr t \<Rightarrow> (appendAssistantText t s)\<lparr>nd_finalText := t\<rparr> | _ \<Rightarrow> s)" for v
    by (cases v) (simp_all add: same append)
  have usage: "nd_chunks (case v of Some u \<Rightarrow> s\<lparr>nd_usage := Some u\<rparr> | None \<Rightarrow> s) = nd_chunks s"
    "nd_bytes (case v of Some u \<Rightarrow> s\<lparr>nd_usage := Some u\<rparr> | None \<Rightarrow> s) = nd_bytes s" for v
    by (cases v, simp_all)+
  show ?thesis unfolding codex_state_def Let_def
    using thread message same by (simp add: codex_error_chunks usage)
qed

end
