(* ===== verification/Claude_Runtime.thy ===== *)
theory Claude_Runtime
  imports Cli_Runtime
begin

text \<open>
  The adapter of Claude Code (\<open>daemon/src/gateway/runtimes/claude-code.ts\<close>): the arguments the program is started
  with, which fix what it may do, its environment, and the reading of its events. Probing for the program is left
  out; \<open>String\<close> of a value is the argument \<open>str\<close>.
\<close>

section \<open>Arguments\<close>

definition CLAUDE_CODE_AUTH_ENV_DENYLIST :: "string list" where
  "CLAUDE_CODE_AUTH_ENV_DENYLIST = [''ANTHROPIC_API_KEY'', ''ANTHROPIC_AUTH_TOKEN'', ''ANTHROPIC_BASE_URL'',
     ''ANTHROPIC_CUSTOM_HEADERS'', ''CLAUDE_CODE_OAUTH_TOKEN'']"

definition scrubClaudeCodeAuthEnv :: "(string \<times> string) list \<Rightarrow> (string \<times> string) list" where
  "scrubClaudeCodeAuthEnv env = filter (\<lambda>(k, v). k \<notin> set CLAUDE_CODE_AUTH_ENV_DENYLIST) env"

definition isValidClaudeSessionId :: "string \<Rightarrow> bool" where
  "isValidClaudeSessionId s \<longleftrightarrow>
     s \<noteq> [] \<and> length s \<le> 512 \<and> \<not> startsWith s ''-''
     \<and> list_all (\<lambda>c. (of_char c :: nat) \<ge> 0x20 \<and> (of_char c :: nat) \<noteq> 0x7f) s"

definition CLAUDE_FOREIGN_FLAGS_WITH_VALUE :: "string list" where
  "CLAUDE_FOREIGN_FLAGS_WITH_VALUE = [''--color'', ''--config'', ''--disable'', ''--enable'', ''--image'', ''--local-provider'',
     ''--output-last-message'', ''--output-schema'', ''--profile'', ''--sandbox'', ''-i'', ''-o'', ''-p'', ''-s'']"

definition CLAUDE_FOREIGN_BOOLEAN_FLAGS :: "string list" where
  "CLAUDE_FOREIGN_BOOLEAN_FLAGS = [''--all'', ''--dangerously-bypass-approvals-and-sandbox'', ''--ephemeral'', ''--full-auto'',
     ''--ignore-rules'', ''--ignore-user-config'', ''--json'', ''--last'', ''--oss'', ''--print'', ''--skip-git-repo-check'']"

function sanitize_claude :: "string list \<Rightarrow> string list" where
  "sanitize_claude [] = []"
| "sanitize_claude (arg # rest) =
     (if arg = ''-c'' then sanitize_claude (after_value arg rest)
      else if extraFlagName arg \<in> {''--config'', ''--sandbox''} then sanitize_claude (after_value arg rest)
      else if extraFlagName arg \<in> set CLAUDE_FOREIGN_FLAGS_WITH_VALUE then sanitize_claude (after_value arg rest)
      else if extraFlagName arg \<in> set CLAUDE_FOREIGN_BOOLEAN_FLAGS then sanitize_claude rest
      else arg # sanitize_claude rest)"
  by pat_completeness auto

termination
  by (relation "measure length") (auto simp: less_Suc_eq_le after_value_shorter)

definition sanitizeClaudeExtraArgs :: "string list option \<Rightarrow> string list" where
  "sanitizeClaudeExtraArgs extraArgs = (case extraArgs of Some xs \<Rightarrow> sanitize_claude xs | None \<Rightarrow> [])"

definition CLAUDE_RESTRICTED_ALLOWED_TOOLS :: "string list" where
  "CLAUDE_RESTRICTED_ALLOWED_TOOLS = [''Read'', ''Grep'', ''Glob'', ''WebSearch'']"

definition CLAUDE_RESTRICTED_DISALLOWED_TOOLS :: "string list" where
  "CLAUDE_RESTRICTED_DISALLOWED_TOOLS = [''Bash'', ''Edit'', ''Write'', ''NotebookEdit'', ''WebFetch'', ''Read(~/.ssh/**)'',
     ''Read(~/.aws/**)'', ''Read(~/.config/**)'', ''Read(~/.botcord/credentials/**)'', ''Read(~/.botcord/daemon/**)'', ''Read(**/.env*)'']"

definition CLAUDE_COLLABORATOR_BASE_BASH :: "string list" where
  "CLAUDE_COLLABORATOR_BASE_BASH = [''Bash(git status:*)'', ''Bash(git diff:*)'', ''Bash(git log:*)'', ''Bash(ls:*)'']"

definition CLAUDE_COLLABORATOR_DISALLOWED_TOOLS :: "string list" where
  "CLAUDE_COLLABORATOR_DISALLOWED_TOOLS = [''Bash(git push:*)'', ''Bash(git remote:*)'', ''Bash(git config:*)'', ''Bash(curl:*)'',
     ''Bash(wget:*)'', ''Bash(ssh:*)'', ''Bash(scp:*)'', ''Bash(rsync:*)'', ''Bash(nc:*)'', ''WebFetch'', ''Read(**/.env*)'']"

definition CLAUDE_RESTRICTED_KEEP_FLAGS_WITH_VALUE :: "string list" where
  "CLAUDE_RESTRICTED_KEEP_FLAGS_WITH_VALUE = [''--model'', ''--effort'', ''--fallback-model'']"

fun restrictedClaudeExtraArgs :: "string list \<Rightarrow> string list" where
  "restrictedClaudeExtraArgs [] = []"
| "restrictedClaudeExtraArgs [arg] =
     (if extraFlagName arg \<in> set CLAUDE_RESTRICTED_KEEP_FLAGS_WITH_VALUE \<and> has_eq arg then [arg] else [])"
| "restrictedClaudeExtraArgs (arg # next' # rest) =
     (if extraFlagName arg \<notin> set CLAUDE_RESTRICTED_KEEP_FLAGS_WITH_VALUE then restrictedClaudeExtraArgs (next' # rest)
      else if has_eq arg then arg # restrictedClaudeExtraArgs (next' # rest)
      else if is_value next' then arg # next' # restrictedClaudeExtraArgs rest
      else restrictedClaudeExtraArgs (next' # rest))"

definition bash_rule :: "string \<Rightarrow> string" where
  "bash_rule cmd = ''Bash('' @ cmd @ '':*)''"

definition no_hooks :: string where
  "no_hooks = ''{'' @ [CHR 0x22] @ ''disableAllHooks'' @ [CHR 0x22] @ '':true}''"

definition claude_extra :: "run_options \<Rightarrow> string list" where
  "claude_extra opts =
     (let sanitized = sanitizeClaudeExtraArgs (ro_extraArgs opts) in if guest opts then restrictedClaudeExtraArgs sanitized else sanitized)"

definition claude_allowed :: "run_options \<Rightarrow> string list" where
  "claude_allowed opts =
     (if ro_collaborator opts
      then CLAUDE_COLLABORATOR_BASE_BASH @ map bash_rule (case ro_allowedCommands opts of Some cs \<Rightarrow> cs | None \<Rightarrow> [])
      else CLAUDE_RESTRICTED_ALLOWED_TOOLS)"

definition claude_denied :: "run_options \<Rightarrow> string list" where
  "claude_denied opts = (if ro_collaborator opts then CLAUDE_COLLABORATOR_DISALLOWED_TOOLS else CLAUDE_RESTRICTED_DISALLOWED_TOOLS)"

definition claude_policy :: "run_options \<Rightarrow> string list" where
  "claude_policy opts =
     (if guest opts
      then [''--permission-mode'', (if ro_collaborator opts then ''acceptEdits'' else ''default''),
            ''--allowedTools'', join '','' (claude_allowed opts), ''--disallowedTools'', join '','' (claude_denied opts),
            ''--settings'', no_hooks, ''--strict-mcp-config'']
      else if \<not> list_ex (\<lambda>a. startsWith a ''--permission-mode'') (claude_extra opts)
      then [''--permission-mode'', ''bypassPermissions'']
      else [])"

definition claude_system :: "glyphs \<Rightarrow> run_options \<Rightarrow> string list" where
  "claude_system g opts =
     (case prependSystemRules g (ro_systemContext opts) (ro_systemRules opts) of
        Some p \<Rightarrow> if p \<noteq> [] \<and> ''--append-system-prompt'' \<notin> set (claude_extra opts) then [''--append-system-prompt'', p] else []
      | None \<Rightarrow> [])"

definition claude_resume :: "run_options \<Rightarrow> string list" where
  "claude_resume opts = (case ro_sessionId opts of Some i \<Rightarrow> if i \<noteq> [] then [''--resume'', i] else [] | None \<Rightarrow> [])"

definition claude_buildArgs :: "glyphs \<Rightarrow> run_options \<Rightarrow> string list" where
  "claude_buildArgs g opts =
     [''-p'', ro_text opts, ''--output-format'', ''stream-json'', ''--verbose''] @
     (if \<not> list_ex (\<lambda>a. startsWith a ''--setting-sources'') (claude_extra opts) then [''--setting-sources'', ''project''] else []) @
     claude_resume opts @ claude_policy opts @ claude_system g opts @ claude_extra opts"

text \<open>\<open>run\<close> refuses an invalid session before anything is started.\<close>

definition claude_accepts :: "run_options \<Rightarrow> bool" where
  "claude_accepts opts \<longleftrightarrow> (case ro_sessionId opts of Some i \<Rightarrow> i = [] \<or> isValidClaudeSessionId i | None \<Rightarrow> True)"

definition claude_refused :: cli_result where
  "claude_refused = \<lparr>cr_text = [], cr_newSessionId = [], cr_costUsd = None, cr_usage = None,
     cr_error = Some (''claude-code: invalid sessionId (expected non-control text not starting with '' @ [CHR 0x27] @ ''-'' @ [CHR 0x27] @ '')''),
     cr_failure = None\<rparr>"

definition claude_env :: "run_options \<Rightarrow> (string \<times> string) list \<Rightarrow> (string \<times> string) list" where
  "claude_env opts env = child_env (ro_trustLevel opts) (scrubClaudeCodeAuthEnv env)"

section \<open>Events\<close>

definition claude_contents :: "jsval \<Rightarrow> jsval list" where
  "claude_contents obj = (case get_prop (get_prop obj ''message'') ''content'' of JArr xs \<Rightarrow> xs | _ \<Rightarrow> [])"

definition has_contents :: "jsval \<Rightarrow> bool" where
  "has_contents obj \<longleftrightarrow> as_arr (get_prop (get_prop obj ''message'') ''content'') \<noteq> None"

definition claudeStatusEvent :: "jsval \<Rightarrow> status_event option" where
  "claudeStatusEvent obj =
     (let ty = get_prop obj ''type''; contents = claude_contents obj in
      if ty = JStr ''system'' \<and> get_prop obj ''subtype'' = JStr ''init'' then Some (StThinking PhStarted (Some ''Starting session''))
      else if ty = JStr ''assistant'' \<and> list_ex (\<lambda>c. get_prop c ''type'' = JStr ''text'' \<and>
                (case get_prop c ''text'' of JStr t \<Rightarrow> t \<noteq> [] | _ \<Rightarrow> False)) contents
      then Some (StThinking PhStopped None)
      else if ty = JStr ''assistant''
      then (case find (\<lambda>c. get_prop c ''type'' = JStr ''tool_use'') contents of
              Some tool \<Rightarrow> Some (StThinking PhUpdated (Some (case get_prop tool ''name'' of JStr n \<Rightarrow> if n \<noteq> [] then n else ''tool'' | _ \<Rightarrow> ''tool'')))
            | None \<Rightarrow> None)
      else if ty = JStr ''result'' then Some (StThinking PhStopped None)
      else None)"

definition claude_block :: "jsval \<Rightarrow> nat \<Rightarrow> stream_block" where
  "claude_block obj seq =
     (let ty = get_prop obj ''type''; holds = (\<lambda>k. list_ex (\<lambda>c. get_prop c ''type'' = JStr k) (claude_contents obj))
      in \<lparr>sb_raw = obj,
          sb_kind =
            (if ty = JStr ''assistant''
             then (if holds ''tool_use'' then ToolUse else if holds ''text'' then AssistantText else OtherBlock)
             else if ty = JStr ''user'' then (if holds ''tool_result'' then ToolResult else OtherBlock)
             else if ty = JStr ''system'' then SystemBlock
             else OtherBlock),
          sb_seq = seq\<rparr>)"

definition append_texts :: "jsval list \<Rightarrow> ndjson_state \<Rightarrow> ndjson_state" where
  "append_texts contents s =
     fold (\<lambda>c s. if get_prop c ''type'' = JStr ''text'' then (case get_prop c ''text'' of JStr t \<Rightarrow> appendAssistantText t s | _ \<Rightarrow> s) else s) contents s"

definition claude_result :: "jsval \<Rightarrow> ndjson_state \<Rightarrow> ndjson_state" where
  "claude_result obj s0 =
     (let cost = get_prop obj ''total_cost_usd''; result = get_prop obj ''result'';
          s = (case cost of JNum n \<Rightarrow> s0\<lparr>nd_costUsd := Some n\<rparr> | _ \<Rightarrow> s0)
      in if get_prop obj ''subtype'' = JStr ''success''
         then (let t = (case result of JStr t \<Rightarrow> t | _ \<Rightarrow> [])
               in if cost = JNum (Fin 0) \<and> looksLikeRuntimeAuthFailure t
                  then s\<lparr>nd_newSessionId := [], nd_finalText := [], nd_chunks := [], nd_bytes := 0, nd_errorText := Some t\<rparr>
                  else let s = (case get_prop obj ''session_id'' of JStr i \<Rightarrow> s\<lparr>nd_newSessionId := i\<rparr> | _ \<Rightarrow> s)
                       in (case result of JStr t \<Rightarrow> s\<lparr>nd_finalText := t\<rparr> | _ \<Rightarrow> s))
         else let s = s\<lparr>nd_newSessionId := []\<rparr> in (case result of JStr t \<Rightarrow> s\<lparr>nd_errorText := Some t\<rparr> | _ \<Rightarrow> s))"

definition claude_state :: "(jsval \<Rightarrow> string) \<Rightarrow> jsval \<Rightarrow> ndjson_state \<Rightarrow> ndjson_state" where
  "claude_state str obj s =
     (let ty = get_prop obj ''type'' in
      if ty = JStr ''system'' \<and> truthy (get_prop obj ''session_id'') then s\<lparr>nd_newSessionId := str (get_prop obj ''session_id'')\<rparr>
      else if ty = JStr ''assistant'' \<and> has_contents obj then append_texts (claude_contents obj) s
      else if ty = JStr ''result'' then claude_result obj s
      else s)"

definition claude_handleEvent :: "(jsval \<Rightarrow> string) \<Rightarrow> event_handler" where
  "claude_handleEvent str obj seq s =
     (claude_state str obj s,
      (case claudeStatusEvent obj of Some e \<Rightarrow> [ReportStatus e] | None \<Rightarrow> []) @ [ReportBlock (claude_block obj seq)])"

section \<open>What a guest's program may do\<close>

definition kept_arg :: "string \<Rightarrow> bool" where
  "kept_arg x \<longleftrightarrow> extraFlagName x \<in> set CLAUDE_RESTRICTED_KEEP_FLAGS_WITH_VALUE \<or> is_value x"

lemma restricted_claude_kept: "x \<in> set (restrictedClaudeExtraArgs xs) \<Longrightarrow> kept_arg x"
  by (induction xs rule: restrictedClaudeExtraArgs.induct) (auto simp: kept_arg_def split: if_splits)

lemma kept_flag:
  assumes "kept_arg x" "startsWith x ''--''"
  shows "extraFlagName x \<in> set CLAUDE_RESTRICTED_KEEP_FLAGS_WITH_VALUE"
proof -
  obtain t where "x = ''--'' @ t" using assms(2) by (auto simp: startsWith_iff)
  then have "\<not> is_value x" by (simp add: is_value_def startsWith_def digit_chars_def)
  then show ?thesis using assms(1) by (simp add: kept_arg_def)
qed

text \<open>C33: A guest's program is confined whatever arguments the operator has configured: there is one permission mode and it is
  not the one without permissions, one list of allowed and one of forbidden tools, no hooks and no servers of the
  project; every option that is left of the configured ones chooses a model. Without a grant to collaborate the tools
  that are allowed only read, and the shell, edits and writes are forbidden.\<close>

theorem claude_guest_confined:
  "if guest opts
   then \<exists>extra. claude_buildArgs g opts = [''-p'', ro_text opts, ''--output-format'', ''stream-json'', ''--verbose'', ''--setting-sources'', ''project'']
          @ claude_resume opts @ claude_policy opts @ claude_system g opts @ extra
      \<and> claude_policy opts = [''--permission-mode'', (if ro_collaborator opts then ''acceptEdits'' else ''default''),
            ''--allowedTools'', join '','' (claude_allowed opts), ''--disallowedTools'', join '','' (claude_denied opts),
            ''--settings'', no_hooks, ''--strict-mcp-config'']
      \<and> list_all (\<lambda>x. if startsWith x ''--'' then extraFlagName x \<in> {''--model'', ''--effort'', ''--fallback-model''} else True) extra
      \<and> (if ro_collaborator opts then True
         else claude_allowed opts = [''Read'', ''Grep'', ''Glob'', ''WebSearch''] \<and> {''Bash'', ''Edit'', ''Write''} \<subseteq> set (claude_denied opts))
   else True"
proof (cases "guest opts")
  case True
  have kept: "x \<in> set (claude_extra opts) \<Longrightarrow> kept_arg x" for x
    using True restricted_claude_kept by (simp add: claude_extra_def Let_def)
  have flags: "list_all (\<lambda>x. if startsWith x ''--'' then extraFlagName x \<in> {''--model'', ''--effort'', ''--fallback-model''} else True) (claude_extra opts)"
    unfolding list_all_iff using kept kept_flag[unfolded CLAUDE_RESTRICTED_KEEP_FLAGS_WITH_VALUE_def] by auto
  have "\<not> startsWith a ''--setting-sources''" if a: "a \<in> set (claude_extra opts)" for a
  proof
    assume "startsWith a ''--setting-sources''"
    then obtain t where t: "a = ''--setting-sources'' @ t" by (auto simp: startsWith_iff)
    then have "startsWith a ''--''" by (simp add: startsWith_def)
    then have "extraFlagName a \<in> {''--model'', ''--effort'', ''--fallback-model''}" using flags a by (auto simp: list_all_iff)
    then show False unfolding t by (simp add: extraFlagName_def startsWith_def)
  qed
  then have "\<not> list_ex (\<lambda>a. startsWith a ''--setting-sources'') (claude_extra opts)" by (auto simp: list_ex_iff)
  then have args: "claude_buildArgs g opts = [''-p'', ro_text opts, ''--output-format'', ''stream-json'', ''--verbose'', ''--setting-sources'', ''project'']
          @ claude_resume opts @ claude_policy opts @ claude_system g opts @ claude_extra opts"
    by (simp add: claude_buildArgs_def)
  have pol: "claude_policy opts = [''--permission-mode'', (if ro_collaborator opts then ''acceptEdits'' else ''default''),
            ''--allowedTools'', join '','' (claude_allowed opts), ''--disallowedTools'', join '','' (claude_denied opts),
            ''--settings'', no_hooks, ''--strict-mcp-config'']" using True by (simp add: claude_policy_def)
  have tools: "if ro_collaborator opts then True
         else claude_allowed opts = [''Read'', ''Grep'', ''Glob'', ''WebSearch''] \<and> {''Bash'', ''Edit'', ''Write''} \<subseteq> set (claude_denied opts)"
    by (simp add: claude_allowed_def claude_denied_def CLAUDE_RESTRICTED_ALLOWED_TOOLS_def CLAUDE_RESTRICTED_DISALLOWED_TOOLS_def)
  show ?thesis unfolding if_P[OF True] by (rule exI[of _ "claude_extra opts"], intro conjI) (rule args pol flags tools)+
qed simp

text \<open>The program never sees the keys of another account in its environment, whoever asks.\<close>

lemma claude_env_scrubbed: "(k, v) \<in> set (claude_env opts env) \<Longrightarrow> k \<notin> set CLAUDE_CODE_AUTH_ENV_DENYLIST"
proof -
  have "(k, v) \<in> set (scrubGuestEnv e) \<Longrightarrow> (k, v) \<in> set e" for e
    by (induction e rule: scrubGuestEnv.induct) (auto split: if_splits)
  then have "(k, v) \<in> set (child_env trust e) \<Longrightarrow> (k, v) \<in> set e" for trust e
    by (auto simp: child_env_def split: if_splits)
  then show "(k, v) \<in> set (claude_env opts env) \<Longrightarrow> k \<notin> set CLAUDE_CODE_AUTH_ENV_DENYLIST"
    unfolding claude_env_def scrubClaudeCodeAuthEnv_def by fastforce
qed

text \<open>A command of a grant is put between brackets as it is: one that closes the bracket allows a second command.\<close>

lemma one_command_allows_two:
  "join '','' (map bash_rule (cs @ [a @ '':*),Bash('' @ b])) = join '','' (map bash_rule (cs @ [a, b]))"
proof -
  have "join '','' (xs @ [x @ '','' @ y]) = join '','' (xs @ [x, y])" for xs x y
    by (induction xs rule: induct_list012) simp_all
  from this[of "map bash_rule cs" "bash_rule a" "bash_rule b"] show ?thesis by (simp add: bash_rule_def)
qed

text \<open>A value given to \<open>--append-system-prompt=\<close> is not seen, and the flag is given twice.\<close>

lemma system_prompt_given_twice:
  assumes "\<not> guest opts" "ro_extraArgs opts = Some [''--append-system-prompt=mine'']" "ro_systemContext opts = Some ''x''"
    "ro_systemRules opts = None"
  shows "claude_system g opts @ claude_extra opts = [''--append-system-prompt'', ''x'', ''--append-system-prompt=mine'']"
proof -
  have "extraFlagName ''--append-system-prompt=mine'' = ''--append-system-prompt''" by (simp add: extraFlagName_def startsWith_def)
  then have e: "claude_extra opts = [''--append-system-prompt=mine'']" using assms(1,2)
    by (simp add: claude_extra_def sanitizeClaudeExtraArgs_def CLAUDE_FOREIGN_FLAGS_WITH_VALUE_def CLAUDE_FOREIGN_BOOLEAN_FLAGS_def)
  have "prependSystemRules g (ro_systemContext opts) (ro_systemRules opts) = Some ''x''"
    by (simp add: assms(3,4) prependSystemRules_def renderSystemRules_def List.map_filter_simps trim_def is_ws_def)
  then show ?thesis by (simp add: claude_system_def e)
qed

section \<open>What the events leave behind\<close>

text \<open>A result that is an authentication failure leaves neither an answer nor a session: only the error.\<close>

lemma auth_failure_leaves_error:
  assumes "get_prop obj ''type'' = JStr ''result''" "get_prop obj ''subtype'' = JStr ''success''"
    "get_prop obj ''total_cost_usd'' = JNum (Fin 0)" "get_prop obj ''result'' = JStr t" "looksLikeRuntimeAuthFailure t"
  shows "raw_answer (claude_state str obj s) = [] \<and> nd_newSessionId (claude_state str obj s) = []
       \<and> nd_errorText (claude_state str obj s) = Some t"
  using assms by (simp add: claude_state_def claude_result_def raw_answer_def Let_def)

text \<open>A run that does not succeed forgets its session, so that it is not resumed.\<close>

lemma failed_result_forgets_session:
  assumes "get_prop obj ''type'' = JStr ''result''" "get_prop obj ''subtype'' \<noteq> JStr ''success''"
  shows "nd_newSessionId (claude_state str obj s) = []"
  using assms by (simp add: claude_state_def claude_result_def Let_def split: jsval.splits)

lemma append_texts_bound: "chunks_ok s \<Longrightarrow> chunks_ok (append_texts contents s)"
  unfolding append_texts_def
  by (induction contents arbitrary: s) (simp_all add: append_keeps_bound split: jsval.splits)

end
