(* ===== verification/Cloud_Runtime.thy ===== *)
theory Cloud_Runtime
  imports Daemon_Config
begin

text \<open>
  The cloud daemon beside the gateway: the settlement of a finished run with the Hub
  (\<open>daemon/src/cloud-settle.ts\<close> and the \<open>onTurnComplete\<close> of \<open>cloud-daemon.ts\<close>), and the relay that runs an event of
  the ingress through the dispatcher and collects its reply (\<open>daemon/src/cloud-gateway-runtime.ts\<close>).

  Numbers of a usage report are finite; \<open>encodeURIComponent\<close> is the argument \<open>encodeUri\<close>.
\<close>

section \<open>Settlement\<close>

record settle_event =
  se_envelopeType :: "string option"
  se_runId :: "string option"
  se_settleUsage :: "bool option"
  se_wallTimeMs :: rat
  se_cacheHit :: "rat option"
  se_cacheMiss :: "rat option"
  se_output :: "rat option"

record settle_body =
  sb_provider :: string
  sb_model :: string
  sb_cacheHit :: int
  sb_cacheMiss :: int
  sb_output :: int
  sb_sandboxSeconds :: int
  sb_idempotencyKey :: string

record settle_request =
  sq_url :: string
  sq_token :: string
  sq_body :: settle_body

text \<open>\<open>Math.round\<close>: halves go up. \<open>Math.max(0, Math.floor(n))\<close>.\<close>

definition js_round :: "rat \<Rightarrow> int" where
  "js_round q = \<lfloor>q + 1/2\<rfloor>"

definition whole_count :: "rat \<Rightarrow> int" where
  "whole_count q = max 0 \<lfloor>q\<rfloor>"

definition settle_key :: "string \<Rightarrow> string" where
  "settle_key runId = runId @ '':settle''"

definition postCloudRunSettle ::
  "client_env \<Rightarrow> (string \<Rightarrow> string) \<Rightarrow> string \<Rightarrow> string \<Rightarrow> string \<Rightarrow> string \<Rightarrow> rat \<times> rat \<times> rat \<Rightarrow> int \<Rightarrow> settle_request option" where
  "postCloudRunSettle env encodeUri hubUrl token runId model tokens sandboxSeconds =
     (case normalizeAndValidateHubUrl env hubUrl of
        Inl e \<Rightarrow> None
      | Inr base \<Rightarrow>
          (case tokens of (hit, miss, output) \<Rightarrow>
             Some \<lparr>sq_url = base @ ''/internal/cloud-agents/runs/'' @ encodeUri runId @ ''/settle'', sq_token = token,
               sq_body = \<lparr>sb_provider = ''deepseek'', sb_model = model, sb_cacheHit = whole_count hit,
                 sb_cacheMiss = whole_count miss, sb_output = whole_count output,
                 sb_sandboxSeconds = max 0 sandboxSeconds, sb_idempotencyKey = settle_key runId\<rparr>\<rparr>))"

text \<open>The hook: the request it sends, if any. Errors of the transport are swallowed.\<close>

definition settleHook :: "client_env \<Rightarrow> (string \<Rightarrow> string) \<Rightarrow> string \<Rightarrow> string \<Rightarrow> string option \<Rightarrow> settle_event \<Rightarrow> settle_request option" where
  "settleHook env encodeUri hubUrl token defaultModel event =
     (if se_envelopeType event \<noteq> Some ''cloud_run'' then None
      else if se_settleUsage event = Some False then None
      else case se_runId event of
        None \<Rightarrow> None
      | Some runId \<Rightarrow>
          if runId = [] then None
          else postCloudRunSettle env encodeUri hubUrl token runId (some_or defaultModel ''deepseek-v4-flash'')
                 (some_or (se_cacheHit event) 0, some_or (se_cacheMiss event) 0, some_or (se_output event) 0)
                 (max 1 (js_round (se_wallTimeMs event / 1000))))"

text \<open>\<open>onTurnComplete\<close> of the cloud daemon: the event of a turn, read from the envelope of its message.\<close>

definition turn_settlement :: "inbound_message \<Rightarrow> rat \<Rightarrow> rat option \<Rightarrow> rat option \<Rightarrow> rat option \<Rightarrow> settle_event" where
  "turn_settlement msg wallTimeMs hit miss output =
     (let envelope = get_prop (m_raw msg) ''envelope'';
          run = get_prop (get_prop envelope ''payload'') ''cloud_run''
      in \<lparr>se_envelopeType = as_str (get_prop envelope ''type''), se_runId = as_str (get_prop run ''run_id''),
          se_settleUsage = as_bool (get_prop run ''settle_usage''), se_wallTimeMs = wallTimeMs,
          se_cacheHit = hit, se_cacheMiss = miss, se_output = output\<rparr>)"

section \<open>The relay\<close>

record relay_frame =
  rf_type :: string
  rf_eventId :: string
  rf_gatewayId :: string
  rf_agentId :: string
  rf_provider :: string
  rf_message :: inbound_message

record relay_result =
  rl_accepted :: bool
  rl_eventId :: string
  rl_gatewayId :: string
  rl_agentId :: string
  rl_conversationId :: string
  rl_turnId :: string
  rl_outbound :: "(string \<times> string option) option"
  rl_error :: "(string \<times> string) option"

text \<open>What the dispatcher does with the temporary channel while it handles the message, and how the call ends.\<close>

datatype relay_call = RelayAccept | RelaySend string "string option" | RelayTyping "string option"

datatype relay_end = RelayReturns | RelayThrows string

record relay_typing =
  ty_eventId :: string
  ty_turnId :: string
  ty_gatewayId :: string
  ty_agentId :: string
  ty_conversationId :: string
  ty_traceId :: "string option"

definition relay_turn_id :: "relay_frame \<Rightarrow> string" where
  "relay_turn_id f = (if rf_eventId f \<noteq> [] then ''turn_'' @ rf_eventId f else ''turn_unknown'')"

definition relay_rejected :: "relay_frame \<Rightarrow> string \<Rightarrow> string \<Rightarrow> relay_result" where
  "relay_rejected f code message =
     \<lparr>rl_accepted = False, rl_eventId = rf_eventId f, rl_gatewayId = rf_gatewayId f, rl_agentId = rf_agentId f,
      rl_conversationId = c_id (m_conversation (rf_message f)), rl_turnId = relay_turn_id f, rl_outbound = None,
      rl_error = Some (code, message)\<rparr>"

text \<open>The message that is injected: everything the frame says, but a \<open>raw\<close> of the relay's own.\<close>

definition relay_message :: "relay_frame \<Rightarrow> inbound_message" where
  "relay_message f = (rf_message f)\<lparr>m_raw :=
     JObj [(''source_type'', JStr ''cloud_gateway_ingress''), (''provider'', JStr (rf_provider f)),
       (''event_id'', JStr (rf_eventId f)), (''gateway_id'', JStr (rf_gatewayId f))]\<rparr>"

definition relay_check :: "relay_frame \<Rightarrow> (string \<times> string) option" where
  "relay_check f =
     (if rf_type f \<noteq> ''gateway_inbound'' then Some (''bad_frame_type'', ''unsupported frame type '' @ [CHR 0x22] @ rf_type f @ [CHR 0x22])
      else if rf_gatewayId f = [] \<or> rf_agentId f = [] \<or> rf_eventId f = []
      then Some (''bad_frame'', ''gateway_id, agent_id and event_id are required'')
      else if m_accountId (rf_message f) \<noteq> rf_agentId f
      then Some (''account_mismatch'', ''message.accountId does not match frame.agent_id'')
      else if m_channel (rf_message f) \<noteq> rf_gatewayId f
      then Some (''channel_mismatch'', ''message.channel does not match frame.gateway_id'')
      else None)"

fun relay_collect :: "relay_call \<Rightarrow> bool \<times> (string \<times> string option) option \<Rightarrow> bool \<times> (string \<times> string option) option" where
  "relay_collect RelayAccept (acc, out) = (True, out)"
| "relay_collect (RelaySend t trace) (acc, out) = (acc, Some (t, trace))"
| "relay_collect (RelayTyping trace) (acc, out) = (acc, out)"

definition relay_typings :: "relay_frame \<Rightarrow> relay_call list \<Rightarrow> relay_typing list" where
  "relay_typings f calls = List.map_filter (\<lambda>c. case c of
     RelayTyping trace \<Rightarrow> Some \<lparr>ty_eventId = rf_eventId f, ty_turnId = ''turn_'' @ rf_eventId f, ty_gatewayId = rf_gatewayId f,
       ty_agentId = rf_agentId f, ty_conversationId = c_id (m_conversation (rf_message f)), ty_traceId = trace\<rparr>
   | _ \<Rightarrow> None) calls"

text \<open>\<open>handleCloudGatewayRuntimeInbound\<close>: the message that is injected, if any, and the result for the Hub.\<close>

definition handleCloudGatewayRuntimeInbound ::
  "relay_frame \<Rightarrow> relay_call list \<Rightarrow> relay_end \<Rightarrow> inbound_message option \<times> relay_result" where
  "handleCloudGatewayRuntimeInbound f calls ending =
     (case relay_check f of
        Some (code, message) \<Rightarrow> (None, relay_rejected f code message)
      | None \<Rightarrow>
          (Some (relay_message f),
           case ending of
             RelayThrows message \<Rightarrow> relay_rejected f ''dispatch_failed'' message
           | RelayReturns \<Rightarrow>
               (case fold relay_collect calls (False, None) of
                  (accepted, outbound) \<Rightarrow>
                    \<lparr>rl_accepted = accepted, rl_eventId = rf_eventId f, rl_gatewayId = rf_gatewayId f, rl_agentId = rf_agentId f,
                     rl_conversationId = c_id (m_conversation (rf_message f)), rl_turnId = ''turn_'' @ rf_eventId f,
                     rl_outbound = outbound,
                     rl_error = (if accepted then None else Some (''not_accepted'', ''dispatcher did not accept inbound''))\<rparr>)))"


section \<open>What is settled\<close>

lemma settle_request_parts:
  assumes "settleHook env encodeUri hubUrl token model event = Some q"
  obtains runId base where "se_runId event = Some runId" "normalizeAndValidateHubUrl env hubUrl = Inr base"
    "sq_url q = base @ ''/internal/cloud-agents/runs/'' @ encodeUri runId @ ''/settle''"
    "sb_idempotencyKey (sq_body q) = settle_key runId"
    "sb_sandboxSeconds (sq_body q) = max 1 (js_round (se_wallTimeMs event / 1000))"
    "0 \<le> sb_cacheHit (sq_body q)" "0 \<le> sb_cacheMiss (sq_body q)" "0 \<le> sb_output (sq_body q)"
  using assms by (auto simp: settleHook_def postCloudRunSettle_def whole_count_def split: if_splits option.splits sum.splits)

text \<open>Every report of a run is made under the key of that run alone: however often a run is reported, the Hub sees the
  same key, and different runs have different keys. The reported time is at least a second and at most half a
  second off what was measured; no count is negative.\<close>

theorem settlement_keyed_by_run:
  assumes "settleHook env encodeUri hubUrl token model e1 = Some q1" "settleHook env encodeUri hubUrl token model e2 = Some q2"
  shows "sb_idempotencyKey (sq_body q1) = sb_idempotencyKey (sq_body q2) \<longleftrightarrow> se_runId e1 = se_runId e2"
    "se_runId e1 = se_runId e2 \<Longrightarrow> sq_url q1 = sq_url q2"
    "1 \<le> sb_sandboxSeconds (sq_body q1)" "0 \<le> sb_output (sq_body q1)"
    "se_wallTimeMs e1 \<ge> 500 \<Longrightarrow> \<bar>of_int (sb_sandboxSeconds (sq_body q1)) - se_wallTimeMs e1 / 1000\<bar> \<le> 1/2"
proof -
  obtain r1 b1 where 1: "se_runId e1 = Some r1" "normalizeAndValidateHubUrl env hubUrl = Inr b1"
    "sq_url q1 = b1 @ ''/internal/cloud-agents/runs/'' @ encodeUri r1 @ ''/settle''" "sb_idempotencyKey (sq_body q1) = settle_key r1"
    "sb_sandboxSeconds (sq_body q1) = max 1 (js_round (se_wallTimeMs e1 / 1000))" "0 \<le> sb_output (sq_body q1)"
    using settle_request_parts[OF assms(1)] by metis
  obtain r2 b2 where 2: "se_runId e2 = Some r2" "normalizeAndValidateHubUrl env hubUrl = Inr b2"
    "sq_url q2 = b2 @ ''/internal/cloud-agents/runs/'' @ encodeUri r2 @ ''/settle''" "sb_idempotencyKey (sq_body q2) = settle_key r2"
    using settle_request_parts[OF assms(2)] by metis
  show "sb_idempotencyKey (sq_body q1) = sb_idempotencyKey (sq_body q2) \<longleftrightarrow> se_runId e1 = se_runId e2"
    "se_runId e1 = se_runId e2 \<Longrightarrow> sq_url q1 = sq_url q2"
    "1 \<le> sb_sandboxSeconds (sq_body q1)" "0 \<le> sb_output (sq_body q1)"
    using 1 2 by (auto simp: settle_key_def)
  assume long: "se_wallTimeMs e1 \<ge> 500"
  let ?x = "se_wallTimeMs e1 / 1000"
  have "1 \<le> ?x + 1/2" using long by simp
  then have "1 \<le> js_round ?x" unfolding js_round_def by (metis le_floor_iff of_int_1)
  then have "sb_sandboxSeconds (sq_body q1) = js_round ?x" using 1(5) by simp
  moreover have "of_int \<lfloor>?x + 1/2\<rfloor> \<le> ?x + 1/2" "?x + 1/2 < of_int \<lfloor>?x + 1/2\<rfloor> + 1" by linarith+
  ultimately show "\<bar>of_int (sb_sandboxSeconds (sq_body q1)) - ?x\<bar> \<le> 1/2" unfolding js_round_def by linarith
qed

text \<open>When the messages of several runs are merged into one turn, only the run of the newest message is settled.\<close>

lemma merged_runs_settle_once:
  assumes "mergeSerialBuffer compose (e1 # e2 # es) = Some mg" "is_object (m_raw (be_msg (last (e2 # es))))"
  shows "turn_settlement (mg_msg mg) wallTime hit miss output = turn_settlement (be_msg (last (e2 # es))) wallTime hit miss output"
proof -
  have raw: "m_raw (mg_msg mg) = spread_with (m_raw (be_msg (last (e2 # es)))) ''batch''
      (JArr (trim_items (concat (map entry_items (e1 # e2 # es)))))"
    using assms by (cases "m_raw (be_msg (last (e2 # es)))") (auto simp: mergeSerialBuffer_def merged_msg_def Let_def)
  then show ?thesis by (simp add: turn_settlement_def)
qed

section \<open>What is relayed\<close>

text \<open>A frame of the ingress is only run for the agent and the gateway it names, and the message it injects carries
  neither a decision of the Hub nor a grant, whatever the frame has put into its \<open>raw\<close>.\<close>

theorem relayed_message_bound:
  assumes "fst (handleCloudGatewayRuntimeInbound f calls ending) = Some m"
  shows "m_accountId m = rf_agentId f \<and> m_channel m = rf_gatewayId f \<and> rf_agentId f \<noteq> []
       \<and> hubDecisions m = None \<and> List.map_filter readAccessContext (inboundEntries m) = []
       \<and> m_text m = m_text (rf_message f) \<and> m_sender m = m_sender (rf_message f)"
proof -
  have m: "m = relay_message f" and ok: "relay_check f = None"
    using assms by (auto simp: handleCloudGatewayRuntimeInbound_def split: option.splits)
  define raw where "raw = JObj [(''source_type'', JStr ''cloud_gateway_ingress''), (''provider'', JStr (rf_provider f)),
       (''event_id'', JStr (rf_eventId f)), (''gateway_id'', JStr (rf_gatewayId f))]"
  have entries: "inboundEntries m = [raw]" by (simp add: m relay_message_def inboundEntries_def raw_def)
  have "readHubDecision raw = None" "readAccessContext raw = None"
    by (simp_all add: readHubDecision_def readAccessContext_def raw_def Let_def)
  then have "hubDecisions m = None" "List.map_filter readAccessContext (inboundEntries m) = []"
    unfolding hubDecisions_def entries by (simp_all add: map_filter_def)
  then show ?thesis using ok by (auto simp: m relay_check_def relay_message_def split: if_splits)
qed

lemma relay_collected:
  "fst (fold relay_collect calls (acc, out)) \<longleftrightarrow> acc \<or> RelayAccept \<in> set calls"
  "snd (fold relay_collect calls (acc, out)) = fold (\<lambda>c o'. case c of RelaySend t tr \<Rightarrow> Some (t, tr) | _ \<Rightarrow> o') calls out"
proof -
  have "fold relay_collect calls (acc, out)
      = (acc \<or> RelayAccept \<in> set calls, fold (\<lambda>c o'. case c of RelaySend t tr \<Rightarrow> Some (t, tr) | _ \<Rightarrow> o') calls out)"
  proof (induction calls arbitrary: acc out)
    case (Cons c calls)
    then show ?case by (cases c) simp_all
  qed simp
  then show "fst (fold relay_collect calls (acc, out)) \<longleftrightarrow> acc \<or> RelayAccept \<in> set calls"
    "snd (fold relay_collect calls (acc, out)) = fold (\<lambda>c o'. case c of RelaySend t tr \<Rightarrow> Some (t, tr) | _ \<Rightarrow> o') calls out"
    by simp_all
qed

text \<open>Of several replies only the last one reaches the provider.\<close>

lemma earlier_replies_lost:
  assumes "relay_check f = None"
  shows "rl_outbound (snd (handleCloudGatewayRuntimeInbound f (calls @ [RelaySend t tr]) RelayReturns)) = Some (t, tr)"
proof -
  obtain acc out where "fold relay_collect calls (False, None) = (acc, out)" by (cases "fold relay_collect calls (False, None)")
  with assms show ?thesis by (simp add: handleCloudGatewayRuntimeInbound_def)
qed

text \<open>A dispatcher that fails after it has accepted the message and sent its reply is reported as not having accepted
  it, and the reply is dropped.\<close>

lemma accepted_failure_reported_rejected:
  assumes "relay_check f = None" "RelayAccept \<in> set calls" "RelaySend t tr \<in> set calls"
  shows "let r = snd (handleCloudGatewayRuntimeInbound f calls (RelayThrows e)) in \<not> rl_accepted r \<and> rl_outbound r = None"
  using assms by (simp add: handleCloudGatewayRuntimeInbound_def relay_rejected_def)

end
