(* ===== verification/Provider_State.thy ===== *)
theory Provider_State
  imports Channel_Manager Sanitize Botcord_Blocks
begin

text \<open>
  What the adapters of third-party providers share: the state file of a gateway with its debounced writes
  (\<open>daemon/src/gateway/channels/state-store.ts\<close>), and the removal of the bot token from everything that is
  logged (\<open>redactToken\<close> of \<open>telegram.ts\<close>, \<open>redactSecret\<close> of \<open>wechat.ts\<close>).

  The file is one the store itself has written; every attempt to write is answered by the environment
  (\<open>None\<close>, or the error it throws; the file is replaced by a rename, so a failed write leaves it as it was).
\<close>

section \<open>The state store\<close>

record store_data =
  sd_cursor :: "string option"
  sd_providerState :: "jsval option"
  sd_updatedAt :: int

record gw_store =
  gs_state :: store_data
  gs_disk :: "store_data option"
  gs_debounce :: int
  gs_timer :: "int option"
  gs_dirty :: bool
  gs_retries :: nat
  gs_lastError :: "string option"

definition readState :: "store_data option \<Rightarrow> store_data" where
  "readState contents = (case contents of Some d \<Rightarrow> d | None \<Rightarrow> \<lparr>sd_cursor = None, sd_providerState = None, sd_updatedAt = 0\<rparr>)"

definition new_gateway_store :: "int option \<Rightarrow> store_data option \<Rightarrow> gw_store" where
  "new_gateway_store debounceMs contents =
     \<lparr>gs_state = readState contents, gs_disk = contents, gs_debounce = some_or debounceMs 1000, gs_timer = None,
      gs_dirty = False, gs_retries = 0, gs_lastError = None\<rparr>"

definition MAX_FLUSH_RETRIES :: nat where "MAX_FLUSH_RETRIES = 10"

definition scheduleFlushRetry :: "gw_store \<Rightarrow> gw_store" where
  "scheduleFlushRetry s =
     (if gs_debounce s \<le> 0 then s
      else if gs_timer s \<noteq> None then s
      else let s = s\<lparr>gs_retries := Suc (gs_retries s)\<rparr>
           in if gs_retries s > MAX_FLUSH_RETRIES then s
              else s\<lparr>gs_timer := Some (min (max (gs_debounce s) 250) 5000)\<rparr>)"

text \<open>The write of the pending state, with its handling of a failure.\<close>

definition write_state :: "string option \<Rightarrow> gw_store \<Rightarrow> gw_store" where
  "write_state w s =
     (case w of
        None \<Rightarrow> s\<lparr>gs_disk := Some (gs_state s), gs_dirty := False, gs_lastError := None, gs_retries := 0\<rparr>
      | Some e \<Rightarrow> scheduleFlushRetry (s\<lparr>gs_lastError := Some e\<rparr>))"

text \<open>\<open>flush\<close> throws what the write throws, the timer does not.\<close>

definition store_flush :: "string option \<Rightarrow> gw_store \<Rightarrow> gw_store \<times> string option" where
  "store_flush w s =
     (let s = s\<lparr>gs_timer := None\<rparr>
      in if \<not> gs_dirty s then (s, None) else (write_state w s, w))"

definition store_timer :: "string option \<Rightarrow> gw_store \<Rightarrow> gw_store" where
  "store_timer w s =
     (if gs_timer s = None then s
      else let s = s\<lparr>gs_timer := None\<rparr> in if \<not> gs_dirty s then s else write_state w s)"

definition scheduleFlush :: "string option \<Rightarrow> gw_store \<Rightarrow> gw_store \<times> string option" where
  "scheduleFlush w s =
     (let s = s\<lparr>gs_dirty := True\<rparr>
      in if gs_debounce s \<le> 0 then store_flush w s
         else if gs_timer s \<noteq> None then (s, None)
         else (s\<lparr>gs_timer := Some (gs_debounce s)\<rparr>, None))"

definition store_update :: "string option \<Rightarrow> jsval option \<Rightarrow> int \<Rightarrow> string option \<Rightarrow> gw_store \<Rightarrow> gw_store \<times> string option" where
  "store_update cursor providerState now w s =
     scheduleFlush w (s\<lparr>gs_state := \<lparr>sd_cursor = (if cursor \<noteq> None then cursor else sd_cursor (gs_state s)),
        sd_providerState = (if providerState \<noteq> None then providerState else sd_providerState (gs_state s)), sd_updatedAt = now\<rparr>\<rparr>)"

abbreviation getCursor :: "gw_store \<Rightarrow> string option" where
  "getCursor s \<equiv> sd_cursor (gs_state s)"

datatype gw_store_event =
    SeUpdate "string option" "jsval option" int "string option"
  | SeFlush "string option"
  | SeTimer "string option"

fun store_step :: "gw_store_event \<Rightarrow> gw_store \<Rightarrow> gw_store" where
  "store_step (SeUpdate c p now w) s = fst (store_update c p now w s)"
| "store_step (SeFlush w) s = fst (store_flush w s)"
| "store_step (SeTimer w) s = store_timer w s"

section \<open>What reaches the file\<close>

text \<open>A clean store agrees with its file; a dirty one has a write ahead, unless it writes on the spot or has given up.\<close>

definition store_ok :: "gw_store \<Rightarrow> bool" where
  "store_ok s \<longleftrightarrow>
     (\<not> gs_dirty s \<longrightarrow> gs_state s = readState (gs_disk s))
     \<and> (gs_dirty s \<longrightarrow> gs_timer s \<noteq> None \<or> gs_lastError s \<noteq> None \<and> (gs_debounce s \<le> 0 \<or> gs_retries s > MAX_FLUSH_RETRIES))"

lemma readState_Some [simp]: "readState (Some d) = d"
  by (simp add: readState_def)

lemmas store_defs = store_update_def scheduleFlush_def store_flush_def store_timer_def write_state_def scheduleFlushRetry_def Let_def

lemma store_ok_fresh: "store_ok (new_gateway_store d contents)"
  by (simp add: store_ok_def new_gateway_store_def)

lemma store_ok_flush: "store_ok s \<Longrightarrow> store_ok (fst (store_flush w s))"
  by (auto simp: store_ok_def store_defs split: option.splits)

lemma store_ok_timer: "store_ok s \<Longrightarrow> store_ok (store_timer w s)"
  by (auto simp: store_ok_def store_defs split: option.splits)

lemma store_ok_write: "store_ok (write_state w (s\<lparr>gs_timer := None\<rparr>))" if "gs_dirty s"
  using that by (auto simp: store_ok_def store_defs split: option.splits)

lemma store_ok_update: "store_ok s \<Longrightarrow> store_ok (fst (store_update c p now w s))"
  by (auto simp: store_update_def scheduleFlush_def store_flush_def Let_def store_ok_write) (auto simp: store_ok_def)

interpretation state_store: open_machine store_step store_ok
  by unfold_locales (metis store_step.simps gw_store_event.exhaust store_ok_flush store_ok_timer store_ok_update)

lemma store_fields [frame_simps]:
  "gs_debounce (write_state w s) = gs_debounce s" "gs_state (write_state w s) = gs_state s"
  "gs_debounce (fst (store_flush w s)) = gs_debounce s" "gs_state (fst (store_flush w s)) = gs_state s"
  "gs_debounce (store_timer w s) = gs_debounce s" "gs_state (store_timer w s) = gs_state s"
  "gs_debounce (fst (store_update c p now w s)) = gs_debounce s"
  "getCursor (fst (store_update (Some k) p now w s)) = Some k"
  by (auto simp: store_defs split: option.splits)

lemma store_run_debounce: "gs_debounce (fold store_step es s) = gs_debounce s"
proof (induction es arbitrary: s)
  case (Cons e es)
  then show ?case by (cases e) (simp_all add: frame_simps)
qed simp

text \<open>However updates, flushes and timers come and whichever writes fail: what was last stored is in the file, or a
  write of it is due, or eleven writes in a row have failed and the error is shown; a write that is due and succeeds
  puts exactly the newest state into the file.\<close>

theorem stored_cursor_not_forgotten:
  "let s = fold store_step es (new_gateway_store (Some (int (Suc d))) contents)
   in (if gs_dirty s then gs_timer s \<noteq> None \<or> gs_retries s > MAX_FLUSH_RETRIES \<and> gs_lastError s \<noteq> None
       else gs_state s = readState (gs_disk s))
    \<and> (if gs_timer s \<noteq> None \<and> gs_dirty s then gs_disk (store_timer None s) = Some (gs_state s) else True)"
proof -
  define s where "s = fold store_step es (new_gateway_store (Some (int (Suc d))) contents)"
  have ok: "store_ok s" unfolding s_def by (rule state_store.open_run_keeps) (rule store_ok_fresh)
  have "gs_debounce s = int (Suc d)" by (simp add: s_def store_run_debounce new_gateway_store_def some_or_def)
  then have "\<not> gs_debounce s \<le> 0" by simp
  with ok show ?thesis unfolding s_def[symmetric] Let_def by (auto simp: store_ok_def store_timer_def write_state_def)
qed

text \<open>The writes of a store that only fails end: after ten retries no timer is left.\<close>

lemma failing_writes_end:
  assumes "gs_retries s \<le> MAX_FLUSH_RETRIES" "\<And>w. w \<in> set ws \<Longrightarrow> w \<noteq> None" "length ws > MAX_FLUSH_RETRIES - gs_retries s"
  shows "gs_timer (fold store_timer ws s) = None"
  using assms
proof (induction ws arbitrary: s)
  case (Cons w ws)
  obtain e where w: "w = Some e" using Cons.prems(2) by fastforce
  have idle: "gs_timer t = None \<Longrightarrow> gs_timer (fold store_timer vs t) = None" for t vs
  proof (induction vs arbitrary: t)
    case (Cons v vs)
    then show ?case by (simp add: store_timer_def)
  qed simp
  show ?case
  proof (cases "gs_timer (store_timer w s) = None")
    case True
    then show ?thesis using idle by simp
  next
    case False
    then have r: "gs_retries (store_timer w s) = Suc (gs_retries s)" "gs_retries (store_timer w s) \<le> MAX_FLUSH_RETRIES"
      by (auto simp: w store_defs split: if_splits)
    have "gs_timer (fold store_timer ws (store_timer w s)) = None"
      using Cons.prems r by (intro Cons.IH) auto
    then show ?thesis by simp
  qed
qed simp

text \<open>A crash within the debounce window: the file, and with it the cursor of the next process, is the old one.\<close>

lemma crash_restores_old_cursor:
  assumes "gs_debounce s > 0"
  shows "getCursor (new_gateway_store d (gs_disk (fst (store_update (Some k) p now w s)))) = getCursor (new_gateway_store d (gs_disk s))"
  using assms by (simp add: store_defs new_gateway_store_def)

text \<open>\<open>close\<close> is \<open>flush\<close>: an update afterwards is accepted and arms the timer again.\<close>

lemma update_after_close_accepted:
  assumes "gs_debounce s > 0"
  shows "let s' = fst (store_update (Some k) p now w' (fst (store_flush w s)))
         in getCursor s' = Some k \<and> gs_dirty s' \<and> gs_timer s' \<noteq> None"
  using assms by (auto simp: store_defs split: option.splits)

section \<open>Redaction\<close>

text \<open>\<open>s.split(sep)\<close> for a separator that is not empty.\<close>

function split_str :: "string \<Rightarrow> string \<Rightarrow> string list" where
  "split_str sep [] = [[]]"
| "split_str sep (c # s) =
     (if sep \<noteq> [] \<and> startsWith (c # s) sep then [] # split_str sep (drop (length sep - 1) s)
      else case split_str sep s of x # xs \<Rightarrow> (c # x) # xs | [] \<Rightarrow> [[c]])"
  by pat_completeness auto

termination
  by (relation "measure (\<lambda>(sep, s). length s)") auto

definition redactSecret :: "string \<Rightarrow> string \<Rightarrow> string option \<Rightarrow> string" where
  "redactSecret mark input token =
     (case token of
        None \<Rightarrow> input
      | Some t \<Rightarrow> if t = [] \<or> input = [] then input else join mark (split_str t input))"

lemma split_str_head: "\<exists>x xs r. split_str sep s = x # xs \<and> s = x @ r"
proof (induction sep s rule: split_str.induct)
  case (2 sep c s)
  show ?case
  proof (cases "sep \<noteq> [] \<and> startsWith (c # s) sep")
    case False
    then show ?thesis using 2(2) by (auto split: list.splits)
  qed simp
qed simp

lemma startsWith_extend: "startsWith s p \<Longrightarrow> startsWith (s @ r) p"
  by (auto simp: startsWith_iff)

lemma split_str_parts: "sep \<noteq> [] \<Longrightarrow> x \<in> set (split_str sep s) \<Longrightarrow> \<not> includes_str x sep"
proof (induction sep s arbitrary: x rule: split_str.induct)
  case (2 sep c s)
  show ?case
  proof (cases "startsWith (c # s) sep")
    case True
    then show ?thesis using 2 by auto
  next
    case False
    obtain y ys r where y: "split_str sep s = y # ys" "s = y @ r" using split_str_head by blast
    have "\<not> startsWith (c # y) sep" using False y(2) startsWith_extend[of "c # y" sep r] by auto
    then show ?thesis using 2 False y by auto
  qed
qed simp

lemma includes_around:
  assumes "c \<notin> set t" "t \<noteq> []" "includes_str (u @ c # v) t"
  shows "includes_str u t \<or> includes_str v t"
proof -
  obtain a b where eq: "u @ c # v = a @ t @ b" using assms(3) by (auto simp: includes_str_iff)
  then have "u @ c # v = (a @ t) @ b" by simp
  then consider us where "u = (a @ t) @ us" | us where "u @ us = a @ t" "c # v = us @ b"
    using append_eq_append_conv2[of u "c # v" "a @ t" b] by blast
  then show ?thesis
  proof cases
    case 1
    then show ?thesis by (auto simp: includes_str_iff)
  next
    case (2 us)
    show ?thesis
    proof (cases us)
      case Nil
      then have "u = a @ t @ []" using 2 by simp
      then show ?thesis unfolding includes_str_iff by blast
    next
      case (Cons d us')
      then have v: "d = c" "v = us' @ b" using 2(2) by simp_all
      from 2(1) consider ws where "u = a @ ws" "ws @ us = t" | ws where "a = u @ ws" "us = ws @ t"
        using append_eq_append_conv2[of u us a t] by blast
      then show ?thesis
      proof cases
        case 1
        then have "c \<in> set t" using Cons v(1) by auto
        then show ?thesis using assms(1) by simp
      next
        case (2 ws)
        show ?thesis
        proof (cases ws)
          case Nil
          then have "c \<in> set t" using 2(2) Cons v(1) assms(2) by (cases t) auto
          then show ?thesis using assms(1) by simp
        next
          case (Cons e ws')
          then have "v = ws' @ t @ b" using 2(2) \<open>us = d # us'\<close> v by simp
          then show ?thesis unfolding includes_str_iff by blast
        qed
      qed
    qed
  qed
qed

lemma join_free:
  assumes "t \<noteq> []" "b \<notin> set t" "e \<notin> set t" "\<not> includes_str inner t" "\<And>x. x \<in> set xs \<Longrightarrow> \<not> includes_str x t"
  shows "\<not> includes_str (join (b # inner @ [e]) xs) t"
  using assms(5)
proof (induction xs rule: induct_list012)
  case 1
  then show ?case using assms(1) by simp
next
  case (3 x y zs)
  have IH: "\<not> includes_str (join (b # inner @ [e]) (y # zs)) t" using 3 by simp
  show ?case
  proof
    assume "includes_str (join (b # inner @ [e]) (x # y # zs)) t"
    then have "includes_str (x @ b # inner @ e # join (b # inner @ [e]) (y # zs)) t" by simp
    then have "includes_str x t \<or> includes_str (inner @ e # join (b # inner @ [e]) (y # zs)) t"
      using includes_around assms(1,2) by blast
    moreover have "\<not> includes_str x t" using 3(3) by simp
    ultimately have "includes_str inner t \<or> includes_str (join (b # inner @ [e]) (y # zs)) t"
      using includes_around assms(1,3) by blast
    then show False using IH assms(4) by blast
  qed
qed simp

text \<open>A redacted text does not contain the token, provided that the mark put in its place cannot make up a part of one.\<close>

definition clean_mark :: "string \<Rightarrow> string \<Rightarrow> bool" where
  "clean_mark mark t \<longleftrightarrow> length mark \<ge> 2 \<and> hd mark \<notin> set t \<and> last mark \<notin> set t \<and> \<not> includes_str (butlast (tl mark)) t"

lemma redacted_free:
  assumes "t \<noteq> []" "clean_mark mark t"
  shows "\<not> includes_str (redactSecret mark input (Some t)) t"
proof -
  have "tl mark \<noteq> []" "mark \<noteq> []" using assms(2) by (auto simp: clean_mark_def) (metis One_nat_def Suc_1 length_tl list.size(3) not_less_eq_eq zero_less_diff less_eq_Suc_le diff_is_0_eq)
  then have mark: "mark = hd mark # butlast (tl mark) @ [last mark]" by (cases mark) (auto simp: last_ConsR)
  have "\<not> includes_str (join (hd mark # butlast (tl mark) @ [last mark]) (split_str t input)) t"
    using assms split_str_parts[OF assms(1)] by (intro join_free) (auto simp: clean_mark_def)
  then have "\<not> includes_str (join mark (split_str t input)) t" using mark by simp
  then show ?thesis using assms(1) by (simp add: redactSecret_def)
qed


section \<open>The parts of a polling adapter\<close>

datatype loop_phase = LoopIdle | LoopPolling | LoopSleeping | LoopEnded

record provider_status =
  ts_running :: bool
  ts_connected :: bool
  ts_authorized :: bool
  ts_lastError :: "string option"
  ts_reconnectAttempts :: nat

text \<open>The token of the options, or the one of the secret file.\<close>

definition loadTokenFromSecret :: "string option \<Rightarrow> string option \<Rightarrow> string option" where
  "loadTokenFromSecret token secret =
     (if token \<noteq> None \<and> token \<noteq> Some [] then token
      else case secret of Some t \<Rightarrow> if t \<noteq> [] then Some t else token | None \<Rightarrow> token)"

definition has_token :: "string option \<Rightarrow> bool" where
  "has_token token \<longleftrightarrow> token \<noteq> None \<and> token \<noteq> Some []"

text \<open>\<open>String(err)\<close> of an error.\<close>

definition error_string :: "string \<Rightarrow> string \<Rightarrow> string" where
  "error_string name message =
     (if name = [] then message else if message = [] then name else name @ '': '' @ message)"

end
