(* ===== verification/Telegram.thy ===== *)
theory Telegram
  imports Provider_State Event_Machine
begin

text \<open>
  The Telegram adapter (\<open>daemon/src/gateway/channels/telegram.ts\<close>): the long-polling loop with its cursor, the
  allowlists, and the replies.

  A poll is one event with the answers of everything it awaits: the reply of \<open>getUpdates\<close>, the outcome of every
  \<open>emit\<close> (in their order), and the writes of the state file. Of the status the timestamps are left out.
  \<open>tg_attempts\<close> and \<open>tg_accepted\<close> are histories: the messages emitted, and those whose \<open>emit\<close> has returned.
\<close>

section \<open>Updates\<close>

record tg_user =
  tu_id :: int
  tu_username :: "string option"
  tu_firstName :: "string option"

record tg_chat =
  tc_id :: int
  tc_type :: string
  tc_title :: "string option"

record tg_message =
  tm_messageId :: int
  tm_from :: "tg_user option"
  tm_chat :: "tg_chat option"
  tm_text :: "string option"

record tg_update =
  up_id :: int
  up_message :: "tg_message option"
  up_raw :: jsval

record tg_options =
  to_id :: string
  to_accountId :: string
  to_botToken :: "string option"
  to_senders :: "string list option"
  to_chats :: "string list option"
  to_splitAt :: "int option"
  to_stateDebounceMs :: "int option"
  to_glyphs :: glyphs

definition tg_split_at :: "tg_options \<Rightarrow> int" where
  "tg_split_at o' = (case to_splitAt o' of Some n \<Rightarrow> if n > 0 then n else 4000 | None \<Rightarrow> 4000)"

definition tg_sender_name :: "tg_user \<Rightarrow> string option" where
  "tg_sender_name u =
     (case (case tu_username u of Some n \<Rightarrow> Some n | None \<Rightarrow> (case tu_firstName u of Some f \<Rightarrow> if f \<noteq> [] then Some f else None | None \<Rightarrow> None)) of
        Some n \<Rightarrow> if n \<noteq> [] then Some n else None
      | None \<Rightarrow> None)"

definition tg_conversation_id :: "bool \<Rightarrow> string \<Rightarrow> string" where
  "tg_conversation_id isPrivate chatId = (if isPrivate then ''telegram:user:'' else ''telegram:group:'') @ chatId"

definition normalizeUpdate :: "tg_options \<Rightarrow> int \<Rightarrow> tg_update \<Rightarrow> inbound_message option" where
  "normalizeUpdate o' now u =
     (case up_message u of None \<Rightarrow> None | Some msg \<Rightarrow>
      (case tm_text msg of None \<Rightarrow> None | Some t \<Rightarrow>
      (case tm_from msg of None \<Rightarrow> None | Some sender \<Rightarrow>
      (case tm_chat msg of None \<Rightarrow> None | Some chat \<Rightarrow>
        (let fromUserId = int_str (tu_id sender); chatId = int_str (tc_id chat);
             isPrivate = (tc_type chat = ''private'');
             messageId = ''telegram:'' @ chatId @ '':'' @ int_str (tm_messageId msg)
         in if chatId \<notin> set (some_or (to_chats o') []) then None
            else if fromUserId \<notin> set (some_or (to_senders o') []) then None
            else Some \<lparr>m_id = messageId, m_channel = to_id o', m_accountId = to_accountId o',
              m_conversation = \<lparr>c_id = tg_conversation_id isPrivate chatId, c_kind = (if isPrivate then Direct else Group),
                c_title = (case tc_title chat of Some t' \<Rightarrow> if t' \<noteq> [] then Some t' else None | None \<Rightarrow> None), c_threadId = None\<rparr>,
              m_sender = \<lparr>s_id = ''telegram:user:'' @ fromUserId, s_name = tg_sender_name sender, s_kind = SUser\<rparr>,
              m_text = Some (sanitizeUntrustedContent (to_glyphs o') t), m_raw = up_raw u, m_replyTo = None,
              m_mentioned = Some False, m_receivedAt = now, m_trace = Some \<lparr>t_id = messageId, t_streamable = Some True\<rparr>\<rparr>)))))"

definition tg_chat_of :: "string \<Rightarrow> string option" where
  "tg_chat_of conversationId =
     (if startsWith conversationId ''telegram:user:'' then Some (drop (length ''telegram:user:'') conversationId)
      else if startsWith conversationId ''telegram:group:'' then Some (drop (length ''telegram:group:'') conversationId)
      else None)"

section \<open>The loop\<close>

record telegram =
  tg_started :: bool
  tg_botToken :: "string option"
  tg_offset :: int
  tg_store :: gw_store
  tg_phase :: loop_phase
  tg_stopped :: bool
  tg_wait :: int
  tg_status :: provider_status
  tg_attempts :: "inbound_message list"
  tg_accepted :: "inbound_message list"

text \<open>What a poll is answered: the call or the parsing of its answer throws, or Telegram answers.\<close>

datatype tg_reply = TgFetchThrows string string | TgParseThrows string string | TgNotOk "string option" | TgOk "tg_update list"

text \<open>\<open>ro_asked\<close> is the offset of the request that is answered.\<close>

record tg_round =
  ro_asked :: int
  ro_reply :: tg_reply
  ro_emits :: "nat \<Rightarrow> string option"
  ro_now :: int
  ro_write :: "string option"
  ro_flush :: "string option"

definition tg_redact :: "telegram \<Rightarrow> string \<Rightarrow> string" where
  "tg_redact s input = redactSecret ''***'' input (tg_botToken s)"

fun tg_emit :: "(tg_update \<Rightarrow> inbound_message option) \<Rightarrow> (nat \<Rightarrow> string option) \<Rightarrow> nat \<Rightarrow> tg_update list
    \<Rightarrow> inbound_message list \<times> inbound_message list \<times> string option" where
  "tg_emit nrm emits k [] = ([], [], None)"
| "tg_emit nrm emits k (u # us) =
     (case nrm u of
        None \<Rightarrow> tg_emit nrm emits k us
      | Some m \<Rightarrow>
          (case emits k of
             Some e \<Rightarrow> ([m], [], Some e)
           | None \<Rightarrow> (case tg_emit nrm emits (Suc k) us of (att, acc, e) \<Rightarrow> (m # att, m # acc, e))))"

definition tg_max_id :: "int \<Rightarrow> tg_update list \<Rightarrow> int" where
  "tg_max_id offset us = fold (\<lambda>u mx. if up_id u > mx then up_id u else mx) us (offset - 1)"

definition tg_set_error :: "string \<Rightarrow> telegram \<Rightarrow> telegram" where
  "tg_set_error e s = s\<lparr>tg_status := (tg_status s)\<lparr>ts_lastError := Some e\<rparr>\<rparr>"

text \<open>The \<open>catch\<close> of the loop.\<close>

definition tg_caught :: "string \<Rightarrow> string \<Rightarrow> telegram \<Rightarrow> telegram" where
  "tg_caught name message s =
     (if tg_stopped s then s
      else if name \<in> {''AbortError'', ''TimeoutError''} then s\<lparr>tg_wait := 1000\<rparr>
      else (tg_set_error (tg_redact s (error_string name message)) s)\<lparr>tg_wait := 3000\<rparr>)"

definition tg_updates :: "tg_options \<Rightarrow> tg_round \<Rightarrow> tg_update list \<Rightarrow> telegram \<Rightarrow> telegram" where
  "tg_updates o' r updates s =
     (if updates = [] then s
      else let maxId = tg_max_id (tg_offset s) updates in
        (case tg_emit (normalizeUpdate o' (ro_now r)) (ro_emits r) 0 updates of
           (att, acc, failed) \<Rightarrow>
             let s = s\<lparr>tg_attempts := tg_attempts s @ att, tg_accepted := tg_accepted s @ acc\<rparr>
             in if failed \<noteq> None then s
                else let s = s\<lparr>tg_offset := maxId + 1\<rparr> in
                  (case store_update (Some (int_str (maxId + 1))) None (ro_now r) (ro_write r) (tg_store s) of
                     (st, thrown) \<Rightarrow>
                       let s = s\<lparr>tg_store := st\<rparr>
                       in (case thrown of None \<Rightarrow> s | Some e \<Rightarrow> tg_caught ''Error'' e s))))"

definition tg_poll :: "tg_options \<Rightarrow> tg_round \<Rightarrow> telegram \<Rightarrow> telegram" where
  "tg_poll o' r s0 =
     (let s = s0\<lparr>tg_wait := 0\<rparr> in
      case ro_reply r of
        TgFetchThrows name message \<Rightarrow> tg_caught name (tg_redact s message) s
      | TgParseThrows name message \<Rightarrow> tg_caught name message s
      | TgNotOk description \<Rightarrow> (tg_set_error (tg_redact s (some_or description ''getUpdates failed'')) s)\<lparr>tg_wait := 3000\<rparr>
      | TgOk updates \<Rightarrow> tg_updates o' r updates s)"

definition tg_finish :: "string option \<Rightarrow> telegram \<Rightarrow> telegram" where
  "tg_finish w s =
     s\<lparr>tg_phase := LoopEnded, tg_status := (tg_status s)\<lparr>ts_running := False, ts_connected := False\<rparr>,
       tg_store := fst (store_flush w (tg_store s))\<rparr>"

text \<open>The head of the loop.\<close>

definition tg_next :: "string option \<Rightarrow> telegram \<Rightarrow> telegram" where
  "tg_next w s =
     (if tg_wait s > 0 then s\<lparr>tg_phase := LoopSleeping\<rparr>
      else if tg_stopped s then tg_finish w s
      else s\<lparr>tg_phase := LoopPolling\<rparr>)"

text \<open>\<open>Number(cursor)\<close>, for a cursor this adapter has written.\<close>

definition cursor_number :: "string \<Rightarrow> int option" where
  "cursor_number s =
     (let ds = (case s of c # t \<Rightarrow> if c = CHR ''-'' then t else s | [] \<Rightarrow> [])
      in if ds = [] \<or> \<not> list_all (\<lambda>c. c \<in> digit_chars) ds then None
         else Some (if ds = s then int (digits_val ds) else - int (digits_val ds)))"

definition start_offset :: "string option \<Rightarrow> int" where
  "start_offset cursor = (case cursor of Some c \<Rightarrow> if c = [] then 0 else some_or (cursor_number c) 0 | None \<Rightarrow> 0)"

text \<open>\<open>start\<close>, up to the first poll; \<open>Some e\<close> is what it throws.\<close>

definition tg_start :: "string option \<Rightarrow> string option \<Rightarrow> telegram \<Rightarrow> telegram \<times> string option" where
  "tg_start secret w s =
     (if tg_started s then (s, Some ''already started'')
      else let s = s\<lparr>tg_started := True, tg_botToken := loadTokenFromSecret (tg_botToken s) secret\<rparr>
        in if \<not> has_token (tg_botToken s)
           then (s\<lparr>tg_phase := LoopEnded, tg_status := \<lparr>ts_running = False, ts_connected = False, ts_authorized = False,
                   ts_lastError = Some ''missing_secret'', ts_reconnectAttempts = ts_reconnectAttempts (tg_status s)\<rparr>\<rparr>, None)
           else (tg_next w (s\<lparr>tg_offset := start_offset (getCursor (tg_store s)), tg_wait := 0, tg_stopped := False,
                  tg_status := \<lparr>ts_running = True, ts_connected = True, ts_authorized = True, ts_lastError = None, ts_reconnectAttempts = 0\<rparr>\<rparr>), None))"

definition tg_live :: "telegram \<Rightarrow> bool" where
  "tg_live s \<longleftrightarrow> tg_phase s \<in> {LoopPolling, LoopSleeping}"

definition tg_stop :: "string option \<Rightarrow> telegram \<Rightarrow> telegram" where
  "tg_stop w s =
     (let s = (if tg_live s then s\<lparr>tg_stopped := True\<rparr> else s)
      in s\<lparr>tg_store := fst (store_flush w (tg_store s))\<rparr>)"

datatype tg_event =
    TgStart "string option" "string option"
  | TgPolled tg_round
  | TgWake "string option"
  | TgAbort
  | TgStop "string option"
  | TgTimer "string option"
  | TgLoad "string option"

fun tg_step :: "tg_options \<Rightarrow> tg_event \<Rightarrow> telegram \<Rightarrow> telegram" where
  "tg_step o' (TgStart secret w) s = fst (tg_start secret w s)"
| "tg_step o' (TgPolled r) s = 
     (if tg_phase s = LoopPolling \<and> ro_asked r = tg_offset s then tg_next (ro_flush r) (tg_poll o' r s) else s)"
| "tg_step o' (TgWake w) s = (if tg_phase s = LoopSleeping then tg_next w (s\<lparr>tg_wait := 0\<rparr>) else s)"
| "tg_step o' TgAbort s = (if tg_live s then s\<lparr>tg_stopped := True\<rparr> else s)"
| "tg_step o' (TgStop w) s = tg_stop w s"
| "tg_step o' (TgTimer w) s = s\<lparr>tg_store := store_timer w (tg_store s)\<rparr>"
| "tg_step o' (TgLoad secret) s = s\<lparr>tg_botToken := loadTokenFromSecret (tg_botToken s) secret\<rparr>"

definition createTelegramChannel :: "tg_options \<Rightarrow> store_data option \<Rightarrow> telegram" where
  "createTelegramChannel o' contents =
     \<lparr>tg_started = False, tg_botToken = to_botToken o', tg_offset = start_offset (sd_cursor (readState contents)), tg_store = new_gateway_store (to_stateDebounceMs o') contents,
      tg_phase = LoopIdle, tg_stopped = False, tg_wait = 0,
      tg_status = \<lparr>ts_running = False, ts_connected = False, ts_authorized = False, ts_lastError = None, ts_reconnectAttempts = 0\<rparr>,
      tg_attempts = [], tg_accepted = []\<rparr>"

section \<open>Replies\<close>

datatype tg_send_reply = SendThrows string | SendNotOk "string option" | SendOk "int option"

fun tg_send_chunks :: "(string \<Rightarrow> string) \<Rightarrow> string \<Rightarrow> (nat \<Rightarrow> tg_send_reply) \<Rightarrow> nat \<Rightarrow> string list \<Rightarrow> string option
    \<Rightarrow> (string \<times> string) list \<times> (string + string option)" where
  "tg_send_chunks redact chat replies k [] lastId = ([], Inr lastId)"
| "tg_send_chunks redact chat replies k (c # cs) lastId =
     (case replies k of
        SendThrows e \<Rightarrow> ([(chat, c)], Inl (redact e))
      | SendNotOk d \<Rightarrow> ([(chat, c)], Inl (''telegram sendMessage failed: '' @ redact (some_or d ''unknown'')))
      | SendOk mid \<Rightarrow>
          (case tg_send_chunks redact chat replies (Suc k) cs
             (case mid of Some i \<Rightarrow> Some (''telegram:'' @ chat @ '':'' @ int_str i) | None \<Rightarrow> lastId) of
             (sent, r) \<Rightarrow> ((chat, c) # sent, r)))"

text \<open>\<open>send\<close>, after it has loaded the token (the event \<open>TgLoad\<close>): the calls of \<open>sendMessage\<close>, and the result.\<close>

definition tg_send :: "tg_options \<Rightarrow> (nat \<Rightarrow> tg_send_reply) \<Rightarrow> string \<Rightarrow> string \<Rightarrow> telegram
    \<Rightarrow> (string \<times> string) list \<times> (string + string option)" where
  "tg_send o' replies conversationId reply s =
     (let token = tg_botToken s in
      if \<not> has_token token then ([], Inl ''telegram bot token not loaded'')
      else case tg_chat_of conversationId of
        None \<Rightarrow> ([], Inl (''telegram send: unrecognized conversationId '' @ [CHR 0x22] @ conversationId @ [CHR 0x22]))
      | Some chat \<Rightarrow>
          if chat = [] then ([], Inl (''telegram send: unrecognized conversationId '' @ [CHR 0x22] @ conversationId @ [CHR 0x22]))
          else tg_send_chunks (\<lambda>e. redactSecret ''***'' e token) chat replies 0 (splitText reply (tg_split_at o')) None)"

section \<open>Who is let in\<close>

lemma tg_chat_of_conversation [simp]: "tg_chat_of (tg_conversation_id p chat) = Some chat"
  by (simp add: tg_chat_of_def tg_conversation_id_def startsWith_def)

definition let_in :: "tg_options \<Rightarrow> inbound_message \<Rightarrow> bool" where
  "let_in o' m \<longleftrightarrow>
     m_channel m = to_id o' \<and> m_accountId m = to_accountId o'
     \<and> (case tg_chat_of (c_id (m_conversation m)) of Some chat \<Rightarrow> chat \<in> set (some_or (to_chats o') []) | None \<Rightarrow> False)
     \<and> s_id (m_sender m) \<in> (@) ''telegram:user:'' ` set (some_or (to_senders o') [])
     \<and> (case m_text m of Some t \<Rightarrow> t \<in> range (sanitizeUntrustedContent (to_glyphs o')) | None \<Rightarrow> False)"

lemma normalized_let_in: "normalizeUpdate o' now u = Some m \<Longrightarrow> let_in o' m"
  by (auto simp: normalizeUpdate_def let_in_def Let_def split: option.splits if_splits)

lemma normalize_now: "normalizeUpdate o' now u = None \<longleftrightarrow> normalizeUpdate o' now' u = None"
  by (auto simp: normalizeUpdate_def Let_def split: option.splits)

section \<open>The cursor\<close>

definition handled :: "tg_options \<Rightarrow> inbound_message list \<Rightarrow> tg_update \<Rightarrow> bool" where
  "handled o' accepted u \<longleftrightarrow> normalizeUpdate o' 0 u = None \<or> (\<exists>now. \<exists>m \<in> set accepted. normalizeUpdate o' now u = Some m)"

lemma handled_more: "handled o' acc u \<Longrightarrow> handled o' (acc @ new) u"
  by (fastforce simp: handled_def)

lemma cursor_number_int_str [simp]: "cursor_number (int_str n) = Some n"
proof (cases "n < 0")
  case True
  then have s: "int_str n = CHR ''-'' # nat_str (nat (- n))" by (simp add: int_str_def)
  have ds: "list_all (\<lambda>c. c \<in> digit_chars) (nat_str k)" for k using set_nat_str by (auto simp: list_all_iff)
  have "nat_str (nat (- n)) \<noteq> CHR ''-'' # nat_str (nat (- n))" by (metis length_Cons n_not_Suc_n)
  then show ?thesis using True ds by (simp add: cursor_number_def s)
next
  case False
  then have s: "int_str n = nat_str (nat n)" by (simp add: int_str_def)
  have ds: "list_all (\<lambda>c. c \<in> digit_chars) (nat_str k)" for k using set_nat_str by (auto simp: list_all_iff)
  obtain c t where ct: "nat_str (nat n) = c # t" by (cases "nat_str (nat n)") auto
  have c: "c \<noteq> CHR ''-''" using hd_nat_str_not_minus[of "nat n"] ct by simp
  have v: "digits_val (c # t) = nat n" using digits_val_nat_str[of "nat n"] ct by simp
  show ?thesis using False ds[of "nat n"] c v unfolding s cursor_number_def ct by simp
qed

lemma start_offset_int_str [simp]: "start_offset (Some (int_str n)) = n"
  by (simp add: start_offset_def some_or_def)

lemma tg_max_id_bounds: "offset - 1 \<le> tg_max_id offset us \<and> (\<forall>u \<in> set us. up_id u \<le> tg_max_id offset us)"
proof -
  have "mx \<le> fold (\<lambda>u mx. if up_id u > mx then up_id u else mx) us mx
      \<and> (\<forall>u \<in> set us. up_id u \<le> fold (\<lambda>u mx. if up_id u > mx then up_id u else mx) us mx)" for mx
  proof (induction us arbitrary: mx)
    case (Cons u us)
    let ?g = "fold (\<lambda>u mx. if up_id u > mx then up_id u else mx) us"
    have "(if up_id u > mx then up_id u else mx) \<le> ?g (if up_id u > mx then up_id u else mx)" using Cons by blast
    then show ?case using Cons[of "if up_id u > mx then up_id u else mx"] by (auto split: if_splits)
  qed simp
  then show ?thesis by (simp add: tg_max_id_def)
qed

lemma tg_max_id_reached: "tg_max_id offset us = offset - 1 \<or> (\<exists>u \<in> set us. up_id u = tg_max_id offset us)"
proof -
  have "fold (\<lambda>u mx. if up_id u > mx then up_id u else mx) us mx = mx
      \<or> (\<exists>u \<in> set us. up_id u = fold (\<lambda>u mx. if up_id u > mx then up_id u else mx) us mx)" for mx
  proof (induction us arbitrary: mx)
    case (Cons u us)
    show ?case using Cons[of "if up_id u > mx then up_id u else mx"] by (auto split: if_splits)
  qed simp
  then show ?thesis by (simp add: tg_max_id_def)
qed

lemma tg_emit_parts:
  assumes "tg_emit nrm emits k us = (att, acc, failed)"
  shows "set acc \<subseteq> set att \<and> set att \<subseteq> {m. \<exists>u \<in> set us. nrm u = Some m}
       \<and> (failed = None \<longrightarrow> (\<forall>u \<in> set us. \<forall>m. nrm u = Some m \<longrightarrow> m \<in> set acc))"
  using assms
proof (induction us arbitrary: k att acc failed)
  case (Cons u us)
  show ?case
  proof (cases "nrm u")
    case None
    then show ?thesis using Cons by auto
  next
    case (Some m)
    obtain a b e where r: "tg_emit nrm emits (Suc k) us = (a, b, e)" by (cases "tg_emit nrm emits (Suc k) us") auto
    show ?thesis
    proof (cases "emits k")
      case None
      then show ?thesis using Cons.prems Some Cons.IH[OF r] by (auto simp: r)
    next
      case (Some e')
      have "att = [m]" "acc = []" "failed = Some e'" using Cons.prems Some \<open>nrm u = Some m\<close> by simp_all
      then show ?thesis using \<open>nrm u = Some m\<close> by auto
    qed
  qed
qed simp

text \<open>What Telegram documents of \<open>getUpdates\<close>: the ids of the updates ascend, and an answer holds the first of
  those that have arrived and are not below the offset asked for.\<close>

definition answered :: "tg_update list \<Rightarrow> int \<Rightarrow> tg_update list \<Rightarrow> bool" where
  "answered stream asked updates \<longleftrightarrow>
     (\<exists>n k. updates = take n (filter (\<lambda>u. asked \<le> up_id u) (take k stream)))"

fun telegram_event :: "tg_update list \<Rightarrow> tg_event \<Rightarrow> bool" where
  "telegram_event stream (TgPolled r) = (case ro_reply r of TgOk updates \<Rightarrow> answered stream (ro_asked r) updates | _ \<Rightarrow> True)"
| "telegram_event stream _ = True"

lemma answered_all:
  assumes "sorted_wrt (\<lambda>u v. up_id u < up_id v) stream" "answered stream asked updates"
    "u \<in> set stream" "v \<in> set updates" "asked \<le> up_id u" "up_id u \<le> up_id v"
  shows "u \<in> set updates"
proof -
  obtain n k where updates: "updates = take n (filter (\<lambda>u. asked \<le> up_id u) (take k stream))"
    using assms(2) by (auto simp: answered_def)
  define avail where "avail = filter (\<lambda>u. asked \<le> up_id u) (take k stream)"
  have v: "v \<in> set (take k stream)" using assms(4) unfolding updates by (meson filter_is_subset in_set_takeD subsetD)
  have "u \<in> set (take k stream)"
  proof (rule ccontr)
    assume no: "u \<notin> set (take k stream)"
    have "u \<in> set (take k stream @ drop k stream)" using assms(3) by simp
    then have "u \<in> set (drop k stream)" using no by (simp del: append_take_drop_id)
    moreover have "sorted_wrt (\<lambda>u v. up_id u < up_id v) (take k stream @ drop k stream)" using assms(1) by simp
    ultimately have "up_id v < up_id u" using v unfolding sorted_wrt_append by blast
    then show False using assms(6) by simp
  qed
  then have u: "u \<in> set avail" using assms(5) by (simp add: avail_def)
  have sorted: "sorted_wrt (\<lambda>u v. up_id u < up_id v) (take n avail @ drop n avail)"
    using assms(1) by (simp add: avail_def sorted_wrt_filter sorted_wrt_take)
  show ?thesis
  proof (rule ccontr)
    assume no: "u \<notin> set updates"
    have "u \<in> set (take n avail @ drop n avail)" using u by simp
    then have "u \<in> set (drop n avail)" using no unfolding updates avail_def[symmetric] by (simp del: append_take_drop_id)
    moreover have "v \<in> set (take n avail)" using assms(4) by (simp add: updates avail_def)
    ultimately have "up_id v < up_id u" using sorted unfolding sorted_wrt_append by blast
    then show False using assms(6) by simp
  qed
qed

definition history_ok :: "tg_options \<Rightarrow> tg_update list \<Rightarrow> int \<Rightarrow> int \<Rightarrow> inbound_message list \<Rightarrow> inbound_message list \<Rightarrow> bool" where
  "history_ok o' stream first offset attempts accepted \<longleftrightarrow>
     (\<forall>m \<in> set attempts. let_in o' m) \<and> set accepted \<subseteq> set attempts
     \<and> (\<forall>u \<in> set stream. first \<le> up_id u \<and> up_id u < offset \<longrightarrow> handled o' accepted u)"

text \<open>What is shown as an error does not contain the token.\<close>

definition error_redacted :: "string option \<Rightarrow> string option \<Rightarrow> bool" where
  "error_redacted err token =
     (case (err, token) of
        (Some e, Some t) \<Rightarrow> t = [] \<or> e = ''missing_secret'' \<or> \<not> clean_mark ''***'' t \<or> \<not> includes_str e t
      | _ \<Rightarrow> True)"

text \<open>Before the start there is nothing; while the loop is alive there is a token, and the offset is what the cursor says.\<close>

definition flags_ok :: "telegram \<Rightarrow> bool" where
  "flags_ok s \<longleftrightarrow>
     (\<not> tg_started s \<longrightarrow> tg_phase s = LoopIdle \<and> \<not> ts_authorized (tg_status s) \<and> ts_lastError (tg_status s) = None)
     \<and> (\<not> has_token (tg_botToken s) \<longrightarrow> ts_lastError (tg_status s) \<in> {None, Some ''missing_secret''})
     \<and> (tg_live s \<longrightarrow> ts_authorized (tg_status s))
     \<and> (ts_authorized (tg_status s) \<longrightarrow> tg_started s \<and> has_token (tg_botToken s) \<and> tg_offset s = start_offset (getCursor (tg_store s)))
     \<and> store_ok (tg_store s)"

definition tg_ok :: "tg_options \<Rightarrow> tg_update list \<Rightarrow> int \<Rightarrow> telegram \<Rightarrow> bool" where
  "tg_ok o' stream first s \<longleftrightarrow>
     history_ok o' stream first (tg_offset s) (tg_attempts s) (tg_accepted s)
     \<and> (\<not> tg_started s \<longrightarrow> start_offset (getCursor (tg_store s)) = first)
     \<and> (ts_authorized (tg_status s) \<longrightarrow> first \<le> tg_offset s)
     \<and> flags_ok s \<and> error_redacted (ts_lastError (tg_status s)) (tg_botToken s)"

definition tg_active :: "tg_options \<Rightarrow> tg_update list \<Rightarrow> int \<Rightarrow> telegram \<Rightarrow> bool" where
  "tg_active o' stream first s \<longleftrightarrow> tg_ok o' stream first s \<and> tg_live s"

lemma tg_fields [simp]:
  "tg_attempts (tg_next w s) = tg_attempts s" "tg_accepted (tg_next w s) = tg_accepted s"
  "tg_offset (tg_next w s) = tg_offset s" "tg_started (tg_next w s) = tg_started s" "tg_botToken (tg_next w s) = tg_botToken s"
  "ts_lastError (tg_status (tg_next w s)) = ts_lastError (tg_status s)"
  "ts_authorized (tg_status (tg_next w s)) = ts_authorized (tg_status s)"
  "getCursor (tg_store (tg_next w s)) = getCursor (tg_store s)"
  "tg_attempts (tg_set_error e s) = tg_attempts s" "tg_accepted (tg_set_error e s) = tg_accepted s"
  "tg_offset (tg_set_error e s) = tg_offset s" "tg_started (tg_set_error e s) = tg_started s" "tg_botToken (tg_set_error e s) = tg_botToken s"
  "tg_store (tg_set_error e s) = tg_store s" "tg_phase (tg_set_error e s) = tg_phase s" "tg_stopped (tg_set_error e s) = tg_stopped s"
  "ts_authorized (tg_status (tg_set_error e s)) = ts_authorized (tg_status s)" "ts_lastError (tg_status (tg_set_error e s)) = Some e"
  by (simp_all add: tg_next_def tg_finish_def tg_set_error_def frame_simps)

lemma tg_next_ok:
  assumes "tg_active o' stream first s"
  shows "tg_ok o' stream first (tg_next w s)"
proof -
  have "store_ok (tg_store s) \<Longrightarrow> store_ok (tg_store (tg_next w s))"
    by (simp add: tg_next_def tg_finish_def store_ok_flush)
  then show ?thesis using assms unfolding tg_active_def tg_ok_def flags_ok_def by auto
qed

lemma redacted_ok: "error_redacted (Some (redactSecret ''***'' x token)) token"
  by (cases token) (auto simp: error_redacted_def dest: redacted_free)

lemma tg_active_same:
  assumes "tg_active o' stream first s"
    and eqs: "tg_offset t = tg_offset s" "tg_attempts t = tg_attempts s" "tg_accepted t = tg_accepted s" "tg_started t = tg_started s"
      "tg_store t = tg_store s" "tg_phase t = tg_phase s" "ts_authorized (tg_status t) = ts_authorized (tg_status s)"
      "tg_botToken t = tg_botToken s"
    and red: "error_redacted (ts_lastError (tg_status t)) (tg_botToken s)"
  shows "tg_active o' stream first t"
proof -
  have "tg_live s" using assms(1) by (simp add: tg_active_def)
  then have "tg_started s" using assms(1) by (simp add: tg_active_def tg_ok_def flags_ok_def)
  then show ?thesis using assms(1) red unfolding tg_active_def tg_ok_def flags_ok_def tg_live_def eqs by blast
qed

lemma tg_active_redacted: "tg_active o' stream first s \<Longrightarrow> error_redacted (ts_lastError (tg_status s)) (tg_botToken s)"
  unfolding tg_active_def tg_ok_def by blast

lemma tg_error_active:
  assumes "tg_active o' stream first s"
  shows "tg_active o' stream first ((tg_set_error (tg_redact s x) s)\<lparr>tg_wait := n\<rparr>)"
  using assms by (rule tg_active_same) (simp_all add: tg_redact_def redacted_ok)

lemma tg_wait_active: "tg_active o' stream first s \<Longrightarrow> tg_active o' stream first (s\<lparr>tg_wait := n\<rparr>)"
  by (rule tg_active_same, assumption) (simp_all add: tg_active_redacted)

lemma tg_caught_active: "tg_active o' stream first s \<Longrightarrow> tg_active o' stream first (tg_caught name e s)"
  unfolding tg_caught_def by (simp add: tg_error_active tg_wait_active)




lemma tg_store_active:
  assumes "tg_active o' stream first s" "history_ok o' stream first n att acc" "first \<le> n"
    "getCursor st = Some (int_str n)" "store_ok st"
  shows "tg_active o' stream first (s\<lparr>tg_attempts := att, tg_accepted := acc, tg_offset := n, tg_store := st\<rparr>)"
proof -
  have "tg_live s" "tg_started s" "has_token (tg_botToken s)" "error_redacted (ts_lastError (tg_status s)) (tg_botToken s)"
    "ts_authorized (tg_status s)"
    using assms(1) by (simp_all add: tg_active_def tg_ok_def flags_ok_def)
  then show ?thesis using assms(2-)
    unfolding tg_active_def tg_ok_def flags_ok_def tg_live_def by simp
qed

lemma tg_history_active:
  assumes "tg_active o' stream first s" "history_ok o' stream first (tg_offset s) (tg_attempts t) (tg_accepted t)"
    and eqs: "tg_offset t = tg_offset s" "tg_started t = tg_started s" "tg_store t = tg_store s" "tg_phase t = tg_phase s"
      "tg_status t = tg_status s" "tg_botToken t = tg_botToken s"
  shows "tg_active o' stream first t"
  using assms(1,2) unfolding tg_active_def tg_ok_def flags_ok_def tg_live_def eqs by blast

lemma tg_updates_active:
  assumes act: "tg_active o' stream first s" and sorted: "sorted_wrt (\<lambda>u v. up_id u < up_id v) stream"
    and ans: "stream \<noteq> [] \<Longrightarrow> answered stream (tg_offset s) updates"
  shows "tg_active o' stream first (tg_updates o' r updates s)"
proof (cases "updates = []")
  case True
  then show ?thesis using act by (simp add: tg_updates_def)
next
  case False
  define off where "off = tg_offset s"
  define maxId where "maxId = tg_max_id off updates"
  obtain att acc failed where emit: "tg_emit (normalizeUpdate o' (ro_now r)) (ro_emits r) 0 updates = (att, acc, failed)"
    by (cases "tg_emit (normalizeUpdate o' (ro_now r)) (ro_emits r) 0 updates") auto
  have parts: "set acc \<subseteq> set att" "\<forall>m \<in> set att. let_in o' m"
    "failed = None \<Longrightarrow> u \<in> set updates \<Longrightarrow> normalizeUpdate o' (ro_now r) u = Some m \<Longrightarrow> m \<in> set acc" for u m
    using tg_emit_parts[OF emit] by (auto dest: normalized_let_in)
  have hist: "history_ok o' stream first off (tg_attempts s) (tg_accepted s)" and first: "first \<le> off"
    using act by (auto simp: tg_active_def tg_ok_def flags_ok_def off_def)
  have same: "history_ok o' stream first off (tg_attempts s @ att) (tg_accepted s @ acc)"
    using hist parts(1,2) handled_more unfolding history_ok_def by fastforce
  have bounds: "off \<le> maxId + 1" "\<forall>u \<in> set updates. up_id u \<le> maxId"
    using tg_max_id_bounds[of off updates] unfolding maxId_def by auto
  have new: "history_ok o' stream first (maxId + 1) (tg_attempts s @ att) (tg_accepted s @ acc)" if none: "failed = None"
  proof -
    have "handled o' (tg_accepted s @ acc) u" if u: "u \<in> set stream" "off \<le> up_id u" "up_id u < maxId + 1" for u
    proof -
      have "\<exists>v \<in> set updates. up_id v = maxId \<or> maxId = off - 1"
        using tg_max_id_reached[of off updates] False by (auto simp: maxId_def neq_Nil_conv)
      then obtain v where "v \<in> set updates" "up_id u \<le> up_id v" using u by force
      moreover have "stream \<noteq> []" using u(1) by auto
      ultimately have "u \<in> set updates" using answered_all[OF sorted ans] u by (simp add: off_def)
      then show ?thesis using parts(3)[OF none] normalize_now[of o' 0 u "ro_now r"]
        by (fastforce simp: handled_def)
    qed
    then show ?thesis using same unfolding history_ok_def by (meson not_le)
  qed
  show ?thesis
  proof (cases failed)
    case (Some e)
    then have "tg_updates o' r updates s = s\<lparr>tg_attempts := tg_attempts s @ att, tg_accepted := tg_accepted s @ acc\<rparr>"
      using False emit by (simp add: tg_updates_def Let_def)
    moreover have "tg_active o' stream first (s\<lparr>tg_attempts := tg_attempts s @ att, tg_accepted := tg_accepted s @ acc\<rparr>)"
      using act by (rule tg_history_active) (use same in \<open>simp_all add: off_def\<close>)
    ultimately show ?thesis by simp
  next
    case None
    obtain st thrown where st: "store_update (Some (int_str (maxId + 1))) None (ro_now r) (ro_write r) (tg_store s) = (st, thrown)"
      by (cases "store_update (Some (int_str (maxId + 1))) None (ro_now r) (ro_write r) (tg_store s)")
    have st_eq: "st = fst (store_update (Some (int_str (maxId + 1))) None (ro_now r) (ro_write r) (tg_store s))" by (simp add: st)
    have "store_ok (tg_store s)" using act by (simp add: tg_active_def tg_ok_def flags_ok_def)
    then have st_ok: "getCursor st = Some (int_str (maxId + 1))" "store_ok st"
      unfolding st_eq by (simp_all only: frame_simps store_ok_update)
    let ?t = "s\<lparr>tg_attempts := tg_attempts s @ att, tg_accepted := tg_accepted s @ acc, tg_offset := maxId + 1, tg_store := st\<rparr>"
    have "tg_active o' stream first ?t"
      using tg_store_active[OF act new[OF None] _ st_ok] first bounds(1) by simp
    moreover have "tg_updates o' r updates s = (case thrown of None \<Rightarrow> ?t | Some e \<Rightarrow> tg_caught ''Error'' e ?t)"
      using False emit None st by (simp add: tg_updates_def Let_def maxId_def off_def split: option.splits)
    ultimately show ?thesis using tg_caught_active by (cases thrown) simp_all
  qed
qed


lemma tg_poll_active:
  assumes "tg_active o' stream first s" "sorted_wrt (\<lambda>u v. up_id u < up_id v) stream" "stream \<noteq> [] \<Longrightarrow> telegram_event stream (TgPolled r)"
    "ro_asked r = tg_offset s"
  shows "tg_active o' stream first (tg_poll o' r s)"
proof -
  have act: "tg_active o' stream first (s\<lparr>tg_wait := 0\<rparr>)" using assms(1) by (rule tg_wait_active)
  show ?thesis
  proof (cases "ro_reply r")
    case (TgOk updates)
    then have "stream \<noteq> [] \<Longrightarrow> answered stream (tg_offset (s\<lparr>tg_wait := 0\<rparr>)) updates" using assms(3,4) by simp
    then show ?thesis using tg_updates_active[OF act assms(2)] TgOk by (simp add: tg_poll_def)
  next
    case (TgNotOk d)
    then show ?thesis unfolding tg_poll_def Let_def TgNotOk tg_reply.case using tg_error_active[OF act] by blast
  qed (simp_all only: tg_poll_def Let_def tg_reply.case tg_caught_active[OF act])
qed

lemma tg_start_ok:
  assumes "tg_ok o' stream first s"
  shows "tg_ok o' stream first (fst (tg_start secret w s))"
proof (cases "tg_started s")
  case True
  then show ?thesis using assms by (simp add: tg_start_def)
next
  case new: False
  define token where "token = loadTokenFromSecret (tg_botToken s) secret"
  have s: "history_ok o' stream first (tg_offset s) (tg_attempts s) (tg_accepted s)" "store_ok (tg_store s)"
    "start_offset (getCursor (tg_store s)) = first"
    using assms new by (simp_all add: tg_ok_def flags_ok_def)
  show ?thesis
  proof (cases "has_token token")
    case False
    then show ?thesis using new s
      by (auto simp: tg_start_def token_def Let_def tg_ok_def flags_ok_def tg_live_def error_redacted_def split: option.splits)
  next
    case True
    define t where "t = s\<lparr>tg_started := True, tg_botToken := token, tg_offset := first, tg_wait := 0, tg_stopped := False,
       tg_status := \<lparr>ts_running = True, ts_connected = True, ts_authorized = True, ts_lastError = None, ts_reconnectAttempts = 0\<rparr>\<rparr>"
    have "history_ok o' stream first first (tg_attempts s) (tg_accepted s)"
      using s(1) by (auto simp: history_ok_def)
    then have "tg_active o' stream first (t\<lparr>tg_phase := LoopPolling\<rparr>)"
      using s True by (simp add: t_def tg_active_def tg_ok_def flags_ok_def tg_live_def error_redacted_def)
    moreover have "fst (tg_start secret w s) = tg_next w (t\<lparr>tg_phase := LoopPolling\<rparr>)"
      using new True s(3) by (simp add: tg_start_def token_def[symmetric] Let_def t_def tg_next_def)
    ultimately show ?thesis by (simp add: tg_next_ok)
  qed
qed

lemma tg_ok_same:
  assumes "tg_ok o' stream first s"
    and eqs: "tg_offset t = tg_offset s" "tg_attempts t = tg_attempts s" "tg_accepted t = tg_accepted s" "tg_started t = tg_started s"
      "tg_phase t = tg_phase s" "tg_status t = tg_status s" "tg_botToken t = tg_botToken s" "getCursor (tg_store t) = getCursor (tg_store s)"
    and store: "store_ok (tg_store t)"
  shows "tg_ok o' stream first t"
  using assms(1) store unfolding tg_ok_def flags_ok_def tg_live_def eqs by blast

lemma tg_ok_store: "tg_ok o' stream first s \<Longrightarrow> store_ok (tg_store s)"
  unfolding tg_ok_def flags_ok_def by blast

lemma tg_load_ok:
  assumes "tg_ok o' stream first s"
  shows "tg_ok o' stream first (s\<lparr>tg_botToken := loadTokenFromSecret (tg_botToken s) secret\<rparr>)"
proof (cases "has_token (tg_botToken s)")
  case True
  then have "loadTokenFromSecret (tg_botToken s) secret = tg_botToken s" by (auto simp: loadTokenFromSecret_def has_token_def)
  then have "s\<lparr>tg_botToken := loadTokenFromSecret (tg_botToken s) secret\<rparr> = s" by simp
  then show ?thesis using assms by metis
next
  case False
  then have "\<not> ts_authorized (tg_status s)" using assms unfolding tg_ok_def flags_ok_def by blast
  moreover have err: "ts_lastError (tg_status s) \<in> {None, Some ''missing_secret''}"
    using False assms unfolding tg_ok_def flags_ok_def by blast
  moreover have "error_redacted (ts_lastError (tg_status s)) tok" for tok
    using err by (auto simp: error_redacted_def split: option.splits)
  ultimately show ?thesis using assms by (simp add: tg_ok_def flags_ok_def tg_live_def)
qed


lemma tg_wake_ok:
  assumes "tg_ok o' stream first s" "tg_phase s = LoopSleeping"
  shows "tg_ok o' stream first (tg_next w (s\<lparr>tg_wait := 0\<rparr>))"
proof -
  have "tg_active o' stream first s" using assms by (simp add: tg_active_def tg_live_def)
  then show ?thesis by (intro tg_next_ok tg_wait_active)
qed

lemma tg_step_ok:
  assumes "sorted_wrt (\<lambda>u v. up_id u < up_id v) stream" "tg_ok o' stream first s" "stream \<noteq> [] \<Longrightarrow> telegram_event stream e"
  shows "tg_ok o' stream first (tg_step o' e s)"
proof (cases e)
  case (TgPolled r)
  show ?thesis
  proof (cases "tg_phase s = LoopPolling \<and> ro_asked r = tg_offset s")
    case True
    then have "tg_active o' stream first s" using assms(2) by (simp add: tg_active_def tg_live_def)
    then show ?thesis using True assms TgPolled tg_poll_active tg_next_ok by auto
  qed (use TgPolled assms(2) in auto)
next
  case TgAbort
  show ?thesis unfolding TgAbort tg_step.simps
    using assms(2) by (rule tg_ok_same) (auto simp: tg_ok_store[OF assms(2)])
next
  case (TgStop w)
  show ?thesis unfolding TgStop tg_step.simps
    using assms(2) by (rule tg_ok_same) (auto simp: tg_stop_def Let_def frame_simps tg_ok_store[OF assms(2)] store_ok_flush)
next
  case (TgTimer w)
  show ?thesis unfolding TgTimer tg_step.simps
    using assms(2) by (rule tg_ok_same) (auto simp: frame_simps tg_ok_store[OF assms(2)] store_ok_timer)
next
  case (TgWake w)
  then show ?thesis using assms(2) tg_wake_ok by simp
qed (use assms(2) tg_start_ok tg_load_ok in auto)

text \<open>The adapter with updates that reach it in order is a machine that keeps \<open>tg_ok\<close>.\<close>

definition ascending :: "tg_update list \<Rightarrow> tg_update list" where
  "ascending stream = (if sorted_wrt (\<lambda>u v. up_id u < up_id v) stream then stream else [])"

interpretation telegram: event_machine "tg_step o'" "telegram_event (ascending stream)" "tg_ok o' (ascending stream) first"
  for o' stream first
  by unfold_locales (rule tg_step_ok, auto simp: ascending_def)

text \<open>Whatever the answers, it keeps the part that does not speak of them.\<close>

interpretation telegram_open: open_machine "tg_step o'" "tg_ok o' [] first" for o' first
  by unfold_locales (rule tg_step_ok, auto)

lemma store_ok_created: "store_ok \<lparr>gs_state = readState contents, gs_disk = contents, gs_debounce = d, gs_timer = None,
    gs_dirty = False, gs_retries = 0, gs_lastError = None\<rparr>"
  by (simp add: store_ok_def)

lemma tg_ok_created: "tg_ok o' stream (start_offset (sd_cursor (readState contents))) (createTelegramChannel o' contents)"
  by (auto simp: tg_ok_def history_ok_def flags_ok_def tg_live_def createTelegramChannel_def store_ok_created error_redacted_def handled_def new_gateway_store_def)


section \<open>What the adapter guarantees\<close>

text \<open>However polls, stops, timers and secrets come, every message that is emitted comes from a chat and from a sender
  that are both on their lists, its text is sanitized, and a reply to its conversation goes back to that chat.
  Without one of the lists nobody is let in.\<close>

theorem only_listed_chats_let_in:
  assumes "m \<in> set (tg_attempts (fold (tg_step o') es (createTelegramChannel o' contents)))"
  shows "\<exists>chats senders chat. to_chats o' = Some chats \<and> to_senders o' = Some senders
       \<and> tg_chat_of (c_id (m_conversation m)) = Some chat \<and> chat \<in> set chats
       \<and> (\<exists>sender \<in> set senders. s_id (m_sender m) = ''telegram:user:'' @ sender)
       \<and> (\<exists>t. m_text m = Some (sanitizeUntrustedContent (to_glyphs o') t)) \<and> m_accountId m = to_accountId o'"
proof -
  have "tg_ok o' [] (start_offset (sd_cursor (readState contents))) (fold (tg_step o') es (createTelegramChannel o' contents))"
    using telegram_open.open_run_keeps tg_ok_created by blast
  then have "let_in o' m" using assms unfolding tg_ok_def history_ok_def by blast
  then show ?thesis
    by (auto simp: let_in_def some_or_def split: option.splits) metis
qed

definition tg_demo :: tg_options where
  "tg_demo = \<lparr>to_id = ''gw'', to_accountId = ''ag'', to_botToken = Some ''k'', to_senders = Some [''9''], to_chats = Some [''7''],
     to_splitAt = None, to_stateDebounceMs = None, to_glyphs = ascii_glyphs\<rparr>"

definition tg_demo_update :: tg_update where
  "tg_demo_update = \<lparr>up_id = 5, up_message = Some \<lparr>tm_messageId = 1,
     tm_from = Some \<lparr>tu_id = 9, tu_username = None, tu_firstName = Some ''a''\<rparr>,
     tm_chat = Some \<lparr>tc_id = 7, tc_type = ''private'', tc_title = None\<rparr>, tm_text = Some ''hi''\<rparr>, up_raw = JNull\<rparr>"

definition tg_demo_run :: "tg_event list" where
  "tg_demo_run = [TgStart None None, TgPolled \<lparr>ro_asked = 0, ro_reply = TgOk [tg_demo_update], ro_emits = (\<lambda>k. None), ro_now = 1,
     ro_write = None, ro_flush = None\<rparr>]"

lemma tg_demo_result:
  "length (tg_attempts (fold (tg_step tg_demo) tg_demo_run (createTelegramChannel tg_demo None))) = 1"
  "tg_offset (fold (tg_step tg_demo) tg_demo_run (createTelegramChannel tg_demo None)) = 6"
  by code_simp+

theorem only_listed_chats_let_in_witness:
  "\<exists>m \<in> set (tg_attempts (fold (tg_step tg_demo) tg_demo_run (createTelegramChannel tg_demo None))).
     \<exists>sender \<in> {''9''}. s_id (m_sender m) = ''telegram:user:'' @ sender"
proof -
  obtain m where m: "m \<in> set (tg_attempts (fold (tg_step tg_demo) tg_demo_run (createTelegramChannel tg_demo None)))"
    using tg_demo_result(1) by (cases "tg_attempts (fold (tg_step tg_demo) tg_demo_run (createTelegramChannel tg_demo None))") auto
  show ?thesis using m only_listed_chats_let_in[OF m] by (intro bexI[OF _ m]) (auto simp: tg_demo_def)
qed



text \<open>A token never shows: unless it contains an asterisk, no error that is shown in the status contains it, whatever the
  errors of the network, of Telegram and of the file system say.\<close>

theorem shown_error_hides_token:
  assumes "s = fold (tg_step o') es (createTelegramChannel o' contents)" "tg_botToken s = Some t"
    "CHR ''*'' \<notin> set t" "t \<noteq> []" "ts_lastError (tg_status s) = Some e" "e \<noteq> ''missing_secret''"
  shows "\<not> includes_str e t"
proof -
  have "tg_ok o' [] (start_offset (sd_cursor (readState contents))) s"
    unfolding assms(1) using telegram_open.open_run_keeps tg_ok_created by blast
  then have "error_redacted (Some e) (Some t)" using assms(2,5) unfolding tg_ok_def by simp
  moreover have "clean_mark ''***'' t" using assms(3,4) by (cases t) (auto simp: clean_mark_def startsWith_def)
  ultimately show ?thesis using assms(4,6) by (simp add: error_redacted_def)
qed

text \<open>What has been written is resumed: a new adapter on the state file of one whose last cursor is in the file starts
  at the offset the old one had reached.\<close>

theorem restart_resumes_at_cursor:
  assumes "s = fold (tg_step o') es (createTelegramChannel o' contents)" "ts_authorized (tg_status s)" "\<not> gs_dirty (tg_store s)"
    "has_token (loadTokenFromSecret (to_botToken o') secret)"
  shows "tg_offset (fst (tg_start secret w (createTelegramChannel o' (gs_disk (tg_store s))))) = tg_offset s"
proof -
  have "tg_ok o' [] (start_offset (sd_cursor (readState contents))) s"
    unfolding assms(1) using telegram_open.open_run_keeps tg_ok_created by blast
  then have "tg_offset s = start_offset (getCursor (tg_store s))" "gs_state (tg_store s) = readState (gs_disk (tg_store s))"
    using assms(2,3) unfolding tg_ok_def flags_ok_def store_ok_def by blast+
  then show ?thesis using assms(4)
    by (simp add: tg_start_def createTelegramChannel_def Let_def new_gateway_store_def)
qed

section \<open>Where it falls short\<close>

text \<open>A batch whose \<open>emit\<close> fails is polled again at once, without a pause, and what was accepted before the failure is
  emitted again.\<close>

lemma failed_batch_emits_again:
  assumes "tg_phase s = LoopPolling" "ro_asked r = tg_offset s" "ro_reply r = TgOk (u # v # us)"
    "normalizeUpdate o' (ro_now r) u = Some m" "normalizeUpdate o' (ro_now r) v = Some n"
    "ro_emits r 0 = None" "ro_emits r 1 = Some e" "\<not> tg_stopped s"
  shows "let s1 = tg_step o' (TgPolled r) s; s2 = tg_step o' (TgPolled r) s1
         in tg_phase s1 = LoopPolling \<and> tg_wait s1 = 0 \<and> tg_offset s1 = tg_offset s
          \<and> tg_accepted s2 = tg_accepted s @ [m, m] \<and> tg_attempts s2 = tg_attempts s @ [m, n, m, n]"
  using assms by (simp add: tg_poll_def tg_updates_def tg_next_def Let_def)

text \<open>Under the manager \<open>emit\<close> is \<open>safeEmit\<close>, which catches what the dispatcher throws.\<close>

definition managed_emit :: "(nat \<Rightarrow> string option) \<Rightarrow> nat \<Rightarrow> string option" where
  "managed_emit dispatched k = None"

text \<open>So a message whose handling fails is confirmed like every other: the offset moves past it.\<close>

lemma failed_dispatch_confirmed:
  assumes "tg_phase s = LoopPolling" "ro_asked r = tg_offset s" "ro_reply r = TgOk updates" "u \<in> set updates"
    "ro_emits r = managed_emit dispatched" "ro_write r = None"
  shows "up_id u < tg_offset (tg_step o' (TgPolled r) s)"
proof -
  obtain att acc failed where emit: "tg_emit (normalizeUpdate o' (ro_now r)) (ro_emits r) 0 updates = (att, acc, failed)"
    by (cases "tg_emit (normalizeUpdate o' (ro_now r)) (ro_emits r) 0 updates") auto
  have "tg_emit nrm (managed_emit dispatched) k vs = (a, b, e) \<Longrightarrow> e = None" for nrm k vs a b e
    by (induction vs arbitrary: k a b e) (auto simp: managed_emit_def split: option.splits prod.splits)
  then have "failed = None" using emit assms(5) by simp
  have caught: "tg_offset (tg_caught n x t) = tg_offset t" for n x t by (simp add: tg_caught_def)
  have "up_id u \<le> tg_max_id (tg_offset s) updates" using tg_max_id_bounds assms(4) by blast
  then show ?thesis using assms \<open>failed = None\<close> emit
    by (auto simp: tg_poll_def tg_updates_def Let_def caught split: option.splits prod.splits)
qed

text \<open>An error stays in the status until the adapter is made anew, however well the polls go.\<close>

lemma error_never_cleared:
  assumes "tg_started s" "ts_lastError (tg_status s) \<noteq> None"
  shows "ts_lastError (tg_status (fold (tg_step o') es s)) \<noteq> None"
proof -
  have caught: "tg_started (tg_caught n x t) = tg_started t \<and> (ts_lastError (tg_status t) \<noteq> None \<longrightarrow> ts_lastError (tg_status (tg_caught n x t)) \<noteq> None)" for n x t
    by (simp add: tg_caught_def)
  have "tg_started (tg_step o' e s) \<and> ts_lastError (tg_status (tg_step o' e s)) \<noteq> None"
    if "tg_started s" "ts_lastError (tg_status s) \<noteq> None" for e s
    using that caught
    by (cases e) (auto simp: tg_start_def tg_poll_def tg_updates_def tg_stop_def Let_def split: tg_reply.splits option.splits prod.splits)
  with assms show ?thesis by (induction es arbitrary: s) auto
qed

text \<open>A channel that has run once cannot be started again: the restarts of the manager only throw.\<close>

lemma restart_always_throws:
  assumes "tg_started s"
  shows "tg_start secret w (fold (tg_step o') es s) = (fold (tg_step o') es s, Some ''already started'')"
proof -
  have caught: "tg_started (tg_caught n x t) = tg_started t" for n x t by (simp add: tg_caught_def)
  have "tg_started s \<Longrightarrow> tg_started (tg_step o' e s)" for e s
    by (cases e) (auto simp: caught tg_start_def tg_poll_def tg_updates_def tg_stop_def Let_def split: tg_reply.splits option.splits prod.splits)
  then have "tg_started (fold (tg_step o') es s)" using assms by (induction es arbitrary: s) auto
  then show ?thesis by (simp add: tg_start_def)
qed

section \<open>Replies\<close>

text \<open>A reply goes to the chat of its conversation, in the parts \<open>splitText\<close> makes and in their order; it is only
  reported as sent when every part has been.\<close>

lemma reply_reaches_chat:
  assumes "has_token (tg_botToken s)" "chat \<noteq> []"
    "tg_send o' replies (tg_conversation_id p chat) reply s = (sent, result)"
  shows "\<exists>k. sent = map (\<lambda>c. (chat, c)) (take k (splitText reply (tg_split_at o')))"
    and "\<exists>r. result = Inr r \<Longrightarrow> sent = map (\<lambda>c. (chat, c)) (splitText reply (tg_split_at o'))"
proof -
  have "tg_send_chunks rd chat replies j cs l = (st, rs) \<Longrightarrow>
      (\<exists>k. st = map (\<lambda>c. (chat, c)) (take k cs)) \<and> ((\<exists>r. rs = Inr r) \<longrightarrow> st = map (\<lambda>c. (chat, c)) cs)" for rd j cs l st rs
  proof (induction cs arbitrary: j l st rs)
    case (Cons c cs)
    show ?case
    proof (cases "replies j")
      case (SendOk mid)
      obtain st' rs' where r: "tg_send_chunks rd chat replies (Suc j) cs
          (case mid of Some i \<Rightarrow> Some (''telegram:'' @ chat @ '':'' @ int_str i) | None \<Rightarrow> l) = (st', rs')"
        by (cases "tg_send_chunks rd chat replies (Suc j) cs (case mid of Some i \<Rightarrow> Some (''telegram:'' @ chat @ '':'' @ int_str i) | None \<Rightarrow> l)")
      have st: "st = (chat, c) # st'" "rs = rs'" using Cons.prems SendOk r by auto
      from Cons.IH[OF r] obtain k where "st' = map (\<lambda>c. (chat, c)) (take k cs)"
        "(\<exists>r. rs' = Inr r) \<longrightarrow> st' = map (\<lambda>c. (chat, c)) cs" by blast
      then show ?thesis using st by (auto intro: exI[of _ "Suc k"])
    qed (use Cons.prems in \<open>auto intro: exI[of _ "Suc 0"]\<close>)
  qed simp
  moreover have "tg_send_chunks (\<lambda>e. redactSecret ''***'' e (tg_botToken s)) chat replies 0 (splitText reply (tg_split_at o')) None = (sent, result)"
    using assms by (simp add: tg_send_def)
  ultimately show "\<exists>k. sent = map (\<lambda>c. (chat, c)) (take k (splitText reply (tg_split_at o')))"
    "\<exists>r. result = Inr r \<Longrightarrow> sent = map (\<lambda>c. (chat, c)) (splitText reply (tg_split_at o'))" by blast+
qed

end
