(* ===== verification/Wechat.thy ===== *)
theory Wechat
  imports Provider_State Event_Machine Transcript
begin

text \<open>
  The WeChat adapter (\<open>daemon/src/gateway/channels/wechat.ts\<close>): the polling loop with its opaque cursor, the cache
  that binds a trace to the token of a conversation, and replies with attachments.

  As for Telegram, a poll is one event with the answers of all it awaits. An answer of the provider is a JavaScript
  object whose \<open>item_list\<close> is a list if it is there. \<open>String\<close>, MD5, Base64, \<open>encodeURIComponent\<close> and the encryption are
  arguments; of the status the timestamps are left out. \<open>wx_attempts\<close> and \<open>wx_accepted\<close> are histories.
\<close>

section \<open>Errors and pauses\<close>

record wx_error =
  we_name :: "string option"
  we_code :: "string option"
  we_causeCode :: "string option"
  we_text :: string

definition TRANSIENT_NETWORK_CODES :: "string list" where
  "TRANSIENT_NETWORK_CODES = [''ECONNRESET'', ''ECONNREFUSED'', ''EAI_AGAIN'', ''ENETUNREACH'', ''ETIMEDOUT'',
     ''UND_ERR_CONNECT_TIMEOUT'', ''UND_ERR_HEADERS_TIMEOUT'', ''UND_ERR_SOCKET'']"

definition classifyWechatPollError :: "wx_error \<Rightarrow> bool \<times> string \<times> string option" where
  "classifyWechatPollError e =
     (let name = some_or (we_name e) ''Error'';
          rawCode = (if we_code e \<noteq> None then we_code e else we_causeCode e);
          code = map_option toUpperCase rawCode
      in (name = ''AbortError'' \<or> name = ''TimeoutError'' \<or> (case code of Some c \<Rightarrow> c \<in> set TRANSIENT_NETWORK_CODES | None \<Rightarrow> False),
          name, (case code of Some c \<Rightarrow> if c \<noteq> [] then Some c else None | None \<Rightarrow> None)))"

definition wechatTransientBackoffMs :: "int \<Rightarrow> int" where
  "wechatTransientBackoffMs consecutiveFailures =
     (let exponent = max 0 (min (consecutiveFailures - 1) 5) in min 30000 (1000 * 2 ^ nat exponent))"

section \<open>Traces\<close>

record trace_ctx =
  tx_contextToken :: string
  tx_fromUserId :: string
  tx_updatedAt :: int

definition TRACE_CONTEXT_TTL_MS :: int where "TRACE_CONTEXT_TTL_MS = 30 * 60 * 1000"

definition pruneTraceContexts :: "int \<Rightarrow> (string \<times> trace_ctx) list \<Rightarrow> (string \<times> trace_ctx) list" where
  "pruneTraceContexts now ts = filter (\<lambda>(k, c). \<not> tx_updatedAt c < now - TRACE_CONTEXT_TTL_MS) ts"

text \<open>The key of the oldest entry, the first one of several.\<close>

fun oldest_trace :: "(string \<times> trace_ctx) list \<Rightarrow> (string \<times> int) option \<Rightarrow> (string \<times> int) option" where
  "oldest_trace [] best = best"
| "oldest_trace ((k, c) # ts) best =
     oldest_trace ts (case best of None \<Rightarrow> Some (k, tx_updatedAt c)
       | Some (k', at') \<Rightarrow> if tx_updatedAt c < at' then Some (k, tx_updatedAt c) else best)"

definition forget_trace :: "string \<Rightarrow> (string \<times> trace_ctx) list \<Rightarrow> (string \<times> trace_ctx) list" where
  "forget_trace k ts = filter (\<lambda>(k', c). k' \<noteq> k) ts"

definition rememberTrace :: "nat \<Rightarrow> string \<Rightarrow> trace_ctx \<Rightarrow> (string \<times> trace_ctx) list \<Rightarrow> (string \<times> trace_ctx) list" where
  "rememberTrace traceContextMax traceId c ts =
     upd_assoc (if length ts \<ge> traceContextMax
                then (case oldest_trace ts None of Some (k, at') \<Rightarrow> forget_trace k ts | None \<Rightarrow> ts)
                else ts) traceId c"

definition lookupTrace :: "int \<Rightarrow> string option \<Rightarrow> (string \<times> trace_ctx) list \<Rightarrow> (string \<times> trace_ctx) list \<times> trace_ctx option" where
  "lookupTrace now traceId ts =
     (case traceId of
        None \<Rightarrow> (ts, None)
      | Some t \<Rightarrow>
          if t = [] then (ts, None)
          else case map_of ts t of
            None \<Rightarrow> (ts, None)
          | Some hit \<Rightarrow> if now - tx_updatedAt hit > TRACE_CONTEXT_TTL_MS then (forget_trace t ts, None) else (ts, Some hit))"

section \<open>Messages\<close>

record wx_options =
  wo_id :: string
  wo_accountId :: string
  wo_botToken :: "string option"
  wo_senders :: "string list option"
  wo_splitAt :: "int option"
  wo_stateDebounceMs :: "int option"
  wo_traceContextMax :: "int option"
  wo_glyphs :: glyphs
  wo_string :: "jsval \<Rightarrow> string"

definition wx_split_at :: "wx_options \<Rightarrow> int" where
  "wx_split_at o' = (case wo_splitAt o' of Some n \<Rightarrow> if n > 0 then n else 1800 | None \<Rightarrow> 1800)"

definition wx_trace_max :: "wx_options \<Rightarrow> nat" where
  "wx_trace_max o' = nat (case wo_traceContextMax o' of Some n \<Rightarrow> if n > 0 then n else 5000 | None \<Rightarrow> 5000)"

definition item_list :: "jsval \<Rightarrow> jsval list" where
  "item_list msg = (case get_prop msg ''item_list'' of JArr xs \<Rightarrow> xs | _ \<Rightarrow> [])"

abbreviation js_int :: "int \<Rightarrow> jsval" where
  "js_int n \<equiv> JNum (Fin (of_int n))"

definition extractText :: "jsval \<Rightarrow> string" where
  "extractText msg =
     trim (join [newline] (List.map_filter (\<lambda>item.
       if get_prop item ''type'' = js_int 1
       then (case get_prop (get_prop item ''text_item'') ''text'' of JStr t \<Rightarrow> if t \<noteq> [] then Some t else None | _ \<Rightarrow> None)
       else None) (item_list msg)))"

definition media_label :: "wx_options \<Rightarrow> string \<Rightarrow> jsval \<Rightarrow> string" where
  "media_label o' kind name =
     (if truthy name then ''['' @ kind @ '': '' @ wo_string o' name @ '']'' else ''['' @ kind @ '']'')"

definition extractMultimodalSummary :: "wx_options \<Rightarrow> jsval \<Rightarrow> string" where
  "extractMultimodalSummary o' msg =
     trim (join [newline] (List.map_filter (\<lambda>item.
       let ty = get_prop item ''type'' in
       if \<not> truthy item \<or> ty = js_int 1 then None
       else if ty = js_int 2 then Some ''[Image]''
       else if ty = js_int 5 then Some (media_label o' ''Video'' (get_prop (get_prop item ''video_item'') ''file_name''))
       else if ty = js_int 4 then Some (media_label o' ''File'' (get_prop (get_prop item ''file_item'') ''file_name''))
       else Some (''[Unsupported media item: type='' @
              (if ty = JUndef \<or> ty = JNull then ''unknown'' else wo_string o' ty) @ '']'')) (item_list msg)))"

text \<open>What a message takes from its surroundings: the time, and two random ids.\<close>

type_synonym wx_fresh = "int \<times> string \<times> string"

definition wx_text :: "wx_options \<Rightarrow> jsval \<Rightarrow> string" where
  "wx_text o' msg = (let t = extractText msg in if t \<noteq> [] then t else extractMultimodalSummary o' msg)"

definition str_or_empty :: "jsval \<Rightarrow> string" where
  "str_or_empty v = some_or (as_str v) []"

definition normalizeInbound :: "wx_options \<Rightarrow> wx_fresh \<Rightarrow> jsval \<Rightarrow> (inbound_message \<times> string \<times> trace_ctx) option" where
  "normalizeInbound o' fresh msg =
     (case fresh of (receivedAt, uuid1, uuid2) \<Rightarrow>
      let fromUid = str_or_empty (get_prop msg ''from_user_id'');
          contextToken = str_or_empty (get_prop msg ''context_token'');
          clientId = str_or_empty (get_prop msg ''client_id'');
          stamp = ''wechat:'' @ fromUid @ '':'' @ int_str receivedAt @ '':''
      in if get_prop msg ''message_type'' \<noteq> js_int 1 then None
         else if fromUid = [] \<or> contextToken = [] then None
         else if wx_text o' msg = [] then None
         else if fromUid \<notin> set (some_or (wo_senders o') []) then None
         else Some (\<lparr>m_id = (if clientId \<noteq> [] then clientId else stamp @ uuid1), m_channel = wo_id o', m_accountId = wo_accountId o',
                m_conversation = \<lparr>c_id = ''wechat:user:'' @ fromUid, c_kind = Direct, c_title = None, c_threadId = None\<rparr>,
                m_sender = \<lparr>s_id = fromUid, s_name = None, s_kind = SUser\<rparr>,
                m_text = Some (sanitizeUntrustedContent (wo_glyphs o') (wx_text o' msg)), m_raw = msg, m_replyTo = None,
                m_mentioned = Some False, m_receivedAt = receivedAt,
                m_trace = Some \<lparr>t_id = stamp @ uuid2, t_streamable = Some False\<rparr>\<rparr>,
              stamp @ uuid2,
              \<lparr>tx_contextToken = contextToken, tx_fromUserId = fromUid, tx_updatedAt = receivedAt\<rparr>))"

section \<open>The loop\<close>

record wechat =
  wx_started :: bool
  wx_botToken :: "string option"
  wx_buf :: string
  wx_store :: gw_store
  wx_phase :: loop_phase
  wx_stopped :: bool
  wx_wait :: int
  wx_firstPollOk :: bool
  wx_failures :: nat
  wx_status :: provider_status
  wx_traces :: "(string \<times> trace_ctx) list"
  wx_tickets :: "string \<rightharpoonup> string"
  wx_attempts :: "inbound_message list"
  wx_accepted :: "inbound_message list"

datatype wx_reply = WxThrows wx_error | WxResp jsval

record wx_round =
  wr_reply :: wx_reply
  wr_emits :: "nat \<Rightarrow> string option"
  wr_fresh :: "nat \<Rightarrow> wx_fresh"
  wr_now :: int
  wr_write :: "string option"
  wr_flush :: "string option"

fun wx_emit :: "wx_options \<Rightarrow> (nat \<Rightarrow> wx_fresh) \<Rightarrow> (nat \<Rightarrow> string option) \<Rightarrow> nat \<Rightarrow> jsval list \<Rightarrow> (string \<times> trace_ctx) list
    \<Rightarrow> (string \<times> trace_ctx) list \<times> inbound_message list \<times> inbound_message list \<times> string option" where
  "wx_emit o' fresh emits k [] ts = (ts, [], [], None)"
| "wx_emit o' fresh emits k (msg # msgs) ts =
     (case normalizeInbound o' (fresh k) msg of
        None \<Rightarrow> wx_emit o' fresh emits (Suc k) msgs ts
      | Some (m, traceId, c) \<Rightarrow>
          (let ts = rememberTrace (wx_trace_max o') traceId c ts in
           case emits k of
             Some e \<Rightarrow> (ts, [m], [], Some e)
           | None \<Rightarrow> (case wx_emit o' fresh emits (Suc k) msgs ts of (ts', att, acc, e) \<Rightarrow> (ts', m # att, m # acc, e))))"

definition wx_redact :: "wechat \<Rightarrow> string \<Rightarrow> string" where
  "wx_redact s input = redactSecret ''[REDACTED]'' input (wx_botToken s)"

text \<open>The \<open>catch\<close> of the loop.\<close>

definition wx_caught :: "wx_error \<Rightarrow> wechat \<Rightarrow> wechat" where
  "wx_caught e s =
     (if wx_stopped s then s
      else case classifyWechatPollError e of
        (True, name, code) \<Rightarrow>
          s\<lparr>wx_failures := Suc (wx_failures s), wx_wait := wechatTransientBackoffMs (int (Suc (wx_failures s))),
            wx_status := (wx_status s)\<lparr>ts_connected := False, ts_lastError := Some (''transient:'' @ some_or code name),
              ts_reconnectAttempts := Suc (wx_failures s)\<rparr>\<rparr>
      | (False, name, code) \<Rightarrow>
          s\<lparr>wx_wait := 3000, wx_status := (wx_status s)\<lparr>ts_lastError := Some (wx_redact s (we_text e))\<rparr>\<rparr>)"

definition plain_error :: "string \<Rightarrow> wx_error" where
  "plain_error message = \<lparr>we_name = Some ''Error'', we_code = None, we_causeCode = None, we_text = error_string ''Error'' message\<rparr>"

definition wx_save :: "string \<Rightarrow> wx_round \<Rightarrow> wechat \<Rightarrow> wechat" where
  "wx_save nextBuf r s =
     (if nextBuf = wx_buf s then s
      else case store_update (Some nextBuf) None (wr_now r) (wr_write r) (wx_store s) of
        (st, thrown) \<Rightarrow>
          (let s = s\<lparr>wx_buf := nextBuf, wx_store := st\<rparr>
           in case thrown of None \<Rightarrow> s | Some e \<Rightarrow> wx_caught (plain_error e) s))"

definition wx_messages :: "wx_options \<Rightarrow> wx_round \<Rightarrow> jsval \<Rightarrow> wechat \<Rightarrow> wechat" where
  "wx_messages o' r resp s =
     (let nextBuf = (case get_prop resp ''get_updates_buf'' of JStr b \<Rightarrow> b | _ \<Rightarrow> wx_buf s);
          msgs = (case get_prop resp ''msgs'' of JArr xs \<Rightarrow> xs | _ \<Rightarrow> [])
      in case wx_emit o' (wr_fresh r) (wr_emits r) 0 msgs (wx_traces s) of
           (ts, att, acc, failed) \<Rightarrow>
             let s = s\<lparr>wx_traces := ts, wx_attempts := wx_attempts s @ att, wx_accepted := wx_accepted s @ acc\<rparr>
             in if failed \<noteq> None then s else wx_save nextBuf r s)"

definition wx_failed_code :: "jsval \<Rightarrow> jsval option" where
  "wx_failed_code resp = find (\<lambda>code. code \<noteq> JUndef \<and> code \<noteq> js_int 0) [get_prop resp ''errcode'', get_prop resp ''ret'']"

definition wx_answer :: "wx_options \<Rightarrow> wx_round \<Rightarrow> jsval \<Rightarrow> wechat \<Rightarrow> wechat" where
  "wx_answer o' r resp s =
     (case wx_failed_code resp of
        Some code \<Rightarrow>
          wx_caught (plain_error (''Wechat getupdates rejected: '' @ wo_string o' code))
            (s\<lparr>wx_firstPollOk := False, wx_status := (wx_status s)\<lparr>ts_connected := False, ts_authorized := False\<rparr>\<rparr>)
      | None \<Rightarrow>
          if get_prop resp ''ret'' \<noteq> js_int 0 \<and> \<not> (as_arr (get_prop resp ''msgs'') \<noteq> None \<and> as_str (get_prop resp ''get_updates_buf'') \<noteq> None)
          then wx_caught (plain_error ''Invalid Wechat getupdates response'') s
          else wx_messages o' r resp
                 (if wx_failures s > 0 \<or> \<not> wx_firstPollOk s
                  then s\<lparr>wx_failures := 0, wx_firstPollOk := True,
                         wx_status := (wx_status s)\<lparr>ts_connected := True, ts_authorized := True, ts_lastError := None, ts_reconnectAttempts := 0\<rparr>\<rparr>
                  else s))"

definition wx_poll :: "wx_options \<Rightarrow> wx_round \<Rightarrow> wechat \<Rightarrow> wechat" where
  "wx_poll o' r s =
     (case wr_reply r of
        WxThrows e \<Rightarrow> wx_caught e (s\<lparr>wx_wait := 0\<rparr>)
      | WxResp resp \<Rightarrow> wx_answer o' r resp (s\<lparr>wx_wait := 0\<rparr>))"

definition wx_next :: "string option \<Rightarrow> wechat \<Rightarrow> wechat" where
  "wx_next w s =
     (if wx_wait s > 0 then s\<lparr>wx_phase := LoopSleeping\<rparr>
      else if wx_stopped s
      then s\<lparr>wx_phase := LoopEnded, wx_status := (wx_status s)\<lparr>ts_running := False, ts_connected := False\<rparr>,
             wx_store := fst (store_flush w (wx_store s))\<rparr>
      else s\<lparr>wx_phase := LoopPolling\<rparr>)"

definition wx_start :: "string option \<Rightarrow> string option \<Rightarrow> wechat \<Rightarrow> wechat \<times> string option" where
  "wx_start secret w s =
     (if wx_started s then (s, Some ''already started'')
      else let s = s\<lparr>wx_started := True, wx_botToken := loadTokenFromSecret (wx_botToken s) secret\<rparr>
        in if \<not> has_token (wx_botToken s)
           then (s\<lparr>wx_phase := LoopEnded, wx_status := (wx_status s)\<lparr>ts_running := False, ts_connected := False,
                   ts_authorized := False, ts_lastError := Some ''missing_secret''\<rparr>\<rparr>, None)
           else (wx_next w (s\<lparr>wx_buf := some_or (getCursor (wx_store s)) [], wx_wait := 0, wx_stopped := False, wx_firstPollOk := False,
                  wx_failures := 0, wx_status := \<lparr>ts_running = True, ts_connected = False, ts_authorized = False,
                    ts_lastError = None, ts_reconnectAttempts = 0\<rparr>\<rparr>), None))"

definition wx_live :: "wechat \<Rightarrow> bool" where
  "wx_live s \<longleftrightarrow> wx_phase s \<in> {LoopPolling, LoopSleeping}"

datatype wx_event =
    WxStart "string option" "string option"
  | WxPolled wx_round
  | WxWake "string option"
  | WxAbort
  | WxStop "string option"
  | WxTimer "string option"
  | WxSweep int
  | WxLookup int "string option"
  | WxLoad "string option"
  | WxTicket string jsval

text \<open>\<open>WxSweep\<close> is the timer that prunes the traces, which runs with the loop; \<open>WxLookup\<close>, \<open>WxLoad\<close> and \<open>WxTicket\<close> are what
  \<open>send\<close> and \<open>typing\<close> change: an expired trace is dropped, the token is loaded, a fetched ticket is kept.\<close>

fun wx_step :: "wx_options \<Rightarrow> wx_event \<Rightarrow> wechat \<Rightarrow> wechat" where
  "wx_step o' (WxStart secret w) s = fst (wx_start secret w s)"
| "wx_step o' (WxPolled r) s = (if wx_phase s = LoopPolling then wx_next (wr_flush r) (wx_poll o' r s) else s)"
| "wx_step o' (WxWake w) s = (if wx_phase s = LoopSleeping then wx_next w (s\<lparr>wx_wait := 0\<rparr>) else s)"
| "wx_step o' WxAbort s = (if wx_live s then s\<lparr>wx_stopped := True\<rparr> else s)"
| "wx_step o' (WxStop w) s =
     (let s = (if wx_live s then s\<lparr>wx_stopped := True\<rparr> else s) in s\<lparr>wx_store := fst (store_flush w (wx_store s))\<rparr>)"
| "wx_step o' (WxTimer w) s = s\<lparr>wx_store := store_timer w (wx_store s)\<rparr>"
| "wx_step o' (WxSweep now) s = (if wx_live s then s\<lparr>wx_traces := pruneTraceContexts now (wx_traces s)\<rparr> else s)"
| "wx_step o' (WxLookup now t) s = s\<lparr>wx_traces := fst (lookupTrace now t (wx_traces s))\<rparr>"
| "wx_step o' (WxLoad secret) s = s\<lparr>wx_botToken := loadTokenFromSecret (wx_botToken s) secret\<rparr>"
| "wx_step o' (WxTicket user resp) s =
     (if wx_tickets s user \<noteq> None then s
      else case get_prop resp ''typing_ticket'' of
        JStr t \<Rightarrow> if t \<noteq> [] then s\<lparr>wx_tickets := (wx_tickets s)(user \<mapsto> t)\<rparr> else s
      | _ \<Rightarrow> s)"

definition createWechatChannel :: "wx_options \<Rightarrow> store_data option \<Rightarrow> wechat" where
  "createWechatChannel o' contents =
     \<lparr>wx_started = False, wx_botToken = wo_botToken o', wx_buf = [], wx_store = new_gateway_store (wo_stateDebounceMs o') contents,
      wx_phase = LoopIdle, wx_stopped = False, wx_wait = 0, wx_firstPollOk = False, wx_failures = 0,
      wx_status = \<lparr>ts_running = False, ts_connected = False, ts_authorized = False, ts_lastError = None, ts_reconnectAttempts = 0\<rparr>,
      wx_traces = [], wx_tickets = Map.empty, wx_attempts = [], wx_accepted = []\<rparr>"


section \<open>Replies\<close>

record wx_attachment =
  wa_filePath :: "string option"
  wa_filename :: "string option"
  wa_contentType :: "string option"
  wa_kind :: "string option"

record wx_env =
  wv_md5 :: "string \<Rightarrow> string"
  wv_base64 :: "string \<Rightarrow> string"
  wv_encode :: "string \<Rightarrow> string"
  wv_basename :: "string \<Rightarrow> string"
  wv_encrypt :: "string \<Rightarrow> string \<Rightarrow> string"

text \<open>What an upload is answered: the bytes of the attachment, the address or the error of its request, the parameter the
  store returns or the error of that call; with the key and the file key that are drawn for it.\<close>

record wx_upload =
  wu_bytes :: "string option"
  wu_throws :: "string option"
  wu_resp :: jsval
  wu_stored :: "string + string option"
  wu_keyHex :: string
  wu_filekey :: string

datatype wx_call =
    CallUploadUrl string jsval
  | CallStore string string
  | CallSend string string jsval

definition kindFromContentType :: "string option \<Rightarrow> string" where
  "kindFromContentType contentType =
     (case contentType of
        Some c \<Rightarrow> if startsWith c ''image/'' then ''image'' else if startsWith c ''video/'' then ''video'' else ''file''
      | None \<Rightarrow> ''file'')"

definition cdnUploadUrl :: "wx_env \<Rightarrow> jsval \<Rightarrow> string option" where
  "cdnUploadUrl env resp =
     (let full = str_or_empty (get_prop resp ''upload_full_url''); param = str_or_empty (get_prop resp ''upload_param'')
      in if full \<noteq> [] then Some full
         else if param \<noteq> []
         then Some (''https://novac2c.cdn.weixin.qq.com/c2c/upload?encrypted_query_param='' @ wv_encode env param)
         else None)"

definition wx_rejected :: "jsval \<Rightarrow> bool" where
  "wx_rejected resp \<longleftrightarrow> get_prop resp ''ret'' \<noteq> js_int 0 \<and> get_prop resp ''ret'' \<noteq> JUndef"

definition wx_filename :: "wx_env \<Rightarrow> wx_attachment \<Rightarrow> string" where
  "wx_filename env a =
     (case wa_filename a of Some f \<Rightarrow> f
      | None \<Rightarrow> (case wa_filePath a of Some p \<Rightarrow> if p \<noteq> [] then wv_basename env p else ''attachment'' | None \<Rightarrow> ''attachment''))"

definition media_item :: "wx_env \<Rightarrow> string \<Rightarrow> wx_attachment \<Rightarrow> wx_upload \<Rightarrow> string \<Rightarrow> string \<Rightarrow> jsval" where
  "media_item env kind a u bytes param =
     (let media = JObj [(''encrypt_query_param'', JStr param), (''aes_key'', JStr (wv_base64 env (wu_keyHex u)))];
          size' = js_int (int (length bytes))
      in if kind = ''image''
         then JObj [(''type'', js_int 2), (''image_item'', JObj [(''media'', media), (''aeskey'', JStr (wu_keyHex u)), (''mid_size'', size')])]
         else if kind = ''video''
         then JObj [(''type'', js_int 5), (''video_item'', JObj [(''media'', media), (''video_size'', size'),
                (''file_name'', JStr (wx_filename env a))])]
         else JObj [(''type'', js_int 4), (''file_item'', JObj [(''media'', media), (''file_name'', JStr (wx_filename env a)),
                (''md5'', JStr (wv_md5 env bytes)), (''len'', size')])])"

definition uploadEncryptedMedia :: "wx_env \<Rightarrow> wechat \<Rightarrow> (jsval \<Rightarrow> string) \<Rightarrow> trace_ctx \<Rightarrow> wx_attachment \<Rightarrow> wx_upload
    \<Rightarrow> wx_call list \<times> (string + jsval)" where
  "uploadEncryptedMedia env s str trace a u =
     (case wu_bytes u of
        None \<Rightarrow> ([], Inl ''wechat media upload requires non-empty attachment data or filePath'')
      | Some bytes \<Rightarrow>
          if bytes = [] then ([], Inl ''wechat media upload requires non-empty attachment data or filePath'')
          else let kind = (case wa_kind a of Some k \<Rightarrow> k | None \<Rightarrow> kindFromContentType (wa_contentType a));
                   mediaType = (if kind = ''image'' then 1 else if kind = ''video'' then 2 else 3 :: int);
                   encrypted = wv_encrypt env (wu_keyHex u) bytes;
                   request = CallUploadUrl (tx_fromUserId trace) (JObj [(''filekey'', JStr (wu_filekey u)), (''media_type'', js_int mediaType),
                     (''to_user_id'', JStr (tx_fromUserId trace)), (''rawsize'', js_int (int (length bytes))),
                     (''rawfilemd5'', JStr (wv_md5 env bytes)), (''filesize'', js_int (int (length encrypted))),
                     (''aeskey'', JStr (wu_keyHex u)), (''no_need_thumb'', JBool True)])
               in case wu_throws u of
                 Some e \<Rightarrow> ([request], Inl e)
               | None \<Rightarrow>
                   if wx_rejected (wu_resp u)
                   then ([request], Inl (wx_redact s (''wechat getuploadurl failed: ret='' @ str (get_prop (wu_resp u) ''ret''))))
                   else case cdnUploadUrl env (wu_resp u) of
                     None \<Rightarrow> ([request], Inl ''wechat getuploadurl returned no upload URL'')
                   | Some url \<Rightarrow>
                       (case wu_stored u of
                          Inl e \<Rightarrow> ([request, CallStore url encrypted], Inl e)
                        | Inr None \<Rightarrow> ([request, CallStore url encrypted], Inl ''wechat CDN upload returned no x-encrypted-param'')
                        | Inr (Some param) \<Rightarrow> ([request, CallStore url encrypted], Inr (media_item env kind a u bytes param))))"

text \<open>What is sent one after the other: the parts of the text, then the attachments.\<close>

datatype wx_job = JobText string | JobMedia wx_attachment wx_upload

datatype wx_sent = SentThrows string | SentResp jsval string

definition sendItems :: "wechat \<Rightarrow> (jsval \<Rightarrow> string) \<Rightarrow> wx_sent \<Rightarrow> string + string" where
  "sendItems s str ans =
     (case ans of
        SentThrows e \<Rightarrow> Inl e
      | SentResp resp clientId \<Rightarrow>
          if wx_rejected resp then Inl (wx_redact s (''wechat sendmessage failed: ret='' @ str (get_prop resp ''ret'')))
          else Inr clientId)"

fun wx_send_jobs :: "wx_env \<Rightarrow> wechat \<Rightarrow> (jsval \<Rightarrow> string) \<Rightarrow> trace_ctx \<Rightarrow> (nat \<Rightarrow> wx_sent) \<Rightarrow> nat \<Rightarrow> wx_job list \<Rightarrow> string option
    \<Rightarrow> wx_call list \<times> (string + string option)" where
  "wx_send_jobs env s str trace answers k [] lastId = ([], Inr lastId)"
| "wx_send_jobs env s str trace answers k (job # jobs) lastId =
     (case (case job of
              JobText t \<Rightarrow> ([], Inr (JObj [(''type'', js_int 1), (''text_item'', JObj [(''text'', JStr t)])]))
            | JobMedia a u \<Rightarrow> uploadEncryptedMedia env s str trace a u) of
        (calls, Inl e) \<Rightarrow> (calls, Inl e)
      | (calls, Inr item) \<Rightarrow>
          (let calls = calls @ [CallSend (tx_fromUserId trace) (tx_contextToken trace) item] in
           case sendItems s str (answers k) of
             Inl e \<Rightarrow> (calls, Inl e)
           | Inr clientId \<Rightarrow>
               (case wx_send_jobs env s str trace answers (Suc k) jobs (Some clientId) of
                  (calls', r) \<Rightarrow> (calls @ calls', r))))"

text \<open>\<open>send\<close>, after it has loaded the token (\<open>WxLoad\<close>); the trace it drops is the event \<open>WxLookup\<close>.\<close>

definition wx_send :: "wx_options \<Rightarrow> wx_env \<Rightarrow> int \<Rightarrow> (nat \<Rightarrow> wx_sent) \<Rightarrow> string option \<Rightarrow> string \<Rightarrow> (wx_attachment \<times> wx_upload) list \<Rightarrow> wechat
    \<Rightarrow> wx_call list \<times> (string + string option)" where
  "wx_send o' env now answers traceId reply attachments s =
     (if \<not> has_token (wx_botToken s) then ([], Inl ''wechat bot token not loaded'')
      else case snd (lookupTrace now traceId (wx_traces s)) of
        None \<Rightarrow> ([], Inl (''wechat send: no context_token for traceId='' @ some_or traceId ''<missing>'' @
                  '' (expired or never bound '' @ em_dash @ '' daemon does not support unsolicited replies)''))
      | Some trace \<Rightarrow>
          wx_send_jobs env s (wo_string o') trace answers 0
            (map JobText (if reply \<noteq> [] then splitText reply (wx_split_at o') else [])
             @ map (\<lambda>(a, u). JobMedia a u) attachments) None)"

section \<open>The cache of traces\<close>

lemma oldest_trace_in: "oldest_trace ts best = Some (k, t) \<Longrightarrow> (\<exists>c. (k, c) \<in> set ts \<and> tx_updatedAt c = t) \<or> best = Some (k, t)"
proof (induction ts best rule: oldest_trace.induct)
  case (2 k' c ts best)
  then show ?case by (auto split: option.splits prod.splits if_splits)
qed simp

lemma oldest_trace_least:
  "oldest_trace ts best = Some (k, t) \<Longrightarrow> (\<forall>(k', c) \<in> set ts. t \<le> tx_updatedAt c) \<and> (\<forall>k' t'. best = Some (k', t') \<longrightarrow> t \<le> t')"
proof (induction ts best rule: oldest_trace.induct)
  case (2 k' c ts best)
  then show ?case by (fastforce split: option.splits prod.splits if_splits)
qed simp

lemma oldest_trace_Some: "ts \<noteq> [] \<or> best \<noteq> None \<Longrightarrow> oldest_trace ts best \<noteq> None"
  by (induction ts best rule: oldest_trace.induct) (auto split: option.splits)

lemma forget_trace_map: "map_of (forget_trace k ts) j = (if j = k then None else map_of ts j)"
  by (induction ts) (auto simp: forget_trace_def)

lemma set_forget_trace: "set (forget_trace k ts) \<subseteq> set ts"
  by (auto simp: forget_trace_def)

lemma forget_trace_shorter: "(k, c) \<in> set ts \<Longrightarrow> length (forget_trace k ts) < length ts"
  unfolding forget_trace_def by (rule length_filter_less) auto

lemma length_upd_assoc: "length (upd_assoc ps k v) \<le> Suc (length ps)"
  by (induction ps) auto

lemma remembered_bounded:
  assumes "0 < n" "length ts \<le> n"
  shows "length (rememberTrace n k c ts) \<le> n"
proof (cases "length ts \<ge> n")
  case True
  then obtain k' t where old: "oldest_trace ts None = Some (k', t)"
    using assms oldest_trace_Some[of ts None] by (cases "oldest_trace ts None") auto
  then obtain c' where "(k', c') \<in> set ts" using oldest_trace_in by fastforce
  then have "length (forget_trace k' ts) < length ts" by (rule forget_trace_shorter)
  then show ?thesis using True assms old length_upd_assoc[of "forget_trace k' ts" k c] by (simp add: rememberTrace_def)
next
  case False
  then show ?thesis using length_upd_assoc[of ts k c] by (simp add: rememberTrace_def)
qed


section \<open>Whom a reply can reach\<close>

text \<open>The message a trace is bound to.\<close>

definition asked_by :: "wx_options \<Rightarrow> string \<Rightarrow> trace_ctx \<Rightarrow> inbound_message \<Rightarrow> bool" where
  "asked_by o' k c m \<longleftrightarrow>
     (case m_trace m of Some t \<Rightarrow> t_id t = k | None \<Rightarrow> False) \<and> s_id (m_sender m) = tx_fromUserId c
     \<and> get_prop (m_raw m) ''context_token'' = JStr (tx_contextToken c) \<and> m_receivedAt m = tx_updatedAt c
     \<and> tx_fromUserId c \<in> set (some_or (wo_senders o') [])"

definition wx_let_in :: "wx_options \<Rightarrow> inbound_message \<Rightarrow> bool" where
  "wx_let_in o' m \<longleftrightarrow> s_id (m_sender m) \<in> set (some_or (wo_senders o') []) \<and> c_id (m_conversation m) = ''wechat:user:'' @ s_id (m_sender m)
     \<and> m_accountId m = wo_accountId o' \<and> (case m_text m of Some t \<Rightarrow> t \<in> range (sanitizeUntrustedContent (wo_glyphs o')) | None \<Rightarrow> False)"

lemma as_str_some: "as_str v = Some t \<longleftrightarrow> v = JStr t"
  by (cases v) auto

lemma str_or_empty_ne: "str_or_empty v \<noteq> [] \<Longrightarrow> v = JStr (str_or_empty v)"
  by (cases v) (auto simp: str_or_empty_def some_or_def)

lemma normalized_asked:
  assumes "normalizeInbound o' fresh msg = Some (m, k, c)"
  shows "asked_by o' k c m \<and> wx_let_in o' m"
proof -
  obtain now u1 u2 where fresh: "fresh = (now, u1, u2)" by (cases fresh)
  have "str_or_empty (get_prop msg ''context_token'') \<noteq> []"
    using assms by (auto simp: normalizeInbound_def fresh Let_def split: if_splits)
  from str_or_empty_ne[OF this] show ?thesis using assms
    by (auto simp: normalizeInbound_def fresh Let_def asked_by_def wx_let_in_def split: if_splits)
qed

definition traces_ok :: "wx_options \<Rightarrow> (string \<times> trace_ctx) list \<Rightarrow> inbound_message list \<Rightarrow> bool" where
  "traces_ok o' ts attempts \<longleftrightarrow>
     length ts \<le> wx_trace_max o' \<and> (\<forall>(k, c) \<in> set ts. \<exists>m \<in> set attempts. asked_by o' k c m)"

lemma wx_trace_max_pos: "0 < wx_trace_max o'"
  by (simp add: wx_trace_max_def split: option.splits)

lemma upd_assoc_within: "set (upd_assoc ps k v) \<subseteq> insert (k, v) (set ps)"
  by (induction ps) (auto split: if_splits)

lemma traces_ok_remember:
  assumes "traces_ok o' ts att" "asked_by o' k c m" "m \<in> set att'" "set att \<subseteq> set att'"
  shows "traces_ok o' (rememberTrace (wx_trace_max o') k c ts) att'"
proof -
  have "set (rememberTrace n k c ts) \<subseteq> insert (k, c) (set ts)" for n
  proof -
    have "set (case oldest_trace ts None of Some (k, at') \<Rightarrow> forget_trace k ts | None \<Rightarrow> ts) \<subseteq> set ts"
      using set_forget_trace by (auto split: option.splits)
    then show ?thesis unfolding rememberTrace_def using upd_assoc_within by (smt (verit) insert_mono order_trans subset_refl)
  qed
  then show ?thesis using assms remembered_bounded[OF wx_trace_max_pos] unfolding traces_ok_def by fastforce
qed

lemma traces_ok_subset: "traces_ok o' ts att \<Longrightarrow> set ts' \<subseteq> set ts \<Longrightarrow> length ts' \<le> length ts \<Longrightarrow> traces_ok o' ts' att"
  unfolding traces_ok_def by (blast intro: order_trans)

lemma wx_emit_parts:
  assumes "wx_emit o' fresh emits k msgs ts = (ts', att, acc, failed)" "traces_ok o' ts att0"
  shows "traces_ok o' ts' (att0 @ att) \<and> set acc \<subseteq> set att \<and> (\<forall>m \<in> set att. wx_let_in o' m)
       \<and> (failed = None \<longrightarrow> acc = att)"
  using assms
proof (induction msgs arbitrary: k ts att0 ts' att acc failed)
  case (Cons msg msgs)
  show ?case
  proof (cases "normalizeInbound o' (fresh k) msg")
    case None
    then show ?thesis using Cons by auto
  next
    case (Some p)
    obtain m tid c where p: "p = (m, tid, c)" by (cases p) auto
    have m: "asked_by o' tid c m" "wx_let_in o' m" using normalized_asked Some p by blast+
    define ts1 where "ts1 = rememberTrace (wx_trace_max o') tid c ts"
    have ts1: "traces_ok o' ts1 (att0 @ [m])"
      unfolding ts1_def using Cons.prems(2) m(1) by (rule traces_ok_remember) auto
    show ?thesis
    proof (cases "emits k")
      case None
      obtain ts2 a b e where r: "wx_emit o' fresh emits (Suc k) msgs ts1 = (ts2, a, b, e)"
        by (cases "wx_emit o' fresh emits (Suc k) msgs ts1") auto
      then show ?thesis using Cons.prems(1) Some p None m Cons.IH[OF r ts1] by (auto simp: ts1_def Let_def)
    next
      case (Some e)
      have "ts' = ts1" "att = [m]" "acc = []" "failed = Some e"
        using Cons.prems(1) Some \<open>normalizeInbound o' (fresh k) msg = Some p\<close> p by (simp_all add: ts1_def Let_def)
      then show ?thesis using ts1 m(2) by simp
    qed
  qed
qed simp

lemma wx_emit_all: "wx_emit o' fresh emits k msgs ts = (ts', att, acc, failed) \<Longrightarrow> failed = None \<Longrightarrow> acc = att"
proof (induction msgs arbitrary: k ts ts' att acc failed)
  case (Cons msg msgs)
  then show ?case by (auto simp: Let_def split: option.splits prod.splits)
qed simp

definition wx_ok :: "wx_options \<Rightarrow> wechat \<Rightarrow> bool" where
  "wx_ok o' s \<longleftrightarrow> traces_ok o' (wx_traces s) (wx_attempts s) \<and> set (wx_accepted s) \<subseteq> set (wx_attempts s)
     \<and> (\<forall>m \<in> set (wx_attempts s). wx_let_in o' m) \<and> (ts_authorized (wx_status s) \<longrightarrow> wx_firstPollOk s)"

lemma wx_ok_same:
  assumes "wx_ok o' s" "wx_traces t = wx_traces s" "wx_attempts t = wx_attempts s" "wx_accepted t = wx_accepted s"
    "ts_authorized (wx_status t) \<longrightarrow> wx_firstPollOk t"
  shows "wx_ok o' t"
  using assms unfolding wx_ok_def by simp

lemma wx_ok_authorized: "wx_ok o' s \<Longrightarrow> ts_authorized (wx_status s) \<longrightarrow> wx_firstPollOk s"
  unfolding wx_ok_def by blast

lemma wx_caught_fields [simp]:
  "wx_traces (wx_caught e s) = wx_traces s" "wx_attempts (wx_caught e s) = wx_attempts s" "wx_accepted (wx_caught e s) = wx_accepted s"
  "ts_authorized (wx_status (wx_caught e s)) = ts_authorized (wx_status s)" "wx_firstPollOk (wx_caught e s) = wx_firstPollOk s"
  "wx_buf (wx_caught e s) = wx_buf s" "wx_store (wx_caught e s) = wx_store s" "wx_started (wx_caught e s) = wx_started s"
  by (auto simp: wx_caught_def split: prod.splits bool.splits)

lemma wx_next_fields [simp]:
  "wx_traces (wx_next w s) = wx_traces s" "wx_attempts (wx_next w s) = wx_attempts s" "wx_accepted (wx_next w s) = wx_accepted s"
  "ts_authorized (wx_status (wx_next w s)) = ts_authorized (wx_status s)" "wx_firstPollOk (wx_next w s) = wx_firstPollOk s"
  "wx_buf (wx_next w s) = wx_buf s" "wx_started (wx_next w s) = wx_started s"
  "ts_lastError (wx_status (wx_next w s)) = ts_lastError (wx_status s)"
  by (simp_all add: wx_next_def)

lemma wx_save_fields [simp]:
  "wx_traces (wx_save b r s) = wx_traces s" "wx_attempts (wx_save b r s) = wx_attempts s" "wx_accepted (wx_save b r s) = wx_accepted s"
  "ts_authorized (wx_status (wx_save b r s)) = ts_authorized (wx_status s)" "wx_firstPollOk (wx_save b r s) = wx_firstPollOk s"
  "wx_buf (wx_save b r s) = b" "wx_started (wx_save b r s) = wx_started s"
  by (auto simp: wx_save_def Let_def split: prod.splits option.splits)

lemma wx_messages_ok:
  assumes "wx_ok o' s"
  shows "wx_ok o' (wx_messages o' r resp s)"
proof -
  define msgs where "msgs = (case get_prop resp ''msgs'' of JArr xs \<Rightarrow> xs | _ \<Rightarrow> [])"
  obtain ts att acc failed where emit: "wx_emit o' (wr_fresh r) (wr_emits r) 0 msgs (wx_traces s) = (ts, att, acc, failed)"
    by (cases "wx_emit o' (wr_fresh r) (wr_emits r) 0 msgs (wx_traces s)") auto
  have "wx_ok o' (s\<lparr>wx_traces := ts, wx_attempts := wx_attempts s @ att, wx_accepted := wx_accepted s @ acc\<rparr>)"
    using assms wx_emit_parts[OF emit, of "wx_attempts s"] unfolding wx_ok_def by auto
  then show ?thesis unfolding wx_messages_def msgs_def[symmetric] Let_def emit prod.case
    by (auto intro: wx_ok_same simp: wx_ok_def)
qed

lemma wx_poll_ok:
  assumes "wx_ok o' s"
  shows "wx_ok o' (wx_poll o' r s)"
proof -
  have s: "wx_ok o' (s\<lparr>wx_wait := 0\<rparr>)" using assms by (rule wx_ok_same) (simp_all add: wx_ok_authorized[OF assms])
  have caught: "wx_ok o' t \<Longrightarrow> wx_ok o' (wx_caught e t)" for e t
    by (rule wx_ok_same, assumption) (simp_all add: wx_ok_authorized)
  have "wx_ok o' t \<Longrightarrow> wx_ok o' (wx_answer o' r resp t)" for resp t
    unfolding wx_answer_def
    by (auto split: option.splits intro!: caught wx_messages_ok intro: wx_ok_same)
  then show ?thesis using s caught unfolding wx_poll_def by (cases "wr_reply r") simp_all
qed

lemma lookupTrace_subset: "set (fst (lookupTrace now t ts)) \<subseteq> set ts \<and> length (fst (lookupTrace now t ts)) \<le> length ts"
  using set_forget_trace by (auto simp: lookupTrace_def forget_trace_def split: option.splits)

lemma wx_step_ok:
  assumes "wx_ok o' s"
  shows "wx_ok o' (wx_step o' e s)"
proof (cases e)
  case (WxStart secret w)
  show ?thesis unfolding WxStart wx_step.simps using assms
    by (rule wx_ok_same) (auto simp: wx_start_def Let_def wx_ok_authorized[OF assms])
next
  case (WxPolled r)
  have "wx_ok o' (wx_next (wr_flush r) t)" if "wx_ok o' t" for t
    using that by (rule wx_ok_same) (simp_all add: wx_ok_authorized[OF that])
  then show ?thesis using WxPolled wx_poll_ok[OF assms] assms by simp
next
  case (WxSweep now)
  have "traces_ok o' (pruneTraceContexts now (wx_traces s)) (wx_attempts s)"
    by (rule traces_ok_subset[of _ "wx_traces s"]) (use assms in \<open>auto simp: wx_ok_def pruneTraceContexts_def\<close>)
  then show ?thesis using WxSweep assms by (simp add: wx_ok_def)
next
  case (WxLookup now t)
  have "traces_ok o' (fst (lookupTrace now t (wx_traces s))) (wx_attempts s)"
    by (rule traces_ok_subset[of _ "wx_traces s"]) (use assms lookupTrace_subset in \<open>auto simp: wx_ok_def\<close>)
  then show ?thesis using WxLookup assms by (simp add: wx_ok_def)
next
  case (WxTicket user resp)
  show ?thesis unfolding WxTicket wx_step.simps using assms
    by (rule wx_ok_same) (auto simp: wx_ok_authorized[OF assms] split: jsval.splits)
qed (use assms in \<open>auto simp: Let_def intro!: wx_ok_same[OF assms] simp: wx_ok_authorized[OF assms]\<close>)

interpretation wechat: open_machine "wx_step o'" "wx_ok o'" for o'
  by unfold_locales (rule wx_step_ok)

lemma wx_ok_created: "wx_ok o' (createWechatChannel o' contents)"
  by (simp add: wx_ok_def traces_ok_def createWechatChannel_def)


lemma wx_ok_run: "wx_ok o' (fold (wx_step o') es (createWechatChannel o' contents))"
  using wechat.open_run_keeps wx_ok_created by blast

text \<open>The cache of traces never holds more than its cap (5000 by default), whatever arrives.\<close>

theorem trace_cache_bounded:
  "length (wx_traces (fold (wx_step o') es (createWechatChannel o' contents))) \<le> wx_trace_max o'"
  using wx_ok_run unfolding wx_ok_def traces_ok_def by blast

lemma wx_send_jobs_calls:
  assumes "wx_send_jobs env s str trace answers k jobs lastId = (calls, r)" "CallSend user token item \<in> set calls"
  shows "user = tx_fromUserId trace \<and> token = tx_contextToken trace"
  using assms
proof (induction jobs arbitrary: k lastId calls r)
  case (Cons job jobs)
  have upload: "CallSend user token item \<notin> set (fst (uploadEncryptedMedia env s str trace a u))" for a u
    by (auto simp: uploadEncryptedMedia_def Let_def split: option.splits sum.splits)
  define first where "first = (case job of
              JobText t \<Rightarrow> ([], Inr (JObj [(''type'', js_int 1), (''text_item'', JObj [(''text'', JStr t)])]))
            | JobMedia a u \<Rightarrow> uploadEncryptedMedia env s str trace a u)"
  obtain cs res where f: "first = (cs, res)" by (cases first)
  have no: "CallSend user token item \<notin> set cs" using f
  proof (cases job)
    case (JobMedia a u)
    then show ?thesis using upload[of a u] f by (simp add: first_def)
  qed (auto simp: first_def)
  have rec: "wx_send_jobs env s str trace answers k (job # jobs) lastId =
      (case first of (cs, Inl e) \<Rightarrow> (cs, Inl e)
       | (cs, Inr item') \<Rightarrow>
          (let cs = cs @ [CallSend (tx_fromUserId trace) (tx_contextToken trace) item'] in
           case sendItems s str (answers k) of
             Inl e \<Rightarrow> (cs, Inl e)
           | Inr clientId \<Rightarrow> (case wx_send_jobs env s str trace answers (Suc k) jobs (Some clientId) of (cs', r) \<Rightarrow> (cs @ cs', r))))"
    unfolding first_def by simp
  show ?case
  proof (cases res)
    case (Inl e)
    then show ?thesis using Cons.prems no unfolding rec f by simp
  next
    case (Inr item')
    show ?thesis
    proof (cases "sendItems s str (answers k)")
      case (Inl e)
      then show ?thesis using Cons.prems no Inr unfolding rec f by (auto simp: Let_def)
    next
      case (Inr clientId)
      obtain cs' r' where rest: "wx_send_jobs env s str trace answers (Suc k) jobs (Some clientId) = (cs', r')"
        by (cases "wx_send_jobs env s str trace answers (Suc k) jobs (Some clientId)")
      have "calls = (cs @ [CallSend (tx_fromUserId trace) (tx_contextToken trace) item']) @ cs'"
        using Cons.prems(1) Inr \<open>res = Inr item'\<close> rest unfolding rec f by (simp add: Let_def)
      then consider "CallSend user token item = CallSend (tx_fromUserId trace) (tx_contextToken trace) item'" | "CallSend user token item \<in> set cs'"
        using Cons.prems(2) no by auto
      then show ?thesis using Cons.IH[OF rest] by cases auto
    qed
  qed
qed simp

lemma lookup_hit:
  assumes "snd (lookupTrace now t ts) = Some c"
  shows "\<exists>k. t = Some k \<and> k \<noteq> [] \<and> (k, c) \<in> set ts \<and> now - tx_updatedAt c \<le> TRACE_CONTEXT_TTL_MS"
  using assms by (auto simp: lookupTrace_def split: option.splits if_splits dest: map_of_SomeD)

text \<open>C29: A reply only ever goes to the one who asked: everything that is sent for a trace goes to the sender of a message
  that was let in under this trace at most half an hour before, with the token of that message; nothing is sent
  without such a message.\<close>

theorem reply_only_to_asker:
  assumes "s = fold (wx_step o') es (createWechatChannel o' contents)"
    "wx_send o' env now answers traceId reply attachments s = (calls, result)" "CallSend user token item \<in> set calls"
  shows "\<exists>m \<in> set (wx_attempts s). s_id (m_sender m) = user \<and> get_prop (m_raw m) ''context_token'' = JStr token
       \<and> map_option t_id (m_trace m) = traceId \<and> now - m_receivedAt m \<le> 30 * 60 * 1000
       \<and> user \<in> set (some_or (wo_senders o') [])"
proof -
  have ok: "wx_ok o' s" unfolding assms(1) by (rule wx_ok_run)
  obtain c where c: "snd (lookupTrace now traceId (wx_traces s)) = Some c"
    using assms(2,3) by (auto simp: wx_send_def split: if_splits option.splits)
  from lookup_hit[OF c] obtain k where k: "traceId = Some k" "(k, c) \<in> set (wx_traces s)" "now - tx_updatedAt c \<le> TRACE_CONTEXT_TTL_MS"
    by blast
  from k(2) ok obtain m where m: "m \<in> set (wx_attempts s)" "asked_by o' k c m" unfolding wx_ok_def traces_ok_def by blast
  have "user = tx_fromUserId c \<and> token = tx_contextToken c"
    using assms(2,3) c by (auto simp: wx_send_def split: if_splits dest: wx_send_jobs_calls)
  then show ?thesis using m k by (intro bexI[OF _ m(1)]) (auto simp: asked_by_def TRACE_CONTEXT_TTL_MS_def split: option.splits)
qed

definition wx_demo :: wx_options where
  "wx_demo = \<lparr>wo_id = ''gw'', wo_accountId = ''ag'', wo_botToken = Some ''k'', wo_senders = Some [''u''], wo_splitAt = None,
     wo_stateDebounceMs = None, wo_traceContextMax = None, wo_glyphs = ascii_glyphs, wo_string = (\<lambda>v. [])\<rparr>"

definition wx_demo_message :: jsval where
  "wx_demo_message = JObj [(''message_type'', js_int 1), (''from_user_id'', JStr ''u''), (''context_token'', JStr ''c''),
     (''item_list'', JArr [JObj [(''type'', js_int 1), (''text_item'', JObj [(''text'', JStr ''hi'')])]])]"

definition wx_demo_run :: "wx_event list" where
  "wx_demo_run = [WxStart None None, WxPolled \<lparr>wr_reply = WxResp (JObj [(''ret'', js_int 0), (''get_updates_buf'', JStr ''b''), (''msgs'', JArr [wx_demo_message])]),
     wr_emits = (\<lambda>k. None), wr_fresh = (\<lambda>k. (5, ''p'', ''q'')), wr_now = 5, wr_write = None, wr_flush = None\<rparr>]"

definition wx_demo_env :: wx_env where
  "wx_demo_env = \<lparr>wv_md5 = id, wv_base64 = id, wv_encode = id, wv_basename = id, wv_encrypt = (\<lambda>k b. b)\<rparr>"

lemma wx_demo_sent:
  "wx_send wx_demo wx_demo_env 9 (\<lambda>k. SentResp (JObj []) ''id'') (Some ''wechat:u:5:q'') ''ok'' []
     (fold (wx_step wx_demo) wx_demo_run (createWechatChannel wx_demo None))
   = ([CallSend ''u'' ''c'' (JObj [(''type'', js_int 1), (''text_item'', JObj [(''text'', JStr ''ok'')])])], Inr (Some ''id''))"
  by code_simp

theorem reply_only_to_asker_witness:
  "\<exists>m \<in> set (wx_attempts (fold (wx_step wx_demo) wx_demo_run (createWechatChannel wx_demo None))).
     s_id (m_sender m) = ''u'' \<and> get_prop (m_raw m) ''context_token'' = JStr ''c'' \<and> 9 - m_receivedAt m \<le> 30 * 60 * 1000"
  using reply_only_to_asker[OF refl wx_demo_sent] by auto

text \<open>Nobody who is not on the list is heard, and the status only says authorized after a successful poll.\<close>

theorem unlisted_sender_unheard:
  "let s = fold (wx_step o') es (createWechatChannel o' contents)
   in list_all (\<lambda>m. s_id (m_sender m) \<in> set (some_or (wo_senders o') [])) (wx_attempts s)
    \<and> (if ts_authorized (wx_status s) then wx_firstPollOk s else True)"
  using wx_ok_run[of o' es contents] unfolding wx_ok_def wx_let_in_def Let_def by (auto simp: list_all_iff)

text \<open>The pause after failures grows from a second to half a minute and no further.\<close>

lemma backoff_bounded: "1000 \<le> wechatTransientBackoffMs n \<and> wechatTransientBackoffMs n \<le> 30000"
proof -
  have "(1 :: int) \<le> 2 ^ k" for k :: nat by simp
  then show ?thesis by (simp add: wechatTransientBackoffMs_def Let_def)
qed

lemma backoff_grows: "m \<le> n \<Longrightarrow> wechatTransientBackoffMs m \<le> wechatTransientBackoffMs n"
  unfolding wechatTransientBackoffMs_def Let_def
  by (intro min.mono order_refl mult_left_mono power_increasing nat_mono max.mono) auto

text \<open>The cursor only moves when every message of the answer that was let in has been accepted.\<close>

lemma wechat_cursor_waits:
  assumes "wx_phase s = LoopPolling" "wx_buf (wx_step o' (WxPolled r) s) \<noteq> wx_buf s"
  shows "\<exists>acc resp. wr_reply r = WxResp resp \<and> get_prop resp ''get_updates_buf'' = JStr (wx_buf (wx_step o' (WxPolled r) s))
       \<and> wx_accepted (wx_step o' (WxPolled r) s) = wx_accepted s @ acc \<and> wx_attempts (wx_step o' (WxPolled r) s) = wx_attempts s @ acc"
proof (cases "wr_reply r")
  case (WxThrows e)
  then show ?thesis using assms by (simp add: wx_poll_def)
next
  case (WxResp resp)
  have messages: "\<exists>acc. wx_accepted (wx_messages o' r resp t) = wx_accepted t @ acc \<and> wx_attempts (wx_messages o' r resp t) = wx_attempts t @ acc
      \<and> get_prop resp ''get_updates_buf'' = JStr (wx_buf (wx_messages o' r resp t))"
    if "wx_buf (wx_messages o' r resp t) \<noteq> wx_buf t" for t
  proof -
    define msgs where "msgs = (case get_prop resp ''msgs'' of JArr xs \<Rightarrow> xs | _ \<Rightarrow> [])"
    obtain ts att acc failed where emit: "wx_emit o' (wr_fresh r) (wr_emits r) 0 msgs (wx_traces t) = (ts, att, acc, failed)"
      by (cases "wx_emit o' (wr_fresh r) (wr_emits r) 0 msgs (wx_traces t)") auto
    have same: "failed = None \<longrightarrow> acc = att" using wx_emit_all[OF emit] by simp
    show ?thesis using that same
      unfolding wx_messages_def msgs_def[symmetric] Let_def emit prod.case
      by (auto split: if_splits jsval.splits)
  qed
  have answer: "wx_buf (wx_answer o' r resp u) = wx_buf u
      \<or> (\<exists>t. wx_answer o' r resp u = wx_messages o' r resp t \<and> wx_buf t = wx_buf u \<and> wx_accepted t = wx_accepted u \<and> wx_attempts t = wx_attempts u)" for u
  proof (cases "wx_failed_code resp")
    case None
    define t where "t = (if wx_failures u > 0 \<or> \<not> wx_firstPollOk u
                  then u\<lparr>wx_failures := 0, wx_firstPollOk := True,
                         wx_status := (wx_status u)\<lparr>ts_connected := True, ts_authorized := True, ts_lastError := None, ts_reconnectAttempts := 0\<rparr>\<rparr>
                  else u)"
    have "wx_buf t = wx_buf u" "wx_accepted t = wx_accepted u" "wx_attempts t = wx_attempts u" by (simp_all add: t_def)
    then show ?thesis using None unfolding wx_answer_def t_def[symmetric] by auto
  qed (simp add: wx_answer_def)
  define u where "u = s\<lparr>wx_wait := 0\<rparr>"
  have u: "wx_buf u = wx_buf s" "wx_accepted u = wx_accepted s" "wx_attempts u = wx_attempts s" by (simp_all add: u_def)
  have step: "wx_step o' (WxPolled r) s = wx_next (wr_flush r) (wx_answer o' r resp u)" using assms(1) WxResp by (simp add: wx_poll_def u_def)
  then obtain t where t: "wx_answer o' r resp u = wx_messages o' r resp t" "wx_buf t = wx_buf s" "wx_accepted t = wx_accepted s" "wx_attempts t = wx_attempts s"
    using answer[of u] assms(2) u by auto
  then show ?thesis using messages[of t] assms(2) WxResp
    unfolding step wx_next_fields t(1) by (simp add: t(2-4)) metis
qed

section \<open>Where it falls short\<close>

text \<open>After an error that is not of the network, the next successful poll clears nothing: the error stays in the status of
  a channel that works, and during the error the channel is still shown as connected.\<close>

lemma stale_error_after_recovery:
  assumes "wx_phase s = LoopPolling" "\<not> wx_stopped s" "wx_firstPollOk s" "wx_failures s = 0"
    "wr_reply bad = WxThrows e" "\<not> fst (classifyWechatPollError e)"
    "wr_reply good = WxResp (JObj [(''ret'', js_int 0)])"
  shows "let failed = wx_step o' (WxPolled bad) s; recovered = wx_step o' (WxPolled good) (wx_step o' (WxWake w) failed)
         in ts_connected (wx_status failed) = ts_connected (wx_status s) \<and> ts_authorized (wx_status failed) = ts_authorized (wx_status s)
          \<and> wx_phase recovered = LoopPolling \<and> ts_lastError (wx_status recovered) = Some (wx_redact s (we_text e))"
proof -
  obtain name code where c: "classifyWechatPollError e = (False, name, code)"
    using assms(6) by (cases "classifyWechatPollError e") auto
  show ?thesis using assms(1-5,7) c
    by (simp add: wx_poll_def wx_caught_def wx_next_def wx_answer_def wx_failed_code_def wx_messages_def wx_save_def wx_redact_def Let_def)
qed

text \<open>The messages of an answer whose \<open>emit\<close> fails are emitted again, under a new trace and, without a client id, under a
  new message id.\<close>

lemma replayed_message_renamed:
  assumes "normalizeInbound o' (now, u1, u2) msg = Some (m, k, c)" "normalizeInbound o' (now, v1, v2) msg = Some (n, l, d)"
    "str_or_empty (get_prop msg ''client_id'') = []" "u1 \<noteq> v1" "u2 \<noteq> v2"
  shows "m_id m \<noteq> m_id n \<and> k \<noteq> l"
  using assms by (auto simp: normalizeInbound_def Let_def split: if_splits)

text \<open>The ticket of a user is fetched once: a later one never replaces it.\<close>

lemma ticket_never_refreshed:
  assumes "wx_tickets s user = Some t"
  shows "wx_tickets (fold (wx_step o') es s) user = Some t"
proof -
  have caught: "wx_tickets (wx_caught e s) = wx_tickets s" for e s by (auto simp: wx_caught_def split: prod.splits bool.splits)
  have save: "wx_tickets (wx_save b r s) = wx_tickets s" for b r s
    by (auto simp: wx_save_def Let_def caught split: prod.splits option.splits)
  have poll: "wx_tickets (wx_poll o' r s) = wx_tickets s" for r s
    by (auto simp: wx_poll_def wx_answer_def wx_messages_def caught save Let_def split: wx_reply.splits option.splits prod.splits)
  have next': "wx_tickets (wx_next w s) = wx_tickets s" for w s by (simp add: wx_next_def)
  have "wx_tickets (wx_step o' e s) user = Some t" if "wx_tickets s user = Some t" for e s
    using that by (cases e) (auto simp: poll next' wx_start_def Let_def split: jsval.splits)
  then show ?thesis using assms by (induction es arbitrary: s) auto
qed

end
