(* ===== verification/Dashboard_Rooms.thy ===== *)
theory Dashboard_Rooms
  imports Event_Machine
begin

text \<open>
  The conversation lists of the dashboard (\<open>frontend/src/store/dashboard-shared.ts\<close>,
  \<open>frontend/src/lib/messages-merge.ts\<close> and \<open>frontend/src/components/dashboard/dmRoom.ts\<close>): how the rooms of the
  owner, of the owner as a human and of the owner's bots become one list, how it is ordered, and how the
  filters of the sidebar and their counts are computed.

  \<open>Date.parse\<close> is the argument \<open>dp\<close>, with \<open>None\<close> for a text that is no date. The records hold the fields the
  code reads or sets by a rule; the fields it copies one to one carry no rule and are left out.
  \<open>undefined\<close> and \<open>null\<close> are both \<open>None\<close>: every use here treats them alike.
\<close>

section \<open>Rooms\<close>

datatype participant = PHuman | PAgent

record dash_room =
  dr_id :: string
  dr_owner :: string
  dr_ownerType :: "participant option"
  dr_myRole :: string
  dr_createdAt :: "string option"
  dr_lastMessageAt :: "string option"
  dr_hasUnread :: bool
  dr_peerType :: "participant option"
  dr_origin :: "(string \<times> string) option"
  dr_spaceId :: "string option"

record public_room =
  pr_id :: string
  pr_owner :: string
  pr_lastMessageAt :: "string option"

record human_room =
  hr_id :: string
  hr_spaceId :: "string option"
  hr_owner :: string
  hr_ownerType :: participant
  hr_memberCount :: "nat option"
  hr_myRole :: string
  hr_lastMessageAt :: "string option"
  hr_createdAt :: "string option"

record room_bot =
  bt_agentId :: string
  bt_displayName :: string
  bt_role :: string

record agent_room =
  ar_id :: string
  ar_owner :: string
  ar_memberCount :: "nat option"
  ar_createdAt :: "string option"
  ar_lastMessageAt :: "string option"
  ar_bots :: "room_bot list"

definition toRoomSummary :: "public_room \<Rightarrow> dash_room" where
  "toRoomSummary room =
     \<lparr>dr_id = pr_id room, dr_owner = pr_owner room, dr_ownerType = None, dr_myRole = ''viewer'', dr_createdAt = None,
      dr_lastMessageAt = pr_lastMessageAt room, dr_hasUnread = False, dr_peerType = None, dr_origin = None,
      dr_spaceId = None\<rparr>"

section \<open>Order by activity\<close>

text \<open>An empty or unreadable time counts as zero, and zero falls back to the time of creation.\<close>

definition getIsoTimestampValue :: "(string \<Rightarrow> int option) \<Rightarrow> string option \<Rightarrow> int" where
  "getIsoTimestampValue dp isoTime =
     (case isoTime of None \<Rightarrow> 0 | Some s \<Rightarrow> if s = [] then 0 else (case dp s of Some v \<Rightarrow> v | None \<Rightarrow> 0))"

definition getRoomActivityTimestamp :: "(string \<Rightarrow> int option) \<Rightarrow> dash_room \<Rightarrow> int" where
  "getRoomActivityTimestamp dp room =
     (let t = getIsoTimestampValue dp (dr_lastMessageAt room)
      in if t \<noteq> 0 then t else getIsoTimestampValue dp (dr_createdAt room))"

text \<open>\<open>sort\<close> with \<open>compareRoomsByActivityDesc\<close>; the sort of the language is stable.\<close>

definition by_activity :: "(string \<Rightarrow> int option) \<Rightarrow> dash_room list \<Rightarrow> dash_room list" where
  "by_activity dp rooms = sort_key (\<lambda>r. - getRoomActivityTimestamp dp r) rooms"

section \<open>Room ids\<close>

definition ownerChatRoomId :: "string \<Rightarrow> bool" where
  "ownerChatRoomId roomId \<longleftrightarrow> startsWith roomId ''rm_oc_''"

definition isSpaceRoomId :: "string \<Rightarrow> bool" where
  "isSpaceRoomId roomId \<longleftrightarrow> startsWith roomId ''rm_sdm_''"

definition has_text :: "string option \<Rightarrow> bool" where
  "has_text s \<longleftrightarrow> (case s of Some t \<Rightarrow> t \<noteq> [] | None \<Rightarrow> False)"

definition isSpaceRoom :: "dash_room \<Rightarrow> bool" where
  "isSpaceRoom room \<longleftrightarrow> has_text (dr_spaceId room) \<or> isSpaceRoomId (dr_id room)"

definition id_char :: "char \<Rightarrow> bool" where
  "id_char c \<longleftrightarrow> (let n = (of_char c :: nat) in (65 \<le> n \<and> n \<le> 90) \<or> (97 \<le> n \<and> n \<le> 122) \<or> (48 \<le> n \<and> n \<le> 57))"

text \<open>The expression \<open>^rm_dm_((?:ag|hu)_[A-Za-z0-9]+)_((?:ag|hu)_[A-Za-z0-9]+)$\<close>: no character of an id is an
  underscore, so the four parts are those between the underscores.\<close>

definition parseDmRoomId :: "string \<Rightarrow> (string \<times> string) option" where
  "parseDmRoomId roomId =
     (if \<not> startsWith roomId ''rm_dm_'' then None
      else
        case split_on (CHR ''_'') (drop 6 roomId) of
          [p, x, q, y] \<Rightarrow>
            (if p \<in> {''ag'', ''hu''} \<and> q \<in> {''ag'', ''hu''} \<and> x \<noteq> [] \<and> y \<noteq> [] \<and> list_all id_char x \<and> list_all id_char y
             then Some (p @ ''_'' @ x, q @ ''_'' @ y) else None)
        | _ \<Rightarrow> None)"

definition dmPeerId :: "string \<Rightarrow> string option \<Rightarrow> string option" where
  "dmPeerId roomId selfId =
     (case (parseDmRoomId roomId, selfId) of
        (Some (a, b), Some self) \<Rightarrow>
          (if self = [] then None else if a = self then Some b else if b = self then Some a else None)
      | _ \<Rightarrow> None)"

definition is_human_id :: "string \<Rightarrow> bool" where
  "is_human_id s \<longleftrightarrow> startsWith s ''hu_''"

section \<open>Names of direct conversations\<close>

record dm_contact =
  dm_agentId :: string
  dm_alias :: "string option"
  dm_displayName :: string

record dm_member =
  mb_agentId :: "string option"
  mb_displayName :: string

definition dmMemberNames :: "string \<Rightarrow> dm_member list option \<Rightarrow> (string \<times> string) option" where
  "dmMemberNames roomId members =
     (case (parseDmRoomId roomId, members) of
        (Some (a, b), Some ms) \<Rightarrow>
          if length ms < 2 then None
          else
            (let names = map_of (rev (map (\<lambda>m. (the (mb_agentId m), trim (mb_displayName m)))
                            (filter (\<lambda>m. has_text (mb_agentId m) \<and> trim (mb_displayName m) \<noteq> []) ms)))
             in case (names a, names b) of (Some x, Some y) \<Rightarrow> Some (x, y) | _ \<Rightarrow> None)
      | _ \<Rightarrow> None)"

text \<open>The title in English; the Chinese title only differs in its fixed text.\<close>

definition observedBotDmTitle :: "string \<Rightarrow> dm_member list option \<Rightarrow> string option" where
  "observedBotDmTitle roomId members =
     (case parseDmRoomId roomId of
        Some (a, b) \<Rightarrow>
          (if startsWith a ''ag_'' \<and> startsWith b ''ag_''
           then (case dmMemberNames roomId members of
                   Some (x, y) \<Rightarrow> Some (x @ '' & '' @ y @ '' private chat'')
                 | None \<Rightarrow> None)
           else None)
      | None \<Rightarrow> None)"

definition or_str :: "string \<Rightarrow> string \<Rightarrow> string" where
  "or_str s t = (if s \<noteq> [] then s else t)"

definition resolveDmDisplayName ::
  "string \<Rightarrow> string option \<Rightarrow> dm_contact list \<Rightarrow> string \<Rightarrow> dm_member list option \<Rightarrow> string" where
  "resolveDmDisplayName roomId selfId contacts fallback members =
     (case dmPeerId roomId selfId of
        Some peer \<Rightarrow>
          (case find (\<lambda>c. dm_agentId c = peer) contacts of
             Some c \<Rightarrow> or_str (case dm_alias c of Some a \<Rightarrow> a | None \<Rightarrow> []) (or_str (dm_displayName c) peer)
           | None \<Rightarrow>
               (case members of
                  Some ms \<Rightarrow>
                    (case find (\<lambda>m. mb_agentId m = Some peer \<and> trim (mb_displayName m) \<noteq> []) ms of
                       Some m \<Rightarrow> or_str (trim (mb_displayName m)) peer
                     | None \<Rightarrow> peer)
                | None \<Rightarrow> peer))
      | None \<Rightarrow>
          (case observedBotDmTitle roomId members of Some t \<Rightarrow> or_str t fallback | None \<Rightarrow> fallback))"

section \<open>Merging the lists\<close>

definition inferPeerTypeForHumanRoom :: "human_room \<Rightarrow> participant option" where
  "inferPeerTypeForHumanRoom room =
     (if (case hr_memberCount room of Some n \<Rightarrow> n | None \<Rightarrow> 0) > 2 then None
      else case parseDmRoomId (hr_id room) of
             None \<Rightarrow> None
           | Some (a, b) \<Rightarrow> Some (if is_human_id a \<and> is_human_id b then PHuman else PAgent))"

definition humanRoomToDashboardRoom :: "human_room \<Rightarrow> dash_room" where
  "humanRoomToDashboardRoom r =
     \<lparr>dr_id = hr_id r, dr_owner = hr_owner r, dr_ownerType = Some (hr_ownerType r), dr_myRole = hr_myRole r,
      dr_createdAt = hr_createdAt r, dr_lastMessageAt = hr_lastMessageAt r, dr_hasUnread = False,
      dr_peerType = inferPeerTypeForHumanRoom r, dr_origin = None, dr_spaceId = None\<rparr>"

definition excludeSpaceRooms :: "dash_room list \<Rightarrow> human_room list \<Rightarrow> dash_room list \<times> human_room list" where
  "excludeSpaceRooms agentRooms humanRooms =
     (let spaceIds = map dr_id (filter isSpaceRoom agentRooms)
      in (if spaceIds \<noteq> [] then filter (\<lambda>r. dr_id r \<notin> set spaceIds) agentRooms else agentRooms,
          filter (\<lambda>r. \<not> has_text (hr_spaceId r) \<and> hr_id r \<notin> set spaceIds \<and> \<not> isSpaceRoomId (hr_id r)) humanRooms))"

definition mergeDashboardRoomsWithHumanRooms ::
  "(string \<Rightarrow> int option) \<Rightarrow> dash_room list \<Rightarrow> human_room list \<Rightarrow> dash_room list" where
  "mergeDashboardRoomsWithHumanRooms dp allAgentRooms allHumanRooms =
     (case excludeSpaceRooms allAgentRooms allHumanRooms of
        (agentRooms, humanRooms) \<Rightarrow>
          (if humanRooms = [] then by_activity dp agentRooms
           else by_activity dp (agentRooms @
             map humanRoomToDashboardRoom (filter (\<lambda>r. hr_id r \<notin> dr_id ` set agentRooms) humanRooms))))"

definition isRoomOwnedByCurrentViewer :: "dash_room \<Rightarrow> string option \<Rightarrow> string option \<Rightarrow> bool" where
  "isRoomOwnedByCurrentViewer room activeAgentId humanId \<longleftrightarrow>
     (let ownerType = (case dr_ownerType room of Some t \<Rightarrow> t | None \<Rightarrow> PAgent);
          viewer = (if ownerType = PHuman then humanId else activeAgentId)
      in has_text viewer \<and> viewer = Some (dr_owner room))"

definition buildVisibleMessageRooms ::
  "(string \<Rightarrow> int option) \<Rightarrow> string option \<Rightarrow> dash_room list \<Rightarrow> public_room list \<Rightarrow> human_room list \<Rightarrow> dash_room list" where
  "buildVisibleMessageRooms dp token overviewRooms recentVisitedRooms humanRooms =
     (if \<not> has_text token then []
      else
        (let joined = filter (\<lambda>r. \<not> ownerChatRoomId (dr_id r)) overviewRooms;
             recent = map toRoomSummary
               (filter (\<lambda>r. pr_id r \<notin> dr_id ` set joined \<and> \<not> ownerChatRoomId (pr_id r)) recentVisitedRooms);
             human = filter (\<lambda>r. \<not> ownerChatRoomId (hr_id r)) humanRooms
         in mergeDashboardRoomsWithHumanRooms dp (joined @ recent) human))"

text \<open>\<open>messages-merge.ts\<close>: the rooms of the owner's bots are added to the rooms of the owner.\<close>

definition originFor :: "agent_room \<Rightarrow> (string \<times> string) option" where
  "originFor room = (case ar_bots room of b # _ \<Rightarrow> Some (bt_agentId b, bt_displayName b) | [] \<Rightarrow> None)"

definition inferPeerTypeForOwnedAgentRoom :: "agent_room \<Rightarrow> participant option" where
  "inferPeerTypeForOwnedAgentRoom room =
     (if (case ar_memberCount room of Some n \<Rightarrow> n | None \<Rightarrow> 0) > 2 then None
      else case parseDmRoomId (ar_id room) of
             None \<Rightarrow> None
           | Some (a, b) \<Rightarrow>
               (let peer = (if a \<in> bt_agentId ` set (ar_bots room) then b else a)
                in Some (if is_human_id peer then PHuman else PAgent)))"

definition ownedAgentRoomToDashboardRoom :: "agent_room \<Rightarrow> dash_room" where
  "ownedAgentRoomToDashboardRoom room =
     \<lparr>dr_id = ar_id room, dr_owner = ar_owner room, dr_ownerType = Some PAgent,
      dr_myRole = (case ar_bots room of b # _ \<Rightarrow> bt_role b | [] \<Rightarrow> ''member''),
      dr_createdAt = ar_createdAt room, dr_lastMessageAt = ar_lastMessageAt room, dr_hasUnread = False,
      dr_peerType = (if ownerChatRoomId (ar_id room) then Some PAgent else inferPeerTypeForOwnedAgentRoom room),
      dr_origin = originFor room, dr_spaceId = None\<rparr>"

definition isPrivateMessageRoom :: "string \<Rightarrow> bool" where
  "isPrivateMessageRoom roomId \<longleftrightarrow> startsWith roomId ''rm_dm_'' \<or> ownerChatRoomId roomId"

definition mergeOwnerVisibleRooms :: "(string \<Rightarrow> int option) \<Rightarrow> dash_room list \<Rightarrow> agent_room list \<Rightarrow> dash_room list" where
  "mergeOwnerVisibleRooms dp ownRooms ownedAgentRooms =
     by_activity dp (ownRooms @ map ownedAgentRoomToDashboardRoom
       (filter (\<lambda>r. ar_id r \<notin> dr_id ` set ownRooms \<or> \<not> isPrivateMessageRoom (ar_id r)) ownedAgentRooms))"

section \<open>Filters\<close>

datatype messages_filter =
    SelfAll | SelfMyBot | SelfThirdBot | SelfHuman | SelfGroup
  | BotsAll | BotsBotBot | BotsBotHuman | BotsGroup

definition hasOwnedAgentParticipant :: "dash_room \<Rightarrow> string list \<Rightarrow> bool" where
  "hasOwnedAgentParticipant room owned \<longleftrightarrow>
     dr_owner room \<in> set owned
     \<or> (case parseDmRoomId (dr_id room) of Some (a, b) \<Rightarrow> a \<in> set owned \<or> b \<in> set owned | None \<Rightarrow> False)
     \<or> list_ex (\<lambda>agentId. includes_str (dr_id room) agentId) owned"

definition inferDmPeerType :: "dash_room \<Rightarrow> participant option" where
  "inferDmPeerType room =
     (case dr_peerType room of
        Some t \<Rightarrow> Some t
      | None \<Rightarrow>
          (case parseDmRoomId (dr_id room) of
             None \<Rightarrow> None
           | Some (a, b) \<Rightarrow>
               (if is_human_id a \<and> is_human_id b then Some PHuman
                else if \<not> is_human_id a \<and> \<not> is_human_id b then Some PAgent
                else if dr_origin room \<noteq> None then Some PHuman
                else Some PAgent)))"

definition classifyMessagesRoom :: "dash_room \<Rightarrow> string list \<Rightarrow> messages_filter" where
  "classifyMessagesRoom room owned =
     (if ownerChatRoomId (dr_id room) then SelfMyBot
      else
        let isPrivate = isPrivateMessageRoom (dr_id room);
            peer = (if isPrivate then inferDmPeerType room else None)
        in if dr_origin room \<noteq> None
           then (if \<not> isPrivate then BotsGroup else if peer = Some PHuman then BotsBotHuman else BotsBotBot)
           else if \<not> isPrivate then SelfGroup
           else if peer = Some PHuman then SelfHuman
           else if hasOwnedAgentParticipant room owned then SelfMyBot
           else SelfThirdBot)"

definition applyMessagesFilter :: "dash_room list \<Rightarrow> messages_filter \<Rightarrow> string list \<Rightarrow> dash_room list" where
  "applyMessagesFilter rooms key owned =
     (if key = SelfAll then filter (\<lambda>r. dr_origin r = None \<or> ownerChatRoomId (dr_id r)) rooms
      else if key = BotsAll then filter (\<lambda>r. dr_origin r \<noteq> None \<and> \<not> ownerChatRoomId (dr_id r)) rooms
      else filter (\<lambda>r. classifyMessagesRoom r owned = key) rooms)"

text \<open>\<open>key.startsWith("self-")\<close>\<close>

fun self_key :: "messages_filter \<Rightarrow> bool" where
  "self_key SelfAll = True"
| "self_key SelfMyBot = True"
| "self_key SelfThirdBot = True"
| "self_key SelfHuman = True"
| "self_key SelfGroup = True"
| "self_key _ = False"

definition count_room :: "string list \<Rightarrow> dash_room \<Rightarrow> (messages_filter \<Rightarrow> nat) \<Rightarrow> messages_filter \<Rightarrow> nat" where
  "count_room owned room counts =
     (let key = classifyMessagesRoom room owned;
          c1 = counts(key := counts key + 1);
          total = (if self_key key then SelfAll else BotsAll)
      in c1(total := c1 total + 1))"

definition countMessagesByFilter :: "dash_room list \<Rightarrow> string list \<Rightarrow> messages_filter \<Rightarrow> nat" where
  "countMessagesByFilter rooms owned = fold (count_room owned) rooms (\<lambda>_. 0)"


section \<open>The counts are those of the filtered lists\<close>

lemma classify_leaf: "classifyMessagesRoom room owned \<notin> {SelfAll, BotsAll}"
  by (simp add: classifyMessagesRoom_def Let_def)

lemma self_classify:
  "self_key (classifyMessagesRoom room owned) \<longleftrightarrow> dr_origin room = None \<or> ownerChatRoomId (dr_id room)"
  by (cases "dr_origin room") (simp_all add: classifyMessagesRoom_def Let_def)

lemma in_filter_iff:
  "room \<in> set (applyMessagesFilter [room] key owned) \<longleftrightarrow>
     (if key = SelfAll then self_key (classifyMessagesRoom room owned)
      else if key = BotsAll then \<not> self_key (classifyMessagesRoom room owned)
      else classifyMessagesRoom room owned = key)"
  by (cases "dr_origin room") (simp_all add: applyMessagesFilter_def self_classify)

lemma filter_Cons:
  "applyMessagesFilter (room # rooms) key owned = applyMessagesFilter [room] key owned @ applyMessagesFilter rooms key owned"
  by (simp add: applyMessagesFilter_def)

lemma count_room_filter:
  "count_room owned room counts key = counts key + length (applyMessagesFilter [room] key owned)"
  using classify_leaf[of room owned] self_classify[of room owned]
  by (cases key) (auto simp: count_room_def applyMessagesFilter_def Let_def)

lemma count_fold_filter:
  "fold (count_room owned) rooms counts key = counts key + length (applyMessagesFilter rooms key owned)"
proof (induction rooms arbitrary: counts)
  case (Cons room rooms)
  then show ?case by (simp add: count_room_filter filter_Cons[of room rooms])
qed (simp add: applyMessagesFilter_def)

text \<open>The badge of every filter is the number of rooms the filter shows, for the two aggregates as for the single
  filters, although the counts are made in one pass and the lists by separate conditions.\<close>

theorem counts_match_filters:
  "countMessagesByFilter rooms owned key = length (applyMessagesFilter rooms key owned)"
  by (simp add: countMessagesByFilter_def count_fold_filter)

text \<open>Every room is in exactly one single filter, and in the aggregate of its side.\<close>

lemma one_filter_per_room:
  assumes "key \<noteq> SelfAll" "key \<noteq> BotsAll"
  shows "room \<in> set (applyMessagesFilter [room] key owned) \<longleftrightarrow> key = classifyMessagesRoom room owned"
    "room \<in> set (applyMessagesFilter [room] SelfAll owned) \<longleftrightarrow> room \<notin> set (applyMessagesFilter [room] BotsAll owned)"
  using assms by (auto simp: in_filter_iff)

section \<open>The merged lists\<close>

lemma set_by_activity [simp]: "set (by_activity dp rooms) = set rooms"
  by (simp add: by_activity_def)

lemma mset_by_activity [simp]: "mset (by_activity dp rooms) = mset rooms"
  by (simp add: by_activity_def)

lemma by_activity_sorted:
  "sorted_wrt (\<lambda>a b. getRoomActivityTimestamp dp b \<le> getRoomActivityTimestamp dp a) (by_activity dp rooms)"
proof -
  have "sorted (map (\<lambda>r. - getRoomActivityTimestamp dp r) (by_activity dp rooms))"
    by (simp add: by_activity_def)
  then show ?thesis by (simp add: sorted_map)
qed

lemma distinct_by_activity: "distinct (map f (by_activity dp rooms)) \<longleftrightarrow> distinct (map f rooms)"
proof -
  have "mset (map f (by_activity dp rooms)) = mset (map f rooms)" by simp
  then show ?thesis by (metis mset_eq_imp_distinct_iff)
qed

lemma merged_as_one:
  "mergeDashboardRoomsWithHumanRooms dp ars hrs =
     by_activity dp (fst (excludeSpaceRooms ars hrs) @ map humanRoomToDashboardRoom
       (filter (\<lambda>r. hr_id r \<notin> dr_id ` set (fst (excludeSpaceRooms ars hrs))) (snd (excludeSpaceRooms ars hrs))))"
  by (cases "excludeSpaceRooms ars hrs") (simp add: mergeDashboardRoomsWithHumanRooms_def)

lemma excluded_agents: "fst (excludeSpaceRooms ars hrs) = filter (\<lambda>r. dr_id r \<notin> dr_id ` set (filter isSpaceRoom ars)) ars"
proof (cases "filter isSpaceRoom ars = []")
  case True
  then have "filter (\<lambda>r. dr_id r \<notin> dr_id ` set (filter isSpaceRoom ars)) ars = ars" by simp
  then show ?thesis using True by (simp add: excludeSpaceRooms_def Let_def)
qed (simp add: excludeSpaceRooms_def Let_def)

lemma excluded_humans:
  "set (snd (excludeSpaceRooms ars hrs)) =
     {r \<in> set hrs. \<not> has_text (hr_spaceId r) \<and> hr_id r \<notin> dr_id ` set (filter isSpaceRoom ars) \<and> \<not> isSpaceRoomId (hr_id r)}"
  by (auto simp: excludeSpaceRooms_def Let_def)

lemma merged_members:
  assumes "r \<in> set (mergeDashboardRoomsWithHumanRooms dp ars hrs)"
  shows "(r \<in> set ars \<and> \<not> isSpaceRoom r) \<or> (\<exists>h \<in> set hrs. r = humanRoomToDashboardRoom h \<and> \<not> isSpaceRoomId (hr_id h))"
  using assms by (auto simp: merged_as_one excluded_agents excluded_humans)

text \<open>The personal list shows no room twice, when none of its sources names a room twice.\<close>

lemma merged_distinct:
  assumes "distinct (map dr_id ars)" "distinct (map hr_id hrs)"
  shows "distinct (map dr_id (mergeDashboardRoomsWithHumanRooms dp ars hrs))"
proof -
  let ?a = "fst (excludeSpaceRooms ars hrs)" and ?h = "snd (excludeSpaceRooms ars hrs)"
  have ids: "dr_id \<circ> humanRoomToDashboardRoom = hr_id" by (simp add: fun_eq_iff humanRoomToDashboardRoom_def)
  have "distinct (map dr_id ?a)" using assms(1) by (simp add: excluded_agents distinct_map_filter)
  moreover have "distinct (map hr_id ?h)" using assms(2) by (simp add: excludeSpaceRooms_def Let_def distinct_map_filter)
  ultimately show ?thesis
    by (auto simp: merged_as_one distinct_by_activity ids distinct_map_filter) (metis imageI)
qed

text \<open>The message list of a viewer holds no conversation of an organization and no chat of the owner with a bot, shows
  the most recent activity first and, when no source names a room twice, every room once.\<close>

theorem visible_rooms_personal:
  assumes "distinct (map dr_id overviewRooms)" "distinct (map pr_id recentRooms)" "distinct (map hr_id humanRooms)"
  shows "(\<forall>r \<in> set (buildVisibleMessageRooms dp token overviewRooms recentRooms humanRooms).
            \<not> isSpaceRoom r \<and> \<not> ownerChatRoomId (dr_id r))
       \<and> distinct (map dr_id (buildVisibleMessageRooms dp token overviewRooms recentRooms humanRooms))
       \<and> sorted_wrt (\<lambda>a b. getRoomActivityTimestamp dp b \<le> getRoomActivityTimestamp dp a)
            (buildVisibleMessageRooms dp token overviewRooms recentRooms humanRooms)"
proof (cases "has_text token")
  case True
  define joined where "joined = filter (\<lambda>r. \<not> ownerChatRoomId (dr_id r)) overviewRooms"
  define recent where "recent = map toRoomSummary
    (filter (\<lambda>r. pr_id r \<notin> dr_id ` set joined \<and> \<not> ownerChatRoomId (pr_id r)) recentRooms)"
  define human where "human = filter (\<lambda>r. \<not> ownerChatRoomId (hr_id r)) humanRooms"
  have built: "buildVisibleMessageRooms dp token overviewRooms recentRooms humanRooms
      = mergeDashboardRoomsWithHumanRooms dp (joined @ recent) human"
    using True by (simp add: buildVisibleMessageRooms_def joined_def recent_def human_def Let_def)
  have ids: "map dr_id recent = map pr_id (filter (\<lambda>r. pr_id r \<notin> dr_id ` set joined \<and> \<not> ownerChatRoomId (pr_id r)) recentRooms)"
    by (simp add: recent_def toRoomSummary_def)
  have "set (map dr_id recent) \<inter> dr_id ` set joined = {}" unfolding ids by auto
  moreover have "distinct (map dr_id recent)" "distinct (map dr_id joined)"
    using assms unfolding ids by (simp_all add: distinct_map_filter joined_def)
  ultimately have d: "distinct (map dr_id (joined @ recent))" "distinct (map hr_id human)"
    using assms(3) by (auto simp: human_def distinct_map_filter)
  have oc: "\<not> ownerChatRoomId (dr_id r)" if "r \<in> set (joined @ recent)" for r
    using that by (auto simp: joined_def recent_def toRoomSummary_def)
  have "\<not> isSpaceRoom r \<and> \<not> ownerChatRoomId (dr_id r)"
    if "r \<in> set (mergeDashboardRoomsWithHumanRooms dp (joined @ recent) human)" for r
    using merged_members[OF that] oc
    by (auto simp: human_def humanRoomToDashboardRoom_def isSpaceRoom_def has_text_def)
  moreover note merged_distinct[OF d, of dp]
  moreover have "sorted_wrt (\<lambda>a b. getRoomActivityTimestamp dp b \<le> getRoomActivityTimestamp dp a)
      (mergeDashboardRoomsWithHumanRooms dp (joined @ recent) human)"
    unfolding merged_as_one by (rule by_activity_sorted)
  ultimately show ?thesis unfolding built by blast
qed (simp add: buildVisibleMessageRooms_def)

definition sample_room :: "string \<Rightarrow> dash_room" where
  "sample_room i = \<lparr>dr_id = i, dr_owner = ''hu_9'', dr_ownerType = Some PHuman, dr_myRole = ''owner'', dr_createdAt = None,
     dr_lastMessageAt = None, dr_hasUnread = False, dr_peerType = None, dr_origin = None, dr_spaceId = None\<rparr>"

theorem visible_rooms_personal_witness:
  "map dr_id (buildVisibleMessageRooms (\<lambda>_. None) (Some ''t'') [sample_room ''rm_1'', sample_room ''rm_oc_2'', sample_room ''rm_sdm_3''] [] [])
     = [''rm_1'']
   \<and> distinct (map dr_id (buildVisibleMessageRooms (\<lambda>_. None) (Some ''t'')
        [sample_room ''rm_1'', sample_room ''rm_oc_2'', sample_room ''rm_sdm_3''] [] []))"
proof -
  have "map dr_id (buildVisibleMessageRooms (\<lambda>_. None) (Some ''t'')
      [sample_room ''rm_1'', sample_room ''rm_oc_2'', sample_room ''rm_sdm_3''] [] []) = [''rm_1'']"
    by code_simp
  moreover have "distinct (map dr_id [sample_room ''rm_1'', sample_room ''rm_oc_2'', sample_room ''rm_sdm_3''])"
    by (simp add: sample_room_def)
  ultimately show ?thesis using visible_rooms_personal[of _ "[]" "[]" "\<lambda>_. None" "Some ''t''"] by simp
qed

text \<open>The list of the owner keeps every room of the owner and of the bots; a private conversation that is already the
  owner's own is not listed again under a bot.\<close>

lemma owner_rooms_complete:
  "mset (mergeOwnerVisibleRooms dp own owned) = mset own + mset (map ownedAgentRoomToDashboardRoom
     (filter (\<lambda>r. ar_id r \<notin> dr_id ` set own \<or> \<not> isPrivateMessageRoom (ar_id r)) owned))"
  "dr_id ` set (mergeOwnerVisibleRooms dp own owned) = dr_id ` set own \<union> ar_id ` set owned"
proof -
  have "dr_id (ownedAgentRoomToDashboardRoom r) = ar_id r" for r by (simp add: ownedAgentRoomToDashboardRoom_def)
  then show "dr_id ` set (mergeOwnerVisibleRooms dp own owned) = dr_id ` set own \<union> ar_id ` set owned"
    by (force simp: mergeOwnerVisibleRooms_def image_Un image_image)
qed (simp add: mergeOwnerVisibleRooms_def)

lemma private_rooms_once:
  assumes "distinct (map dr_id own)" "distinct (map ar_id owned)"
  shows "distinct (map dr_id (filter (\<lambda>r. isPrivateMessageRoom (dr_id r)) (mergeOwnerVisibleRooms dp own owned)))"
proof -
  let ?conv = ownedAgentRoomToDashboardRoom
  let ?keep = "filter (\<lambda>r. ar_id r \<notin> dr_id ` set own \<or> \<not> isPrivateMessageRoom (ar_id r)) owned"
  let ?all = "own @ map ?conv ?keep"
  have ids: "dr_id (?conv r) = ar_id r" for r by (simp add: ownedAgentRoomToDashboardRoom_def)
  have m: "map dr_id (filter (\<lambda>r. isPrivateMessageRoom (dr_id r)) (map ?conv ?keep)) = map ar_id (filter (\<lambda>r. isPrivateMessageRoom (ar_id r)) ?keep)"
    by (simp add: filter_map comp_def ids)
  have "distinct (map ar_id (filter (\<lambda>r. isPrivateMessageRoom (ar_id r)) ?keep))"
    "distinct (map dr_id (filter (\<lambda>r. isPrivateMessageRoom (dr_id r)) own))"
    using assms by (simp_all only: distinct_map_filter)
  moreover have "set (map dr_id (filter (\<lambda>r. isPrivateMessageRoom (dr_id r)) own))
      \<inter> set (map ar_id (filter (\<lambda>r. isPrivateMessageRoom (ar_id r)) ?keep)) = {}" by (auto, metis imageI)
  ultimately have "distinct (map dr_id (filter (\<lambda>r. isPrivateMessageRoom (dr_id r)) ?all))"
    unfolding filter_append map_append distinct_append m by blast
  moreover have eq: "mset (map dr_id (filter (\<lambda>r. isPrivateMessageRoom (dr_id r)) (mergeOwnerVisibleRooms dp own owned)))
      = mset (map dr_id (filter (\<lambda>r. isPrivateMessageRoom (dr_id r)) ?all))"
    by (simp add: mergeOwnerVisibleRooms_def mset_filter)
  ultimately show ?thesis using mset_eq_imp_distinct_iff[OF eq] by simp
qed

section \<open>Direct conversations\<close>

definition dm_id :: "string \<Rightarrow> bool" where
  "dm_id s \<longleftrightarrow> (\<exists>p x. p \<in> {''ag'', ''hu''} \<and> x \<noteq> [] \<and> list_all id_char x \<and> s = p @ ''_'' @ x)"

lemma id_char_no_underscore: "list_all id_char x \<Longrightarrow> CHR ''_'' \<notin> set x"
  by (auto simp: list_all_iff id_char_def Let_def)

text \<open>The id of a direct conversation is made of the ids of its two members, and reading it gives them back.\<close>

lemma dm_room_round_trip:
  assumes "dm_id a" "dm_id b"
  shows "parseDmRoomId (''rm_dm_'' @ a @ ''_'' @ b) = Some (a, b)"
proof -
  obtain p x where a: "p \<in> {''ag'', ''hu''}" "x \<noteq> []" "list_all id_char x" "a = p @ ''_'' @ x" using assms(1) by (auto simp: dm_id_def)
  obtain q y where b: "q \<in> {''ag'', ''hu''}" "y \<noteq> []" "list_all id_char y" "b = q @ ''_'' @ y" using assms(2) by (auto simp: dm_id_def)
  have "CHR ''_'' \<notin> set p" "CHR ''_'' \<notin> set q" using a(1) b(1) by auto
  then have "split_on (CHR ''_'') (p @ CHR ''_'' # x @ CHR ''_'' # q @ CHR ''_'' # y) = [p, x, q, y]"
    using id_char_no_underscore[OF a(3)] id_char_no_underscore[OF b(3)] by (simp add: split_on_append_sep split_on_no_sep)
  then show ?thesis using a b by (simp add: parseDmRoomId_def startsWith_def)
qed

lemma dm_peer_of_member:
  assumes "dm_id a" "dm_id b"
  shows "dmPeerId (''rm_dm_'' @ a @ ''_'' @ b) (Some a) = Some b"
    "a \<noteq> b \<Longrightarrow> dmPeerId (''rm_dm_'' @ a @ ''_'' @ b) (Some b) = Some a"
  using assms dm_room_round_trip[OF assms] by (auto simp: dmPeerId_def dm_id_def)

text \<open>An id of an own bot that begins the id of another bot makes the conversation with that other bot count as one with
  the own bot: the last test looks for the id anywhere in the name of the room.\<close>

lemma foreign_bot_counts_as_own:
  "let room = sample_room ''rm_dm_ag_12_hu_9''
   in parseDmRoomId (dr_id room) = Some (''ag_12'', ''hu_9'') \<and> classifyMessagesRoom room [''ag_1''] = SelfMyBot"
  by code_simp

end
