(* ===== verification/Dashboard_State.thy ===== *)
theory Dashboard_State
  imports Dashboard_Rooms
begin

text \<open>
  Two stores of the dashboard: the presence of agents (\<open>frontend/src/store/usePresenceStore.ts\<close>) and the local
  marks of read and unread rooms (\<open>frontend/src/store/useDashboardUnreadStore.ts\<close>), with the requests of the
  latter that are still under way.

  Times are integers. A snapshot carries the time its \<open>updated_at\<close> denotes, \<open>None\<close> when there is none or it is
  no date. The directory of conversations, which the unread store patches and synchronizes, is the list of
  calls made to it.
\<close>

section \<open>Presence\<close>

datatype effective_status = Offline | Online | Busy | Away | Working

record presence_entry =
  pe_agentId :: string
  pe_version :: nat
  pe_status :: effective_status
  pe_connected :: bool
  pe_manualStatus :: "string option"
  pe_statusMessage :: "string option"
  pe_updatedAt :: int

record presence_snapshot =
  ps_agentId :: string
  ps_version :: "nat option"
  ps_status :: "effective_status option"
  ps_connected :: "bool option"
  ps_manualStatus :: "string option"
  ps_statusMessage :: "string option"
  ps_updatedAt :: "int option"

type_synonym presence_table = "string \<rightharpoonup> presence_entry"

definition snapshotToEntry :: "int \<Rightarrow> presence_snapshot \<Rightarrow> presence_entry" where
  "snapshotToEntry now s =
     \<lparr>pe_agentId = ps_agentId s, pe_version = (case ps_version s of Some v \<Rightarrow> v | None \<Rightarrow> 0),
      pe_status = (case ps_status s of Some t \<Rightarrow> t | None \<Rightarrow> Offline), pe_connected = (ps_connected s = Some True),
      pe_manualStatus = ps_manualStatus s, pe_statusMessage = ps_statusMessage s,
      pe_updatedAt = (case ps_updatedAt s of Some t \<Rightarrow> t | None \<Rightarrow> now)\<rparr>"

definition mergeEntry :: "presence_entry option \<Rightarrow> presence_entry \<Rightarrow> presence_entry option" where
  "mergeEntry prev new =
     (case prev of
        None \<Rightarrow> Some new
      | Some p \<Rightarrow>
          if pe_version new > 0 \<and> pe_version p \<ge> pe_version new then None
          else if pe_version new = 0 \<and> pe_version p > 0 then None
          else if pe_status p = pe_status new \<and> pe_connected p = pe_connected new \<and> pe_version p = pe_version new
             \<and> pe_manualStatus p = pe_manualStatus new then None
          else Some new)"

definition upsert_entry :: "presence_entry \<Rightarrow> presence_table \<Rightarrow> presence_table" where
  "upsert_entry new t = (case mergeEntry (t (pe_agentId new)) new of Some e \<Rightarrow> t(pe_agentId new \<mapsto> e) | None \<Rightarrow> t)"

definition upsertStatus :: "int \<Rightarrow> presence_snapshot \<Rightarrow> presence_table \<Rightarrow> presence_table" where
  "upsertStatus now s t = upsert_entry (snapshotToEntry now s) t"

definition upsertMany :: "int \<Rightarrow> presence_snapshot list \<Rightarrow> presence_table \<Rightarrow> presence_table" where
  "upsertMany now ss t = fold (\<lambda>s. upsert_entry (snapshotToEntry now s)) ss t"

definition online_entry :: "string \<Rightarrow> bool \<Rightarrow> int \<Rightarrow> presence_entry" where
  "online_entry agentId online updatedAt =
     \<lparr>pe_agentId = agentId, pe_version = 0, pe_status = (if online then Online else Offline), pe_connected = online,
      pe_manualStatus = None, pe_statusMessage = None, pe_updatedAt = updatedAt\<rparr>"

definition setOnline :: "string \<Rightarrow> bool \<Rightarrow> int \<Rightarrow> presence_table \<Rightarrow> presence_table" where
  "setOnline agentId online updatedAt t =
     (case t agentId of
        Some p \<Rightarrow> (if pe_version p > 0 \<or> pe_updatedAt p > updatedAt then t
                   else t(agentId \<mapsto> online_entry agentId online updatedAt))
      | None \<Rightarrow> t(agentId \<mapsto> online_entry agentId online updatedAt))"

definition seed_presence :: "int \<Rightarrow> (string \<times> bool) list \<Rightarrow> presence_table \<Rightarrow> presence_table" where
  "seed_presence now seeds t =
     fold (\<lambda>(agentId, online) m. if m agentId \<noteq> None then m else m(agentId \<mapsto> online_entry agentId online now)) seeds t"

text \<open>\<open>reset\<close> forgets everything; the events below are those between two resets.\<close>

definition reset_presence :: "presence_table \<Rightarrow> presence_table" where
  "reset_presence t = Map.empty"

definition usePresence :: "string option \<Rightarrow> presence_table \<Rightarrow> bool" where
  "usePresence agentId t \<longleftrightarrow>
     (case agentId of
        None \<Rightarrow> False
      | Some a \<Rightarrow> a \<noteq> [] \<and> (case t a of Some e \<Rightarrow> pe_status e \<noteq> Offline | None \<Rightarrow> False))"

definition usePresenceMap :: "string list \<Rightarrow> presence_table \<Rightarrow> (string \<times> bool) list" where
  "usePresenceMap agentIds t = map (\<lambda>a. (a, case t a of Some e \<Rightarrow> pe_status e \<noteq> Offline | None \<Rightarrow> False)) (remdups agentIds)"

datatype presence_event =
    PresUpsert int presence_snapshot
  | PresMany int "presence_snapshot list"
  | PresOnline string bool int
  | PresSeed int "(string \<times> bool) list"

fun presence_step :: "presence_event \<Rightarrow> presence_table \<Rightarrow> presence_table" where
  "presence_step (PresUpsert now s) t = upsertStatus now s t"
| "presence_step (PresMany now ss) t = upsertMany now ss t"
| "presence_step (PresOnline a b u) t = setOnline a b u t"
| "presence_step (PresSeed now seeds) t = seed_presence now seeds t"

section \<open>Read and unread rooms\<close>

datatype directory_call = PatchRead string | SyncDirectory

text \<open>A request of \<open>markRoomRead\<close> or \<open>markRoomSeen\<close> that is under way, with what it remembers.\<close>

datatype read_kind = ReadAction | SeenAction

record read_request =
  rr_kind :: read_kind
  rr_room :: string
  rr_generation :: nat
  rr_account :: string
  rr_version :: nat
  rr_wasSeen :: bool
  rr_wasUnread :: bool

record unread_state =
  us_pending :: "string list"
  us_seen :: "string list"
  us_unread :: "string list"
  us_lastMarked :: "string \<rightharpoonup> string"
  us_generation :: nat
  us_versions :: "string \<rightharpoonup> nat"
  us_account :: string
  us_requests :: "(nat \<times> read_request) list"
  us_directory :: "directory_call list"
  us_answers :: "(nat \<times> bool) list"

definition add_id :: "string \<Rightarrow> string list \<Rightarrow> string list" where
  "add_id r xs = (if r \<in> set xs then xs else xs @ [r])"

definition drop_id :: "string \<Rightarrow> string list \<Rightarrow> string list" where
  "drop_id r xs = filter (\<lambda>x. x \<noteq> r) xs"

definition isRoomUnread :: "string \<Rightarrow> bool \<Rightarrow> unread_state \<Rightarrow> bool" where
  "isRoomUnread r persisted s \<longleftrightarrow> (if r \<in> set (us_seen s) then False else persisted \<or> r \<in> set (us_unread s))"

definition room_version :: "string \<Rightarrow> unread_state \<Rightarrow> nat" where
  "room_version r s = (case us_versions s r of Some v \<Rightarrow> v | None \<Rightarrow> 0)"

definition bumpRoom :: "string \<Rightarrow> unread_state \<Rightarrow> unread_state" where
  "bumpRoom r s = s\<lparr>us_versions := (us_versions s)(r \<mapsto> room_version r s + 1)\<rparr>"

definition applyRealtimeEvent :: "string \<Rightarrow> string \<Rightarrow> unread_state \<Rightarrow> unread_state" where
  "applyRealtimeEvent room_id kind s =
     (if room_id = [] \<or> kind \<notin> {''message'', ''system''} then s
      else (bumpRoom room_id s)\<lparr>us_seen := drop_id room_id (us_seen s), us_unread := add_id room_id (us_unread s)\<rparr>)"

text \<open>A room that a response reports as read loses its local marks, unless a request for it is under way.\<close>

definition reconcile_room :: "string list \<Rightarrow> dash_room \<Rightarrow> unread_state \<Rightarrow> unread_state" where
  "reconcile_room pending room s =
     (if dr_id room \<in> set pending \<or> dr_hasUnread room then s
      else s\<lparr>us_seen := drop_id (dr_id room) (us_seen s), us_unread := drop_id (dr_id room) (us_unread s),
             us_lastMarked := (us_lastMarked s)(dr_id room := None)\<rparr>)"

definition reconcileUnreadRooms :: "dash_room list \<Rightarrow> unread_state \<Rightarrow> unread_state" where
  "reconcileUnreadRooms rooms s = fold (reconcile_room (us_pending s)) rooms s"

definition request_for :: "read_kind \<Rightarrow> string \<Rightarrow> unread_state \<Rightarrow> read_request" where
  "request_for kind r s =
     \<lparr>rr_kind = kind, rr_room = r, rr_generation = us_generation s, rr_account = us_account s,
      rr_version = room_version r s + 1, rr_wasSeen = r \<in> set (us_seen s), rr_wasUnread = r \<in> set (us_unread s)\<rparr>"

definition markRoomRead :: "nat \<Rightarrow> string \<Rightarrow> unread_state \<Rightarrow> unread_state" where
  "markRoomRead k r s =
     (if r \<in> set (us_pending s) then s\<lparr>us_answers := us_answers s @ [(k, True)]\<rparr>
      else (bumpRoom r s)\<lparr>us_pending := us_pending s @ [r], us_seen := add_id r (us_seen s),
             us_unread := drop_id r (us_unread s), us_requests := us_requests s @ [(k, request_for ReadAction r s)]\<rparr>)"

definition markRoomSeen :: "nat \<Rightarrow> string \<Rightarrow> string option \<Rightarrow> unread_state \<Rightarrow> unread_state" where
  "markRoomSeen k r seenAt s =
     (let given = has_text seenAt
      in if given \<and> us_lastMarked s r = seenAt then s
         else
           (let s1 = (bumpRoom r s)\<lparr>us_seen := add_id r (us_seen s), us_unread := drop_id r (us_unread s)\<rparr>
            in if \<not> given then s1
               else s1\<lparr>us_lastMarked := (us_lastMarked s)(r := seenAt),
                      us_requests := us_requests s @ [(k, request_for SeenAction r s)]\<rparr>))"

definition same_account :: "read_request \<Rightarrow> unread_state \<Rightarrow> bool" where
  "same_account q s \<longleftrightarrow> us_generation s = rr_generation q \<and> us_account s = rr_account q"

definition unchanged :: "read_request \<Rightarrow> unread_state \<Rightarrow> bool" where
  "unchanged q s \<longleftrightarrow> same_account q s \<and> us_versions s (rr_room q) = Some (rr_version q)"

definition restore_marks :: "read_request \<Rightarrow> unread_state \<Rightarrow> unread_state" where
  "restore_marks q s =
     s\<lparr>us_seen := drop_id (rr_room q) (us_seen s) @ (if rr_wasSeen q then [rr_room q] else []),
       us_unread := drop_id (rr_room q) (us_unread s) @ (if rr_wasUnread q then [rr_room q] else [])\<rparr>"

definition read_done :: "read_request \<Rightarrow> bool \<Rightarrow> unread_state \<Rightarrow> unread_state" where
  "read_done q ok s =
     (if \<not> same_account q s then s
      else
        (let s1 = (if ok
                   then s\<lparr>us_directory := us_directory s @ (if unchanged q s then [PatchRead (rr_room q)] else []) @ [SyncDirectory]\<rparr>
                   else if unchanged q s then restore_marks q s else s)
         in s1\<lparr>us_pending := drop_id (rr_room q) (us_pending s1)\<rparr>))"

definition seen_done :: "read_request \<Rightarrow> bool \<Rightarrow> unread_state \<Rightarrow> unread_state" where
  "seen_done q ok s =
     (if \<not> unchanged q s then s
      else if ok then s\<lparr>us_directory := us_directory s @ [PatchRead (rr_room q), SyncDirectory]\<rparr>
      else (restore_marks q s)\<lparr>us_lastMarked := (us_lastMarked s)(rr_room q := None)\<rparr>)"

text \<open>The answer of the Hub to the request \<open>k\<close>. The call of \<open>markRoomRead\<close> answers false only when the
  request failed for the account that is still shown.\<close>

definition api_answers :: "nat \<Rightarrow> bool \<Rightarrow> unread_state \<Rightarrow> unread_state" where
  "api_answers k ok s =
     (case map_of (us_requests s) k of
        None \<Rightarrow> s
      | Some q \<Rightarrow>
          (let s1 = s\<lparr>us_requests := filter (\<lambda>p. fst p \<noteq> k) (us_requests s)\<rparr>
           in case rr_kind q of
                ReadAction \<Rightarrow> (read_done q ok s1)\<lparr>us_answers := us_answers s @ [(k, ok \<or> \<not> same_account q s1)]\<rparr>
              | SeenAction \<Rightarrow> seen_done q ok s1))"

definition resetUnreadState :: "unread_state \<Rightarrow> unread_state" where
  "resetUnreadState s =
     s\<lparr>us_generation := us_generation s + 1, us_versions := Map.empty, us_pending := [], us_seen := [], us_unread := [],
       us_lastMarked := Map.empty\<rparr>"

datatype unread_event =
    UnRealtime string string
  | UnReconcile "dash_room list"
  | UnMarkRead nat string
  | UnMarkSeen nat string "string option"
  | UnAnswer nat bool
  | UnReset
  | UnAccount string

fun unread_step :: "unread_event \<Rightarrow> unread_state \<Rightarrow> unread_state" where
  "unread_step (UnRealtime r kind) s = applyRealtimeEvent r kind s"
| "unread_step (UnReconcile rooms) s = reconcileUnreadRooms rooms s"
| "unread_step (UnMarkRead k r) s = markRoomRead k r s"
| "unread_step (UnMarkSeen k r seenAt) s = markRoomSeen k r seenAt s"
| "unread_step (UnAnswer k ok) s = api_answers k ok s"
| "unread_step UnReset s = resetUnreadState s"
| "unread_step (UnAccount a) s = s\<lparr>us_account := a\<rparr>"

definition no_unread :: "string \<Rightarrow> unread_state" where
  "no_unread account =
     \<lparr>us_pending = [], us_seen = [], us_unread = [], us_lastMarked = Map.empty, us_generation = 0, us_versions = Map.empty,
      us_account = account, us_requests = [], us_directory = [], us_answers = []\<rparr>"


section \<open>Presence converges\<close>

definition version_of :: "presence_table \<Rightarrow> string \<Rightarrow> nat" where
  "version_of t a = (case t a of Some e \<Rightarrow> pe_version e | None \<Rightarrow> 0)"

lemma upsert_version: "version_of t a \<le> version_of (upsert_entry new t) a"
  by (auto simp: upsert_entry_def mergeEntry_def version_of_def split: option.splits)

lemma upsertMany_version: "version_of t a \<le> version_of (upsertMany now ss t) a"
proof (induction ss arbitrary: t)
  case (Cons s ss)
  have "version_of t a \<le> version_of (upsert_entry (snapshotToEntry now s) t) a" by (rule upsert_version)
  also have "\<dots> \<le> version_of (upsertMany now (s # ss) t) a" using Cons by (simp add: upsertMany_def)
  finally show ?case .
qed (simp add: upsertMany_def)

lemma seed_keeps: "t a = Some e \<Longrightarrow> seed_presence now seeds t a = Some e"
proof (induction seeds arbitrary: t)
  case (Cons p seeds)
  obtain b online where p: "p = (b, online)" by (cases p)
  let ?t = "if t b \<noteq> None then t else t(b \<mapsto> online_entry b online now)"
  have "?t a = Some e" using Cons.prems by auto
  with Cons.IH[of ?t] show ?case by (simp add: seed_presence_def p)
qed (simp add: seed_presence_def)

text \<open>No event takes an agent back to an older version.\<close>

lemma presence_version_grows: "version_of t a \<le> version_of (presence_step e t) a"
proof (cases e)
  case (PresSeed now seeds)
  then show ?thesis using seed_keeps[of t a _ now seeds] by (auto simp: version_of_def split: option.splits)
next
  case (PresOnline b online u)
  then show ?thesis by (auto simp: setOnline_def version_of_def split: option.splits)
qed (simp_all add: upsertStatus_def upsert_version upsertMany_version)

interpretation presence: open_machine presence_step "\<lambda>t. v \<le> version_of t a" for v a
  by unfold_locales (rule order_trans[OF _ presence_version_grows])

text \<open>The entry of an agent after a list of numbered snapshots: one of them, with the largest version.\<close>

definition newest_entry :: "int \<Rightarrow> presence_snapshot list \<Rightarrow> string \<Rightarrow> presence_entry option \<Rightarrow> bool" where
  "newest_entry now ss a found \<longleftrightarrow>
     (case found of
        None \<Rightarrow> \<forall>s \<in> set ss. ps_agentId s \<noteq> a
      | Some e \<Rightarrow> e \<in> snapshotToEntry now ` {s \<in> set ss. ps_agentId s = a}
          \<and> (\<forall>s \<in> set ss. ps_agentId s = a \<longrightarrow> pe_version (snapshotToEntry now s) \<le> pe_version e))"

lemma newest_upsert:
  assumes "newest_entry now ss a (t a)" "pe_version (snapshotToEntry now s) > 0"
  shows "newest_entry now (ss @ [s]) a (upsert_entry (snapshotToEntry now s) t a)"
proof -
  have id: "pe_agentId (snapshotToEntry now s) = ps_agentId s" by (simp add: snapshotToEntry_def)
  show ?thesis
  proof (cases "ps_agentId s = a")
    case False
    with assms(1) id show ?thesis
      by (auto simp: newest_entry_def upsert_entry_def split: option.splits)
  next
    case True
    with assms id show ?thesis
      by (auto simp: newest_entry_def upsert_entry_def mergeEntry_def split: option.splits)
  qed
qed

lemma newest_upsertMany:
  assumes "\<forall>s \<in> set ss. pe_version (snapshotToEntry now s) > 0"
  shows "newest_entry now ss a (upsertMany now ss Map.empty a)"
  using assms
proof (induction ss rule: rev_induct)
  case (snoc s ss)
  then show ?case using newest_upsert[of now ss a "upsertMany now ss Map.empty" s] by (simp add: upsertMany_def)
qed (simp add: newest_entry_def upsertMany_def)

lemma newest_entry_unique:
  assumes "newest_entry now ss a x" "newest_entry now ss' a y" "set ss = set ss'"
    and "inj_on (\<lambda>s. (ps_agentId s, pe_version (snapshotToEntry now s))) (set ss)"
  shows "x = y"
proof (cases x)
  case None
  with assms(1-3) show ?thesis by (cases y) (auto simp: newest_entry_def)
next
  case (Some e)
  from assms(1) Some obtain s where s: "s \<in> set ss" "ps_agentId s = a" "e = snapshotToEntry now s" by (auto simp: newest_entry_def)
  with assms(2,3) obtain e' where y: "y = Some e'" by (cases y) (auto simp: newest_entry_def)
  with assms(2,3) obtain s' where s': "s' \<in> set ss" "ps_agentId s' = a" "e' = snapshotToEntry now s'" by (auto simp: newest_entry_def)
  have "pe_version e = pe_version e'"
    using assms(1-3) Some y s s' by (auto simp: newest_entry_def intro!: antisym)
  then have "s = s'" using inj_onD[OF assms(4), of s s'] s s' by simp
  then show ?thesis using Some y s s' by simp
qed

text \<open>Presence converges: when the numbered snapshots of an agent have different versions, the order in which they
  arrive does not matter.\<close>

theorem presence_order_irrelevant:
  assumes "set ss = set ss'" "\<forall>s \<in> set ss. pe_version (snapshotToEntry now s) > 0"
    and "inj_on (\<lambda>s. (ps_agentId s, pe_version (snapshotToEntry now s))) (set ss)"
  shows "upsertMany now ss Map.empty = upsertMany now ss' Map.empty"
proof
  fix a
  have "newest_entry now ss a (upsertMany now ss Map.empty a)" "newest_entry now ss' a (upsertMany now ss' Map.empty a)"
    using assms(1,2) newest_upsertMany by auto
  from newest_entry_unique[OF this assms(1,3)] show "upsertMany now ss Map.empty a = upsertMany now ss' Map.empty a" .
qed

definition presence_sample :: "nat \<Rightarrow> effective_status \<Rightarrow> presence_snapshot" where
  "presence_sample v st = \<lparr>ps_agentId = ''ag_1'', ps_version = Some v, ps_status = Some st, ps_connected = Some True,
     ps_manualStatus = None, ps_statusMessage = None, ps_updatedAt = Some 0\<rparr>"

theorem presence_order_irrelevant_witness:
  "upsertMany 0 [presence_sample 1 Online, presence_sample 2 Busy] Map.empty
     = upsertMany 0 [presence_sample 2 Busy, presence_sample 1 Online] Map.empty"
  by (rule presence_order_irrelevant) (auto simp: presence_sample_def snapshotToEntry_def inj_on_def)

text \<open>Snapshots without a version replace one another whatever their times are, so an older one that arrives late wins.\<close>

lemma unnumbered_snapshot_out_of_order:
  assumes "t a = Some e" "pe_version e = 0" "ps_agentId s = a" "ps_version s = None" "ps_updatedAt s = Some u" "u < pe_updatedAt e"
    and "ps_status s = Some st" "st \<noteq> pe_status e"
  shows "\<exists>e'. upsertStatus now s t a = Some e' \<and> pe_updatedAt e' < pe_updatedAt e \<and> pe_status e' = st"
  using assms by (auto simp: upsertStatus_def upsert_entry_def mergeEntry_def snapshotToEntry_def)

section \<open>A newer message stays unread\<close>

lemma drop_id_simps [simp]: "set (drop_id r xs) = set xs - {r}" "distinct xs \<Longrightarrow> distinct (drop_id r xs)"
  by (auto simp: drop_id_def)

lemma add_id_simps [simp]: "set (add_id r xs) = insert r (set xs)" "distinct xs \<Longrightarrow> distinct (add_id r xs)"
  by (auto simp: add_id_def)

lemma reconcile_frame [simp]:
  "us_versions (reconcileUnreadRooms rooms s) = us_versions s" "us_requests (reconcileUnreadRooms rooms s) = us_requests s"
  "us_generation (reconcileUnreadRooms rooms s) = us_generation s"
proof -
  have "us_versions (fold (reconcile_room p) rooms s) = us_versions s \<and> us_requests (fold (reconcile_room p) rooms s) = us_requests s
      \<and> us_generation (fold (reconcile_room p) rooms s) = us_generation s" for p
    by (induction rooms arbitrary: s) (simp_all add: reconcile_room_def)
  then show "us_versions (reconcileUnreadRooms rooms s) = us_versions s" "us_requests (reconcileUnreadRooms rooms s) = us_requests s"
    "us_generation (reconcileUnreadRooms rooms s) = us_generation s"
    by (simp_all add: reconcileUnreadRooms_def)
qed

lemma read_done_frame [simp]:
  "us_versions (read_done q ok s) = us_versions s" "us_requests (read_done q ok s) = us_requests s"
  "us_generation (read_done q ok s) = us_generation s"
  by (simp_all add: read_done_def restore_marks_def Let_def)

lemma seen_done_frame [simp]:
  "us_versions (seen_done q ok s) = us_versions s" "us_requests (seen_done q ok s) = us_requests s"
  "us_generation (seen_done q ok s) = us_generation s"
  by (simp_all add: seen_done_def restore_marks_def)

lemma answer_frame [simp]:
  "us_versions (api_answers k ok s) = us_versions s" "set (us_requests (api_answers k ok s)) \<subseteq> set (us_requests s)"
  "us_generation (api_answers k ok s) = us_generation s"
  by (auto simp: api_answers_def Let_def split: option.splits read_kind.splits)

lemma room_version_bump [simp]:
  "room_version r (bumpRoom r' s) = (if r = r' then room_version r s + 1 else room_version r s)"
  by (simp add: bumpRoom_def room_version_def)

text \<open>Requests remember a version that is not ahead of their room's, as long as the state has not been reset.\<close>

definition versions_inv :: "unread_state \<Rightarrow> bool" where
  "versions_inv s \<longleftrightarrow> (\<forall>(k, q) \<in> set (us_requests s).
     rr_generation q \<le> us_generation s \<and> (rr_generation q = us_generation s \<longrightarrow> rr_version q \<le> room_version (rr_room q) s))"

lemma versions_inv_mono:
  assumes "versions_inv s" "set (us_requests s') \<subseteq> set (us_requests s)" "us_generation s' = us_generation s"
    and "\<And>r. room_version r s \<le> room_version r s'"
  shows "versions_inv s'"
proof -
  have "rr_generation q \<le> us_generation s' \<and> (rr_generation q = us_generation s' \<longrightarrow> rr_version q \<le> room_version (rr_room q) s')"
    if "(k, q) \<in> set (us_requests s')" for k q
    using assms(1,3) assms(4)[of "rr_room q"] subsetD[OF assms(2) that] unfolding versions_inv_def by (auto dest!: bspec)
  then show ?thesis by (auto simp: versions_inv_def)
qed

lemma versions_inv_request:
  assumes "versions_inv s" "us_requests s' = us_requests s @ [(k, request_for kind r s)]" "us_generation s' = us_generation s"
    and "\<And>x. room_version x s' = (if x = r then room_version x s + 1 else room_version x s)"
  shows "versions_inv s'"
proof -
  have "versions_inv (s'\<lparr>us_requests := us_requests s\<rparr>)"
    by (rule versions_inv_mono[OF assms(1)]) (simp_all add: assms(3,4)[unfolded room_version_def] room_version_def)
  then show ?thesis using assms(2-4) by (simp add: versions_inv_def request_for_def room_version_def)
qed

lemma versions_step: "versions_inv s \<Longrightarrow> versions_inv (unread_step ev s)"
proof (cases ev)
  case (UnRealtime r kind)
  assume "versions_inv s"
  then show ?thesis unfolding UnRealtime
    by (rule versions_inv_mono) (simp_all add: applyRealtimeEvent_def room_version_def bumpRoom_def)
next
  case (UnMarkRead k r)
  assume inv: "versions_inv s"
  show ?thesis
  proof (cases "r \<in> set (us_pending s)")
    case True
    with inv UnMarkRead show ?thesis by (simp add: markRoomRead_def versions_inv_def room_version_def)
  next
    case False
    then show ?thesis unfolding UnMarkRead unread_step.simps
      by (intro versions_inv_request[OF inv, of _ k ReadAction r]) (simp_all add: markRoomRead_def bumpRoom_def room_version_def)
  qed
next
  case (UnMarkSeen k r seenAt)
  assume inv: "versions_inv s"
  consider "has_text seenAt \<and> us_lastMarked s r = seenAt" | "\<not> has_text seenAt" | "has_text seenAt \<and> us_lastMarked s r \<noteq> seenAt" by blast
  then show ?thesis
  proof cases
    case 1
    with inv UnMarkSeen show ?thesis by (simp add: markRoomSeen_def Let_def)
  next
    case 2
    then show ?thesis unfolding UnMarkSeen unread_step.simps
      by (intro versions_inv_mono[OF inv]) (simp_all add: markRoomSeen_def bumpRoom_def room_version_def Let_def)
  next
    case 3
    then show ?thesis unfolding UnMarkSeen unread_step.simps
      by (intro versions_inv_request[OF inv, of _ k SeenAction r]) (simp_all add: markRoomSeen_def bumpRoom_def room_version_def Let_def)
  qed
next
  case UnReset
  assume "versions_inv s"
  then show ?thesis unfolding UnReset by (auto simp: versions_inv_def resetUnreadState_def)
next
  case (UnAnswer k ok)
  assume inv: "versions_inv s"
  show ?thesis unfolding UnAnswer unread_step.simps
    by (rule versions_inv_mono[OF inv answer_frame(2,3)]) (simp add: room_version_def)
qed (auto simp: versions_inv_def room_version_def)

interpretation unread: open_machine unread_step versions_inv
  by unfold_locales (rule versions_step)

definition newer_message :: "string \<Rightarrow> unread_state \<Rightarrow> bool" where
  "newer_message r s \<longleftrightarrow> r \<notin> set (us_seen s) \<and> r \<in> set (us_unread s)
     \<and> (\<forall>(k, q) \<in> set (us_requests s). rr_room q = r \<and> rr_generation q = us_generation s \<longrightarrow> rr_version q < room_version r s)"

text \<open>The events that do not themselves mark the room as read: neither the user nor a response of the Hub does, and the
  state is not reset.\<close>

fun leaves_room :: "string \<Rightarrow> unread_event \<Rightarrow> bool" where
  "leaves_room r (UnReconcile rooms) = list_all (\<lambda>room. dr_id room \<noteq> r \<or> dr_hasUnread room) rooms"
| "leaves_room r (UnMarkRead k r') = (r' \<noteq> r)"
| "leaves_room r (UnMarkSeen k r' seenAt) = (r' \<noteq> r)"
| "leaves_room r UnReset = False"
| "leaves_room r _ = True"

lemma reconcile_leaves:
  assumes "list_all (\<lambda>room. dr_id room \<noteq> r \<or> dr_hasUnread room) rooms"
  shows "r \<in> set (us_seen (reconcileUnreadRooms rooms s)) \<longleftrightarrow> r \<in> set (us_seen s)"
    "r \<in> set (us_unread (reconcileUnreadRooms rooms s)) \<longleftrightarrow> r \<in> set (us_unread s)"
proof -
  have "(r \<in> set (us_seen (fold (reconcile_room p) rooms s)) \<longleftrightarrow> r \<in> set (us_seen s))
      \<and> (r \<in> set (us_unread (fold (reconcile_room p) rooms s)) \<longleftrightarrow> r \<in> set (us_unread s))" for p
    using assms by (induction rooms arbitrary: s) (auto simp: reconcile_room_def)
  then show "r \<in> set (us_seen (reconcileUnreadRooms rooms s)) \<longleftrightarrow> r \<in> set (us_seen s)"
    "r \<in> set (us_unread (reconcileUnreadRooms rooms s)) \<longleftrightarrow> r \<in> set (us_unread s)"
    by (simp_all add: reconcileUnreadRooms_def)
qed

lemma answer_leaves:
  assumes "newer_message r s"
  shows "r \<in> set (us_seen (api_answers k ok s)) \<longleftrightarrow> r \<in> set (us_seen s)"
    "r \<in> set (us_unread (api_answers k ok s)) \<longleftrightarrow> r \<in> set (us_unread s)"
proof -
  have old: "\<not> unchanged q s'" if "(k, q) \<in> set (us_requests s)" "rr_room q = r" "us_versions s' = us_versions s"
    "us_generation s' = us_generation s" for q s'
    using assms that by (auto simp: newer_message_def unchanged_def same_account_def room_version_def)
  show "r \<in> set (us_seen (api_answers k ok s)) \<longleftrightarrow> r \<in> set (us_seen s)"
    "r \<in> set (us_unread (api_answers k ok s)) \<longleftrightarrow> r \<in> set (us_unread s)"
    by (auto simp: api_answers_def read_done_def seen_done_def restore_marks_def Let_def old
        dest!: map_of_SomeD split: option.splits read_kind.splits if_splits)
qed

lemma newer_step: "newer_message r s \<Longrightarrow> leaves_room r ev \<Longrightarrow> newer_message r (unread_step ev s)"
proof (cases ev)
  case (UnAnswer k ok)
  assume n: "newer_message r s"
  have "(a, b) \<in> set (us_requests s)" if "(a, b) \<in> set (us_requests (api_answers k ok s))" for a b
    using that answer_frame(2)[of k ok s] by blast
  with n answer_leaves[OF n, of k ok] show ?thesis unfolding UnAnswer newer_message_def
    by (fastforce simp: room_version_def)
next
  case (UnReconcile rooms)
  assume "newer_message r s" "leaves_room r ev"
  then show ?thesis using UnReconcile by (auto simp: newer_message_def reconcile_leaves room_version_def)
qed (auto simp: newer_message_def applyRealtimeEvent_def markRoomRead_def markRoomSeen_def request_for_def bumpRoom_def
      room_version_def Let_def split: if_splits)

interpretation newer: event_machine unread_step "leaves_room r" "newer_message r" for r
  by unfold_locales (rule newer_step)

text \<open>C37: A message that arrives while requests to mark its room as read are under way stays unread, whatever the answers to
  them are and in whatever order they come, until the room is marked again or the Hub reports it as read.\<close>

theorem newer_message_stays_unread:
  assumes "r \<noteq> []" "kind \<in> {''message'', ''system''}" "list_all (leaves_room r) after"
  shows "isRoomUnread r persisted (fold unread_step after (applyRealtimeEvent r kind (fold unread_step before (no_unread account))))"
proof -
  have "versions_inv (no_unread account)" by (simp add: versions_inv_def no_unread_def)
  from unread.open_run_keeps[OF this, of before] have "versions_inv (fold unread_step before (no_unread account))" .
  then have "newer_message r (applyRealtimeEvent r kind (fold unread_step before (no_unread account)))"
    using assms(1,2) by (auto simp: newer_message_def versions_inv_def applyRealtimeEvent_def room_version_def bumpRoom_def)
  from newer.run_keeps[OF this assms(3)] show ?thesis by (simp add: isRoomUnread_def newer_message_def)
qed

theorem newer_message_stays_unread_witness:
  "isRoomUnread ''rm_1'' False (fold unread_step [UnAnswer 1 True]
     (applyRealtimeEvent ''rm_1'' ''message'' (fold unread_step [UnMarkRead 1 ''rm_1''] (no_unread ''a''))))"
  by (rule newer_message_stays_unread) simp_all

section \<open>Failures and their traces\<close>

text \<open>A failed request takes its marks back: every room is read or unread as it was before.\<close>

lemma failed_read_restores:
  assumes "r \<notin> set (us_pending s)" "k \<notin> fst ` set (us_requests s)"
  shows "isRoomUnread x persisted (api_answers k False (markRoomRead k r s)) = isRoomUnread x persisted s"
    "set (us_pending (api_answers k False (markRoomRead k r s))) = set (us_pending s)"
proof -
  have "map_of (us_requests s @ [(k, q)]) k = Some q" for q
    using assms(2) by (simp add: map_add_def map_of_eq_None_iff[THEN iffD2])
  then show "isRoomUnread x persisted (api_answers k False (markRoomRead k r s)) = isRoomUnread x persisted s"
    "set (us_pending (api_answers k False (markRoomRead k r s))) = set (us_pending s)"
    using assms(1)
    by (auto simp: markRoomRead_def api_answers_def request_for_def read_done_def same_account_def unchanged_def restore_marks_def
        bumpRoom_def isRoomUnread_def room_version_def Let_def)
qed

text \<open>After a reset, as at a logout, no request of before touches the marks or the directory.\<close>

lemma reset_ends_requests:
  assumes "versions_inv s"
  shows "us_seen (api_answers k ok (resetUnreadState s)) = []" "us_unread (api_answers k ok (resetUnreadState s)) = []"
    "us_directory (api_answers k ok (resetUnreadState s)) = us_directory s"
proof -
  have "\<not> same_account q s'" if "map_of (us_requests s) k = Some q" "us_generation s' = Suc (us_generation s)" for q s'
    using assms map_of_SomeD[OF that(1)] that(2) by (auto simp: versions_inv_def same_account_def)
  then show "us_seen (api_answers k ok (resetUnreadState s)) = []" "us_unread (api_answers k ok (resetUnreadState s)) = []"
    "us_directory (api_answers k ok (resetUnreadState s)) = us_directory s"
    by (auto simp: api_answers_def resetUnreadState_def read_done_def seen_done_def unchanged_def Let_def
        split: option.splits read_kind.splits)
qed

text \<open>Marking a room as read again, while the first request is under way and a new message has arrived, reports success
  and does nothing: the room stays unread.\<close>

lemma second_read_action_lost:
  assumes "r \<in> set (us_pending s)" "r \<noteq> []"
  shows "let s1 = applyRealtimeEvent r ''message'' s; s2 = markRoomRead k r s1
         in us_answers s2 = us_answers s @ [(k, True)] \<and> isRoomUnread r persisted s2 \<and> us_requests s2 = us_requests s"
  using assms by (simp add: applyRealtimeEvent_def markRoomRead_def bumpRoom_def isRoomUnread_def)

text \<open>When the request for a time of reading fails after another event of the room, the time stays noted as marked, and
  seeing the room again at the same time sends nothing.\<close>

lemma failed_seen_not_retried:
  assumes "r \<noteq> []" "seenAt \<noteq> []" "us_lastMarked s r \<noteq> Some seenAt" "k \<notin> fst ` set (us_requests s)"
  shows "let s1 = api_answers k False (applyRealtimeEvent r ''system'' (markRoomSeen k r (Some seenAt) s))
         in markRoomSeen k2 r (Some seenAt) s1 = s1"
proof -
  have "map_of (us_requests s @ [(k, q)]) k = Some q" for q
    using assms(4) by (simp add: map_add_def map_of_eq_None_iff[THEN iffD2])
  then show ?thesis using assms
    by (simp add: markRoomSeen_def has_text_def applyRealtimeEvent_def api_answers_def request_for_def seen_done_def unchanged_def
        bumpRoom_def room_version_def Let_def)
qed

end
