(* ===== verification/Spec2Isabelle.thy ===== *)
theory Spec2Isabelle
  imports Js_Prelude Event_Machine Gateway_Types Routing Canonical_Json Execution_Policy Kv_Contract Attention Session_Store
    Response_Protocol Loop_Risk Batching Turn_Queue Auth_Breaker Park
    Js_Regex Runtime_Errors Runtime_Failure Turn_Stream Turn_Setup Turn_Run Turn_Safety Turn_Props Transcript Dispatch Ingress
    Control_Channel Channel_Manager Sanitize Turn_Text
    Botcord_Inbox Botcord_Socket Botcord_Blocks Botcord_Outbound Hub_Client Working_Memory User_Auth
    Daemon_Config System_Rules Cli_Runtime Codex_Runtime Claude_Runtime Cloud_Runtime Provider_State Telegram Wechat Dashboard_Rooms Dashboard_State
begin

text \<open>
  A verification development of the BotCord gateway: the TypeScript packages under \<open>src/packages/\<close>
  (\<open>daemon\<close>, \<open>gateway-ingress\<close> and \<open>protocol-core\<close>) that carry messages from the Hub and from chat
  providers to the agents of a user and bring their answers back.

  \<^bold>\<open>The program.\<close> A daemon runs on the machine of a user. It logs in (\<open>user-auth.ts\<close>), keeps a control
  connection to the Hub (\<open>control-channel.ts\<close>) and starts one channel adapter per account under a supervisor
  (\<open>gateway.ts\<close>, \<open>channel-manager.ts\<close>). The BotCord adapter (\<open>channels/botcord.ts\<close>) holds a WebSocket, polls its
  inbox, turns Hub messages into inbound envelopes and hands them to the dispatcher. \<open>Dispatcher.handle\<close>
  (\<open>dispatcher.ts\<close>) decides whether an envelope wakes the runtime, resolves its route, queues it and runs one
  turn: it fixes with which rights the runtime may run (\<open>execution-policy.ts\<close>), composes the text
  (\<open>turn-text.ts\<close>), streams what the runtime reports and delivers the reply. Sessions, transcripts, working
  memory, activity and loop detection are kept beside it. The ingress (\<open>gateway-ingress\<close>) is the cloud variant: it
  stores provider events, starts the daemon of the agent and relays events and replies.

  \<^bold>\<open>Foundations.\<close>
  \<^item> \<open>Js_Prelude\<close>: JavaScript values (\<open>jsval\<close>, numbers with infinities), strings, printing of numbers, generic lemmas and
    the \<open>named_theorems\<close> collections; \<open>Js_Regex\<close>: a matcher for the regular expressions of the sources, shown
    equal to a declarative semantics (an inductive relation).
  \<^item> \<open>Kv_Contract\<close>: the contract of string-keyed tables, interpreted on the policy cache and on the session store.
    \<open>Event_Machine\<close>: the contracts of event-driven components (an invariant kept by every event; callers
    conserved along a run), interpreted on the turn stream, the control channel, the inbox, the socket loop, the
    token client, the login manager, the provider adapters and the ingress.

  \<^bold>\<open>Routing and rights.\<close>
  \<^item> \<open>Gateway_Types\<close>, \<open>Routing\<close> (\<open>router.ts\<close>, the keys of queues, sessions and trackers): matching, priority, queue mode,
    and what the keys separate.
  \<^item> \<open>Execution_Policy\<close> (\<open>execution-policy.ts\<close>): who counts as the owner, Hub decisions, grants, profiles. The decision of
    the Hub is an upper bound, a grantee is never given full rights; a profile named like an inherited property
    fails open.
  \<^item> \<open>Attention\<close> (\<open>should-wake.ts\<close>, \<open>policy-resolver.ts\<close>, \<open>mention-scan.ts\<close>, the gate of \<open>daemon.ts\<close>): when a message wakes
    the runtime, and the policy cache with its races.
  \<^item> \<open>Daemon_Config\<close> (\<open>config.ts\<close>, \<open>daemon-config-map.ts\<close>, \<open>runtime-route-options.ts\<close>): from the file to channels and routes. An agent
    runs on its own runtime, accepted routes can run; the restriction of other requesters is lost on the way.
  \<^item> \<open>Canonical_Json\<close> (\<open>crypto.ts\<close>, \<open>session-key.ts\<close>): canonical JSON and what an envelope signature binds.

  \<^bold>\<open>The turn.\<close>
  \<^item> \<open>Batching\<close>, \<open>Turn_Queue\<close>, \<open>Park\<close>, \<open>Auth_Breaker\<close>, \<open>Loop_Risk\<close>, \<open>Dispatch\<close>: deferral and merging of messages, the two
    queue disciplines as step relations (one turn at a time, nothing lost, the newest wins, the queue drains),
    re-wakes, the circuit breaker, the loop guard, and the whole handler of one envelope.
  \<^item> \<open>Turn_Setup\<close>, \<open>Turn_Stream\<close>, \<open>Turn_Run\<close>, with the theorems in \<open>Turn_Safety\<close> and \<open>Turn_Props\<close>: \<open>runTurn\<close> as a list of effects
    against an environment that answers every await. A guest runs confined and leaves the sessions of the owner
    alone, a superseded turn is silent, the text of a runtime reaches a room only through the gate.
  \<^item> \<open>Cli_Runtime\<close> (\<open>ndjson-stream.ts\<close>, \<open>text-cap.ts\<close>), \<open>Codex_Runtime\<close> (\<open>codex.ts\<close>), \<open>Claude_Runtime\<close> (\<open>claude-code.ts\<close>),
    \<open>System_Rules\<close> (\<open>system-rules.ts\<close>): the programs that answer. The program of a guest is confined whatever arguments are
    configured, how its output is cut does not matter, the answer is bounded, a failed program is reported; a
    program that ignores \<open>SIGTERM\<close> is never killed.
  \<^item> \<open>Runtime_Errors\<close>, \<open>Runtime_Failure\<close>, \<open>Response_Protocol\<close>: classification and redaction of failures, the response
    decisions of team conversations.
  \<^item> \<open>Sanitize\<close>, \<open>Turn_Text\<close> (\<open>gateway-sanitize.ts\<close>, \<open>gateway-text.ts\<close>, \<open>turn-text.ts\<close>, \<open>sender-classify.ts\<close>): sanitized text holds
    no wrapper tag, frame attributes are read back as given, a guest is not told to use tools.
  \<^item> \<open>Session_Store\<close>, \<open>Transcript\<close>, \<open>Working_Memory\<close>: the files. The session store refines a map; transcript path segments are
    safe and can be read back; an accepted memory update is what the next reading finds.

  \<^bold>\<open>Connections.\<close>
  \<^item> \<open>Control_Channel\<close> (\<open>control-channel.ts\<close>, \<open>control-frame.ts\<close>): only signed frames are acted on, none twice within the window.
  \<^item> \<open>Channel_Manager\<close> (\<open>channel-manager.ts\<close>, \<open>gateway.ts\<close>): one run per channel, a stopped gateway is quiet.
  \<^item> \<open>Botcord_Inbox\<close>, \<open>Botcord_Socket\<close>, \<open>Botcord_Blocks\<close>, \<open>Botcord_Outbound\<close> (\<open>channels/botcord.ts\<close>): a message is in one turn, a thread is
    handled in order, the loop never stalls, the blocks sent to the Hub are well formed.
  \<^item> \<open>Hub_Client\<close> (\<open>client.ts\<close>, \<open>credentials.ts\<close>, \<open>hub-url.ts\<close>), \<open>User_Auth\<close> (\<open>user-auth.ts\<close>, \<open>start-auth.ts\<close>, \<open>cloud-mode.ts\<close>,
    the login of \<open>index.ts\<close>, \<open>daemon-client.ts\<close>): one refresh at a time, bounded retries, credentials only for a safe Hub.
  \<^item> \<open>Provider_State\<close> (\<open>state-store.ts\<close>), \<open>Telegram\<close> (\<open>telegram.ts\<close>), \<open>Wechat\<close> (\<open>wechat.ts\<close>): the polled providers. A stored cursor
    reaches its file, the cursor only passes what was accepted, only listed senders are heard, a reply goes to the
    one who asked, the token is redacted; under the manager a failed message is lost.
  \<^item> \<open>Cloud_Runtime\<close> (\<open>cloud-settle.ts\<close>, \<open>cloud-gateway-runtime.ts\<close>, \<open>cloud-daemon.ts\<close>): the settlement of runs and the relay of
    ingress events through the dispatcher.
  \<^item> \<open>Ingress\<close> (\<open>storage/store.ts\<close>, \<open>orchestrator.ts\<close>, \<open>runtime/session.ts\<close>): an event is ingested once and kept, its dispatch is
    exclusive, a requeued event comes due.

  \<^bold>\<open>Dashboard.\<close>
  \<^item> \<open>Dashboard_Rooms\<close> (\<open>frontend/src/lib/messages-merge.ts\<close>, \<open>store/dashboard-shared.ts\<close>, \<open>components/dashboard/dmRoom.ts\<close>): the merged
    conversation lists; the badge of every filter is the number of rooms it shows.
  \<^item> \<open>Dashboard_State\<close> (\<open>store/usePresenceStore.ts\<close>, \<open>store/useDashboardUnreadStore.ts\<close>): presence converges whatever the order of
    snapshots, a message newer than a pending read request stays unread.

  \<^bold>\<open>Conventions.\<close> Asynchronous code is cut at its awaits: each stretch between two awaits is one step, and the theorems
  quantify over all interleavings. The file system, the Hub, the clock, random numbers, JSON parsing and
  cryptography are arguments, records of functions or the answers carried by events; where a theorem needs
  something of them it is a hypothesis, with a witness. Errors are values of sum or option types. Numbers
  of JavaScript are rationals with infinities, so rounding is not modelled; times are integers or rationals
  in the unit of the source. Strings are lists of characters of eight bits: a pattern that only matches
  characters outside Latin-1 is left out, and the few such glyphs the code writes are fields of a record
  (\<open>glyphs\<close>). Loops that the code bounds are structural recursions over the answers still to come; recursion
  that is not structural has a termination proof. No fuel is used.

  \<^bold>\<open>Not modelled.\<close> The other runtime adapters (ACP, OpenClaw, DeepSeek, Hermes, Kimi, Gemini) and the Feishu
  adapter speak protocols of other programs and SDKs: they are the environment of the models above. Provisioning,
  diagnostics, installation of skills, log files and the command lines are file and process operations around
  the core. The web and mobile front ends and the desktop shell render state kept elsewhere. The Hub itself is
  a Python service.
\<close>

end
